(* ===== verification/Prelude.thy ===== *)
theory Prelude
  imports Complex_Main
    "HOL-Library.Char_ord" "HOL-Library.List_Lexorder" "HOL-Library.Product_Lexorder"
begin

text \<open>
  Shared vocabulary of the development: transactions as state passing with an error
  value, SQL tables as lists of rows, JSON values, the few string operations of the
  JavaScript standard library the runtime uses, and the lemma collections that carry the
  component proofs.

  A transaction body of the source (a function taking a \<^verbatim>\<open>tx\<close>) is a function from the
  state to an error or a result with the new state. A thrown exception is \<open>Inl\<close>; the
  state reached before the throw is not part of the value, which is the rollback that
  \<^verbatim>\<open>src/db/tx.ts\<close> performs on any throw.
\<close>

named_theorems tx_simps \<open>unfolding of the transaction combinators\<close>
named_theorems hoare_rules \<open>introduction rules for triples over transactions\<close>
named_theorems table_simps \<open>lookups and counts over updated tables\<close>

section \<open>Transactions\<close>

type_synonym ('e, 's, 'a) tx = "'s \<Rightarrow> 'e + 'a \<times> 's"

definition returnT :: "'a \<Rightarrow> ('e, 's, 'a) tx" where
  "returnT x = (\<lambda>s. Inr (x, s))"

definition throwT :: "'e \<Rightarrow> ('e, 's, 'a) tx" where
  "throwT e = (\<lambda>s. Inl e)"

definition bindT :: "('e, 's, 'a) tx \<Rightarrow> ('a \<Rightarrow> ('e, 's, 'b) tx) \<Rightarrow> ('e, 's, 'b) tx" where
  "bindT m f = (\<lambda>s. case m s of Inl e \<Rightarrow> Inl e | Inr r \<Rightarrow> f (fst r) (snd r))"

definition thenT :: "('e, 's, 'a) tx \<Rightarrow> ('e, 's, 'b) tx \<Rightarrow> ('e, 's, 'b) tx" where
  "thenT m n = bindT m (\<lambda>_. n)"

definition getsT :: "('s \<Rightarrow> 'a) \<Rightarrow> ('e, 's, 'a) tx" where
  "getsT f = (\<lambda>s. Inr (f s, s))"

definition modifyT :: "('s \<Rightarrow> 's) \<Rightarrow> ('e, 's, unit) tx" where
  "modifyT f = (\<lambda>s. Inr ((), f s))"

definition ensureT :: "bool \<Rightarrow> 'e \<Rightarrow> ('e, 's, unit) tx" where
  "ensureT b e = (if b then returnT () else throwT e)"

definition whenT :: "bool \<Rightarrow> ('e, 's, unit) tx \<Rightarrow> ('e, 's, unit) tx" where
  "whenT b m = (if b then m else returnT ())"

text \<open>\<^verbatim>\<open>SAVEPOINT\<close> around \<open>m\<close>: a throw rolls back to it and the handler goes on from there.\<close>

definition savepointT :: "('e, 's, 'a) tx \<Rightarrow> ('e \<Rightarrow> ('e, 's, 'a) tx) \<Rightarrow> ('e, 's, 'a) tx" where
  "savepointT m h = (\<lambda>s. case m s of Inl e \<Rightarrow> h e s | Inr r \<Rightarrow> Inr r)"

text \<open>A \<^verbatim>\<open>for\<close> loop with a body that runs in the transaction, collecting the results.\<close>

fun mapT :: "('a \<Rightarrow> ('e, 's, 'b) tx) \<Rightarrow> 'a list \<Rightarrow> ('e, 's, 'b list) tx" where
  "mapT f [] = returnT []"
| "mapT f (x # xs) = bindT (f x) (\<lambda>y. bindT (mapT f xs) (\<lambda>ys. returnT (y # ys)))"

text \<open>
  \<open>commit\<close> runs a transaction against a database: the new state on success, the old one
  on a throw.
\<close>

definition commit :: "('e, 's, 'a) tx \<Rightarrow> 's \<Rightarrow> ('e + 'a) \<times> 's" where
  "commit m s = (case m s of Inl e \<Rightarrow> (Inl e, s) | Inr r \<Rightarrow> (Inr (fst r), snd r))"

lemma bindT_Inr_iff [tx_simps]:
  "bindT m f s = Inr (y, t) \<longleftrightarrow> (\<exists>x u. m s = Inr (x, u) \<and> f x u = Inr (y, t))"
  by (auto simp: bindT_def split: sum.splits)

lemma bindT_Inl_iff [tx_simps]:
  "bindT m f s = Inl e \<longleftrightarrow> m s = Inl e \<or> (\<exists>x u. m s = Inr (x, u) \<and> f x u = Inl e)"
  by (auto simp: bindT_def split: sum.splits)

lemma thenT_Inr_iff [tx_simps]:
  "thenT m n s = Inr (y, t) \<longleftrightarrow> (\<exists>x u. m s = Inr (x, u) \<and> n u = Inr (y, t))"
  by (simp add: thenT_def tx_simps)

lemma thenT_Inl_iff [tx_simps]:
  "thenT m n s = Inl e \<longleftrightarrow> m s = Inl e \<or> (\<exists>x u. m s = Inr (x, u) \<and> n u = Inl e)"
  by (simp add: thenT_def tx_simps)

lemma returnT_iff [tx_simps]: "returnT x s = Inr (y, t) \<longleftrightarrow> y = x \<and> t = s"
  by (auto simp: returnT_def)

lemma returnT_not_Inl [tx_simps]: "returnT x s = Inl e \<longleftrightarrow> False"
  by (simp add: returnT_def)

lemma throwT_iff [tx_simps]: "throwT e s = Inl e' \<longleftrightarrow> e' = e"
  by (auto simp: throwT_def)

lemma throwT_not_Inr [tx_simps]: "throwT e s = Inr r \<longleftrightarrow> False"
  by (simp add: throwT_def)

lemma getsT_iff [tx_simps]: "getsT f s = Inr (y, t) \<longleftrightarrow> y = f s \<and> t = s"
  by (auto simp: getsT_def)

lemma getsT_not_Inl [tx_simps]: "getsT f s = Inl e \<longleftrightarrow> False"
  by (simp add: getsT_def)

lemma modifyT_iff [tx_simps]: "modifyT f s = Inr (y, t) \<longleftrightarrow> t = f s"
  by (auto simp: modifyT_def)

lemma modifyT_not_Inl [tx_simps]: "modifyT f s = Inl e \<longleftrightarrow> False"
  by (simp add: modifyT_def)

lemma ensureT_iff [tx_simps]: "ensureT b e s = Inr (y, t) \<longleftrightarrow> b \<and> t = s"
  by (auto simp: ensureT_def tx_simps)

lemma ensureT_Inl_iff [tx_simps]: "ensureT b e s = Inl e' \<longleftrightarrow> \<not> b \<and> e' = e"
  by (auto simp: ensureT_def tx_simps)

lemma whenT_iff [tx_simps]:
  "whenT b m s = Inr (y, t) \<longleftrightarrow> (if b then m s = Inr (y, t) else t = s)"
  by (auto simp: whenT_def tx_simps)

lemma whenT_Inl_iff [tx_simps]: "whenT b m s = Inl e \<longleftrightarrow> b \<and> m s = Inl e"
  by (auto simp: whenT_def tx_simps)

lemma savepointT_iff [tx_simps]:
  "savepointT m h s = Inr (y, t) \<longleftrightarrow> m s = Inr (y, t) \<or> (\<exists>e. m s = Inl e \<and> h e s = Inr (y, t))"
  by (auto simp: savepointT_def split: sum.splits)

text \<open>The same combinators as rewrite rules, for evaluating a transaction on a concrete state.\<close>

lemmas tx_eval =
  returnT_def throwT_def bindT_def thenT_def getsT_def modifyT_def ensureT_def whenT_def commit_def

subsection \<open>Triples\<close>

text \<open>
  \<open>hoare P m Q\<close>: a run of \<open>m\<close> from a state in \<open>P\<close> that commits ends with a result and
  a state in \<open>Q\<close>. \<open>keeps P m\<close> is the invariant case.
\<close>

definition hoare :: "('s \<Rightarrow> bool) \<Rightarrow> ('e, 's, 'a) tx \<Rightarrow> ('a \<Rightarrow> 's \<Rightarrow> bool) \<Rightarrow> bool" where
  "hoare P m Q \<longleftrightarrow> (\<forall>s x t. P s \<longrightarrow> m s = Inr (x, t) \<longrightarrow> Q x t)"

abbreviation keeps :: "('s \<Rightarrow> bool) \<Rightarrow> ('e, 's, 'a) tx \<Rightarrow> bool" where
  "keeps P m \<equiv> hoare P m (\<lambda>_. P)"

lemma hoareI: "(\<And>s x t. P s \<Longrightarrow> m s = Inr (x, t) \<Longrightarrow> Q x t) \<Longrightarrow> hoare P m Q"
  by (simp add: hoare_def)

lemma hoareD: "hoare P m Q \<Longrightarrow> P s \<Longrightarrow> m s = Inr (x, t) \<Longrightarrow> Q x t"
  by (simp add: hoare_def)

lemma hoare_bindT:
  "hoare P m R \<Longrightarrow> (\<And>x. hoare (R x) (f x) Q) \<Longrightarrow> hoare P (bindT m f) Q"
  by (fastforce simp: hoare_def tx_simps)

lemma hoare_thenT:
  "hoare P m R \<Longrightarrow> (\<And>x. hoare (R x) n Q) \<Longrightarrow> hoare P (thenT m n) Q"
  unfolding thenT_def by (rule hoare_bindT)

lemma keeps_bindT [hoare_rules]:
  "keeps P m \<Longrightarrow> (\<And>x. keeps P (f x)) \<Longrightarrow> keeps P (bindT m f)"
  by (rule hoare_bindT)

lemma keeps_thenT [hoare_rules]: "keeps P m \<Longrightarrow> keeps P n \<Longrightarrow> keeps P (thenT m n)"
  by (rule hoare_thenT)

lemma keeps_returnT [hoare_rules]: "keeps P (returnT x)"
  by (auto intro!: hoareI simp: tx_simps)

lemma keeps_throwT [hoare_rules]: "hoare P (throwT e) Q"
  by (auto intro!: hoareI simp: tx_simps)

lemma keeps_getsT [hoare_rules]: "keeps P (getsT f)"
  by (auto intro!: hoareI simp: tx_simps)

lemma keeps_modifyT: "(\<And>s. P s \<Longrightarrow> P (f s)) \<Longrightarrow> keeps P (modifyT f)"
  by (auto intro!: hoareI simp: tx_simps)

lemma keeps_ensureT [hoare_rules]: "keeps P (ensureT b e)"
  by (auto intro!: hoareI simp: tx_simps)

lemma hoare_ensureT: "hoare P (ensureT b e) (\<lambda>_ s. P s \<and> b)"
  by (auto intro!: hoareI simp: tx_simps)

lemma keeps_whenT [hoare_rules]: "keeps P m \<Longrightarrow> keeps P (whenT b m)"
  by (auto intro!: hoareI simp: tx_simps dest: hoareD split: if_splits)

lemma hoare_if [hoare_rules]:
  "(b \<Longrightarrow> hoare P m Q) \<Longrightarrow> (\<not> b \<Longrightarrow> hoare P n Q) \<Longrightarrow> hoare P (if b then m else n) Q"
  by simp

lemma hoare_option [hoare_rules]:
  "(x = None \<Longrightarrow> hoare P m Q) \<Longrightarrow> (\<And>y. x = Some y \<Longrightarrow> hoare P (f y) Q) \<Longrightarrow>
   hoare P (case x of None \<Rightarrow> m | Some y \<Rightarrow> f y) Q"
  by (cases x) auto

lemma hoare_list [hoare_rules]:
  "(xs = [] \<Longrightarrow> hoare P m Q) \<Longrightarrow> (\<And>y ys. xs = y # ys \<Longrightarrow> hoare P (f y ys) Q) \<Longrightarrow>
   hoare P (case xs of [] \<Rightarrow> m | y # ys \<Rightarrow> f y ys) Q"
  by (cases xs) auto

lemma hoare_pair [hoare_rules]:
  "(\<And>a b. x = (a, b) \<Longrightarrow> hoare P (f a b) Q) \<Longrightarrow> hoare P (case x of (a, b) \<Rightarrow> f a b) Q"
  by (cases x) auto

lemma hoare_let [hoare_rules]: "(\<And>x. x = e \<Longrightarrow> hoare P (f x) Q) \<Longrightarrow> hoare P (let x = e in f x) Q"
  by simp

lemma keeps_mapT [hoare_rules]: "(\<And>x. x \<in> set xs \<Longrightarrow> keeps P (f x)) \<Longrightarrow> keeps P (mapT f xs)"
  by (induction xs) (auto intro!: hoare_rules)

lemma keeps_savepointT [hoare_rules]:
  "keeps P m \<Longrightarrow> (\<And>e. keeps P (h e)) \<Longrightarrow> keeps P (savepointT m h)"
  unfolding hoare_def savepointT_iff by blast

lemma commit_keeps: "keeps P m \<Longrightarrow> P s \<Longrightarrow> P (snd (commit m s))"
  by (auto simp: commit_def split: sum.splits dest: hoareD)

lemma commit_rollback: "fst (commit m s) = Inl e \<Longrightarrow> snd (commit m s) = s"
  by (auto simp: commit_def split: sum.splits)

section \<open>Tables\<close>

text \<open>
  A table is the list of its rows in insertion order. \<^verbatim>\<open>UPDATE .. WHERE\<close> rewrites the
  matching rows in place, a lookup by key is the first match, \<^verbatim>\<open>ORDER BY\<close> is a stable
  sort.
\<close>

definition update_where :: "('r \<Rightarrow> bool) \<Rightarrow> ('r \<Rightarrow> 'r) \<Rightarrow> 'r list \<Rightarrow> 'r list" where
  "update_where p f rows = map (\<lambda>r. if p r then f r else r) rows"

definition row_count :: "('r \<Rightarrow> bool) \<Rightarrow> 'r list \<Rightarrow> nat" where
  "row_count p rows = length (filter p rows)"

definition exists_row :: "('r \<Rightarrow> bool) \<Rightarrow> 'r list \<Rightarrow> bool" where
  "exists_row p rows = list_ex p rows"

lemma exists_row_iff [table_simps]: "exists_row p rows \<longleftrightarrow> (\<exists>r \<in> set rows. p r)"
  by (auto simp: exists_row_def list_ex_iff)

lemma update_where_Nil [table_simps]: "update_where p f [] = []"
  by (simp add: update_where_def)

lemma update_where_Cons [table_simps]:
  "update_where p f (r # rows) = (if p r then f r else r) # update_where p f rows"
  by (simp add: update_where_def)

lemma length_update_where [table_simps]: "length (update_where p f rows) = length rows"
  by (simp add: update_where_def)

lemma set_update_where: "set (update_where p f rows) = (\<lambda>r. if p r then f r else r) ` set rows"
  by (simp add: update_where_def)

lemma in_update_whereI:
  "r \<in> set rows \<Longrightarrow> (if p r then f r else r) \<in> set (update_where p f rows)"
  by (simp add: set_update_where)

lemma in_update_whereE:
  assumes "r' \<in> set (update_where p f rows)"
  obtains r where "r \<in> set rows" and "r' = (if p r then f r else r)"
  using assms unfolding set_update_where by blast

lemma update_where_none [table_simps]: "(\<forall>r \<in> set rows. \<not> p r) \<Longrightarrow> update_where p f rows = rows"
  by (induction rows) (auto simp: update_where_def)

lemma map_update_where [table_simps]:
  "(\<And>r. k (f r) = k r) \<Longrightarrow> map k (update_where p f rows) = map k rows"
  by (simp add: update_where_def)

lemma find_key_update [table_simps]:
  "(\<And>r. k (f r) = k r) \<Longrightarrow>
   find (\<lambda>r. k r = x) (update_where p f rows) =
   map_option (\<lambda>r. if p r then f r else r) (find (\<lambda>r. k r = x) rows)"
  by (induction rows) (auto simp: update_where_def)

lemma find_update_where:
  "(\<And>r. q (f r) = q r) \<Longrightarrow>
   find q (update_where p f rows) = map_option (\<lambda>r. if p r then f r else r) (find q rows)"
  by (induction rows) (auto simp: update_where_def)

lemma exists_row_update_where:
  "(\<And>r. q (f r) = q r) \<Longrightarrow> exists_row q (update_where p f rows) = exists_row q rows"
  by (induction rows) (auto simp: update_where_def exists_row_def)

lemma find_Some_iff_key:
  "distinct (map k rows) \<Longrightarrow> find (\<lambda>r. k r = x) rows = Some r \<longleftrightarrow> r \<in> set rows \<and> k r = x"
  by (induction rows) (auto simp: image_iff)

lemma find_SomeD: "find p rows = Some r \<Longrightarrow> r \<in> set rows \<and> p r"
  by (induction rows) (auto split: if_splits)

lemma find_None_iff_all: "find p rows = None \<longleftrightarrow> (\<forall>r \<in> set rows. \<not> p r)"
  by (induction rows) auto

lemma find_append [table_simps]:
  "find p (xs @ ys) = (case find p xs of None \<Rightarrow> find p ys | Some r \<Rightarrow> Some r)"
  by (induction xs) auto

lemma filter_update_where_key [table_simps]:
  "(\<And>r. q (f r) = q r) \<Longrightarrow>
   filter q (update_where p f rows) = update_where p f (filter q rows)"
  by (induction rows) (auto simp: update_where_def)

lemma upto_append: "a \<le> b \<Longrightarrow> b \<le> c \<Longrightarrow> [a + 1..b] @ [b + 1..c] = [a + 1..c]" for a b c :: int
  by (cases "a = b") (simp_all add: upto_split2 [of "a + 1" b c])

section \<open>Strings\<close>

text \<open>
  Strings are lists of bytes (UTF-8), so \<open>length\<close> is \<^verbatim>\<open>Buffer.byteLength\<close>.
  \<open>toLowerCase\<close> is the ASCII part of the JavaScript method.
\<close>

definition lower_char :: "char \<Rightarrow> char" where
  "lower_char c =
     (let n = of_char c :: nat in if 65 \<le> n \<and> n \<le> 90 then char_of (n + 32) else c)"

definition toLowerCase :: "string \<Rightarrow> string" where
  "toLowerCase s = map lower_char s"

definition upper_char :: "char \<Rightarrow> char" where
  "upper_char c =
     (let n = of_char c :: nat in if 97 \<le> n \<and> n \<le> 122 then char_of (n - 32) else c)"

definition toUpperCase :: "string \<Rightarrow> string" where
  "toUpperCase s = map upper_char s"

fun startsWith :: "string \<Rightarrow> string \<Rightarrow> bool" where
  "startsWith s [] = True"
| "startsWith [] (c # p) = False"
| "startsWith (a # s) (c # p) = (a = c \<and> startsWith s p)"

definition endsWith :: "string \<Rightarrow> string \<Rightarrow> bool" where
  "endsWith s p = startsWith (rev s) (rev p)"

fun str_includes :: "string \<Rightarrow> string \<Rightarrow> bool" where
  "str_includes [] p = (p = [])"
| "str_includes (c # s) p = (startsWith (c # s) p \<or> str_includes s p)"

lemma startsWith_iff: "startsWith s p \<longleftrightarrow> (\<exists>rest. s = p @ rest)"
  by (induction s p rule: startsWith.induct) auto

lemma endsWith_iff: "endsWith s p \<longleftrightarrow> (\<exists>front. s = front @ p)"
  unfolding endsWith_def startsWith_iff
  by (metis rev_append rev_rev_ident)

lemma str_includes_iff: "str_includes s p \<longleftrightarrow> (\<exists>front rest. s = front @ p @ rest)"
proof (induction s)
  case Nil
  then show ?case by auto
next
  case (Cons c s)
  note IH = Cons.IH
  show ?case
  proof
    assume "str_includes (c # s) p"
    then consider "startsWith (c # s) p" | "str_includes s p" by auto
    then show "\<exists>front rest. c # s = front @ p @ rest"
    proof cases
      case 1
      then obtain rest where "c # s = [] @ p @ rest" by (auto simp: startsWith_iff)
      then show ?thesis by blast
    next
      case 2
      then obtain front rest where "s = front @ p @ rest" using Cons.IH by blast
      then have "c # s = (c # front) @ p @ rest" by simp
      then show ?thesis by blast
    qed
  next
    assume "\<exists>front rest. c # s = front @ p @ rest"
    then obtain front rest where eq: "c # s = front @ p @ rest" by blast
    show "str_includes (c # s) p"
    proof (cases front)
      case Nil
      with eq have "startsWith (c # s) p" by (auto simp: startsWith_iff)
      then show ?thesis by simp
    next
      case (Cons d front')
      with eq have "s = front' @ p @ rest" by simp
      then have "str_includes s p" using IH by blast
      then show ?thesis by simp
    qed
  qed
qed

text \<open>Decimal digits of a number, as \<^verbatim>\<open>String(n)\<close> prints an integer.\<close>

fun nat_digits :: "nat \<Rightarrow> string" where
  "nat_digits n =
     (if n < 10 then [char_of (48 + n)] else nat_digits (n div 10) @ [char_of (48 + n mod 10)])"

declare nat_digits.simps [simp del]

definition int_digits :: "int \<Rightarrow> string" where
  "int_digits i = (if i < 0 then CHR ''-'' # nat_digits (nat (- i)) else nat_digits (nat i))"

section \<open>JSON values\<close>

text \<open>
  A JSON object is the list of its entries in insertion order, as \<^verbatim>\<open>Object.entries\<close>
  gives them.
\<close>

datatype json =
    JNull
  | JBool bool
  | JNum rat
  | JStr string
  | JArr "json list"
  | JObj "(string \<times> json) list"

text \<open>
  \<open>jset\<close> is the assignment \<^verbatim>\<open>obj[key] = value\<close> (an existing key keeps its place),
  \<open>jspread\<close> the spread \<^verbatim>\<open>{...a, ...b}\<close>.
\<close>

fun jset :: "string \<Rightarrow> json \<Rightarrow> (string \<times> json) list \<Rightarrow> (string \<times> json) list" where
  "jset k v [] = [(k, v)]"
| "jset k v ((k', v') # kvs) = (if k' = k then (k, v) # kvs else (k', v') # jset k v kvs)"

definition jspread :: "(string \<times> json) list \<Rightarrow> (string \<times> json) list \<Rightarrow> (string \<times> json) list" where
  "jspread a b = fold (\<lambda>(k, v) acc. jset k v acc) b a"

definition jfield :: "(string \<times> json) list \<Rightarrow> string \<Rightarrow> json option" where
  "jfield kvs k = map_of kvs k"

lemma map_of_jset [simp]: "map_of (jset k v kvs) = (map_of kvs)(k \<mapsto> v)"
  by (induction k v kvs rule: jset.induct) (auto simp: fun_eq_iff)

lemma jfield_jset [simp]: "jfield (jset k v kvs) k' = (if k' = k then Some v else jfield kvs k')"
  by (simp add: jfield_def)

lemma jspread_simps [simp]:
  "jspread a [] = a"
  "jspread a ((k, v) # b) = jspread (jset k v a) b"
  by (simp_all add: jspread_def)

lemma jfield_jspread:
  "distinct (map fst b) \<Longrightarrow>
   jfield (jspread a b) k = (case jfield b k of None \<Rightarrow> jfield a k | Some v \<Rightarrow> Some v)"
proof (induction b arbitrary: a)
  case Nil
  then show ?case by (simp add: jfield_def)
next
  case (Cons kv b)
  obtain k' v where kv: "kv = (k', v)" by (cases kv)
  have "jfield (jspread (jset k' v a) b) k =
      (case jfield b k of None \<Rightarrow> jfield (jset k' v a) k | Some w \<Rightarrow> Some w)"
    using Cons by simp
  moreover have "k = k' \<Longrightarrow> jfield b k = None"
    using Cons.prems kv by (auto simp: jfield_def map_of_eq_None_iff)
  ultimately show ?case
    using kv by (auto simp: jfield_def split: option.splits)
qed

definition jint :: "int \<Rightarrow> json" where
  "jint i = JNum (of_int i)"

definition jopt :: "('a \<Rightarrow> json) \<Rightarrow> 'a option \<Rightarrow> json" where
  "jopt f x = (case x of None \<Rightarrow> JNull | Some v \<Rightarrow> f v)"

lemma jint_inject [simp]: "jint a = jint b \<longleftrightarrow> a = b"
  by (simp add: jint_def)

end
