(* ===== verification/Schema.thy ===== *)
theory Schema
  imports Prelude
begin

text \<open>
  The resource model: run statuses and event types of \<^verbatim>\<open>src/core/types.ts\<close>, one record
  per table of \<^verbatim>\<open>migrations/\<close> that the modelled code reads or writes, the database as a
  record of tables, the errors the modelled code throws, and the identifier supply of
  \<^verbatim>\<open>src/ids.ts\<close>. BIGINT columns, which the driver returns as strings, are \<open>int\<close>; a
  nullable column is an \<open>option\<close>; times are milliseconds.
\<close>

section \<open>Statuses and events\<close>

datatype run_status =
    CREATED | RESOLVING | QUEUED | STARTING | RUNNING
  | WAITING_APPROVAL | WAITING_SIGNAL | WAITING_CHILDREN | SLEEPING | SUSPENDED
  | RETRY_PENDING | VERIFYING | COMPLETED | FAILED | CANCELLED

definition RUN_STATUSES :: "run_status list" where
  "RUN_STATUSES =
     [CREATED, RESOLVING, QUEUED, STARTING, RUNNING, WAITING_APPROVAL, WAITING_SIGNAL,
      WAITING_CHILDREN, SLEEPING, SUSPENDED, RETRY_PENDING, VERIFYING, COMPLETED, FAILED,
      CANCELLED]"

lemma UNIV_run_status: "UNIV = set RUN_STATUSES"
proof
  show "UNIV \<subseteq> set RUN_STATUSES"
  proof
    fix s :: run_status
    show "s \<in> set RUN_STATUSES" by (cases s) (simp_all add: RUN_STATUSES_def)
  qed
qed simp

instantiation run_status :: enum
begin

definition enum_run_status :: "run_status list" where
  "enum_run_status = RUN_STATUSES"

definition enum_all_run_status :: "(run_status \<Rightarrow> bool) \<Rightarrow> bool" where
  "enum_all_run_status P = list_all P RUN_STATUSES"

definition enum_ex_run_status :: "(run_status \<Rightarrow> bool) \<Rightarrow> bool" where
  "enum_ex_run_status P = list_ex P RUN_STATUSES"

instance
proof
  show "(UNIV :: run_status set) = set enum_class.enum"
    unfolding enum_run_status_def by (rule UNIV_run_status)
  show "distinct (enum_class.enum :: run_status list)"
    by (simp add: enum_run_status_def RUN_STATUSES_def)
  show "enum_class.enum_all P = Ball UNIV P" for P :: "run_status \<Rightarrow> bool"
    by (simp add: enum_all_run_status_def UNIV_run_status list_all_iff)
  show "enum_class.enum_ex P = Bex UNIV P" for P :: "run_status \<Rightarrow> bool"
    by (simp add: enum_ex_run_status_def UNIV_run_status list_ex_iff)
qed

end

definition run_status_name :: "run_status \<Rightarrow> string" where
  "run_status_name s =
     (case s of
        CREATED \<Rightarrow> ''CREATED'' | RESOLVING \<Rightarrow> ''RESOLVING'' | QUEUED \<Rightarrow> ''QUEUED''
      | STARTING \<Rightarrow> ''STARTING'' | RUNNING \<Rightarrow> ''RUNNING''
      | WAITING_APPROVAL \<Rightarrow> ''WAITING_APPROVAL'' | WAITING_SIGNAL \<Rightarrow> ''WAITING_SIGNAL''
      | WAITING_CHILDREN \<Rightarrow> ''WAITING_CHILDREN'' | SLEEPING \<Rightarrow> ''SLEEPING''
      | SUSPENDED \<Rightarrow> ''SUSPENDED'' | RETRY_PENDING \<Rightarrow> ''RETRY_PENDING''
      | VERIFYING \<Rightarrow> ''VERIFYING'' | COMPLETED \<Rightarrow> ''COMPLETED'' | FAILED \<Rightarrow> ''FAILED''
      | CANCELLED \<Rightarrow> ''CANCELLED'')"

datatype attempt_state = AS_ACTIVE | AS_EXITED | AS_ORPHANED

datatype epoch_exit =
    Ex_completed | Ex_suspended_for_approval | Ex_suspended_for_signal
  | Ex_suspended_for_children | Ex_budget_exhausted | Ex_error | Ex_failed
  | Ex_lease_lost | Ex_cancelled

definition epoch_exit_name :: "epoch_exit \<Rightarrow> string" where
  "epoch_exit_name e =
     (case e of
        Ex_completed \<Rightarrow> ''completed''
      | Ex_suspended_for_approval \<Rightarrow> ''suspended_for_approval''
      | Ex_suspended_for_signal \<Rightarrow> ''suspended_for_signal''
      | Ex_suspended_for_children \<Rightarrow> ''suspended_for_children''
      | Ex_budget_exhausted \<Rightarrow> ''budget_exhausted''
      | Ex_error \<Rightarrow> ''error'' | Ex_failed \<Rightarrow> ''failed''
      | Ex_lease_lost \<Rightarrow> ''lease_lost'' | Ex_cancelled \<Rightarrow> ''cancelled'')"

datatype event_type =
    RunCreated | AgentVersionResolved | CapabilitiesResolved | RunQueued
  | AttemptStarted | AttemptExited | AttemptOrphaned | SandboxAllocated | SandboxTerminated
  | WorkspaceRestored | WorkspaceCheckpointed | ContextCompiled
  | ModelInvocationStarted | ModelInvocationCompleted
  | ActionProposed | ActionAuthorized | ActionDenied
  | ToolInvoked | ToolInvocationStarted | ToolInvocationCommitted | ToolInvocationFailed
  | ProgressUpdated | LoopDetected | StagnationDetected | ContextLossDetected
  | SemanticRecoveryApplied | ModelEscalated | BudgetPlanUpdated | SignalReceived
  | ChildRunSpawned | ChildRunReplaced | ChildReplacementDeferred | ChildrenResolved
  | ApprovalRequested | ApprovalReceived | ApprovalDenied | UserMessageReceived
  | RetryScheduled | VerificationStarted | VerificationPassed | VerificationFailed
  | RunCompleted | RunFailed | RunCancelled

text \<open>\<open>awaited_signal_schema\<close>, the shape a signal payload has to have.\<close>

datatype prim_type = PT_string | PT_number | PT_integer | PT_boolean | PT_object | PT_array | PT_null

record signal_schema =
  sch_object :: bool                      \<comment> \<open>\<^verbatim>\<open>type: 'object'\<close>; otherwise \<^verbatim>\<open>'any'\<close>\<close>
  sch_required :: "string list"
  sch_properties :: "(string \<times> prim_type) list"
  sch_additional :: "bool option"

section \<open>Rows\<close>

record run_row =
  run_id :: string
  run_tenant_id :: string
  run_managed_session_id :: "string option"
  run_agent_version_id :: string
  run_parent_run_id :: "string option"
  run_replaces_run_id :: "string option"
  run_replacement_generation :: int
  run_forked_from_run_id :: "string option"
  run_goal :: string
  run_input :: "(string \<times> json) list"
  run_status :: run_status
  run_status_reason :: "string option"
  run_result :: "json option"
  run_result_size_bytes :: "int option"
  run_progress :: json
  run_workspace_id :: "string option"
  run_current_attempt_id :: "string option"
  run_last_event_seq :: int
  run_max_steps :: int
  run_token_budget :: "int option"
  run_tokens_used :: int
  run_awaited_signal :: "string option"
  run_awaited_correlation :: "string option"
  run_awaited_schema :: "signal_schema option"
  run_scheduled_for :: "int option"
  run_debug_fault_points :: "string list"
  run_created_at :: int
  run_updated_at :: int

record event_row =
  ev_run_id :: string
  ev_seq :: int
  ev_type :: event_type
  ev_payload :: "(string \<times> json) list"
  ev_attempt_id :: "string option"
  ev_created_at :: int

record outbox_row =
  ob_id :: nat
  ob_topic :: string
  ob_key :: string
  ob_payload :: "(string \<times> json) list"
  ob_published_at :: "int option"

record attempt_row =
  att_id :: string
  att_run_id :: string
  att_no :: int
  att_worker_id :: string
  att_state :: attempt_state
  att_lease_expires_at :: int
  att_heartbeat_at :: int
  att_sandbox_id :: "string option"
  att_sandbox_domain :: "string option"
  att_exit_reason :: "string option"

datatype admission_kind = AK_direct | AK_fork | AK_delegated | AK_replacement

record admission_row =
  adm_run_id :: string
  adm_tenant_id :: string
  adm_kind :: admission_kind
  adm_active :: bool                       \<comment> \<open>\<^verbatim>\<open>status = 'active'\<close>; otherwise \<^verbatim>\<open>'released'\<close>\<close>
  adm_reserved_tokens :: int
  adm_released_at :: "int option"
  adm_release_reason :: "string option"

record tenant_row =
  ten_id :: string
  ten_active :: bool                       \<comment> \<open>\<^verbatim>\<open>status = 'active'\<close>; otherwise \<^verbatim>\<open>'suspended'\<close>\<close>
  ten_max_concurrent_runs :: "int option"
  ten_daily_token_budget :: "int option"

record grant_row =
  gr_id :: string
  gr_run_id :: string
  gr_action_pattern :: string
  gr_resource_pattern :: string
  gr_requires_approval :: bool
  gr_max_calls :: "int option"
  gr_calls_used :: int
  gr_expires_at :: "int option"
  gr_created_at :: int

datatype approval_status = AP_PENDING | AP_APPROVED | AP_DENIED | AP_EXPIRED

datatype risk = Risk_read | Risk_workspace_write | Risk_external_write

record semantic_action =
  sa_action :: string
  sa_resource :: string
  sa_arguments :: "(string \<times> json) list"
  sa_risk :: risk

record approval_row =
  ap_id :: string
  ap_run_id :: string
  ap_attempt_id :: "string option"
  ap_action :: semantic_action
  ap_status :: approval_status
  ap_decision_by :: "string option"
  ap_decided_at :: "int option"
  ap_expires_at :: "int option"
  ap_created_at :: int

datatype receipt_status = RS_PENDING | RS_COMMITTED | RS_FAILED | RS_NEEDS_RECONCILIATION

record receipt_row =
  rc_id :: string
  rc_run_id :: string
  rc_attempt_id :: string
  rc_step :: int
  rc_semantic_action :: string
  rc_request_digest :: string
  rc_idempotency_key :: string
  rc_approval_id :: "string option"
  rc_status :: receipt_status
  rc_external_txn_id :: "string option"
  rc_result_digest :: "string option"
  rc_result :: "json option"
  rc_reversibility :: string
  rc_started_at :: int
  rc_completed_at :: "int option"

datatype session_state = SS_IDLE | SS_ACTIVE | SS_WAITING | SS_REQUIRES_ACTION | SS_CANCELLED | SS_ARCHIVED

record session_row =
  ses_id :: string
  ses_tenant_id :: string
  ses_principal_id :: string
  ses_agent_version_id :: string
  ses_objective :: string
  ses_correlation_ref :: "string option"
  ses_state :: session_state
  ses_version :: int
  ses_policy :: json
  ses_credential_grant_refs :: "string list"
  ses_current_run :: "string option"
  ses_received_event_seq :: int
  ses_created_at :: int
  ses_updated_at :: int

record command_row =
  cmd_id :: string
  cmd_tenant_id :: string
  cmd_principal_id :: string
  cmd_operation :: string
  cmd_target_scope :: string
  cmd_idempotency_key :: string
  cmd_request_digest :: string
  cmd_session_id :: "string option"

datatype session_event_type = SE_signal_received | SE_objective_requested | SE_feedback_received

datatype dispatch_class = DC_current_run | DC_future_run

datatype session_event_status = ES_PENDING | ES_CONSUMED | ES_DISPATCHED | ES_STALE

record session_event_row =
  sev_id :: string
  sev_tenant_id :: string
  sev_session_id :: string
  sev_source_type :: string
  sev_source_id :: string
  sev_source_event_id :: string
  sev_source_sequence :: "int option"
  sev_payload_digest :: string
  sev_received_sequence :: int
  sev_api_version :: string
  sev_type :: session_event_type
  sev_occurred_at :: string
  sev_subject :: "json option"
  sev_data :: "(string \<times> json) list"
  sev_snapshot_refs :: json
  sev_correlation_id :: "string option"
  sev_dispatch_class :: dispatch_class
  sev_status :: session_event_status
  sev_status_reason :: "string option"
  sev_run_id :: "string option"
  sev_dispatch_after :: int
  sev_created_at :: int
  sev_consumed_at :: "int option"

record artifact_row =
  art_id :: string
  art_producer_run_id :: string
  art_producer_attempt_id :: string
  art_producer_step :: int
  art_schema_version :: int
  art_digest :: string
  art_mime_type :: string
  art_size_bytes :: int
  art_logical_role :: string
  art_source_path :: string
  art_source_refs :: "json list"
  art_verification_refs :: "json list"
  art_evidence_refs :: "json list"
  art_object_key :: string
  art_created_at :: int

record revision_row =
  rev_id :: string
  rev_workspace_id :: string
  rev_parent_revision_id :: "string option"
  rev_tos_key :: string
  rev_digest :: string
  rev_size_bytes :: "int option"
  rev_created_by_attempt_id :: "string option"
  rev_created_at :: int

record checkpoint_row =
  ck_id :: string
  ck_run_id :: string
  ck_attempt_id :: string
  ck_event_seq :: int
  ck_workspace_revision_id :: "string option"
  ck_progress :: json
  ck_agent_state :: json
  ck_schema_version :: int
  ck_created_at :: int

section \<open>The database\<close>

text \<open>
  \<open>w_versions\<close> joins \<^verbatim>\<open>agent_versions\<close> with the tenant of its definition, and
  \<open>w_workspaces\<close> pairs a workspace with its run; \<open>w_heads\<close> gives the head revision of a
  workspace that has one. \<open>w_ulid\<close> is the \<^verbatim>\<open>ulid\<close> package's
  generator, which is not part of the repository: the \<open>n\<close>-th call returns
  \<open>w_ulid n\<close>, and \<open>w_ulid_next\<close> counts the calls.

  Two choices of PostgreSQL are parameters as well. \<open>w_outbox_seq\<close> is the sequence of the
  \<^verbatim>\<open>BIGSERIAL\<close> key of the outbox: a sequence is not transactional, so a row that becomes visible
  later can have drawn its number earlier, and numbers of transactions that were rolled back are
  missing; \<open>w_outbox_seq n\<close> is the number that the \<open>n\<close>-th row to become visible had drawn.
  \<open>w_scan\<close> is the place of a checkpoint among those that an \<^verbatim>\<open>ORDER BY\<close> does not tell apart.
\<close>

record world =
  w_runs :: "run_row list"
  w_events :: "event_row list"
  w_outbox :: "outbox_row list"
  w_attempts :: "attempt_row list"
  w_admissions :: "admission_row list"
  w_tenants :: "tenant_row list"
  w_versions :: "(string \<times> string) list"
  w_workspaces :: "(string \<times> string) list"
  w_grants :: "grant_row list"
  w_approvals :: "approval_row list"
  w_receipts :: "receipt_row list"
  w_sessions :: "session_row list"
  w_commands :: "command_row list"
  w_session_events :: "session_event_row list"
  w_artifacts :: "artifact_row list"
  w_heads :: "(string \<times> string) list"
  w_revisions :: "revision_row list"
  w_checkpoints :: "checkpoint_row list"
  w_now :: int
  w_ulid :: "nat \<Rightarrow> string"
  w_ulid_next :: nat
  w_outbox_seq :: "nat \<Rightarrow> nat"
  w_scan :: "checkpoint_row \<Rightarrow> nat"

datatype admission_reason = tenant_unavailable | concurrency_exhausted | token_capacity_exhausted

datatype err =
    RunNotFoundError string
  | UnexpectedStatusError string run_status "run_status list"
  | InvalidTransitionError string run_status run_status
  | RunAdmissionRejectedError admission_reason
  | AgentVersionTenantMismatchError string string
  | ManagedSessionAdmissionError string
  | SessionIdempotencyConflictError
  | SessionEventConflictError
  | SessionEventDeliveryError string
  | UniqueViolation string                  \<comment> \<open>a unique index of the schema rejects the row\<close>
  | UnsupportedCheckpointVersionError "json option"   \<comment> \<open>the value; the code converts it with \<^verbatim>\<open>Number\<close>\<close>
  | GenericError string

type_synonym 'a txn = "(err, world, 'a) tx"

definition newId :: "string \<Rightarrow> string txn" where
  "newId prefix =
     (\<lambda>w. Inr (prefix @ ''_'' @ toLowerCase (w_ulid w (w_ulid_next w)),
               w\<lparr>w_ulid_next := Suc (w_ulid_next w)\<rparr>))"

definition find_run :: "world \<Rightarrow> string \<Rightarrow> run_row option" where
  "find_run w rid = find (\<lambda>r. run_id r = rid) (w_runs w)"

definition find_attempt :: "world \<Rightarrow> string \<Rightarrow> attempt_row option" where
  "find_attempt w aid = find (\<lambda>a. att_id a = aid) (w_attempts w)"

definition find_session :: "world \<Rightarrow> string \<Rightarrow> session_row option" where
  "find_session w sid = find (\<lambda>s. ses_id s = sid) (w_sessions w)"

definition find_tenant :: "world \<Rightarrow> string \<Rightarrow> tenant_row option" where
  "find_tenant w tid = find (\<lambda>t. ten_id t = tid) (w_tenants w)"

definition run_events :: "world \<Rightarrow> string \<Rightarrow> event_row list" where
  "run_events w rid = filter (\<lambda>e. ev_run_id e = rid) (w_events w)"

end
