(* ===== verification/Run_Machine.thy ===== *)
theory Run_Machine
  imports Schema
begin

text \<open>
  The run state machine of \<^verbatim>\<open>src/core/stateMachine.ts\<close>: the table of allowed
  transitions, the terminal statuses, the step relation they define and the statuses a run
  can reach.
\<close>

section \<open>The transition table\<close>

fun TRANSITIONS :: "run_status \<Rightarrow> run_status list" where
  "TRANSITIONS CREATED = [RESOLVING, FAILED, CANCELLED]"
| "TRANSITIONS RESOLVING = [QUEUED, FAILED, CANCELLED]"
| "TRANSITIONS QUEUED = [STARTING, FAILED, CANCELLED]"
| "TRANSITIONS STARTING = [RUNNING, QUEUED, RETRY_PENDING, FAILED, CANCELLED]"
| "TRANSITIONS RUNNING =
     [WAITING_APPROVAL, WAITING_SIGNAL, WAITING_CHILDREN, RETRY_PENDING, VERIFYING, QUEUED,
      FAILED, CANCELLED]"
| "TRANSITIONS WAITING_APPROVAL = [QUEUED, FAILED, CANCELLED]"
| "TRANSITIONS WAITING_SIGNAL = [QUEUED, FAILED, CANCELLED]"
| "TRANSITIONS WAITING_CHILDREN = [QUEUED, FAILED, CANCELLED]"
| "TRANSITIONS SLEEPING = [QUEUED, FAILED, CANCELLED]"
| "TRANSITIONS SUSPENDED = [QUEUED, FAILED, CANCELLED]"
| "TRANSITIONS RETRY_PENDING = [QUEUED, FAILED, CANCELLED]"
| "TRANSITIONS VERIFYING = [COMPLETED, RUNNING, QUEUED, FAILED, CANCELLED]"
| "TRANSITIONS COMPLETED = []"
| "TRANSITIONS FAILED = []"
| "TRANSITIONS CANCELLED = []"

definition isTransitionAllowed :: "run_status \<Rightarrow> run_status \<Rightarrow> bool" where
  "isTransitionAllowed s t \<longleftrightarrow> t \<in> set (TRANSITIONS s)"

definition isTerminal :: "run_status \<Rightarrow> bool" where
  "isTerminal s \<longleftrightarrow> length (TRANSITIONS s) = 0"

lemma isTerminal_iff: "isTerminal s \<longleftrightarrow> s \<in> {COMPLETED, FAILED, CANCELLED}"
  by (cases s) (simp_all add: isTerminal_def)

lemma isTerminal_simps [simp]:
  "isTerminal COMPLETED" "isTerminal FAILED" "isTerminal CANCELLED"
  "\<not> isTerminal CREATED" "\<not> isTerminal RESOLVING" "\<not> isTerminal QUEUED"
  "\<not> isTerminal STARTING" "\<not> isTerminal RUNNING" "\<not> isTerminal WAITING_APPROVAL"
  "\<not> isTerminal WAITING_SIGNAL" "\<not> isTerminal WAITING_CHILDREN" "\<not> isTerminal SLEEPING"
  "\<not> isTerminal SUSPENDED" "\<not> isTerminal RETRY_PENDING" "\<not> isTerminal VERIFYING"
  by (simp_all add: isTerminal_iff)

lemma to_COMPLETED_iff: "isTransitionAllowed s COMPLETED \<longleftrightarrow> s = VERIFYING"
  by (cases s) (simp_all add: isTransitionAllowed_def)

lemma to_VERIFYING_iff: "isTransitionAllowed s VERIFYING \<longleftrightarrow> s = RUNNING"
  by (cases s) (simp_all add: isTransitionAllowed_def)

lemma to_STARTING_iff: "isTransitionAllowed s STARTING \<longleftrightarrow> s = QUEUED"
  by (cases s) (simp_all add: isTransitionAllowed_def)

lemma to_FAILED_iff: "isTransitionAllowed s FAILED \<longleftrightarrow> \<not> isTerminal s"
  by (cases s) (simp_all add: isTransitionAllowed_def)

lemma to_CANCELLED_iff: "isTransitionAllowed s CANCELLED \<longleftrightarrow> \<not> isTerminal s"
  by (cases s) (simp_all add: isTransitionAllowed_def)

section \<open>Machines with absorbing terminal states\<close>

text \<open>
  The contract between the table and its users: \<open>terminal\<close> says exactly that no
  transition leaves the state. What clients need of it is proved once.
\<close>

locale absorbing_machine =
  fixes allowed :: "'s \<Rightarrow> 's \<Rightarrow> bool"
    and terminal :: "'s \<Rightarrow> bool"
  assumes terminal_stuck: "terminal s \<longleftrightarrow> (\<forall>t. \<not> allowed s t)"
begin

fun legal_from :: "'s \<Rightarrow> 's list \<Rightarrow> bool" where
  "legal_from s [] = True"
| "legal_from s (t # ts) = (allowed s t \<and> legal_from t ts)"

lemma legal_from_append:
  "legal_from s (ts @ us) \<longleftrightarrow> legal_from s ts \<and> legal_from (last (s # ts)) us"
  by (induction ts arbitrary: s) auto

lemma legal_from_terminal: "terminal s \<Longrightarrow> legal_from s ts \<Longrightarrow> ts = []"
  by (cases ts) (auto simp: terminal_stuck)

lemma terminal_only_last:
  assumes "legal_from s ts" and "t \<in> set (butlast (s # ts))"
  shows "\<not> terminal t"
  using assms
proof (induction ts arbitrary: s)
  case Nil
  then show ?case by simp
next
  case (Cons u us)
  then show ?case
    by (cases "t = s") (auto simp: terminal_stuck)
qed

lemma at_most_one_terminal:
  assumes "legal_from s ts" and "terminal s \<or> (\<exists>t \<in> set ts. terminal t)"
  shows "terminal (last (s # ts))" and "length (filter terminal (s # ts)) = 1"
proof -
  define front where "front = butlast (s # ts)"
  have split: "s # ts = front @ [last (s # ts)]" by (simp add: front_def)
  have none: "\<forall>t \<in> set front. \<not> terminal t"
    using terminal_only_last [OF assms(1)] by (simp add: front_def)
  have "\<exists>t \<in> set (s # ts). terminal t" using assms(2) by auto
  moreover have "set (s # ts) = insert (last (s # ts)) (set front)"
    by (subst split) (simp add: insert_commute del: last.simps)
  ultimately show last: "terminal (last (s # ts))" using none by (metis insert_iff)
  have "filter terminal (front @ [last (s # ts)]) = [last (s # ts)]"
    using none last by (simp add: filter_empty_conv del: last.simps)
  then show "length (filter terminal (s # ts)) = 1" using split by simp
qed

end

interpretation rm: absorbing_machine isTransitionAllowed isTerminal
proof
  show "isTerminal s \<longleftrightarrow> (\<forall>t. \<not> isTransitionAllowed s t)" for s
    by (cases s) (auto simp: isTerminal_iff isTransitionAllowed_def)
qed

section \<open>Reachable statuses\<close>

inductive run_step :: "run_status \<Rightarrow> run_status \<Rightarrow> bool" where
  step: "isTransitionAllowed s t \<Longrightarrow> run_step s t"

inductive_simps run_step_iff: "run_step s t"

inductive reachable_status :: "run_status \<Rightarrow> bool" where
  created: "reachable_status CREATED"
| move: "reachable_status s \<Longrightarrow> run_step s t \<Longrightarrow> reachable_status t"

code_pred (modes: i \<Rightarrow> i \<Rightarrow> bool) run_step .

lemma reachable_not_dormant: "reachable_status s \<Longrightarrow> s \<noteq> SLEEPING \<and> s \<noteq> SUSPENDED"
proof (induction rule: reachable_status.induct)
  case created
  then show ?case by simp
next
  case (move s t)
  from \<open>run_step s t\<close> have "isTransitionAllowed s t" by (simp add: run_step_iff)
  with move.IH show ?case
    by (cases s) (auto simp: isTransitionAllowed_def)
qed

lemma reach_next: "reachable_status s \<Longrightarrow> isTransitionAllowed s t \<Longrightarrow> reachable_status t"
  by (auto intro: reachable_status.move run_step.step)

lemma reachable_RUNNING: "reachable_status RUNNING"
proof -
  have "reachable_status RESOLVING"
    by (rule reach_next [OF created]) (simp add: isTransitionAllowed_def)
  then have "reachable_status QUEUED" by (rule reach_next) (simp add: isTransitionAllowed_def)
  then have "reachable_status STARTING" by (rule reach_next) (simp add: isTransitionAllowed_def)
  then show ?thesis by (rule reach_next) (simp add: isTransitionAllowed_def)
qed

lemma reachable_from_RUNNING: "isTransitionAllowed RUNNING t \<Longrightarrow> reachable_status t"
  by (rule reach_next [OF reachable_RUNNING])

text \<open>
  The statuses a run can be in. From \<open>CREATED\<close> every status is reachable along allowed
  transitions except \<open>SLEEPING\<close> and \<open>SUSPENDED\<close>, which no transition enters.
\<close>

theorem reachable_status_iff: "reachable_status s \<longleftrightarrow> s \<noteq> SLEEPING \<and> s \<noteq> SUSPENDED"
proof
  assume "reachable_status s"
  then show "s \<noteq> SLEEPING \<and> s \<noteq> SUSPENDED" by (rule reachable_not_dormant)
next
  assume live: "s \<noteq> SLEEPING \<and> s \<noteq> SUSPENDED"
  have steps: "reachable_status RESOLVING"
    by (rule reach_next [OF created]) (simp add: isTransitionAllowed_def)
  have queued: "reachable_status QUEUED"
    by (rule reachable_from_RUNNING) (simp add: isTransitionAllowed_def)
  have "reachable_status STARTING"
    by (rule reach_next [OF queued]) (simp add: isTransitionAllowed_def)
  moreover have "reachable_status VERIFYING"
    by (rule reachable_from_RUNNING) (simp add: isTransitionAllowed_def)
  moreover from this have "reachable_status COMPLETED"
    by (rule reach_next) (simp add: isTransitionAllowed_def)
  ultimately show "reachable_status s"
    using live created steps queued reachable_RUNNING
    by (cases s) (auto intro: reachable_from_RUNNING simp: isTransitionAllowed_def)
qed

text \<open>
  C1: completion is gated. On every legal path of a run that reaches \<open>COMPLETED\<close>, the
  status before it is \<open>VERIFYING\<close>, the path went through \<open>RUNNING\<close>, and \<open>COMPLETED\<close>
  is the last status of the path.
\<close>

theorem completion_is_verified:
  assumes "rm.legal_from CREATED path" and "COMPLETED \<in> set path"
  shows "\<exists>front. path = front @ [VERIFYING, COMPLETED] \<and> RUNNING \<in> set front"
proof -
  from split_list [OF assms(2)] obtain xs ys where path: "path = xs @ COMPLETED # ys" by blast
  have legal: "rm.legal_from CREATED xs" "isTransitionAllowed (last (CREATED # xs)) COMPLETED"
    and rest: "rm.legal_from COMPLETED ys"
    using assms(1) by (auto simp: path rm.legal_from_append simp del: last.simps)
  have "ys = []" using rest by (rule rm.legal_from_terminal [rotated]) simp
  have v: "last (CREATED # xs) = VERIFYING" using legal(2) by (simp add: to_COMPLETED_iff)
  then have "xs \<noteq> []" by auto
  then obtain zs where xs: "xs = zs @ [VERIFYING]"
    using v by (metis append_butlast_last_id last_ConsR)
  have "isTransitionAllowed (last (CREATED # zs)) VERIFYING"
    using legal(1) by (auto simp: xs rm.legal_from_append simp del: last.simps)
  then have r: "last (CREATED # zs) = RUNNING" by (simp add: to_VERIFYING_iff)
  then have "zs \<noteq> []" by auto
  with r have "RUNNING \<in> set zs" by (metis last_ConsR last_in_set)
  moreover have "path = zs @ [VERIFYING, COMPLETED]" by (simp add: path xs \<open>ys = []\<close>)
  ultimately show ?thesis by blast
qed

theorem completion_is_verified_witness:
  "\<exists>front. [RESOLVING, QUEUED, STARTING, RUNNING, VERIFYING, COMPLETED] =
           front @ [VERIFYING, COMPLETED] \<and> RUNNING \<in> set front"
  by (rule completion_is_verified) (simp_all add: isTransitionAllowed_def)

end
