(* ===== verification/Ledger.thy ===== *)
theory Ledger
  imports Run_Machine
begin

text \<open>
  The choke point for run state changes, \<^verbatim>\<open>src/core/transition.ts\<close>: a transition or an
  appended event locks the run, writes the next event of the run's ledger and its outbox
  copy, updates the run, releases the run's admission on a terminal status and projects the
  status of a top-level run onto its managed session, all in one transaction.
\<close>

section \<open>Event names\<close>

definition event_type_name :: "event_type \<Rightarrow> string" where
  "event_type_name t =
     (case t of
        RunCreated \<Rightarrow> ''RunCreated'' | AgentVersionResolved \<Rightarrow> ''AgentVersionResolved''
      | CapabilitiesResolved \<Rightarrow> ''CapabilitiesResolved'' | RunQueued \<Rightarrow> ''RunQueued''
      | AttemptStarted \<Rightarrow> ''AttemptStarted'' | AttemptExited \<Rightarrow> ''AttemptExited''
      | AttemptOrphaned \<Rightarrow> ''AttemptOrphaned'' | SandboxAllocated \<Rightarrow> ''SandboxAllocated''
      | SandboxTerminated \<Rightarrow> ''SandboxTerminated'' | WorkspaceRestored \<Rightarrow> ''WorkspaceRestored''
      | WorkspaceCheckpointed \<Rightarrow> ''WorkspaceCheckpointed'' | ContextCompiled \<Rightarrow> ''ContextCompiled''
      | ModelInvocationStarted \<Rightarrow> ''ModelInvocationStarted''
      | ModelInvocationCompleted \<Rightarrow> ''ModelInvocationCompleted''
      | ActionProposed \<Rightarrow> ''ActionProposed'' | ActionAuthorized \<Rightarrow> ''ActionAuthorized''
      | ActionDenied \<Rightarrow> ''ActionDenied'' | ToolInvoked \<Rightarrow> ''ToolInvoked''
      | ToolInvocationStarted \<Rightarrow> ''ToolInvocationStarted''
      | ToolInvocationCommitted \<Rightarrow> ''ToolInvocationCommitted''
      | ToolInvocationFailed \<Rightarrow> ''ToolInvocationFailed'' | ProgressUpdated \<Rightarrow> ''ProgressUpdated''
      | LoopDetected \<Rightarrow> ''LoopDetected'' | StagnationDetected \<Rightarrow> ''StagnationDetected''
      | ContextLossDetected \<Rightarrow> ''ContextLossDetected''
      | SemanticRecoveryApplied \<Rightarrow> ''SemanticRecoveryApplied''
      | ModelEscalated \<Rightarrow> ''ModelEscalated'' | BudgetPlanUpdated \<Rightarrow> ''BudgetPlanUpdated''
      | SignalReceived \<Rightarrow> ''SignalReceived'' | ChildRunSpawned \<Rightarrow> ''ChildRunSpawned''
      | ChildRunReplaced \<Rightarrow> ''ChildRunReplaced''
      | ChildReplacementDeferred \<Rightarrow> ''ChildReplacementDeferred''
      | ChildrenResolved \<Rightarrow> ''ChildrenResolved'' | ApprovalRequested \<Rightarrow> ''ApprovalRequested''
      | ApprovalReceived \<Rightarrow> ''ApprovalReceived'' | ApprovalDenied \<Rightarrow> ''ApprovalDenied''
      | UserMessageReceived \<Rightarrow> ''UserMessageReceived'' | RetryScheduled \<Rightarrow> ''RetryScheduled''
      | VerificationStarted \<Rightarrow> ''VerificationStarted'' | VerificationPassed \<Rightarrow> ''VerificationPassed''
      | VerificationFailed \<Rightarrow> ''VerificationFailed'' | RunCompleted \<Rightarrow> ''RunCompleted''
      | RunFailed \<Rightarrow> ''RunFailed'' | RunCancelled \<Rightarrow> ''RunCancelled'')"

section \<open>Transition options\<close>

text \<open>
  In a patch, \<open>None\<close> is an absent property. The columns that a patch may set to null have a
  second \<open>option\<close>: \<open>Some None\<close> is a property that is present with the value null.
\<close>

record run_patch =
  p_workspace_id :: "string option"
  p_current_attempt_id :: "string option option"
  p_progress :: "json option"
  p_tokens_used :: "int option"
  p_awaited_signal :: "string option option"
  p_awaited_correlation :: "string option option"
  p_awaited_schema :: "signal_schema option option"
  p_result :: "json option option"
  p_result_size_bytes :: "int option option"

definition no_patch :: run_patch where
  "no_patch =
     \<lparr>p_workspace_id = None, p_current_attempt_id = None, p_progress = None,
      p_tokens_used = None, p_awaited_signal = None, p_awaited_correlation = None,
      p_awaited_schema = None, p_result = None, p_result_size_bytes = None\<rparr>"

record transition_options =
  to_expectFrom :: "run_status list"
  to_to :: run_status
  to_type :: event_type
  to_payload :: "(string \<times> json) list"
  to_attempt :: "string option"
  to_reason :: "string option"
  to_patch :: run_patch

section \<open>Ledger writes\<close>

definition lockRun :: "string \<Rightarrow> run_row txn" where
  "lockRun rid =
     (\<lambda>w. case find_run w rid of
            None \<Rightarrow> Inl (RunNotFoundError rid)
          | Some run \<Rightarrow> Inr (run, w))"

definition outbox_payload ::
    "string \<Rightarrow> int \<Rightarrow> event_type \<Rightarrow> (string \<times> json) list \<Rightarrow> (string \<times> json) list" where
  "outbox_payload rid seq type payload =
     jspread [(''runId'', JStr rid), (''seq'', JStr (int_digits seq)),
              (''type'', JStr (event_type_name type))] payload"

text \<open>The number that the next row of the outbox has drawn from its sequence.\<close>

definition next_outbox_id :: "world \<Rightarrow> nat" where
  "next_outbox_id w = w_outbox_seq w (length (w_outbox w))"

definition event_outbox_row :: "nat \<Rightarrow> event_row \<Rightarrow> outbox_row" where
  "event_outbox_row n e =
     \<lparr>ob_id = n, ob_topic = ''run_events'', ob_key = ev_run_id e,
      ob_payload = outbox_payload (ev_run_id e) (ev_seq e) (ev_type e) (ev_payload e),
      ob_published_at = None\<rparr>"

definition insertEvent ::
    "string \<Rightarrow> int \<Rightarrow> event_type \<Rightarrow> (string \<times> json) list \<Rightarrow> string option \<Rightarrow> unit txn" where
  "insertEvent rid seq type payload attempt =
     (\<lambda>w. if exists_row (\<lambda>e. ev_run_id e = rid \<and> ev_seq e = seq) (w_events w)
          then Inl (UniqueViolation ''run_events_pkey'')
          else
            let e = \<lparr>ev_run_id = rid, ev_seq = seq, ev_type = type, ev_payload = payload,
                     ev_attempt_id = attempt, ev_created_at = w_now w\<rparr>
            in Inr ((), w\<lparr>w_events := w_events w @ [e],
                          w_outbox := w_outbox w @ [event_outbox_row (next_outbox_id w) e]\<rparr>))"

definition releaseRunAdmission :: "string \<Rightarrow> string \<Rightarrow> unit txn" where
  "releaseRunAdmission rid reason =
     modifyT (\<lambda>w. w\<lparr>w_admissions :=
       update_where (\<lambda>a. adm_run_id a = rid \<and> adm_active a)
         (\<lambda>a. a\<lparr>adm_active := False, adm_released_at := Some (w_now w),
                adm_release_reason := Some reason\<rparr>)
         (w_admissions w)\<rparr>)"

definition projected_session_state :: "run_status \<Rightarrow> session_state" where
  "projected_session_state status =
     (if status = WAITING_APPROVAL then SS_REQUIRES_ACTION
      else if status \<in> set [WAITING_SIGNAL, WAITING_CHILDREN, SLEEPING, SUSPENDED] then SS_WAITING
      else if isTerminal status then SS_IDLE
      else SS_ACTIVE)"

definition projectTopLevelRunStateToSession :: "run_row \<Rightarrow> run_status \<Rightarrow> unit txn" where
  "projectTopLevelRunStateToSession run status =
     (case run_managed_session_id run of
        None \<Rightarrow> returnT ()
      | Some sid \<Rightarrow>
          if run_parent_run_id run \<noteq> None then returnT ()
          else
            let state = projected_session_state status; clearCurrentRun = isTerminal status
            in modifyT (\<lambda>w. w\<lparr>w_sessions :=
                 update_where
                   (\<lambda>s. ses_id s = sid
                        \<and> ses_current_run s = Some (run_id run)
                        \<and> ses_state s \<notin> {SS_CANCELLED, SS_ARCHIVED}
                        \<and> (ses_state s \<noteq> state
                           \<or> (clearCurrentRun \<and> ses_current_run s \<noteq> None)))
                   (\<lambda>s. s\<lparr>ses_state := state,
                          ses_current_run := (if clearCurrentRun then None else ses_current_run s),
                          ses_version := ses_version s + 1,
                          ses_updated_at := w_now w\<rparr>)
                   (w_sessions w)\<rparr>))"

section \<open>Transitions\<close>

text \<open>The \<^verbatim>\<open>UPDATE runs SET ...\<close> of a transition, on one row.\<close>

definition transition_row :: "transition_options \<Rightarrow> int \<Rightarrow> int \<Rightarrow> run_row \<Rightarrow> run_row" where
  "transition_row opts seq now run =
     (let patch = to_patch opts in
      run\<lparr>run_status := to_to opts,
          run_status_reason := to_reason opts,
          run_last_event_seq := seq,
          run_workspace_id :=
            (case p_workspace_id patch of None \<Rightarrow> run_workspace_id run | Some x \<Rightarrow> Some x),
          run_current_attempt_id :=
            (case p_current_attempt_id patch of None \<Rightarrow> run_current_attempt_id run | Some x \<Rightarrow> x),
          run_progress := (case p_progress patch of None \<Rightarrow> run_progress run | Some x \<Rightarrow> x),
          run_tokens_used := (case p_tokens_used patch of None \<Rightarrow> run_tokens_used run | Some x \<Rightarrow> x),
          run_awaited_signal :=
            (case p_awaited_signal patch of None \<Rightarrow> run_awaited_signal run | Some x \<Rightarrow> x),
          run_result := (case p_result patch of None \<Rightarrow> run_result run | Some x \<Rightarrow> x),
          run_result_size_bytes :=
            (case p_result_size_bytes patch of None \<Rightarrow> run_result_size_bytes run | Some x \<Rightarrow> x),
          run_awaited_correlation :=
            (case p_awaited_correlation patch of None \<Rightarrow> run_awaited_correlation run | Some x \<Rightarrow> x),
          run_awaited_schema :=
            (case p_awaited_schema patch of None \<Rightarrow> run_awaited_schema run | Some x \<Rightarrow> x),
          run_updated_at := now\<rparr>)"

definition transitionRun :: "string \<Rightarrow> transition_options \<Rightarrow> run_row txn" where
  "transitionRun rid opts =
     bindT (lockRun rid) (\<lambda>run.
     thenT (ensureT (run_status run \<in> set (to_expectFrom opts))
              (UnexpectedStatusError rid (run_status run) (to_expectFrom opts)))
    (thenT (ensureT (isTransitionAllowed (run_status run) (to_to opts))
              (InvalidTransitionError rid (run_status run) (to_to opts)))
    (let seq = run_last_event_seq run + 1 in
     thenT (insertEvent rid seq (to_type opts)
              (jspread [(''from'', JStr (run_status_name (run_status run))),
                        (''to'', JStr (run_status_name (to_to opts)))] (to_payload opts))
              (to_attempt opts))
    (bindT (getsT w_now) (\<lambda>now.
     thenT (modifyT (\<lambda>w. w\<lparr>w_runs :=
              update_where (\<lambda>r. run_id r = rid) (transition_row opts seq now) (w_runs w)\<rparr>))
    (thenT (whenT (isTerminal (to_to opts))
              (releaseRunAdmission rid (''run_'' @ toLowerCase (run_status_name (to_to opts)))))
    (thenT (projectTopLevelRunStateToSession run (to_to opts))
           (returnT (transition_row opts seq now run)))))))))"

definition append_row :: "run_patch \<Rightarrow> int \<Rightarrow> int \<Rightarrow> run_row \<Rightarrow> run_row" where
  "append_row patch seq now run =
     run\<lparr>run_last_event_seq := seq,
         run_progress := (case p_progress patch of None \<Rightarrow> run_progress run | Some x \<Rightarrow> x),
         run_tokens_used := (case p_tokens_used patch of None \<Rightarrow> run_tokens_used run | Some x \<Rightarrow> x),
         run_workspace_id :=
           (case p_workspace_id patch of None \<Rightarrow> run_workspace_id run | Some x \<Rightarrow> Some x),
         run_updated_at := now\<rparr>"

definition appendEvent ::
    "string \<Rightarrow> event_type \<Rightarrow> (string \<times> json) list \<Rightarrow> string option \<Rightarrow> run_patch \<Rightarrow> int txn" where
  "appendEvent rid type payload attempt patch =
     bindT (lockRun rid) (\<lambda>run.
     let seq = run_last_event_seq run + 1 in
     thenT (insertEvent rid seq type payload attempt)
    (bindT (getsT w_now) (\<lambda>now.
     thenT (modifyT (\<lambda>w. w\<lparr>w_runs :=
              update_where (\<lambda>r. run_id r = rid) (append_row patch seq now) (w_runs w)\<rparr>))
           (returnT seq))))"

section \<open>What a committed write did\<close>

definition project_sessions ::
    "run_row \<Rightarrow> run_status \<Rightarrow> int \<Rightarrow> session_row list \<Rightarrow> session_row list" where
  "project_sessions run status now sessions =
     update_where
       (\<lambda>s. run_managed_session_id run = Some (ses_id s) \<and> run_parent_run_id run = None
            \<and> ses_current_run s = Some (run_id run)
            \<and> ses_state s \<notin> {SS_CANCELLED, SS_ARCHIVED}
            \<and> (ses_state s \<noteq> projected_session_state status \<or> isTerminal status))
       (\<lambda>s. s\<lparr>ses_state := projected_session_state status,
              ses_current_run := (if isTerminal status then None else ses_current_run s),
              ses_version := ses_version s + 1, ses_updated_at := now\<rparr>)
       sessions"

lemma projectTopLevel_eq:
  "projectTopLevelRunStateToSession run status =
     modifyT (\<lambda>w. w\<lparr>w_sessions := project_sessions run status (w_now w) (w_sessions w)\<rparr>)"
proof (cases "run_managed_session_id run")
  case None
  then show ?thesis
    by (simp add: projectTopLevelRunStateToSession_def project_sessions_def update_where_none
        returnT_def modifyT_def)
next
  case (Some sid)
  show ?thesis
  proof (cases "run_parent_run_id run = None")
    case True
    have eq: "(\<lambda>s. ses_id s = sid \<and> ses_current_run s = Some (run_id run)
              \<and> ses_state s \<notin> {SS_CANCELLED, SS_ARCHIVED}
              \<and> (ses_state s \<noteq> projected_session_state status
                 \<or> (isTerminal status \<and> ses_current_run s \<noteq> None))) =
          (\<lambda>s. run_managed_session_id run = Some (ses_id s) \<and> run_parent_run_id run = None
              \<and> ses_current_run s = Some (run_id run)
              \<and> ses_state s \<notin> {SS_CANCELLED, SS_ARCHIVED}
              \<and> (ses_state s \<noteq> projected_session_state status \<or> isTerminal status))"
      using True Some by auto
    show ?thesis
      unfolding projectTopLevelRunStateToSession_def project_sessions_def Let_def eq [symmetric]
      by (simp add: Some True)
  next
    case False
    with Some show ?thesis
      by (simp add: projectTopLevelRunStateToSession_def project_sessions_def update_where_none
          returnT_def modifyT_def)
  qed
qed

definition new_event ::
    "string \<Rightarrow> int \<Rightarrow> event_type \<Rightarrow> (string \<times> json) list \<Rightarrow> string option \<Rightarrow> int \<Rightarrow> event_row" where
  "new_event rid seq type payload attempt now =
     \<lparr>ev_run_id = rid, ev_seq = seq, ev_type = type, ev_payload = payload,
      ev_attempt_id = attempt, ev_created_at = now\<rparr>"

lemma new_event_sel [simp]:
  "ev_run_id (new_event rid seq type payload attempt now) = rid"
  "ev_seq (new_event rid seq type payload attempt now) = seq"
  "ev_type (new_event rid seq type payload attempt now) = type"
  "ev_payload (new_event rid seq type payload attempt now) = payload"
  "ev_attempt_id (new_event rid seq type payload attempt now) = attempt"
  "ev_created_at (new_event rid seq type payload attempt now) = now"
  by (simp_all add: new_event_def)

definition log_event :: "event_row \<Rightarrow> (run_row \<Rightarrow> run_row) \<Rightarrow> world \<Rightarrow> world" where
  "log_event e upd w =
     w\<lparr>w_events := w_events w @ [e],
       w_outbox := w_outbox w @ [event_outbox_row (next_outbox_id w) e],
       w_runs := update_where (\<lambda>r. run_id r = ev_run_id e) upd (w_runs w)\<rparr>"

definition transition_payload :: "run_status \<Rightarrow> transition_options \<Rightarrow> (string \<times> json) list" where
  "transition_payload s opts =
     jspread [(''from'', JStr (run_status_name s)), (''to'', JStr (run_status_name (to_to opts)))]
       (to_payload opts)"

definition transition_event :: "run_row \<Rightarrow> transition_options \<Rightarrow> int \<Rightarrow> event_row" where
  "transition_event run opts now =
     new_event (run_id run) (run_last_event_seq run + 1) (to_type opts)
       (transition_payload (run_status run) opts) (to_attempt opts) now"

definition release_admissions :: "string \<Rightarrow> string \<Rightarrow> int \<Rightarrow> admission_row list \<Rightarrow> admission_row list" where
  "release_admissions rid reason now =
     update_where (\<lambda>a. adm_run_id a = rid \<and> adm_active a)
       (\<lambda>a. a\<lparr>adm_active := False, adm_released_at := Some now,
              adm_release_reason := Some reason\<rparr>)"

definition settle_transition :: "run_row \<Rightarrow> transition_options \<Rightarrow> world \<Rightarrow> world" where
  "settle_transition run opts w =
     w\<lparr>w_admissions :=
         (if isTerminal (to_to opts)
          then release_admissions (run_id run)
                 (''run_'' @ toLowerCase (run_status_name (to_to opts))) (w_now w) (w_admissions w)
          else w_admissions w),
       w_sessions := project_sessions run (to_to opts) (w_now w) (w_sessions w)\<rparr>"

definition transition_world :: "run_row \<Rightarrow> transition_options \<Rightarrow> world \<Rightarrow> world" where
  "transition_world run opts w =
     settle_transition run opts
       (log_event (transition_event run opts (w_now w))
          (transition_row opts (run_last_event_seq run + 1) (w_now w)) w)"

lemma find_run_id: "find_run w rid = Some run \<Longrightarrow> run_id run = rid \<and> run \<in> set (w_runs w)"
  unfolding find_run_def using find_SomeD by fastforce

lemma transitionRun_iff:
  "transitionRun rid opts w = Inr (run', w') \<longleftrightarrow>
     (\<exists>run. find_run w rid = Some run
        \<and> run_status run \<in> set (to_expectFrom opts)
        \<and> isTransitionAllowed (run_status run) (to_to opts)
        \<and> \<not> exists_row (\<lambda>e. ev_run_id e = rid \<and> ev_seq e = run_last_event_seq run + 1) (w_events w)
        \<and> run' = transition_row opts (run_last_event_seq run + 1) (w_now w) run
        \<and> w' = transition_world run opts w)"
  using find_run_id [of w rid]
  by (cases "find_run w rid")
     (auto simp: transitionRun_def lockRun_def insertEvent_def tx_eval Let_def
        transition_world_def settle_transition_def log_event_def transition_event_def
        transition_payload_def new_event_def releaseRunAdmission_def release_admissions_def
        projectTopLevel_eq split: if_splits)

lemma appendEvent_iff:
  "appendEvent rid type payload attempt patch w = Inr (seq, w') \<longleftrightarrow>
     (\<exists>run. find_run w rid = Some run
        \<and> \<not> exists_row (\<lambda>e. ev_run_id e = rid \<and> ev_seq e = run_last_event_seq run + 1) (w_events w)
        \<and> seq = run_last_event_seq run + 1
        \<and> w' = log_event (new_event rid seq type payload attempt (w_now w))
                 (append_row patch seq (w_now w)) w)"
  by (cases "find_run w rid")
     (auto simp: appendEvent_def lockRun_def insertEvent_def tx_eval Let_def log_event_def
        new_event_def split: if_splits)

end
