(* ===== verification/Ledger_Inv.thy ===== *)
theory Ledger_Inv
  imports Ledger
begin

text \<open>
  The invariants of the choke point. \<open>ledger_ok\<close>: the events of every run are numbered
  \<open>1, 2, ..\<close> without a gap up to the run's \<open>last_event_seq\<close>, and the outbox holds a copy
  of every event in commit order. \<open>admission_ok\<close>: a run in a terminal status holds no
  active admission. \<open>session_ok\<close>: an open session mirrors the status of its top-level run.
  \<open>sessions_fenced\<close>: a cancelled or archived session has no open run. Both writers keep
  all four, and under \<open>ledger_ok\<close> a transition fails only for the
  reasons its guards name.
\<close>

section \<open>Invariants\<close>

definition outbox_mirrors :: "world \<Rightarrow> bool" where
  "outbox_mirrors w \<longleftrightarrow>
     map (\<lambda>ob. (ob_topic ob, ob_key ob, ob_payload ob)) (w_outbox w) =
     map (\<lambda>e. (''run_events'', ev_run_id e,
                outbox_payload (ev_run_id e) (ev_seq e) (ev_type e) (ev_payload e))) (w_events w)"

definition gapless :: "event_row list \<Rightarrow> run_row \<Rightarrow> bool" where
  "gapless es r \<longleftrightarrow>
     0 \<le> run_last_event_seq r \<and>
     map ev_seq (filter (\<lambda>e. ev_run_id e = run_id r) es) = [1..run_last_event_seq r]"

definition ledger_ok :: "world \<Rightarrow> bool" where
  "ledger_ok w \<longleftrightarrow>
     distinct (map run_id (w_runs w))
     \<and> (\<forall>r \<in> set (w_runs w). gapless (w_events w) r)
     \<and> (\<forall>e \<in> set (w_events w). \<exists>r \<in> set (w_runs w). run_id r = ev_run_id e)
     \<and> outbox_mirrors w"

definition admission_ok :: "world \<Rightarrow> bool" where
  "admission_ok w \<longleftrightarrow>
     (\<forall>a \<in> set (w_admissions w). adm_active a \<longrightarrow>
        (\<forall>r \<in> set (w_runs w). run_id r = adm_run_id a \<longrightarrow> \<not> isTerminal (run_status r)))"

definition session_open :: "session_row \<Rightarrow> bool" where
  "session_open s \<longleftrightarrow> ses_state s \<notin> {SS_CANCELLED, SS_ARCHIVED}"

definition session_mirrors :: "run_row list \<Rightarrow> session_row \<Rightarrow> bool" where
  "session_mirrors runs s \<longleftrightarrow>
     (case ses_current_run s of
        None \<Rightarrow> ses_state s = SS_IDLE
      | Some rid \<Rightarrow>
          (\<exists>r \<in> set runs. run_id r = rid \<and> run_managed_session_id r = Some (ses_id s)
             \<and> run_parent_run_id r = None \<and> \<not> isTerminal (run_status r)
             \<and> ses_state s = projected_session_state (run_status r)))"

definition session_ok :: "world \<Rightarrow> bool" where
  "session_ok w \<longleftrightarrow>
     distinct (map ses_id (w_sessions w))
     \<and> (\<forall>s \<in> set (w_sessions w). session_open s \<longrightarrow> session_mirrors (w_runs w) s)"

definition sessions_fenced :: "world \<Rightarrow> bool" where
  "sessions_fenced w \<longleftrightarrow>
     (\<forall>s \<in> set (w_sessions w). \<not> session_open s \<longrightarrow>
        (\<forall>r \<in> set (w_runs w). run_managed_session_id r = Some (ses_id s) \<longrightarrow> isTerminal (run_status r)))"

definition kernel_ok :: "world \<Rightarrow> bool" where
  "kernel_ok w \<longleftrightarrow> ledger_ok w \<and> admission_ok w \<and> session_ok w \<and> sessions_fenced w"

text \<open>The invariants read nothing but the tables they are about.\<close>

lemma ledger_ok_cong:
  "w_runs w' = w_runs w \<Longrightarrow> w_events w' = w_events w \<Longrightarrow> w_outbox w' = w_outbox w \<Longrightarrow>
   ledger_ok w' = ledger_ok w"
  by (simp add: ledger_ok_def outbox_mirrors_def)

lemma kernel_ok_cong:
  "w_runs w' = w_runs w \<Longrightarrow> w_events w' = w_events w \<Longrightarrow> w_outbox w' = w_outbox w \<Longrightarrow>
   w_admissions w' = w_admissions w \<Longrightarrow> w_sessions w' = w_sessions w \<Longrightarrow>
   kernel_ok w' = kernel_ok w"
  by (simp add: kernel_ok_def ledger_ok_def outbox_mirrors_def admission_ok_def session_ok_def
      sessions_fenced_def)

lemma kernel_okD [dest]: "kernel_ok w \<Longrightarrow> ledger_ok w"
  by (simp add: kernel_ok_def)

lemma find_run_iff:
  "ledger_ok w \<Longrightarrow> find_run w rid = Some r \<longleftrightarrow> r \<in> set (w_runs w) \<and> run_id r = rid"
  unfolding find_run_def by (rule find_Some_iff_key) (simp add: ledger_ok_def)

lemma run_id_inj:
  "ledger_ok w \<Longrightarrow> r \<in> set (w_runs w) \<Longrightarrow> r' \<in> set (w_runs w) \<Longrightarrow> run_id r = run_id r' \<Longrightarrow> r = r'"
  by (auto simp: ledger_ok_def distinct_map inj_on_def)

section \<open>Appending an event keeps the ledger\<close>

lemma next_seq_free:
  assumes "ledger_ok w" and "find_run w rid = Some r"
  shows "\<not> exists_row (\<lambda>e. ev_run_id e = rid \<and> ev_seq e = run_last_event_seq r + 1) (w_events w)"
proof -
  from assms have r: "r \<in> set (w_runs w)" "run_id r = rid" by (simp_all add: find_run_iff)
  with assms(1) have "map ev_seq (filter (\<lambda>e. ev_run_id e = rid) (w_events w)) = [1..run_last_event_seq r]"
    by (auto simp: ledger_ok_def gapless_def)
  then have "ev_seq ` {e \<in> set (w_events w). ev_run_id e = rid} = {1..run_last_event_seq r}"
    by (metis set_filter set_map set_upto)
  then have "run_last_event_seq r + 1 \<notin> ev_seq ` {e \<in> set (w_events w). ev_run_id e = rid}"
    by simp
  then show ?thesis by (auto simp: exists_row_iff image_iff)
qed

lemma ledger_ok_log_event:
  assumes ok: "ledger_ok w" and run: "find_run w (ev_run_id e) = Some run"
    and seq: "ev_seq e = run_last_event_seq run + 1"
    and upd: "\<And>r. run_id (upd r) = run_id r" "\<And>r. run_last_event_seq (upd r) = ev_seq e"
  shows "ledger_ok (log_event e upd w)"
proof -
  from ok run have run': "run \<in> set (w_runs w)" "run_id run = ev_run_id e"
    by (simp_all add: find_run_iff)
  have gapless': "gapless (w_events w @ [e]) (if run_id r = ev_run_id e then upd r else r)"
    if r: "r \<in> set (w_runs w)" for r
  proof (cases "run_id r = ev_run_id e")
    case True
    then have "r = run" using ok r run' by (metis run_id_inj)
    moreover have "gapless (w_events w) run" using ok run' by (simp add: ledger_ok_def)
    ultimately show ?thesis
      using True by (auto simp: gapless_def upd seq upto_rec2)
  next
    case False
    then show ?thesis using ok r by (auto simp: ledger_ok_def gapless_def)
  qed
  have runs: "w_runs (log_event e upd w) =
      map (\<lambda>r. if run_id r = ev_run_id e then upd r else r) (w_runs w)"
    by (simp add: log_event_def update_where_def)
  have "distinct (map run_id (w_runs (log_event e upd w)))"
    using ok by (simp add: log_event_def table_simps upd(1) ledger_ok_def)
  moreover have "\<forall>r \<in> set (w_runs (log_event e upd w)). gapless (w_events (log_event e upd w)) r"
    unfolding runs set_map ball_simps(9)
  proof
    fix r assume "r \<in> set (w_runs w)"
    from gapless' [OF this]
    show "gapless (w_events (log_event e upd w)) (if run_id r = ev_run_id e then upd r else r)"
      by (simp add: log_event_def)
  qed
  moreover have "\<forall>e' \<in> set (w_events (log_event e upd w)).
      \<exists>r \<in> set (w_runs (log_event e upd w)). run_id r = ev_run_id e'"
  proof -
    have "map run_id (w_runs (log_event e upd w)) = map run_id (w_runs w)"
      by (simp add: log_event_def table_simps upd(1))
    then have ids: "run_id ` set (w_runs (log_event e upd w)) = run_id ` set (w_runs w)"
      by (metis set_map)
    have "ev_run_id e' \<in> run_id ` set (w_runs w)" if "e' \<in> set (w_events (log_event e upd w))" for e'
    proof (cases "e' = e")
      case True
      then show ?thesis using run' by force
    next
      case False
      then have "e' \<in> set (w_events w)" using that by (simp add: log_event_def)
      then obtain r where "r \<in> set (w_runs w)" "run_id r = ev_run_id e'"
        using ok by (auto simp: ledger_ok_def)
      then show ?thesis by (metis image_eqI)
    qed
    then show ?thesis using ids by (metis (no_types, lifting) image_iff)
  qed
  moreover have "outbox_mirrors (log_event e upd w)"
    using ok by (simp add: ledger_ok_def outbox_mirrors_def log_event_def event_outbox_row_def)
  ultimately show ?thesis by (simp add: ledger_ok_def)
qed

lemma transition_row_sel [simp]:
  "run_id (transition_row opts seq now r) = run_id r"
  "run_tenant_id (transition_row opts seq now r) = run_tenant_id r"
  "run_parent_run_id (transition_row opts seq now r) = run_parent_run_id r"
  "run_managed_session_id (transition_row opts seq now r) = run_managed_session_id r"
  "run_last_event_seq (transition_row opts seq now r) = seq"
  "run_status (transition_row opts seq now r) = to_to opts"
  by (simp_all add: transition_row_def Let_def)

lemma append_row_sel [simp]:
  "run_id (append_row patch seq now r) = run_id r"
  "run_tenant_id (append_row patch seq now r) = run_tenant_id r"
  "run_parent_run_id (append_row patch seq now r) = run_parent_run_id r"
  "run_managed_session_id (append_row patch seq now r) = run_managed_session_id r"
  "run_last_event_seq (append_row patch seq now r) = seq"
  "run_status (append_row patch seq now r) = run_status r"
  by (simp_all add: append_row_def)

lemma log_event_sel [simp]:
  "w_admissions (log_event e upd w) = w_admissions w"
  "w_sessions (log_event e upd w) = w_sessions w"
  "w_now (log_event e upd w) = w_now w"
  "w_runs (log_event e upd w) = update_where (\<lambda>r. run_id r = ev_run_id e) upd (w_runs w)"
  "w_events (log_event e upd w) = w_events w @ [e]"
  by (simp_all add: log_event_def)

lemma settle_transition_sel [simp]:
  "w_runs (settle_transition run opts w) = w_runs w"
  "w_events (settle_transition run opts w) = w_events w"
  "w_outbox (settle_transition run opts w) = w_outbox w"
  "w_sessions (settle_transition run opts w) = project_sessions run (to_to opts) (w_now w) (w_sessions w)"
  by (simp_all add: settle_transition_def)

lemma transition_event_sel [simp]:
  "ev_run_id (transition_event run opts now) = run_id run"
  "ev_seq (transition_event run opts now) = run_last_event_seq run + 1"
  "ev_type (transition_event run opts now) = to_type opts"
  "ev_attempt_id (transition_event run opts now) = to_attempt opts"
  "ev_payload (transition_event run opts now) = transition_payload (run_status run) opts"
  by (simp_all add: transition_event_def)

lemma transition_world_sel [simp]:
  "w_runs (transition_world run opts w) =
     update_where (\<lambda>r. run_id r = run_id run)
       (transition_row opts (run_last_event_seq run + 1) (w_now w)) (w_runs w)"
  "w_events (transition_world run opts w) = w_events w @ [transition_event run opts (w_now w)]"
  "w_sessions (transition_world run opts w) =
     project_sessions run (to_to opts) (w_now w) (w_sessions w)"
  "w_admissions (transition_world run opts w) =
     (if isTerminal (to_to opts)
      then release_admissions (run_id run)
             (''run_'' @ toLowerCase (run_status_name (to_to opts))) (w_now w) (w_admissions w)
      else w_admissions w)"
  by (simp_all add: transition_world_def settle_transition_def)

text \<open>The writers leave the other tables alone.\<close>

lemma log_event_other [simp]:
  "w_attempts (log_event e upd w) = w_attempts w" "w_tenants (log_event e upd w) = w_tenants w"
  "w_versions (log_event e upd w) = w_versions w" "w_workspaces (log_event e upd w) = w_workspaces w"
  "w_grants (log_event e upd w) = w_grants w" "w_approvals (log_event e upd w) = w_approvals w"
  "w_receipts (log_event e upd w) = w_receipts w" "w_commands (log_event e upd w) = w_commands w"
  "w_session_events (log_event e upd w) = w_session_events w" "w_artifacts (log_event e upd w) = w_artifacts w"
  "w_heads (log_event e upd w) = w_heads w" "w_revisions (log_event e upd w) = w_revisions w"
  "w_checkpoints (log_event e upd w) = w_checkpoints w"
  "w_ulid (log_event e upd w) = w_ulid w" "w_ulid_next (log_event e upd w) = w_ulid_next w"
  by (simp_all add: log_event_def)

lemma transition_world_other [simp]:
  "w_attempts (transition_world run opts w) = w_attempts w"
  "w_tenants (transition_world run opts w) = w_tenants w"
  "w_versions (transition_world run opts w) = w_versions w"
  "w_workspaces (transition_world run opts w) = w_workspaces w"
  "w_grants (transition_world run opts w) = w_grants w"
  "w_approvals (transition_world run opts w) = w_approvals w"
  "w_receipts (transition_world run opts w) = w_receipts w"
  "w_commands (transition_world run opts w) = w_commands w"
  "w_session_events (transition_world run opts w) = w_session_events w"
  "w_artifacts (transition_world run opts w) = w_artifacts w"
  "w_heads (transition_world run opts w) = w_heads w"
  "w_revisions (transition_world run opts w) = w_revisions w"
  "w_checkpoints (transition_world run opts w) = w_checkpoints w"
  "w_now (transition_world run opts w) = w_now w"
  "w_ulid (transition_world run opts w) = w_ulid w"
  "w_ulid_next (transition_world run opts w) = w_ulid_next w"
  by (simp_all add: transition_world_def settle_transition_def)

lemma ledger_ok_transition_world:
  assumes "ledger_ok w" and "find_run w rid = Some run"
  shows "ledger_ok (transition_world run opts w)"
proof -
  have "run_id run = rid" using assms find_run_id by blast
  then have "ledger_ok (log_event (transition_event run opts (w_now w))
      (transition_row opts (run_last_event_seq run + 1) (w_now w)) w)"
    using assms by (intro ledger_ok_log_event) (simp_all add: transition_event_def)
  moreover have "ledger_ok (settle_transition run opts u) = ledger_ok u" for u
    by (rule ledger_ok_cong) simp_all
  ultimately show ?thesis unfolding transition_world_def by simp
qed

section \<open>The other two invariants\<close>

lemma admission_ok_transition_world:
  assumes "admission_ok w" and "find_run w rid = Some run"
  shows "admission_ok (transition_world run opts w)"
proof -
  have id: "run_id run = rid" using assms find_run_id by blast
  show ?thesis
    unfolding admission_ok_def
  proof (intro ballI impI)
    fix a r
    assume a: "a \<in> set (w_admissions (transition_world run opts w))" "adm_active a"
      and r: "r \<in> set (w_runs (transition_world run opts w))" "run_id r = adm_run_id a"
    have a': "a \<in> set (w_admissions w) \<and> (isTerminal (to_to opts) \<longrightarrow> adm_run_id a \<noteq> rid)"
    proof (cases "isTerminal (to_to opts)")
      case True
      with a(1) have "a \<in> set (release_admissions rid
          (''run_'' @ toLowerCase (run_status_name (to_to opts))) (w_now w) (w_admissions w))"
        by (simp add: id)
      then show ?thesis
        unfolding release_admissions_def
        by (rule in_update_whereE) (use a(2) in \<open>auto split: if_splits\<close>)
    next
      case False
      then show ?thesis using a(1) by simp
    qed
    have "r \<in> set (update_where (\<lambda>r. run_id r = rid)
        (transition_row opts (run_last_event_seq run + 1) (w_now w)) (w_runs w))"
      using r(1) by (simp add: id)
    then obtain r0 where r0: "r0 \<in> set (w_runs w)"
      and r_eq: "r = (if run_id r0 = rid
             then transition_row opts (run_last_event_seq run + 1) (w_now w) r0 else r0)"
      by (rule in_update_whereE)
    show "\<not> isTerminal (run_status r)"
    proof (cases "run_id r0 = rid")
      case True
      then show ?thesis using r_eq r(2) a' by auto
    next
      case False
      then show ?thesis using r_eq r(2) r0 a' a(2) assms(1) by (auto simp: admission_ok_def)
    qed
  qed
qed

lemma session_mirrors_cong:
  assumes "\<And>rid r. ses_current_run s = Some rid \<Longrightarrow> r \<in> set runs \<Longrightarrow> run_id r = rid \<Longrightarrow>
      \<exists>r' \<in> set runs'. run_id r' = rid \<and> run_managed_session_id r' = run_managed_session_id r
        \<and> run_parent_run_id r' = run_parent_run_id r \<and> run_status r' = run_status r"
    and "session_mirrors runs s"
  shows "session_mirrors runs' s"
proof (cases "ses_current_run s")
  case None
  then show ?thesis using assms(2) by (simp add: session_mirrors_def)
next
  case (Some rid)
  then obtain r where r: "r \<in> set runs" "run_id r = rid" "run_managed_session_id r = Some (ses_id s)"
      "run_parent_run_id r = None" "\<not> isTerminal (run_status r)"
      "ses_state s = projected_session_state (run_status r)"
    using assms(2) by (auto simp: session_mirrors_def)
  from assms(1) [OF Some r(1,2)] r Some show ?thesis
    by (auto simp: session_mirrors_def)
qed

lemma session_ok_runs:
  assumes "session_ok w" and "w_sessions w' = w_sessions w"
    and "\<And>r. r \<in> set (w_runs w) \<Longrightarrow> \<exists>r' \<in> set (w_runs w'). run_id r' = run_id r
          \<and> run_managed_session_id r' = run_managed_session_id r
          \<and> run_parent_run_id r' = run_parent_run_id r \<and> run_status r' = run_status r"
  shows "session_ok w'"
  unfolding session_ok_def
proof (intro conjI ballI impI)
  show "distinct (map ses_id (w_sessions w'))" using assms by (simp add: session_ok_def)
next
  fix s assume s: "s \<in> set (w_sessions w')" "session_open s"
  then have "session_mirrors (w_runs w) s" using assms by (simp add: session_ok_def)
  then show "session_mirrors (w_runs w') s"
    by (rule session_mirrors_cong [rotated]) (use assms(3) in blast)
qed

lemma project_sessions_ids [simp]:
  "map ses_id (project_sessions run status now ss) = map ses_id ss"
  by (simp add: project_sessions_def table_simps)

lemma projected_IDLE_iff: "projected_session_state s = SS_IDLE \<longleftrightarrow> isTerminal s"
  by (cases s) (simp_all add: projected_session_state_def)

lemma session_ok_transition_world:
  assumes ok: "session_ok w" "ledger_ok w" and run: "find_run w rid = Some run"
  shows "session_ok (transition_world run opts w)"
proof -
  have id: "run_id run = rid" and mem: "run \<in> set (w_runs w)" using run find_run_id by blast+
  let ?upd = "transition_row opts (run_last_event_seq run + 1) (w_now w)"
  let ?runs = "w_runs (transition_world run opts w)"
  have runs: "?runs = update_where (\<lambda>r. run_id r = rid) ?upd (w_runs w)"
    by (simp add: id)
  have upd: "?upd run \<in> set ?runs" unfolding runs set_update_where using mem id by force
  have keep: "r \<in> set ?runs" if "r \<in> set (w_runs w)" "run_id r \<noteq> rid" for r
    unfolding runs set_update_where using that by force
  have mirrors: "session_mirrors ?runs s'"
    if s': "s' \<in> set (w_sessions (transition_world run opts w))" "session_open s'" for s'
  proof -
    define cond where "cond = (\<lambda>s :: session_row. run_managed_session_id run = Some (ses_id s) \<and> run_parent_run_id run = None
            \<and> ses_current_run s = Some (run_id run)
            \<and> ses_state s \<notin> {SS_CANCELLED, SS_ARCHIVED}
            \<and> (ses_state s \<noteq> projected_session_state (to_to opts) \<or> isTerminal (to_to opts)))"
    have "s' \<in> set (project_sessions run (to_to opts) (w_now w) (w_sessions w))"
      using s'(1) by simp
    then obtain s where s: "s \<in> set (w_sessions w)"
      and s_eq: "s' = (if cond s then s\<lparr>ses_state := projected_session_state (to_to opts),
              ses_current_run := (if isTerminal (to_to opts) then None else ses_current_run s),
              ses_version := ses_version s + 1, ses_updated_at := w_now w\<rparr> else s)"
      unfolding project_sessions_def cond_def [symmetric] by (rule in_update_whereE)
    show ?thesis
    proof (cases "cond s")
      case True
      then show ?thesis
        using s_eq upd id
        by (auto simp: cond_def session_mirrors_def projected_IDLE_iff intro!: bexI [of _ "?upd run"])
    next
      case False
      then have same: "s' = s" using s_eq by simp
      have open_s: "session_open s" using s'(2) same by simp
      then have mir: "session_mirrors (w_runs w) s" using ok(1) s by (simp add: session_ok_def)
      show ?thesis
      proof (cases "ses_current_run s = Some rid")
        case True
        then obtain r where r: "r \<in> set (w_runs w)" "run_id r = rid"
            "run_managed_session_id r = Some (ses_id s)" "run_parent_run_id r = None"
          using mir by (auto simp: session_mirrors_def)
        then have "r = run" using ok(2) mem id by (metis run_id_inj)
        then have "ses_state s = projected_session_state (to_to opts)" "\<not> isTerminal (to_to opts)"
          using False r True id open_s by (auto simp: session_open_def cond_def)
        then show ?thesis
          using upd True r \<open>r = run\<close> same by (auto simp: session_mirrors_def intro!: bexI [of _ "?upd run"])
      next
        case False
        show ?thesis
          unfolding same
          by (rule session_mirrors_cong [OF _ mir]) (use False keep in auto)
      qed
    qed
  qed
  have "map ses_id (w_sessions (transition_world run opts w)) = map ses_id (w_sessions w)"
    by simp
  then show ?thesis
    using mirrors ok(1) by (simp add: session_ok_def)
qed

lemma sessions_fenced_mono:
  assumes "sessions_fenced w"
    and "\<And>s'. s' \<in> set (w_sessions w') \<Longrightarrow> \<not> session_open s' \<Longrightarrow>
          \<exists>s \<in> set (w_sessions w). ses_id s = ses_id s' \<and> \<not> session_open s"
    and "\<And>r'. r' \<in> set (w_runs w') \<Longrightarrow> \<exists>r \<in> set (w_runs w).
          run_managed_session_id r = run_managed_session_id r'
          \<and> (isTerminal (run_status r) \<longrightarrow> isTerminal (run_status r'))"
  shows "sessions_fenced w'"
  unfolding sessions_fenced_def
proof (intro ballI impI)
  fix s' r' assume "s' \<in> set (w_sessions w')" "\<not> session_open s'" "r' \<in> set (w_runs w')"
    "run_managed_session_id r' = Some (ses_id s')"
  then obtain s r where "s \<in> set (w_sessions w)" "ses_id s = ses_id s'" "\<not> session_open s"
    "r \<in> set (w_runs w)" "run_managed_session_id r = Some (ses_id s)"
    "isTerminal (run_status r) \<longrightarrow> isTerminal (run_status r')"
    using assms(2,3) by metis
  then show "isTerminal (run_status r')" using assms(1) by (simp add: sessions_fenced_def)
qed

lemma sessions_fenced_update_runs:
  assumes "sessions_fenced w" and "w_sessions w' = w_sessions w" and "w_runs w' = update_where p upd (w_runs w)"
    and "\<And>r. run_managed_session_id (upd r) = run_managed_session_id r" and "\<And>r. run_status (upd r) = run_status r"
  shows "sessions_fenced w'"
  using assms by (auto simp: sessions_fenced_def set_update_where)

lemma projected_open [simp]: "projected_session_state st \<notin> {SS_CANCELLED, SS_ARCHIVED}"
  "projected_session_state st \<noteq> SS_CANCELLED" "projected_session_state st \<noteq> SS_ARCHIVED"
  by (simp_all add: projected_session_state_def)

lemma in_project_sessions:
  assumes "s' \<in> set (project_sessions run st now ss)"
  obtains s where "s \<in> set ss" and "ses_id s' = ses_id s" and "session_open s' = session_open s"
    and "\<not> session_open s \<Longrightarrow> s' = s"
  using assms unfolding project_sessions_def
  by (rule in_update_whereE) (auto simp: session_open_def split: if_splits intro: that)

lemma sessions_fenced_transition_world:
  assumes "sessions_fenced w" and ok: "ledger_ok w" and run: "find_run w rid = Some run"
    and allowed: "isTransitionAllowed (run_status run) (to_to opts)"
  shows "sessions_fenced (transition_world run opts w)"
proof (rule sessions_fenced_mono [OF assms(1)])
  show "\<exists>s \<in> set (w_sessions w). ses_id s = ses_id s' \<and> \<not> session_open s"
    if s': "s' \<in> set (w_sessions (transition_world run opts w))" "\<not> session_open s'" for s'
  proof -
    have "s' \<in> set (project_sessions run (to_to opts) (w_now w) (w_sessions w))" using s'(1) by simp
    then show ?thesis by (rule in_project_sessions) (use s'(2) in auto)
  qed
  show "\<exists>r \<in> set (w_runs w). run_managed_session_id r = run_managed_session_id r'
          \<and> (isTerminal (run_status r) \<longrightarrow> isTerminal (run_status r'))"
    if r': "r' \<in> set (w_runs (transition_world run opts w))" for r'
  proof -
    have "r' \<in> set (update_where (\<lambda>r. run_id r = run_id run)
        (transition_row opts (run_last_event_seq run + 1) (w_now w)) (w_runs w))"
      using r' by simp
    then obtain r where r: "r \<in> set (w_runs w)" and r'_eq: "r' = (if run_id r = run_id run
        then transition_row opts (run_last_event_seq run + 1) (w_now w) r else r)"
      by (rule in_update_whereE)
    show ?thesis
    proof (cases "run_id r = run_id run")
      case True
      then have "r = run" using ok r run by (metis find_run_iff run_id_inj)
      then have "\<not> isTerminal (run_status r)" using allowed rm.terminal_stuck [of "run_status run"] by blast
      then show ?thesis using r r'_eq True by (intro bexI [of _ r]) auto
    qed (use r r'_eq in auto)
  qed
qed

section \<open>Both writers keep the invariants\<close>

lemma kernel_ok_transition_world:
  "kernel_ok w \<Longrightarrow> find_run w rid = Some run \<Longrightarrow> isTransitionAllowed (run_status run) (to_to opts) \<Longrightarrow>
   kernel_ok (transition_world run opts w)"
  by (simp add: kernel_ok_def ledger_ok_transition_world admission_ok_transition_world
      session_ok_transition_world sessions_fenced_transition_world)

lemma transitionRun_kernel_ok [hoare_rules]: "keeps kernel_ok (transitionRun rid opts)"
  by (rule hoareI) (auto simp: transitionRun_iff intro: kernel_ok_transition_world)

lemma kernel_ok_log_event:
  assumes ok: "kernel_ok w" and run: "find_run w (ev_run_id e) = Some run"
    and seq: "ev_seq e = run_last_event_seq run + 1"
    and upd: "\<And>r. run_id (upd r) = run_id r" "\<And>r. run_last_event_seq (upd r) = ev_seq e"
      "\<And>r. run_status (upd r) = run_status r" "\<And>r. run_parent_run_id (upd r) = run_parent_run_id r"
      "\<And>r. run_managed_session_id (upd r) = run_managed_session_id r"
  shows "kernel_ok (log_event e upd w)"
proof -
  have "ledger_ok (log_event e upd w)"
    using ok run seq upd by (intro ledger_ok_log_event) auto
  moreover have "admission_ok (log_event e upd w)"
    using ok upd by (fastforce simp: kernel_ok_def admission_ok_def set_update_where)
  moreover have "session_ok (log_event e upd w)"
  proof (rule session_ok_runs)
    show "session_ok w" using ok by (simp add: kernel_ok_def)
    show "\<exists>r' \<in> set (w_runs (log_event e upd w)). run_id r' = run_id r
          \<and> run_managed_session_id r' = run_managed_session_id r
          \<and> run_parent_run_id r' = run_parent_run_id r \<and> run_status r' = run_status r"
      if "r \<in> set (w_runs w)" for r
      using in_update_whereI [OF that, of "\<lambda>r. run_id r = ev_run_id e" upd]
      by (intro bexI [of _ "if run_id r = ev_run_id e then upd r else r"]) (simp_all add: upd)
  qed simp
  moreover have "sessions_fenced (log_event e upd w)"
    by (rule sessions_fenced_update_runs [of w _ "\<lambda>r. run_id r = ev_run_id e" upd]) (use ok upd in \<open>simp_all add: kernel_ok_def\<close>)
  ultimately show ?thesis by (simp add: kernel_ok_def)
qed

lemma appendEvent_kernel_ok [hoare_rules]:
  "keeps kernel_ok (appendEvent rid type payload attempt patch)"
  by (rule hoareI) (auto simp: appendEvent_iff intro!: kernel_ok_log_event)

section \<open>What no operation undoes\<close>

text \<open>
  \<open>advances w w'\<close> is the contract of a ledger seen over time: events are only added, no run
  disappears, the columns that identify a run never change, its status moves along allowed
  transitions, what a terminal run reports stays, no session disappears and a cancelled or
  archived one stays so. It is a preorder, so it holds over any
  sequence of operations that have it. \<open>kernel_from w0\<close> joins it with the invariants; it is
  what every operation of the development keeps.
\<close>

definition run_identity where
  "run_identity r =
     (run_id r, run_tenant_id r, run_managed_session_id r, run_agent_version_id r,
      run_parent_run_id r, run_replaces_run_id r, run_replacement_generation r,
      run_forked_from_run_id r, run_goal r, run_input r, run_max_steps r, run_token_budget r,
      run_scheduled_for r, run_created_at r)"

definition run_advances :: "run_row \<Rightarrow> run_row \<Rightarrow> bool" where
  "run_advances r r' \<longleftrightarrow>
     run_identity r' = run_identity r
     \<and> run_step\<^sup>*\<^sup>* (run_status r) (run_status r')
     \<and> run_last_event_seq r \<le> run_last_event_seq r'
     \<and> (isTerminal (run_status r) \<longrightarrow>
          run_result r' = run_result r \<and> run_result_size_bytes r' = run_result_size_bytes r
          \<and> run_status_reason r' = run_status_reason r)"

definition session_advances :: "session_row \<Rightarrow> session_row \<Rightarrow> bool" where
  "session_advances s s' \<longleftrightarrow>
     ses_id s' = ses_id s \<and> ses_tenant_id s' = ses_tenant_id s
     \<and> (\<not> session_open s \<longrightarrow> ses_state s' = ses_state s)"

text \<open>The outbox grows by unpublished rows, and its ids stay those of its sequence.\<close>

definition ids_drawn :: "world \<Rightarrow> bool" where
  "ids_drawn w \<longleftrightarrow> map ob_id (w_outbox w) = map (w_outbox_seq w) [0..<length (w_outbox w)]"

definition outbox_advances :: "world \<Rightarrow> world \<Rightarrow> bool" where
  "outbox_advances w w' \<longleftrightarrow>
     (\<exists>later. w_outbox w' = w_outbox w @ later \<and> (\<forall>ob \<in> set later. ob_published_at ob = None))
     \<and> w_outbox_seq w' = w_outbox_seq w \<and> (ids_drawn w \<longrightarrow> ids_drawn w')"

definition advances :: "world \<Rightarrow> world \<Rightarrow> bool" where
  "advances w w' \<longleftrightarrow>
     (\<exists>more. w_events w' = w_events w @ more)
     \<and> outbox_advances w w'
     \<and> (\<forall>r \<in> set (w_runs w). \<exists>r' \<in> set (w_runs w'). run_advances r r')
     \<and> (\<forall>s \<in> set (w_sessions w). \<exists>s' \<in> set (w_sessions w'). session_advances s s')"

definition kernel_from :: "world \<Rightarrow> world \<Rightarrow> bool" where
  "kernel_from w0 w \<longleftrightarrow> kernel_ok w \<and> advances w0 w"

lemma terminal_stays: "run_step\<^sup>*\<^sup>* s t \<Longrightarrow> isTerminal s \<Longrightarrow> t = s"
proof (induction rule: rtranclp_induct)
  case base
  then show ?case by simp
next
  case (step t u)
  then have "isTransitionAllowed s u" by (simp add: run_step_iff)
  then show ?case using \<open>isTerminal s\<close> rm.terminal_stuck by blast
qed

lemma run_advances_refl [simp]: "run_advances r r"
  by (simp add: run_advances_def)

lemma run_advances_trans: "run_advances a b \<Longrightarrow> run_advances b c \<Longrightarrow> run_advances a c"
  using terminal_stays [of "run_status a" "run_status b"]
  by (auto simp: run_advances_def intro: rtranclp_trans)

lemma session_advances_refl [simp]: "session_advances s s"
  by (simp add: session_advances_def)

lemma session_advances_trans: "session_advances a b \<Longrightarrow> session_advances b c \<Longrightarrow> session_advances a c"
  by (auto simp: session_advances_def session_open_def)

lemma outbox_advances_same:
  "w_outbox w' = w_outbox w \<Longrightarrow> w_outbox_seq w' = w_outbox_seq w \<Longrightarrow> outbox_advances w w'"
  by (simp add: outbox_advances_def ids_drawn_def)

lemma outbox_advances_trans: "outbox_advances a b \<Longrightarrow> outbox_advances b c \<Longrightarrow> outbox_advances a c"
  by (auto simp: outbox_advances_def)

lemma outbox_advances_log_event [simp]: "outbox_advances w (log_event e upd w)"
  by (simp add: outbox_advances_def ids_drawn_def log_event_def event_outbox_row_def next_outbox_id_def)

lemma outbox_advances_transition [simp]: "outbox_advances w (transition_world run opts w)"
  using outbox_advances_log_event [of w "transition_event run opts (w_now w)"
      "transition_row opts (run_last_event_seq run + 1) (w_now w)"]
  by (simp add: outbox_advances_def ids_drawn_def transition_world_def settle_transition_def)

lemma outbox_advances_transitionRun: "transitionRun rid opts w = Inr (r, w') \<Longrightarrow> outbox_advances w w'"
  by (auto simp: transitionRun_iff)

lemma advances_refl [simp]: "advances w w"
  unfolding advances_def by (metis append_Nil2 outbox_advances_same run_advances_refl session_advances_refl)

lemma advances_trans:
  assumes ab: "advances a b" and bc: "advances b c"
  shows "advances a c"
  unfolding advances_def
proof (intro conjI ballI)
  show "\<exists>more. w_events c = w_events a @ more"
    using ab bc unfolding advances_def by (metis append.assoc)
  show "outbox_advances a c"
    using ab bc outbox_advances_trans unfolding advances_def by blast
  show "\<exists>r' \<in> set (w_runs c). run_advances r r'" if "r \<in> set (w_runs a)" for r
    using ab bc that run_advances_trans unfolding advances_def by metis
  show "\<exists>s' \<in> set (w_sessions c). session_advances s s'" if "s \<in> set (w_sessions a)" for s
    using ab bc that session_advances_trans unfolding advances_def by metis
qed

lemma advances_cong:
  "w_runs w' = w_runs w \<Longrightarrow> w_events w' = w_events w \<Longrightarrow> w_outbox w' = w_outbox w \<Longrightarrow>
   w_outbox_seq w' = w_outbox_seq w \<Longrightarrow> w_sessions w' = w_sessions w \<Longrightarrow> advances w0 w' = advances w0 w"
  by (simp add: advances_def outbox_advances_def ids_drawn_def)

lemma kernel_from_cong:
  "w_runs w' = w_runs w \<Longrightarrow> w_events w' = w_events w \<Longrightarrow> w_outbox w' = w_outbox w \<Longrightarrow>
   w_outbox_seq w' = w_outbox_seq w \<Longrightarrow> w_admissions w' = w_admissions w \<Longrightarrow> w_sessions w' = w_sessions w \<Longrightarrow>
   kernel_from w0 w' = kernel_from w0 w"
  using kernel_ok_cong [of w' w] advances_cong [of w' w] by (simp add: kernel_from_def)

lemma kernel_from_updates [simp]:
  "kernel_from w0 (w\<lparr>w_attempts := a\<rparr>) = kernel_from w0 w"
  "kernel_from w0 (w\<lparr>w_workspaces := b\<rparr>) = kernel_from w0 w"
  "kernel_from w0 (w\<lparr>w_grants := c\<rparr>) = kernel_from w0 w"
  "kernel_from w0 (w\<lparr>w_approvals := d\<rparr>) = kernel_from w0 w"
  "kernel_from w0 (w\<lparr>w_receipts := e\<rparr>) = kernel_from w0 w"
  "kernel_from w0 (w\<lparr>w_commands := f\<rparr>) = kernel_from w0 w"
  "kernel_from w0 (w\<lparr>w_session_events := g\<rparr>) = kernel_from w0 w"
  "kernel_from w0 (w\<lparr>w_artifacts := h\<rparr>) = kernel_from w0 w"
  "kernel_from w0 (w\<lparr>w_heads := i\<rparr>) = kernel_from w0 w"
  "kernel_from w0 (w\<lparr>w_revisions := j\<rparr>) = kernel_from w0 w"
  "kernel_from w0 (w\<lparr>w_checkpoints := k\<rparr>) = kernel_from w0 w"
  "kernel_from w0 (w\<lparr>w_ulid_next := n\<rparr>) = kernel_from w0 w"
  "kernel_from w0 (w\<lparr>w_now := t\<rparr>) = kernel_from w0 w"
  by (rule kernel_from_cong, simp_all)+

lemma kernel_from_ok: "kernel_from w0 w \<Longrightarrow> kernel_ok w"
  by (simp add: kernel_from_def)

lemma kernel_from_refl: "kernel_ok w \<Longrightarrow> kernel_from w w"
  by (simp add: kernel_from_def)

lemma kernel_fromI: "kernel_from w0 w \<Longrightarrow> kernel_ok w' \<Longrightarrow> advances w w' \<Longrightarrow> kernel_from w0 w'"
  by (auto simp: kernel_from_def intro: advances_trans)

text \<open>An operation that keeps \<open>kernel_from\<close> keeps the invariants and advances.\<close>

lemma keeps_kernel_fromD:
  assumes "\<And>w0. keeps (kernel_from w0) m" and "kernel_ok w" and "m w = Inr (x, w')"
  shows "kernel_ok w'" and "advances w w'"
  using hoareD [OF assms(1) kernel_from_refl [OF assms(2)] assms(3)]
  by (simp_all add: kernel_from_def)

lemma commit_kernel_ok:
  "(\<And>w0. keeps (kernel_from w0) m) \<Longrightarrow> kernel_ok w \<Longrightarrow> kernel_ok (snd (commit m w))"
  by (rule kernel_from_ok [of w], rule commit_keeps) (auto intro: kernel_from_refl)

lemma advances_log_event:
  assumes ok: "ledger_ok w" and run: "find_run w (ev_run_id e) = Some run"
    and adv: "run_advances run (upd run)"
  shows "advances w (log_event e upd w)"
proof -
  have "\<exists>r' \<in> set (w_runs (log_event e upd w)). run_advances r r'" if r: "r \<in> set (w_runs w)" for r
  proof (rule bexI)
    show "(if run_id r = ev_run_id e then upd r else r) \<in> set (w_runs (log_event e upd w))"
      using in_update_whereI [OF r, of "\<lambda>r. run_id r = ev_run_id e" upd] by simp
    show "run_advances r (if run_id r = ev_run_id e then upd r else r)"
    proof (cases "run_id r = ev_run_id e")
      case True
      then have "r = run" using ok run r by (metis find_run_iff run_id_inj)
      then show ?thesis using True adv by simp
    qed simp
  qed
  moreover have "\<exists>s' \<in> set (w_sessions (log_event e upd w)). session_advances s s'"
    if "s \<in> set (w_sessions w)" for s
    using that by (intro bexI [of _ s]) simp_all
  ultimately show ?thesis by (simp add: advances_def)
qed

lemma transition_row_identity [simp]: "run_identity (transition_row opts seq now r) = run_identity r"
  by (simp add: run_identity_def transition_row_def Let_def)

lemma append_row_identity [simp]: "run_identity (append_row patch seq now r) = run_identity r"
  by (simp add: run_identity_def append_row_def)

lemma advances_transition_world:
  assumes "ledger_ok w" and "find_run w rid = Some run"
    and "isTransitionAllowed (run_status run) (to_to opts)"
  shows "advances w (transition_world run opts w)"
proof -
  have "run_advances run (transition_row opts (run_last_event_seq run + 1) (w_now w) run)"
    using assms(3) rm.terminal_stuck [of "run_status run"]
    by (auto simp: run_advances_def intro!: r_into_rtranclp simp: run_step_iff)
  then have "advances w (log_event (transition_event run opts (w_now w))
      (transition_row opts (run_last_event_seq run + 1) (w_now w)) w)"
    using assms find_run_id [OF assms(2)]
    by (intro advances_log_event [where run = run]) (auto simp: transition_event_def)
  moreover have "\<exists>s' \<in> set (w_sessions (transition_world run opts w)). session_advances s s'"
    if s: "s \<in> set (w_sessions w)" for s
  proof -
    have "w_sessions (transition_world run opts w) = project_sessions run (to_to opts) (w_now w) (w_sessions w)"
      by simp
    then show ?thesis
      unfolding project_sessions_def
      by (simp only:) (rule bexI [OF _ in_update_whereI [OF s]], auto simp: session_advances_def session_open_def)
  qed
  ultimately show ?thesis
    using outbox_advances_transition [of w run opts] by (simp add: advances_def transition_world_def)
qed

text \<open>A change of run rows that keeps what the invariants and \<open>advances\<close> read.\<close>

lemma kernel_from_touch:
  assumes from_w: "kernel_from w0 w"
    and upd: "\<And>r. run_identity (upd r) = run_identity r" "\<And>r. run_status (upd r) = run_status r"
      "\<And>r. run_last_event_seq (upd r) = run_last_event_seq r" "\<And>r. run_result (upd r) = run_result r"
      "\<And>r. run_result_size_bytes (upd r) = run_result_size_bytes r"
      "\<And>r. run_status_reason (upd r) = run_status_reason r"
  shows "kernel_from w0 (w\<lparr>w_runs := update_where p upd (w_runs w)\<rparr>)" (is "kernel_from w0 ?w'")
proof (rule kernel_fromI [OF from_w])
  have id: "run_id (upd r) = run_id r" "run_managed_session_id (upd r) = run_managed_session_id r"
    "run_parent_run_id (upd r) = run_parent_run_id r" for r
    using upd(1) [of r] by (simp_all add: run_identity_def)
  have ok: "kernel_ok w" by (rule kernel_from_ok [OF from_w])
  have "ledger_ok ?w'"
  proof -
    have "gapless (w_events w) (if p r then upd r else r)" if "r \<in> set (w_runs w)" for r
      using kernel_okD [OF ok] that by (auto simp: ledger_ok_def gapless_def upd id)
    moreover have "\<exists>r' \<in> set (update_where p upd (w_runs w)). run_id r' = run_id r" if "r \<in> set (w_runs w)" for r
      using in_update_whereI [OF that, of p upd] by (rule rev_bexI) (simp add: id)
    ultimately show ?thesis
      using kernel_okD [OF ok]
      by (auto simp: ledger_ok_def outbox_mirrors_def map_update_where id elim!: in_update_whereE) metis
  qed
  moreover have "admission_ok ?w'"
    using ok by (auto simp: kernel_ok_def admission_ok_def upd id elim!: in_update_whereE split: if_splits)
  moreover have "session_ok ?w'"
  proof (rule session_ok_runs)
    show "session_ok w" using ok by (simp add: kernel_ok_def)
    show "\<exists>r' \<in> set (w_runs ?w'). run_id r' = run_id r \<and> run_managed_session_id r' = run_managed_session_id r
          \<and> run_parent_run_id r' = run_parent_run_id r \<and> run_status r' = run_status r"
      if "r \<in> set (w_runs w)" for r
      using in_update_whereI [OF that, of p upd]
      by (intro bexI [of _ "if p r then upd r else r"]) (simp_all add: upd id)
  qed simp
  moreover have "sessions_fenced ?w'"
    by (rule sessions_fenced_update_runs [of w _ p upd]) (use ok in \<open>simp_all add: kernel_ok_def upd id\<close>)
  ultimately show "kernel_ok ?w'" by (simp add: kernel_ok_def)
  show "advances w ?w'"
    unfolding advances_def
  proof (intro conjI ballI)
    fix r assume "r \<in> set (w_runs w)"
    from in_update_whereI [OF this, of p upd] show "\<exists>r' \<in> set (w_runs ?w'). run_advances r r'"
      by (intro bexI [of _ "if p r then upd r else r"]) (simp_all add: run_advances_def upd)
  next
    fix s assume "s \<in> set (w_sessions w)"
    then show "\<exists>s' \<in> set (w_sessions ?w'). session_advances s s'" by (intro bexI [of _ s]) simp_all
  qed (simp_all add: outbox_advances_same)
qed

lemma transitionRun_kernel_from [hoare_rules]: "keeps (kernel_from w0) (transitionRun rid opts)"
proof (rule hoareI)
  fix w x w' assume from_w: "kernel_from w0 w" and run: "transitionRun rid opts w = Inr (x, w')"
  have ok: "kernel_ok w" using from_w by (rule kernel_from_ok)
  from run obtain r where r: "find_run w rid = Some r" "isTransitionAllowed (run_status r) (to_to opts)"
    and w': "w' = transition_world r opts w"
    by (auto simp: transitionRun_iff)
  have "kernel_ok w'" unfolding w' using ok r by (rule kernel_ok_transition_world)
  moreover have "advances w w'" unfolding w' using kernel_okD [OF ok] r by (rule advances_transition_world)
  ultimately show "kernel_from w0 w'" by (rule kernel_fromI [OF from_w])
qed

lemma appendEvent_kernel_from [hoare_rules]:
  "keeps (kernel_from w0) (appendEvent rid type payload attempt patch)"
proof (rule hoareI)
  fix w x w' assume from_w: "kernel_from w0 w" and run: "appendEvent rid type payload attempt patch w = Inr (x, w')"
  have ok: "kernel_ok w" using from_w by (rule kernel_from_ok)
  have ok': "kernel_ok w'" using appendEvent_kernel_ok ok run by (rule hoareD)
  from run obtain r where r: "find_run w rid = Some r"
    and w': "w' = log_event (new_event rid (run_last_event_seq r + 1) type payload attempt (w_now w))
                 (append_row patch (run_last_event_seq r + 1) (w_now w)) w"
    by (auto simp: appendEvent_iff)
  have "run_advances r (append_row patch (run_last_event_seq r + 1) (w_now w) r)"
    unfolding run_advances_def append_row_sel append_row_identity by (simp add: append_row_def)
  then have "advances w w'"
    unfolding w' using kernel_okD [OF ok] r by (intro advances_log_event [where run = r]) simp_all
  with from_w ok' show "kernel_from w0 w'" by (rule kernel_fromI)
qed

lemma newId_iff:
  "newId pre w = Inr (i, w') \<longleftrightarrow>
     i = pre @ ''_'' @ toLowerCase (w_ulid w (w_ulid_next w)) \<and>
     w' = w\<lparr>w_ulid_next := Suc (w_ulid_next w)\<rparr>"
  by (auto simp: newId_def)

lemma newId_kernel_from [hoare_rules]: "keeps (kernel_from w0) (newId pre)"
  by (rule hoareI) (auto simp: newId_iff)

lemma find_run_transition_world:
  "find_run (transition_world r opts w) rid =
     map_option (\<lambda>q. if run_id q = run_id r
        then transition_row opts (run_last_event_seq r + 1) (w_now w) q else q) (find_run w rid)"
  by (simp add: find_run_def find_key_update)

lemma find_run_transition_other:
  "rid \<noteq> run_id r \<Longrightarrow> find_run (transition_world r opts w) rid = find_run w rid"
  using find_run_id [of w rid] by (cases "find_run w rid") (auto simp: find_run_transition_world)

lemma find_run_log_event:
  assumes "\<And>r. run_id (upd r) = run_id r"
  shows "find_run (log_event e upd w) rid =
     (if rid = ev_run_id e then map_option upd (find_run w rid) else find_run w rid)"
proof -
  have "find_run (log_event e upd w) rid =
      map_option (\<lambda>q. if run_id q = ev_run_id e then upd q else q) (find_run w rid)"
    by (simp add: find_run_def log_event_def find_key_update assms)
  also have "\<dots> = (if rid = ev_run_id e then map_option upd (find_run w rid) else find_run w rid)"
    using find_run_id [of w rid] by (cases "find_run w rid") auto
  finally show ?thesis .
qed

lemma find_run_updates [simp]:
  "find_run (w\<lparr>w_attempts := a\<rparr>) rid = find_run w rid"
  "find_run (w\<lparr>w_ulid_next := n\<rparr>) rid = find_run w rid"
  "find_run (w\<lparr>w_now := t\<rparr>) rid = find_run w rid"
  "find_run (w\<lparr>w_grants := g\<rparr>) rid = find_run w rid"
  "find_run (w\<lparr>w_approvals := ap\<rparr>) rid = find_run w rid"
  "find_run (w\<lparr>w_receipts := rc\<rparr>) rid = find_run w rid"
  "find_run (w\<lparr>w_session_events := se\<rparr>) rid = find_run w rid"
  by (simp_all add: find_run_def)

section \<open>What a transition does on every branch\<close>

text \<open>With one row per id, the row of a committed write is the one that was locked.\<close>

lemma update_where_one:
  assumes "distinct (map run_id (w_runs w))" and "find_run w rid = Some run"
  shows "update_where (\<lambda>r. run_id r = rid) upd (w_runs w) =
    map (\<lambda>r. if run_id r = rid then upd run else r) (w_runs w)"
proof -
  from find_run_id [OF assms(2)] have run: "run_id run = rid" "run \<in> set (w_runs w)" by simp_all
  have "r = run" if "r \<in> set (w_runs w)" "run_id r = rid" for r
    using assms(1) run that by (auto simp: distinct_map inj_on_def)
  then show ?thesis by (auto simp: update_where_def)
qed

lemma released_reason:
  assumes "isTerminal s"
  shows "''run_'' @ toLowerCase (run_status_name s) =
     (case s of COMPLETED \<Rightarrow> ''run_completed'' | FAILED \<Rightarrow> ''run_failed'' | _ \<Rightarrow> ''run_cancelled'')"
proof -
  have "''run_'' @ toLowerCase (run_status_name COMPLETED) = ''run_completed''"
    "''run_'' @ toLowerCase (run_status_name FAILED) = ''run_failed''"
    "''run_'' @ toLowerCase (run_status_name CANCELLED) = ''run_cancelled''"
    by code_simp+
  with assms show ?thesis by (auto simp: isTerminal_iff)
qed


end
