(* ===== verification/Demo.thy ===== *)
theory Demo
  imports Ledger_Inv
begin

text \<open>
  Worked examples that the witnesses share: a database right after the migrations with one
  tenant, one agent version and one idle session, and the same database with one run in a
  given status. Both satisfy the invariants.
\<close>

definition fresh_database :: "(nat \<Rightarrow> string) \<Rightarrow> int \<Rightarrow> world" where
  "fresh_database ulid now =
     \<lparr>w_runs = [], w_events = [], w_outbox = [], w_attempts = [], w_admissions = [],
      w_tenants = [], w_versions = [], w_workspaces = [], w_grants = [], w_approvals = [],
      w_receipts = [], w_sessions = [], w_commands = [], w_session_events = [], w_artifacts = [],
      w_heads = [], w_revisions = [], w_checkpoints = [],
      w_now = now, w_ulid = ulid, w_ulid_next = 0,
      w_outbox_seq = Suc, w_scan = (\<lambda>_. 0)\<rparr>"

definition demo_tenant :: tenant_row where
  "demo_tenant = \<lparr>ten_id = ''tnt_1'', ten_active = True, ten_max_concurrent_runs = Some 4,
     ten_daily_token_budget = Some 100000\<rparr>"

definition demo_session :: session_row where
  "demo_session =
     \<lparr>ses_id = ''ses_1'', ses_tenant_id = ''tnt_1'', ses_principal_id = ''key_1'',
      ses_agent_version_id = ''av_1'', ses_objective = ''objective'', ses_correlation_ref = None,
      ses_state = SS_IDLE, ses_version = 1, ses_policy = JObj [], ses_credential_grant_refs = [],
      ses_current_run = None, ses_received_event_seq = 0, ses_created_at = 0, ses_updated_at = 0\<rparr>"

definition demo_base :: world where
  "demo_base = (fresh_database (\<lambda>n. replicate n CHR ''A'') 1000)
     \<lparr>w_tenants := [demo_tenant], w_versions := [(''av_1'', ''tnt_1'')],
      w_sessions := [demo_session]\<rparr>"

lemma demo_base_ok: "kernel_ok demo_base"
  by (simp add: demo_base_def fresh_database_def kernel_ok_def ledger_ok_def outbox_mirrors_def
      admission_ok_def session_ok_def sessions_fenced_def session_open_def session_mirrors_def demo_session_def)

definition demo_run :: "run_status \<Rightarrow> run_row" where
  "demo_run st =
     \<lparr>run_id = ''run_1'', run_tenant_id = ''tnt_1'', run_managed_session_id = None,
      run_agent_version_id = ''av_1'', run_parent_run_id = None, run_replaces_run_id = None,
      run_replacement_generation = 0, run_forked_from_run_id = None, run_goal = ''goal'',
      run_input = [], run_status = st, run_status_reason = None, run_result = None,
      run_result_size_bytes = None, run_progress = JObj [], run_workspace_id = Some ''ws_1'',
      run_current_attempt_id = Some ''att_1'', run_last_event_seq = 0, run_max_steps = 50,
      run_token_budget = Some 5000, run_tokens_used = 0, run_awaited_signal = None,
      run_awaited_correlation = None, run_awaited_schema = None, run_scheduled_for = None,
      run_debug_fault_points = [], run_created_at = 0, run_updated_at = 0\<rparr>"

definition demo_attempt :: attempt_row where
  "demo_attempt =
     \<lparr>att_id = ''att_1'', att_run_id = ''run_1'', att_no = 1, att_worker_id = ''worker_1'',
      att_state = AS_ACTIVE, att_lease_expires_at = 2000, att_heartbeat_at = 0,
      att_sandbox_id = None, att_sandbox_domain = None, att_exit_reason = None\<rparr>"

definition demo_admission :: admission_row where
  "demo_admission =
     \<lparr>adm_run_id = ''run_1'', adm_tenant_id = ''tnt_1'', adm_kind = AK_direct,
      adm_active = True, adm_reserved_tokens = 5000, adm_released_at = None,
      adm_release_reason = None\<rparr>"

definition demo_world :: "run_status \<Rightarrow> world" where
  "demo_world st = demo_base
     \<lparr>w_runs := [demo_run st], w_attempts := [demo_attempt],
      w_admissions := [demo_admission\<lparr>adm_active := \<not> isTerminal st\<rparr>],
      w_workspaces := [(''ws_1'', ''run_1'')]\<rparr>"

lemma demo_run_sel [simp]:
  "run_id (demo_run st) = ''run_1''" "run_status (demo_run st) = st"
  "run_last_event_seq (demo_run st) = 0" "run_tenant_id (demo_run st) = ''tnt_1''"
  "run_parent_run_id (demo_run st) = None" "run_managed_session_id (demo_run st) = None"
  "run_current_attempt_id (demo_run st) = Some ''att_1''"
  by (simp_all add: demo_run_def)

lemma demo_world_sel [simp]:
  "w_runs (demo_world st) = [demo_run st]" "w_attempts (demo_world st) = [demo_attempt]"
  "w_events (demo_world st) = []" "w_outbox (demo_world st) = []"
  "w_sessions (demo_world st) = [demo_session]" "w_now (demo_world st) = 1000"
  "w_grants (demo_world st) = []" "w_approvals (demo_world st) = []"
  "w_admissions (demo_world st) = [demo_admission\<lparr>adm_active := \<not> isTerminal st\<rparr>]"
  "w_receipts (demo_world st) = []" "w_session_events (demo_world st) = []"
  by (simp_all add: demo_world_def demo_base_def fresh_database_def)

lemma demo_world_ok [simp]: "kernel_ok (demo_world st)"
  by (simp add: kernel_ok_def ledger_ok_def outbox_mirrors_def gapless_def
      admission_ok_def session_ok_def sessions_fenced_def session_open_def session_mirrors_def demo_session_def demo_admission_def)

lemma demo_world_ledger_ok [simp]: "ledger_ok (demo_world st)"
  using demo_world_ok by blast

lemma demo_find_run [simp]: "find_run (demo_world st) ''run_1'' = Some (demo_run st)"
  by (simp add: find_run_def)

text \<open>The same cancellation on a running run and on a completed one.\<close>

definition demo_cancel :: transition_options where
  "demo_cancel =
     \<lparr>to_expectFrom = [QUEUED, RUNNING], to_to = CANCELLED, to_type = RunCancelled,
      to_payload = [], to_attempt = None, to_reason = None, to_patch = no_patch\<rparr>"


end
