(* ===== verification/Event_Log.thy ===== *)
theory Event_Log
  imports Demo
begin

text \<open>
  Reading the ledger: \<^verbatim>\<open>listEvents\<close> of \<^verbatim>\<open>src/store/events.ts\<close> and the event stream of
  \<^verbatim>\<open>src/api/routes/runs.ts\<close>. The locale \<open>gapless_log\<close> is what a reader relies on: a page
  after position \<open>a\<close> is the next stretch of a gapless numbering.
\<close>

definition listEvents :: "world \<Rightarrow> string \<Rightarrow> int \<Rightarrow> nat \<Rightarrow> event_row list" where
  "listEvents w rid afterSeq limit =
     take limit (sort_key ev_seq
       (filter (\<lambda>e. ev_run_id e = rid \<and> afterSeq < ev_seq e) (w_events w)))"

text \<open>
  The stream loop. Each iteration lists the next batch in one state of the database and then
  reads the run in a possibly later one; the stream ends once the run is terminal and its last
  event has been written. The result is the list of events written and whether the stream ended
  that way.
\<close>

fun stream_events :: "(world \<times> world) list \<Rightarrow> string \<Rightarrow> int \<Rightarrow> event_row list \<times> bool" where
  "stream_events [] rid afterSeq = ([], False)"
| "stream_events ((w1, w2) # ws) rid afterSeq =
     (let batch = listEvents w1 rid afterSeq 500;
          afterSeq' = (case batch of [] \<Rightarrow> afterSeq | _ \<Rightarrow> ev_seq (last batch))
      in case find_run w2 rid of
           Some cur \<Rightarrow>
             if isTerminal (run_status cur) \<and> run_last_event_seq cur \<le> afterSeq'
             then (batch, True)
             else (let rest = stream_events ws rid afterSeq' in (batch @ fst rest, snd rest))
         | None \<Rightarrow> (let rest = stream_events ws rid afterSeq' in (batch @ fst rest, snd rest)))"

section \<open>Gapless logs\<close>

locale gapless_log =
  fixes ok :: "'s \<Rightarrow> bool"
    and last_seq :: "'s \<Rightarrow> 'k \<Rightarrow> int option"
    and page :: "'s \<Rightarrow> 'k \<Rightarrow> int \<Rightarrow> nat \<Rightarrow> int list"
  assumes page_next: "ok s \<Longrightarrow> last_seq s k = Some m \<Longrightarrow> 0 \<le> a \<Longrightarrow> page s k a n = take n [a + 1..m]"
    and page_missing: "ok s \<Longrightarrow> last_seq s k = None \<Longrightarrow> page s k a n = []"
begin

lemma take_upto: "take n [i..j] = [i..min j (i + int n - 1)]"
proof (induction n arbitrary: i)
  case 0
  then show ?case by simp
next
  case (Suc n)
  show ?case
  proof (cases "i \<le> j")
    case True
    then have "take (Suc n) [i..j] = i # [i + 1..min j (i + 1 + int n - 1)]"
      by (simp add: upto_rec1 Suc.IH)
    also have "\<dots> = [i..min j (i + int (Suc n) - 1)]"
      using True by (simp add: upto_rec1 algebra_simps)
    finally show ?thesis .
  next
    case False
    then show ?thesis by simp
  qed
qed

lemma page_interval:
  assumes "ok s" and "0 \<le> a"
  obtains b where "a \<le> b" and "page s k a n = [a + 1..b]"
    and "\<And>m. last_seq s k = Some m \<Longrightarrow> b \<le> max a m"
proof (cases "last_seq s k")
  case None
  then show ?thesis using assms page_missing that [of a] by simp
next
  case (Some m)
  then have p: "page s k a n = [a + 1..min m (a + int n)]"
    using page_next [OF assms(1) Some assms(2)] by (simp add: take_upto algebra_simps)
  show ?thesis
  proof (cases "a \<le> m")
    case True
    then show ?thesis using p Some that [of "min m (a + int n)"] by simp
  next
    case False
    then show ?thesis using p Some that [of a] by simp
  qed
qed

definition next_pos :: "int list \<Rightarrow> int \<Rightarrow> int" where
  "next_pos p a = (if p = [] then a else last p)"

lemma next_pos_interval: "a \<le> b \<Longrightarrow> next_pos [a + 1..b] a = b"
  by (cases "a = b") (simp_all add: next_pos_def upto_rec2 [of "a + 1" b])

text \<open>A reader that resumes after the last number it has seen, over any sequence of states.\<close>

fun follow :: "'s list \<Rightarrow> 'k \<Rightarrow> int \<Rightarrow> nat \<Rightarrow> int list" where
  "follow [] k a n = []"
| "follow (s # ss) k a n = (let p = page s k a n in p @ follow ss k (next_pos p a) n)"

lemma follow_exactly_once:
  "0 \<le> a \<Longrightarrow> (\<And>s. s \<in> set ss \<Longrightarrow> ok s) \<Longrightarrow> \<exists>b. a \<le> b \<and> follow ss k a n = [a + 1..b]"
proof (induction ss arbitrary: a)
  case Nil
  then show ?case by auto
next
  case (Cons s ss)
  have ok_s: "ok s" using Cons.prems(2) by simp
  obtain b where b: "a \<le> b" "page s k a n = [a + 1..b]"
    by (rule page_interval [OF ok_s Cons.prems(1), where k = k and n = n])
  have "\<exists>c. b \<le> c \<and> follow ss k b n = [b + 1..c]"
    using Cons.prems b(1) by (intro Cons.IH) auto
  then obtain c where c: "b \<le> c" "follow ss k b n = [b + 1..c]" by blast
  have "follow (s # ss) k a n = [a + 1..b] @ [b + 1..c]"
    using b c by (simp add: next_pos_interval)
  also have "\<dots> = [a + 1..c]"
    using b(1) c(1) by (rule upto_append)
  finally show ?case using b(1) c(1) by (intro exI [of _ c]) simp
qed

end

lemma sorted_gapless_filter:
  "sort_key ev_seq (filter (\<lambda>e. ev_run_id e = rid \<and> a < ev_seq e) es) =
   filter (\<lambda>e. a < ev_seq e) (filter (\<lambda>e. ev_run_id e = rid) es)"
  if "map ev_seq (filter (\<lambda>e. ev_run_id e = rid) es) = [1..m]"
proof -
  have eq: "filter (\<lambda>e. ev_run_id e = rid \<and> a < ev_seq e) es =
      filter (\<lambda>e. a < ev_seq e) (filter (\<lambda>e. ev_run_id e = rid) es)"
    by (induction es) auto
  have "sorted (map ev_seq (filter (\<lambda>e. ev_run_id e = rid) es))"
    unfolding that by (rule sorted_upto)
  then have "sorted (map ev_seq (filter (\<lambda>e. a < ev_seq e) (filter (\<lambda>e. ev_run_id e = rid) es)))"
    by (rule sorted_filter)
  then show ?thesis unfolding eq by (rule sort_key_id_if_sorted)
qed

lemma filter_upto: "0 \<le> a \<Longrightarrow> filter (\<lambda>q. a < q) [1..m] = [a + 1..m]"
proof (induction "nat m" arbitrary: m)
  case 0
  then show ?case by simp
next
  case (Suc n)
  then have "filter (\<lambda>q. a < q) [1..m - 1] = [a + 1..m - 1]" by simp
  moreover have "[1..m] = [1..m - 1] @ [m]" using Suc.hyps(2) by (intro upto_rec2) simp
  ultimately show ?case
    using Suc.prems by (cases "a < m") (auto simp: upto_rec2 [of "a + 1" m])
qed

lemma listEvents_seqs:
  assumes "ledger_ok w" and "find_run w rid = Some r" and "0 \<le> a"
  shows "map ev_seq (listEvents w rid a n) = take n [a + 1..run_last_event_seq r]"
proof -
  have g: "map ev_seq (filter (\<lambda>e. ev_run_id e = rid) (w_events w)) = [1..run_last_event_seq r]"
    using assms by (auto simp: find_run_iff ledger_ok_def gapless_def)
  have "map ev_seq (filter (\<lambda>e. a < ev_seq e) (filter (\<lambda>e. ev_run_id e = rid) (w_events w))) =
      filter (\<lambda>q. a < q) (map ev_seq (filter (\<lambda>e. ev_run_id e = rid) (w_events w)))"
    by (simp only: filter_map comp_def)
  then show ?thesis
    unfolding listEvents_def sorted_gapless_filter [OF g] take_map [symmetric]
    by (simp only: g filter_upto [OF assms(3)])
qed

lemma listEvents_missing:
  assumes "ledger_ok w" and "find_run w rid = None"
  shows "listEvents w rid a n = []"
proof -
  have "\<forall>r \<in> set (w_runs w). run_id r \<noteq> rid"
    using assms(2) by (auto simp: find_run_def find_None_iff)
  then have "filter (\<lambda>e. ev_run_id e = rid \<and> a < ev_seq e) (w_events w) = []"
    using assms(1) by (force simp: ledger_ok_def filter_empty_conv)
  then show ?thesis by (simp add: listEvents_def)
qed

interpretation run_log: gapless_log ledger_ok
  "\<lambda>w rid. map_option run_last_event_seq (find_run w rid)"
  "\<lambda>w rid a n. map ev_seq (listEvents w rid a n)"
proof
  show "map ev_seq (listEvents s k a n) = take n [a + 1..m]"
    if "ledger_ok s" "map_option run_last_event_seq (find_run s k) = Some m" "0 \<le> a" for s k m a n
    using that by (auto simp: listEvents_seqs)
  show "map ev_seq (listEvents s k a n) = []"
    if "ledger_ok s" "map_option run_last_event_seq (find_run s k) = None" for s k a n
    using that by (simp add: listEvents_missing)
qed

lemma stream_step:
  assumes "ledger_ok w" and "0 \<le> a"
  obtains b where "a \<le> b" and "map ev_seq (listEvents w rid a n) = [a + 1..b]"
    and "(case listEvents w rid a n of [] \<Rightarrow> a | _ \<Rightarrow> ev_seq (last (listEvents w rid a n))) = b"
proof -
  obtain b where b: "a \<le> b" "map ev_seq (listEvents w rid a n) = [a + 1..b]"
    by (rule run_log.page_interval [OF assms, where k = rid and n = n])
  have "(case listEvents w rid a n of [] \<Rightarrow> a | _ \<Rightarrow> ev_seq (last (listEvents w rid a n))) =
      run_log.next_pos (map ev_seq (listEvents w rid a n)) a"
    by (simp add: run_log.next_pos_def last_map split: list.split)
  also have "\<dots> = b" using b by (simp add: run_log.next_pos_interval)
  finally show ?thesis using that b by blast
qed

lemma listEvents_run: "e \<in> set (listEvents w rid a n) \<Longrightarrow> ev_run_id e = rid"
  by (auto simp: listEvents_def dest!: in_set_takeD)

text \<open>
  The event stream writes every event of the run after the resume position exactly once
  and in order, whatever commits between its polls, and it ends by itself only after the last
  event of a terminal run.
\<close>

theorem stream_exactly_once:
  assumes "\<forall>(w1, w2) \<in> set ws. ledger_ok w1 \<and> ledger_ok w2" and "0 \<le> afterSeq"
  shows "\<exists>b. afterSeq \<le> b
           \<and> map ev_seq (fst (stream_events ws rid afterSeq)) = [afterSeq + 1..b]
           \<and> (\<forall>e \<in> set (fst (stream_events ws rid afterSeq)). ev_run_id e = rid)
           \<and> (snd (stream_events ws rid afterSeq) \<longrightarrow>
                (\<exists>(w1, w2) \<in> set ws. \<exists>cur. find_run w2 rid = Some cur
                   \<and> isTerminal (run_status cur) \<and> run_last_event_seq cur \<le> b))"
  using assms
proof (induction ws arbitrary: afterSeq)
  case Nil
  then show ?case by auto
next
  case (Cons w ws)
  obtain w1 w2 where w: "w = (w1, w2)" by (cases w)
  have ok: "ledger_ok w1" using Cons.prems(1) w by simp
  define batch where "batch = listEvents w1 rid afterSeq 500"
  obtain b where b: "afterSeq \<le> b" "map ev_seq batch = [afterSeq + 1..b]"
    and next_b: "(case batch of [] \<Rightarrow> afterSeq | _ \<Rightarrow> ev_seq (last batch)) = b"
    unfolding batch_def by (rule stream_step [OF ok Cons.prems(2), where rid = rid and n = 500])
  have runs: "\<forall>e \<in> set batch. ev_run_id e = rid"
    unfolding batch_def by (blast dest: listEvents_run)
  have rest: "\<exists>c. b \<le> c \<and> map ev_seq (fst (stream_events ws rid b)) = [b + 1..c]
      \<and> (\<forall>e \<in> set (fst (stream_events ws rid b)). ev_run_id e = rid)
      \<and> (snd (stream_events ws rid b) \<longrightarrow> (\<exists>(w1, w2) \<in> set ws. \<exists>cur. find_run w2 rid = Some cur
           \<and> isTerminal (run_status cur) \<and> run_last_event_seq cur \<le> c))"
    using Cons.prems b(1) by (intro Cons.IH) auto
  then obtain c where c: "b \<le> c" "map ev_seq (fst (stream_events ws rid b)) = [b + 1..c]"
    "\<forall>e \<in> set (fst (stream_events ws rid b)). ev_run_id e = rid"
    "snd (stream_events ws rid b) \<longrightarrow> (\<exists>(w1, w2) \<in> set ws. \<exists>cur. find_run w2 rid = Some cur
           \<and> isTerminal (run_status cur) \<and> run_last_event_seq cur \<le> c)"
    by blast
  define stop where "stop = (case find_run w2 rid of
      None \<Rightarrow> False | Some cur \<Rightarrow> isTerminal (run_status cur) \<and> run_last_event_seq cur \<le> b)"
  have step: "stream_events (w # ws) rid afterSeq =
      (if stop then (batch, True)
       else (batch @ fst (stream_events ws rid b), snd (stream_events ws rid b)))"
    unfolding w stream_events.simps Let_def batch_def [symmetric] next_b stop_def
    by (simp split: option.split)
  show ?case
  proof (cases stop)
    case True
    then show ?thesis
      unfolding step using b runs w by (auto simp: stop_def split: option.splits)
  next
    case False
    have "map ev_seq (batch @ fst (stream_events ws rid b)) = [afterSeq + 1..c]"
      using upto_append [OF b(1) c(1)] by (simp add: b(2) c(2))
    then show ?thesis
      unfolding step using False b(1) c runs by (intro exI [of _ c]) auto
  qed
qed

text \<open>
  Two polls of the stream of a cancelled run with no event: the first poll ends the stream.
\<close>

theorem stream_exactly_once_witness:
  "(\<exists>b. 0 \<le> b
      \<and> map ev_seq (fst (stream_events [(demo_world RUNNING, demo_world CANCELLED)] ''run_1'' 0)) = [0 + 1..b])
   \<and> snd (stream_events [(demo_world RUNNING, demo_world CANCELLED)] ''run_1'' 0)"
  using stream_exactly_once [of "[(demo_world RUNNING, demo_world CANCELLED)]" 0 "''run_1''"]
  by (auto simp: listEvents_def)

end
