(* ===== verification/Admissions.thy ===== *)
theory Admissions
  imports Demo
begin

text \<open>
  Admission control, \<^verbatim>\<open>src/store/admissions.ts\<close>: a run is admitted against its tenant's
  concurrency quota and daily token budget before any of its rows exist, holds an active
  reservation while it is not terminal, and releases it on its terminal transition. The tenant
  row lock serializes admission, which here is the atomicity of a transaction.
\<close>

section \<open>Tenant lock\<close>

definition lockRunAdmissionTenantRow :: "string \<Rightarrow> tenant_row txn" where
  "lockRunAdmissionTenantRow tid =
     (\<lambda>w. case find_tenant w tid of
            None \<Rightarrow> Inl (RunAdmissionRejectedError tenant_unavailable)
          | Some tenant \<Rightarrow> Inr (tenant, w))"

definition lockRunAdmissionTenant :: "string \<Rightarrow> tenant_row txn" where
  "lockRunAdmissionTenant tid =
     bindT (lockRunAdmissionTenantRow tid) (\<lambda>tenant.
     thenT (ensureT (ten_active tenant) (RunAdmissionRejectedError tenant_unavailable))
           (returnT tenant))"

section \<open>Token accounting\<close>

definition jnum_at :: "(string \<times> json) list \<Rightarrow> string \<Rightarrow> int" where
  "jnum_at kvs k = (case jfield kvs k of Some (JNum q) \<Rightarrow> \<lfloor>q\<rfloor> | _ \<Rightarrow> 0)"

text \<open>\<^verbatim>\<open>payload->'usage'->>'inputTokens'\<close> plus \<^verbatim>\<open>outputTokens\<close>, each 0 when absent.\<close>

definition usage_tokens :: "(string \<times> json) list \<Rightarrow> int" where
  "usage_tokens payload =
     (case jfield payload ''usage'' of
        Some (JObj u) \<Rightarrow> jnum_at u ''inputTokens'' + jnum_at u ''outputTokens''
      | _ \<Rightarrow> 0)"

definition day_ms :: int where
  "day_ms = 86400000"

definition utc_day_start :: "int \<Rightarrow> int" where
  "utc_day_start now = now - now mod day_ms"

definition tenant_of_run :: "world \<Rightarrow> string \<Rightarrow> string option" where
  "tenant_of_run w rid = map_option run_tenant_id (find_run w rid)"

definition used_today :: "world \<Rightarrow> string \<Rightarrow> int" where
  "used_today w tid =
     sum_list (map (\<lambda>e. usage_tokens (ev_payload e))
       (filter (\<lambda>e. tenant_of_run w (ev_run_id e) = Some tid
                    \<and> ev_type e = ModelInvocationCompleted
                    \<and> utc_day_start (w_now w) \<le> ev_created_at e
                    \<and> ev_created_at e < utc_day_start (w_now w) + day_ms)
         (w_events w)))"

definition admission_remaining :: "world \<Rightarrow> admission_row \<Rightarrow> int" where
  "admission_remaining w a =
     (case find_run w (adm_run_id a) of
        None \<Rightarrow> 0
      | Some r \<Rightarrow> max (adm_reserved_tokens a - run_tokens_used r) 0)"

definition remaining_reserved :: "world \<Rightarrow> string \<Rightarrow> int" where
  "remaining_reserved w tid =
     sum_list (map (admission_remaining w)
       (filter (\<lambda>a. adm_tenant_id a = tid \<and> adm_active a) (w_admissions w)))"

definition active_admissions :: "world \<Rightarrow> string \<Rightarrow> nat" where
  "active_admissions w tid = row_count (\<lambda>a. adm_tenant_id a = tid \<and> adm_active a) (w_admissions w)"

section \<open>Admission\<close>

record admission_capacity =
  cap_reservedTokens :: int
  cap_effectiveTokenBudget :: "int option"

definition reconcile_terminal :: "string \<Rightarrow> world \<Rightarrow> world" where
  "reconcile_terminal tid w =
     w\<lparr>w_admissions :=
         update_where
           (\<lambda>a. adm_tenant_id a = tid \<and> adm_active a
                \<and> exists_row (\<lambda>r. run_id r = adm_run_id a
                                  \<and> run_status r \<in> {COMPLETED, FAILED, CANCELLED}) (w_runs w))
           (\<lambda>a. a\<lparr>adm_active := False, adm_released_at := Some (w_now w),
                  adm_release_reason := Some ''reconciled_terminal''\<rparr>)
           (w_admissions w)\<rparr>"

definition prepareRunAdmission :: "string \<Rightarrow> int option \<Rightarrow> admission_capacity txn" where
  "prepareRunAdmission tid tokenBudget =
     bindT (lockRunAdmissionTenant tid) (\<lambda>tenant.
     thenT (modifyT (reconcile_terminal tid))
    (bindT (getsT (\<lambda>w. active_admissions w tid)) (\<lambda>active.
     thenT (ensureT
              (case ten_max_concurrent_runs tenant of None \<Rightarrow> True | Some m \<Rightarrow> \<not> m \<le> int active)
              (RunAdmissionRejectedError concurrency_exhausted))
    (thenT (ensureT
              (case tokenBudget of None \<Rightarrow> True | Some requested \<Rightarrow> \<not> requested \<le> 0)
              (RunAdmissionRejectedError token_capacity_exhausted))
    (case ten_daily_token_budget tenant of
       None \<Rightarrow>
         returnT \<lparr>cap_reservedTokens = (case tokenBudget of None \<Rightarrow> 0 | Some requested \<Rightarrow> requested),
                  cap_effectiveTokenBudget = tokenBudget\<rparr>
     | Some daily \<Rightarrow>
         bindT (getsT (\<lambda>w. daily - used_today w tid - remaining_reserved w tid)) (\<lambda>available.
         let reservation = (case tokenBudget of None \<Rightarrow> available | Some requested \<Rightarrow> requested) in
         thenT (ensureT (\<not> (reservation \<le> 0 \<or> available < reservation))
                  (RunAdmissionRejectedError token_capacity_exhausted))
               (returnT \<lparr>cap_reservedTokens = reservation,
                         cap_effectiveTokenBudget = Some reservation\<rparr>)))))))"

definition recordRunAdmission :: "string \<Rightarrow> string \<Rightarrow> admission_kind \<Rightarrow> int \<Rightarrow> unit txn" where
  "recordRunAdmission rid tid kind reserved =
     (\<lambda>w. if exists_row (\<lambda>a. adm_run_id a = rid) (w_admissions w)
          then Inl (UniqueViolation ''run_admissions_pkey'')
          else Inr ((), w\<lparr>w_admissions := w_admissions w @
                 [\<lparr>adm_run_id = rid, adm_tenant_id = tid, adm_kind = kind, adm_active = True,
                   adm_reserved_tokens = reserved, adm_released_at = None,
                   adm_release_reason = None\<rparr>]\<rparr>))"

section \<open>What admission guarantees\<close>

text \<open>Under the kernel invariant the reconciliation of stale reservations finds none.\<close>

lemma reconcile_terminal_noop: "admission_ok w \<Longrightarrow> reconcile_terminal tid w = w"
  unfolding reconcile_terminal_def
  by (subst update_where_none)
     (fastforce simp: admission_ok_def exists_row_iff isTerminal_iff simp del: isTerminal_simps)+

definition within_quota :: "tenant_row \<Rightarrow> nat \<Rightarrow> bool" where
  "within_quota t n \<longleftrightarrow> (case ten_max_concurrent_runs t of None \<Rightarrow> True | Some m \<Rightarrow> int n < m)"

lemma prepareRunAdmission_iff:
  assumes "admission_ok w"
  shows "prepareRunAdmission tid budget w = Inr (cap, w') \<longleftrightarrow>
     w' = w \<and>
     (\<exists>tenant. find_tenant w tid = Some tenant \<and> ten_active tenant
        \<and> within_quota tenant (active_admissions w tid)
        \<and> (\<forall>q. budget = Some q \<longrightarrow> 0 < q)
        \<and> (case ten_daily_token_budget tenant of
             None \<Rightarrow> cap_reservedTokens cap = (case budget of None \<Rightarrow> 0 | Some q \<Rightarrow> q)
                     \<and> cap_effectiveTokenBudget cap = budget
           | Some daily \<Rightarrow>
               cap_reservedTokens cap =
                 (case budget of None \<Rightarrow> daily - used_today w tid - remaining_reserved w tid | Some q \<Rightarrow> q)
               \<and> cap_effectiveTokenBudget cap = Some (cap_reservedTokens cap)
               \<and> 0 < cap_reservedTokens cap
               \<and> cap_reservedTokens cap \<le> daily - used_today w tid - remaining_reserved w tid))"
  using assms
  by (cases "find_tenant w tid")
     (auto simp: prepareRunAdmission_def lockRunAdmissionTenant_def lockRunAdmissionTenantRow_def
        tx_eval Let_def reconcile_terminal_noop within_quota_def
        split: if_splits option.splits intro!: admission_capacity.equality)

lemma prepareRunAdmission_keeps:
  "keeps kernel_ok (prepareRunAdmission tid budget)"
  by (rule hoareI) (auto simp: kernel_ok_def prepareRunAdmission_iff)

end
