(* ===== verification/Runs.thy ===== *)
theory Runs
  imports Admissions
begin

text \<open>
  Run creation, \<^verbatim>\<open>src/store/runs.ts\<close>: admission, the lineage and session checks, the rows
  of a new run, and its first two transitions to \<open>QUEUED\<close>, in one transaction.
\<close>

section \<open>Input\<close>

record grant_spec =
  gs_action :: string
  gs_resource :: "string option"
  gs_requiresApproval :: "bool option"
  gs_maxCalls :: "int option"
  gs_expiresAt :: "int option"

record create_run_input =
  cr_tenantId :: string
  cr_managedSessionId :: "string option"
  cr_agentVersionId :: string
  cr_goal :: string
  cr_input :: "(string \<times> json) list option"
  cr_maxSteps :: "int option"
  cr_tokenBudget :: "int option"
  cr_scheduledFor :: "int option"
  cr_parentRunId :: "string option"
  cr_replacesRunId :: "string option"
  cr_replacementGeneration :: "int option"
  cr_forkedFromRunId :: "string option"
  cr_progress :: "json option"
  cr_grants :: "grant_spec list"
  cr_debugFaultPoints :: "string list"

definition or_else :: "'a option \<Rightarrow> 'a \<Rightarrow> 'a" where
  "or_else x d = (case x of None \<Rightarrow> d | Some y \<Rightarrow> y)"

lemma or_else_simps [simp]: "or_else None d = d" "or_else (Some x) d = x"
  by (simp_all add: or_else_def)

definition admissionKind :: "create_run_input \<Rightarrow> admission_kind" where
  "admissionKind input =
     (if cr_replacesRunId input \<noteq> None then AK_replacement
      else if cr_parentRunId input \<noteq> None then AK_delegated
      else if cr_forkedFromRunId input \<noteq> None then AK_fork
      else AK_direct)"

section \<open>Checks\<close>

text \<open>The session a run belongs to: a child takes its parent's, and may not name another.\<close>

definition resolve_session :: "create_run_input \<Rightarrow> string option txn" where
  "resolve_session input =
     (case cr_parentRunId input of
        None \<Rightarrow> returnT (cr_managedSessionId input)
      | Some pid \<Rightarrow>
          bindT (getsT (\<lambda>w. find_run w pid)) (\<lambda>parent.
          case parent of
            None \<Rightarrow> throwT (GenericError ''parent run does not belong to the requested tenant'')
          | Some p \<Rightarrow>
              thenT (ensureT (run_tenant_id p = cr_tenantId input)
                       (GenericError ''parent run does not belong to the requested tenant''))
             (thenT (ensureT (\<not> (cr_managedSessionId input \<noteq> None
                                \<and> cr_managedSessionId input \<noteq> run_managed_session_id p))
                       (GenericError ''child run managed session must match its parent''))
                    (returnT (run_managed_session_id p)))))"

definition check_session :: "create_run_input \<Rightarrow> string option \<Rightarrow> unit txn" where
  "check_session input managedSessionId =
     (case managedSessionId of
        None \<Rightarrow> returnT ()
      | Some sid \<Rightarrow>
          bindT (getsT (\<lambda>w. find_session w sid)) (\<lambda>session.
          case session of
            None \<Rightarrow> throwT (ManagedSessionAdmissionError ''managed session not found for tenant'')
          | Some s \<Rightarrow>
              thenT (ensureT (ses_tenant_id s = cr_tenantId input)
                       (ManagedSessionAdmissionError ''managed session not found for tenant''))
             (thenT (ensureT (\<not> (ses_state s = SS_CANCELLED \<or> ses_state s = SS_ARCHIVED))
                       (ManagedSessionAdmissionError
                          (''managed session does not accept runs in state '' @
                           (if ses_state s = SS_CANCELLED then ''CANCELLED'' else ''ARCHIVED''))))
                    (ensureT (\<not> (cr_parentRunId input = None
                                \<and> (ses_state s \<noteq> SS_IDLE \<or> cr_managedSessionId input = None)))
                       (ManagedSessionAdmissionError
                          ''managed session already has an active top-level run'')))))"

section \<open>Rows\<close>

definition new_run_row ::
    "create_run_input \<Rightarrow> string \<Rightarrow> string option \<Rightarrow> int option \<Rightarrow> int \<Rightarrow> run_row" where
  "new_run_row input rid managedSessionId budget now =
     \<lparr>run_id = rid, run_tenant_id = cr_tenantId input,
      run_managed_session_id = managedSessionId,
      run_agent_version_id = cr_agentVersionId input,
      run_parent_run_id = cr_parentRunId input,
      run_replaces_run_id = cr_replacesRunId input,
      run_replacement_generation = or_else (cr_replacementGeneration input) 0,
      run_forked_from_run_id = cr_forkedFromRunId input,
      run_goal = cr_goal input, run_input = or_else (cr_input input) [],
      run_status = CREATED, run_status_reason = None, run_result = None,
      run_result_size_bytes = None, run_progress = or_else (cr_progress input) (JObj []),
      run_workspace_id = None, run_current_attempt_id = None, run_last_event_seq = 0,
      run_max_steps = or_else (cr_maxSteps input) 50, run_token_budget = budget,
      run_tokens_used = 0, run_awaited_signal = None, run_awaited_correlation = None,
      run_awaited_schema = None, run_scheduled_for = cr_scheduledFor input,
      run_debug_fault_points = cr_debugFaultPoints input,
      run_created_at = now, run_updated_at = now\<rparr>"

text \<open>
  The insert, with the unique indexes of the schema that it can hit: the primary key, one
  replacement per replaced run, and one open top-level run per session.
\<close>

definition insert_run :: "run_row \<Rightarrow> unit txn" where
  "insert_run r =
     (\<lambda>w. if exists_row (\<lambda>r'. run_id r' = run_id r) (w_runs w)
          then Inl (UniqueViolation ''runs_pkey'')
          else if run_replaces_run_id r \<noteq> None
               \<and> exists_row (\<lambda>r'. run_replaces_run_id r' = run_replaces_run_id r) (w_runs w)
          then Inl (UniqueViolation ''runs_one_replacement'')
          else if run_managed_session_id r \<noteq> None \<and> run_parent_run_id r = None
               \<and> exists_row (\<lambda>r'. run_managed_session_id r' = run_managed_session_id r
                    \<and> run_parent_run_id r' = None \<and> \<not> isTerminal (run_status r')) (w_runs w)
          then Inl (UniqueViolation ''runs_one_active_top_level_per_session'')
          else Inr ((), w\<lparr>w_runs := w_runs w @ [r]\<rparr>))"

definition activate_session :: "string \<Rightarrow> string \<Rightarrow> unit txn" where
  "activate_session sid rid =
     modifyT (\<lambda>w. w\<lparr>w_sessions :=
       update_where (\<lambda>s. ses_id s = sid)
         (\<lambda>s. s\<lparr>ses_state := SS_ACTIVE, ses_current_run := Some rid,
                ses_version := ses_version s + 1, ses_updated_at := w_now w\<rparr>)
         (w_sessions w)\<rparr>)"

definition insert_grant :: "string \<Rightarrow> grant_spec \<Rightarrow> unit txn" where
  "insert_grant rid g =
     bindT (newId ''cap'') (\<lambda>gid.
     (\<lambda>w. if exists_row (\<lambda>g'. gr_id g' = gid) (w_grants w)
          then Inl (UniqueViolation ''capability_grants_pkey'')
          else Inr ((), w\<lparr>w_grants := w_grants w @
                 [\<lparr>gr_id = gid, gr_run_id = rid, gr_action_pattern = gs_action g,
                   gr_resource_pattern = or_else (gs_resource g) ''*'',
                   gr_requires_approval = or_else (gs_requiresApproval g) False,
                   gr_max_calls = gs_maxCalls g, gr_calls_used = 0,
                   gr_expires_at = gs_expiresAt g, gr_created_at = w_now w\<rparr>]\<rparr>)))"

definition insert_workspace :: "string \<Rightarrow> string \<Rightarrow> unit txn" where
  "insert_workspace wsId rid =
     (\<lambda>w. if exists_row (\<lambda>ws. fst ws = wsId) (w_workspaces w)
          then Inl (UniqueViolation ''workspaces_pkey'')
          else Inr ((), w\<lparr>w_workspaces := w_workspaces w @ [(wsId, rid)]\<rparr>))"

section \<open>Creation\<close>

definition to_resolving :: "create_run_input \<Rightarrow> string \<Rightarrow> transition_options" where
  "to_resolving input wsId =
     \<lparr>to_expectFrom = [CREATED], to_to = RESOLVING, to_type = RunCreated,
      to_payload = [(''goal'', JStr (cr_goal input)),
                    (''agentVersionId'', JStr (cr_agentVersionId input))],
      to_attempt = None, to_reason = None, to_patch = no_patch\<lparr>p_workspace_id := Some wsId\<rparr>\<rparr>"

definition to_queued :: transition_options where
  "to_queued =
     \<lparr>to_expectFrom = [RESOLVING], to_to = QUEUED, to_type = RunQueued, to_payload = [],
      to_attempt = None, to_reason = None, to_patch = no_patch\<rparr>"

definition insert_run_rows ::
    "create_run_input \<Rightarrow> string option \<Rightarrow> admission_capacity \<Rightarrow> string \<Rightarrow> string \<Rightarrow> unit txn" where
  "insert_run_rows input managedSessionId capacity rid wsId =
     bindT (getsT w_now) (\<lambda>now.
     thenT (insert_run (new_run_row input rid managedSessionId (cap_effectiveTokenBudget capacity) now))
    (thenT (case managedSessionId of
              None \<Rightarrow> returnT ()
            | Some sid \<Rightarrow> whenT (cr_parentRunId input = None) (activate_session sid rid))
    (thenT (recordRunAdmission rid (cr_tenantId input) (admissionKind input) (cap_reservedTokens capacity))
    (thenT (insert_workspace wsId rid)
    (bindT (mapT (insert_grant rid) (cr_grants input)) (\<lambda>_. returnT ()))))))"

definition createRun :: "create_run_input \<Rightarrow> run_row txn" where
  "createRun input =
     bindT (prepareRunAdmission (cr_tenantId input) (cr_tokenBudget input)) (\<lambda>capacity.
     bindT (resolve_session input) (\<lambda>managedSessionId.
     thenT (check_session input managedSessionId)
    (bindT (getsT (\<lambda>w. exists_row (\<lambda>v. v = (cr_agentVersionId input, cr_tenantId input)) (w_versions w)))
       (\<lambda>owned.
     thenT (ensureT owned (AgentVersionTenantMismatchError (cr_agentVersionId input) (cr_tenantId input)))
    (bindT (newId ''run'') (\<lambda>rid.
     bindT (newId ''ws'') (\<lambda>wsId.
     thenT (insert_run_rows input managedSessionId capacity rid wsId)
    (thenT (transitionRun rid (to_resolving input wsId))
           (transitionRun rid to_queued)))))))))"

definition getRun :: "world \<Rightarrow> string \<Rightarrow> string option \<Rightarrow> run_row option" where
  "getRun w rid tenantId =
     (case tenantId of
        None \<Rightarrow> find_run w rid
      | Some tid \<Rightarrow> find (\<lambda>r. run_id r = rid \<and> run_tenant_id r = tid) (w_runs w))"

section \<open>What a created run is\<close>

lemma insert_grant_effect:
  "insert_grant rid g w = Inr (x, w') \<Longrightarrow>
   \<exists>gs n. w' = w\<lparr>w_grants := w_grants w @ gs, w_ulid_next := n\<rparr>"
proof -
  assume "insert_grant rid g w = Inr (x, w')"
  then obtain row where
    "w' = w\<lparr>w_ulid_next := Suc (w_ulid_next w), w_grants := w_grants w @ [row]\<rparr>"
    by (auto simp: insert_grant_def newId_iff tx_simps split: if_splits)
  then have "w' = w\<lparr>w_grants := w_grants w @ [row], w_ulid_next := Suc (w_ulid_next w)\<rparr>"
    by simp
  then show ?thesis by blast
qed

lemma insert_grants_effect:
  "mapT (insert_grant rid) gs w = Inr (x, w') \<Longrightarrow>
   \<exists>gs' n. w' = w\<lparr>w_grants := w_grants w @ gs', w_ulid_next := n\<rparr>"
proof (induction gs arbitrary: w x w')
  case Nil
  then have "w' = w" by (simp add: tx_simps)
  then have "w' = w\<lparr>w_grants := w_grants w @ [], w_ulid_next := w_ulid_next w\<rparr>" by simp
  then show ?case by blast
next
  case (Cons g gs)
  then obtain y w1 ys where s1: "insert_grant rid g w = Inr (y, w1)"
    and s2: "mapT (insert_grant rid) gs w1 = Inr (ys, w')"
    by (auto simp: tx_simps)
  from insert_grant_effect [OF s1] obtain g1 n1
    where w1: "w1 = w\<lparr>w_grants := w_grants w @ g1, w_ulid_next := n1\<rparr>" by blast
  from Cons.IH [OF s2] obtain g2 n2
    where "w' = w1\<lparr>w_grants := w_grants w1 @ g2, w_ulid_next := n2\<rparr>" by blast
  then have "w' = w\<lparr>w_grants := w_grants w @ (g1 @ g2), w_ulid_next := n2\<rparr>" by (simp add: w1)
  then show ?case by blast
qed

definition enter_session ::
    "create_run_input \<Rightarrow> string option \<Rightarrow> string \<Rightarrow> int \<Rightarrow> session_row list \<Rightarrow> session_row list" where
  "enter_session input msid rid now =
     update_where (\<lambda>s. msid = Some (ses_id s) \<and> cr_parentRunId input = None)
       (\<lambda>s. s\<lparr>ses_state := SS_ACTIVE, ses_current_run := Some rid,
              ses_version := ses_version s + 1, ses_updated_at := now\<rparr>)"

definition fresh_run_world ::
    "create_run_input \<Rightarrow> string option \<Rightarrow> admission_capacity \<Rightarrow> string \<Rightarrow> string \<Rightarrow>
     grant_row list \<Rightarrow> nat \<Rightarrow> world \<Rightarrow> world" where
  "fresh_run_world input msid cap rid wsId gs n w =
     w\<lparr>w_runs := w_runs w @ [new_run_row input rid msid (cap_effectiveTokenBudget cap) (w_now w)],
       w_sessions := enter_session input msid rid (w_now w) (w_sessions w),
       w_admissions := w_admissions w @
         [\<lparr>adm_run_id = rid, adm_tenant_id = cr_tenantId input, adm_kind = admissionKind input,
           adm_active = True, adm_reserved_tokens = cap_reservedTokens cap,
           adm_released_at = None, adm_release_reason = None\<rparr>],
       w_workspaces := w_workspaces w @ [(wsId, rid)],
       w_grants := w_grants w @ gs,
       w_ulid_next := n\<rparr>"

lemma insert_run_rows_effect:
  assumes "insert_run_rows input msid cap rid wsId w = Inr (x, w')"
  shows "\<exists>gs n. w' = fresh_run_world input msid cap rid wsId gs n w"
    and "\<forall>r \<in> set (w_runs w). run_id r \<noteq> rid"
    and "\<forall>a \<in> set (w_admissions w). adm_run_id a \<noteq> rid"
proof -
  from assms obtain w1 w2 w3 w4 y where
    r: "insert_run (new_run_row input rid msid (cap_effectiveTokenBudget cap) (w_now w)) w = Inr ((), w1)"
    and s: "(case msid of None \<Rightarrow> returnT ()
             | Some sid \<Rightarrow> whenT (cr_parentRunId input = None) (activate_session sid rid)) w1 = Inr ((), w2)"
    and a: "recordRunAdmission rid (cr_tenantId input) (admissionKind input) (cap_reservedTokens cap) w2 = Inr ((), w3)"
    and ws: "insert_workspace wsId rid w3 = Inr ((), w4)"
    and g: "mapT (insert_grant rid) (cr_grants input) w4 = Inr (y, w')"
    by (auto simp: insert_run_rows_def tx_simps)
  have fresh: "\<forall>r \<in> set (w_runs w). run_id r \<noteq> rid"
    and w1: "w1 = w\<lparr>w_runs := w_runs w @ [new_run_row input rid msid (cap_effectiveTokenBudget cap) (w_now w)]\<rparr>"
    using r by (auto simp: insert_run_def exists_row_iff new_run_row_def split: if_splits)
  then show "\<forall>r \<in> set (w_runs w). run_id r \<noteq> rid" by blast
  have w2: "w2 = w1\<lparr>w_sessions := enter_session input msid rid (w_now w) (w_sessions w)\<rparr>"
    using s
    by (auto simp: w1 activate_session_def enter_session_def tx_simps update_where_def
        split: option.splits if_splits)
  show "\<forall>a \<in> set (w_admissions w). adm_run_id a \<noteq> rid"
    using a by (auto simp: w1 w2 recordRunAdmission_def exists_row_iff split: if_splits)
  have w3: "w3 = w2\<lparr>w_admissions := w_admissions w @
         [\<lparr>adm_run_id = rid, adm_tenant_id = cr_tenantId input, adm_kind = admissionKind input,
           adm_active = True, adm_reserved_tokens = cap_reservedTokens cap,
           adm_released_at = None, adm_release_reason = None\<rparr>]\<rparr>"
    using a by (auto simp: w1 w2 recordRunAdmission_def split: if_splits)
  have w4: "w4 = w3\<lparr>w_workspaces := w_workspaces w @ [(wsId, rid)]\<rparr>"
    using ws by (auto simp: w1 w2 w3 insert_workspace_def split: if_splits)
  from insert_grants_effect [OF g] obtain gs n
    where "w' = w4\<lparr>w_grants := w_grants w4 @ gs, w_ulid_next := n\<rparr>" by blast
  then have "w' = fresh_run_world input msid cap rid wsId gs n w"
    by (simp add: fresh_run_world_def w1 w2 w3 w4)
  then show "\<exists>gs n. w' = fresh_run_world input msid cap rid wsId gs n w" by blast
qed

lemma new_run_row_sel [simp]:
  "run_id (new_run_row input rid msid b now) = rid"
  "run_status (new_run_row input rid msid b now) = CREATED"
  "run_last_event_seq (new_run_row input rid msid b now) = 0"
  "run_tenant_id (new_run_row input rid msid b now) = cr_tenantId input"
  "run_managed_session_id (new_run_row input rid msid b now) = msid"
  "run_parent_run_id (new_run_row input rid msid b now) = cr_parentRunId input"
  "run_replaces_run_id (new_run_row input rid msid b now) = cr_replacesRunId input"
  "run_tokens_used (new_run_row input rid msid b now) = 0"
  "run_token_budget (new_run_row input rid msid b now) = b"
  by (simp_all add: new_run_row_def)

lemma fresh_run_world_sel [simp]:
  "w_runs (fresh_run_world input msid cap rid wsId gs n w) =
     w_runs w @ [new_run_row input rid msid (cap_effectiveTokenBudget cap) (w_now w)]"
  "w_events (fresh_run_world input msid cap rid wsId gs n w) = w_events w"
  "w_outbox (fresh_run_world input msid cap rid wsId gs n w) = w_outbox w"
  "w_tenants (fresh_run_world input msid cap rid wsId gs n w) = w_tenants w"
  "w_now (fresh_run_world input msid cap rid wsId gs n w) = w_now w"
  "w_outbox_seq (fresh_run_world input msid cap rid wsId gs n w) = w_outbox_seq w"
  by (simp_all add: fresh_run_world_def)

lemma fresh_run_world_ok:
  assumes ok: "kernel_ok w" and fresh: "\<forall>r \<in> set (w_runs w). run_id r \<noteq> rid"
    and opened: "\<forall>s \<in> set (w_sessions w). msid = Some (ses_id s) \<longrightarrow> session_open s"
  shows "kernel_ok (fresh_run_world input msid cap rid wsId gs n w)" (is "kernel_ok ?w'")
proof -
  have none: "filter (\<lambda>e. ev_run_id e = rid) (w_events w) = []"
    using ok fresh by (auto simp: kernel_ok_def ledger_ok_def filter_empty_conv)
  have "ledger_ok ?w'"
    using ok fresh none
    by (auto simp: kernel_ok_def ledger_ok_def gapless_def outbox_mirrors_def)
  moreover have "admission_ok ?w'"
    using ok fresh by (auto simp: kernel_ok_def admission_ok_def fresh_run_world_def)
  moreover have "session_ok ?w'"
  proof -
    have ids: "map ses_id (w_sessions ?w') = map ses_id (w_sessions w)"
      by (simp add: fresh_run_world_def enter_session_def table_simps)
    have mir: "session_mirrors (w_runs ?w') s"
      if "s \<in> set (w_sessions w)" "session_open s" for s
    proof (rule session_mirrors_cong)
      show "session_mirrors (w_runs w) s" using ok that by (simp add: kernel_ok_def session_ok_def)
    qed auto
    have "session_mirrors (w_runs ?w') s"
      if s: "s \<in> set (w_sessions ?w')" "session_open s" for s
    proof (cases "s \<in> set (w_sessions w)")
      case True
      then show ?thesis using mir s(2) by blast
    next
      case False
      have "s \<in> set (enter_session input msid rid (w_now w) (w_sessions w))"
        using s(1) by (simp add: fresh_run_world_def)
      then show ?thesis
        unfolding enter_session_def
        by (rule in_update_whereE)
           (use False in \<open>auto simp: session_mirrors_def projected_session_state_def split: if_splits\<close>)
    qed
    then show ?thesis using ids ok by (simp add: session_ok_def kernel_ok_def)
  qed
  moreover have "sessions_fenced ?w'"
    unfolding sessions_fenced_def
  proof (intro ballI impI)
    fix s r assume s: "s \<in> set (w_sessions ?w')" "\<not> session_open s"
      and r: "r \<in> set (w_runs ?w')" "run_managed_session_id r = Some (ses_id s)"
    have "s \<in> set (enter_session input msid rid (w_now w) (w_sessions w))"
      using s(1) by (simp add: fresh_run_world_def)
    then have old: "s \<in> set (w_sessions w)"
      unfolding enter_session_def
      by (rule in_update_whereE) (use s(2) in \<open>auto simp: session_open_def split: if_splits\<close>)
    then have "msid \<noteq> Some (ses_id s)" using opened s(2) by blast
    then have "r \<in> set (w_runs w)" using r by auto
    then show "isTerminal (run_status r)"
      using ok old s(2) r(2) by (simp add: kernel_ok_def sessions_fenced_def)
  qed
  ultimately show ?thesis by (simp add: kernel_ok_def)
qed

lemma resolve_session_state: "resolve_session input w = Inr (m, w') \<Longrightarrow> w' = w"
  by (auto simp: resolve_session_def tx_simps split: option.splits)

lemma check_session_open:
  assumes "check_session input msid w = Inr (x, w')" and "session_ok w"
  shows "\<forall>s \<in> set (w_sessions w). msid = Some (ses_id s) \<longrightarrow> session_open s"
proof (intro ballI impI)
  fix s assume s: "s \<in> set (w_sessions w)" "msid = Some (ses_id s)"
  then have "find_session w (ses_id s) = Some s"
    using assms(2) by (simp add: find_session_def session_ok_def find_Some_iff_key)
  then show "session_open s"
    using assms(1) s(2) by (auto simp: check_session_def tx_simps session_open_def split: option.splits)
qed

lemma check_session_state: "check_session input m w = Inr (x, w') \<Longrightarrow> w' = w"
  by (auto simp: check_session_def tx_simps split: option.splits)

lemma createRun_effect:
  assumes "kernel_ok w" and "createRun input w = Inr (r, w')"
  obtains cap msid rid wsId gs n r1 w1 w2 w3 where
    "prepareRunAdmission (cr_tenantId input) (cr_tokenBudget input) w = Inr (cap, w)"
    and "resolve_session input w = Inr (msid, w)" and "check_session input msid w = Inr ((), w)"
    and "(cr_agentVersionId input, cr_tenantId input) \<in> set (w_versions w)"
    and "w1 = w\<lparr>w_ulid_next := Suc (Suc (w_ulid_next w))\<rparr>"
    and "\<forall>r \<in> set (w_runs w). run_id r \<noteq> rid"
    and "\<forall>a \<in> set (w_admissions w). adm_run_id a \<noteq> rid"
    and "w2 = fresh_run_world input msid cap rid wsId gs n w1"
    and "transitionRun rid (to_resolving input wsId) w2 = Inr (r1, w3)"
    and "transitionRun rid to_queued w3 = Inr (r, w')"
proof -
  from assms obtain cap msid rid wsId w0 wa wb w1 w2 r1 w3 where
    p: "prepareRunAdmission (cr_tenantId input) (cr_tokenBudget input) w = Inr (cap, w0)"
    and rs: "resolve_session input w0 = Inr (msid, wa)"
    and cs: "check_session input msid wa = Inr ((), wb)"
    and v: "exists_row (\<lambda>v. v = (cr_agentVersionId input, cr_tenantId input)) (w_versions wb)"
    and w1: "w1 = wb\<lparr>w_ulid_next := Suc (Suc (w_ulid_next wb))\<rparr>"
    and ins: "insert_run_rows input msid cap rid wsId w1 = Inr ((), w2)"
    and t1: "transitionRun rid (to_resolving input wsId) w2 = Inr (r1, w3)"
    and t2: "transitionRun rid to_queued w3 = Inr (r, w')"
    by (auto simp: createRun_def tx_simps newId_iff)
  have "w0 = w" using p assms(1) by (auto simp: kernel_ok_def prepareRunAdmission_iff)
  moreover have "wa = w0" using rs by (rule resolve_session_state)
  moreover have "wb = wa" using cs by (rule check_session_state)
  moreover note insert_run_rows_effect [OF ins]
  ultimately show ?thesis
    using that p rs cs v w1 t1 t2 by (auto simp: exists_row_iff)
qed

lemma update_where_last:
  "(\<forall>r \<in> set rows. \<not> p r) \<Longrightarrow> p x \<Longrightarrow> update_where p f (rows @ [x]) = rows @ [f x]"
  by (simp add: update_where_def map_idI)

lemma find_run_fresh:
  "(\<forall>r \<in> set rows. run_id r \<noteq> rid) \<Longrightarrow> run_id x = rid \<Longrightarrow> w_runs w = rows @ [x] \<Longrightarrow>
   find_run w rid = Some x"
  by (auto simp: find_run_def find_append dest: find_SomeD split: option.split)

text \<open>The rows that a committed \<open>createRun\<close> has added.\<close>

lemma createRun_world:
  assumes ok: "kernel_ok w" and run: "createRun input w = Inr (run, w')"
  obtains cap msid wsId new where
    "prepareRunAdmission (cr_tenantId input) (cr_tokenBudget input) w = Inr (cap, w)"
    and "resolve_session input w = Inr (msid, w)" and "check_session input msid w = Inr ((), w)"
    and "(cr_agentVersionId input, cr_tenantId input) \<in> set (w_versions w)"
    and "\<forall>r \<in> set (w_runs w). run_id r \<noteq> run_id run"
    and "new = new_run_row input (run_id run) msid (cap_effectiveTokenBudget cap) (w_now w)"
    and "run = transition_row to_queued 2 (w_now w) (transition_row (to_resolving input wsId) 1 (w_now w) new)"
    and "w_runs w' = w_runs w @ [run]"
    and "w_events w' = w_events w @
           [new_event (run_id run) 1 RunCreated (transition_payload CREATED (to_resolving input wsId)) None (w_now w),
            new_event (run_id run) 2 RunQueued (transition_payload RESOLVING to_queued) None (w_now w)]"
    and "w_admissions w' = w_admissions w @
           [\<lparr>adm_run_id = run_id run, adm_tenant_id = cr_tenantId input,
             adm_kind = admissionKind input, adm_active = True,
             adm_reserved_tokens = cap_reservedTokens cap,
             adm_released_at = None, adm_release_reason = None\<rparr>]"
    and "\<forall>a \<in> set (w_admissions w). adm_run_id a \<noteq> run_id run"
    and "w_sessions w' = enter_session input msid (run_id run) (w_now w) (w_sessions w)"
    and "kernel_ok w'" and "w_now w' = w_now w"
proof -
  from createRun_effect [OF ok run] obtain cap msid rid wsId gs n r1 w1 w2 w3 where
    a: "prepareRunAdmission (cr_tenantId input) (cr_tokenBudget input) w = Inr (cap, w)"
      "resolve_session input w = Inr (msid, w)" "check_session input msid w = Inr ((), w)"
      "(cr_agentVersionId input, cr_tenantId input) \<in> set (w_versions w)"
    and w1: "w1 = w\<lparr>w_ulid_next := Suc (Suc (w_ulid_next w))\<rparr>"
    and fresh: "\<forall>r \<in> set (w_runs w). run_id r \<noteq> rid"
    and fresh_adm: "\<forall>a \<in> set (w_admissions w). adm_run_id a \<noteq> rid"
    and w2: "w2 = fresh_run_world input msid cap rid wsId gs n w1"
    and t1: "transitionRun rid (to_resolving input wsId) w2 = Inr (r1, w3)"
    and t2: "transitionRun rid to_queued w3 = Inr (run, w')" .
  have ok1: "kernel_ok w1" unfolding w1 using ok by (subst kernel_ok_cong [of _ w]) simp_all
  have opened: "\<forall>s \<in> set (w_sessions w). msid = Some (ses_id s) \<longrightarrow> session_open s"
    using a(3) by (rule check_session_open) (use ok in \<open>simp add: kernel_ok_def\<close>)
  from ok1 have ok2: "kernel_ok w2"
    unfolding w2 by (rule fresh_run_world_ok) (simp_all add: w1 fresh opened)
  then have ok3: "kernel_ok w3" by (rule hoareD [OF transitionRun_kernel_ok _ t1])
  then have ok': "kernel_ok w'" by (rule hoareD [OF transitionRun_kernel_ok _ t2])
  let ?new = "new_run_row input rid msid (cap_effectiveTokenBudget cap) (w_now w)"
  have f2: "find_run w2 rid = Some ?new"
    by (rule find_run_fresh [OF fresh]) (simp_all add: w2 w1)
  then have r1: "r1 = transition_row (to_resolving input wsId) 1 (w_now w) ?new"
    and w3: "w3 = transition_world ?new (to_resolving input wsId) w2"
    using t1 by (auto simp: transitionRun_iff w2 w1)
  have runs3: "w_runs w3 = w_runs w @ [r1]"
    unfolding w3 using fresh by (simp add: w2 w1 r1 update_where_last)
  have f3: "find_run w3 rid = Some r1"
    by (rule find_run_fresh [OF fresh _ runs3]) (simp add: r1)
  have now3: "w_now w3 = w_now w" by (simp add: w3 w2 w1)
  then have run_eq: "run = transition_row to_queued 2 (w_now w) r1"
    and w'_eq: "w' = transition_world r1 to_queued w3"
    using t2 f3 by (auto simp: transitionRun_iff r1)
  have id: "run_id run = rid" by (simp add: run_eq r1)
  have "w_runs w' = w_runs w @ [run]"
    unfolding w'_eq using fresh by (simp add: runs3 update_where_last r1 run_eq now3)
  moreover have "w_events w' = w_events w @
           [new_event rid 1 RunCreated (transition_payload CREATED (to_resolving input wsId)) None (w_now w),
            new_event rid 2 RunQueued (transition_payload RESOLVING to_queued) None (w_now w)]"
    unfolding w'_eq w3
    by (simp add: transition_event_def r1 w2 w1 to_resolving_def to_queued_def)
  moreover have "w_admissions w' = w_admissions w @
           [\<lparr>adm_run_id = rid, adm_tenant_id = cr_tenantId input,
             adm_kind = admissionKind input, adm_active = True,
             adm_reserved_tokens = cap_reservedTokens cap,
             adm_released_at = None, adm_release_reason = None\<rparr>]"
    unfolding w'_eq w3 by (simp add: to_queued_def to_resolving_def w2 w1 fresh_run_world_def)
  moreover have "w_sessions w' = enter_session input msid rid (w_now w) (w_sessions w)"
  proof -
    have idle: "project_sessions r st (w_now w) (enter_session input msid rid (w_now w) ss) =
        enter_session input msid rid (w_now w) ss"
      if "run_managed_session_id r = msid" "run_parent_run_id r = cr_parentRunId input"
        "projected_session_state st = SS_ACTIVE" "\<not> isTerminal st" for r st ss
      unfolding project_sessions_def
      by (rule update_where_none) (auto simp: that enter_session_def elim!: in_update_whereE split: if_splits)
    show ?thesis
      unfolding w'_eq w3
      by (simp add: w2 w1 fresh_run_world_def idle r1 to_queued_def to_resolving_def projected_session_state_def)
  qed
  moreover have "w_now w' = w_now w" by (simp add: w'_eq now3)
  ultimately show ?thesis
    using fresh fresh_adm ok' by (intro that [of cap msid ?new wsId]) (simp_all add: a id run_eq r1)
qed

lemma createRun_outbox:
  assumes "kernel_ok w" and "createRun input w = Inr (r, w')"
  shows "outbox_advances w w'"
proof -
  from createRun_effect [OF assms] obtain cap :: admission_capacity and msid rid wsId gs n r1 w1 w2 w3 where
    w1: "w1 = w\<lparr>w_ulid_next := Suc (Suc (w_ulid_next w))\<rparr>"
    and w2: "w2 = fresh_run_world input msid cap rid wsId gs n w1"
    and t: "transitionRun rid (to_resolving input wsId) w2 = Inr (r1, w3)" "transitionRun rid to_queued w3 = Inr (r, w')" .
  have "outbox_advances w w2" by (rule outbox_advances_same) (simp_all add: w2 w1)
  then show ?thesis using t outbox_advances_transitionRun outbox_advances_trans by blast
qed

lemma createRun_kernel_from [hoare_rules]: "keeps (kernel_from w0) (createRun input)"
proof (rule hoareI)
  fix w r w' assume from_w: "kernel_from w0 w" and run: "createRun input w = Inr (r, w')"
  obtain more msid where ok': "kernel_ok w'" and rows: "w_runs w' = w_runs w @ [r]"
    and events: "w_events w' = w_events w @ more"
    and ss: "w_sessions w' = enter_session input msid (run_id r) (w_now w) (w_sessions w)"
    and checked: "check_session input msid w = Inr ((), w)"
    by (rule createRun_world [OF kernel_from_ok [OF from_w] run])
  have opened: "\<forall>s \<in> set (w_sessions w). msid = Some (ses_id s) \<longrightarrow> session_open s"
    using checked by (rule check_session_open) (use from_w in \<open>simp add: kernel_from_def kernel_ok_def\<close>)
  have "\<exists>s' \<in> set (w_sessions w'). session_advances s s'" if s: "s \<in> set (w_sessions w)" for s
    unfolding ss enter_session_def
    by (rule bexI [OF _ in_update_whereI [OF s]]) (use opened s in \<open>auto simp: session_advances_def\<close>)
  moreover have "\<exists>q \<in> set (w_runs w'). run_advances x q" if "x \<in> set (w_runs w)" for x
    using that by (intro bexI [of _ x]) (simp_all add: rows)
  moreover have "outbox_advances w w'" by (rule createRun_outbox [OF kernel_from_ok [OF from_w] run])
  ultimately have "advances w w'" using events by (auto simp: advances_def)
  with from_w ok' show "kernel_from w0 w'" by (rule kernel_fromI)
qed

section \<open>Properties\<close>

text \<open>
  A created run is durable and queued. A committed \<open>createRun\<close> adds exactly one run row,
  under an id no run had, owned by the requested tenant, on a version that tenant owns and in
  status \<open>QUEUED\<close>; its ledger is \<open>RunCreated\<close>, \<open>RunQueued\<close>; the ledgers of the other runs are
  untouched.
\<close>

theorem createRun_queued:
  assumes "kernel_ok w" and "createRun input w = Inr (run, w')"
  shows "w_runs w' = w_runs w @ [run]
     \<and> find_run w (run_id run) = None \<and> find_run w' (run_id run) = Some run
     \<and> run_status run = QUEUED \<and> run_last_event_seq run = 2
     \<and> run_tenant_id run = cr_tenantId input \<and> run_parent_run_id run = cr_parentRunId input
     \<and> (cr_agentVersionId input, cr_tenantId input) \<in> set (w_versions w)
     \<and> map ev_type (run_events w' (run_id run)) = [RunCreated, RunQueued]
     \<and> (\<forall>rid. rid \<noteq> run_id run \<longrightarrow> run_events w' rid = run_events w rid)
     \<and> kernel_ok w'"
proof -
  obtain cap :: admission_capacity and msid wsId new where
    v: "(cr_agentVersionId input, cr_tenantId input) \<in> set (w_versions w)"
    and fresh: "\<forall>r \<in> set (w_runs w). run_id r \<noteq> run_id run"
    and new: "new = new_run_row input (run_id run) msid (cap_effectiveTokenBudget cap) (w_now w)"
    and run: "run = transition_row to_queued 2 (w_now w) (transition_row (to_resolving input wsId) 1 (w_now w) new)"
    and runs: "w_runs w' = w_runs w @ [run]"
    and events: "w_events w' = w_events w @
           [new_event (run_id run) 1 RunCreated (transition_payload CREATED (to_resolving input wsId)) None (w_now w),
            new_event (run_id run) 2 RunQueued (transition_payload RESOLVING to_queued) None (w_now w)]"
    and ok': "kernel_ok w'"
    by (rule createRun_world [OF assms])
  have none: "run_events w (run_id run) = []"
    using assms(1) fresh by (auto simp: kernel_ok_def ledger_ok_def run_events_def filter_empty_conv)
  have status: "run_status run = QUEUED"
    by (subst run) (simp add: to_queued_def)
  have ids: "run_last_event_seq run = 2" "run_tenant_id run = cr_tenantId input"
    "run_parent_run_id run = cr_parentRunId input"
    by (subst run, simp add: new)+
  have "find_run w (run_id run) = None"
    using fresh by (simp add: find_run_def find_None_iff_all)
  moreover have "find_run w' (run_id run) = Some run"
    using fresh by (rule find_run_fresh [OF _ refl runs])
  moreover have "map ev_type (run_events w' (run_id run)) = [RunCreated, RunQueued]"
    using none by (simp add: run_events_def events)
  moreover have "\<forall>rid. rid \<noteq> run_id run \<longrightarrow> run_events w' rid = run_events w rid"
    by (auto simp: run_events_def events)
  ultimately show ?thesis using runs status ids v ok' by blast
qed

lemma tenant_of_old_run:
  assumes "w_runs w' = w_runs w @ [run]" and "r \<in> set (w_runs w)"
  shows "tenant_of_run w' (run_id r) = tenant_of_run w (run_id r)"
proof -
  have "find_run w (run_id r) \<noteq> None" using assms(2) by (auto simp: find_run_def find_None_iff_all)
  then show ?thesis by (auto simp: tenant_of_run_def find_run_def assms(1) find_append)
qed

lemma used_today_createRun:
  assumes ok: "kernel_ok w" and runs: "w_runs w' = w_runs w @ [run]"
    and events: "w_events w' = w_events w @ es" "\<forall>e \<in> set es. ev_type e \<noteq> ModelInvocationCompleted"
    and now: "w_now w' = w_now w"
  shows "used_today w' tid = used_today w tid"
proof -
  have "tenant_of_run w' (ev_run_id e) = tenant_of_run w (ev_run_id e)" if "e \<in> set (w_events w)" for e
    using ok that tenant_of_old_run [OF runs] by (force simp: kernel_ok_def ledger_ok_def)
  then have "filter (\<lambda>e. tenant_of_run w' (ev_run_id e) = Some tid \<and> ev_type e = ModelInvocationCompleted
                    \<and> utc_day_start (w_now w) \<le> ev_created_at e
                    \<and> ev_created_at e < utc_day_start (w_now w) + day_ms) (w_events w) =
        filter (\<lambda>e. tenant_of_run w (ev_run_id e) = Some tid \<and> ev_type e = ModelInvocationCompleted
                    \<and> utc_day_start (w_now w) \<le> ev_created_at e
                    \<and> ev_created_at e < utc_day_start (w_now w) + day_ms) (w_events w)"
    by (intro filter_cong) auto
  then show ?thesis using events(2) by (simp add: used_today_def events(1) now filter_empty_conv)
qed

lemma remaining_reserved_createRun:
  assumes runs: "w_runs w' = w_runs w @ [run]" and used: "run_tokens_used run = 0"
    and fresh: "\<forall>r \<in> set (w_runs w). run_id r \<noteq> run_id run"
    and adm: "w_admissions w' = w_admissions w @ [a]" "adm_run_id a = run_id run" "adm_tenant_id a = tid"
      "adm_active a" "0 \<le> adm_reserved_tokens a"
    and fresh_adm: "\<forall>a \<in> set (w_admissions w). adm_run_id a \<noteq> run_id run"
  shows "remaining_reserved w' tid = remaining_reserved w tid + adm_reserved_tokens a"
proof -
  have "find_run w' (adm_run_id b) = find_run w (adm_run_id b)" if "b \<in> set (w_admissions w)" for b
    using fresh_adm that by (force simp: find_run_def runs find_append split: option.split)
  then have old: "map (admission_remaining w') (filter (\<lambda>a. adm_tenant_id a = tid \<and> adm_active a) (w_admissions w)) =
      map (admission_remaining w) (filter (\<lambda>a. adm_tenant_id a = tid \<and> adm_active a) (w_admissions w))"
    by (intro map_cong refl) (auto simp: admission_remaining_def)
  have "find_run w' (run_id run) = Some run"
    using fresh by (rule find_run_fresh [OF _ refl runs])
  then have new: "admission_remaining w' a = adm_reserved_tokens a"
    using adm(2,5) used by (simp add: admission_remaining_def)
  have "filter (\<lambda>a. adm_tenant_id a = tid \<and> adm_active a) (w_admissions w') =
      filter (\<lambda>a. adm_tenant_id a = tid \<and> adm_active a) (w_admissions w) @ [a]"
    using adm by simp
  then show ?thesis unfolding remaining_reserved_def by (simp only: map_append old) (simp add: new)
qed

text \<open>
  C3: admission never overcommits a tenant. A run is only created for an active tenant; after
  it, the tenant's active runs are within its concurrency quota, and what it has used today
  together with everything its active runs still have reserved is within its daily budget.
\<close>

theorem createRun_within_quota:
  assumes "kernel_ok w" and "createRun input w = Inr (run, w')"
  shows "\<exists>tenant. find_tenant w (cr_tenantId input) = Some tenant \<and> ten_active tenant
     \<and> active_admissions w' (cr_tenantId input) = Suc (active_admissions w (cr_tenantId input))
     \<and> (case ten_max_concurrent_runs tenant of
          None \<Rightarrow> True
        | Some m \<Rightarrow> int (active_admissions w' (cr_tenantId input)) \<le> m)
     \<and> (case ten_daily_token_budget tenant of
          None \<Rightarrow> True
        | Some daily \<Rightarrow>
            used_today w' (cr_tenantId input) + remaining_reserved w' (cr_tenantId input) \<le> daily)"
proof -
  obtain cap :: admission_capacity and msid wsId new where
    p: "prepareRunAdmission (cr_tenantId input) (cr_tokenBudget input) w = Inr (cap, w)"
    and fresh: "\<forall>r \<in> set (w_runs w). run_id r \<noteq> run_id run"
    and new: "new = new_run_row input (run_id run) msid (cap_effectiveTokenBudget cap) (w_now w)"
    and run: "run = transition_row to_queued 2 (w_now w) (transition_row (to_resolving input wsId) 1 (w_now w) new)"
    and runs: "w_runs w' = w_runs w @ [run]"
    and events: "w_events w' = w_events w @
           [new_event (run_id run) 1 RunCreated (transition_payload CREATED (to_resolving input wsId)) None (w_now w),
            new_event (run_id run) 2 RunQueued (transition_payload RESOLVING to_queued) None (w_now w)]"
    and adm: "w_admissions w' = w_admissions w @
           [\<lparr>adm_run_id = run_id run, adm_tenant_id = cr_tenantId input,
             adm_kind = admissionKind input, adm_active = True,
             adm_reserved_tokens = cap_reservedTokens cap,
             adm_released_at = None, adm_release_reason = None\<rparr>]"
    and fresh_adm: "\<forall>a \<in> set (w_admissions w). adm_run_id a \<noteq> run_id run"
    and now: "w_now w' = w_now w"
    by (rule createRun_world [OF assms])
  from p assms(1) obtain tenant where tenant: "find_tenant w (cr_tenantId input) = Some tenant" "ten_active tenant"
      "within_quota tenant (active_admissions w (cr_tenantId input))"
    and daily: "\<And>d. ten_daily_token_budget tenant = Some d \<Longrightarrow> 0 < cap_reservedTokens cap
         \<and> cap_reservedTokens cap \<le> d - used_today w (cr_tenantId input) - remaining_reserved w (cr_tenantId input)"
    by (auto simp: prepareRunAdmission_iff kernel_ok_def split: option.splits)
  have active: "active_admissions w' (cr_tenantId input) = Suc (active_admissions w (cr_tenantId input))"
    by (simp add: active_admissions_def row_count_def adm)
  have used: "used_today w' (cr_tenantId input) = used_today w (cr_tenantId input)"
    by (rule used_today_createRun [OF assms(1) runs events _ now]) simp
  have zero: "run_tokens_used run = 0"
    by (subst run) (simp add: new transition_row_def to_queued_def to_resolving_def no_patch_def new_run_row_def)
  have "remaining_reserved w' (cr_tenantId input) =
      remaining_reserved w (cr_tenantId input) + cap_reservedTokens cap" if "0 \<le> cap_reservedTokens cap"
    using remaining_reserved_createRun [OF runs zero fresh adm _ _ _ _ fresh_adm] that by simp
  then show ?thesis
    using tenant active used daily
    by (intro exI [of _ tenant]) (fastforce simp: within_quota_def split: option.splits)
qed

text \<open>
  A managed session runs one top-level run at a time. A top-level run that joins a session
  finds it idle and of the same tenant, and leaves it active with that run as the current one
  and its version increased by one; no other session changes.
\<close>

theorem createRun_enters_session:
  assumes "kernel_ok w" and "createRun input w = Inr (run, w')"
    and "cr_managedSessionId input = Some sid" and "cr_parentRunId input = None"
  shows "\<exists>s s'. find_session w sid = Some s \<and> ses_state s = SS_IDLE
     \<and> ses_tenant_id s = cr_tenantId input
     \<and> find_session w' sid = Some s' \<and> ses_state s' = SS_ACTIVE
     \<and> ses_current_run s' = Some (run_id run) \<and> ses_version s' = ses_version s + 1
     \<and> filter (\<lambda>x. ses_id x \<noteq> sid) (w_sessions w') = filter (\<lambda>x. ses_id x \<noteq> sid) (w_sessions w)"
proof -
  obtain msid where
    rs: "resolve_session input w = Inr (msid, w)" and cs: "check_session input msid w = Inr ((), w)"
    and ss: "w_sessions w' = enter_session input msid (run_id run) (w_now w) (w_sessions w)"
    by (rule createRun_world [OF assms(1,2)])
  have msid: "msid = Some sid" using rs assms(3,4) by (simp add: resolve_session_def tx_simps)
  from cs obtain s where s: "find_session w sid = Some s" "ses_tenant_id s = cr_tenantId input"
      "ses_state s = SS_IDLE"
    using assms(3,4) by (auto simp: msid check_session_def tx_simps split: option.splits)
  have "find_session w' sid = map_option (\<lambda>s. if ses_id s = sid then s\<lparr>ses_state := SS_ACTIVE,
      ses_current_run := Some (run_id run), ses_version := ses_version s + 1,
      ses_updated_at := w_now w\<rparr> else s) (find_session w sid)"
    by (simp add: find_session_def ss enter_session_def msid assms(4) find_key_update eq_commute [of sid])
  moreover have "ses_id s = sid" using s(1) by (auto simp: find_session_def dest: find_SomeD)
  moreover have "filter (\<lambda>x. ses_id x \<noteq> sid) (w_sessions w') = filter (\<lambda>x. ses_id x \<noteq> sid) (w_sessions w)"
    unfolding ss enter_session_def msid
    by (simp add: filter_update_where_key) (rule update_where_none, auto)
  ultimately show ?thesis using s by simp
qed

section \<open>A run created on the example database\<close>

definition demo_input :: create_run_input where
  "demo_input =
     \<lparr>cr_tenantId = ''tnt_1'', cr_managedSessionId = Some ''ses_1'', cr_agentVersionId = ''av_1'',
      cr_goal = ''goal'', cr_input = None, cr_maxSteps = None, cr_tokenBudget = Some 5000,
      cr_scheduledFor = None, cr_parentRunId = None, cr_replacesRunId = None,
      cr_replacementGeneration = None, cr_forkedFromRunId = None, cr_progress = None,
      cr_grants = [\<lparr>gs_action = ''http.*'', gs_resource = None, gs_requiresApproval = Some True,
                     gs_maxCalls = Some 2, gs_expiresAt = None\<rparr>],
      cr_debugFaultPoints = []\<rparr>"

lemma demo_createRun_commits: "\<not> isl (createRun demo_input demo_base)"
  by code_simp

lemma demo_createRun_ex: "\<exists>run w'. createRun demo_input demo_base = Inr (run, w')"
  using demo_createRun_commits by (cases "createRun demo_input demo_base") auto

theorem createRun_queued_witness:
  "\<exists>run w'. createRun demo_input demo_base = Inr (run, w') \<and> run_status run = QUEUED
     \<and> w_runs w' = [run] \<and> kernel_ok w'"
  using demo_createRun_ex createRun_queued [OF demo_base_ok]
  by (fastforce simp: demo_base_def fresh_database_def)

theorem createRun_within_quota_witness:
  "\<exists>run w'. createRun demo_input demo_base = Inr (run, w') \<and> active_admissions w' ''tnt_1'' = 1"
  using demo_createRun_ex createRun_within_quota [OF demo_base_ok]
  by (fastforce simp: demo_input_def demo_base_def fresh_database_def active_admissions_def row_count_def)

theorem createRun_enters_session_witness:
  "\<exists>run w' s. createRun demo_input demo_base = Inr (run, w') \<and> find_session w' ''ses_1'' = Some s
     \<and> ses_state s = SS_ACTIVE \<and> ses_current_run s = Some (run_id run)"
proof -
  obtain run w' where run: "createRun demo_input demo_base = Inr (run, w')"
    using demo_createRun_ex by blast
  have "cr_managedSessionId demo_input = Some ''ses_1''" "cr_parentRunId demo_input = None"
    by (simp_all add: demo_input_def)
  from createRun_enters_session [OF demo_base_ok run this] run show ?thesis by blast
qed

end
