(* ===== verification/Scheduler.thy ===== *)
theory Scheduler
  imports Runs
begin

text \<open>
  Leases: \<^verbatim>\<open>src/scheduler/claim.ts\<close>, \<^verbatim>\<open>src/store/attempts.ts\<close>, \<^verbatim>\<open>src/scheduler/reaper.ts\<close> and
  \<^verbatim>\<open>settleAttempt\<close> of \<^verbatim>\<open>src/harness/worker.ts\<close>. A worker claims a queued run and holds it by
  an attempt with a lease; it settles the attempt when its epoch ends, or the reaper orphans the
  attempt once the lease has expired. Rows that \<^verbatim>\<open>SKIP LOCKED\<close> skips and advisory locks that
  \<^verbatim>\<open>pg_try_advisory_xact_lock\<close> finds held are the predicates \<open>locked\<close> and \<open>held\<close>.
\<close>

section \<open>Attempts\<close>

definition getAttempt :: "world \<Rightarrow> string \<Rightarrow> attempt_row option" where
  "getAttempt w aid = find_attempt w aid"

definition listAttempts :: "world \<Rightarrow> string \<Rightarrow> attempt_row list" where
  "listAttempts w rid = sort_key att_no (filter (\<lambda>a. att_run_id a = rid) (w_attempts w))"

definition countActiveAttempts :: "world \<Rightarrow> string \<Rightarrow> nat" where
  "countActiveAttempts w rid =
     row_count (\<lambda>a. att_run_id a = rid \<and> att_state a = AS_ACTIVE) (w_attempts w)"

definition heartbeatAttempt :: "string \<Rightarrow> int \<Rightarrow> bool txn" where
  "heartbeatAttempt aid leaseTtlMs =
     bindT (getsT (\<lambda>w. row_count (\<lambda>a. att_id a = aid \<and> att_state a = AS_ACTIVE) (w_attempts w)))
       (\<lambda>n. thenT (modifyT (\<lambda>w. w\<lparr>w_attempts :=
              update_where (\<lambda>a. att_id a = aid \<and> att_state a = AS_ACTIVE)
                (\<lambda>a. a\<lparr>att_heartbeat_at := w_now w, att_lease_expires_at := w_now w + leaseTtlMs\<rparr>)
                (w_attempts w)\<rparr>))
            (returnT (0 < n)))"

definition setAttemptSandbox :: "string \<Rightarrow> string \<Rightarrow> string option \<Rightarrow> unit txn" where
  "setAttemptSandbox aid sandboxId sandboxDomain =
     modifyT (\<lambda>w. w\<lparr>w_attempts :=
       update_where (\<lambda>a. att_id a = aid)
         (\<lambda>a. a\<lparr>att_sandbox_id := Some sandboxId, att_sandbox_domain := sandboxDomain\<rparr>)
         (w_attempts w)\<rparr>)"

definition exitAttempt :: "string \<Rightarrow> string \<Rightarrow> bool txn" where
  "exitAttempt aid exitReason =
     bindT (getsT (\<lambda>w. row_count (\<lambda>a. att_id a = aid \<and> att_state a = AS_ACTIVE) (w_attempts w)))
       (\<lambda>n. thenT (modifyT (\<lambda>w. w\<lparr>w_attempts :=
              update_where (\<lambda>a. att_id a = aid \<and> att_state a = AS_ACTIVE)
                (\<lambda>a. a\<lparr>att_state := AS_EXITED, att_exit_reason := Some exitReason\<rparr>)
                (w_attempts w)\<rparr>))
            (returnT (0 < n)))"

section \<open>Claiming\<close>

definition claimable :: "(string \<Rightarrow> bool) \<Rightarrow> world \<Rightarrow> run_row list" where
  "claimable locked w =
     sort_key run_updated_at
       (filter (\<lambda>r. run_status r = QUEUED
                    \<and> (case run_scheduled_for r of None \<Rightarrow> True | Some t \<Rightarrow> t \<le> w_now w)
                    \<and> \<not> locked (run_id r))
         (w_runs w))"

definition next_attempt_no :: "world \<Rightarrow> string \<Rightarrow> int" where
  "next_attempt_no w rid =
     foldr max (map att_no (filter (\<lambda>a. att_run_id a = rid) (w_attempts w))) 0 + 1"

definition insert_attempt :: "attempt_row \<Rightarrow> unit txn" where
  "insert_attempt a =
     (\<lambda>w. if exists_row (\<lambda>b. att_id b = att_id a) (w_attempts w)
          then Inl (UniqueViolation ''run_attempts_pkey'')
          else if exists_row (\<lambda>b. att_run_id b = att_run_id a \<and> att_no b = att_no a) (w_attempts w)
          then Inl (UniqueViolation ''run_attempts_run_id_attempt_no_key'')
          else Inr ((), w\<lparr>w_attempts := w_attempts w @ [a]\<rparr>))"

definition new_attempt :: "string \<Rightarrow> string \<Rightarrow> int \<Rightarrow> string \<Rightarrow> int \<Rightarrow> int \<Rightarrow> attempt_row" where
  "new_attempt aid rid attemptNo workerId leaseTtlMs now =
     \<lparr>att_id = aid, att_run_id = rid, att_no = attemptNo, att_worker_id = workerId,
      att_state = AS_ACTIVE, att_lease_expires_at = now + leaseTtlMs, att_heartbeat_at = now,
      att_sandbox_id = None, att_sandbox_domain = None, att_exit_reason = None\<rparr>"

definition to_starting :: "int \<Rightarrow> string \<Rightarrow> string \<Rightarrow> transition_options" where
  "to_starting attemptNo workerId attemptId =
     \<lparr>to_expectFrom = [QUEUED], to_to = STARTING, to_type = AttemptStarted,
      to_payload = [(''attemptNo'', jint attemptNo), (''workerId'', JStr workerId)],
      to_attempt = Some attemptId, to_reason = None,
      to_patch = no_patch\<lparr>p_current_attempt_id := Some (Some attemptId)\<rparr>\<rparr>"

definition claimRun ::
    "(string \<Rightarrow> bool) \<Rightarrow> string \<Rightarrow> int \<Rightarrow> (run_row \<times> attempt_row) option txn" where
  "claimRun locked workerId leaseTtlMs =
     bindT (getsT (claimable locked)) (\<lambda>rows.
     case rows of
       [] \<Rightarrow> returnT None
     | row # _ \<Rightarrow>
         let runId = run_id row in
         bindT (getsT (\<lambda>w. next_attempt_no w runId)) (\<lambda>attemptNo.
         bindT (newId ''att'') (\<lambda>attemptId.
         bindT (getsT w_now) (\<lambda>now.
         let attempt = new_attempt attemptId runId attemptNo workerId leaseTtlMs now in
         thenT (insert_attempt attempt)
        (bindT (transitionRun runId (to_starting attemptNo workerId attemptId)) (\<lambda>run.
         returnT (Some (run, attempt))))))))"

section \<open>Starting and settling an epoch\<close>

definition to_running :: "string \<Rightarrow> transition_options" where
  "to_running attemptId =
     \<lparr>to_expectFrom = [STARTING], to_to = RUNNING, to_type = AttemptStarted,
      to_payload = [(''phase'', JStr ''running'')], to_attempt = Some attemptId,
      to_reason = None, to_patch = no_patch\<rparr>"

definition startEpoch :: "string \<Rightarrow> attempt_row \<Rightarrow> run_row txn" where
  "startEpoch runId attempt = transitionRun runId (to_running (att_id attempt))"

definition settle_failed :: "string \<Rightarrow> run_status list \<Rightarrow> string \<Rightarrow> transition_options" where
  "settle_failed attemptId froms reason =
     \<lparr>to_expectFrom = froms, to_to = FAILED, to_type = RunFailed,
      to_payload = [(''reason'', JStr reason)], to_attempt = Some attemptId,
      to_reason = Some reason, to_patch = no_patch\<rparr>"

definition settle_retry :: "attempt_row \<Rightarrow> transition_options" where
  "settle_retry attempt =
     \<lparr>to_expectFrom = [RUNNING, STARTING, VERIFYING], to_to = QUEUED, to_type = RetryScheduled,
      to_payload = [(''attemptNo'', jint (att_no attempt))], to_attempt = Some (att_id attempt),
      to_reason = None, to_patch = no_patch\<lparr>p_current_attempt_id := Some None\<rparr>\<rparr>"

definition settleAttempt :: "int \<Rightarrow> string \<Rightarrow> attempt_row \<Rightarrow> epoch_exit \<Rightarrow> unit txn" where
  "settleAttempt maxAttempts runId attempt exitReason =
     (if exitReason = Ex_lease_lost then returnT ()
      else bindT (exitAttempt (att_id attempt) (epoch_exit_name exitReason)) (\<lambda>owned.
        if \<not> owned then returnT ()
        else case exitReason of
          Ex_budget_exhausted \<Rightarrow>
            thenT (transitionRun runId
                     (settle_failed (att_id attempt) [RUNNING] ''budget_exhausted''))
                  (returnT ())
        | Ex_error \<Rightarrow>
            if maxAttempts \<le> att_no attempt
            then thenT (transitionRun runId
                          (settle_failed (att_id attempt) [RUNNING, STARTING, VERIFYING]
                             ''max_attempts_exhausted''))
                       (returnT ())
            else thenT (transitionRun runId (settle_retry attempt)) (returnT ())
        | _ \<Rightarrow> returnT ()))"

section \<open>Reaping\<close>

datatype reap_outcome = requeued | failed

definition expired :: "world \<Rightarrow> attempt_row \<Rightarrow> bool" where
  "expired w a \<longleftrightarrow> att_state a = AS_ACTIVE \<and> att_lease_expires_at a < w_now w"

definition reap_candidates :: "world \<Rightarrow> attempt_row list" where
  "reap_candidates w = sort_key (\<lambda>a. (att_lease_expires_at a, att_id a)) (filter (expired w) (w_attempts w))"

definition reap_failed :: "attempt_row \<Rightarrow> transition_options" where
  "reap_failed attempt =
     \<lparr>to_expectFrom = [STARTING, RUNNING, VERIFYING], to_to = FAILED, to_type = RunFailed,
      to_payload = [(''reason'', JStr ''max_attempts_exhausted''), (''attemptNo'', jint (att_no attempt))],
      to_attempt = Some (att_id attempt), to_reason = Some ''max_attempts_exhausted'',
      to_patch = no_patch\<rparr>"

definition reap_requeue :: "attempt_row \<Rightarrow> transition_options" where
  "reap_requeue attempt =
     \<lparr>to_expectFrom = [STARTING, RUNNING, VERIFYING], to_to = QUEUED, to_type = AttemptOrphaned,
      to_payload = [(''attemptNo'', jint (att_no attempt)), (''workerId'', JStr (att_worker_id attempt))],
      to_attempt = Some (att_id attempt), to_reason = None,
      to_patch = no_patch\<lparr>p_current_attempt_id := Some None\<rparr>\<rparr>"

definition orphan_attempt :: "string \<Rightarrow> unit txn" where
  "orphan_attempt aid =
     modifyT (\<lambda>w. w\<lparr>w_attempts := update_where (\<lambda>a. att_id a = aid)
       (\<lambda>a. a\<lparr>att_state := AS_ORPHANED, att_exit_reason := Some ''lease_expired''\<rparr>) (w_attempts w)\<rparr>)"

definition reap_one ::
    "(string \<Rightarrow> bool) \<Rightarrow> (string \<Rightarrow> bool) \<Rightarrow> int \<Rightarrow> (attempt_row \<times> reap_outcome) option txn" where
  "reap_one held locked maxAttempts =
     bindT (getsT (\<lambda>w. find (\<lambda>a. \<not> held (att_run_id a) \<and> \<not> locked (att_id a)) (reap_candidates w)))
       (\<lambda>found.
     case found of
       None \<Rightarrow> returnT None
     | Some attempt \<Rightarrow>
         thenT (orphan_attempt (att_id attempt))
        (bindT (getsT (\<lambda>w. find_run w (att_run_id attempt))) (\<lambda>run.
         case run of
           None \<Rightarrow> throwT (GenericError ''TypeError: undefined run row'')
         | Some r \<Rightarrow>
             if run_status r \<noteq> STARTING \<and> run_status r \<noteq> RUNNING \<and> run_status r \<noteq> VERIFYING
             then returnT (Some (attempt, requeued))
             else if maxAttempts \<le> att_no attempt
             then thenT (transitionRun (att_run_id attempt) (reap_failed attempt))
                        (returnT (Some (attempt, failed)))
             else thenT (transitionRun (att_run_id attempt) (reap_requeue attempt))
                        (returnT (Some (attempt, requeued))))))"

section \<open>Every operation keeps the kernel invariants\<close>

lemma heartbeatAttempt_kernel_from [hoare_rules]: "keeps (kernel_from w0) (heartbeatAttempt aid ttl)"
  unfolding heartbeatAttempt_def by (intro hoare_rules keeps_modifyT) simp

lemma setAttemptSandbox_kernel_from [hoare_rules]: "keeps (kernel_from w0) (setAttemptSandbox aid sid d)"
  unfolding setAttemptSandbox_def by (intro hoare_rules keeps_modifyT) simp

lemma exitAttempt_kernel_from [hoare_rules]: "keeps (kernel_from w0) (exitAttempt aid reason)"
  unfolding exitAttempt_def by (intro hoare_rules keeps_modifyT) simp

lemma insert_attempt_kernel_from [hoare_rules]: "keeps (kernel_from w0) (insert_attempt a)"
  by (rule hoareI) (auto simp: insert_attempt_def split: if_splits)

lemma claimRun_kernel_from [hoare_rules]: "keeps (kernel_from w0) (claimRun locked worker ttl)"
  unfolding claimRun_def by (intro hoare_rules)

lemma startEpoch_kernel_from [hoare_rules]: "keeps (kernel_from w0) (startEpoch rid a)"
  unfolding startEpoch_def by (rule hoare_rules)

lemma settleAttempt_kernel_from [hoare_rules]:
  "keeps (kernel_from w0) (settleAttempt maxAttempts rid a reason)"
proof -
  have "keeps (kernel_from w0) (case reason of
          Ex_budget_exhausted \<Rightarrow> thenT (transitionRun rid b) (returnT ())
        | Ex_error \<Rightarrow>
            if c then thenT (transitionRun rid d) (returnT ())
            else thenT (transitionRun rid e) (returnT ())
        | _ \<Rightarrow> returnT ())" for b c d e
    by (cases reason) (simp_all add: hoare_rules)
  then show ?thesis unfolding settleAttempt_def by (intro hoare_rules)
qed

lemma orphan_attempt_kernel_from [hoare_rules]: "keeps (kernel_from w0) (orphan_attempt aid)"
  unfolding orphan_attempt_def by (rule keeps_modifyT) simp

lemma reap_one_kernel_from [hoare_rules]: "keeps (kernel_from w0) (reap_one held locked maxAttempts)"
  unfolding reap_one_def by (intro hoare_rules)

section \<open>The reaper loop\<close>

definition active_attempts :: "world \<Rightarrow> nat" where
  "active_attempts w = row_count (\<lambda>a. att_state a = AS_ACTIVE) (w_attempts w)"

definition orphaned :: "attempt_row \<Rightarrow> attempt_row" where
  "orphaned a = a\<lparr>att_state := AS_ORPHANED, att_exit_reason := Some ''lease_expired''\<rparr>"

lemma in_reap_candidates: "a \<in> set (reap_candidates w) \<longleftrightarrow> a \<in> set (w_attempts w) \<and> expired w a"
  by (auto simp: reap_candidates_def)

lemma reap_one_Some:
  assumes "reap_one held locked maxAttempts w = Inr (Some (a, out), w')"
  shows "a \<in> set (w_attempts w)" and "expired w a" and "\<not> held (att_run_id a)" and "\<not> locked (att_id a)"
    and "w_attempts w' = update_where (\<lambda>b. att_id b = att_id a) orphaned (w_attempts w)"
    and "w_now w' = w_now w"
proof -
  let ?p = "\<lambda>a. \<not> held (att_run_id a) \<and> \<not> locked (att_id a)"
  from assms have found: "find ?p (reap_candidates w) = Some a"
    and effect: "w_attempts w' = update_where (\<lambda>b. att_id b = att_id a) orphaned (w_attempts w) \<and> w_now w' = w_now w"
    unfolding orphaned_def [abs_def]
    by (auto simp: reap_one_def tx_simps orphan_attempt_def transitionRun_iff
        split: option.splits if_splits)
  show "a \<in> set (w_attempts w)" "expired w a" "\<not> held (att_run_id a)" "\<not> locked (att_id a)"
    using find_SomeD [OF found] by (simp_all add: in_reap_candidates)
  show "w_attempts w' = update_where (\<lambda>b. att_id b = att_id a) orphaned (w_attempts w)"
    and "w_now w' = w_now w" using effect by simp_all
qed

lemma row_count_less:
  assumes "\<And>r. r \<in> set rows \<Longrightarrow> q (f r) \<Longrightarrow> q r" and "r \<in> set rows" and "q r" and "\<not> q (f r)"
  shows "row_count q (map f rows) < row_count q rows"
  using assms
proof (induction rows)
  case Nil
  then show ?case by simp
next
  case (Cons x xs)
  have le: "row_count q (map f ys) \<le> row_count q ys" if "set ys \<subseteq> set (x # xs)" for ys
    using that Cons.prems(1) by (induction ys) (auto simp: row_count_def)
  show ?case
  proof (cases "x = r")
    case True
    have "row_count q (map f xs) \<le> row_count q xs" by (rule le) auto
    with True show ?thesis using Cons.prems(3,4) by (simp add: row_count_def)
  next
    case False
    then have "row_count q (map f xs) < row_count q xs" using Cons by auto
    then show ?thesis using Cons.prems(1) [of x] by (auto simp: row_count_def)
  qed
qed

lemma reap_one_decreases:
  assumes "reap_one held locked maxAttempts w = Inr (Some r, w')"
  shows "active_attempts w' < active_attempts w"
proof -
  obtain a out where r: "r = (a, out)" by (cases r)
  note reaped = reap_one_Some [OF assms [unfolded r]]
  show ?thesis
    unfolding active_attempts_def reaped(5) update_where_def
    by (rule row_count_less [of _ _ _ a]) (use reaped in \<open>auto simp: orphaned_def expired_def split: if_splits\<close>)
qed

function reapExpiredLeases ::
    "(string \<Rightarrow> bool) \<Rightarrow> (string \<Rightarrow> bool) \<Rightarrow> int \<Rightarrow> world \<Rightarrow> (err + (attempt_row \<times> reap_outcome) list) \<times> world" where
  "reapExpiredLeases held locked maxAttempts w =
     (case reap_one held locked maxAttempts w of
        Inl e \<Rightarrow> (Inl e, w)
      | Inr (None, w') \<Rightarrow> (Inr [], w')
      | Inr (Some r, w') \<Rightarrow>
          (case reapExpiredLeases held locked maxAttempts w' of
             (Inl e, w'') \<Rightarrow> (Inl e, w'')
           | (Inr rs, w'') \<Rightarrow> (Inr (r # rs), w'')))"
  by pat_completeness auto
termination
  by (relation "measure (\<lambda>(held, locked, maxAttempts, w). active_attempts w)") (auto intro: reap_one_decreases)

declare reapExpiredLeases.simps [simp del]

section \<open>Claims\<close>

definition attempts_ok :: "world \<Rightarrow> bool" where
  "attempts_ok w \<longleftrightarrow>
     distinct (map att_id (w_attempts w))
     \<and> (\<forall>a \<in> set (w_attempts w). \<exists>r \<in> set (w_runs w). run_id r = att_run_id a)"

lemma foldr_max_ge: "n \<in> set ns \<Longrightarrow> n \<le> foldr max ns (0 :: int)"
  by (induction ns) auto

lemma next_attempt_no_fresh:
  "a \<in> set (w_attempts w) \<Longrightarrow> att_run_id a = rid \<Longrightarrow> att_no a < next_attempt_no w rid"
  unfolding next_attempt_no_def by (auto intro!: zle_add1_eq_le [THEN iffD2] foldr_max_ge)

lemma in_claimable:
  "r \<in> set (claimable locked w) \<longleftrightarrow>
     r \<in> set (w_runs w) \<and> run_status r = QUEUED
     \<and> (\<forall>t. run_scheduled_for r = Some t \<longrightarrow> t \<le> w_now w) \<and> \<not> locked (run_id r)"
  by (auto simp: claimable_def split: option.splits)

lemma claimable_first:
  assumes "claimable locked w = r # rs" and "q \<in> set (claimable locked w)"
  shows "run_updated_at r \<le> run_updated_at q"
proof -
  have "sorted (map run_updated_at (claimable locked w))" by (simp add: claimable_def)
  then show ?thesis using assms by auto
qed

lemma claimRun_effect:
  assumes ok: "kernel_ok w" and claim: "claimRun locked worker ttl w = Inr (Some (run, att), w')"
  obtains r opts where "r \<in> set (claimable locked w)"
    and "\<forall>q \<in> set (claimable locked w). run_updated_at r \<le> run_updated_at q"
    and "find_run w (run_id r) = Some r"
    and "att = new_attempt (att_id att) (run_id r) (next_attempt_no w (run_id r)) worker ttl (w_now w)"
    and "\<forall>b \<in> set (w_attempts w). att_id b \<noteq> att_id att"
    and "opts = to_starting (next_attempt_no w (run_id r)) worker (att_id att)"
    and "run = transition_row opts (run_last_event_seq r + 1) (w_now w) r"
    and "w' = transition_world r opts
           (w\<lparr>w_ulid_next := Suc (w_ulid_next w), w_attempts := w_attempts w @ [att]\<rparr>)"
proof -
  from claim obtain r rs where rows: "claimable locked w = r # rs"
    by (cases "claimable locked w") (auto simp: claimRun_def tx_simps)
  let ?w1 = "w\<lparr>w_ulid_next := Suc (w_ulid_next w), w_attempts := w_attempts w @ [att]\<rparr>"
  let ?opts = "to_starting (next_attempt_no w (run_id r)) worker (att_id att)"
  from claim have att: "att = new_attempt (att_id att) (run_id r) (next_attempt_no w (run_id r)) worker ttl (w_now w)"
    and fresh: "\<forall>b \<in> set (w_attempts w). att_id b \<noteq> att_id att"
    and step: "transitionRun (run_id r) ?opts ?w1 = Inr (run, w')"
    by (auto simp: claimRun_def rows tx_simps Let_def newId_iff insert_attempt_def exists_row_iff
        new_attempt_def next_attempt_no_def split: if_splits)
  have mem: "r \<in> set (claimable locked w)" by (simp add: rows)
  then have find: "find_run w (run_id r) = Some r"
    using ok by (simp add: in_claimable find_run_iff kernel_okD)
  then have "find_run ?w1 (run_id r) = Some r" by (simp add: find_run_def)
  with step have "run = transition_row ?opts (run_last_event_seq r + 1) (w_now w) r"
    and "w' = transition_world r ?opts ?w1"
    by (auto simp: transitionRun_iff)
  moreover have "\<forall>q \<in> set (claimable locked w). run_updated_at r \<le> run_updated_at q"
    using claimable_first [OF rows] by blast
  ultimately show ?thesis using that [OF mem _ find att fresh refl] by blast
qed

text \<open>
  What a claim is. A committed claim takes the due, unlocked, queued run that waited
  longest, moves it to \<open>STARTING\<close> under a new active attempt, numbered after all attempts of
  the run and with a lease of the given length, and changes no other run.
\<close>

theorem claimRun_claims:
  assumes "kernel_ok w" and "claimRun locked worker ttl w = Inr (Some (run, att), w')"
  shows "(\<exists>r \<in> set (claimable locked w). run_id r = run_id run
       \<and> run_status r = QUEUED \<and> \<not> locked (run_id r)
       \<and> (\<forall>q \<in> set (claimable locked w). run_updated_at r \<le> run_updated_at q))
     \<and> run_status run = STARTING \<and> run_current_attempt_id run = Some (att_id att)
     \<and> find_run w' (run_id run) = Some run
     \<and> w_attempts w' = w_attempts w @ [att]
     \<and> att_state att = AS_ACTIVE \<and> att_run_id att = run_id run
     \<and> att_lease_expires_at att = w_now w + ttl
     \<and> (\<forall>a \<in> set (w_attempts w). att_id a \<noteq> att_id att
          \<and> (att_run_id a = run_id run \<longrightarrow> att_no a < att_no att))
     \<and> (\<forall>rid. rid \<noteq> run_id run \<longrightarrow> find_run w' rid = find_run w rid)"
proof -
  obtain r opts where mem: "r \<in> set (claimable locked w)"
    and first: "\<forall>q \<in> set (claimable locked w). run_updated_at r \<le> run_updated_at q"
    and find: "find_run w (run_id r) = Some r"
    and att: "att = new_attempt (att_id att) (run_id r) (next_attempt_no w (run_id r)) worker ttl (w_now w)"
    and fresh: "\<forall>b \<in> set (w_attempts w). att_id b \<noteq> att_id att"
    and opts: "opts = to_starting (next_attempt_no w (run_id r)) worker (att_id att)"
    and run: "run = transition_row opts (run_last_event_seq r + 1) (w_now w) r"
    and w': "w' = transition_world r opts
           (w\<lparr>w_ulid_next := Suc (w_ulid_next w), w_attempts := w_attempts w @ [att]\<rparr>)"
    by (rule claimRun_effect [OF assms])
  have id: "run_id run = run_id r" by (simp add: run)
  have "find_run w' (run_id run) = Some run" by (simp add: w' find_run_transition_world id find run)
  moreover have "find_run w' rid = find_run w rid" if "rid \<noteq> run_id run" for rid
    using that by (simp add: w' find_run_transition_other id)
  moreover have "\<forall>a \<in> set (w_attempts w). att_id a \<noteq> att_id att
          \<and> (att_run_id a = run_id run \<longrightarrow> att_no a < att_no att)"
    using fresh next_attempt_no_fresh id by (subst (2) att) (auto simp: new_attempt_def)
  moreover have "run_status run = STARTING" "run_current_attempt_id run = Some (att_id att)"
    by (simp_all add: run opts transition_row_def to_starting_def)
  moreover have "att_state att = AS_ACTIVE \<and> att_run_id att = run_id r \<and> att_lease_expires_at att = w_now w + ttl"
    by (subst (1 2 3) att) (simp add: new_attempt_def)
  ultimately show ?thesis
    using mem first in_claimable [of r] by (simp add: w' id) (metis id)
qed

text \<open>
  Workers that claim at the same time: each sees the same committed rows and skips those that the
  others hold locked. The answer lists the rows they went for.
\<close>

fun claims_at_once :: "(string \<Rightarrow> bool) \<Rightarrow> world \<Rightarrow> (string \<times> int) list \<Rightarrow> run_row list" where
  "claims_at_once locked w [] = []"
| "claims_at_once locked w ((worker, ttl) # rest) =
     (case claimRun locked worker ttl w of
        Inr (Some (run, att), _) \<Rightarrow> run # claims_at_once (\<lambda>rid. locked rid \<or> rid = run_id run) w rest
      | _ \<Rightarrow> claims_at_once locked w rest)"

lemma claims_at_once_disjoint:
  assumes "kernel_ok w"
  shows "distinct (map run_id (claims_at_once locked w workers))
     \<and> (\<forall>run \<in> set (claims_at_once locked w workers). \<not> locked (run_id run)
         \<and> (\<exists>q \<in> set (w_runs w). run_id q = run_id run \<and> run_status q = QUEUED))"
proof (induction workers arbitrary: locked)
  case (Cons x rest)
  obtain worker ttl where x: "x = (worker, ttl)" by (cases x)
  show ?case
  proof (cases "\<exists>run att w'. claimRun locked worker ttl w = Inr (Some (run, att), w')")
    case True
    then obtain run att w' where claims: "claimRun locked worker ttl w = Inr (Some (run, att), w')" by blast
    obtain r opts where r: "r \<in> set (claimable locked w)"
      and run: "run = transition_row opts (run_last_event_seq r + 1) (w_now w) r"
      by (rule claimRun_effect [OF assms claims])
    have "run_id run = run_id r" by (simp add: run)
    with r Cons.IH [of "\<lambda>rid. locked rid \<or> rid = run_id run"] claims show ?thesis
      by (auto simp: x in_claimable)
  next
    case False
    then have "claims_at_once locked w (x # rest) = claims_at_once locked w rest"
      by (cases "claimRun locked worker ttl w") (auto simp: x split: option.splits)
    with Cons.IH [of locked] show ?thesis by simp
  qed
qed simp

lemma claimed_run_starts:
  assumes "kernel_ok w" and "claimRun locked worker ttl w = Inr (Some (run, att), w')"
  shows "find_run w' (run_id run) = Some run" and "run_status run = STARTING" and "att_run_id att = run_id run"
    and "\<forall>a \<in> set (w_attempts w). att_id a \<noteq> att_id att \<and> (att_run_id a = run_id run \<longrightarrow> att_no a < att_no att)"
    and "\<exists>q. find_run w (run_id run) = Some q \<and> run_status q = QUEUED"
proof -
  note claimed = claimRun_claims [OF assms]
  then show "find_run w' (run_id run) = Some run" "run_status run = STARTING" "att_run_id att = run_id run"
    "\<forall>a \<in> set (w_attempts w). att_id a \<noteq> att_id att \<and> (att_run_id a = run_id run \<longrightarrow> att_no a < att_no att)"
    by blast+
  obtain r opts where "r \<in> set (claimable locked w)" "find_run w (run_id r) = Some r"
    "run = transition_row opts (run_last_event_seq r + 1) (w_now w) r"
    by (rule claimRun_effect [OF assms])
  then show "\<exists>q. find_run w (run_id run) = Some q \<and> run_status q = QUEUED"
    by (intro exI [of _ r]) (simp add: in_claimable)
qed

section \<open>Reaping\<close>

lemma attempts_ok_cong:
  "w_attempts w' = w_attempts w \<Longrightarrow> run_id ` set (w_runs w') = run_id ` set (w_runs w) \<Longrightarrow>
   attempts_ok w' = attempts_ok w"
  unfolding attempts_ok_def by (metis (no_types, lifting) image_iff)

lemma run_ids_transition_world [simp]:
  "run_id ` set (w_runs (transition_world r opts w)) = run_id ` set (w_runs w)"
proof -
  have "map run_id (w_runs (transition_world r opts w)) = map run_id (w_runs w)"
    by (simp add: map_update_where)
  then show ?thesis by (metis set_map)
qed

lemma attempts_ok_map:
  assumes "attempts_ok w" and "w_attempts w' = map f (w_attempts w)"
    and "\<And>a. att_id (f a) = att_id a" and "\<And>a. att_run_id (f a) = att_run_id a"
    and "run_id ` set (w_runs w') = run_id ` set (w_runs w)"
  shows "attempts_ok w'"
proof -
  have "map att_id (w_attempts w') = map att_id (w_attempts w)" by (simp add: assms(2,3))
  moreover have "\<exists>r \<in> set (w_runs w'). run_id r = att_run_id a" if "a \<in> set (w_attempts w)" for a
  proof -
    have "att_run_id a \<in> run_id ` set (w_runs w)" using assms(1) that by (force simp: attempts_ok_def)
    then show ?thesis unfolding assms(5) [symmetric] by auto
  qed
  moreover have "distinct (map att_id (w_attempts w))" using assms(1) by (simp add: attempts_ok_def)
  ultimately show ?thesis
    unfolding attempts_ok_def by (simp only:) (simp add: assms(2,4))
qed

text \<open>
  One iteration, in full: the attempt found is orphaned, and the run it belongs to moves only
  if it is in an execution status. It never fails.
\<close>

definition reap_run :: "int \<Rightarrow> attempt_row \<Rightarrow> world \<Rightarrow> reap_outcome \<times> world" where
  "reap_run maxAttempts a w =
     (case find_run w (att_run_id a) of
        None \<Rightarrow> (requeued, w)
      | Some r \<Rightarrow>
          if run_status r \<notin> {STARTING, RUNNING, VERIFYING} then (requeued, w)
          else if maxAttempts \<le> att_no a then (failed, transition_world r (reap_failed a) w)
          else (requeued, transition_world r (reap_requeue a) w))"

lemma reap_one_eq:
  assumes ok: "kernel_ok w" "attempts_ok w"
  shows "reap_one held locked maxAttempts w =
    (case find (\<lambda>a. \<not> held (att_run_id a) \<and> \<not> locked (att_id a)) (reap_candidates w) of
       None \<Rightarrow> Inr (None, w)
     | Some a \<Rightarrow>
         let res = reap_run maxAttempts a
               (w\<lparr>w_attempts := update_where (\<lambda>b. att_id b = att_id a) orphaned (w_attempts w)\<rparr>)
         in Inr (Some (a, fst res), snd res))"
proof (cases "find (\<lambda>a. \<not> held (att_run_id a) \<and> \<not> locked (att_id a)) (reap_candidates w)")
  case None
  then show ?thesis by (simp add: reap_one_def tx_eval)
next
  case (Some a)
  let ?w1 = "w\<lparr>w_attempts := update_where (\<lambda>b. att_id b = att_id a) orphaned (w_attempts w)\<rparr>"
  have "a \<in> set (w_attempts w)" using find_SomeD [OF Some] by (simp add: in_reap_candidates)
  then obtain r where "r \<in> set (w_runs w)" "run_id r = att_run_id a"
    using ok(2) by (auto simp: attempts_ok_def)
  then have f: "find_run w (att_run_id a) = Some r"
    using ok(1) by (simp add: find_run_iff kernel_okD)
  have orphan: "orphan_attempt (att_id a) w = Inr ((), ?w1)"
    unfolding orphaned_def [abs_def] by (simp add: orphan_attempt_def tx_eval)
  have led: "ledger_ok ?w1" using kernel_okD [OF ok(1)] by (subst ledger_ok_cong [of _ w]) simp_all
  have fire: "transitionRun (att_run_id a) o' ?w1 = Inr (transition_row o' (run_last_event_seq r + 1) (w_now w) r, transition_world r o' ?w1)"
    if "run_status r \<in> set (to_expectFrom o')" "isTransitionAllowed (run_status r) (to_to o')" for o'
    using that f next_seq_free [OF led, of "att_run_id a" r] by (auto simp: transitionRun_iff)
  show ?thesis
    using Some f fire [of "reap_failed a"] fire [of "reap_requeue a"] orphan
    by (simp add: reap_one_def tx_eval reap_run_def Let_def)
       (auto simp: isTransitionAllowed_def reap_failed_def reap_requeue_def)
qed

lemma reap_run_frame [simp]:
  "w_attempts (snd (reap_run m a w)) = w_attempts w" "w_now (snd (reap_run m a w)) = w_now w"
  "run_id ` set (w_runs (snd (reap_run m a w))) = run_id ` set (w_runs w)"
  by (simp_all add: reap_run_def del: transition_world_sel split: option.split)

text \<open>
  C5: the reaper is complete and touches nothing else. It ends without an error, having
  orphaned exactly the attempts that are active past their lease, on a run whose invocation
  lock is free, and whose row is not locked; it reports each of them once, and every other
  attempt is as it was.
\<close>

theorem reaper_complete:
  assumes "kernel_ok w" and "attempts_ok w"
  shows "\<exists>rs w'. reapExpiredLeases held locked maxAttempts w = (Inr rs, w')
     \<and> kernel_ok w' \<and> attempts_ok w'
     \<and> distinct (map fst rs)
     \<and> set (map fst rs) = {a \<in> set (w_attempts w). expired w a \<and> \<not> held (att_run_id a) \<and> \<not> locked (att_id a)}
     \<and> w_attempts w' = map (\<lambda>a. if expired w a \<and> \<not> held (att_run_id a) \<and> \<not> locked (att_id a)
                               then orphaned a else a) (w_attempts w)"
  using assms
proof (induction held locked maxAttempts w rule: reapExpiredLeases.induct)
  case (1 held locked maxAttempts w)
  let ?free = "\<lambda>a. \<not> held (att_run_id a) \<and> \<not> locked (att_id a)"
  show ?case
  proof (cases "find ?free (reap_candidates w)")
    case None
    then have "\<forall>a \<in> set (w_attempts w). \<not> (expired w a \<and> ?free a)"
      by (auto simp: find_None_iff_all in_reap_candidates)
    moreover have "reapExpiredLeases held locked maxAttempts w = (Inr [], w)"
      using None by (subst reapExpiredLeases.simps) (simp add: reap_one_eq [OF "1.prems"])
    ultimately show ?thesis using "1.prems" by (auto intro!: exI [of _ "[]"] map_idI [symmetric])
  next
    case (Some a)
    define w1 where "w1 = w\<lparr>w_attempts := update_where (\<lambda>b. att_id b = att_id a) orphaned (w_attempts w)\<rparr>"
    define out where "out = fst (reap_run maxAttempts a w1)"
    define w2 where "w2 = snd (reap_run maxAttempts a w1)"
    have one: "reap_one held locked maxAttempts w = Inr (Some (a, out), w2)"
      using Some by (simp add: reap_one_eq [OF "1.prems"] w1_def out_def w2_def Let_def)
    have a: "a \<in> set (w_attempts w)" "expired w a" "?free a"
      using find_SomeD [OF Some] by (simp_all add: in_reap_candidates)
    have ok2: "kernel_ok w2"
      by (rule keeps_kernel_fromD(1) [OF reap_one_kernel_from "1.prems"(1) one])
    have att2: "w_attempts w2 = map (\<lambda>b. if att_id b = att_id a then orphaned b else b) (w_attempts w)"
      by (simp add: w2_def w1_def update_where_def)
    have aok2: "attempts_ok w2"
      by (rule attempts_ok_map [OF "1.prems"(2) att2]) (simp_all add: orphaned_def w2_def w1_def)
    have now: "w_now w2 = w_now w" by (simp add: w2_def w1_def)
    have same: "b = a" if "b \<in> set (w_attempts w)" "att_id b = att_id a" for b
      using "1.prems"(2) that a(1) by (auto simp: attempts_ok_def distinct_map inj_on_def)
    have exp2: "expired w2 (if att_id b = att_id a then orphaned b else b) \<longleftrightarrow> expired w b \<and> b \<noteq> a"
      if "b \<in> set (w_attempts w)" for b
      using same [OF that] by (auto simp: expired_def now orphaned_def)
    from "1.IH" [OF one refl refl ok2 aok2] obtain rs w' where
      rec: "reapExpiredLeases held locked maxAttempts w2 = (Inr rs, w')"
      and ok': "kernel_ok w'" "attempts_ok w'" and dist: "distinct (map fst rs)"
      and reaped: "set (map fst rs) = {b \<in> set (w_attempts w2). expired w2 b \<and> ?free b}"
      and att': "w_attempts w' = map (\<lambda>b. if expired w2 b \<and> ?free b then orphaned b else b) (w_attempts w2)"
      by auto
    have "reapExpiredLeases held locked maxAttempts w = (Inr ((a, out) # rs), w')"
      by (subst reapExpiredLeases.simps) (simp add: one rec)
    moreover have rs: "set (map fst rs) = {b \<in> set (w_attempts w). expired w b \<and> ?free b} - {a}"
    proof (rule set_eqI)
      fix c
      have keep: "(if att_id b = att_id a then orphaned b else b) = b" if "b \<in> set (w_attempts w)" "b \<noteq> a" for b
        using same [OF that(1)] that(2) by auto
      have "c \<in> set (map fst rs) \<longleftrightarrow> (\<exists>b \<in> set (w_attempts w). c = (if att_id b = att_id a then orphaned b else b)
          \<and> expired w2 (if att_id b = att_id a then orphaned b else b) \<and> ?free c)"
        unfolding reaped att2 by (simp only: mem_Collect_eq set_map image_iff bex_simps) blast
      also have "\<dots> \<longleftrightarrow> (\<exists>b \<in> set (w_attempts w). c = b \<and> expired w b \<and> b \<noteq> a \<and> ?free c)"
        using exp2 keep by (intro bex_cong refl) metis
      finally show "c \<in> set (map fst rs) \<longleftrightarrow> c \<in> {b \<in> set (w_attempts w). expired w b \<and> ?free b} - {a}"
        by blast
    qed
    moreover have "w_attempts w' = map (\<lambda>b. if expired w b \<and> ?free b then orphaned b else b) (w_attempts w)"
      unfolding att' att2 map_map comp_def
    proof (rule map_cong [OF refl])
      fix b assume b: "b \<in> set (w_attempts w)"
      show "(if expired w2 (if att_id b = att_id a then orphaned b else b)
                \<and> ?free (if att_id b = att_id a then orphaned b else b)
             then orphaned (if att_id b = att_id a then orphaned b else b)
             else (if att_id b = att_id a then orphaned b else b)) =
            (if expired w b \<and> ?free b then orphaned b else b)"
      proof (cases "b = a")
        case True
        then show ?thesis using exp2 [OF b] a by simp
      next
        case False
        then have "att_id b \<noteq> att_id a" using same [OF b] by blast
        then show ?thesis using exp2 [OF b] False by simp
      qed
    qed
    moreover have "distinct (map fst ((a, out) # rs))" using dist rs by auto
    moreover have "set (map fst ((a, out) # rs)) = {b \<in> set (w_attempts w). expired w b \<and> ?free b}"
      using rs a by auto
    ultimately show ?thesis using ok' by blast
  qed
qed

lemma find_reap_run:
  assumes "find_run w (att_run_id a) = Some r" and "run_status r \<in> {STARTING, RUNNING, VERIFYING}"
  shows "\<exists>r'. find_run (snd (reap_run m a w)) (att_run_id a) = Some r'
     \<and> run_status r' = (if m \<le> att_no a then FAILED else QUEUED)
     \<and> (\<not> m \<le> att_no a \<longrightarrow> run_current_attempt_id r' = None)"
  using assms find_run_id [OF assms(1)]
  by (auto simp: reap_run_def find_run_transition_world reap_failed_def reap_requeue_def transition_row_def)

text \<open>
  What a reaped lease does to its run. If the run is in an execution status, the reaper
  fails it when the attempts are used up and queues it again otherwise; a run elsewhere, such as
  one that waits for an approval, is left alone. The decision reads the run's status only, not
  which attempt the run is currently on.
\<close>

theorem reap_one_outcome:
  assumes "kernel_ok w" and "attempts_ok w"
    and "reap_one held locked maxAttempts w = Inr (Some (a, out), w')"
    and "find_run w (att_run_id a) = Some r"
  shows "att_state a = AS_ACTIVE \<and> att_lease_expires_at a < w_now w
     \<and> (if run_status r \<in> {STARTING, RUNNING, VERIFYING}
        then \<exists>r'. find_run w' (att_run_id a) = Some r'
               \<and> run_status r' = (if maxAttempts \<le> att_no a then FAILED else QUEUED)
               \<and> (\<not> maxAttempts \<le> att_no a \<longrightarrow> run_current_attempt_id r' = None)
        else w_runs w' = w_runs w \<and> w_events w' = w_events w)"
proof -
  define w1 where "w1 = w\<lparr>w_attempts := update_where (\<lambda>b. att_id b = att_id a) orphaned (w_attempts w)\<rparr>"
  have w': "w' = snd (reap_run maxAttempts a w1)"
    using assms(3) unfolding reap_one_eq [OF assms(1,2)] w1_def
    by (auto simp: Let_def split: option.splits)
  have f1: "find_run w1 (att_run_id a) = Some r" by (simp add: w1_def assms(4))
  have "expired w a" using reap_one_Some [OF assms(3)] by blast
  moreover have "w_runs w' = w_runs w \<and> w_events w' = w_events w"
    if "run_status r \<notin> {STARTING, RUNNING, VERIFYING}"
  proof -
    have "w' = w1" unfolding w' reap_run_def f1 using that by simp
    then show ?thesis by (simp add: w1_def)
  qed
  ultimately show ?thesis
    using find_reap_run [OF f1] by (auto simp: expired_def w')
qed

section \<open>Fencing\<close>

lemma no_active_row:
  assumes "attempts_ok w" and "find_attempt w aid = Some a" and "att_state a \<noteq> AS_ACTIVE"
  shows "\<forall>b \<in> set (w_attempts w). \<not> (att_id b = aid \<and> att_state b = AS_ACTIVE)"
proof -
  have a: "a \<in> set (w_attempts w)" "att_id a = aid"
    using assms(2) by (auto simp: find_attempt_def dest: find_SomeD)
  have "inj_on att_id (set (w_attempts w))"
    using assms(1) by (simp add: attempts_ok_def distinct_map)
  then have "b = a" if "b \<in> set (w_attempts w)" "att_id b = aid" for b
    using that a by (simp add: inj_on_def)
  then show ?thesis using assms(3) by blast
qed

text \<open>
  C6: a worker that lost its attempt can change nothing. Once the attempt's row is not active
  any more, the worker's heartbeat reports the loss, and settling the epoch, with whatever exit
  reason and from whatever copy of the attempt the worker still holds, leaves the database as
  it is.
\<close>

theorem lost_attempt_is_fenced:
  assumes "attempts_ok w" and "find_attempt w (att_id attempt) = Some a" and "att_state a \<noteq> AS_ACTIVE"
  shows "heartbeatAttempt (att_id attempt) ttl w = Inr (False, w)
     \<and> settleAttempt maxAttempts rid attempt reason w = Inr ((), w)"
proof -
  note none = no_active_row [OF assms]
  have zero: "row_count (\<lambda>b. att_id b = att_id attempt \<and> att_state b = AS_ACTIVE) (w_attempts w) = 0"
    using none by (simp add: row_count_def filter_empty_conv)
  have exit: "exitAttempt (att_id attempt) e w = Inr (False, w)" for e
    by (simp add: exitAttempt_def tx_eval zero update_where_none [OF none])
  have "heartbeatAttempt (att_id attempt) ttl w = Inr (False, w)"
    by (simp add: heartbeatAttempt_def tx_eval zero update_where_none [OF none])
  moreover have "settleAttempt maxAttempts rid attempt reason w = Inr ((), w)"
    unfolding settleAttempt_def by (simp add: tx_eval exit)
  ultimately show ?thesis ..
qed

definition exited :: "string \<Rightarrow> attempt_row \<Rightarrow> attempt_row" where
  "exited reason a = a\<lparr>att_state := AS_EXITED, att_exit_reason := Some reason\<rparr>"

lemma exitAttempt_active:
  assumes "a \<in> set (w_attempts w)" and "att_state a = AS_ACTIVE"
  shows "exitAttempt (att_id a) reason w = Inr (True, w\<lparr>w_attempts :=
     update_where (\<lambda>b. att_id b = att_id a \<and> att_state b = AS_ACTIVE) (exited reason) (w_attempts w)\<rparr>)"
  using assms
  by (auto simp: exitAttempt_def tx_eval row_count_def exited_def [abs_def] filter_empty_conv)

text \<open>
  An epoch that ends in an error is retried until the attempts are used up. Settling it for
  the worker that still owns the attempt exits the attempt and moves the run to \<open>QUEUED\<close>, without
  a current attempt, or to \<open>FAILED\<close> from attempt number \<open>maxAttempts\<close> on.
\<close>

theorem settle_error_retries:
  assumes "kernel_ok w" and "attempt \<in> set (w_attempts w)" and "att_state attempt = AS_ACTIVE"
    and "find_run w rid = Some r" and "run_status r \<in> {RUNNING, STARTING, VERIFYING}"
  shows "\<exists>w' r'. settleAttempt maxAttempts rid attempt Ex_error w = Inr ((), w')
     \<and> find_run w' rid = Some r'
     \<and> w_attempts w' = update_where (\<lambda>b. att_id b = att_id attempt \<and> att_state b = AS_ACTIVE)
                          (exited ''error'') (w_attempts w)
     \<and> run_status r' = (if maxAttempts \<le> att_no attempt then FAILED else QUEUED)
     \<and> (run_status r' = QUEUED \<longrightarrow> run_current_attempt_id r' = None)
     \<and> kernel_ok w'"
proof -
  let ?w1 = "w\<lparr>w_attempts := update_where (\<lambda>b. att_id b = att_id attempt \<and> att_state b = AS_ACTIVE)
                          (exited ''error'') (w_attempts w)\<rparr>"
  define opts where "opts = (if maxAttempts \<le> att_no attempt
      then settle_failed (att_id attempt) [RUNNING, STARTING, VERIFYING] ''max_attempts_exhausted''
      else settle_retry attempt)"
  have ok1: "kernel_ok ?w1" using assms(1) by (subst kernel_ok_cong [of _ w]) simp_all
  have f1: "find_run ?w1 rid = Some r" using assms(4) by simp
  have allowed: "run_status r \<in> set (to_expectFrom opts) \<and> isTransitionAllowed (run_status r) (to_to opts)"
    using assms(5) by (auto simp: opts_def settle_failed_def settle_retry_def isTransitionAllowed_def)
  then have step: "transitionRun rid opts ?w1 =
      Inr (transition_row opts (run_last_event_seq r + 1) (w_now w) r, transition_world r opts ?w1)"
    using f1 next_seq_free [OF kernel_okD [OF ok1] f1] by (auto simp: transitionRun_iff)
  have "settleAttempt maxAttempts rid attempt Ex_error w = Inr ((), transition_world r opts ?w1)"
    using exitAttempt_active [OF assms(2,3), of "''error''"] step
    by (simp add: settleAttempt_def tx_eval epoch_exit_name_def opts_def split: if_splits)
  moreover have "kernel_ok (transition_world r opts ?w1)"
    by (rule kernel_ok_transition_world [OF ok1 f1]) (use allowed in blast)
  moreover have "find_run (transition_world r opts ?w1) rid =
      Some (transition_row opts (run_last_event_seq r + 1) (w_now w) r)"
    using f1 find_run_id [OF f1] by (simp add: find_run_transition_world)
  ultimately show ?thesis
    by (auto simp: opts_def settle_failed_def settle_retry_def transition_row_def)
qed

section \<open>Examples\<close>

lemma demo_attempts_ok: "attempts_ok (demo_world st)"
  by (simp add: attempts_ok_def demo_attempt_def)

lemma demo_claim_ex:
  "\<exists>run att w'. claimRun (\<lambda>_. False) ''worker_2'' 30000 (demo_world QUEUED) = Inr (Some (run, att), w')"
proof -
  have "\<not> isl (claimRun (\<lambda>_. False) ''worker_2'' 30000 (demo_world QUEUED))
      \<and> fst (projr (claimRun (\<lambda>_. False) ''worker_2'' 30000 (demo_world QUEUED))) \<noteq> None"
    by code_simp
  then show ?thesis
    by (cases "claimRun (\<lambda>_. False) ''worker_2'' 30000 (demo_world QUEUED)") auto
qed

theorem claimRun_claims_witness:
  "\<exists>run att w'. claimRun (\<lambda>_. False) ''worker_2'' 30000 (demo_world QUEUED) = Inr (Some (run, att), w')
     \<and> run_status run = STARTING \<and> w_attempts w' = [demo_attempt, att]
     \<and> att_lease_expires_at att = 31000"
  using demo_claim_ex claimRun_claims [OF demo_world_ok [of QUEUED]] by fastforce

text \<open>Two queued runs, and two workers that claim one after the other.\<close>

definition demo_two_queued :: world where
  "demo_two_queued = (demo_world QUEUED)
     \<lparr>w_runs := [demo_run QUEUED, (demo_run QUEUED)\<lparr>run_id := ''run_2''\<rparr>]\<rparr>"

lemma demo_two_queued_ok: "kernel_ok demo_two_queued"
  using demo_world_ok [of QUEUED]
  by (simp add: demo_two_queued_def kernel_ok_def ledger_ok_def outbox_mirrors_def gapless_def
      admission_ok_def session_ok_def sessions_fenced_def session_open_def session_mirrors_def demo_admission_def demo_session_def)

lemma demo_two_claims:
  "\<exists>run1 att1 w1 run2 att2 w2.
     claimRun (\<lambda>_. False) ''worker_1'' 30000 demo_two_queued = Inr (Some (run1, att1), w1)
     \<and> claimRun (\<lambda>_. False) ''worker_2'' 30000 w1 = Inr (Some (run2, att2), w2)"
proof -
  let ?c1 = "claimRun (\<lambda>_. False) ''worker_1'' 30000 demo_two_queued"
  let ?c2 = "\<lambda>w. claimRun (\<lambda>_. False) ''worker_2'' 30000 w"
  have "\<not> isl ?c1 \<and> fst (projr ?c1) \<noteq> None
      \<and> \<not> isl (?c2 (snd (projr ?c1))) \<and> fst (projr (?c2 (snd (projr ?c1)))) \<noteq> None"
    by code_simp
  then obtain w1 c1 w2 c2 where "?c1 = Inr (Some c1, w1)" "?c2 w1 = Inr (Some c2, w2)"
    by (cases ?c1; cases "?c2 (snd (projr ?c1))") auto
  then show ?thesis by (metis surj_pair)
qed

definition demo_expired :: world where
  "demo_expired = (demo_world RUNNING)\<lparr>w_now := 5000\<rparr>"

lemma demo_expired_ok: "kernel_ok demo_expired" "attempts_ok demo_expired"
  using demo_world_ok [of RUNNING] demo_attempts_ok [of RUNNING]
  by (simp_all add: demo_expired_def kernel_ok_cong [of "demo_world RUNNING\<lparr>w_now := 5000\<rparr>" "demo_world RUNNING"]
      attempts_ok_def)

lemma demo_expired_attempt: "expired demo_expired demo_attempt"
  by (simp add: demo_expired_def expired_def demo_attempt_def)

theorem reaper_complete_witness:
  "\<exists>rs w'. reapExpiredLeases (\<lambda>_. False) (\<lambda>_. False) 3 demo_expired = (Inr rs, w')
     \<and> set (map fst rs) = {demo_attempt} \<and> w_attempts w' = [orphaned demo_attempt]"
proof -
  have "w_attempts demo_expired = [demo_attempt]" by (simp add: demo_expired_def)
  with reaper_complete [OF demo_expired_ok, of "\<lambda>_. False" "\<lambda>_. False" 3] demo_expired_attempt
  show ?thesis by fastforce
qed

theorem reap_one_outcome_witness:
  "\<exists>out w' r'. reap_one (\<lambda>_. False) (\<lambda>_. False) 3 demo_expired = Inr (Some (demo_attempt, out), w')
     \<and> find_run w' ''run_1'' = Some r' \<and> run_status r' = QUEUED"
proof -
  have cand: "reap_candidates demo_expired = [demo_attempt]"
    using demo_expired_attempt by (simp add: reap_candidates_def) (simp add: demo_expired_def)
  then obtain out w' where one: "reap_one (\<lambda>_. False) (\<lambda>_. False) 3 demo_expired = Inr (Some (demo_attempt, out), w')"
    unfolding reap_one_eq [OF demo_expired_ok] by (simp add: Let_def)
  have run: "find_run demo_expired (att_run_id demo_attempt) = Some (demo_run RUNNING)"
    by (simp add: demo_expired_def demo_attempt_def)
  from reap_one_outcome [OF demo_expired_ok one run] one show ?thesis
    by (auto simp: demo_attempt_def)
qed

theorem lost_attempt_is_fenced_witness:
  "settleAttempt 3 ''run_1'' demo_attempt Ex_error
     ((demo_world RUNNING)\<lparr>w_attempts := [orphaned demo_attempt]\<rparr>)
   = Inr ((), (demo_world RUNNING)\<lparr>w_attempts := [orphaned demo_attempt]\<rparr>)"
proof -
  let ?w = "(demo_world RUNNING)\<lparr>w_attempts := [orphaned demo_attempt]\<rparr>"
  have "attempts_ok ?w" "find_attempt ?w (att_id demo_attempt) = Some (orphaned demo_attempt)"
    by (simp_all add: attempts_ok_def find_attempt_def orphaned_def demo_attempt_def)
  from lost_attempt_is_fenced [OF this, of 0 3 "''run_1''" Ex_error] show ?thesis
    by (simp add: orphaned_def)
qed

theorem settle_error_retries_witness:
  "\<exists>w' r'. settleAttempt 3 ''run_1'' demo_attempt Ex_error (demo_world RUNNING) = Inr ((), w')
     \<and> find_run w' ''run_1'' = Some r' \<and> run_status r' = QUEUED"
  using settle_error_retries [OF demo_world_ok _ _ demo_find_run, of demo_attempt RUNNING 3]
  by (auto simp: demo_attempt_def)

end
