(* ===== verification/Grants.thy ===== *)
theory Grants
  imports Demo
begin

text \<open>
  Capability grants, \<^verbatim>\<open>src/store/grants.ts\<close>: the pattern language, eligibility, consumption
  under the row locks of one transaction, and revalidation at the dispatch boundary.
\<close>

section \<open>Regular expressions\<close>

text \<open>
  The fragment of the JavaScript regular expressions that the source builds: the two
  assertions, escaped and plain characters, \<^verbatim>\<open>.\<close> and the quantifiers \<^verbatim>\<open>*\<close>, \<^verbatim>\<open>+\<close> and \<^verbatim>\<open>?\<close>. A
  source with any other unescaped syntax character (a class, a group, an alternative, a
  counted repetition) is outside the fragment and parses to \<open>None\<close>.
\<close>

datatype re_atom = Literal char | AnyChar

datatype re_term = LineStart | LineEnd | Once re_atom | Many re_atom | Perhaps re_atom

definition is_syntax_character :: "char \<Rightarrow> bool" where
  "is_syntax_character c \<longleftrightarrow>
     c \<in> {CHR ''.'', CHR ''*'', CHR ''+'', CHR ''?'', CHR ''^'', CHR ''$'', CHR ''{'', CHR ''}'',
           CHR ''('', CHR '')'', CHR ''|'', CHR ''['', CHR '']'', CHR 0x5C}"

definition quantified :: "re_atom \<Rightarrow> string \<Rightarrow> re_term list \<times> string" where
  "quantified a s =
     (case s of
        [] \<Rightarrow> ([Once a], [])
      | c # s' \<Rightarrow>
          if c = CHR ''*'' then ([Many a], s')
          else if c = CHR ''+'' then ([Once a, Many a], s')
          else if c = CHR ''?'' then ([Perhaps a], s')
          else ([Once a], s))"

lemma length_quantified [simp, termination_simp]: "length (snd (quantified a s)) \<le> length s"
  by (auto simp: quantified_def split: list.splits)

function parse_regexp :: "string \<Rightarrow> re_term list option" where
  "parse_regexp [] = Some []"
| "parse_regexp (c # s) =
     (if c = CHR ''^'' then map_option ((#) LineStart) (parse_regexp s)
      else if c = CHR ''$'' then map_option ((#) LineEnd) (parse_regexp s)
      else if c = CHR 0x5C then
        (case s of
           [] \<Rightarrow> None
         | d # s' \<Rightarrow>
             if is_syntax_character d
             then map_option ((@) (fst (quantified (Literal d) s')))
                    (parse_regexp (snd (quantified (Literal d) s')))
             else None)
      else if c = CHR ''.'' then
        map_option ((@) (fst (quantified AnyChar s))) (parse_regexp (snd (quantified AnyChar s)))
      else if is_syntax_character c then None
      else
        map_option ((@) (fst (quantified (Literal c) s)))
          (parse_regexp (snd (quantified (Literal c) s))))"
  by pat_completeness auto
termination
  by (relation "measure length") (auto simp: less_Suc_eq_le intro: le_trans [OF length_quantified])

text \<open>
  In JavaScript \<^verbatim>\<open>.\<close> matches every character but the line terminators: line feed, carriage
  return, U+2028 and U+2029 (three bytes each in UTF-8).
\<close>

definition line_terminator_at :: "string \<Rightarrow> bool" where
  "line_terminator_at s \<longleftrightarrow>
     startsWith s [CHR 0x0A] \<or> startsWith s [CHR 0x0D]
     \<or> startsWith s [CHR 0xE2, CHR 0x80, CHR 0xA8] \<or> startsWith s [CHR 0xE2, CHR 0x80, CHR 0xA9]"

fun atom_matches :: "re_atom \<Rightarrow> string \<Rightarrow> bool" where
  "atom_matches _ [] = False"
| "atom_matches (Literal d) (c # v) = (c = d)"
| "atom_matches AnyChar (c # v) = (\<not> line_terminator_at (c # v))"

text \<open>
  A match from one position; the flag says whether the position is the start of the text.
  \<open>re_test\<close> is \<^verbatim>\<open>RegExp.prototype.test\<close>: it tries every position from the start on.
\<close>

function re_match :: "re_term list \<Rightarrow> bool \<Rightarrow> string \<Rightarrow> bool" where
  "re_match [] front v = True"
| "re_match (LineStart # ts) front v = (front \<and> re_match ts front v)"
| "re_match (LineEnd # ts) front v = (v = [] \<and> re_match ts front v)"
| "re_match (Once a # ts) front v = (atom_matches a v \<and> re_match ts False (drop 1 v))"
| "re_match (Perhaps a # ts) front v =
     (re_match ts front v \<or> (atom_matches a v \<and> re_match ts False (drop 1 v)))"
| "re_match (Many a # ts) front v =
     (re_match ts front v
      \<or> (case v of [] \<Rightarrow> False | c # v' \<Rightarrow> atom_matches a v \<and> re_match (Many a # ts) False v'))"
  by pat_completeness auto
termination
  by (relation "measures [\<lambda>(ts, front, v). length ts, \<lambda>(ts, front, v). length v]") auto

declare re_match.simps(6) [simp del]

fun re_search :: "re_term list \<Rightarrow> bool \<Rightarrow> string \<Rightarrow> bool" where
  "re_search ts front [] = re_match ts front []"
| "re_search ts front (c # v) = (re_match ts front (c # v) \<or> re_search ts False v)"

definition re_test :: "re_term list \<Rightarrow> string \<Rightarrow> bool" where
  "re_test ts v = re_search ts True v"

section \<open>Patterns\<close>

text \<open>
  The source splits a pattern at \<^verbatim>\<open>*\<close>, escapes the pieces, joins them with \<^verbatim>\<open>.*\<close> between
  \<^verbatim>\<open>^\<close> and \<^verbatim>\<open>$\<close> and hands the text to \<^verbatim>\<open>new RegExp\<close>. That this text always lies in the
  fragment above is part of the theorem below.
\<close>

fun split_star :: "string \<Rightarrow> string list" where
  "split_star [] = [[]]"
| "split_star (c # p) =
     (if c = CHR ''*'' then [] # split_star p
      else (case split_star p of [] \<Rightarrow> [[c]] | q # qs \<Rightarrow> (c # q) # qs))"

fun escapeRegExp :: "string \<Rightarrow> string" where
  "escapeRegExp [] = []"
| "escapeRegExp (c # s) =
     (if c \<in> {CHR ''.'', CHR ''*'', CHR ''+'', CHR ''?'', CHR ''^'', CHR ''$'', CHR ''{'', CHR ''}'',
              CHR ''('', CHR '')'', CHR ''|'', CHR ''['', CHR '']'', CHR 0x5C}
      then CHR 0x5C # c # escapeRegExp s
      else c # escapeRegExp s)"

fun join_with :: "string \<Rightarrow> string list \<Rightarrow> string" where
  "join_with sep [] = []"
| "join_with sep [p] = p"
| "join_with sep (p # q # ps) = p @ sep @ join_with sep (q # ps)"

definition pattern_source :: "string \<Rightarrow> string" where
  "pattern_source pattern =
     ''^'' @ join_with ''.*'' (map escapeRegExp (split_star pattern)) @ ''$''"

definition patternMatches :: "string \<Rightarrow> string \<Rightarrow> bool" where
  "patternMatches pattern value =
     (case parse_regexp (pattern_source pattern) of
        None \<Rightarrow> False
      | Some re \<Rightarrow> re_test re value)"

section \<open>Grants\<close>

definition is_unexpired :: "world \<Rightarrow> grant_row \<Rightarrow> bool" where
  "is_unexpired w g = (case gr_expires_at g of None \<Rightarrow> True | Some t \<Rightarrow> w_now w < t)"

definition calls_left :: "grant_row \<Rightarrow> bool" where
  "calls_left g = (case gr_max_calls g of None \<Rightarrow> True | Some m \<Rightarrow> gr_calls_used g < m)"

definition listGrants :: "world \<Rightarrow> string \<Rightarrow> grant_row list" where
  "listGrants w rid = filter (\<lambda>g. gr_run_id g = rid) (w_grants w)"

definition listGrantsWithEligibility :: "world \<Rightarrow> string \<Rightarrow> (grant_row \<times> bool) list" where
  "listGrantsWithEligibility w rid =
     map (\<lambda>g. (g, is_unexpired w g)) (filter (\<lambda>g. gr_run_id g = rid) (w_grants w))"

datatype grant_decision =
    GrantDenied string
  | GrantAllowed grant_row bool

definition matching_grants :: "world \<Rightarrow> string \<Rightarrow> string \<Rightarrow> string \<Rightarrow> grant_row list" where
  "matching_grants w rid action resource =
     filter (\<lambda>g. patternMatches (gr_action_pattern g) action
                 \<and> patternMatches (gr_resource_pattern g) resource
                 \<and> is_unexpired w g \<and> calls_left g)
       (sort_key gr_created_at (filter (\<lambda>g. gr_run_id g = rid) (w_grants w)))"

definition authorizeAndConsume ::
    "string \<Rightarrow> string \<Rightarrow> string \<Rightarrow> string option \<Rightarrow> grant_decision txn" where
  "authorizeAndConsume rid action resource requiredGrantId =
     bindT (getsT (\<lambda>w. matching_grants w rid action resource)) (\<lambda>matching.
     let grant = (case requiredGrantId of
           None \<Rightarrow> (case matching of [] \<Rightarrow> None | g # _ \<Rightarrow> Some g)
         | Some gid \<Rightarrow> find (\<lambda>g. gr_id g = gid) matching)
     in case grant of
          None \<Rightarrow> returnT (GrantDenied (''no capability grant matches '' @ action @ '' on '' @ resource))
        | Some g \<Rightarrow>
            thenT (modifyT (\<lambda>w. w\<lparr>w_grants :=
                     update_where (\<lambda>r. gr_id r = gr_id g)
                       (\<lambda>r. r\<lparr>gr_calls_used := gr_calls_used r + 1\<rparr>) (w_grants w)\<rparr>))
                  (returnT (GrantAllowed g (gr_requires_approval g))))"

definition revalidateGrantForDispatch ::
    "world \<Rightarrow> string \<Rightarrow> string \<Rightarrow> string \<Rightarrow> string \<Rightarrow> bool" where
  "revalidateGrantForDispatch w grantId rid action resource =
     (case find (\<lambda>g. gr_id g = grantId \<and> gr_run_id g = rid) (w_grants w) of
        None \<Rightarrow> False
      | Some g \<Rightarrow> is_unexpired w g
          \<and> patternMatches (gr_action_pattern g) action
          \<and> patternMatches (gr_resource_pattern g) resource)"

section \<open>The match of the pieces\<close>

text \<open>
  The regular expression of a pattern, without the detour through its text: \<open>match_pieces\<close>
  is the anchored match of the pieces, \<open>match_gap\<close> the \<^verbatim>\<open>.*\<close> before them.
\<close>

function match_pieces :: "string list \<Rightarrow> string \<Rightarrow> bool"
  and match_gap :: "string list \<Rightarrow> string \<Rightarrow> bool" where
  "match_pieces [] v = (v = [])"
| "match_pieces [p] v = (v = p)"
| "match_pieces (p # q # ps) v = (startsWith v p \<and> match_gap (q # ps) (drop (length p) v))"
| "match_gap ps v =
     (match_pieces ps v
      \<or> (case v of [] \<Rightarrow> False | c # v' \<Rightarrow> \<not> line_terminator_at v \<and> match_gap ps v'))"
  by pat_completeness auto
termination
  by (relation "measures
        [\<lambda>x. case x of Inl (ps, v) \<Rightarrow> length ps | Inr (ps, v) \<Rightarrow> length ps,
         \<lambda>x. case x of Inl (ps, v) \<Rightarrow> length v | Inr (ps, v) \<Rightarrow> length v,
         \<lambda>x. case x of Inl _ \<Rightarrow> 0 | Inr _ \<Rightarrow> 1]") auto

declare match_gap.simps [simp del]

lemma split_star_not_Nil [simp]: "split_star p \<noteq> []"
  by (induction p) (auto split: list.splits)

definition literals :: "string \<Rightarrow> re_term list" where
  "literals p = map (\<lambda>c. Once (Literal c)) p"

fun pieces_regexp :: "string list \<Rightarrow> re_term list" where
  "pieces_regexp [] = [LineEnd]"
| "pieces_regexp [p] = literals p @ [LineEnd]"
| "pieces_regexp (p # q # ps) = literals p @ Many AnyChar # pieces_regexp (q # ps)"

lemma quantified_once:
  "\<forall>c s'. s = c # s' \<longrightarrow> c \<notin> {CHR ''*'', CHR ''+'', CHR ''?''} \<Longrightarrow> quantified a s = ([Once a], s)"
  by (auto simp: quantified_def split: list.splits)

text \<open>An escaped piece parses to its own characters, whatever follows that is no quantifier.\<close>

lemma escaped_front:
  "\<forall>c s'. s = c # s' \<longrightarrow> c \<notin> {CHR ''*'', CHR ''+'', CHR ''?''} \<Longrightarrow>
   \<forall>c s'. escapeRegExp p @ s = c # s' \<longrightarrow> c \<notin> {CHR ''*'', CHR ''+'', CHR ''?''}"
  by (cases p) auto

lemma parse_escaped:
  assumes "\<forall>c s'. s = c # s' \<longrightarrow> c \<notin> {CHR ''*'', CHR ''+'', CHR ''?''}"
  shows "parse_regexp (escapeRegExp p @ s) = map_option ((@) (literals p)) (parse_regexp s)"
proof (induction p)
  case Nil
  then show ?case by (cases "parse_regexp s") (simp_all add: literals_def)
next
  case (Cons c p)
  have q: "quantified a (escapeRegExp p @ s) = ([Once a], escapeRegExp p @ s)" for a
    by (rule quantified_once [OF escaped_front [OF assms]])
  show ?case
    by (auto simp: q Cons.IH literals_def is_syntax_character_def option.map_comp comp_def)
qed

lemma parse_pieces:
  "ps \<noteq> [] \<Longrightarrow>
   parse_regexp (join_with ''.*'' (map escapeRegExp ps) @ ''$'') = Some (pieces_regexp ps)"
proof (induction ps rule: induct_list012)
  case (3 p q ps)
  then show ?case by (simp add: parse_escaped quantified_def)
qed (simp_all add: parse_escaped)

lemma parse_pattern_source:
  "parse_regexp (pattern_source pattern) = Some (LineStart # pieces_regexp (split_star pattern))"
  by (simp add: pattern_source_def parse_pieces)

lemma re_search_anchored: "re_search (LineStart # ts) front v \<longleftrightarrow> front \<and> re_match ts front v"
  by (induction v arbitrary: front) auto

lemma re_match_literals:
  "re_match (literals p @ ts) front v
   \<longleftrightarrow> startsWith v p \<and> re_match ts (front \<and> p = []) (drop (length p) v)"
proof (induction p arbitrary: front v)
  case Nil
  then show ?case by (simp add: literals_def)
next
  case (Cons c p)
  then show ?case by (cases v) (auto simp: literals_def)
qed

lemma re_match_gap:
  assumes "\<And>front v. re_match (pieces_regexp ps) front v = match_pieces ps v"
  shows "re_match (Many AnyChar # pieces_regexp ps) front v = match_gap ps v"
proof (induction v arbitrary: front)
  case Nil
  then show ?case by (subst re_match.simps, subst match_gap.simps) (simp add: assms)
next
  case (Cons c v)
  then show ?case by (subst re_match.simps, subst match_gap.simps) (simp add: assms)
qed

lemma re_match_pieces: "ps \<noteq> [] \<Longrightarrow> re_match (pieces_regexp ps) front v = match_pieces ps v"
proof (induction ps arbitrary: front v rule: induct_list012)
  case (2 p)
  then show ?case by (auto simp: re_match_literals startsWith_iff)
next
  case (3 p q ps)
  then show ?case by (simp add: re_match_literals re_match_gap)
qed simp

lemma patternMatches_pieces: "patternMatches pattern value = match_pieces (split_star pattern) value"
  by (simp add: patternMatches_def parse_pattern_source re_test_def re_search_anchored
      re_match_pieces)

section \<open>What a pattern means\<close>

text \<open>
  The declarative reading of the pieces of a pattern. A gap may hold any text in which no
  line terminator begins; whether one begins may depend on the text after the gap, hence the
  last argument.
\<close>

definition gap_before :: "string \<Rightarrow> string \<Rightarrow> bool" where
  "gap_before g v \<longleftrightarrow> (\<forall>front rest. g = front @ rest \<longrightarrow> rest \<noteq> [] \<longrightarrow> \<not> line_terminator_at (rest @ v))"

inductive glob :: "string list \<Rightarrow> string \<Rightarrow> bool" where
  last: "glob [p] p"
| gap: "glob (q # ps) v \<Longrightarrow> gap_before g v \<Longrightarrow> glob (p # q # ps) (p @ g @ v)"

inductive_simps glob_simps: "glob [] v" "glob [p] v" "glob (p # q # ps) v"

lemma gap_before_Nil [simp]: "gap_before [] v"
  by (simp add: gap_before_def)

lemma gap_before_Cons: "gap_before (c # g) v \<longleftrightarrow> \<not> line_terminator_at (c # g @ v) \<and> gap_before g v"
proof
  assume gap: "gap_before (c # g) v"
  then have "\<not> line_terminator_at ((c # g) @ v)" unfolding gap_before_def by blast
  moreover have "gap_before g v"
    unfolding gap_before_def using gap [unfolded gap_before_def] by (metis append_Cons)
  ultimately show "\<not> line_terminator_at (c # g @ v) \<and> gap_before g v" by simp
qed (auto simp: gap_before_def Cons_eq_append_conv)

lemma match_gap_iff:
  "match_gap ps v \<longleftrightarrow> (\<exists>g v'. v = g @ v' \<and> gap_before g v' \<and> match_pieces ps v')"
proof (induction v)
  case Nil
  then show ?case by (subst match_gap.simps) auto
next
  case (Cons c v)
  have "(\<exists>g v'. c # v = g @ v' \<and> gap_before g v' \<and> match_pieces ps v') \<longleftrightarrow>
      match_pieces ps (c # v)
      \<or> (\<not> line_terminator_at (c # v) \<and> (\<exists>g v'. v = g @ v' \<and> gap_before g v' \<and> match_pieces ps v'))"
    (is "?lhs \<longleftrightarrow> ?now \<or> ?later")
  proof
    assume ?lhs
    then obtain g v' where g: "c # v = g @ v'" "gap_before g v'" "match_pieces ps v'" by blast
    then show "?now \<or> ?later" by (cases g) (auto simp: gap_before_Cons)
  next
    assume "?now \<or> ?later"
    then show ?lhs
    proof
      assume ?now
      then show ?lhs by (intro exI [of _ "[]"] exI [of _ "c # v"]) simp
    next
      assume ?later
      then obtain g v' where "v = g @ v'" "\<not> line_terminator_at (c # v)" "gap_before g v'" "match_pieces ps v'"
        by blast
      then show ?lhs by (intro exI [of _ "c # g"] exI [of _ v']) (simp add: gap_before_Cons)
    qed
  qed
  then show ?case by (subst match_gap.simps) (simp add: Cons.IH)
qed

lemma match_pieces_iff_glob: "ps \<noteq> [] \<Longrightarrow> match_pieces ps v \<longleftrightarrow> glob ps v"
proof (induction ps arbitrary: v rule: induct_list012)
  case 1
  then show ?case by simp
next
  case (2 p)
  then show ?case by (auto simp: glob_simps)
next
  case (3 p q ps)
  then show ?case
    by (auto simp: glob_simps startsWith_iff match_gap_iff) (metis append_eq_conv_conj)+
qed

lemma split_star_no_star: "CHR ''*'' \<notin> set p \<Longrightarrow> split_star p = [p]"
  by (induction p) auto

lemma split_star_append:
  "CHR ''*'' \<notin> set p \<Longrightarrow> split_star (p @ CHR ''*'' # q) = p # split_star q"
  by (induction p) auto

text \<open>
  C7: the pattern language. The regular expression built for a pattern is well formed, and
  what it accepts are exactly the pattern's pieces in order with a gap on one line for each
  \<open>*\<close>; so a pattern without \<open>*\<close>, dots and all other regular-expression characters included,
  authorizes exactly one string.
\<close>

theorem patternMatches_glob:
  "parse_regexp (pattern_source pattern) \<noteq> None
   \<and> (patternMatches pattern value \<longleftrightarrow> glob (split_star pattern) value)
   \<and> (CHR ''*'' \<in> set pattern \<or> (patternMatches pattern value \<longleftrightarrow> value = pattern))"
  by (auto simp: parse_pattern_source patternMatches_pieces match_pieces_iff_glob
      split_star_no_star glob_simps)

section \<open>Consumption\<close>

definition grants_ok :: "world \<Rightarrow> bool" where
  "grants_ok w \<longleftrightarrow>
     distinct (map gr_id (w_grants w))
     \<and> (\<forall>g \<in> set (w_grants w). 0 \<le> gr_calls_used g
          \<and> (\<forall>m. gr_max_calls g = Some m \<longrightarrow> 0 \<le> m \<longrightarrow> gr_calls_used g \<le> m))"

lemma matching_grantsD:
  "g \<in> set (matching_grants w rid action resource) \<Longrightarrow>
   g \<in> set (w_grants w) \<and> gr_run_id g = rid
   \<and> patternMatches (gr_action_pattern g) action \<and> patternMatches (gr_resource_pattern g) resource
   \<and> is_unexpired w g \<and> calls_left g"
  by (auto simp: matching_grants_def)

lemma authorizeAndConsume_effect:
  assumes "authorizeAndConsume rid action resource req w = Inr (GrantAllowed g b, w')"
  shows "g \<in> set (matching_grants w rid action resource)" and "b = gr_requires_approval g"
    and "\<And>gid. req = Some gid \<Longrightarrow> gr_id g = gid"
    and "w' = w\<lparr>w_grants := update_where (\<lambda>r. gr_id r = gr_id g)
                  (\<lambda>r. r\<lparr>gr_calls_used := gr_calls_used r + 1\<rparr>) (w_grants w)\<rparr>"
  using assms
  by (auto simp: authorizeAndConsume_def tx_simps Let_def split: option.splits list.splits
      dest: find_SomeD)

lemma authorizeAndConsume_denied:
  "authorizeAndConsume rid action resource req w = Inr (GrantDenied reason, w') \<Longrightarrow> w' = w"
  by (auto simp: authorizeAndConsume_def tx_simps Let_def split: option.splits)

lemma authorizeAndConsume_keeps_grants: "keeps grants_ok (authorizeAndConsume rid action resource req)"
proof (rule hoareI)
  fix w d w' assume ok: "grants_ok w" and run: "authorizeAndConsume rid action resource req w = Inr (d, w')"
  show "grants_ok w'"
  proof (cases d)
    case (GrantDenied reason)
    then show ?thesis using run ok authorizeAndConsume_denied by blast
  next
    case (GrantAllowed g b)
    note eff = authorizeAndConsume_effect [OF run [unfolded GrantAllowed]]
    have g: "g \<in> set (w_grants w)" "calls_left g" using matching_grantsD [OF eff(1)] by blast+
    have "r = g" if "r \<in> set (w_grants w)" "gr_id r = gr_id g" for r
      using ok g(1) that by (auto simp: grants_ok_def distinct_map inj_on_def)
    then have "calls_left r" if "r \<in> set (w_grants w)" "gr_id r = gr_id g" for r
      using g(2) that by blast
    then show ?thesis
      using ok by (fastforce simp: eff(4) grants_ok_def map_update_where set_update_where calls_left_def)
  qed
qed

lemma authorizeAndConsume_kernel_from [hoare_rules]:
  "keeps (kernel_from w0) (authorizeAndConsume rid action resource req)"
  unfolding authorizeAndConsume_def by (intro hoare_rules keeps_modifyT) simp

text \<open>
  C8: a grant is spent at most as often as it allows. An authorization uses one eligible grant
  of the run: it matches the action and the resource, is not expired and has calls left; its
  counter goes up by one and no other row changes. No sequence of authorizations takes a
  counter past the grant's limit.
\<close>

theorem grant_consumption:
  assumes "grants_ok w"
    and "authorizeAndConsume rid action resource req w = Inr (GrantAllowed g b, w')"
  shows "g \<in> set (w_grants w) \<and> gr_run_id g = rid
     \<and> glob (split_star (gr_action_pattern g)) action
     \<and> glob (split_star (gr_resource_pattern g)) resource
     \<and> is_unexpired w g \<and> (\<forall>m. gr_max_calls g = Some m \<longrightarrow> gr_calls_used g < m)
     \<and> b = gr_requires_approval g
     \<and> w_grants w' = map (\<lambda>r. if r = g then r\<lparr>gr_calls_used := gr_calls_used r + 1\<rparr> else r) (w_grants w)
     \<and> grants_ok w'"
proof -
  note eff = authorizeAndConsume_effect [OF assms(2)]
  note g = matching_grantsD [OF eff(1)]
  have "r = g" if "r \<in> set (w_grants w)" "gr_id r = gr_id g" for r
    using assms(1) g that by (auto simp: grants_ok_def distinct_map inj_on_def)
  then have "w_grants w' = map (\<lambda>r. if r = g then r\<lparr>gr_calls_used := gr_calls_used r + 1\<rparr> else r) (w_grants w)"
    by (auto simp: eff(4) update_where_def)
  moreover have "grants_ok w'" by (rule hoareD [OF authorizeAndConsume_keeps_grants assms])
  ultimately show ?thesis
    using g eff(2) by (simp add: patternMatches_pieces match_pieces_iff_glob calls_left_def split: option.splits)
qed

definition demo_grant :: grant_row where
  "demo_grant =
     \<lparr>gr_id = ''cap_1'', gr_run_id = ''run_1'', gr_action_pattern = ''http.*'',
      gr_resource_pattern = ''*'', gr_requires_approval = False, gr_max_calls = Some 2,
      gr_calls_used = 1, gr_expires_at = Some 9000, gr_created_at = 0\<rparr>"

theorem grant_consumption_witness:
  "\<exists>w'. authorizeAndConsume ''run_1'' ''http.get'' ''r'' None ((demo_world RUNNING)\<lparr>w_grants := [demo_grant]\<rparr>)
     = Inr (GrantAllowed demo_grant False, w') \<and> map gr_calls_used (w_grants w') = [2] \<and> grants_ok w'"
proof -
  let ?w = "(demo_world RUNNING)\<lparr>w_grants := [demo_grant]\<rparr>"
  have ok: "grants_ok ?w" by (simp add: grants_ok_def demo_grant_def)
  have match: "patternMatches ''http.*'' ''http.get''" "patternMatches ''*'' ''r''" by code_simp+
  have "matching_grants ?w ''run_1'' ''http.get'' ''r'' = [demo_grant]"
    using match by (simp add: matching_grants_def demo_grant_def is_unexpired_def calls_left_def)
  then have "\<exists>w'. authorizeAndConsume ''run_1'' ''http.get'' ''r'' None ?w = Inr (GrantAllowed demo_grant False, w')"
    by (simp add: authorizeAndConsume_def tx_eval) (simp add: demo_grant_def)
  then show ?thesis using grant_consumption [OF ok] by (fastforce simp: demo_grant_def)
qed

end
