(* ===== verification/One_Shot.thy ===== *)
theory One_Shot
  imports Schema
begin

text \<open>
  The contract that approvals, receipts and attempts share: a row is open until one operation
  decides it, no operation deletes it, and a decided row keeps its outcome. The source gets it
  from the guard \<^verbatim>\<open>WHERE id = $1 AND status = 'PENDING'\<close> (or \<^verbatim>\<open>'ACTIVE'\<close>) of every update.
  Each component interprets the locale on the relation of its own operations.
\<close>

locale one_shot =
  fixes rows :: "'s \<Rightarrow> 'r list"
    and key :: "'r \<Rightarrow> string"
    and decided :: "'r \<Rightarrow> bool"
    and outcome :: "'r \<Rightarrow> 'o"
    and step :: "'s \<Rightarrow> 's \<Rightarrow> bool"
  assumes step_keeps: "step s t \<Longrightarrow> r \<in> set (rows s) \<Longrightarrow>
      \<exists>r' \<in> set (rows t). key r' = key r \<and> (decided r \<longrightarrow> decided r' \<and> outcome r' = outcome r)"
begin

lemma row_stays: "step\<^sup>*\<^sup>* s t \<Longrightarrow> r \<in> set (rows s) \<Longrightarrow> \<exists>r' \<in> set (rows t). key r' = key r"
proof (induction arbitrary: r rule: converse_rtranclp_induct)
  case base
  then show ?case by blast
next
  case (step s u)
  then obtain q where "q \<in> set (rows u)" "key q = key r" using step_keeps by blast
  then show ?case using step.IH by metis
qed

lemma decided_once:
  "step\<^sup>*\<^sup>* s t \<Longrightarrow> r \<in> set (rows s) \<Longrightarrow> decided r \<Longrightarrow>
   \<exists>r' \<in> set (rows t). key r' = key r \<and> decided r' \<and> outcome r' = outcome r"
proof (induction arbitrary: r rule: converse_rtranclp_induct)
  case base
  then show ?case by blast
next
  case (step s u)
  then obtain q where "q \<in> set (rows u)" "key q = key r" "decided q" "outcome q = outcome r"
    using step_keeps by blast
  then show ?case using step.IH by metis
qed

end

text \<open>Two shapes of operation keep rows: an insert, and an update that keeps the key.\<close>

lemma insert_keeps_rows:
  "r \<in> set rows \<Longrightarrow> \<exists>r' \<in> set (rows @ [x]). k r' = k r \<and> (d r \<longrightarrow> d r' \<and> f r' = f r)"
  by auto

lemma update_keeps_rows:
  assumes "r \<in> set rows" and "k (u r) = k r" and "p r \<Longrightarrow> d r \<Longrightarrow> d (u r) \<and> f (u r) = f r"
  shows "\<exists>r' \<in> set (update_where p u rows). k r' = k r \<and> (d r \<longrightarrow> d r' \<and> f r' = f r)"
  using assms by (intro bexI [OF _ in_update_whereI [OF assms(1), of p u]]) auto

end
