(* ===== verification/Approvals.thy ===== *)
theory Approvals
  imports Demo One_Shot
begin

text \<open>
  Human approvals, \<^verbatim>\<open>src/store/approvals.ts\<close>: an approval is requested for one semantic
  action, decided once, and checked again against the database clock at the execution
  boundary, where an expired one is durably marked.
\<close>

datatype decision = Approve | Deny

definition decision_status :: "decision \<Rightarrow> approval_status" where
  "decision_status d = (case d of Approve \<Rightarrow> AP_APPROVED | Deny \<Rightarrow> AP_DENIED)"

definition find_approval :: "world \<Rightarrow> string \<Rightarrow> approval_row option" where
  "find_approval w aid = find (\<lambda>a. ap_id a = aid) (w_approvals w)"

definition insertApproval :: "string \<Rightarrow> string \<Rightarrow> semantic_action \<Rightarrow> approval_row txn" where
  "insertApproval rid attemptId action =
     bindT (newId ''apr'') (\<lambda>aid.
     (\<lambda>w. if exists_row (\<lambda>a. ap_id a = aid) (w_approvals w)
          then Inl (UniqueViolation ''approvals_pkey'')
          else
            let row = \<lparr>ap_id = aid, ap_run_id = rid, ap_attempt_id = Some attemptId,
                       ap_action = action, ap_status = AP_PENDING, ap_decision_by = None,
                       ap_decided_at = None, ap_expires_at = None, ap_created_at = w_now w\<rparr>
            in Inr (row, w\<lparr>w_approvals := w_approvals w @ [row]\<rparr>)))"

definition getApproval :: "world \<Rightarrow> string \<Rightarrow> approval_row option" where
  "getApproval w aid = find_approval w aid"

definition listApprovals :: "world \<Rightarrow> string \<Rightarrow> approval_status option \<Rightarrow> approval_row list" where
  "listApprovals w rid status =
     sort_key ap_created_at
       (filter (\<lambda>a. ap_run_id a = rid \<and> (case status of None \<Rightarrow> True | Some s \<Rightarrow> ap_status a = s))
         (w_approvals w))"

definition idem_key_of :: "semantic_action \<Rightarrow> string option" where
  "idem_key_of a = (case jfield (sa_arguments a) ''__idemKey'' of Some (JStr k) \<Rightarrow> Some k | _ \<Rightarrow> None)"

definition approval_expired :: "world \<Rightarrow> approval_row \<Rightarrow> bool" where
  "approval_expired w a = (case ap_expires_at a of None \<Rightarrow> False | Some t \<Rightarrow> t \<le> w_now w)"

definition authorizes :: "string \<Rightarrow> string \<Rightarrow> string \<Rightarrow> string \<Rightarrow> string \<Rightarrow> approval_row \<Rightarrow> bool" where
  "authorizes aid rid action resource key a \<longleftrightarrow>
     ap_id a = aid \<and> ap_run_id a = rid \<and> sa_action (ap_action a) = action
     \<and> sa_resource (ap_action a) = resource \<and> idem_key_of (ap_action a) = Some key"

definition lockApprovalForExecution ::
    "string \<Rightarrow> string \<Rightarrow> string \<Rightarrow> string \<Rightarrow> string \<Rightarrow> approval_row option txn" where
  "lockApprovalForExecution aid rid action resource key =
     bindT (getsT (\<lambda>w. find (authorizes aid rid action resource key) (w_approvals w))) (\<lambda>found.
     case found of
       None \<Rightarrow> returnT None
     | Some approval \<Rightarrow>
         bindT (getsT (\<lambda>w. approval_expired w approval)) (\<lambda>is_expired.
         if is_expired \<and> (ap_status approval = AP_PENDING \<or> ap_status approval = AP_APPROVED)
         then thenT (modifyT (\<lambda>w. w\<lparr>w_approvals :=
                       update_where (\<lambda>a. ap_id a = ap_id approval
                                         \<and> (ap_status a = AP_PENDING \<or> ap_status a = AP_APPROVED))
                         (\<lambda>a. a\<lparr>ap_status := AP_EXPIRED\<rparr>) (w_approvals w)\<rparr>))
                    (returnT (Some (approval\<lparr>ap_status := AP_EXPIRED\<rparr>)))
         else returnT (Some approval)))"

definition decideApproval :: "string \<Rightarrow> decision \<Rightarrow> string \<Rightarrow> approval_row option txn" where
  "decideApproval aid decision decidedBy =
     bindT (getsT (\<lambda>w. (w_now w, find (\<lambda>a. ap_id a = aid \<and> ap_status a = AP_PENDING) (w_approvals w))))
       (\<lambda>(now, found).
     let decide = (\<lambda>a. a\<lparr>ap_status := decision_status decision, ap_decision_by := Some decidedBy,
                         ap_decided_at := Some now\<rparr>)
     in thenT (modifyT (\<lambda>w. w\<lparr>w_approvals :=
                 update_where (\<lambda>a. ap_id a = aid \<and> ap_status a = AP_PENDING) decide (w_approvals w)\<rparr>))
              (returnT (map_option decide found)))"

section \<open>Frames\<close>

lemma insertApproval_iff:
  "insertApproval rid att action w = Inr (row, w') \<longleftrightarrow>
     ap_id row = ''apr_'' @ toLowerCase (w_ulid w (w_ulid_next w))
     \<and> row = \<lparr>ap_id = ap_id row, ap_run_id = rid, ap_attempt_id = Some att,
              ap_action = action, ap_status = AP_PENDING, ap_decision_by = None,
              ap_decided_at = None, ap_expires_at = None, ap_created_at = w_now w\<rparr>
     \<and> \<not> exists_row (\<lambda>a. ap_id a = ap_id row) (w_approvals w)
     \<and> w' = w\<lparr>w_ulid_next := Suc (w_ulid_next w), w_approvals := w_approvals w @ [row]\<rparr>"
  by (auto simp: insertApproval_def tx_eval newId_def Let_def split: if_splits)

lemma insertApproval_kernel_from [hoare_rules]: "keeps (kernel_from w0) (insertApproval rid att action)"
  by (rule hoareI) (auto simp: insertApproval_iff)

lemma lockApprovalForExecution_kernel_from [hoare_rules]:
  "keeps (kernel_from w0) (lockApprovalForExecution aid rid action resource key)"
  unfolding lockApprovalForExecution_def by (intro hoare_rules keeps_modifyT) simp

lemma decideApproval_kernel_from [hoare_rules]: "keeps (kernel_from w0) (decideApproval aid d who)"
  unfolding decideApproval_def Let_def by (intro hoare_rules keeps_modifyT) simp

section \<open>Decided once\<close>

inductive approval_step :: "world \<Rightarrow> world \<Rightarrow> bool" where
  request: "insertApproval rid att action w = Inr (row, w') \<Longrightarrow> approval_step w w'"
| decide: "decideApproval aid d who w = Inr (res, w') \<Longrightarrow> approval_step w w'"
| execute: "lockApprovalForExecution aid rid action resource key w = Inr (res2, w') \<Longrightarrow> approval_step w w'"
| clock: "w_now w \<le> t \<Longrightarrow> approval_step w (w\<lparr>w_now := t\<rparr>)"

text \<open>What is fixed once an approval is not pending: who decided, when, and that it was denied.\<close>

definition decision_of :: "approval_row \<Rightarrow> string option \<times> int option \<times> bool \<times> semantic_action" where
  "decision_of a = (ap_decision_by a, ap_decided_at a, ap_status a = AP_DENIED, ap_action a)"

interpretation approvals: one_shot w_approvals ap_id "\<lambda>a. ap_status a \<noteq> AP_PENDING" decision_of approval_step
proof
  fix w w' r assume "approval_step w w'" and r: "r \<in> set (w_approvals w)"
  then show "\<exists>r' \<in> set (w_approvals w'). ap_id r' = ap_id r \<and>
      (ap_status r \<noteq> AP_PENDING \<longrightarrow> ap_status r' \<noteq> AP_PENDING \<and> decision_of r' = decision_of r)"
  proof cases
    case (request rid att action row)
    then have "w_approvals w' = w_approvals w @ [row]" by (auto simp: insertApproval_iff)
    then show ?thesis using insert_keeps_rows [OF r] by simp
  next
    case (decide aid d who res)
    let ?f = "\<lambda>a. a\<lparr>ap_status := decision_status d, ap_decision_by := Some who, ap_decided_at := Some (w_now w)\<rparr>"
    from decide have w': "w_approvals w' = update_where (\<lambda>a. ap_id a = aid \<and> ap_status a = AP_PENDING) ?f (w_approvals w)"
      by (auto simp: decideApproval_def tx_simps Let_def)
    show ?thesis unfolding w' by (rule update_keeps_rows [OF r]) simp_all
  next
    case (execute aid rid action resource key res)
    let ?u = "\<lambda>x. update_where (\<lambda>a. ap_id a = x \<and> (ap_status a = AP_PENDING \<or> ap_status a = AP_APPROVED))
          (\<lambda>a. a\<lparr>ap_status := AP_EXPIRED\<rparr>) (w_approvals w)"
    from execute have "w_approvals w' = w_approvals w \<or> (\<exists>x. w_approvals w' = ?u x)"
      by (auto simp: lockApprovalForExecution_def tx_simps split: option.splits if_splits)
    then show ?thesis
    proof
      assume "w_approvals w' = w_approvals w"
      then show ?thesis using r by auto
    next
      assume "\<exists>x. w_approvals w' = ?u x"
      then obtain x where w': "w_approvals w' = ?u x" ..
      show ?thesis unfolding w' by (rule update_keeps_rows [OF r]) (auto simp: decision_of_def)
    qed
  next
    case (clock t)
    then show ?thesis using r by auto
  qed
qed

text \<open>
  C9: an approval is decided at most once. Whatever requests, decisions, execution checks and
  clock ticks follow, an approval that is not pending stays in the table and keeps who decided
  it, when, for which action, and whether the answer was no; in particular a denied approval
  is denied for good.
\<close>

theorem approval_decided_once:
  assumes "approval_step\<^sup>*\<^sup>* w w'" and "a \<in> set (w_approvals w)" and "ap_status a \<noteq> AP_PENDING"
  shows "\<exists>a' \<in> set (w_approvals w'). ap_id a' = ap_id a \<and> ap_status a' \<noteq> AP_PENDING
     \<and> ap_decision_by a' = ap_decision_by a \<and> ap_decided_at a' = ap_decided_at a
     \<and> ap_action a' = ap_action a \<and> (ap_status a' = AP_DENIED \<longleftrightarrow> ap_status a = AP_DENIED)"
  using approvals.decided_once [OF assms] by (auto simp: decision_of_def)

text \<open>
  The execution check. It returns an approval only if that approval is for exactly this
  run, action, resource and idempotency key, and returns it approved only if it is approved in
  the table and not expired by the database clock; an expired pending or approved one is
  marked expired.
\<close>

theorem lockApproval_sound:
  assumes "distinct (map ap_id (w_approvals w))"
    and "lockApprovalForExecution aid rid action resource key w = Inr (Some a, w')"
  shows "\<exists>a0 \<in> set (w_approvals w). ap_id a0 = aid \<and> ap_run_id a0 = rid
     \<and> sa_action (ap_action a0) = action \<and> sa_resource (ap_action a0) = resource
     \<and> idem_key_of (ap_action a0) = Some key
     \<and> find_approval w' aid = Some a
     \<and> (ap_status a = AP_APPROVED \<longleftrightarrow> ap_status a0 = AP_APPROVED \<and> \<not> approval_expired w a0)
     \<and> (approval_expired w a0 \<and> ap_status a0 \<in> {AP_PENDING, AP_APPROVED} \<longrightarrow> ap_status a = AP_EXPIRED)
     \<and> (\<not> approval_expired w a0 \<longrightarrow> a = a0 \<and> w' = w)"
proof -
  from assms(2) obtain a0 where found: "find (authorizes aid rid action resource key) (w_approvals w) = Some a0"
    and eff: "if approval_expired w a0 \<and> (ap_status a0 = AP_PENDING \<or> ap_status a0 = AP_APPROVED)
       then a = a0\<lparr>ap_status := AP_EXPIRED\<rparr> \<and> w' = w\<lparr>w_approvals :=
                       update_where (\<lambda>a. ap_id a = ap_id a0
                                         \<and> (ap_status a = AP_PENDING \<or> ap_status a = AP_APPROVED))
                         (\<lambda>a. a\<lparr>ap_status := AP_EXPIRED\<rparr>) (w_approvals w)\<rparr>
       else a = a0 \<and> w' = w"
    by (auto simp: lockApprovalForExecution_def tx_simps split: option.splits if_splits)
  have a0: "a0 \<in> set (w_approvals w)" "authorizes aid rid action resource key a0"
    using find_SomeD [OF found] by blast+
  then have "find_approval w aid = Some a0"
    using assms(1) by (simp add: find_approval_def find_Some_iff_key authorizes_def)
  then have "find_approval w' aid = Some a"
    using eff a0(2) by (auto simp: find_approval_def find_key_update authorizes_def split: if_splits)
  then show ?thesis
    using a0 eff by (intro bexI [OF _ a0(1)]) (auto simp: authorizes_def split: if_splits)
qed

definition demo_approval :: approval_row where
  "demo_approval =
     \<lparr>ap_id = ''apr_1'', ap_run_id = ''run_1'', ap_attempt_id = Some ''att_1'',
      ap_action = \<lparr>sa_action = ''http.post'', sa_resource = ''r'',
                   sa_arguments = [(''__idemKey'', JStr ''k'')], sa_risk = Risk_external_write\<rparr>,
      ap_status = AP_APPROVED, ap_decision_by = Some ''alice'', ap_decided_at = Some 10,
      ap_expires_at = Some 900, ap_created_at = 0\<rparr>"

definition demo_approved :: world where
  "demo_approved = (demo_world RUNNING)\<lparr>w_approvals := [demo_approval]\<rparr>"

lemma demo_lock: "\<exists>w'. lockApprovalForExecution ''apr_1'' ''run_1'' ''http.post'' ''r'' ''k'' demo_approved
    = Inr (Some (demo_approval\<lparr>ap_status := AP_EXPIRED\<rparr>), w')"
  by (simp add: lockApprovalForExecution_def tx_eval demo_approved_def authorizes_def idem_key_of_def
      approval_expired_def) (simp add: demo_approval_def jfield_def)

theorem approval_decided_once_witness:
  "\<exists>w' a'. approval_step\<^sup>*\<^sup>* demo_approved w' \<and> a' \<in> set (w_approvals w')
     \<and> ap_status a' \<noteq> AP_PENDING \<and> ap_decision_by a' = Some ''alice''"
proof -
  obtain w' where "approval_step\<^sup>*\<^sup>* demo_approved w'"
    using demo_lock approval_step.execute r_into_rtranclp by metis
  moreover have "demo_approval \<in> set (w_approvals demo_approved)" "ap_status demo_approval \<noteq> AP_PENDING"
    by (simp_all add: demo_approved_def demo_approval_def)
  ultimately show ?thesis using approval_decided_once by (fastforce simp: demo_approval_def)
qed

theorem lockApproval_sound_witness:
  "\<exists>w' a. lockApprovalForExecution ''apr_1'' ''run_1'' ''http.post'' ''r'' ''k'' demo_approved = Inr (Some a, w')
     \<and> ap_status a = AP_EXPIRED \<and> find_approval w' ''apr_1'' = Some a"
proof -
  obtain w' where l: "lockApprovalForExecution ''apr_1'' ''run_1'' ''http.post'' ''r'' ''k'' demo_approved
      = Inr (Some (demo_approval\<lparr>ap_status := AP_EXPIRED\<rparr>), w')" using demo_lock by blast
  have "distinct (map ap_id (w_approvals demo_approved))" by (simp add: demo_approved_def)
  from lockApproval_sound [OF this l] l show ?thesis by fastforce
qed

end
