(* ===== verification/Receipts.thy ===== *)
theory Receipts
  imports Demo One_Shot "HOL-Library.Multiset"
begin

text \<open>
  Tool receipts, \<^verbatim>\<open>src/store/receipts.ts\<close>: the durable record of an external action, found by
  an idempotency key that is the same for every attempt, worker and replacement of a run.
  SHA-256 (\<^verbatim>\<open>node:crypto\<close>) is the parameter \<open>sha256\<close>; \<open>fmt\<close> is ECMAScript's decimal form of a
  number that is not an integer below \<open>10^21\<close>.
\<close>

section \<open>Canonical JSON\<close>

definition hex_digit :: "nat \<Rightarrow> char" where
  "hex_digit n = (if n < 10 then char_of (48 + n) else char_of (87 + n))"

definition json_escape :: "char \<Rightarrow> string" where
  "json_escape c =
     (let n = of_char c :: nat in
      if c = CHR 0x22 then [CHR 0x5C, CHR 0x22]
      else if c = CHR 0x5C then [CHR 0x5C, CHR 0x5C]
      else if n = 8 then [CHR 0x5C, CHR ''b'']
      else if n = 9 then [CHR 0x5C, CHR ''t'']
      else if n = 10 then [CHR 0x5C, CHR ''n'']
      else if n = 12 then [CHR 0x5C, CHR ''f'']
      else if n = 13 then [CHR 0x5C, CHR ''r'']
      else if n < 32 then CHR 0x5C # ''u00'' @ [hex_digit (n div 16), hex_digit (n mod 16)]
      else [c])"

definition json_quote :: "string \<Rightarrow> string" where
  "json_quote s = CHR 0x22 # concat (map json_escape s) @ [CHR 0x22]"

definition json_number :: "(rat \<Rightarrow> string) \<Rightarrow> rat \<Rightarrow> string" where
  "json_number fmt q =
     (let (n, d) = quotient_of q in if d = 1 \<and> \<bar>n\<bar> < 10 ^ 21 then int_digits n else fmt q)"

fun join_comma :: "string list \<Rightarrow> string" where
  "join_comma [] = []"
| "join_comma [s] = s"
| "join_comma (s # t # ss) = s @ CHR '','' # join_comma (t # ss)"

fun canonicalJson :: "(rat \<Rightarrow> string) \<Rightarrow> json \<Rightarrow> string" where
  "canonicalJson fmt JNull = ''null''"
| "canonicalJson fmt (JBool b) = (if b then ''true'' else ''false'')"
| "canonicalJson fmt (JNum q) = json_number fmt q"
| "canonicalJson fmt (JStr s) = json_quote s"
| "canonicalJson fmt (JArr vs) = ''['' @ join_comma (map (canonicalJson fmt) vs) @ '']''"
| "canonicalJson fmt (JObj kvs) =
     ''{'' @ join_comma
        (map (\<lambda>(k, s). json_quote k @ '':'' @ s)
           (sort_key fst (map (\<lambda>(k, v). (k, canonicalJson fmt v)) kvs))) @ ''}''"

definition idempotencyKey ::
    "(string \<Rightarrow> string) \<Rightarrow> (rat \<Rightarrow> string) \<Rightarrow> string \<Rightarrow> string \<Rightarrow> (string \<times> json) list \<Rightarrow> string option \<Rightarrow> string" where
  "idempotencyKey sha256 fmt rid action args approvalId =
     sha256 (rid @ [CHR 0x0A] @ action @ [CHR 0x0A] @ canonicalJson fmt (JObj args) @ [CHR 0x0A]
             @ (case approvalId of None \<Rightarrow> '''' | Some a \<Rightarrow> a))"

section \<open>Lineage\<close>

text \<open>
  The recursive query follows \<^verbatim>\<open>replaces_run_id\<close>. \<^verbatim>\<open>UNION\<close> drops rows that were found before,
  so a run is visited once: here it is removed from the rows that are left to visit.
\<close>

function lineage :: "run_row list \<Rightarrow> string \<Rightarrow> run_row list" where
  "lineage runs rid =
     (case find (\<lambda>r. run_id r = rid) runs of
        None \<Rightarrow> []
      | Some r \<Rightarrow> r #
          (case run_replaces_run_id r of
             None \<Rightarrow> []
           | Some p \<Rightarrow> lineage (filter (\<lambda>q. run_id q \<noteq> rid) runs) p))"
  by pat_completeness auto
termination
proof (relation "measure (\<lambda>(runs, rid). length runs)")
  fix runs :: "run_row list" and rid r p
  assume "find (\<lambda>r. run_id r = rid) runs = Some r"
  then have "r \<in> set runs" "run_id r = rid" by (auto dest: find_SomeD)
  then have "length (filter (\<lambda>q. run_id q \<noteq> rid) runs) < length runs"
    by (intro length_filter_less) auto
  then show "((filter (\<lambda>q. run_id q \<noteq> rid) runs, p), (runs, rid)) \<in> measure (\<lambda>(runs, rid). length runs)"
    by simp
qed simp

declare lineage.simps [simp del]

definition replacementRootRunId :: "world \<Rightarrow> string \<Rightarrow> string" where
  "replacementRootRunId w rid =
     (case find (\<lambda>r. run_replaces_run_id r = None) (lineage (w_runs w) rid) of
        None \<Rightarrow> rid
      | Some r \<Rightarrow> run_id r)"

section \<open>Receipts\<close>

definition receipt_rank :: "receipt_status \<Rightarrow> int" where
  "receipt_rank s = (case s of RS_COMMITTED \<Rightarrow> 0 | RS_PENDING \<Rightarrow> 1 | _ \<Rightarrow> 2)"

definition findReceiptByKey :: "world \<Rightarrow> string \<Rightarrow> string \<Rightarrow> receipt_row option" where
  "findReceiptByKey w rid key =
     find (\<lambda>r. rc_run_id r = rid \<and> rc_idempotency_key r = key) (w_receipts w)"

definition findReceiptByLineageKey :: "world \<Rightarrow> string \<Rightarrow> string \<Rightarrow> receipt_row option" where
  "findReceiptByLineageKey w rid key =
     (case sort_key (\<lambda>r. (receipt_rank (rc_status r), - rc_started_at r))
             (filter (\<lambda>r. rc_idempotency_key r = key
                          \<and> rc_run_id r \<in> set (map run_id (lineage (w_runs w) rid)))
               (w_receipts w)) of
        [] \<Rightarrow> None
      | r # _ \<Rightarrow> Some r)"

record receipt_input =
  ri_runId :: string
  ri_attemptId :: string
  ri_step :: int
  ri_action :: string
  ri_args :: "(string \<times> json) list"
  ri_idempotencyKey :: string
  ri_approvalId :: "string option"
  ri_reversibility :: "string option"

definition new_receipt ::
    "(string \<Rightarrow> string) \<Rightarrow> (rat \<Rightarrow> string) \<Rightarrow> receipt_input \<Rightarrow> string \<Rightarrow> int \<Rightarrow> receipt_row" where
  "new_receipt sha256 fmt input rid now =
     \<lparr>rc_id = rid, rc_run_id = ri_runId input, rc_attempt_id = ri_attemptId input,
      rc_step = ri_step input, rc_semantic_action = ri_action input,
      rc_request_digest = sha256 (canonicalJson fmt (JObj (ri_args input))),
      rc_idempotency_key = ri_idempotencyKey input,
      rc_approval_id = ri_approvalId input, rc_status = RS_PENDING,
      rc_external_txn_id = None, rc_result_digest = None, rc_result = None,
      rc_reversibility = (case ri_reversibility input of None \<Rightarrow> ''unknown'' | Some x \<Rightarrow> x),
      rc_started_at = now, rc_completed_at = None\<rparr>"

definition insertPendingReceipt ::
    "(string \<Rightarrow> string) \<Rightarrow> (rat \<Rightarrow> string) \<Rightarrow> receipt_input \<Rightarrow> receipt_row txn" where
  "insertPendingReceipt sha256 fmt input =
     bindT (newId ''rcpt'') (\<lambda>rid.
     (\<lambda>w. if exists_row (\<lambda>r. rc_id r = rid) (w_receipts w)
          then Inl (UniqueViolation ''tool_receipts_pkey'')
          else if exists_row (\<lambda>r. rc_run_id r = ri_runId input
                               \<and> rc_idempotency_key r = ri_idempotencyKey input) (w_receipts w)
          then Inl (UniqueViolation ''tool_receipts_run_id_idempotency_key_key'')
          else
            let row = new_receipt sha256 fmt input rid (w_now w)
            in Inr (row, w\<lparr>w_receipts := w_receipts w @ [row]\<rparr>)))"

definition pending_receipt :: "string \<Rightarrow> receipt_row \<Rightarrow> bool" where
  "pending_receipt rid r \<longleftrightarrow> rc_id r = rid \<and> rc_status r = RS_PENDING"

definition not_pending_error :: "string \<Rightarrow> err" where
  "not_pending_error rid = GenericError (''receipt '' @ rid @ '' is no longer pending'')"

definition commitReceipt ::
    "(string \<Rightarrow> string) \<Rightarrow> (rat \<Rightarrow> string) \<Rightarrow> string \<Rightarrow> string option \<Rightarrow> (string \<times> json) list \<Rightarrow> unit txn" where
  "commitReceipt sha256 fmt rid externalTxnId result =
     bindT (getsT (\<lambda>w. row_count (pending_receipt rid) (w_receipts w))) (\<lambda>n.
     thenT (modifyT (\<lambda>w. w\<lparr>w_receipts := update_where (pending_receipt rid)
              (\<lambda>r. r\<lparr>rc_status := RS_COMMITTED, rc_external_txn_id := externalTxnId,
                     rc_result := Some (JObj result),
                     rc_result_digest := Some (sha256 (canonicalJson fmt (JObj result))),
                     rc_completed_at := Some (w_now w)\<rparr>) (w_receipts w)\<rparr>))
           (ensureT (n = 1) (not_pending_error rid)))"

definition setPendingReceiptApproval :: "string \<Rightarrow> string \<Rightarrow> unit txn" where
  "setPendingReceiptApproval rid approvalId =
     bindT (getsT (\<lambda>w. row_count (pending_receipt rid) (w_receipts w))) (\<lambda>n.
     thenT (modifyT (\<lambda>w. w\<lparr>w_receipts := update_where (pending_receipt rid)
              (\<lambda>r. r\<lparr>rc_approval_id := Some approvalId\<rparr>) (w_receipts w)\<rparr>))
           (ensureT (n = 1) (not_pending_error rid)))"

datatype receipt_failure = Failed | Needs_reconciliation

definition failReceipt :: "string \<Rightarrow> receipt_failure \<Rightarrow> unit txn" where
  "failReceipt rid status =
     modifyT (\<lambda>w. w\<lparr>w_receipts := update_where (pending_receipt rid)
       (\<lambda>r. r\<lparr>rc_status := (case status of Failed \<Rightarrow> RS_FAILED | Needs_reconciliation \<Rightarrow> RS_NEEDS_RECONCILIATION),
              rc_completed_at := Some (w_now w)\<rparr>) (w_receipts w)\<rparr>)"

section \<open>The idempotency key is independent of member order\<close>

inductive same_json :: "json \<Rightarrow> json \<Rightarrow> bool" where
  same: "same_json v v"
| items: "list_all2 same_json vs ws \<Longrightarrow> same_json (JArr vs) (JArr ws)"
| members: "list_all2 (\<lambda>a b. fst a = fst b \<and> same_json (snd a) (snd b)) kvs kvs' \<Longrightarrow>
    mset kvs' = mset kvs'' \<Longrightarrow> distinct (map fst kvs'') \<Longrightarrow> same_json (JObj kvs) (JObj kvs'')"
monos list_all2_mono

lemma sort_members:
  assumes "mset xs = mset ys" and "distinct (map fst ys)"
  shows "sort_key fst xs = sort_key fst (ys :: (string \<times> 'a) list)"
proof (rule sort_key_inj_key_eq)
  show "mset xs = mset (sort_key fst ys)" using assms(1) by simp
  have "set xs = set ys" using assms(1) by (rule mset_eq_setD)
  then show "inj_on fst (set xs)" using assms(2) by (simp add: distinct_map)
  show "sorted (map fst (sort_key fst ys))" by simp
qed

lemma map_eq_list_all2: "list_all2 (\<lambda>a b. f a = g b) xs ys \<Longrightarrow> map f xs = map g ys"
  by (induction rule: list_all2_induct) auto

lemma canonicalJson_same: "same_json v v' \<Longrightarrow> canonicalJson fmt v = canonicalJson fmt v'"
proof (induction rule: same_json.induct)
  case (same v)
  then show ?case by simp
next
  case (items vs ws)
  then have "map (canonicalJson fmt) vs = map (canonicalJson fmt) ws"
    by (intro map_eq_list_all2) (auto elim: list_all2_mono)
  then show ?case by simp
next
  case (members kvs kvs' kvs'')
  let ?f = "\<lambda>(k, v). (k, canonicalJson fmt v)"
  have 1: "map ?f kvs = map ?f kvs'"
    using members(1) by (intro map_eq_list_all2) (auto elim!: list_all2_mono)
  have "mset (map ?f kvs') = mset (map ?f kvs'')" using members(2) by simp
  moreover have "map fst (map ?f kvs'') = map fst kvs''" by (simp add: comp_def case_prod_unfold)
  ultimately have "sort_key fst (map ?f kvs) = sort_key fst (map ?f kvs'')"
    unfolding 1 using members(3) by (intro sort_members) (simp_all only:)
  then show ?case by simp
qed

text \<open>
  The same action has the same key. Arguments that differ only in the order of object
  members, at any depth, give the same idempotency key and the same request digest, whatever
  the hash.
\<close>

theorem idempotencyKey_member_order:
  assumes "same_json (JObj args) (JObj args')"
  shows "idempotencyKey sha256 fmt rid action args approvalId
       = idempotencyKey sha256 fmt rid action args' approvalId"
  by (simp only: idempotencyKey_def canonicalJson_same [OF assms])

theorem idempotencyKey_member_order_witness:
  "idempotencyKey id (\<lambda>_. []) ''run_1'' ''http.post'' [(''a'', JBool True), (''b'', JNull)] None
   = idempotencyKey id (\<lambda>_. []) ''run_1'' ''http.post'' [(''b'', JNull), (''a'', JBool True)] None"
proof (rule idempotencyKey_member_order)
  let ?kvs = "[(''a'', JBool True), (''b'', JNull)]"
  show "same_json (JObj ?kvs) (JObj [(''b'', JNull), (''a'', JBool True)])"
    by (rule same_json.members [of ?kvs ?kvs]) (auto intro: same_json.same)
qed

section \<open>Receipts settle once\<close>

lemma insertPendingReceipt_iff:
  "insertPendingReceipt sha256 fmt input w = Inr (row, w') \<longleftrightarrow>
     row = new_receipt sha256 fmt input (''rcpt_'' @ toLowerCase (w_ulid w (w_ulid_next w))) (w_now w)
     \<and> \<not> exists_row (\<lambda>r. rc_id r = rc_id row) (w_receipts w)
     \<and> \<not> exists_row (\<lambda>r. rc_run_id r = ri_runId input \<and> rc_idempotency_key r = ri_idempotencyKey input) (w_receipts w)
     \<and> w' = w\<lparr>w_ulid_next := Suc (w_ulid_next w), w_receipts := w_receipts w @ [row]\<rparr>"
  by (auto simp: insertPendingReceipt_def tx_eval newId_def Let_def new_receipt_def split: if_splits)

definition receipts_ok :: "world \<Rightarrow> bool" where
  "receipts_ok w \<longleftrightarrow>
     distinct (map rc_id (w_receipts w))
     \<and> distinct (map (\<lambda>r. (rc_run_id r, rc_idempotency_key r)) (w_receipts w))"

lemma receipts_ok_update:
  assumes "receipts_ok w" and "\<And>r. rc_id (f r) = rc_id r" and "\<And>r. rc_run_id (f r) = rc_run_id r"
    and "\<And>r. rc_idempotency_key (f r) = rc_idempotency_key r"
  shows "receipts_ok (w\<lparr>w_receipts := update_where p f (w_receipts w)\<rparr>)"
  using assms by (simp add: receipts_ok_def map_update_where)

inductive receipt_step :: "world \<Rightarrow> world \<Rightarrow> bool" where
  insert: "insertPendingReceipt sha256 fmt input w = Inr (row, w') \<Longrightarrow> receipt_step w w'"
| commit: "commitReceipt sha256 fmt rid ext result w = Inr (x, w') \<Longrightarrow> receipt_step w w'"
| approve: "setPendingReceiptApproval rid aid w = Inr (x, w') \<Longrightarrow> receipt_step w w'"
| fail: "failReceipt rid status w = Inr (x, w') \<Longrightarrow> receipt_step w w'"

text \<open>Every operation is the insert of a pending row or an update of pending rows.\<close>

lemma receipt_step_shape:
  assumes "receipt_step w w'"
  obtains (insert) row where "w_receipts w' = w_receipts w @ [row]" "rc_status row = RS_PENDING"
      "\<forall>r \<in> set (w_receipts w). rc_id r \<noteq> rc_id row
         \<and> \<not> (rc_run_id r = rc_run_id row \<and> rc_idempotency_key r = rc_idempotency_key row)"
  | (update) rid f where "w_receipts w' = update_where (pending_receipt rid) f (w_receipts w)"
      "\<And>r. rc_id (f r) = rc_id r" "\<And>r. rc_run_id (f r) = rc_run_id r"
      "\<And>r. rc_idempotency_key (f r) = rc_idempotency_key r"
  using assms
proof cases
  case (insert sha256 fmt input row)
  then have row: "row = new_receipt sha256 fmt input (''rcpt_'' @ toLowerCase (w_ulid w (w_ulid_next w))) (w_now w)"
    and w': "w' = w\<lparr>w_ulid_next := Suc (w_ulid_next w), w_receipts := w_receipts w @ [row]\<rparr>"
    and fresh: "\<forall>r \<in> set (w_receipts w). rc_id r \<noteq> rc_id row"
      "\<forall>r \<in> set (w_receipts w). \<not> (rc_run_id r = ri_runId input \<and> rc_idempotency_key r = ri_idempotencyKey input)"
    unfolding insertPendingReceipt_iff exists_row_iff by blast+
  have "rc_status row = RS_PENDING" "rc_run_id row = ri_runId input"
      "rc_idempotency_key row = ri_idempotencyKey input"
    by (simp_all add: row new_receipt_def)
  then show ?thesis using fresh by (intro that(1)) (auto simp: w')
qed (auto simp: commitReceipt_def setPendingReceiptApproval_def failReceipt_def tx_simps intro!: that(2))

interpretation receipts: one_shot w_receipts rc_id "\<lambda>r. rc_status r \<noteq> RS_PENDING"
  "\<lambda>r. r" receipt_step
proof
  fix w w' r assume "receipt_step w w'" and r: "r \<in> set (w_receipts w)"
  then show "\<exists>r' \<in> set (w_receipts w'). rc_id r' = rc_id r \<and>
      (rc_status r \<noteq> RS_PENDING \<longrightarrow> rc_status r' \<noteq> RS_PENDING \<and> r' = r)"
  proof (cases rule: receipt_step_shape)
    case (insert row)
    show ?thesis unfolding insert(1) by (rule insert_keeps_rows [OF r])
  next
    case (update rid f)
    show ?thesis
      unfolding update(1) by (rule update_keeps_rows [OF r]) (auto simp: update(2) pending_receipt_def)
  qed
qed

lemma receipt_step_ok: "receipt_step w w' \<Longrightarrow> receipts_ok w \<Longrightarrow> receipts_ok w'"
proof (cases rule: receipt_step_shape, assumption)
  fix row
  assume "receipts_ok w" "w_receipts w' = w_receipts w @ [row]"
    "\<forall>r \<in> set (w_receipts w). rc_id r \<noteq> rc_id row
         \<and> \<not> (rc_run_id r = rc_run_id row \<and> rc_idempotency_key r = rc_idempotency_key row)"
  then show "receipts_ok w'" by (auto simp: receipts_ok_def)
next
  fix rid f
  assume "receipts_ok w" "w_receipts w' = update_where (pending_receipt rid) f (w_receipts w)"
    "\<And>r. rc_id (f r) = rc_id r" "\<And>r. rc_run_id (f r) = rc_run_id r"
    "\<And>r. rc_idempotency_key (f r) = rc_idempotency_key r"
  then show "receipts_ok w'" by (simp add: receipts_ok_def map_update_where)
qed

text \<open>
  C10: one receipt per run and key, settled once. Over any sequence of receipt operations two
  receipts of a run never share an idempotency key, and a receipt that is committed, failed or
  handed to reconciliation never changes again, so its recorded result is the one a later
  attempt reads.
\<close>

theorem receipts_settle_once:
  assumes "receipt_step\<^sup>*\<^sup>* w w'" and "receipts_ok w"
  shows "receipts_ok w'
     \<and> (\<forall>r \<in> set (w_receipts w). rc_status r \<noteq> RS_PENDING \<longrightarrow> r \<in> set (w_receipts w'))"
proof
  show "receipts_ok w'" using assms by (induction rule: rtranclp_induct) (auto intro: receipt_step_ok)
  show "\<forall>r \<in> set (w_receipts w). rc_status r \<noteq> RS_PENDING \<longrightarrow> r \<in> set (w_receipts w')"
    using receipts.decided_once [OF assms(1)] by blast
qed

section \<open>Frames\<close>

lemma insertPendingReceipt_kernel_from [hoare_rules]:
  "keeps (kernel_from w0) (insertPendingReceipt sha256 fmt input)"
  by (rule hoareI) (auto simp: insertPendingReceipt_iff)

lemma commitReceipt_kernel_from [hoare_rules]:
  "keeps (kernel_from w0) (commitReceipt sha256 fmt rid ext result)"
  unfolding commitReceipt_def by (intro hoare_rules keeps_modifyT) simp

lemma setPendingReceiptApproval_kernel_from [hoare_rules]:
  "keeps (kernel_from w0) (setPendingReceiptApproval rid aid)"
  unfolding setPendingReceiptApproval_def by (intro hoare_rules keeps_modifyT) simp

lemma failReceipt_kernel_from [hoare_rules]: "keeps (kernel_from w0) (failReceipt rid status)"
  unfolding failReceipt_def by (intro hoare_rules keeps_modifyT) simp

section \<open>Lineage lookups\<close>

lemma lineage_subset: "r \<in> set (lineage runs rid) \<Longrightarrow> r \<in> set runs"
proof (induction runs rid rule: lineage.induct)
  case (1 runs rid)
  show ?case
  proof (cases "find (\<lambda>r. run_id r = rid) runs")
    case None
    then show ?thesis using "1.prems" by (simp add: lineage.simps)
  next
    case (Some q)
    then have "q \<in> set runs" by (auto dest: find_SomeD)
    then show ?thesis
      using "1.prems" "1.IH" [OF Some] Some
      by (cases "run_replaces_run_id q"; subst (asm) (2) lineage.simps; auto)
  qed
qed

lemma find_filter_other:
  "rid \<noteq> x \<Longrightarrow> find (\<lambda>r. run_id r = rid) (filter (\<lambda>q. run_id q \<noteq> x) runs) = find (\<lambda>r. run_id r = rid) runs"
  by (induction runs) auto

lemma lineage_filter:
  "x \<notin> run_id ` set (lineage runs rid) \<Longrightarrow>
   lineage (filter (\<lambda>q. run_id q \<noteq> x) runs) rid = lineage runs rid"
proof (induction runs rid rule: lineage.induct)
  case (1 runs rid)
  show ?case
  proof (cases "find (\<lambda>r. run_id r = rid) runs")
    case None
    then have "find (\<lambda>r. run_id r = rid) (filter (\<lambda>q. run_id q \<noteq> x) runs) = None"
      by (simp add: find_None_iff_all)
    then show ?thesis using None by (simp add: lineage.simps)
  next
    case (Some q)
    then have q: "run_id q = rid" by (auto dest: find_SomeD)
    have "x \<noteq> rid" using "1.prems" Some q by (subst (asm) lineage.simps) auto
    then have f: "find (\<lambda>r. run_id r = rid) (filter (\<lambda>q. run_id q \<noteq> x) runs) = Some q"
      using Some by (simp add: find_filter_other)
    have comm: "filter (\<lambda>q. run_id q \<noteq> rid) (filter (\<lambda>q. run_id q \<noteq> x) runs)
        = filter (\<lambda>q. run_id q \<noteq> x) (filter (\<lambda>q. run_id q \<noteq> rid) runs)"
      by (simp add: conj_commute)
    show ?thesis
    proof (cases "run_replaces_run_id q")
      case None
      then show ?thesis using Some f by (subst (1 2) lineage.simps) simp
    next
      case (Some p)
      have "x \<notin> run_id ` set (lineage (filter (\<lambda>q. run_id q \<noteq> rid) runs) p)"
        using "1.prems" \<open>find _ runs = Some q\<close> Some by (subst (asm) lineage.simps) simp
      from "1.IH" [OF \<open>find _ runs = Some q\<close> Some this] show ?thesis
        using f \<open>find _ runs = Some q\<close> Some by (subst (1 2) lineage.simps) (simp only: comm option.case)
    qed
  qed
qed

text \<open>
  A replacement acts under the key of the run it replaces. If run \<open>rid\<close> replaces \<open>p\<close>, the
  chain of \<open>p\<close> ends in an original run and does not run through \<open>rid\<close>, then both have the same
  root, hence the same idempotency key for the same action and arguments.
\<close>

theorem replacement_same_key:
  assumes "find_run w rid = Some r" and "run_replaces_run_id r = Some p"
    and "rid \<notin> run_id ` set (lineage (w_runs w) p)"
    and "\<exists>q \<in> set (lineage (w_runs w) p). run_replaces_run_id q = None"
  shows "replacementRootRunId w rid = replacementRootRunId w p
     \<and> idempotencyKey sha256 fmt (replacementRootRunId w rid) action args None
       = idempotencyKey sha256 fmt (replacementRootRunId w p) action args None"
proof -
  have "lineage (w_runs w) rid = r # lineage (w_runs w) p"
    using assms(1,2) lineage_filter [OF assms(3)]
    by (subst lineage.simps) (simp add: find_run_def)
  then have "find (\<lambda>r. run_replaces_run_id r = None) (lineage (w_runs w) rid) =
      find (\<lambda>r. run_replaces_run_id r = None) (lineage (w_runs w) p)"
    using assms(2) by simp
  moreover have "find (\<lambda>r. run_replaces_run_id r = None) (lineage (w_runs w) p) \<noteq> None"
    using assms(4) by (auto simp: find_None_iff_all)
  ultimately show ?thesis by (auto simp: replacementRootRunId_def)
qed

lemma sort_key_hd: "sort_key f xs = y # ys \<Longrightarrow> y \<in> set xs \<and> (\<forall>x \<in> set xs. f y \<le> f x)"
proof -
  assume eq: "sort_key f xs = y # ys"
  have "sorted (map f (sort_key f xs))" by simp
  moreover have "set (sort_key f xs) = set xs" by simp
  ultimately show ?thesis unfolding eq by auto
qed

lemma findReceiptByLineageKey_Some:
  assumes "findReceiptByLineageKey w rid key = Some r"
  shows "r \<in> set (w_receipts w)" and "rc_idempotency_key r = key"
    and "rc_run_id r \<in> run_id ` set (lineage (w_runs w) rid)"
    and "\<And>q. q \<in> set (w_receipts w) \<Longrightarrow> rc_idempotency_key q = key \<Longrightarrow>
           rc_run_id q \<in> run_id ` set (lineage (w_runs w) rid) \<Longrightarrow>
           receipt_rank (rc_status r) \<le> receipt_rank (rc_status q)"
proof -
  let ?xs = "filter (\<lambda>r. rc_idempotency_key r = key
                          \<and> rc_run_id r \<in> set (map run_id (lineage (w_runs w) rid))) (w_receipts w)"
  obtain ys where "sort_key (\<lambda>r. (receipt_rank (rc_status r), - rc_started_at r)) ?xs = r # ys"
    using assms by (auto simp: findReceiptByLineageKey_def split: list.splits)
  from sort_key_hd [OF this] have r: "r \<in> set ?xs"
    and first: "\<forall>x \<in> set ?xs. (receipt_rank (rc_status r), - rc_started_at r)
                           \<le> (receipt_rank (rc_status x), - rc_started_at x)" by blast+
  show "r \<in> set (w_receipts w)" "rc_idempotency_key r = key" "rc_run_id r \<in> run_id ` set (lineage (w_runs w) rid)"
    using r by auto
  show "receipt_rank (rc_status r) \<le> receipt_rank (rc_status q)"
    if "q \<in> set (w_receipts w)" "rc_idempotency_key q = key"
      "rc_run_id q \<in> run_id ` set (lineage (w_runs w) rid)" for q
    using first that by (auto simp: less_eq_prod_def)
qed

lemma findReceiptByLineageKey_None:
  "findReceiptByLineageKey w rid key = None \<longleftrightarrow>
     (\<forall>q \<in> set (w_receipts w). rc_idempotency_key q = key \<longrightarrow>
        rc_run_id q \<notin> run_id ` set (lineage (w_runs w) rid))"
proof -
  let ?xs = "filter (\<lambda>r. rc_idempotency_key r = key
                          \<and> rc_run_id r \<in> set (map run_id (lineage (w_runs w) rid))) (w_receipts w)"
  have "length (sort_key f xs) = 0 \<longleftrightarrow> length xs = 0"
    for f :: "receipt_row \<Rightarrow> int \<times> int" and xs by (simp only: length_sort)
  then have "sort_key f ?xs = [] \<longleftrightarrow> ?xs = []" for f :: "receipt_row \<Rightarrow> int \<times> int"
    by (simp only: length_0_conv)
  moreover have "findReceiptByLineageKey w rid key = None \<longleftrightarrow>
      sort_key (\<lambda>r. (receipt_rank (rc_status r), - rc_started_at r)) ?xs = []"
    unfolding findReceiptByLineageKey_def by (simp split: list.split)
  ultimately have "findReceiptByLineageKey w rid key = None \<longleftrightarrow> ?xs = []" by simp
  then show ?thesis by (simp add: filter_empty_conv)
qed

section \<open>Examples\<close>

definition demo_receipt :: receipt_row where
  "demo_receipt =
     \<lparr>rc_id = ''rcpt_1'', rc_run_id = ''run_1'', rc_attempt_id = ''att_1'', rc_step = 3,
      rc_semantic_action = ''http.post'', rc_request_digest = ''d'', rc_idempotency_key = ''k'',
      rc_approval_id = None, rc_status = RS_PENDING, rc_external_txn_id = None,
      rc_result_digest = None, rc_result = None, rc_reversibility = ''irreversible'',
      rc_started_at = 500, rc_completed_at = None\<rparr>"

definition demo_committed :: receipt_row where
  "demo_committed = demo_receipt\<lparr>rc_status := RS_COMMITTED, rc_result := Some (JObj [])\<rparr>"

theorem receipts_settle_once_witness:
  "\<exists>w'. receipt_step\<^sup>*\<^sup>* ((demo_world RUNNING)\<lparr>w_receipts := [demo_committed]\<rparr>) w'
     \<and> demo_committed \<in> set (w_receipts w')"
proof -
  let ?w = "(demo_world RUNNING)\<lparr>w_receipts := [demo_committed]\<rparr>"
  have "\<exists>w'. failReceipt ''rcpt_1'' Failed ?w = Inr ((), w')" by (simp add: failReceipt_def tx_eval)
  then obtain w' where steps: "receipt_step\<^sup>*\<^sup>* ?w w'" using receipt_step.fail r_into_rtranclp by metis
  have "receipts_ok ?w" by (simp add: receipts_ok_def)
  from receipts_settle_once [OF steps this] steps show ?thesis
    by (auto simp: demo_committed_def demo_receipt_def)
qed

theorem replacement_same_key_witness:
  "replacementRootRunId ((demo_world FAILED)\<lparr>w_runs := [demo_run FAILED,
      (demo_run QUEUED)\<lparr>run_id := ''run_2'', run_replaces_run_id := Some ''run_1''\<rparr>]\<rparr>) ''run_2''
   = replacementRootRunId ((demo_world FAILED)\<lparr>w_runs := [demo_run FAILED,
      (demo_run QUEUED)\<lparr>run_id := ''run_2'', run_replaces_run_id := Some ''run_1''\<rparr>]\<rparr>) ''run_1''"
proof (rule conjunct1 [OF replacement_same_key])
  let ?r = "(demo_run QUEUED)\<lparr>run_id := ''run_2'', run_replaces_run_id := Some ''run_1''\<rparr>"
  let ?w = "(demo_world FAILED)\<lparr>w_runs := [demo_run FAILED, ?r]\<rparr>"
  show "find_run ?w ''run_2'' = Some ?r" by (simp add: find_run_def)
  show "run_replaces_run_id ?r = Some ''run_1''" by simp
  have "lineage (w_runs ?w) ''run_1'' = [demo_run FAILED]"
    by (subst lineage.simps) (simp add: demo_run_def)
  then show "''run_2'' \<notin> run_id ` set (lineage (w_runs ?w) ''run_1'')"
    "\<exists>q \<in> set (lineage (w_runs ?w) ''run_1''). run_replaces_run_id q = None"
    by (simp_all add: demo_run_def)
qed

end
