(* ===== verification/Governed_Action.thy ===== *)
theory Governed_Action
  imports Grants Approvals Receipts
begin

text \<open>
  The execution contract of a governed connector action, \<^verbatim>\<open>src/harness/governedAction.ts\<close>.
  An execution is not one transaction: it alternates database transactions with calls to
  providers, and other workers commit in between. A process is therefore a function on a state
  that holds the database, the environment's interference before each database access, and the
  trace of accesses and external calls. A throw does not undo what the process has committed.

  What the connectors and the credential broker do is a parameter: the result of a call at a
  given point of the execution. The advisory lock on the idempotency key is the fence under
  which \<open>executeGovernedActionFenced\<close> runs alone for its key.
\<close>

section \<open>Specifications and results\<close>

datatype classification = Action_read | Action_mutation
datatype recovery = Retry_with_idempotency | Reconcile

datatype reconcile_result =
    Rec_committed "(string \<times> json) list" "string option" "(string \<times> json) list"
  | Rec_not_found
  | Rec_unknown
  | Rec_throws bool err            \<comment> \<open>whether the signal is aborted, and the error rethrown then\<close>

datatype dispatch_result =
    Disp_ok "(string \<times> json) list" "string option" "(string \<times> json) list"
  | Disp_throws err

datatype credential_result = Cred_resolved "(string \<times> string) option" | Cred_throws

text \<open>
  What a dispatch is given: the idempotency key, the credential, and the resource patterns of the usable
  grants, which the closures of a specification keep from the call of \<open>validate\<close>.
\<close>

record governed_input =
  di_key :: string
  di_credential :: "(string \<times> string) option"
  di_patterns :: "string list"

record action_spec =
  sp_connector :: string
  sp_purpose :: "string option"
  sp_action :: string
  sp_resource :: string
  sp_args :: "(string \<times> json) list"
  sp_classification :: classification
  sp_requireGrant :: bool
  sp_preferExact :: bool
  sp_recovery :: recovery
  sp_audit :: "(string \<times> json) list"
  sp_validate :: "(bool \<Rightarrow> string list \<Rightarrow> string list \<Rightarrow> string option) option"   \<comment> \<open>the reason of a refusal\<close>
  sp_beforeDispatch :: "err option"                                            \<comment> \<open>the error it throws\<close>
  sp_afterDispatch :: "err option"
  sp_afterCommit :: "err option"
  sp_reconcile :: "(string \<Rightarrow> nat \<Rightarrow> reconcile_result) option"
  sp_dispatch :: "governed_input \<Rightarrow> nat \<Rightarrow> dispatch_result"

record action_ctx =
  cx_run :: string
  cx_attempt :: string
  cx_step :: int
  cx_credentials :: "(nat \<Rightarrow> credential_result) option"
  cx_sha256 :: "string \<Rightarrow> string"
  cx_fmt :: "rat \<Rightarrow> string"

datatype action_result =
    Completed "(string \<times> json) list" bool
  | Suspend_approval string
  | Denied string
  | Reconciliation_required string

section \<open>Processes\<close>

datatype trace_event =
    Db world                        \<comment> \<open>the database after an access\<close>
  | Call_reconcile string reconcile_result
  | Call_credential string credential_result
  | Call_dispatch governed_input dispatch_result
  | Call_provider string            \<comment> \<open>a call outside governed actions, by name\<close>

record proc_state =
  ps_world :: world
  ps_env :: "nat \<Rightarrow> world \<Rightarrow> world"
  ps_tick :: nat
  ps_trace :: "trace_event list"

type_synonym 'a proc = "proc_state \<Rightarrow> (err + 'a) \<times> proc_state"

definition returnP :: "'a \<Rightarrow> 'a proc" where
  "returnP x = (\<lambda>g. (Inr x, g))"

definition throwP :: "err \<Rightarrow> 'a proc" where
  "throwP e = (\<lambda>g. (Inl e, g))"

definition bindP :: "'a proc \<Rightarrow> ('a \<Rightarrow> 'b proc) \<Rightarrow> 'b proc" where
  "bindP m f = (\<lambda>g. case m g of (Inl e, g') \<Rightarrow> (Inl e, g') | (Inr x, g') \<Rightarrow> f x g')"

definition thenP :: "'a proc \<Rightarrow> 'b proc \<Rightarrow> 'b proc" where
  "thenP m n = bindP m (\<lambda>_. n)"

text \<open>\<open>catchP m h\<close> is \<^verbatim>\<open>try { m } catch (error) { h(error) }\<close>.\<close>

definition catchP :: "'a proc \<Rightarrow> (err \<Rightarrow> 'a proc) \<Rightarrow> 'a proc" where
  "catchP m h = (\<lambda>g. case m g of (Inl e, g') \<Rightarrow> h e g' | (Inr x, g') \<Rightarrow> (Inr x, g'))"

definition maybe_throw :: "err option \<Rightarrow> unit proc" where
  "maybe_throw e = (case e of None \<Rightarrow> returnP () | Some x \<Rightarrow> throwP x)"

text \<open>One transaction: the environment moves, then the transaction commits or rolls back.\<close>

definition withTransaction :: "'a txn \<Rightarrow> 'a proc" where
  "withTransaction m = (\<lambda>g.
     let w = ps_env g (ps_tick g) (ps_world g); res = commit m w
     in (fst res, g\<lparr>ps_world := snd res, ps_tick := Suc (ps_tick g),
                    ps_trace := ps_trace g @ [Db (snd res)]\<rparr>))"

text \<open>A query outside a transaction.\<close>

definition query :: "(world \<Rightarrow> 'a) \<Rightarrow> 'a proc" where
  "query f = withTransaction (getsT f)"

definition external :: "(nat \<Rightarrow> 'a) \<Rightarrow> ('a \<Rightarrow> trace_event) \<Rightarrow> 'a proc" where
  "external f ev = (\<lambda>g. let x = f (ps_tick g)
     in (Inr x, g\<lparr>ps_tick := Suc (ps_tick g), ps_trace := ps_trace g @ [ev x]\<rparr>))"

section \<open>Audit helpers\<close>

definition riskFor :: "classification \<Rightarrow> risk" where
  "riskFor c = (if c = Action_read then Risk_read else Risk_external_write)"

definition actionAudit :: "action_spec \<Rightarrow> (string \<times> json) list" where
  "actionAudit spec =
     [(''connector'', JStr (sp_connector spec)), (''action'', JStr (sp_action spec)),
      (''resource'', JStr (sp_resource spec)),
      (''classification'', JStr (case sp_classification spec of
          Action_read \<Rightarrow> ''read'' | Action_mutation \<Rightarrow> ''mutation''))]"

definition append_audit ::
    "action_ctx \<Rightarrow> action_spec \<Rightarrow> event_type \<Rightarrow> (string \<times> json) list \<Rightarrow> unit txn" where
  "append_audit ctx spec type middle =
     thenT (appendEvent (cx_run ctx) type
              (jspread (jspread (sp_audit spec) middle) (actionAudit spec))
              (Some (cx_attempt ctx)) no_patch)
           (returnT ())"

definition auditDenial :: "action_ctx \<Rightarrow> action_spec \<Rightarrow> string \<Rightarrow> string \<Rightarrow> unit proc" where
  "auditDenial ctx spec reason stage =
     withTransaction (append_audit ctx spec ActionDenied
       [(''stage'', JStr stage), (''reason'', JStr reason)])"

definition is_current_owner :: "action_ctx \<Rightarrow> world \<Rightarrow> bool" where
  "is_current_owner ctx w =
     exists_row (\<lambda>r. run_id r = cx_run ctx \<and> run_status r = RUNNING
         \<and> exists_row (\<lambda>a. att_id a = cx_attempt ctx \<and> att_run_id a = run_id r
              \<and> run_current_attempt_id r = Some (att_id a)
              \<and> att_state a = AS_ACTIVE \<and> w_now w < att_lease_expires_at a) (w_attempts w))
       (w_runs w)"

definition assertCurrentActionOwner :: "action_ctx \<Rightarrow> unit txn" where
  "assertCurrentActionOwner ctx =
     bindT (getsT (is_current_owner ctx)) (\<lambda>b.
       ensureT b (GenericError ''governed action attempt is no longer current''))"

definition markReconciliationRequired ::
    "action_ctx \<Rightarrow> action_spec \<Rightarrow> string \<Rightarrow> string \<Rightarrow> action_result proc" where
  "markReconciliationRequired ctx spec receiptId reason =
     thenP (withTransaction
              (thenT (assertCurrentActionOwner ctx)
              (thenT (failReceipt receiptId Needs_reconciliation)
                     (append_audit ctx spec ToolInvocationFailed
                        [(''receiptId'', JStr receiptId), (''reason'', JStr reason),
                         (''reconciliationRequired'', JBool True)]))))
           (returnP (Reconciliation_required reason))"

definition auditRetryableFailure ::
    "action_ctx \<Rightarrow> action_spec \<Rightarrow> string \<Rightarrow> string \<Rightarrow> unit proc" where
  "auditRetryableFailure ctx spec receiptId stage =
     withTransaction (append_audit ctx spec ToolInvocationFailed
       [(''receiptId'', JStr receiptId), (''stage'', JStr stage),
        (''retryable'', JBool True), (''reconciliationRequired'', JBool False)])"

definition failUndispatchedReceiptAndDeny ::
    "action_ctx \<Rightarrow> action_spec \<Rightarrow> string \<Rightarrow> string \<Rightarrow> string \<Rightarrow> action_result proc" where
  "failUndispatchedReceiptAndDeny ctx spec receiptId reason stage =
     thenP (withTransaction
              (thenT (assertCurrentActionOwner ctx)
              (thenT (failReceipt receiptId Failed)
                     (append_audit ctx spec ActionDenied
                        [(''stage'', JStr stage), (''reason'', JStr reason)]))))
           (returnP (Denied reason))"

definition to_waiting_approval :: "action_ctx \<Rightarrow> action_spec \<Rightarrow> string \<Rightarrow> transition_options" where
  "to_waiting_approval ctx spec approvalId =
     \<lparr>to_expectFrom = [RUNNING], to_to = WAITING_APPROVAL, to_type = ApprovalRequested,
      to_payload = [(''approvalId'', JStr approvalId), (''action'', JStr (sp_action spec)),
                    (''resource'', JStr (sp_resource spec))],
      to_attempt = Some (cx_attempt ctx), to_reason = None, to_patch = no_patch\<rparr>"

definition requestFreshApproval ::
    "action_ctx \<Rightarrow> action_spec \<Rightarrow> string \<Rightarrow> string option \<Rightarrow> action_result proc" where
  "requestFreshApproval ctx spec key receiptId =
     bindP (withTransaction
              (thenT (assertCurrentActionOwner ctx)
              (bindT (insertApproval (cx_run ctx) (cx_attempt ctx)
                        \<lparr>sa_action = sp_action spec, sa_resource = sp_resource spec,
                         sa_arguments = jset ''__idemKey'' (JStr key) (sp_args spec),
                         sa_risk = riskFor (sp_classification spec)\<rparr>) (\<lambda>row.
               thenT (transitionRun (cx_run ctx) (to_waiting_approval ctx spec (ap_id row)))
              (thenT (case receiptId of
                        None \<Rightarrow> returnT ()
                      | Some rid \<Rightarrow> setPendingReceiptApproval rid (ap_id row))
                     (returnT row))))))
       (\<lambda>created. returnP (Suspend_approval (ap_id created)))"

section \<open>The fenced execution, phase by phase\<close>

definition receipt_status_name :: "receipt_status \<Rightarrow> string" where
  "receipt_status_name st =
     (case st of RS_PENDING \<Rightarrow> ''PENDING'' | RS_COMMITTED \<Rightarrow> ''COMMITTED'' | RS_FAILED \<Rightarrow> ''FAILED''
      | RS_NEEDS_RECONCILIATION \<Rightarrow> ''NEEDS_RECONCILIATION'')"

definition result_value :: "receipt_row \<Rightarrow> (string \<times> json) list" where
  "result_value r = (case rc_result r of Some (JObj kvs) \<Rightarrow> kvs | _ \<Rightarrow> [])"

text \<open>The denial that closes a receipt known to be undispatched, and is an event only otherwise.\<close>

definition deny ::
    "action_ctx \<Rightarrow> action_spec \<Rightarrow> string option \<Rightarrow> string \<Rightarrow> string \<Rightarrow> action_result proc" where
  "deny ctx spec undispatched reason stage =
     (case undispatched of
        Some receiptId \<Rightarrow> failUndispatchedReceiptAndDeny ctx spec receiptId reason stage
      | None \<Rightarrow> thenP (auditDenial ctx spec reason stage) (returnP (Denied reason)))"

definition commit_action ::
    "action_ctx \<Rightarrow> action_spec \<Rightarrow> string \<Rightarrow> (string \<times> json) list \<Rightarrow> string option \<Rightarrow>
     (string \<times> json) list \<Rightarrow> bool \<Rightarrow> unit txn" where
  "commit_action ctx spec receiptId value ext audit reconciled =
     thenT (assertCurrentActionOwner ctx)
    (thenT (commitReceipt (cx_sha256 ctx) (cx_fmt ctx) receiptId ext value)
           (append_audit ctx spec ToolInvocationCommitted
              (jspread audit
                 ((''receiptId'', JStr receiptId)
                  # (if reconciled then [(''reconciled'', JBool True)] else [])))))"

definition uncertain :: "action_spec \<Rightarrow> bool" where
  "uncertain spec \<longleftrightarrow> sp_recovery spec = Reconcile \<and> sp_reconcile spec = None"

text \<open>Dispatch, then commit the receipt; both failures are audited and rethrown.\<close>

definition fenced_dispatch ::
    "action_ctx \<Rightarrow> action_spec \<Rightarrow> governed_input \<Rightarrow> string \<Rightarrow> action_result proc" where
  "fenced_dispatch ctx spec inp receiptId =
     bindP (external (sp_dispatch spec inp) (Call_dispatch inp)) (\<lambda>dispatched.
     case dispatched of
       Disp_throws e \<Rightarrow>
         if uncertain spec
         then thenP (markReconciliationRequired ctx spec receiptId
                       ''dispatch failed with an uncertain external outcome'') (throwP e)
         else thenP (auditRetryableFailure ctx spec receiptId ''dispatch'') (throwP e)
     | Disp_ok value ext audit \<Rightarrow>
         thenP (maybe_throw (sp_afterDispatch spec))
        (thenP (catchP (withTransaction (commit_action ctx spec receiptId value ext audit False))
                  (\<lambda>e. if uncertain spec
                       then thenP (markReconciliationRequired ctx spec receiptId
                              ''local receipt commit failed after remote success'') (throwP e)
                       else thenP (auditRetryableFailure ctx spec receiptId ''receipt_commit'') (throwP e)))
        (thenP (maybe_throw (sp_afterCommit spec))
               (returnP (Completed value False)))))"

definition lock_approval :: "action_ctx \<Rightarrow> action_spec \<Rightarrow> string \<Rightarrow> string \<Rightarrow> approval_row option proc" where
  "lock_approval ctx spec key approvalId =
     withTransaction (lockApprovalForExecution approvalId (cx_run ctx) (sp_action spec) (sp_resource spec) key)"

definition decider :: "approval_row \<Rightarrow> string" where
  "decider a = (case ap_decision_by a of None \<Rightarrow> ''a human'' | Some d \<Rightarrow> d)"

text \<open>
  The last checks before the dispatch: the owner, the grant, the approval, and the owner again.
  \<open>undispatched\<close> is the receipt that is known to have had no effect, if there is one.
\<close>

definition fenced_boundary ::
    "action_ctx \<Rightarrow> action_spec \<Rightarrow> governed_input \<Rightarrow> grant_row option \<Rightarrow> string option \<Rightarrow> string option \<Rightarrow>
     string \<Rightarrow> action_result proc" where
  "fenced_boundary ctx spec inp usable approvalId undispatched receiptId =
     thenP (withTransaction (assertCurrentActionOwner ctx))
    (thenP (maybe_throw (sp_beforeDispatch spec))
    (bindP (case usable of
              None \<Rightarrow> returnP True
            | Some g \<Rightarrow> query (\<lambda>w. revalidateGrantForDispatch w (gr_id g) (cx_run ctx) (sp_action spec) (sp_resource spec)))
       (\<lambda>stillAuthorized.
     if \<not> stillAuthorized
     then deny ctx spec undispatched (''capability grant expired before dispatch for '' @ sp_action spec) ''policy''
     else
       let proceed = thenP (withTransaction (assertCurrentActionOwner ctx))
                           (fenced_dispatch ctx spec inp receiptId)
       in case (usable, approvalId) of
            (Some g, Some aid) \<Rightarrow>
              if gr_requires_approval g
              then bindP (lock_approval ctx spec (di_key inp) aid) (\<lambda>approval.
                case approval of
                  None \<Rightarrow> deny ctx spec undispatched (''approval no longer authorizes '' @ sp_action spec) ''approval''
                | Some a \<Rightarrow>
                    if ap_status a = AP_EXPIRED then requestFreshApproval ctx spec (di_key inp) (Some receiptId)
                    else if ap_status a = AP_APPROVED then proceed
                    else deny ctx spec undispatched
                           (if ap_status a = AP_DENIED then sp_action spec @ '' was denied by '' @ decider a
                            else ''approval no longer authorizes '' @ sp_action spec) ''approval'')
              else proceed
          | _ \<Rightarrow> proceed)))"

text \<open>The write-ahead receipt: one transaction consumes the grant and inserts the pending row.\<close>

definition open_receipt ::
    "action_ctx \<Rightarrow> action_spec \<Rightarrow> string \<Rightarrow> grant_row option \<Rightarrow> string option \<Rightarrow> receipt_row txn" where
  "open_receipt ctx spec key usable approvalId =
     thenT (case usable of
              None \<Rightarrow> returnT ()
            | Some g \<Rightarrow>
                bindT (authorizeAndConsume (cx_run ctx) (sp_action spec) (sp_resource spec) (Some (gr_id g)))
                  (\<lambda>authorized. case authorized of
                     GrantDenied reason \<Rightarrow> throwT (GenericError (''capability disappeared: '' @ reason))
                   | GrantAllowed _ _ \<Rightarrow> returnT ()))
    (bindT (insertPendingReceipt (cx_sha256 ctx) (cx_fmt ctx)
              \<lparr>ri_runId = cx_run ctx, ri_attemptId = cx_attempt ctx, ri_step = cx_step ctx,
               ri_action = sp_action spec, ri_args = sp_args spec, ri_idempotencyKey = key,
               ri_approvalId = approvalId,
               ri_reversibility = Some (case sp_classification spec of
                  Action_read \<Rightarrow> ''reversible'' | Action_mutation \<Rightarrow> ''irreversible'')\<rparr>) (\<lambda>row.
     thenT (append_audit ctx spec ToolInvocationStarted [(''receiptId'', JStr (rc_id row))])
           (returnT row)))"

definition fenced_receipt ::
    "action_ctx \<Rightarrow> action_spec \<Rightarrow> governed_input \<Rightarrow> receipt_row option \<Rightarrow> bool \<Rightarrow> grant_row option \<Rightarrow>
     string option \<Rightarrow> action_result proc" where
  "fenced_receipt ctx spec inp pending knownAbsent usable approvalId =
     bindP (case pending of
              Some r \<Rightarrow> returnP r
            | None \<Rightarrow> withTransaction (open_receipt ctx spec (di_key inp) usable approvalId)) (\<lambda>receipt.
     fenced_boundary ctx spec inp usable approvalId
       (if pending = None \<or> knownAbsent then Some (rc_id receipt) else None) (rc_id receipt))"

text \<open>
  Credential resolution, and the approval again after it, since the broker may be slow.
\<close>

definition fenced_credential ::
    "action_ctx \<Rightarrow> action_spec \<Rightarrow> string \<Rightarrow> string list \<Rightarrow> receipt_row option \<Rightarrow> bool \<Rightarrow> grant_row option \<Rightarrow>
     string option \<Rightarrow> action_result proc" where
  "fenced_credential ctx spec key patterns pending knownAbsent usable approvalId =
     bindP (case cx_credentials ctx of
              None \<Rightarrow> returnP (Cred_resolved None)
            | Some f \<Rightarrow> external f (Call_credential key)) (\<lambda>credential.
     case credential of
       Cred_throws \<Rightarrow>
         thenP (withTransaction (append_audit ctx spec ToolInvocationFailed
                  [(''stage'', JStr ''credential''), (''reconciliationRequired'', JBool False)]))
               (throwP (GenericError (''credential resolution failed for '' @ sp_action spec)))
     | Cred_resolved resolved \<Rightarrow>
         let proceed = fenced_receipt ctx spec
               \<lparr>di_key = key, di_credential = resolved, di_patterns = patterns\<rparr> pending knownAbsent usable approvalId
         in case (usable, approvalId) of
              (Some g, Some aid) \<Rightarrow>
                if gr_requires_approval g
                then bindP (lock_approval ctx spec key aid) (\<lambda>approval.
                  case approval of
                    Some a \<Rightarrow>
                      if ap_status a = AP_APPROVED then proceed
                      else if ap_status a = AP_EXPIRED \<and> pending \<noteq> None
                      then requestFreshApproval ctx spec key (map_option rc_id pending)
                      else deny ctx spec (if knownAbsent then map_option rc_id pending else None)
                             (if ap_status a = AP_EXPIRED then ''approval expired for '' @ sp_action spec
                              else ''approval no longer authorizes '' @ sp_action spec) ''approval''
                  | None \<Rightarrow>
                      deny ctx spec (if knownAbsent then map_option rc_id pending else None)
                        (''approval no longer authorizes '' @ sp_action spec) ''approval'')
                else proceed
            | _ \<Rightarrow> proceed)"

definition latest_approval :: "action_ctx \<Rightarrow> string \<Rightarrow> world \<Rightarrow> string option" where
  "latest_approval ctx key w =
     map_option ap_id
       (find (\<lambda>a. idem_key_of (ap_action a) = Some key) (rev (listApprovals w (cx_run ctx) None)))"

definition fenced_approval ::
    "action_ctx \<Rightarrow> action_spec \<Rightarrow> string \<Rightarrow> string list \<Rightarrow> receipt_row option \<Rightarrow> bool \<Rightarrow> grant_row option \<Rightarrow>
     action_result proc" where
  "fenced_approval ctx spec key patterns pending knownAbsent usable =
     (let recorded = (case pending of None \<Rightarrow> None | Some r \<Rightarrow> rc_approval_id r) in
      if \<not> (case usable of None \<Rightarrow> False | Some g \<Rightarrow> gr_requires_approval g)
      then fenced_credential ctx spec key patterns pending knownAbsent usable recorded
      else
        bindP (case recorded of Some aid \<Rightarrow> returnP (Some aid) | None \<Rightarrow> query (latest_approval ctx key))
          (\<lambda>approvalId.
        case approvalId of
          None \<Rightarrow> requestFreshApproval ctx spec key (map_option rc_id pending)
        | Some aid \<Rightarrow>
            bindP (lock_approval ctx spec key aid) (\<lambda>approval.
            case approval of
              None \<Rightarrow>
                if pending \<noteq> None then requestFreshApproval ctx spec key (map_option rc_id pending)
                else deny ctx spec None (''approval no longer authorizes '' @ sp_action spec) ''approval''
            | Some a \<Rightarrow>
                if ap_status a = AP_DENIED
                then deny ctx spec (if knownAbsent then map_option rc_id pending else None)
                       (sp_action spec @ '' was denied by '' @ decider a) ''approval''
                else if ap_status a = AP_EXPIRED
                then (if pending \<noteq> None then requestFreshApproval ctx spec key (map_option rc_id pending)
                      else deny ctx spec None (''approval expired for '' @ sp_action spec) ''approval'')
                else if ap_status a \<noteq> AP_APPROVED
                then returnP (Denied ''approval still pending'')
                else fenced_credential ctx spec key patterns pending knownAbsent usable (Some aid))))"

definition declared_grants :: "action_ctx \<Rightarrow> action_spec \<Rightarrow> world \<Rightarrow> (grant_row \<times> bool) list" where
  "declared_grants ctx spec w =
     filter (\<lambda>(g, _). patternMatches (gr_action_pattern g) (sp_action spec)
                      \<and> patternMatches (gr_resource_pattern g) (sp_resource spec))
       (listGrantsWithEligibility w (cx_run ctx))"

definition usable_grants :: "action_spec \<Rightarrow> bool \<Rightarrow> (grant_row \<times> bool) list \<Rightarrow> grant_row list" where
  "usable_grants spec pendingRecovery declared =
     (let usable = map fst (filter (\<lambda>(g, unexpired). unexpired \<and> (pendingRecovery \<or> calls_left g)) declared)
      in if sp_preferExact spec
         then sort_key (\<lambda>g. if gr_resource_pattern g = sp_resource spec then 0 else 1 :: nat) usable
         else usable)"

definition fenced_policy ::
    "action_ctx \<Rightarrow> action_spec \<Rightarrow> string \<Rightarrow> receipt_row option \<Rightarrow> bool \<Rightarrow> action_result proc" where
  "fenced_policy ctx spec key pending knownAbsent =
     bindP (query (declared_grants ctx spec)) (\<lambda>declared.
     let usable = usable_grants spec (pending \<noteq> None) declared;
         usableGrant = (case usable of [] \<Rightarrow> None | g # _ \<Rightarrow> Some g);
         undispatched = (if knownAbsent then map_option rc_id pending else None)
     in case (case sp_validate spec of
                None \<Rightarrow> None
              | Some v \<Rightarrow> v (declared \<noteq> []) (map (\<lambda>(g, _). gr_resource_pattern g) declared)
                            (map gr_resource_pattern usable)) of
          Some reason \<Rightarrow> deny ctx spec undispatched reason ''validation''
        | None \<Rightarrow>
            if sp_requireGrant spec \<and> usableGrant = None
            then (let reason = ''no capability grant allows '' @ sp_action spec @ '' on '' @ sp_resource spec
                  in case pending of
                       Some r \<Rightarrow>
                         if knownAbsent then failUndispatchedReceiptAndDeny ctx spec (rc_id r) reason ''policy''
                         else markReconciliationRequired ctx spec (rc_id r) reason
                     | None \<Rightarrow> deny ctx spec None reason ''policy'')
            else fenced_approval ctx spec key (map gr_resource_pattern usable) pending knownAbsent usableGrant)"

text \<open>A pending receipt of an earlier execution: its outcome is resolved before any new dispatch.\<close>

definition fenced_recovery ::
    "action_ctx \<Rightarrow> action_spec \<Rightarrow> string \<Rightarrow> receipt_row \<Rightarrow> action_result proc" where
  "fenced_recovery ctx spec key receipt =
     (if sp_recovery spec \<noteq> Reconcile then fenced_policy ctx spec key (Some receipt) False
      else case sp_reconcile spec of
        None \<Rightarrow> markReconciliationRequired ctx spec (rc_id receipt)
                  ''prior action outcome requires manual reconciliation''
      | Some f \<Rightarrow>
          bindP (external (f key) (Call_reconcile key)) (\<lambda>reconciled.
          case reconciled of
            Rec_throws aborted e \<Rightarrow>
              if aborted then throwP e
              else markReconciliationRequired ctx spec (rc_id receipt) ''provider reconciliation failed''
          | Rec_committed value ext audit \<Rightarrow>
              thenP (withTransaction (commit_action ctx spec (rc_id receipt) value ext audit True))
                    (returnP (Completed value True))
          | Rec_unknown \<Rightarrow>
              markReconciliationRequired ctx spec (rc_id receipt)
                ''provider could not reconcile prior action outcome''
          | Rec_not_found \<Rightarrow> fenced_policy ctx spec key (Some receipt) True))"

definition executeGovernedActionFenced ::
    "action_ctx \<Rightarrow> action_spec \<Rightarrow> string \<Rightarrow> action_result proc" where
  "executeGovernedActionFenced ctx spec key =
     thenP (withTransaction (assertCurrentActionOwner ctx))
    (bindP (query (\<lambda>w. findReceiptByLineageKey w (cx_run ctx) key)) (\<lambda>existing.
     case existing of
       None \<Rightarrow> fenced_policy ctx spec key None False
     | Some r \<Rightarrow>
         if rc_status r = RS_COMMITTED then returnP (Completed (result_value r) True)
         else if rc_status r \<noteq> RS_PENDING
         then returnP (Reconciliation_required
                (''prior action is '' @ toLowerCase (receipt_status_name (rc_status r))))
         else fenced_recovery ctx spec key r))"

definition executeGovernedAction :: "bool \<Rightarrow> action_ctx \<Rightarrow> action_spec \<Rightarrow> action_result proc" where
  "executeGovernedAction aborted ctx spec =
     bindP (query (\<lambda>w. replacementRootRunId w (cx_run ctx))) (\<lambda>scopeRunId.
     let key = idempotencyKey (cx_sha256 ctx) (cx_fmt ctx) scopeRunId (sp_action spec) (sp_args spec) None
     in if aborted then throwP (GenericError ''governed action cancelled before execution'')
        else executeGovernedActionFenced ctx spec key)"

end
