(* ===== verification/Governed_Safety.thy ===== *)
theory Governed_Safety
  imports Governed_Action
begin

text \<open>
  What \<open>executeGovernedAction\<close> guarantees, whatever the environment does between its database
  accesses and whatever the providers return: a dispatch happens at most once per execution,
  after the write-ahead receipt, under a grant and an approval that were checked at the
  boundary, and never blindly after an earlier dispatch of unknown outcome.
\<close>

section \<open>Trace specifications\<close>

definition tspec :: "'a proc \<Rightarrow> (trace_event list \<Rightarrow> err + 'a \<Rightarrow> bool) \<Rightarrow> bool" where
  "tspec m P \<longleftrightarrow> (\<forall>g. \<exists>es. ps_trace (snd (m g)) = ps_trace g @ es \<and> P es (fst (m g)))"

named_theorems tspec_rules \<open>introduction rules for trace specifications\<close>

lemma tspecD: "tspec m P \<Longrightarrow> \<exists>es. ps_trace (snd (m g)) = ps_trace g @ es \<and> P es (fst (m g))"
  by (simp add: tspec_def)

lemma tspec_mono: "tspec m P \<Longrightarrow> (\<And>es res. P es res \<Longrightarrow> Q es res) \<Longrightarrow> tspec m Q"
  unfolding tspec_def by blast

lemma tspec_returnP: "P [] (Inr x) \<Longrightarrow> tspec (returnP x) P"
  by (simp add: tspec_def returnP_def)

lemma tspec_throwP: "P [] (Inl e) \<Longrightarrow> tspec (throwP e) P"
  by (simp add: tspec_def throwP_def)

lemma tspec_bindP:
  assumes m: "tspec m Q" and err: "\<And>es e. Q es (Inl e) \<Longrightarrow> P es (Inl e)"
    and f: "\<And>es x. Q es (Inr x) \<Longrightarrow> tspec (f x) (\<lambda>es'. P (es @ es'))"
  shows "tspec (bindP m f) P"
  unfolding tspec_def
proof
  fix g :: proc_state
  obtain es where es: "ps_trace (snd (m g)) = ps_trace g @ es" "Q es (fst (m g))"
    using tspecD [OF m] by blast
  obtain res g' where mg: "m g = (res, g')" by (cases "m g")
  show "\<exists>es. ps_trace (snd (bindP m f g)) = ps_trace g @ es \<and> P es (fst (bindP m f g))"
  proof (cases res)
    case (Inl e)
    then show ?thesis using es err mg by (intro exI [of _ es]) (simp add: bindP_def)
  next
    case (Inr x)
    then obtain es' where "ps_trace (snd (f x g')) = ps_trace g' @ es'" "P (es @ es') (fst (f x g'))"
      using es mg tspecD [OF f, of es x g'] by auto
    then show ?thesis
      using es mg Inr by (intro exI [of _ "es @ es'"]) (simp add: bindP_def)
  qed
qed

lemma tspec_thenP:
  assumes "tspec m Q" and "\<And>es e. Q es (Inl e) \<Longrightarrow> P es (Inl e)"
    and "\<And>es x. Q es (Inr x) \<Longrightarrow> tspec n (\<lambda>es'. P (es @ es'))"
  shows "tspec (thenP m n) P"
  unfolding thenP_def by (rule tspec_bindP [OF assms])

lemma tspec_catchP:
  assumes m: "tspec m Q" and ok: "\<And>es x. Q es (Inr x) \<Longrightarrow> P es (Inr x)"
    and h: "\<And>es e. Q es (Inl e) \<Longrightarrow> tspec (h e) (\<lambda>es'. P (es @ es'))"
  shows "tspec (catchP m h) P"
  unfolding tspec_def
proof
  fix g :: proc_state
  obtain es where es: "ps_trace (snd (m g)) = ps_trace g @ es" "Q es (fst (m g))"
    using tspecD [OF m] by blast
  obtain res g' where mg: "m g = (res, g')" by (cases "m g")
  show "\<exists>es. ps_trace (snd (catchP m h g)) = ps_trace g @ es \<and> P es (fst (catchP m h g))"
  proof (cases res)
    case (Inr x)
    then show ?thesis using es ok mg by (intro exI [of _ es]) (simp add: catchP_def)
  next
    case (Inl e)
    then obtain es' where "ps_trace (snd (h e g')) = ps_trace g' @ es'" "P (es @ es') (fst (h e g'))"
      using es mg tspecD [OF h, of es e g'] by auto
    then show ?thesis
      using es mg Inl by (intro exI [of _ "es @ es'"]) (simp add: catchP_def)
  qed
qed

lemma tspec_withTransaction:
  assumes "\<And>w0 res w. commit m w0 = (res, w) \<Longrightarrow> P [Db w] res"
  shows "tspec (withTransaction m) P"
  unfolding tspec_def
proof
  fix g :: proc_state
  let ?res = "commit m (ps_env g (ps_tick g) (ps_world g))"
  have "P [Db (snd ?res)] (fst ?res)" by (rule assms) simp
  then show "\<exists>es. ps_trace (snd (withTransaction m g)) = ps_trace g @ es \<and> P es (fst (withTransaction m g))"
    by (intro exI [of _ "[Db (snd ?res)]"]) (simp add: withTransaction_def Let_def)
qed

lemma tspec_external:
  assumes "\<And>n. P [ev (f n)] (Inr (f n))"
  shows "tspec (external f ev) P"
  using assms by (auto simp: tspec_def external_def Let_def)

lemma commit_Inr: "commit m w0 = (Inr x, w) \<longleftrightarrow> m w0 = Inr (x, w)"
  by (auto simp: commit_def split: sum.splits)

section \<open>Processes without a dispatch\<close>

fun is_dispatch :: "trace_event \<Rightarrow> bool" where
  "is_dispatch (Call_dispatch key d) = True"
| "is_dispatch _ = False"

definition no_dispatch :: "trace_event list \<Rightarrow> bool" where
  "no_dispatch es \<longleftrightarrow> (\<forall>e \<in> set es. \<not> is_dispatch e)"

lemma no_dispatch_simps [simp]:
  "no_dispatch []" "no_dispatch (e # es) \<longleftrightarrow> \<not> is_dispatch e \<and> no_dispatch es"
  "no_dispatch (es @ fs) \<longleftrightarrow> no_dispatch es \<and> no_dispatch fs"
  by (auto simp: no_dispatch_def)

definition quiet :: "'a proc \<Rightarrow> bool" where
  "quiet m \<longleftrightarrow> tspec m (\<lambda>es _. no_dispatch es)"

lemma quiet_returnP [tspec_rules]: "quiet (returnP x)"
  unfolding quiet_def by (rule tspec_returnP) simp

lemma quiet_throwP [tspec_rules]: "quiet (throwP e)"
  unfolding quiet_def by (rule tspec_throwP) simp

lemma quiet_bindP [tspec_rules]: "quiet m \<Longrightarrow> (\<And>x. quiet (f x)) \<Longrightarrow> quiet (bindP m f)"
  unfolding quiet_def by (rule tspec_bindP, assumption) (auto elim: tspec_mono)

lemma quiet_thenP [tspec_rules]: "quiet m \<Longrightarrow> quiet n \<Longrightarrow> quiet (thenP m n)"
  unfolding thenP_def by (rule quiet_bindP)

lemma quiet_withTransaction [tspec_rules]: "quiet (withTransaction m)"
  unfolding quiet_def by (rule tspec_withTransaction) simp

lemma quiet_query [tspec_rules]: "quiet (query f)"
  unfolding query_def by (rule quiet_withTransaction)

lemma quiet_maybe_throw [tspec_rules]: "quiet (maybe_throw e)"
  unfolding maybe_throw_def by (cases e) (simp_all add: tspec_rules)

text \<open>\<open>aside m\<close>: no dispatch, and the action is not reported as completed.\<close>

definition aside :: "action_result proc \<Rightarrow> bool" where
  "aside m \<longleftrightarrow> tspec m (\<lambda>es res. no_dispatch es \<and> (\<forall>v b. res \<noteq> Inr (Completed v b)))"

lemma aside_bindP: "quiet m \<Longrightarrow> (\<And>x. aside (f x)) \<Longrightarrow> aside (bindP m f)"
  unfolding quiet_def aside_def by (rule tspec_bindP, assumption) (auto elim: tspec_mono)

lemma aside_thenP: "quiet m \<Longrightarrow> aside n \<Longrightarrow> aside (thenP m n)"
  unfolding thenP_def by (rule aside_bindP)

lemma aside_returnP: "(\<And>v b. x \<noteq> Completed v b) \<Longrightarrow> aside (returnP x)"
  unfolding aside_def by (rule tspec_returnP) simp

lemma aside_throwP: "aside (throwP e)"
  unfolding aside_def by (rule tspec_throwP) simp

lemma aside_mark: "aside (markReconciliationRequired ctx spec rid reason)"
  unfolding markReconciliationRequired_def
  by (intro aside_thenP aside_returnP tspec_rules) simp

lemma aside_fail: "aside (failUndispatchedReceiptAndDeny ctx spec rid reason stage)"
  unfolding failUndispatchedReceiptAndDeny_def
  by (intro aside_thenP aside_returnP tspec_rules) simp

lemma aside_request: "aside (requestFreshApproval ctx spec key rid)"
  unfolding requestFreshApproval_def
  by (intro aside_bindP aside_returnP tspec_rules) simp

lemma aside_deny: "aside (deny ctx spec u reason stage)"
  unfolding deny_def auditDenial_def
  by (cases u) (auto intro!: aside_fail aside_thenP aside_returnP tspec_rules)

lemmas aside_rules = aside_mark aside_fail aside_request aside_deny aside_throwP

section \<open>Safe executions\<close>

text \<open>
  \<open>safe A key es res\<close>: the execution has added the events \<open>es\<close> and ended in \<open>res\<close>. Either it
  has not dispatched and does not claim a fresh completion, or it has dispatched once, under
  \<open>A\<close> (a condition on the events before and the database of the last access before the
  call), and if it returns, then with the dispatched value and a committed receipt for it.
\<close>

definition committed_in :: "trace_event list \<Rightarrow> (string \<times> json) list \<Rightarrow> bool" where
  "committed_in es v \<longleftrightarrow>
     (\<exists>w r. Db w \<in> set es \<and> r \<in> set (w_receipts w) \<and> rc_status r = RS_COMMITTED
        \<and> rc_result r = Some (JObj v))"

definition dispatched ::
    "(trace_event list \<Rightarrow> world \<Rightarrow> bool) \<Rightarrow> string \<Rightarrow> trace_event list \<Rightarrow> err + action_result \<Rightarrow> bool" where
  "dispatched A key es res \<longleftrightarrow>
     (\<exists>pre w inp d post. es = pre @ [Db w, Call_dispatch inp d] @ post \<and> di_key inp = key
        \<and> no_dispatch pre \<and> no_dispatch post \<and> A pre w
        \<and> (\<forall>x. res = Inr x \<longrightarrow>
             (\<exists>v ext audit. x = Completed v False \<and> d = Disp_ok v ext audit \<and> committed_in post v)))"

definition safe ::
    "(trace_event list \<Rightarrow> world \<Rightarrow> bool) \<Rightarrow> string \<Rightarrow> trace_event list \<Rightarrow> err + action_result \<Rightarrow> bool" where
  "safe A key es res \<longleftrightarrow>
     no_dispatch es \<and> (\<forall>v. res \<noteq> Inr (Completed v False)) \<or> dispatched A key es res"

lemma safe_prepend:
  assumes "no_dispatch es" and "safe A key es' res" and "\<And>pre w. A pre w \<Longrightarrow> B (es @ pre) w"
  shows "safe B key (es @ es') res"
proof (cases "no_dispatch es' \<and> (\<forall>v. res \<noteq> Inr (Completed v False))")
  case True
  then show ?thesis using assms(1) by (simp add: safe_def)
next
  case False
  then obtain pre w inp d post where "es' = pre @ [Db w, Call_dispatch inp d] @ post" "di_key inp = key"
      "no_dispatch pre" "no_dispatch post" "A pre w"
      "\<forall>x. res = Inr x \<longrightarrow>
        (\<exists>v ext audit. x = Completed v False \<and> d = Disp_ok v ext audit \<and> committed_in post v)"
    using assms(2) unfolding safe_def dispatched_def by blast
  then have "es @ es' = (es @ pre) @ [Db w, Call_dispatch inp d] @ post \<and> di_key inp = key \<and> no_dispatch (es @ pre)
      \<and> no_dispatch post \<and> B (es @ pre) w
      \<and> (\<forall>x. res = Inr x \<longrightarrow>
        (\<exists>v ext audit. x = Completed v False \<and> d = Disp_ok v ext audit \<and> committed_in post v))"
    using assms(1,3) by simp
  then have "dispatched B key (es @ es') res" unfolding dispatched_def by blast
  then show ?thesis by (simp add: safe_def)
qed

lemma safe_mono: "safe A key es res \<Longrightarrow> (\<And>pre w. A pre w \<Longrightarrow> B pre w) \<Longrightarrow> safe B key es res"
  using safe_prepend [of "[]" A key es res B] by simp

lemma tspec_safe_mono:
  "tspec m (safe A key) \<Longrightarrow> (\<And>pre w. A pre w \<Longrightarrow> B pre w) \<Longrightarrow> tspec m (safe B key)"
  by (erule tspec_mono) (erule safe_mono)

lemma safe_aside: "aside m \<Longrightarrow> tspec m (safe A key)"
  unfolding aside_def by (erule tspec_mono) (simp add: safe_def)

lemmas safe_asides = aside_rules [THEN safe_aside]

lemma safe_quiet_bindP:
  assumes "tspec m (\<lambda>es res. no_dispatch es \<and> Q es res)"
    and "\<And>es x. no_dispatch es \<Longrightarrow> Q es (Inr x) \<Longrightarrow> tspec (f x) (safe (\<lambda>pre. A (es @ pre)) key)"
  shows "tspec (bindP m f) (safe A key)"
proof (rule tspec_bindP [OF assms(1)])
  fix es e show "no_dispatch es \<and> Q es (Inl e) \<Longrightarrow> safe A key es (Inl e)" by (simp add: safe_def)
next
  fix es x assume q: "no_dispatch es \<and> Q es (Inr x)"
  then have "tspec (f x) (safe (\<lambda>pre. A (es @ pre)) key)" using assms(2) by blast
  then show "tspec (f x) (\<lambda>es'. safe A key (es @ es'))"
    by (rule tspec_mono) (use q in \<open>auto intro: safe_prepend\<close>)
qed

section \<open>The evidence a dispatch rests on\<close>

definition grant_checked :: "action_ctx \<Rightarrow> action_spec \<Rightarrow> grant_row \<Rightarrow> trace_event list \<Rightarrow> bool" where
  "grant_checked ctx spec g pre \<longleftrightarrow>
     (\<exists>w. Db w \<in> set pre
        \<and> revalidateGrantForDispatch w (gr_id g) (cx_run ctx) (sp_action spec) (sp_resource spec))"

definition approval_checked :: "action_ctx \<Rightarrow> action_spec \<Rightarrow> string \<Rightarrow> trace_event list \<Rightarrow> bool" where
  "approval_checked ctx spec key pre \<longleftrightarrow>
     (\<exists>w a. Db w \<in> set pre \<and> a \<in> set (w_approvals w)
        \<and> authorizes (ap_id a) (cx_run ctx) (sp_action spec) (sp_resource spec) key a
        \<and> ap_status a = AP_APPROVED \<and> \<not> approval_expired w a)"

definition receipt_open :: "string \<Rightarrow> trace_event list \<Rightarrow> bool" where
  "receipt_open key pre \<longleftrightarrow>
     (\<exists>w r. Db w \<in> set pre \<and> r \<in> set (w_receipts w)
        \<and> rc_idempotency_key r = key \<and> rc_status r = RS_PENDING)"

definition boundary_ok ::
    "action_ctx \<Rightarrow> action_spec \<Rightarrow> string \<Rightarrow> grant_row option \<Rightarrow> string option \<Rightarrow>
     trace_event list \<Rightarrow> world \<Rightarrow> bool" where
  "boundary_ok ctx spec key usable approvalId pre w \<longleftrightarrow>
     is_current_owner ctx w
     \<and> (\<forall>g. usable = Some g \<longrightarrow> grant_checked ctx spec g pre
          \<and> (gr_requires_approval g \<and> approvalId \<noteq> None \<longrightarrow> approval_checked ctx spec key pre))"

lemma checked_append [simp]:
  "grant_checked ctx spec g (es @ pre) \<longleftrightarrow> grant_checked ctx spec g es \<or> grant_checked ctx spec g pre"
  "approval_checked ctx spec key (es @ pre) \<longleftrightarrow> approval_checked ctx spec key es \<or> approval_checked ctx spec key pre"
  "receipt_open key (es @ pre) \<longleftrightarrow> receipt_open key es \<or> receipt_open key pre"
  by (auto simp: grant_checked_def approval_checked_def receipt_open_def)

lemma checked_Cons [simp]:
  "grant_checked ctx spec g pre \<Longrightarrow> grant_checked ctx spec g (e # pre)"
  "approval_checked ctx spec key pre \<Longrightarrow> approval_checked ctx spec key (e # pre)"
  "receipt_open key pre \<Longrightarrow> receipt_open key (e # pre)"
  by (auto simp: grant_checked_def approval_checked_def receipt_open_def)

section \<open>Dispatch and commit\<close>

definition failing :: "'a proc \<Rightarrow> bool" where
  "failing m \<longleftrightarrow> tspec m (\<lambda>es res. no_dispatch es \<and> isl res)"

lemma failing_then_throw: "quiet m \<Longrightarrow> failing (thenP m (throwP e))"
  unfolding quiet_def failing_def by (rule tspec_thenP, assumption) (auto intro: tspec_throwP)

lemma quiet_mark: "quiet (markReconciliationRequired ctx spec rid reason)"
  unfolding markReconciliationRequired_def by (intro tspec_rules)

lemma quiet_retryable: "quiet (auditRetryableFailure ctx spec rid stage)"
  unfolding auditRetryableFailure_def by (intro tspec_rules)

lemma commitReceipt_commits:
  assumes "commitReceipt sha256 fmt rid ext v w = Inr (x, w')"
  shows "\<exists>r \<in> set (w_receipts w'). rc_id r = rid \<and> rc_status r = RS_COMMITTED \<and> rc_result r = Some (JObj v)"
proof -
  let ?f = "\<lambda>r. r\<lparr>rc_status := RS_COMMITTED, rc_external_txn_id := ext, rc_result := Some (JObj v),
                     rc_result_digest := Some (sha256 (canonicalJson fmt (JObj v))),
                     rc_completed_at := Some (w_now w)\<rparr>"
  have one: "row_count (pending_receipt rid) (w_receipts w) = 1"
    and w': "w_receipts w' = update_where (pending_receipt rid) ?f (w_receipts w)"
    using assms by (auto simp: commitReceipt_def tx_simps)
  then obtain r where "r \<in> set (w_receipts w)" "pending_receipt rid r"
    unfolding row_count_def
    by (metis One_nat_def filter_False list.size(3) zero_neq_one)
  then have "?f r \<in> set (w_receipts w')"
    unfolding w' using in_update_whereI [of r "w_receipts w" "pending_receipt rid" ?f] by simp
  then show ?thesis using \<open>pending_receipt rid r\<close> by (intro bexI [of _ "?f r"]) (auto simp: pending_receipt_def)
qed

lemma append_audit_frame:
  "append_audit ctx spec type middle w = Inr (x, w') \<Longrightarrow>
   w_receipts w' = w_receipts w \<and> w_approvals w' = w_approvals w \<and> w_grants w' = w_grants w"
  by (auto simp: append_audit_def tx_simps appendEvent_iff)

lemma assert_owner_iff:
  "assertCurrentActionOwner ctx w = Inr (x, w') \<longleftrightarrow> is_current_owner ctx w \<and> w' = w"
  by (auto simp: assertCurrentActionOwner_def tx_simps)

lemma commit_action_commits:
  assumes "commit_action ctx spec rid v ext audit b w = Inr (x, w')"
  shows "committed_in [Db w'] v"
proof -
  obtain w1 where c: "commitReceipt (cx_sha256 ctx) (cx_fmt ctx) rid ext v w = Inr ((), w1)"
    and a: "w_receipts w' = w_receipts w1"
    using assms append_audit_frame by (fastforce simp: commit_action_def tx_simps assert_owner_iff)
  then show ?thesis using commitReceipt_commits [OF c] by (auto simp: committed_in_def)
qed

lemma tspec_fenced_dispatch:
  "tspec (fenced_dispatch ctx spec inp rid)
     (\<lambda>es res. \<exists>d post. es = Call_dispatch inp d # post \<and> no_dispatch post \<and> (\<exists>n. d = sp_dispatch spec inp n)
        \<and> (\<forall>x. res = Inr x \<longrightarrow>
             (\<exists>v ext audit. x = Completed v False \<and> d = Disp_ok v ext audit \<and> committed_in post v)))"
  (is "tspec _ ?P")
proof -
  have fail: "tspec m (\<lambda>es. ?P ([Call_dispatch inp d] @ es))" if "failing m" and "\<exists>n. d = sp_dispatch spec inp n" for m and d
    using that(1) unfolding failing_def by (rule tspec_mono) (use that(2) in \<open>auto simp: isl_def\<close>)
  have ok: "tspec (thenP (maybe_throw (sp_afterDispatch spec))
        (thenP (catchP (withTransaction (commit_action ctx spec rid val ext audit False))
                  (\<lambda>e. if uncertain spec
                       then thenP (markReconciliationRequired ctx spec rid
                              ''local receipt commit failed after remote success'') (throwP e)
                       else thenP (auditRetryableFailure ctx spec rid ''receipt_commit'') (throwP e)))
        (thenP (maybe_throw (sp_afterCommit spec)) (returnP (Completed val False)))))
      (\<lambda>es res. no_dispatch es \<and> (\<forall>x. res = Inr x \<longrightarrow> x = Completed val False \<and> committed_in es val))"
    (is "tspec _ ?Q") for val ext audit
  proof (rule tspec_thenP [OF quiet_maybe_throw [unfolded quiet_def]])
    fix es x assume es: "no_dispatch es"
    have catch: "tspec (catchP (withTransaction (commit_action ctx spec rid val ext audit False))
                  (\<lambda>e. if uncertain spec
                       then thenP (markReconciliationRequired ctx spec rid
                              ''local receipt commit failed after remote success'') (throwP e)
                       else thenP (auditRetryableFailure ctx spec rid ''receipt_commit'') (throwP e)))
        (\<lambda>es res. no_dispatch es \<and> (\<not> isl res \<longrightarrow> committed_in es val))"
    proof (rule tspec_catchP)
      show "tspec (withTransaction (commit_action ctx spec rid val ext audit False))
          (\<lambda>es res. no_dispatch es \<and> (\<not> isl res \<longrightarrow> committed_in es val))"
      proof (rule tspec_withTransaction)
        fix w0 w and res :: "err + unit" assume c: "commit (commit_action ctx spec rid val ext audit False) w0 = (res, w)"
        then show "no_dispatch [Db w] \<and> (\<not> isl res \<longrightarrow> committed_in [Db w] val)"
          by (cases res) (auto simp: commit_Inr dest: commit_action_commits)
      qed
    next
      fix es and e :: err
      assume es: "no_dispatch es \<and> (\<not> isl (Inl e) \<longrightarrow> committed_in es val)"
      have "failing (if uncertain spec
                       then thenP (markReconciliationRequired ctx spec rid
                              ''local receipt commit failed after remote success'') (throwP e)
                       else thenP (auditRetryableFailure ctx spec rid ''receipt_commit'') (throwP e))"
        by (auto intro!: failing_then_throw quiet_mark quiet_retryable)
      then show "tspec (if uncertain spec
                       then thenP (markReconciliationRequired ctx spec rid
                              ''local receipt commit failed after remote success'') (throwP e)
                       else thenP (auditRetryableFailure ctx spec rid ''receipt_commit'') (throwP e))
          (\<lambda>es'. (\<lambda>es res. no_dispatch es \<and> (\<not> isl res \<longrightarrow> committed_in es val)) (es @ es'))"
        unfolding failing_def by (rule tspec_mono) (use es in auto)
    qed simp
    show "tspec (thenP (catchP (withTransaction (commit_action ctx spec rid val ext audit False))
                  (\<lambda>e. if uncertain spec
                       then thenP (markReconciliationRequired ctx spec rid
                              ''local receipt commit failed after remote success'') (throwP e)
                       else thenP (auditRetryableFailure ctx spec rid ''receipt_commit'') (throwP e)))
        (thenP (maybe_throw (sp_afterCommit spec)) (returnP (Completed val False)))) (\<lambda>es'. ?Q (es @ es'))"
    proof (rule tspec_thenP [OF catch])
      fix es1 y assume c: "no_dispatch es1 \<and> (\<not> isl (Inr y) \<longrightarrow> committed_in es1 val)"
      show "tspec (thenP (maybe_throw (sp_afterCommit spec)) (returnP (Completed val False)))
          (\<lambda>es'. (\<lambda>es'. ?Q (es @ es')) (es1 @ es'))"
        by (rule tspec_thenP [OF quiet_maybe_throw [unfolded quiet_def]])
           (use es c in \<open>auto simp: committed_in_def intro!: tspec_returnP\<close>)
    qed (use es in auto)
  qed auto
  show ?thesis
    unfolding fenced_dispatch_def
  proof (rule tspec_bindP [where Q = "\<lambda>es res. \<exists>d. es = [Call_dispatch inp d] \<and> res = Inr d \<and> (\<exists>n. d = sp_dispatch spec inp n)"])
    show "tspec (external (sp_dispatch spec inp) (Call_dispatch inp)) (\<lambda>es res. \<exists>d. es = [Call_dispatch inp d] \<and> res = Inr d \<and> (\<exists>n. d = sp_dispatch spec inp n))"
      by (rule tspec_external) auto
  next
    fix es d assume "\<exists>d'. es = [Call_dispatch inp d'] \<and> Inr d = (Inr d' :: err + dispatch_result)
        \<and> (\<exists>n. d' = sp_dispatch spec inp n)"
    then have es: "es = [Call_dispatch inp d]" and answer: "\<exists>n. d = sp_dispatch spec inp n" by simp_all
    show "tspec (case d of
       Disp_throws e \<Rightarrow>
         if uncertain spec
         then thenP (markReconciliationRequired ctx spec rid
                       ''dispatch failed with an uncertain external outcome'') (throwP e)
         else thenP (auditRetryableFailure ctx spec rid ''dispatch'') (throwP e)
     | Disp_ok val ext audit \<Rightarrow>
         thenP (maybe_throw (sp_afterDispatch spec))
        (thenP (catchP (withTransaction (commit_action ctx spec rid val ext audit False))
                  (\<lambda>e. if uncertain spec
                       then thenP (markReconciliationRequired ctx spec rid
                              ''local receipt commit failed after remote success'') (throwP e)
                       else thenP (auditRetryableFailure ctx spec rid ''receipt_commit'') (throwP e)))
        (thenP (maybe_throw (sp_afterCommit spec))
               (returnP (Completed val False))))) (\<lambda>es'. ?P (es @ es'))"
    proof (cases d)
      case (Disp_throws e)
      show ?thesis unfolding es Disp_throws dispatch_result.case
        using answer unfolding Disp_throws
        by (intro fail) (auto intro!: failing_then_throw quiet_mark quiet_retryable)
    next
      case (Disp_ok val ext audit)
      show ?thesis unfolding es Disp_ok dispatch_result.case
        by (rule tspec_mono [OF ok]) (use answer Disp_ok in auto)
    qed
  qed auto
qed

lemma safe_owner_dispatch:
  "tspec (thenP (withTransaction (assertCurrentActionOwner ctx)) (fenced_dispatch ctx spec inp rid))
     (safe (\<lambda>pre w. is_current_owner ctx w) (di_key inp))"
proof (rule tspec_thenP)
  show "tspec (withTransaction (assertCurrentActionOwner ctx))
      (\<lambda>es res. \<exists>w. es = [Db w] \<and> (\<not> isl res \<longrightarrow> is_current_owner ctx w))"
    by (rule tspec_withTransaction) (auto simp: commit_def assert_owner_iff split: sum.splits)
next
  fix es and e :: err assume "\<exists>w. es = [Db w] \<and> (\<not> isl (Inl e) \<longrightarrow> is_current_owner ctx w)"
  then show "safe (\<lambda>pre w. is_current_owner ctx w) (di_key inp) es (Inl e)" by (auto simp: safe_def)
next
  fix es x assume "\<exists>w. es = [Db w] \<and> (\<not> isl (Inr x) \<longrightarrow> is_current_owner ctx w)"
  then obtain w where w: "es = [Db w]" "is_current_owner ctx w" by auto
  show "tspec (fenced_dispatch ctx spec inp rid) (\<lambda>es'. safe (\<lambda>pre w. is_current_owner ctx w) (di_key inp) (es @ es'))"
  proof (rule tspec_mono [OF tspec_fenced_dispatch])
    fix es' and res :: "err + action_result"
    assume "\<exists>d post. es' = Call_dispatch inp d # post \<and> no_dispatch post \<and> (\<exists>n. d = sp_dispatch spec inp n)
        \<and> (\<forall>x. res = Inr x \<longrightarrow>
             (\<exists>v ext audit. x = Completed v False \<and> d = Disp_ok v ext audit \<and> committed_in post v))"
    then obtain d post where d: "es' = Call_dispatch inp d # post" "no_dispatch post"
        "\<forall>x. res = Inr x \<longrightarrow>
             (\<exists>v ext audit. x = Completed v False \<and> d = Disp_ok v ext audit \<and> committed_in post v)" by blast
    have "dispatched (\<lambda>pre w. is_current_owner ctx w) (di_key inp) (es @ es') res"
      unfolding dispatched_def
      by (rule exI [of _ "[]"], rule exI [of _ w], rule exI [of _ inp], rule exI [of _ d], rule exI [of _ post])
         (use d w in simp)
    then show "safe (\<lambda>pre w. is_current_owner ctx w) (di_key inp) (es @ es') res" by (simp add: safe_def)
  qed
qed

section \<open>The phases before the dispatch\<close>

lemma tspec_query:
  "tspec (query f) (\<lambda>es res. no_dispatch es \<and> (\<exists>w. es = [Db w] \<and> res = Inr (f w)))"
  unfolding query_def
  by (rule tspec_withTransaction) (auto simp: commit_def getsT_def)

lemma tspec_quiet: "quiet m \<Longrightarrow> tspec m (\<lambda>es res. no_dispatch es \<and> True)"
  by (simp add: quiet_def)

lemma safe_quiet_thenP:
  assumes "quiet m" and "tspec n (safe A key)" and "\<And>es pre w. A pre w \<Longrightarrow> A (es @ pre) w"
  shows "tspec (thenP m n) (safe A key)"
  unfolding thenP_def
  by (rule safe_quiet_bindP [OF tspec_quiet [OF assms(1)]]) (auto intro: tspec_safe_mono [OF assms(2)] assms(3))

lemma tspec_lock_approval:
  "tspec (lock_approval ctx spec key aid)
     (\<lambda>es res. no_dispatch es \<and>
        (\<forall>a. res = Inr (Some a) \<and> ap_status a = AP_APPROVED \<longrightarrow> approval_checked ctx spec key es))"
  unfolding lock_approval_def
proof (rule tspec_withTransaction)
  fix w0 w and res :: "err + approval_row option"
  assume c: "commit (lockApprovalForExecution aid (cx_run ctx) (sp_action spec) (sp_resource spec) key) w0 = (res, w)"
  have "approval_checked ctx spec key [Db w]" if r: "res = Inr (Some a)" "ap_status a = AP_APPROVED" for a
  proof -
    have "lockApprovalForExecution aid (cx_run ctx) (sp_action spec) (sp_resource spec) key w0 = Inr (Some a, w)"
      using c r by (simp add: commit_Inr)
    then obtain a0 where f: "find (authorizes aid (cx_run ctx) (sp_action spec) (sp_resource spec) key) (w_approvals w0) = Some a0"
      and eff: "if approval_expired w0 a0 \<and> (ap_status a0 = AP_PENDING \<or> ap_status a0 = AP_APPROVED)
         then a = a0\<lparr>ap_status := AP_EXPIRED\<rparr> else a = a0 \<and> w = w0"
      by (auto simp: lockApprovalForExecution_def tx_simps split: option.splits if_splits)
    have "a0 \<in> set (w_approvals w0)" "authorizes aid (cx_run ctx) (sp_action spec) (sp_resource spec) key a0"
      using find_SomeD [OF f] by blast+
    moreover have "a = a0" "w = w0" "\<not> approval_expired w0 a0"
      using eff r(2) by (auto split: if_splits)
    ultimately show ?thesis using r(2) by (auto simp: approval_checked_def authorizes_def)
  qed
  then show "no_dispatch [Db w] \<and>
      (\<forall>a. res = Inr (Some a) \<and> ap_status a = AP_APPROVED \<longrightarrow> approval_checked ctx spec key [Db w])"
    by simp
qed

lemma tspec_if: "(b \<Longrightarrow> tspec m P) \<Longrightarrow> (\<not> b \<Longrightarrow> tspec n P) \<Longrightarrow> tspec (if b then m else n) P"
  by simp

lemma tspec_option:
  "(x = None \<Longrightarrow> tspec m P) \<Longrightarrow> (\<And>y. x = Some y \<Longrightarrow> tspec (f y) P) \<Longrightarrow>
   tspec (case x of None \<Rightarrow> m | Some y \<Rightarrow> f y) P"
  by (cases x) auto

lemma tspec_prod: "tspec (f a b) P \<Longrightarrow> tspec (case (a, b) of (x, y) \<Rightarrow> f x y) P"
  by simp

lemmas tspec_cases = tspec_if tspec_option tspec_prod

lemma safe_boundary:
  "tspec (fenced_boundary ctx spec inp usable approvalId undispatched rid)
     (safe (boundary_ok ctx spec (di_key inp) usable approvalId) (di_key inp))"
proof -
  let ?proceed = "thenP (withTransaction (assertCurrentActionOwner ctx)) (fenced_dispatch ctx spec inp rid)"
  let ?A = "boundary_ok ctx spec (di_key inp) usable approvalId"
  have go: "tspec ?proceed (safe (\<lambda>pre. ?A (es @ pre)) (di_key inp))"
    if "\<And>g. usable = Some g \<Longrightarrow> grant_checked ctx spec g es
         \<and> (gr_requires_approval g \<and> approvalId \<noteq> None \<longrightarrow> approval_checked ctx spec (di_key inp) es)" for es
    by (rule tspec_safe_mono [OF safe_owner_dispatch]) (use that in \<open>auto simp: boundary_ok_def\<close>)
  have check: "tspec (case usable of None \<Rightarrow> returnP True
      | Some g \<Rightarrow> query (\<lambda>w. revalidateGrantForDispatch w (gr_id g) (cx_run ctx) (sp_action spec) (sp_resource spec)))
      (\<lambda>es res. no_dispatch es \<and> (res = Inr True \<longrightarrow> (\<forall>g. usable = Some g \<longrightarrow> grant_checked ctx spec g es)))"
    by (intro tspec_option tspec_returnP tspec_mono [OF tspec_query]) (auto simp: grant_checked_def)
  show ?thesis
    unfolding fenced_boundary_def Let_def
  proof (intro safe_quiet_thenP tspec_rules, rule safe_quiet_bindP [OF check], goal_cases)
    case (1 es b)
    note es = 1
    show ?case
    proof (intro tspec_cases safe_asides, goal_cases)
      case (3 g aid)
      note g = 3
      show ?case
      proof (rule safe_quiet_bindP [OF tspec_lock_approval], goal_cases)
        case (1 es' ap)
        have "tspec ?proceed (safe (\<lambda>pre. ?A (es @ es' @ pre)) (di_key inp))"
          if "ap = Some a" "ap_status a = AP_APPROVED" for a
          using go [of "es @ es'"] that 1 es g by auto
        then show ?case
          by (intro tspec_cases safe_asides) simp_all
      qed
    qed (rule go, use es in simp)+
  qed (auto simp: boundary_ok_def)
qed

lemma open_receipt_opens:
  assumes "open_receipt ctx spec key usable approvalId w = Inr (row, w')"
  shows "receipt_open key [Db w']" and "rc_id row \<in> rc_id ` set (w_receipts w')"
proof -
  obtain input w1 w2 where ins: "insertPendingReceipt (cx_sha256 ctx) (cx_fmt ctx) input w1 = Inr (row, w2)"
    and input: "ri_idempotencyKey input = key" and w': "w_receipts w' = w_receipts w2"
    using assms append_audit_frame by (fastforce simp: open_receipt_def tx_simps)
  have "row \<in> set (w_receipts w')" using ins by (simp add: insertPendingReceipt_iff w')
  moreover have "rc_idempotency_key row = key" "rc_status row = RS_PENDING"
    using ins input by (simp_all add: insertPendingReceipt_iff new_receipt_def)
  ultimately show "receipt_open key [Db w']" "rc_id row \<in> rc_id ` set (w_receipts w')"
    by (auto simp: receipt_open_def)
qed

text \<open>With a receipt taken over from an earlier execution the write-ahead row is that one.\<close>

lemma safe_receipt:
  "tspec (fenced_receipt ctx spec inp pending knownAbsent usable approvalId)
     (safe (\<lambda>pre w. boundary_ok ctx spec (di_key inp) usable approvalId pre w
              \<and> (pending = None \<longrightarrow> receipt_open (di_key inp) pre)) (di_key inp))"
  unfolding fenced_receipt_def
proof (rule safe_quiet_bindP)
  show "tspec (case pending of Some r \<Rightarrow> returnP r
      | None \<Rightarrow> withTransaction (open_receipt ctx spec (di_key inp) usable approvalId))
      (\<lambda>es res. no_dispatch es \<and> (\<not> isl res \<longrightarrow> pending = None \<longrightarrow> receipt_open (di_key inp) es))"
  proof (intro tspec_option tspec_returnP tspec_withTransaction, goal_cases)
    case (1 w0 res w)
    then show ?case by (cases res) (auto simp: commit_Inr dest: open_receipt_opens)
  qed simp
next
  fix es and r :: receipt_row
  assume "no_dispatch es" "\<not> isl (Inr r) \<longrightarrow> pending = None \<longrightarrow> receipt_open (di_key inp) es"
  then show "tspec (fenced_boundary ctx spec inp usable approvalId
        (if pending = None \<or> knownAbsent then Some (rc_id r) else None) (rc_id r))
      (safe (\<lambda>pre w. boundary_ok ctx spec (di_key inp) usable approvalId (es @ pre) w
              \<and> (pending = None \<longrightarrow> receipt_open (di_key inp) (es @ pre))) (di_key inp))"
    by (intro tspec_safe_mono [OF safe_boundary]) (auto simp: boundary_ok_def)
qed

lemma safe_credential:
  "tspec (fenced_credential ctx spec key patterns pending knownAbsent usable approvalId)
     (safe (\<lambda>pre w. boundary_ok ctx spec key usable approvalId pre w
              \<and> (pending = None \<longrightarrow> receipt_open key pre)) key)"
  (is "tspec _ (safe ?A key)")
proof -
  have mono: "?A pre w \<Longrightarrow> ?A (es @ pre) w" for es pre w by (auto simp: boundary_ok_def)
  have proceed: "tspec (fenced_receipt ctx spec \<lparr>di_key = key, di_credential = c, di_patterns = patterns\<rparr> pending knownAbsent usable approvalId)
      (safe (\<lambda>pre. ?A (es @ pre)) key)" for es c
    using tspec_safe_mono [OF safe_receipt mono, of ctx spec "\<lparr>di_key = key, di_credential = c, di_patterns = patterns\<rparr>"]
    by simp
  have resolve: "quiet (case cx_credentials ctx of None \<Rightarrow> returnP (Cred_resolved None)
      | Some f \<Rightarrow> external f (Call_credential key))"
    unfolding quiet_def by (intro tspec_option tspec_returnP tspec_external) simp_all
  show ?thesis
    unfolding fenced_credential_def Let_def
  proof (rule safe_quiet_bindP [OF tspec_quiet [OF resolve]], goal_cases)
    case (1 es c)
    show ?case
    proof (cases c)
      case Cred_throws
      have "aside (thenP (withTransaction (append_audit ctx spec ToolInvocationFailed
                  [(''stage'', JStr ''credential''), (''reconciliationRequired'', JBool False)]))
               (throwP (GenericError (''credential resolution failed for '' @ sp_action spec))))"
        by (intro aside_thenP tspec_rules aside_throwP)
      then show ?thesis unfolding Cred_throws credential_result.case by (rule safe_aside)
    next
      case (Cred_resolved x)
      show ?thesis
        unfolding Cred_resolved credential_result.case
      proof (intro tspec_cases proceed, rule safe_quiet_bindP [OF tspec_lock_approval], goal_cases)
        case (1 g aid es' ap)
        show ?case
          unfolding append_assoc [symmetric]
          by (intro tspec_cases safe_asides proceed)
      qed
    qed
  qed
qed

definition approved_ok ::
    "action_ctx \<Rightarrow> action_spec \<Rightarrow> string \<Rightarrow> receipt_row option \<Rightarrow> grant_row option \<Rightarrow>
     trace_event list \<Rightarrow> world \<Rightarrow> bool" where
  "approved_ok ctx spec key pending usable pre w \<longleftrightarrow>
     is_current_owner ctx w \<and> (pending = None \<longrightarrow> receipt_open key pre)
     \<and> (\<forall>g. usable = Some g \<longrightarrow> grant_checked ctx spec g pre
          \<and> (gr_requires_approval g \<longrightarrow> approval_checked ctx spec key pre))"

lemma approved_ok_append: "approved_ok ctx spec key pending usable pre w \<Longrightarrow> approved_ok ctx spec key pending usable (es @ pre) w"
  by (auto simp: approved_ok_def)

lemma safe_approval:
  "tspec (fenced_approval ctx spec key patterns pending knownAbsent usable)
     (safe (approved_ok ctx spec key pending usable) key)"
  (is "tspec _ (safe ?A key)")
proof -
  have go: "tspec (fenced_credential ctx spec key patterns pending knownAbsent usable aid) (safe (\<lambda>pre. ?A (es @ pre)) key)"
    if "\<And>g. usable = Some g \<Longrightarrow> gr_requires_approval g \<Longrightarrow> aid \<noteq> None" for aid es
    by (rule tspec_safe_mono [OF safe_credential]) (use that in \<open>auto simp: approved_ok_def boundary_ok_def\<close>)
  have recorded: "quiet (case x of Some aid \<Rightarrow> returnP (Some aid) | None \<Rightarrow> query (latest_approval ctx key))" for x
    by (cases x) (simp_all add: tspec_rules)
  show ?thesis
    unfolding fenced_approval_def Let_def
  proof (rule tspec_if, goal_cases)
    case 1
    then show ?case using go [of _ "[]"] by (auto split: option.splits)
  next
    case 2
    show ?case
    proof (rule safe_quiet_bindP [OF tspec_quiet [OF recorded]], goal_cases)
      case (1 es ap)
      show ?case
      proof (intro tspec_cases safe_asides, rule safe_quiet_bindP [OF tspec_lock_approval], goal_cases)
        case (1 aid es' found)
        show ?case
          unfolding append_assoc [symmetric]
          by (intro tspec_cases safe_asides go safe_aside [OF aside_returnP]) simp_all
      qed
    qed
  qed
qed

text \<open>The evidence of a dispatch over a whole execution.\<close>

definition granted :: "action_ctx \<Rightarrow> action_spec \<Rightarrow> string \<Rightarrow> trace_event list \<Rightarrow> bool" where
  "granted ctx spec key pre \<longleftrightarrow>
     (\<exists>w g. Db w \<in> set pre \<and> g \<in> set (w_grants w) \<and> gr_run_id g = cx_run ctx
        \<and> patternMatches (gr_action_pattern g) (sp_action spec)
        \<and> patternMatches (gr_resource_pattern g) (sp_resource spec)
        \<and> is_unexpired w g \<and> grant_checked ctx spec g pre
        \<and> (gr_requires_approval g \<longrightarrow> approval_checked ctx spec key pre))"

lemma granted_append: "granted ctx spec key pre \<Longrightarrow> granted ctx spec key (es @ pre)"
  by (fastforce simp: granted_def)

definition policy_ok ::
    "action_ctx \<Rightarrow> action_spec \<Rightarrow> string \<Rightarrow> receipt_row option \<Rightarrow> trace_event list \<Rightarrow> world \<Rightarrow> bool" where
  "policy_ok ctx spec key pending pre w \<longleftrightarrow>
     is_current_owner ctx w \<and> (pending = None \<longrightarrow> receipt_open key pre)
     \<and> (sp_requireGrant spec \<longrightarrow> granted ctx spec key pre)"

lemma usable_grant_in:
  assumes "g \<in> set (usable_grants spec b (declared_grants ctx spec w))"
  shows "g \<in> set (w_grants w) \<and> gr_run_id g = cx_run ctx
     \<and> patternMatches (gr_action_pattern g) (sp_action spec)
     \<and> patternMatches (gr_resource_pattern g) (sp_resource spec) \<and> is_unexpired w g"
  using assms
  by (auto simp: usable_grants_def declared_grants_def listGrantsWithEligibility_def Let_def split: if_splits)

lemma safe_policy:
  "tspec (fenced_policy ctx spec key pending knownAbsent) (safe (policy_ok ctx spec key pending) key)"
  unfolding fenced_policy_def Let_def
proof (rule safe_quiet_bindP [OF tspec_query], goal_cases)
  case (1 es declared)
  then obtain w where w: "es = [Db w]" "declared = declared_grants ctx spec w" by auto
  let ?usable = "usable_grants spec (pending \<noteq> None) declared"
  let ?hd = "case ?usable of [] \<Rightarrow> None | g # _ \<Rightarrow> Some g"
  have hd: "g \<in> set ?usable" if "?hd = Some g" for g using that by (auto split: list.splits)
  have ok: "policy_ok ctx spec key pending (es @ pre) u"
    if "\<not> (sp_requireGrant spec \<and> ?hd = None)" "approved_ok ctx spec key pending ?hd pre u" for pre u
  proof -
    have "granted ctx spec key (es @ pre)" if g: "?hd = Some g" for g
    proof -
      have "g \<in> set (usable_grants spec (pending \<noteq> None) (declared_grants ctx spec w))"
        using hd [OF g] w(2) by simp
      note g_in = usable_grant_in [OF this]
      have "grant_checked ctx spec g pre \<and> (gr_requires_approval g \<longrightarrow> approval_checked ctx spec key pre)"
        using \<open>approved_ok ctx spec key pending ?hd pre u\<close> g by (simp add: approved_ok_def)
      then show ?thesis
        using g_in unfolding granted_def w(1) by (intro exI [of _ w] exI [of _ g]) auto
    qed
    then show ?thesis
      using that by (auto simp: policy_ok_def approved_ok_def)
  qed
  show ?case
    by (intro tspec_cases safe_asides tspec_safe_mono [OF safe_approval] ok)
qed

definition dispatch_evidence ::
    "action_ctx \<Rightarrow> action_spec \<Rightarrow> string \<Rightarrow> trace_event list \<Rightarrow> world \<Rightarrow> bool" where
  "dispatch_evidence ctx spec key pre w \<longleftrightarrow>
     is_current_owner ctx w
     \<and> receipt_open key pre
     \<and> (sp_requireGrant spec \<longrightarrow> granted ctx spec key pre)
     \<and> (\<exists>w0. Db w0 \<in> set pre \<and>
          (case findReceiptByLineageKey w0 (cx_run ctx) key of
             None \<Rightarrow> True
           | Some r \<Rightarrow> rc_status r = RS_PENDING
               \<and> (sp_recovery spec = Reconcile \<longrightarrow> Call_reconcile key Rec_not_found \<in> set pre)))"

lemma safe_recovery:
  "tspec (fenced_recovery ctx spec key receipt)
     (safe (\<lambda>pre w. policy_ok ctx spec key (Some receipt) pre w
              \<and> (sp_recovery spec = Reconcile \<longrightarrow> Call_reconcile key Rec_not_found \<in> set pre)) key)"
  (is "tspec _ (safe ?A key)")
  unfolding fenced_recovery_def
proof (intro tspec_cases safe_asides, goal_cases)
  case 1
  then show ?case by (intro tspec_safe_mono [OF safe_policy]) simp
next
  case (2 f)
  have rec: "tspec (external (f key) (Call_reconcile key))
      (\<lambda>es res. no_dispatch es \<and> (\<exists>d. es = [Call_reconcile key d] \<and> res = Inr d))"
    by (rule tspec_external) simp
  show ?case
  proof (rule safe_quiet_bindP [OF rec], goal_cases)
    case (1 es d)
    then have es: "es = [Call_reconcile key d]" by auto
    show ?case
    proof (cases d)
      case (Rec_committed val ext audit)
      have "tspec (thenP (withTransaction (commit_action ctx spec (rc_id receipt) val ext audit True))
                    (returnP (Completed val True))) (safe (\<lambda>pre. ?A (es @ pre)) key)"
        by (rule tspec_thenP [OF quiet_withTransaction [unfolded quiet_def]])
           (auto simp: safe_def intro!: tspec_returnP)
      then show ?thesis by (simp add: Rec_committed)
    next
      case Rec_not_found
      have "tspec (fenced_policy ctx spec key (Some receipt) True) (safe (\<lambda>pre. ?A (es @ pre)) key)"
        by (rule tspec_safe_mono [OF safe_policy])
           (auto simp: es Rec_not_found policy_ok_def granted_append [where es = "[_]", simplified])
      then show ?thesis by (simp add: Rec_not_found)
    next
      case Rec_unknown
      then show ?thesis by (simp add: safe_asides)
    next
      case (Rec_throws aborted e)
      then show ?thesis by (simp add: safe_asides)
    qed
  qed
qed

lemma safe_execution:
  "tspec (executeGovernedActionFenced ctx spec key) (safe (dispatch_evidence ctx spec key) key)"
  unfolding executeGovernedActionFenced_def
proof (rule safe_quiet_thenP [OF quiet_withTransaction], goal_cases)
  case 1
  show ?case
  proof (rule safe_quiet_bindP [OF tspec_query], goal_cases)
    case (1 es existing)
    then obtain w where w: "es = [Db w]" "existing = findReceiptByLineageKey w (cx_run ctx) key" by auto
    have fresh: "dispatch_evidence ctx spec key (es @ pre) u"
      if "existing = None" "policy_ok ctx spec key None pre u" for pre u
      using that w granted_append [of ctx spec key pre es]
      by (auto simp: dispatch_evidence_def policy_ok_def)
    have again: "dispatch_evidence ctx spec key (es @ pre) u"
      if r: "existing = Some r" "rc_status r = RS_PENDING" and pol: "policy_ok ctx spec key (Some r) pre u"
        and rec: "sp_recovery spec = Reconcile \<longrightarrow> Call_reconcile key Rec_not_found \<in> set pre" for r pre u
    proof -
      have "findReceiptByLineageKey w (cx_run ctx) key = Some r" using r(1) w(2) by simp
      from findReceiptByLineageKey_Some [OF this] have "receipt_open key (es @ pre)"
        using r(2) w(1) by (auto simp: receipt_open_def)
      then show ?thesis
        using r w pol rec granted_append [of ctx spec key pre es]
        by (auto simp: dispatch_evidence_def policy_ok_def)
    qed
    show ?case
    proof (intro tspec_cases, goal_cases)
      case 1
      then show ?case by (intro tspec_safe_mono [OF safe_policy] fresh)
    next
      case (2 r)
      then show ?case by (auto intro!: tspec_returnP simp: safe_def)
    next
      case (3 r)
      then show ?case by (auto intro!: tspec_returnP simp: safe_def)
    next
      case (4 r)
      then show ?case by (intro tspec_safe_mono [OF safe_recovery] again) auto
    qed
  qed
next
  case (2 es pre w)
  then show ?case using granted_append [of ctx spec key pre es]
    by (auto simp: dispatch_evidence_def split: option.splits)
qed

section \<open>Properties\<close>

text \<open>
  C11: a dispatch is authorized, recorded first, single, and never blind. Whatever commits
  between its database accesses and whatever the providers answer, one execution calls the
  connector at most once, under the given key. When it does, at its last access before the
  call the attempt owned the running run with an unexpired lease; before that a pending receipt
  for the key was in the database; a required grant matched the action and the resource, was
  unexpired, and was found valid again at the boundary, with an approved, unexpired approval for
  exactly this action and key where the grant asks for one; and no receipt of the lineage
  stood in the way: there was none, or a pending one which, for a connector that reconciles,
  the provider had declared without effect.
\<close>

theorem dispatch_is_authorized:
  "\<exists>es. ps_trace (snd (executeGovernedActionFenced ctx spec key g)) = ps_trace g @ es
     \<and> (no_dispatch es
        \<or> (\<exists>pre w inp d post. es = pre @ [Db w, Call_dispatch inp d] @ post \<and> di_key inp = key
             \<and> no_dispatch pre \<and> no_dispatch post \<and> dispatch_evidence ctx spec key pre w))"
  using tspecD [OF safe_execution, of ctx spec key g]
  unfolding safe_def dispatched_def by blast

lemma filter_dispatch_Nil: "filter is_dispatch es = [] \<longleftrightarrow> no_dispatch es"
  by (auto simp: no_dispatch_def filter_empty_conv)

lemma safe_completed:
  assumes "safe A key es (Inr (Completed v False))"
  shows "length (filter is_dispatch es) = 1 \<and> committed_in es v
     \<and> (\<exists>inp ext audit. di_key inp = key \<and> Call_dispatch inp (Disp_ok v ext audit) \<in> set es)"
proof -
  obtain pre w inp post ext audit where d: "es = pre @ [Db w, Call_dispatch inp (Disp_ok v ext audit)] @ post"
      "di_key inp = key"
      "no_dispatch pre" "no_dispatch post" "committed_in post v"
    using assms by (auto simp: safe_def dispatched_def)
  then show ?thesis
    using filter_dispatch_Nil [of pre] filter_dispatch_Nil [of post] by (auto simp: committed_in_def)
qed

lemma safe_not_completed:
  "safe A key es (Inr res) \<Longrightarrow> (\<And>v. res \<noteq> Completed v False) \<Longrightarrow> no_dispatch es"
  by (auto simp: safe_def dispatched_def)

lemma completed_trace:
  assumes "fst (executeGovernedActionFenced ctx spec key g) = Inr (Completed v False)"
  shows "\<exists>es. ps_trace (snd (executeGovernedActionFenced ctx spec key g)) = ps_trace g @ es
     \<and> length (filter is_dispatch es) = 1 \<and> committed_in es v"
  using tspecD [OF safe_execution, of ctx spec key g] safe_completed unfolding assms by blast

text \<open>
  The result tells what happened. A fresh completion means exactly one dispatch, which
  returned the reported value, and a committed receipt holding that value in the database; a
  suspension, a denial, a request for reconciliation and a deduplicated completion mean that
  this execution has not called the connector.
\<close>

theorem result_is_truthful:
  assumes "fst (executeGovernedActionFenced ctx spec key g) = Inr res"
  shows "\<exists>es. ps_trace (snd (executeGovernedActionFenced ctx spec key g)) = ps_trace g @ es
     \<and> (case res of
          Completed v dedup \<Rightarrow>
            if dedup then no_dispatch es
            else length (filter is_dispatch es) = 1
               \<and> (\<exists>inp ext audit. di_key inp = key \<and> Call_dispatch inp (Disp_ok v ext audit) \<in> set es) \<and> committed_in es v
        | _ \<Rightarrow> no_dispatch es)"
proof -
  obtain es where es: "ps_trace (snd (executeGovernedActionFenced ctx spec key g)) = ps_trace g @ es"
    and safe: "safe (dispatch_evidence ctx spec key) key es (Inr res)"
    using tspecD [OF safe_execution, of ctx spec key g] assms by auto
  then show ?thesis
    using safe_completed safe_not_completed [OF safe]
    by (intro exI [of _ es]) (auto split: action_result.split bool.split)
qed

section \<open>Exactly once\<close>

text \<open>
  \<open>settled rid key r w\<close>: receipt \<open>r\<close> of the lineage of run \<open>rid\<close> is committed under \<open>key\<close>.
  Receipt operations keep committed receipts, and run operations never change the lineage
  of an existing run; here it is what the environment is assumed to keep.
\<close>

definition settled :: "string \<Rightarrow> string \<Rightarrow> receipt_row \<Rightarrow> world \<Rightarrow> bool" where
  "settled rid key r w \<longleftrightarrow>
     r \<in> set (w_receipts w) \<and> rc_idempotency_key r = key \<and> rc_status r = RS_COMMITTED
     \<and> rc_run_id r \<in> run_id ` set (lineage (w_runs w) rid)"

lemma settled_lookup:
  assumes "settled rid key r w"
  obtains r' where "findReceiptByLineageKey w rid key = Some r'" and "rc_status r' = RS_COMMITTED"
    and "rc_idempotency_key r' = key"
proof -
  have "findReceiptByLineageKey w rid key \<noteq> None"
    using assms by (auto simp: settled_def findReceiptByLineageKey_None)
  then obtain r' where r': "findReceiptByLineageKey w rid key = Some r'" by blast
  have "receipt_rank (rc_status r') \<le> receipt_rank RS_COMMITTED"
    using findReceiptByLineageKey_Some(4) [OF r', of r] assms by (auto simp: settled_def)
  then have "rc_status r' = RS_COMMITTED"
    by (cases "rc_status r'") (simp_all add: receipt_rank_def)
  then show ?thesis using that r' findReceiptByLineageKey_Some(2) [OF r'] by blast
qed

text \<open>
  C12: an action takes effect once per logical run. Once the action's receipt is committed, for
  the run or for any run it replaces, an execution by any attempt of any worker never calls the
  connector and changes nothing: it returns the recorded result, or fails because it is not the
  current owner.
\<close>

theorem committed_action_never_repeats:
  assumes "settled (cx_run ctx) key r (ps_world g)"
    and "\<And>n w. settled (cx_run ctx) key r w \<Longrightarrow> settled (cx_run ctx) key r (ps_env g n w)"
  shows "\<exists>es. ps_trace (snd (executeGovernedActionFenced ctx spec key g)) = ps_trace g @ es
     \<and> no_dispatch es
     \<and> ((\<exists>r' w. fst (executeGovernedActionFenced ctx spec key g) = Inr (Completed (result_value r') True)
             \<and> r' \<in> set (w_receipts w) \<and> Db w \<in> set es
             \<and> rc_idempotency_key r' = key \<and> rc_status r' = RS_COMMITTED)
        \<or> fst (executeGovernedActionFenced ctx spec key g)
            = Inl (GenericError ''governed action attempt is no longer current''))"
proof -
  let ?w1 = "ps_env g (ps_tick g) (ps_world g)"
  have s1: "settled (cx_run ctx) key r ?w1" using assms by blast
  show ?thesis
  proof (cases "is_current_owner ctx ?w1")
    case False
    then have "executeGovernedActionFenced ctx spec key g =
        (Inl (GenericError ''governed action attempt is no longer current''),
         g\<lparr>ps_world := ?w1, ps_tick := Suc (ps_tick g), ps_trace := ps_trace g @ [Db ?w1]\<rparr>)"
      by (simp add: executeGovernedActionFenced_def thenP_def bindP_def withTransaction_def
          assertCurrentActionOwner_def tx_eval Let_def)
    then show ?thesis by (intro exI [of _ "[Db ?w1]"]) simp
  next
    case True
    let ?w2 = "ps_env g (Suc (ps_tick g)) ?w1"
    have "settled (cx_run ctx) key r ?w2" using assms(2) s1 by blast
    then obtain r' where r': "findReceiptByLineageKey ?w2 (cx_run ctx) key = Some r'"
        "rc_status r' = RS_COMMITTED" "rc_idempotency_key r' = key"
      by (rule settled_lookup)
    have "executeGovernedActionFenced ctx spec key g =
        (Inr (Completed (result_value r') True),
         g\<lparr>ps_world := ?w2, ps_tick := Suc (Suc (ps_tick g)), ps_trace := ps_trace g @ [Db ?w1, Db ?w2]\<rparr>)"
      using True r' by (simp add: executeGovernedActionFenced_def thenP_def bindP_def withTransaction_def
          query_def returnP_def assertCurrentActionOwner_def tx_eval Let_def)
    moreover have "r' \<in> set (w_receipts ?w2)" using findReceiptByLineageKey_Some(1) [OF r'(1)] .
    ultimately show ?thesis
      using r' by (intro exI [of _ "[Db ?w1, Db ?w2]"]) auto
  qed
qed

section \<open>An authorized action completes\<close>

lemma is_current_owner_log_event:
  assumes "\<And>r. run_id (upd r) = run_id r" and "\<And>r. run_status (upd r) = run_status r"
    and "\<And>r. run_current_attempt_id (upd r) = run_current_attempt_id r"
  shows "is_current_owner ctx (log_event e upd w) = is_current_owner ctx w"
  unfolding is_current_owner_def log_event_sel log_event_other
  by (rule exists_row_update_where) (simp add: assms)

lemma append_audit_ok:
  assumes ok: "kernel_ok w" and run: "find_run w (cx_run ctx) = Some r"
  shows "\<exists>w'. append_audit ctx spec type middle w = Inr ((), w') \<and> kernel_ok w'
     \<and> find_run w' (cx_run ctx) \<noteq> None \<and> is_current_owner ctx w' = is_current_owner ctx w
     \<and> w_receipts w' = w_receipts w \<and> w_grants w' = w_grants w \<and> w_now w' = w_now w"
proof -
  let ?payload = "jspread (jspread (sp_audit spec) middle) (actionAudit spec)"
  let ?seq = "run_last_event_seq r + 1"
  let ?w' = "log_event (new_event (cx_run ctx) ?seq type ?payload (Some (cx_attempt ctx)) (w_now w))
               (append_row no_patch ?seq (w_now w)) w"
  have app: "appendEvent (cx_run ctx) type ?payload (Some (cx_attempt ctx)) no_patch w = Inr (?seq, ?w')"
    using run next_seq_free [OF kernel_okD [OF ok] run] by (simp add: appendEvent_iff)
  have "append_audit ctx spec type middle w = Inr ((), ?w')"
    by (simp add: append_audit_def tx_eval app)
  moreover have "kernel_ok ?w'" by (rule hoareD [OF appendEvent_kernel_ok ok app])
  moreover have "find_run ?w' (cx_run ctx) \<noteq> None"
    using run by (simp add: find_run_def find_key_update)
  moreover have "is_current_owner ctx ?w' = is_current_owner ctx w"
    by (rule is_current_owner_log_event) (simp_all add: append_row_def)
  ultimately show ?thesis by (intro exI [of _ ?w']) simp
qed

lemma is_current_owner_cong:
  "w_runs w' = w_runs w \<Longrightarrow> w_attempts w' = w_attempts w \<Longrightarrow> w_now w' = w_now w \<Longrightarrow>
   is_current_owner ctx w' = is_current_owner ctx w"
  by (simp add: is_current_owner_def)

lemma owner_run: "is_current_owner ctx w \<Longrightarrow> ledger_ok w \<Longrightarrow> \<exists>r. find_run w (cx_run ctx) = Some r"
  by (auto simp: is_current_owner_def exists_row_iff find_run_iff)

lemma open_receipt_ok:
  assumes ok: "kernel_ok w" and owner: "is_current_owner ctx w"
    and gok: "grants_ok w" and g: "g \<in> set (matching_grants w (cx_run ctx) (sp_action spec) (sp_resource spec))"
    and fresh: "\<forall>r \<in> set (w_receipts w). rc_id r \<noteq> ''rcpt_'' @ toLowerCase (w_ulid w (w_ulid_next w))"
    and key: "\<forall>r \<in> set (w_receipts w). \<not> (rc_run_id r = cx_run ctx \<and> rc_idempotency_key r = key)"
  shows "\<exists>row w'. open_receipt ctx spec key (Some g) aid w = Inr (row, w')
     \<and> kernel_ok w' \<and> is_current_owner ctx w'
     \<and> row_count (pending_receipt (rc_id row)) (w_receipts w') = 1
     \<and> revalidateGrantForDispatch w' (gr_id g) (cx_run ctx) (sp_action spec) (sp_resource spec)"
proof -
  note gD = matching_grantsD [OF g]
  have uniq: "r = g" if "r \<in> set (w_grants w)" "gr_id r = gr_id g" for r
    using gok gD that by (auto simp: grants_ok_def distinct_map inj_on_def)
  have "find (\<lambda>r. gr_id r = gr_id g) (matching_grants w (cx_run ctx) (sp_action spec) (sp_resource spec)) = Some g"
  proof -
    obtain h where h: "find (\<lambda>r. gr_id r = gr_id g)
        (matching_grants w (cx_run ctx) (sp_action spec) (sp_resource spec)) = Some h"
      using g by (cases "find (\<lambda>r. gr_id r = gr_id g)
        (matching_grants w (cx_run ctx) (sp_action spec) (sp_resource spec))") (auto simp: find_None_iff_all)
    from find_SomeD [OF h] matching_grantsD uniq have "h = g" by blast
    with h show ?thesis by simp
  qed
  then have auth: "authorizeAndConsume (cx_run ctx) (sp_action spec) (sp_resource spec) (Some (gr_id g)) w =
      Inr (GrantAllowed g (gr_requires_approval g),
           w\<lparr>w_grants := update_where (\<lambda>r. gr_id r = gr_id g) (\<lambda>r. r\<lparr>gr_calls_used := gr_calls_used r + 1\<rparr>) (w_grants w)\<rparr>)"
    by (simp add: authorizeAndConsume_def tx_eval)
  define w1 where "w1 = w\<lparr>w_grants := update_where (\<lambda>r. gr_id r = gr_id g)
      (\<lambda>r. r\<lparr>gr_calls_used := gr_calls_used r + 1\<rparr>) (w_grants w)\<rparr>"
  define input where "input = \<lparr>ri_runId = cx_run ctx, ri_attemptId = cx_attempt ctx, ri_step = cx_step ctx,
               ri_action = sp_action spec, ri_args = sp_args spec, ri_idempotencyKey = key,
               ri_approvalId = aid,
               ri_reversibility = Some (case sp_classification spec of
                  Action_read \<Rightarrow> ''reversible'' | Action_mutation \<Rightarrow> ''irreversible'')\<rparr>"
  define row where "row = new_receipt (cx_sha256 ctx) (cx_fmt ctx) input
      (''rcpt_'' @ toLowerCase (w_ulid w (w_ulid_next w))) (w_now w)"
  define w2 where "w2 = w1\<lparr>w_ulid_next := Suc (w_ulid_next w), w_receipts := w_receipts w @ [row]\<rparr>"
  have rid: "rc_id row = ''rcpt_'' @ toLowerCase (w_ulid w (w_ulid_next w))" "rc_status row = RS_PENDING"
    by (simp_all add: row_def new_receipt_def)
  have ins: "insertPendingReceipt (cx_sha256 ctx) (cx_fmt ctx) input w1 = Inr (row, w2)"
    using fresh key by (simp add: insertPendingReceipt_iff row_def w1_def w2_def exists_row_iff new_receipt_def input_def)
  have ok2: "kernel_ok w2"
    using ok by (subst kernel_ok_cong [of _ w]) (simp_all add: w2_def w1_def)
  have owner2: "is_current_owner ctx w2"
    using owner by (subst is_current_owner_cong [of _ w]) (simp_all add: w2_def w1_def)
  obtain r where "find_run w2 (cx_run ctx) = Some r" using owner_run [OF owner2] ok2 by blast
  from append_audit_ok [OF ok2 this, of spec ToolInvocationStarted "[(''receiptId'', JStr (rc_id row))]"]
  obtain w3 where app: "append_audit ctx spec ToolInvocationStarted [(''receiptId'', JStr (rc_id row))] w2 = Inr ((), w3)"
    and w3: "kernel_ok w3" "is_current_owner ctx w3 = is_current_owner ctx w2"
      "w_receipts w3 = w_receipts w2" "w_grants w3 = w_grants w2" "w_now w3 = w_now w2"
    by blast
  have "open_receipt ctx spec key (Some g) aid w = Inr (row, w3)"
    by (simp add: open_receipt_def tx_eval auth w1_def [symmetric] input_def [symmetric] ins app)
  moreover have "row_count (pending_receipt (rc_id row)) (w_receipts w3) = 1"
    using fresh rid by (auto simp: w3 w2_def row_count_def pending_receipt_def filter_empty_conv)
  moreover have "revalidateGrantForDispatch w3 (gr_id g) (cx_run ctx) (sp_action spec) (sp_resource spec)"
  proof -
    have "find (\<lambda>g'. gr_id g' = gr_id g \<and> gr_run_id g' = cx_run ctx) (w_grants w) = Some g"
    proof -
      obtain h where h: "find (\<lambda>g'. gr_id g' = gr_id g \<and> gr_run_id g' = cx_run ctx) (w_grants w) = Some h"
        using gD by (cases "find (\<lambda>g'. gr_id g' = gr_id g \<and> gr_run_id g' = cx_run ctx) (w_grants w)")
          (auto simp: find_None_iff_all)
      from find_SomeD [OF h] uniq have "h = g" by blast
      with h show ?thesis by simp
    qed
    then have "find (\<lambda>g'. gr_id g' = gr_id g \<and> gr_run_id g' = cx_run ctx) (w_grants w3) =
        Some (g\<lparr>gr_calls_used := gr_calls_used g + 1\<rparr>)"
      unfolding w3 w2_def w1_def by (simp add: find_update_where)
    then show ?thesis using gD by (simp add: revalidateGrantForDispatch_def is_unexpired_def w3(5) w2_def w1_def split: option.splits)
  qed
  ultimately show ?thesis using w3 owner2 by blast
qed

lemma usable_matching:
  assumes "g \<in> set (usable_grants spec False (declared_grants ctx spec w))"
  shows "g \<in> set (matching_grants w (cx_run ctx) (sp_action spec) (sp_resource spec))"
  using assms
  by (auto simp: usable_grants_def declared_grants_def listGrantsWithEligibility_def matching_grants_def Let_def
      split: if_splits)

lemma lineage_self: "find_run w rid = Some r \<Longrightarrow> rid \<in> run_id ` set (lineage (w_runs w) rid)"
  by (subst lineage.simps) (auto simp: find_run_def dest: find_SomeD)

lemma withTransaction_calm:
  "ps_env g = (\<lambda>_ w. w) \<Longrightarrow> m (ps_world g) = Inr (x, w) \<Longrightarrow>
   withTransaction m g = (Inr x, g\<lparr>ps_world := w, ps_tick := Suc (ps_tick g), ps_trace := ps_trace g @ [Db w]\<rparr>)"
  by (simp add: withTransaction_def commit_def)

text \<open>The check of the tool accepts the grants, and the broker, if there is one, answers with \<open>cred\<close>.\<close>

definition validation_passes :: "action_spec \<Rightarrow> (grant_row \<times> bool) list \<Rightarrow> grant_row list \<Rightarrow> bool" where
  "validation_passes spec declared usable =
     (case sp_validate spec of
        None \<Rightarrow> True
      | Some v \<Rightarrow> v (declared \<noteq> []) (map (\<lambda>(g, _). gr_resource_pattern g) declared)
                    (map gr_resource_pattern usable) = None)"

definition broker_answers :: "action_ctx \<Rightarrow> (string \<times> string) option \<Rightarrow> bool" where
  "broker_answers ctx cred \<longleftrightarrow>
     (case cx_credentials ctx of None \<Rightarrow> cred = None | Some f \<Rightarrow> f = (\<lambda>_. Cred_resolved cred))"

lemma credential_completes:
  assumes "ps_env g = (\<lambda>_ w. w)" and "broker_answers ctx cred" and "usable = Some gr" and "\<not> gr_requires_approval gr"
  obtains k es where "fenced_credential ctx spec key patterns pending knownAbsent usable None g =
      fenced_receipt ctx spec \<lparr>di_key = key, di_credential = cred, di_patterns = patterns\<rparr> pending knownAbsent usable None
        (g\<lparr>ps_tick := k, ps_trace := ps_trace g @ es\<rparr>)"
proof (cases "cx_credentials ctx")
  case None
  with assms have "fenced_credential ctx spec key patterns pending knownAbsent usable None g =
      fenced_receipt ctx spec \<lparr>di_key = key, di_credential = cred, di_patterns = patterns\<rparr> pending knownAbsent usable None
        (g\<lparr>ps_tick := ps_tick g, ps_trace := ps_trace g @ []\<rparr>)"
    by (simp add: fenced_credential_def broker_answers_def bindP_def returnP_def)
  then show thesis by (rule that)
next
  case (Some f)
  with assms have "fenced_credential ctx spec key patterns pending knownAbsent usable None g =
      fenced_receipt ctx spec \<lparr>di_key = key, di_credential = cred, di_patterns = patterns\<rparr> pending knownAbsent usable None
        (g\<lparr>ps_tick := Suc (ps_tick g), ps_trace := ps_trace g @ [Call_credential key (Cred_resolved cred)]\<rparr>)"
    by (simp add: fenced_credential_def broker_answers_def bindP_def external_def Let_def)
  then show thesis by (rule that)
qed

lemma authorized_completes:
  assumes calm: "ps_env g = (\<lambda>_ w. w)"
    and ok: "kernel_ok (ps_world g)" "grants_ok (ps_world g)"
    and owner: "is_current_owner ctx (ps_world g)"
    and none: "findReceiptByLineageKey (ps_world g) (cx_run ctx) key = None"
    and usable: "usable_grants spec False (declared_grants ctx spec (ps_world g)) = gr # grs"
    and free: "\<not> gr_requires_approval gr"
    and fresh: "\<forall>r \<in> set (w_receipts (ps_world g)).
        rc_id r \<noteq> ''rcpt_'' @ toLowerCase (w_ulid (ps_world g) (w_ulid_next (ps_world g)))"
    and valid: "validation_passes spec (declared_grants ctx spec (ps_world g)) (gr # grs)"
    and broker: "broker_answers ctx cred"
    and hooks: "sp_beforeDispatch spec = None" "sp_afterDispatch spec = None" "sp_afterCommit spec = None"
    and answer: "\<And>n. sp_dispatch spec
        \<lparr>di_key = key, di_credential = cred, di_patterns = map gr_resource_pattern (gr # grs)\<rparr> n = Disp_ok v ext audit"
  shows "fst (executeGovernedActionFenced ctx spec key g) = Inr (Completed v False)"
proof -
  let ?w = "ps_world g"
  obtain r where r: "find_run ?w (cx_run ctx) = Some r" using owner_run [OF owner] ok(1) by blast
  have key_free: "\<forall>r \<in> set (w_receipts ?w). \<not> (rc_run_id r = cx_run ctx \<and> rc_idempotency_key r = key)"
    using none lineage_self [OF r] by (auto simp: findReceiptByLineageKey_None)
  have "gr \<in> set (matching_grants ?w (cx_run ctx) (sp_action spec) (sp_resource spec))"
    by (rule usable_matching) (simp add: usable)
  from open_receipt_ok [OF ok(1) owner ok(2) this fresh key_free, of None]
  obtain row w1 where opened: "open_receipt ctx spec key (Some gr) None ?w = Inr (row, w1)"
    and w1: "kernel_ok w1" "is_current_owner ctx w1"
      "row_count (pending_receipt (rc_id row)) (w_receipts w1) = 1"
      "revalidateGrantForDispatch w1 (gr_id gr) (cx_run ctx) (sp_action spec) (sp_resource spec)"
    by blast
  have "\<exists>w2. commit_action ctx spec (rc_id row) v ext audit False w1 = Inr ((), w2)"
  proof -
    obtain u where c: "commitReceipt (cx_sha256 ctx) (cx_fmt ctx) (rc_id row) ext v w1 = Inr ((), u)"
      using w1(3) by (simp add: commitReceipt_def tx_eval)
    then have u: "kernel_ok u" "find_run u (cx_run ctx) = find_run w1 (cx_run ctx)"
      using w1(1) kernel_ok_cong [of u w1] by (auto simp: commitReceipt_def tx_simps)
    then obtain w3 where "append_audit ctx spec ToolInvocationCommitted
        (jspread audit [(''receiptId'', JStr (rc_id row))]) u = Inr ((), w3)"
      using append_audit_ok [of u ctx] owner_run [OF w1(2)] w1(1) by fastforce
    then show ?thesis
      using w1(2) c by (auto simp: commit_action_def tx_eval assertCurrentActionOwner_def)
  qed
  then obtain w2 where commit: "commit_action ctx spec (rc_id row) v ext audit False w1 = Inr ((), w2)" ..
  have assert: "assertCurrentActionOwner ctx u = Inr ((), u)" if "is_current_owner ctx u" for u
    using that by (simp add: assertCurrentActionOwner_def tx_eval)
  have receipt: "fst (fenced_receipt ctx spec \<lparr>di_key = key, di_credential = cred, di_patterns = map gr_resource_pattern (gr # grs)\<rparr>
      None False (Some gr) None h) = Inr (Completed v False)"
    if "ps_env h = (\<lambda>_ w. w)" "ps_world h = ?w" for h
    using that answer
    by (simp add: query_def fenced_receipt_def fenced_boundary_def fenced_dispatch_def thenP_def bindP_def returnP_def
        maybe_throw_def catchP_def external_def Let_def withTransaction_calm assert hooks free opened w1 commit getsT_def)
  define h where "h = snd (query (declared_grants ctx spec) (snd (query (\<lambda>w. findReceiptByLineageKey w (cx_run ctx) key)
      (snd (withTransaction (assertCurrentActionOwner ctx) g)))))"
  have h: "ps_env h = (\<lambda>_ w. w)" "ps_world h = ?w"
    by (simp_all add: h_def query_def withTransaction_calm calm assert owner getsT_def)
  obtain k es where credential: "fenced_credential ctx spec key (map gr_resource_pattern (gr # grs)) None False (Some gr) None h =
      fenced_receipt ctx spec \<lparr>di_key = key, di_credential = cred, di_patterns = map gr_resource_pattern (gr # grs)\<rparr>
        None False (Some gr) None (h\<lparr>ps_tick := k, ps_trace := ps_trace h @ es\<rparr>)"
    using credential_completes [OF h(1) broker refl free] by blast
  have passes: "(case sp_validate spec of None \<Rightarrow> None
      | Some v \<Rightarrow> v (declared_grants ctx spec ?w \<noteq> []) (map (\<lambda>(g, _). gr_resource_pattern g) (declared_grants ctx spec ?w))
          (map gr_resource_pattern (usable_grants spec False (declared_grants ctx spec ?w)))) = None"
    using valid by (cases "sp_validate spec") (simp_all add: validation_passes_def usable)
  have "executeGovernedActionFenced ctx spec key g =
      fenced_credential ctx spec key (map gr_resource_pattern (gr # grs)) None False (Some gr) None h"
    by (simp add: executeGovernedActionFenced_def fenced_policy_def fenced_approval_def passes
        query_def thenP_def bindP_def h_def Let_def withTransaction_calm calm assert owner none usable [THEN arg_cong, of "case_list None (\<lambda>g _. Some g)"] usable free getsT_def)
  then show ?thesis using receipt [of "h\<lparr>ps_tick := k, ps_trace := ps_trace h @ es\<rparr>"] h
    unfolding credential by simp
qed

text \<open>
  C13: an authorized action goes through. When nothing interferes, the caller owns the run, no
  receipt of the lineage has the key, the first usable grant needs no approval, the new
  receipt's id is new, the check of the tool passes, the broker answers and no hook or connector
  fails, the execution completes with the dispatched value
  after exactly one call.
\<close>

theorem authorized_action_completes:
  assumes calm: "ps_env g = (\<lambda>_ w. w)"
    and ok: "kernel_ok (ps_world g)" "grants_ok (ps_world g)"
    and owner: "is_current_owner ctx (ps_world g)"
    and none: "findReceiptByLineageKey (ps_world g) (cx_run ctx) key = None"
    and usable: "usable_grants spec False (declared_grants ctx spec (ps_world g)) = gr # grs"
    and free: "\<not> gr_requires_approval gr"
    and fresh: "\<forall>r \<in> set (w_receipts (ps_world g)).
        rc_id r \<noteq> ''rcpt_'' @ toLowerCase (w_ulid (ps_world g) (w_ulid_next (ps_world g)))"
    and valid: "validation_passes spec (declared_grants ctx spec (ps_world g)) (gr # grs)"
    and broker: "broker_answers ctx cred"
    and hooks: "sp_beforeDispatch spec = None" "sp_afterDispatch spec = None" "sp_afterCommit spec = None"
    and answer: "\<And>n. sp_dispatch spec
        \<lparr>di_key = key, di_credential = cred, di_patterns = map gr_resource_pattern (gr # grs)\<rparr> n = Disp_ok v ext audit"
  shows "fst (executeGovernedActionFenced ctx spec key g) = Inr (Completed v False)
     \<and> (\<exists>es. ps_trace (snd (executeGovernedActionFenced ctx spec key g)) = ps_trace g @ es
          \<and> length (filter is_dispatch es) = 1 \<and> committed_in es v)"
  using authorized_completes [OF assms] completed_trace by blast

section \<open>Examples\<close>

definition demo_ctx :: action_ctx where
  "demo_ctx = \<lparr>cx_run = ''run_1'', cx_attempt = ''att_1'', cx_step = 3, cx_credentials = None,
     cx_sha256 = (\<lambda>s. s), cx_fmt = (\<lambda>_. [])\<rparr>"

definition demo_spec :: action_spec where
  "demo_spec =
     \<lparr>sp_connector = ''http'', sp_purpose = None, sp_action = ''http.get'', sp_resource = ''r'',
      sp_args = [], sp_classification = Action_mutation, sp_requireGrant = True,
      sp_preferExact = False, sp_recovery = Reconcile, sp_audit = [], sp_validate = None,
      sp_beforeDispatch = None, sp_afterDispatch = None, sp_afterCommit = None,
      sp_reconcile = Some (\<lambda>_ _. Rec_not_found), sp_dispatch = (\<lambda>_ _. Disp_ok [(''ok'', JBool True)] None [])\<rparr>"

definition demo_proc :: "receipt_row list \<Rightarrow> proc_state" where
  "demo_proc rs =
     \<lparr>ps_world = (demo_world RUNNING)\<lparr>w_grants := [demo_grant], w_receipts := rs\<rparr>,
      ps_env = (\<lambda>_ w. w), ps_tick = 0, ps_trace = []\<rparr>"

lemma demo_conditions:
  "ps_env (demo_proc []) = (\<lambda>_ w. w)"
  "kernel_ok (ps_world (demo_proc []))" "grants_ok (ps_world (demo_proc []))"
  "is_current_owner demo_ctx (ps_world (demo_proc []))"
  "findReceiptByLineageKey (ps_world (demo_proc [])) (cx_run demo_ctx) ''k'' = None"
proof -
  show "kernel_ok (ps_world (demo_proc []))"
    using demo_world_ok [of RUNNING] kernel_ok_cong [of "ps_world (demo_proc [])" "demo_world RUNNING"]
    by (simp add: demo_proc_def)
qed (simp_all add: demo_proc_def demo_ctx_def grants_ok_def demo_grant_def is_current_owner_def exists_row_iff
      demo_attempt_def findReceiptByLineageKey_None)

lemma demo_usable:
  "usable_grants demo_spec False (declared_grants demo_ctx demo_spec (ps_world (demo_proc []))) = [demo_grant]"
proof -
  have "patternMatches ''http.*'' ''http.get''" "patternMatches ''*'' ''r''" by code_simp+
  then show ?thesis
    by (simp add: usable_grants_def declared_grants_def listGrantsWithEligibility_def demo_proc_def demo_ctx_def
        demo_spec_def demo_grant_def is_unexpired_def calls_left_def)
qed

lemma demo_completes:
  "fst (executeGovernedActionFenced demo_ctx demo_spec ''k'' (demo_proc [])) = Inr (Completed [(''ok'', JBool True)] False)"
  by (rule authorized_completes [OF demo_conditions demo_usable])
     (simp_all add: demo_grant_def demo_proc_def demo_spec_def demo_ctx_def validation_passes_def broker_answers_def)

theorem authorized_action_completes_witness:
  "fst (executeGovernedActionFenced demo_ctx demo_spec ''k'' (demo_proc [])) = Inr (Completed [(''ok'', JBool True)] False)"
  by (rule conjunct1 [OF authorized_action_completes [OF demo_conditions demo_usable]])
     (simp_all add: demo_grant_def demo_proc_def demo_spec_def demo_ctx_def validation_passes_def broker_answers_def)

theorem result_is_truthful_witness:
  "length (filter is_dispatch
     (ps_trace (snd (executeGovernedActionFenced demo_ctx demo_spec ''k'' (demo_proc []))))) = 1"
  using result_is_truthful [OF demo_completes] by (auto simp: demo_proc_def)

theorem committed_action_never_repeats_witness:
  "no_dispatch (ps_trace (snd (executeGovernedActionFenced demo_ctx demo_spec ''k'' (demo_proc [demo_committed]))))"
proof -
  have "lineage [demo_run RUNNING] ''run_1'' = [demo_run RUNNING]"
    by (subst lineage.simps) (simp add: demo_run_def)
  then have "settled (cx_run demo_ctx) ''k'' demo_committed (ps_world (demo_proc [demo_committed]))"
    by (simp add: settled_def demo_proc_def demo_ctx_def demo_committed_def demo_receipt_def)
  then show ?thesis
    using committed_action_never_repeats [of demo_ctx "''k''" demo_committed "demo_proc [demo_committed]" demo_spec]
    by (auto simp: demo_proc_def)
qed

end
