(* ===== verification/Fence_Admission.thy ===== *)
theory Fence_Admission
  imports Main
begin

text \<open>
  \<^verbatim>\<open>acquireFenceAdmission\<close> of \<^verbatim>\<open>src/harness/governedAction.ts\<close>: the in-process semaphore that
  keeps governed actions from taking every connection of a pool. A permit passes directly from
  its holder to the longest waiter. \<open>pa_holders\<close> are the callers whose release function has not
  been called yet; calling it again does nothing.
\<close>

record pool_admission =
  pa_active :: nat
  pa_limit :: nat
  pa_waiters :: "string list"
  pa_holders :: "string list"

definition new_admission :: "nat \<Rightarrow> pool_admission" where
  "new_admission configuredMax =
     \<lparr>pa_active = 0, pa_limit = max 1 (configuredMax - 1), pa_waiters = [], pa_holders = []\<rparr>"

definition acquireFenceAdmission :: "string \<Rightarrow> pool_admission \<Rightarrow> pool_admission" where
  "acquireFenceAdmission c a =
     (if pa_limit a \<le> pa_active a then a\<lparr>pa_waiters := pa_waiters a @ [c]\<rparr>
      else a\<lparr>pa_active := pa_active a + 1, pa_holders := pa_holders a @ [c]\<rparr>)"

definition releaseFenceAdmission :: "string \<Rightarrow> pool_admission \<Rightarrow> pool_admission" where
  "releaseFenceAdmission c a =
     (if c \<notin> set (pa_holders a) then a
      else case pa_waiters a of
             next_ # rest \<Rightarrow> a\<lparr>pa_waiters := rest, pa_holders := remove1 c (pa_holders a) @ [next_]\<rparr>
           | [] \<Rightarrow> a\<lparr>pa_active := pa_active a - 1, pa_holders := remove1 c (pa_holders a)\<rparr>)"

inductive admission_reach :: "nat \<Rightarrow> pool_admission \<Rightarrow> bool" for configuredMax where
  start: "admission_reach configuredMax (new_admission configuredMax)"
| acquire: "admission_reach configuredMax a \<Longrightarrow> c \<notin> set (pa_holders a) \<union> set (pa_waiters a) \<Longrightarrow>
    admission_reach configuredMax (acquireFenceAdmission c a)"
| release: "admission_reach configuredMax a \<Longrightarrow> admission_reach configuredMax (releaseFenceAdmission c a)"

definition admission_inv :: "nat \<Rightarrow> pool_admission \<Rightarrow> bool" where
  "admission_inv configuredMax a \<longleftrightarrow>
     pa_limit a = max 1 (configuredMax - 1)
     \<and> length (pa_holders a) = pa_active a \<and> pa_active a \<le> pa_limit a
     \<and> (pa_waiters a \<noteq> [] \<longrightarrow> pa_active a = pa_limit a)
     \<and> distinct (pa_holders a @ pa_waiters a)"

lemma admission_inv_acquire:
  "admission_inv m a \<Longrightarrow> c \<notin> set (pa_holders a) \<union> set (pa_waiters a) \<Longrightarrow>
   admission_inv m (acquireFenceAdmission c a)"
  by (auto simp: admission_inv_def acquireFenceAdmission_def)

lemma admission_inv_release: "admission_inv m a \<Longrightarrow> admission_inv m (releaseFenceAdmission c a)"
proof (cases "c \<in> set (pa_holders a)")
  case False
  then show "admission_inv m a \<Longrightarrow> ?thesis" by (simp add: releaseFenceAdmission_def)
next
  case True
  assume inv: "admission_inv m a"
  then have "0 < pa_active a" using True by (auto simp: admission_inv_def)
  moreover have "set (remove1 c (pa_holders a)) \<subseteq> set (pa_holders a)" by (rule set_remove1_subset)
  ultimately show ?thesis
    using True inv
    by (cases "pa_waiters a")
       (auto simp: admission_inv_def releaseFenceAdmission_def length_remove1 distinct_remove1)
qed

lemma admission_reach_inv: "admission_reach m a \<Longrightarrow> admission_inv m a"
proof (induction rule: admission_reach.induct)
  case start
  then show ?case by (simp add: admission_inv_def new_admission_def)
qed (auto intro: admission_inv_acquire admission_inv_release)

text \<open>
  C17: governed actions never exhaust the pool. In every reachable state the permits in use are
  exactly the callers that hold one, at most one below the pool's size (and at least one), and
  nobody waits while a permit is free.
\<close>

theorem fence_admission_bounded:
  assumes "admission_reach configuredMax a"
  shows "length (pa_holders a) = pa_active a \<and> pa_active a \<le> max 1 (configuredMax - 1)
     \<and> (pa_waiters a \<noteq> [] \<longrightarrow> pa_active a = max 1 (configuredMax - 1))
     \<and> distinct (pa_holders a @ pa_waiters a)"
  using admission_reach_inv [OF assms] by (simp add: admission_inv_def)

theorem fence_admission_bounded_witness:
  "pa_holders (releaseFenceAdmission ''a'' (acquireFenceAdmission ''b''
     (acquireFenceAdmission ''a'' (new_admission 2)))) = [''b'']
   \<and> pa_active (releaseFenceAdmission ''a'' (acquireFenceAdmission ''b''
     (acquireFenceAdmission ''a'' (new_admission 2)))) \<le> 1"
proof -
  let ?a = "releaseFenceAdmission ''a'' (acquireFenceAdmission ''b'' (acquireFenceAdmission ''a'' (new_admission 2)))"
  have "admission_reach 2 ?a"
    by (intro admission_reach.intros) (simp_all add: new_admission_def acquireFenceAdmission_def)
  from fence_admission_bounded [OF this] show ?thesis
    by (simp add: new_admission_def acquireFenceAdmission_def releaseFenceAdmission_def)
qed

end
