(* ===== verification/Children.thy ===== *)
theory Children
  imports Runs Grants
begin

text \<open>
  Delegation: \<^verbatim>\<open>src/scheduler/children.ts\<close>, \<^verbatim>\<open>src/store/childLineage.ts\<close> and
  \<^verbatim>\<open>src/core/delegatedResults.ts\<close>. A parent spawns children and waits; when all of them are
  terminal a worker either replaces the failed ones that still may be replaced, or resumes the
  parent with the outcome of the current generation.
\<close>

section \<open>Bounded results\<close>

definition MAX_DELEGATED_RESULT_BYTES :: nat where "MAX_DELEGATED_RESULT_BYTES = 65536"
definition MAX_DELEGATED_CHILDREN :: nat where "MAX_DELEGATED_CHILDREN = 8"
definition MAX_DELEGATED_GOAL_BYTES :: nat where "MAX_DELEGATED_GOAL_BYTES = 4096"

text \<open>\<open>encode\<close> is the length in bytes of \<^verbatim>\<open>JSON.stringify\<close>.\<close>

definition buildBoundedRunResult ::
    "(json \<Rightarrow> nat) \<Rightarrow> string \<Rightarrow> json \<Rightarrow> err + (json \<times> nat)" where
  "buildBoundedRunResult encode summary data =
     (let normalized = (case data of JObj kvs \<Rightarrow> JObj kvs | _ \<Rightarrow> JObj []);
          v = JObj [(''schemaVersion'', jint 1), (''summary'', JStr summary), (''data'', normalized)];
          sizeBytes = encode v
      in if MAX_DELEGATED_RESULT_BYTES < sizeBytes
         then Inl (GenericError ''structured run result exceeds 65536 encoded bytes'')
         else Inr (v, sizeBytes))"

section \<open>Spawning\<close>

record child_spec =
  cs_agentVersionId :: string
  cs_goal :: string
  cs_input :: "(string \<times> json) list option"
  cs_grants :: "grant_spec list"
  cs_tokenBudget :: "int option"
  cs_maxSteps :: "int option"

definition child_input :: "string \<Rightarrow> string \<Rightarrow> child_spec \<Rightarrow> create_run_input" where
  "child_input tid pid c =
     \<lparr>cr_tenantId = tid, cr_managedSessionId = None, cr_agentVersionId = cs_agentVersionId c,
      cr_goal = cs_goal c, cr_input = cs_input c, cr_maxSteps = cs_maxSteps c,
      cr_tokenBudget = cs_tokenBudget c, cr_scheduledFor = None, cr_parentRunId = Some pid,
      cr_replacesRunId = None, cr_replacementGeneration = None, cr_forkedFromRunId = None,
      cr_progress = None, cr_grants = cs_grants c, cr_debugFaultPoints = []\<rparr>"

definition to_waiting_children :: "string \<Rightarrow> string list \<Rightarrow> transition_options" where
  "to_waiting_children attemptId ids =
     \<lparr>to_expectFrom = [RUNNING], to_to = WAITING_CHILDREN, to_type = ChildRunSpawned,
      to_payload = [(''childRunIds'', JArr (map JStr ids))], to_attempt = Some attemptId,
      to_reason = None, to_patch = no_patch\<lparr>p_current_attempt_id := Some None\<rparr>\<rparr>"

definition spawn_child :: "string \<Rightarrow> string \<Rightarrow> string \<Rightarrow> child_spec \<Rightarrow> string txn" where
  "spawn_child tid pid attemptId c =
     bindT (createRun (child_input tid pid c)) (\<lambda>child.
     thenT (appendEvent pid ChildRunSpawned
              [(''childRunId'', JStr (run_id child)), (''goal'', JStr (cs_goal c))]
              (Some attemptId) no_patch)
           (returnT (run_id child)))"

definition spawnChildren :: "string \<Rightarrow> string \<Rightarrow> child_spec list \<Rightarrow> string list txn" where
  "spawnChildren pid attemptId children =
     thenT (ensureT (\<not> (length children < 1 \<or> MAX_DELEGATED_CHILDREN < length children))
              (GenericError ''delegation requires 1-8 children''))
    (thenT (ensureT (\<not> list_ex (\<lambda>c. MAX_DELEGATED_GOAL_BYTES < length (cs_goal c)) children)
              (GenericError ''delegated goals must not exceed 4096 encoded bytes''))
    (bindT (lockRun pid) (\<lambda>ownership.
     thenT (lockRunAdmissionTenant (run_tenant_id ownership))
    (bindT (lockRun pid) (\<lambda>parent.
     bindT (mapT (spawn_child (run_tenant_id parent) pid attemptId) children) (\<lambda>ids.
     thenT (transitionRun pid (to_waiting_children attemptId ids))
           (returnT ids)))))))"

section \<open>Lineage projection\<close>

record child_result =
  ch_rootRunId :: string
  ch_runId :: string
  ch_replacesRunId :: "string option"
  ch_generation :: int
  ch_selected :: bool
  ch_goal :: string
  ch_status :: run_status
  ch_terminalReason :: string
  ch_result :: "json option"
  ch_resultSizeBytes :: "int option"
  ch_artifacts :: "artifact_row list"
  ch_evidence :: "(int \<times> event_type) option"
  ch_tokens :: int

definition terminal_event :: "world \<Rightarrow> string \<Rightarrow> (int \<times> event_type) option" where
  "terminal_event w rid =
     (case rev (sort_key ev_seq (filter (\<lambda>e. ev_run_id e = rid
              \<and> ev_type e \<in> {RunCompleted, RunFailed, RunCancelled}) (w_events w))) of
        [] \<Rightarrow> None
      | e # _ \<Rightarrow> Some (ev_seq e, ev_type e))"

text \<open>\<^verbatim>\<open>rootOf\<close>, with its cycle and missing-predecessor errors.\<close>

function root_of :: "run_row list \<Rightarrow> run_row \<Rightarrow> string list \<Rightarrow> err + string" where
  "root_of rows cursor visited =
     (case run_replaces_run_id cursor of
        None \<Rightarrow> Inr (run_id cursor)
      | Some p \<Rightarrow>
          if run_id cursor \<in> set visited
          then Inl (GenericError (''replacement lineage cycle at '' @ run_id cursor))
          else case find (\<lambda>r. run_id r = p) rows of
                 None \<Rightarrow> Inl (GenericError (''replacement lineage predecessor missing: '' @ run_id cursor))
               | Some previous \<Rightarrow> root_of rows previous (run_id cursor # visited))"
  by pat_completeness auto
termination
proof (relation "measure (\<lambda>(rows, cursor, visited).
    card ((insert (run_id cursor) (run_id ` set rows)) - set visited))")
  fix rows :: "run_row list" and cursor previous :: run_row
    and visited :: "string list" and p :: string
  assume "run_id cursor \<notin> set visited" and f: "find (\<lambda>r. run_id r = p) rows = Some previous"
  have "previous \<in> set rows" using find_SomeD [OF f] by blast
  then have "insert (run_id previous) (run_id ` set rows) - set (run_id cursor # visited)
      \<subset> insert (run_id cursor) (run_id ` set rows) - set visited"
    using \<open>run_id cursor \<notin> set visited\<close> by auto
  then show "((rows, previous, run_id cursor # visited), (rows, cursor, visited))
      \<in> measure (\<lambda>(rows, cursor, visited). card ((insert (run_id cursor) (run_id ` set rows)) - set visited))"
    by (simp add: psubset_card_mono)
qed simp

declare root_of.simps [simp del]

definition child_rows :: "world \<Rightarrow> string \<Rightarrow> string \<Rightarrow> run_row list" where
  "child_rows w pid tid =
     sort_key (\<lambda>r. (run_replacement_generation r, run_created_at r, run_id r))
       (filter (\<lambda>r. run_parent_run_id r = Some pid \<and> run_tenant_id r = tid) (w_runs w))"

definition child_result_of :: "world \<Rightarrow> run_row list \<Rightarrow> run_row \<Rightarrow> err + child_result" where
  "child_result_of w rows row =
     (case root_of rows row [] of
        Inl e \<Rightarrow> Inl e
      | Inr rootId \<Rightarrow> Inr
         \<lparr>ch_rootRunId = rootId, ch_runId = run_id row, ch_replacesRunId = run_replaces_run_id row,
          ch_generation = run_replacement_generation row,
          ch_selected = (\<not> list_ex (\<lambda>r. run_replaces_run_id r = Some (run_id row)) rows),
          ch_goal = run_goal row, ch_status = run_status row,
          ch_terminalReason =
            (case run_status_reason row of
               None \<Rightarrow> toLowerCase (run_status_name (run_status row)) | Some r \<Rightarrow> r),
          ch_result = run_result row, ch_resultSizeBytes = run_result_size_bytes row,
          ch_artifacts = sort_key (\<lambda>a. (art_created_at a, art_id a))
             (filter (\<lambda>a. art_producer_run_id a = run_id row) (w_artifacts w)),
          ch_evidence = terminal_event w (run_id row),
          ch_tokens = run_tokens_used row\<rparr>)"

fun collect :: "('a \<Rightarrow> 'e + 'b) \<Rightarrow> 'a list \<Rightarrow> 'e + 'b list" where
  "collect f [] = Inr []"
| "collect f (x # xs) =
     (case f x of
        Inl e \<Rightarrow> Inl e
      | Inr y \<Rightarrow> (case collect f xs of Inl e \<Rightarrow> Inl e | Inr ys \<Rightarrow> Inr (y # ys)))"

text \<open>The projection: all children, and the selected ones.\<close>

definition childLineageProjection ::
    "world \<Rightarrow> string \<Rightarrow> string \<Rightarrow> err + (child_result list \<times> child_result list) option" where
  "childLineageProjection w pid tid =
     (if \<not> exists_row (\<lambda>r. run_id r = pid \<and> run_tenant_id r = tid) (w_runs w) then Inr None
      else case collect (child_result_of w (child_rows w pid tid)) (child_rows w pid tid) of
             Inl e \<Rightarrow> Inl e
           | Inr children \<Rightarrow> Inr (Some (children, filter ch_selected children)))"

definition artifact_json :: "artifact_row \<Rightarrow> json" where
  "artifact_json a =
     JObj [(''id'', JStr (art_id a)), (''schemaVersion'', jint (art_schema_version a)),
           (''digest'', JStr (art_digest a)), (''mimeType'', JStr (art_mime_type a)),
           (''sizeBytes'', JStr (int_digits (art_size_bytes a))),
           (''logicalRole'', JStr (art_logical_role a))]"

definition child_json :: "string \<Rightarrow> child_result \<Rightarrow> json" where
  "child_json pid c =
     JObj [(''schemaVersion'', jint 1), (''parentRunId'', JStr pid),
           (''rootRunId'', JStr (ch_rootRunId c)), (''runId'', JStr (ch_runId c)),
           (''replacesRunId'', jopt JStr (ch_replacesRunId c)),
           (''replacementGeneration'', jint (ch_generation c)),
           (''selected'', JBool (ch_selected c)), (''goal'', JStr (ch_goal c)),
           (''status'', JStr (run_status_name (ch_status c))),
           (''terminalReason'', JStr (ch_terminalReason c)),
           (''result'', jopt id (ch_result c)),
           (''resultSizeBytes'', jopt jint (ch_resultSizeBytes c)),
           (''artifactRefs'', JArr (map artifact_json (ch_artifacts c))),
           (''evidenceRefs'', JArr (case ch_evidence c of
              None \<Rightarrow> []
            | Some (seq, type) \<Rightarrow>
                [JObj [(''kind'', JStr ''run_event''), (''runId'', JStr (ch_runId c)),
                       (''seq'', JStr (int_digits seq)), (''type'', JStr (event_type_name type))]])),
           (''usage'', JObj [(''tokens'', JStr (int_digits (ch_tokens c)))]),
           (''workspaceMerge'', JObj [(''strategy'', JStr ''isolated-no-automatic-merge''),
              (''patchRef'', JNull), (''conflictBehavior'', JStr ''parent-must-apply-explicit-patch'')])]"

section \<open>Resolving parents\<close>

definition children_resolved :: "world \<Rightarrow> string \<Rightarrow> bool" where
  "children_resolved w pid \<longleftrightarrow>
     \<not> exists_row (\<lambda>c. run_parent_run_id c = Some pid
                        \<and> run_status c \<notin> {COMPLETED, FAILED, CANCELLED}) (w_runs w)"

definition wake_candidates :: "world \<Rightarrow> (string \<times> string) list" where
  "wake_candidates w =
     take 32 (map (\<lambda>p. (run_id p, run_tenant_id p))
       (sort_key (\<lambda>p. (run_updated_at p, run_id p))
         (filter (\<lambda>p. run_status p = WAITING_CHILDREN \<and> children_resolved w (run_id p)) (w_runs w))))"

definition active_children :: "world \<Rightarrow> string \<Rightarrow> run_row list" where
  "active_children w pid =
     filter (\<lambda>k. \<not> exists_row (\<lambda>r. run_replaces_run_id r = Some (run_id k)) (w_runs w))
       (sort_key run_created_at (filter (\<lambda>c. run_parent_run_id c = Some pid) (w_runs w)))"

definition replaceable :: "int \<Rightarrow> run_row \<Rightarrow> bool" where
  "replaceable maxChildReplacements k \<longleftrightarrow>
     run_status k = FAILED \<and> run_replacement_generation k < maxChildReplacements
     \<and> (case run_token_budget k of None \<Rightarrow> True | Some b \<Rightarrow> run_tokens_used k < b)"

definition regrant :: "grant_row \<Rightarrow> grant_spec" where
  "regrant g =
     \<lparr>gs_action = gr_action_pattern g, gs_resource = Some (gr_resource_pattern g),
      gs_requiresApproval = Some (gr_requires_approval g),
      gs_maxCalls = map_option (\<lambda>m. max 0 (m - gr_calls_used g)) (gr_max_calls g),
      gs_expiresAt = gr_expires_at g\<rparr>"

definition replacement_input :: "string \<Rightarrow> string \<Rightarrow> run_row \<Rightarrow> grant_row list \<Rightarrow> create_run_input" where
  "replacement_input tid pid k grants =
     (let gen = run_replacement_generation k + 1 in
      \<lparr>cr_tenantId = tid, cr_managedSessionId = None, cr_agentVersionId = run_agent_version_id k,
       cr_goal = run_goal k,
       cr_input = Some (jspread (run_input k)
         [(''replacedFrom'', JStr (run_id k)), (''replacementGeneration'', jint gen)]),
       cr_maxSteps = Some (run_max_steps k),
       cr_tokenBudget = map_option (\<lambda>b. b - run_tokens_used k) (run_token_budget k),
       cr_scheduledFor = None, cr_parentRunId = Some pid, cr_replacesRunId = Some (run_id k),
       cr_replacementGeneration = Some gen, cr_forkedFromRunId = None, cr_progress = None,
       cr_grants = map regrant grants, cr_debugFaultPoints = []\<rparr>)"

definition replace_child :: "string \<Rightarrow> string \<Rightarrow> run_row \<Rightarrow> string txn" where
  "replace_child tid pid k =
     thenT (ensureT (run_tenant_id k = tid)
              (GenericError (''child '' @ run_id k @ '' tenant does not match parent '' @ pid)))
    (bindT (getsT (\<lambda>w. listGrants w (run_id k))) (\<lambda>grants.
     bindT (createRun (replacement_input tid pid k grants)) (\<lambda>child.
     thenT (appendEvent pid ChildRunReplaced
              [(''failedChildId'', JStr (run_id k)), (''replacementChildId'', JStr (run_id child)),
               (''goal'', JStr (run_goal k)),
               (''generation'', jint (run_replacement_generation k + 1))] None no_patch)
           (returnT (run_id child)))))"

definition admission_reason_name :: "admission_reason \<Rightarrow> string" where
  "admission_reason_name r =
     (case r of tenant_unavailable \<Rightarrow> ''tenant_unavailable''
      | concurrency_exhausted \<Rightarrow> ''concurrency_exhausted''
      | token_capacity_exhausted \<Rightarrow> ''token_capacity_exhausted'')"

text \<open>The handler of a rejected admission: each reason is recorded once, later ones rotate the row.\<close>

definition defer_replacement :: "string \<Rightarrow> admission_reason \<Rightarrow> unit txn" where
  "defer_replacement pid reason =
     bindT (getsT (\<lambda>w. exists_row (\<lambda>e. ev_run_id e = pid \<and> ev_type e = ChildReplacementDeferred
         \<and> jfield (ev_payload e) ''reason'' = Some (JStr (admission_reason_name reason))) (w_events w)))
       (\<lambda>alreadyRecorded.
     if \<not> alreadyRecorded
     then thenT (appendEvent pid ChildReplacementDeferred
                   [(''reason'', JStr (admission_reason_name reason))] None no_patch) (returnT ())
     else modifyT (\<lambda>w. w\<lparr>w_runs := update_where (\<lambda>r. run_id r = pid)
            (\<lambda>r. r\<lparr>run_updated_at := w_now w\<rparr>) (w_runs w)\<rparr>))"

record wake_result =
  wr_woken :: "string list"
  wr_replaced :: "string list"

definition no_wake :: wake_result where
  "no_wake = \<lparr>wr_woken = [], wr_replaced = []\<rparr>"

definition to_resumed :: "string \<Rightarrow> child_result list \<Rightarrow> transition_options" where
  "to_resumed pid selected =
     \<lparr>to_expectFrom = [WAITING_CHILDREN], to_to = QUEUED, to_type = ChildrenResolved,
      to_payload = [(''children'', JArr (map (child_json pid) selected))],
      to_attempt = None, to_reason = None,
      to_patch = no_patch\<lparr>p_current_attempt_id := Some None\<rparr>\<rparr>"

text \<open>One candidate, in one transaction; \<open>held\<close> are the parents whose advisory lock is taken.\<close>

definition resolve_parent ::
    "(string \<Rightarrow> bool) \<Rightarrow> (string \<Rightarrow> bool) \<Rightarrow> int \<Rightarrow> string \<times> string \<Rightarrow> wake_result txn" where
  "resolve_parent held locked maxChildReplacements cand =
     (let pid = fst cand; tid = snd cand in
      if held pid then returnT no_wake
      else thenT (lockRunAdmissionTenantRow tid)
          (bindT (getsT (\<lambda>w. case find_run w pid of
                              Some p \<Rightarrow> run_status p = WAITING_CHILDREN \<and> children_resolved w pid \<and> \<not> locked pid
                            | None \<Rightarrow> False)) (\<lambda>claimed.
           if \<not> claimed then returnT no_wake
           else bindT (lockRun pid) (\<lambda>parent.
                bindT (getsT (\<lambda>w. filter (replaceable maxChildReplacements) (active_children w pid))) (\<lambda>ks.
                if ks \<noteq> []
                then savepointT
                       (bindT (mapT (replace_child (run_tenant_id parent) pid) ks) (\<lambda>ids.
                        returnT \<lparr>wr_woken = [], wr_replaced = ids\<rparr>))
                       (\<lambda>e. case e of
                          RunAdmissionRejectedError reason \<Rightarrow>
                            thenT (defer_replacement pid reason) (returnT no_wake)
                        | _ \<Rightarrow> throwT e)
                else bindT (getsT (\<lambda>w. childLineageProjection w pid (run_tenant_id parent))) (\<lambda>proj.
                  case proj of
                    Inl e \<Rightarrow> throwT e
                  | Inr None \<Rightarrow> throwT (GenericError (''parent '' @ pid @ '' disappeared while resolving children''))
                  | Inr (Some (children, selected)) \<Rightarrow>
                      thenT (transitionRun pid (to_resumed pid selected))
                            (returnT \<lparr>wr_woken = [pid], wr_replaced = []\<rparr>)))))))"

fun wake_loop ::
    "(string \<Rightarrow> bool) \<Rightarrow> (string \<Rightarrow> bool) \<Rightarrow> int \<Rightarrow> (string \<times> string) list \<Rightarrow> world \<Rightarrow>
     (err + wake_result) \<times> world" where
  "wake_loop held locked maxRepl [] w = (Inr no_wake, w)"
| "wake_loop held locked maxRepl (c # cs) w =
     (case commit (resolve_parent held locked maxRepl c) w of
        (Inl e, w') \<Rightarrow> (Inl e, w')
      | (Inr out, w') \<Rightarrow>
          if wr_woken out \<noteq> [] \<or> wr_replaced out \<noteq> [] then (Inr out, w')
          else wake_loop held locked maxRepl cs w')"

definition wakeReadyParents ::
    "(string \<Rightarrow> bool) \<Rightarrow> (string \<Rightarrow> bool) \<Rightarrow> int \<Rightarrow> world \<Rightarrow> (err + wake_result) \<times> world" where
  "wakeReadyParents held locked maxChildReplacements w =
     wake_loop held locked maxChildReplacements (wake_candidates w) w"

section \<open>Frames\<close>

lemma lockRun_kernel_from [hoare_rules]: "keeps (kernel_from w0) (lockRun rid)"
  by (rule hoareI) (auto simp: lockRun_def split: option.splits)

lemma lockRunAdmissionTenantRow_kernel_from [hoare_rules]: "keeps (kernel_from w0) (lockRunAdmissionTenantRow tid)"
  by (rule hoareI) (auto simp: lockRunAdmissionTenantRow_def split: option.splits)

lemma lockRunAdmissionTenant_kernel_from [hoare_rules]: "keeps (kernel_from w0) (lockRunAdmissionTenant tid)"
  unfolding lockRunAdmissionTenant_def by (intro hoare_rules)

lemma spawnChildren_kernel_from [hoare_rules]: "keeps (kernel_from w0) (spawnChildren pid att cs)"
  unfolding spawnChildren_def spawn_child_def by (intro hoare_rules)

lemma replace_child_kernel_from [hoare_rules]: "keeps (kernel_from w0) (replace_child tid pid k)"
  unfolding replace_child_def by (intro hoare_rules)

lemma defer_replacement_kernel_from [hoare_rules]: "keeps (kernel_from w0) (defer_replacement pid reason)"
  unfolding defer_replacement_def
  by (intro hoare_rules keeps_modifyT kernel_from_touch) (simp_all add: run_identity_def)

lemma resolve_parent_kernel_from [hoare_rules]: "keeps (kernel_from w0) (resolve_parent held locked m cand)"
proof -
  have handler: "keeps (kernel_from w0) (case e of
        RunAdmissionRejectedError reason \<Rightarrow> thenT (defer_replacement pid reason) (returnT no_wake)
      | _ \<Rightarrow> throwT e)" for e pid
    by (cases e) (simp_all add: hoare_rules)
  have resume: "keeps (kernel_from w0) (case proj of
                    Inl e \<Rightarrow> throwT e
                  | Inr None \<Rightarrow> throwT (GenericError msg)
                  | Inr (Some (children, selected)) \<Rightarrow>
                      thenT (transitionRun pid (to_resumed pid selected)) (returnT out))" for proj :: "err + ('c \<times> child_result list) option" and pid msg and out :: wake_result
    by (cases proj; simp split: option.split prod.split; intro conjI allI impI hoare_rules)
  show ?thesis unfolding resolve_parent_def Let_def by (intro hoare_rules handler resume)
qed

lemma wake_loop_kernel_from: "kernel_from w0 w \<Longrightarrow> kernel_from w0 (snd (wake_loop held locked m cs w))"
proof (induction cs arbitrary: w)
  case (Cons c cs)
  have "kernel_from w0 (snd (commit (resolve_parent held locked m c) w))"
    by (rule commit_keeps [OF resolve_parent_kernel_from Cons.prems])
  then show ?case using Cons.IH by (auto split: sum.split prod.split)
qed simp

section \<open>What a spawned or replacing child is\<close>

lemma append_row_touches [simp]:
  "run_id (append_row patch s t r) = run_id r" "run_status (append_row patch s t r) = run_status r"
  "run_tenant_id (append_row patch s t r) = run_tenant_id r"
  by (simp_all add: append_row_def)

text \<open>
  \<open>adds_child pid Q w cid w'\<close>: one new queued child of \<open>pid\<close> with property \<open>Q\<close>; of the other
  runs only the parent changes, by the event it logs.
\<close>

definition adds_child ::
    "string \<Rightarrow> (run_row \<Rightarrow> bool) \<Rightarrow> world \<Rightarrow> string \<Rightarrow> world \<Rightarrow> bool" where
  "adds_child pid Q w cid w' \<longleftrightarrow>
     kernel_ok w' \<and> find_run w cid = None \<and> cid \<noteq> pid
     \<and> (\<exists>r. find_run w' cid = Some r \<and> run_status r = QUEUED \<and> run_parent_run_id r = Some pid \<and> Q r)
     \<and> (\<forall>rid. rid \<noteq> cid \<and> rid \<noteq> pid \<longrightarrow> find_run w' rid = find_run w rid)
     \<and> map_option run_status (find_run w' pid) = map_option run_status (find_run w pid)
     \<and> map_option run_tenant_id (find_run w' pid) = map_option run_tenant_id (find_run w pid)"

lemma createRun_adds_child:
  assumes ok: "kernel_ok w" and p: "find_run w pid \<noteq> None"
    and c: "createRun input w = Inr (child, w1)" and par: "cr_parentRunId input = Some pid"
    and e: "appendEvent pid ty pay att patch w1 = Inr (s, w')"
    and Q: "\<And>b msid now. run_identity child = run_identity (new_run_row input (run_id child) msid b now) \<Longrightarrow>
          (\<And>q. cr_tokenBudget input = Some q \<Longrightarrow> b = Some q \<and> 0 < q) \<Longrightarrow> Q child"
  shows "adds_child pid Q w (run_id child) w'"
proof -
  obtain cap :: admission_capacity and msid wsId new where
    cap: "prepareRunAdmission (cr_tenantId input) (cr_tokenBudget input) w = Inr (cap, w)"
    and fresh: "\<forall>r \<in> set (w_runs w). run_id r \<noteq> run_id child"
    and new: "new = new_run_row input (run_id child) msid (cap_effectiveTokenBudget cap) (w_now w)"
    and child: "child = transition_row to_queued 2 (w_now w) (transition_row (to_resolving input wsId) 1 (w_now w) new)"
    and runs: "w_runs w1 = w_runs w @ [child]" and ok1: "kernel_ok w1"
    by (rule createRun_world [OF ok c])
  have status: "run_status child = QUEUED" by (subst child) (simp add: to_queued_def)
  have ident: "run_identity child = run_identity new" by (subst child) simp
  have budget: "cap_effectiveTokenBudget cap = Some q \<and> 0 < q" if "cr_tokenBudget input = Some q" for q
    using cap that ok by (auto simp: prepareRunAdmission_iff kernel_ok_def split: option.splits)
  have q: "Q child" using Q ident budget unfolding new by blast
  have parent: "run_parent_run_id child = Some pid"
    using ident par by (simp add: run_identity_def new)
  have none: "find_run w (run_id child) = None"
    using fresh by (simp add: find_run_def find_None_iff_all)
  then have ne: "run_id child \<noteq> pid" using p by metis
  have child1: "find_run w1 (run_id child) = Some child"
    using fresh by (rule find_run_fresh [OF _ refl runs])
  have old1: "find_run w1 rid = find_run w rid" if "rid \<noteq> run_id child" for rid
    using that by (auto simp: find_run_def runs find_append split: option.split)
  obtain t where w': "w' = log_event (new_event pid s ty pay att t) (append_row patch s t) w1"
    using e by (auto simp: appendEvent_iff)
  have ok': "kernel_ok w'" using appendEvent_kernel_ok ok1 e by (rule hoareD)
  have f: "find_run w' rid = (if rid = pid then map_option (append_row patch s t) (find_run w1 rid) else find_run w1 rid)" for rid
    unfolding w' by (subst find_run_log_event) simp_all
  show ?thesis
    unfolding adds_child_def
    using ok' none ne child1 status parent q old1 by (auto simp: f option.map_comp comp_def)
qed

text \<open>A loop that adds one child per element.\<close>

lemma adds_children:
  assumes "kernel_ok w" and "mapT f xs w = Inr (ids, w')"
    and step: "\<And>x w cid w'. \<lbrakk>x \<in> set xs; kernel_ok w; map_option run_status (find_run w pid) = st;
        map_option run_tenant_id (find_run w pid) = tn; f x w = Inr (cid, w')\<rbrakk> \<Longrightarrow> adds_child pid (Q x) w cid w'"
    and "map_option run_status (find_run w pid) = st" and "map_option run_tenant_id (find_run w pid) = tn"
  shows "kernel_ok w' \<and> distinct ids
     \<and> list_all2 (\<lambda>x i. find_run w i = None \<and> i \<noteq> pid
         \<and> (\<exists>r. find_run w' i = Some r \<and> run_status r = QUEUED \<and> run_parent_run_id r = Some pid \<and> Q x r)) xs ids
     \<and> (\<forall>rid. rid \<notin> set ids \<and> rid \<noteq> pid \<longrightarrow> find_run w' rid = find_run w rid)
     \<and> map_option run_status (find_run w' pid) = st \<and> map_option run_tenant_id (find_run w' pid) = tn"
  using assms
proof (induction xs arbitrary: w ids)
  case Nil
  then show ?case by (simp add: tx_simps)
next
  case (Cons x xs)
  from Cons.prems(2) obtain cid w1 js where one: "f x w = Inr (cid, w1)"
    and rest: "mapT f xs w1 = Inr (js, w')" and ids: "ids = cid # js"
    by (auto simp: tx_simps)
  have a: "adds_child pid (Q x) w cid w1"
    using Cons.prems one by (intro Cons.prems(3)) simp_all
  then have ok1: "kernel_ok w1" and none: "find_run w cid = None" "cid \<noteq> pid"
    and old: "\<And>rid. rid \<noteq> cid \<Longrightarrow> rid \<noteq> pid \<Longrightarrow> find_run w1 rid = find_run w rid"
    and par: "map_option run_status (find_run w1 pid) = st" "map_option run_tenant_id (find_run w1 pid) = tn"
    using Cons.prems(4,5) by (auto simp: adds_child_def)
  from a obtain r where r: "find_run w1 cid = Some r" "run_status r = QUEUED"
      "run_parent_run_id r = Some pid" "Q x r"
    by (auto simp: adds_child_def)
  have IH: "kernel_ok w' \<and> distinct js
     \<and> list_all2 (\<lambda>x i. find_run w1 i = None \<and> i \<noteq> pid
         \<and> (\<exists>r. find_run w' i = Some r \<and> run_status r = QUEUED \<and> run_parent_run_id r = Some pid \<and> Q x r)) xs js
     \<and> (\<forall>rid. rid \<notin> set js \<and> rid \<noteq> pid \<longrightarrow> find_run w' rid = find_run w1 rid)
     \<and> map_option run_status (find_run w' pid) = st \<and> map_option run_tenant_id (find_run w' pid) = tn"
    using Cons.prems(3) par by (intro Cons.IH [OF ok1 rest]) simp_all
  then have new: "\<forall>i \<in> set js. find_run w1 i = None \<and> i \<noteq> pid"
    by (auto simp: list_all2_conv_all_nth in_set_conv_nth)
  then have cid: "cid \<notin> set js" using r(1) by auto
  have "list_all2 (\<lambda>x i. find_run w i = None \<and> i \<noteq> pid
         \<and> (\<exists>r. find_run w' i = Some r \<and> run_status r = QUEUED \<and> run_parent_run_id r = Some pid \<and> Q x r)) xs js"
    using IH new cid old by (auto elim!: list_all2_mono [rotated] simp: list_all2_conv_all_nth) (metis nth_mem)+
  then show ?case
    unfolding ids using IH none old r cid by auto
qed


section \<open>Properties\<close>

lemma lockRun_iff: "lockRun rid w = Inr (r, w') \<longleftrightarrow> find_run w rid = Some r \<and> w' = w"
  by (auto simp: lockRun_def split: option.splits)

lemma lockRunAdmissionTenant_state: "lockRunAdmissionTenant tid w = Inr (t, w') \<Longrightarrow> w' = w"
  by (auto simp: lockRunAdmissionTenant_def lockRunAdmissionTenantRow_def tx_simps split: option.splits)

lemma lockRunAdmissionTenantRow_state: "lockRunAdmissionTenantRow tid w = Inr (t, w') \<Longrightarrow> w' = w"
  by (auto simp: lockRunAdmissionTenantRow_def split: option.splits)

definition spawned_from :: "string \<Rightarrow> child_spec \<Rightarrow> run_row \<Rightarrow> bool" where
  "spawned_from tid c r \<longleftrightarrow>
     run_tenant_id r = tid \<and> run_goal r = cs_goal c \<and> run_agent_version_id r = cs_agentVersionId c
     \<and> run_replaces_run_id r = None \<and> run_replacement_generation r = 0
     \<and> (\<forall>b. cs_tokenBudget c = Some b \<longrightarrow> run_token_budget r = Some b)"

lemma spawn_child_adds:
  assumes "kernel_ok w" and "find_run w pid \<noteq> None" and "spawn_child tid pid att c w = Inr (cid, w')"
  shows "adds_child pid (spawned_from tid c) w cid w'"
proof -
  from assms(3) obtain child w1 s where c: "createRun (child_input tid pid c) w = Inr (child, w1)"
    and e: "appendEvent pid ChildRunSpawned
              [(''childRunId'', JStr (run_id child)), (''goal'', JStr (cs_goal c))]
              (Some att) no_patch w1 = Inr (s, w')" and cid: "cid = run_id child"
    by (auto simp: spawn_child_def tx_simps)
  show ?thesis
    unfolding cid
    by (rule createRun_adds_child [OF assms(1,2) c _ e])
       (auto simp: child_input_def spawned_from_def run_identity_def new_run_row_def)
qed

lemma find_run_transition_status:
  assumes "find_run w rid = Some r"
  shows "find_run (transition_world r opts w) rid =
     Some (transition_row opts (run_last_event_seq r + 1) (w_now w) r)"
  using assms find_run_id [OF assms] by (simp add: find_run_transition_world)

text \<open>
  What a delegation does. A committed \<open>spawnChildren\<close> was asked for one to eight
  children by a running parent; every returned id is a fresh queued run of the parent's tenant
  for the goal, version and budget asked for, in order and without repetition; the parent waits
  for its children and holds no attempt; no other run changes, and the invariants hold.
\<close>

theorem spawnChildren_spawns:
  assumes "kernel_ok w" and "spawnChildren pid att cs w = Inr (ids, w')"
  shows "1 \<le> length cs \<and> length cs \<le> 8 \<and> length ids = length cs \<and> distinct ids
     \<and> (\<exists>parent parent'. find_run w pid = Some parent \<and> run_status parent = RUNNING
          \<and> find_run w' pid = Some parent' \<and> run_status parent' = WAITING_CHILDREN
          \<and> run_current_attempt_id parent' = None
          \<and> (\<forall>i < length cs. \<exists>r. find_run w (ids ! i) = None \<and> find_run w' (ids ! i) = Some r
               \<and> run_status r = QUEUED \<and> run_parent_run_id r = Some pid
               \<and> spawned_from (run_tenant_id parent) (cs ! i) r))
     \<and> (\<forall>rid. rid \<notin> set ids \<and> rid \<noteq> pid \<longrightarrow> find_run w' rid = find_run w rid)
     \<and> kernel_ok w'"
proof -
  from assms(2) obtain parent w1 row where
    n: "1 \<le> length cs" "length cs \<le> 8" and p: "find_run w pid = Some parent"
    and loop: "mapT (spawn_child (run_tenant_id parent) pid att) cs w = Inr (ids, w1)"
    and t: "transitionRun pid (to_waiting_children att ids) w1 = Inr (row, w')"
    by (auto simp: spawnChildren_def MAX_DELEGATED_CHILDREN_def tx_simps lockRun_iff Suc_le_eq not_less
        dest!: lockRunAdmissionTenant_state)
  have added: "kernel_ok w1 \<and> distinct ids
     \<and> list_all2 (\<lambda>x i. find_run w i = None \<and> i \<noteq> pid
         \<and> (\<exists>r. find_run w1 i = Some r \<and> run_status r = QUEUED \<and> run_parent_run_id r = Some pid
              \<and> spawned_from (run_tenant_id parent) x r)) cs ids
     \<and> (\<forall>rid. rid \<notin> set ids \<and> rid \<noteq> pid \<longrightarrow> find_run w1 rid = find_run w rid)
     \<and> map_option run_status (find_run w1 pid) = Some (run_status parent)
     \<and> map_option run_tenant_id (find_run w1 pid) = Some (run_tenant_id parent)"
    by (rule adds_children [OF assms(1) loop]) (use p spawn_child_adds in auto)
  from t obtain p1 where p1: "find_run w1 pid = Some p1" "run_status p1 = RUNNING"
    and w': "w' = transition_world p1 (to_waiting_children att ids) w1"
    by (auto simp: transitionRun_iff to_waiting_children_def)
  have ok': "kernel_ok w'" using transitionRun_kernel_ok _ t by (rule hoareD) (use added in simp)
  have "run_id p1 = pid" using find_run_id [OF p1(1)] by simp
  then have old: "find_run w' rid = find_run w1 rid" if "rid \<noteq> pid" for rid
    unfolding w' using that by (simp add: find_run_transition_other)
  have "find_run w' pid = Some (transition_row (to_waiting_children att ids)
      (run_last_event_seq p1 + 1) (w_now w1) p1)"
    unfolding w' by (rule find_run_transition_status [OF p1(1)])
  moreover have "run_status parent = RUNNING" using added p1 by simp
  ultimately show ?thesis
    using n p added old ok'
    by (auto simp: list_all2_conv_all_nth to_waiting_children_def transition_row_def no_patch_def)
qed


definition demo_child :: child_spec where
  "demo_child = \<lparr>cs_agentVersionId = ''av_1'', cs_goal = ''subtask'', cs_input = None, cs_grants = [],
     cs_tokenBudget = Some 100, cs_maxSteps = None\<rparr>"

lemma demo_spawn_commits: "\<not> isl (spawnChildren ''run_1'' ''att_1'' [demo_child] (demo_world RUNNING))"
  by code_simp

theorem spawnChildren_spawns_witness:
  "\<exists>ids w' p. spawnChildren ''run_1'' ''att_1'' [demo_child] (demo_world RUNNING) = Inr (ids, w')
     \<and> length ids = 1 \<and> find_run w' ''run_1'' = Some p \<and> run_status p = WAITING_CHILDREN"
proof -
  obtain ids w' where run: "spawnChildren ''run_1'' ''att_1'' [demo_child] (demo_world RUNNING) = Inr (ids, w')"
    using demo_spawn_commits
    by (cases "spawnChildren ''run_1'' ''att_1'' [demo_child] (demo_world RUNNING)") auto
  from spawnChildren_spawns [OF demo_world_ok run] run show ?thesis by auto
qed

text \<open>What a replacement is: the failed child's task, one generation on, with what is left of its budget.\<close>

definition replaces :: "int \<Rightarrow> string \<Rightarrow> run_row \<Rightarrow> run_row \<Rightarrow> bool" where
  "replaces m tid k r \<longleftrightarrow>
     run_replaces_run_id r = Some (run_id k)
     \<and> run_replacement_generation r = run_replacement_generation k + 1
     \<and> run_replacement_generation r \<le> m
     \<and> run_tenant_id r = tid \<and> run_goal r = run_goal k \<and> run_agent_version_id r = run_agent_version_id k
     \<and> (\<forall>b. run_token_budget k = Some b \<longrightarrow>
          run_token_budget r = Some (b - run_tokens_used k) \<and> 0 < b - run_tokens_used k)"

lemma replace_child_adds:
  assumes "kernel_ok w" and "find_run w pid \<noteq> None" and "replaceable m k"
    and "replace_child tid pid k w = Inr (cid, w')"
  shows "adds_child pid (replaces m tid k) w cid w'"
proof -
  from assms(4) obtain grants child w1 s where
    c: "createRun (replacement_input tid pid k grants) w = Inr (child, w1)"
    and e: "appendEvent pid ChildRunReplaced
              [(''failedChildId'', JStr (run_id k)), (''replacementChildId'', JStr (run_id child)),
               (''goal'', JStr (run_goal k)),
               (''generation'', jint (run_replacement_generation k + 1))] None no_patch w1 = Inr (s, w')"
    and cid: "cid = run_id child"
    by (auto simp: replace_child_def tx_simps)
  show ?thesis
    unfolding cid
    by (rule createRun_adds_child [OF assms(1,2) c _ e])
       (use assms(3) in \<open>auto simp: replacement_input_def Let_def replaces_def run_identity_def
          new_run_row_def replaceable_def\<close>)
qed

lemma in_active_children:
  "k \<in> set (active_children w pid) \<Longrightarrow> k \<in> set (w_runs w) \<and> run_parent_run_id k = Some pid"
  by (auto simp: active_children_def)


lemma appendEvent_status:
  assumes "appendEvent rid ty pay att patch w = Inr (s, w')"
  shows "map_option run_status (find_run w' x) = map_option run_status (find_run w x)"
  using assms by (auto simp: appendEvent_iff find_run_log_event option.map_comp comp_def)

lemma defer_replacement_status:
  assumes "defer_replacement pid reason w = Inr (u, w')"
  shows "map_option run_status (find_run w' x) = map_option run_status (find_run w x)"
proof -
  have touch: "map_option run_status (find_run (w\<lparr>w_runs := update_where (\<lambda>r. run_id r = pid)
      (\<lambda>r. r\<lparr>run_updated_at := w_now w\<rparr>) (w_runs w)\<rparr>) x) = map_option run_status (find_run w x)"
    by (simp add: find_run_def find_key_update option.map_comp comp_def if_distrib cong: if_cong)
  show ?thesis
    using assms touch
    by (auto simp: defer_replacement_def tx_simps split: if_splits dest!: appendEvent_status)
qed

lemma rejected_case:
  assumes "(case e of RunAdmissionRejectedError reason \<Rightarrow> h reason | _ \<Rightarrow> throwT e) w = Inr r"
  obtains reason where "e = RunAdmissionRejectedError reason" and "h reason w = Inr r"
  using assms by (cases e) (auto simp: tx_simps)

text \<open>
  What resolving a parent does. Only a parent that waits for its children, all of them
  terminal, is touched. If a failed child of the current generation may still be replaced, each
  such child gets one queued replacement and the parent goes on waiting; if none may, the parent
  is queued again; otherwise, with the lock taken, nothing to do or admission refused, no run
  changes its status.
\<close>

theorem resolve_parent_outcome:
  assumes "kernel_ok w" and "resolve_parent held locked m (pid, tid) w = Inr (out, w')"
  shows "(\<exists>p p'. out = \<lparr>wr_woken = [pid], wr_replaced = []\<rparr>
        \<and> find_run w pid = Some p \<and> run_status p = WAITING_CHILDREN \<and> children_resolved w pid
        \<and> (\<forall>k \<in> set (active_children w pid). \<not> replaceable m k)
        \<and> find_run w' pid = Some p' \<and> run_status p' = QUEUED \<and> run_current_attempt_id p' = None
        \<and> (\<forall>rid. rid \<noteq> pid \<longrightarrow> find_run w' rid = find_run w rid))
   \<or> (\<exists>p p' ids. out = \<lparr>wr_woken = [], wr_replaced = ids\<rparr> \<and> ids \<noteq> [] \<and> distinct ids
        \<and> find_run w pid = Some p \<and> run_status p = WAITING_CHILDREN \<and> children_resolved w pid
        \<and> find_run w' pid = Some p' \<and> run_status p' = WAITING_CHILDREN
        \<and> list_all2 (\<lambda>k i. find_run w i = None \<and> (\<exists>r. find_run w' i = Some r \<and> run_status r = QUEUED
             \<and> run_parent_run_id r = Some pid \<and> replaces m (run_tenant_id p) k r))
            (filter (replaceable m) (active_children w pid)) ids
        \<and> (\<forall>rid. rid \<notin> set ids \<and> rid \<noteq> pid \<longrightarrow> find_run w' rid = find_run w rid))
   \<or> (out = no_wake \<and> (\<forall>rid. map_option run_status (find_run w' rid) = map_option run_status (find_run w rid)))"
    (is "?woken \<or> ?replaced \<or> ?idle")
proof (cases "held pid \<or> \<not> (case find_run w pid of
      Some p \<Rightarrow> run_status p = WAITING_CHILDREN \<and> children_resolved w pid \<and> \<not> locked pid | None \<Rightarrow> False)")
  case True
  then have ?idle
    using assms(2)
    by (auto simp: resolve_parent_def Let_def tx_simps split: if_splits dest!: lockRunAdmissionTenantRow_state)
  then show ?thesis by blast
next
  case False
  let ?ks = "filter (replaceable m) (active_children w pid)"
  from False obtain p where p: "find_run w pid = Some p" "run_status p = WAITING_CHILDREN" "children_resolved w pid"
    by (auto split: option.splits)
  show ?thesis
  proof (cases "?ks = []")
    case True
    with False p assms(2) obtain sel row where
      t: "transitionRun pid (to_resumed pid sel) w = Inr (row, w')"
      and out: "out = \<lparr>wr_woken = [pid], wr_replaced = []\<rparr>"
      by (auto simp: resolve_parent_def Let_def tx_simps lockRun_iff
          split: sum.splits option.splits prod.splits dest!: lockRunAdmissionTenantRow_state)
    then have w': "w' = transition_world p (to_resumed pid sel) w"
      using p by (auto simp: transitionRun_iff)
    have "run_id p = pid" using find_run_id [OF p(1)] by simp
    then have "find_run w' rid = find_run w rid" if "rid \<noteq> pid" for rid
      unfolding w' using that by (simp add: find_run_transition_other)
    moreover have "\<forall>k \<in> set (active_children w pid). \<not> replaceable m k"
      using True by (simp add: filter_empty_conv)
    ultimately have ?woken
      using p out find_run_transition_status [OF p(1), of "to_resumed pid sel"]
      by (auto simp: w' to_resumed_def transition_row_def no_patch_def)
    then show ?thesis by blast
  next
    case ks: False
    with False p assms(2) consider
        (swapped) ids where "mapT (replace_child (run_tenant_id p) pid) ?ks w = Inr (ids, w')"
          "out = \<lparr>wr_woken = [], wr_replaced = ids\<rparr>"
      | (rejected) reason u where "defer_replacement pid reason w = Inr (u, w')" "out = no_wake"
      by (auto simp: resolve_parent_def Let_def tx_simps lockRun_iff
          elim!: rejected_case dest!: lockRunAdmissionTenantRow_state)
    then show ?thesis
    proof cases
      case swapped
      have added: "kernel_ok w' \<and> distinct ids
         \<and> list_all2 (\<lambda>x i. find_run w i = None \<and> i \<noteq> pid
             \<and> (\<exists>r. find_run w' i = Some r \<and> run_status r = QUEUED \<and> run_parent_run_id r = Some pid
                  \<and> replaces m (run_tenant_id p) x r)) ?ks ids
         \<and> (\<forall>rid. rid \<notin> set ids \<and> rid \<noteq> pid \<longrightarrow> find_run w' rid = find_run w rid)
         \<and> map_option run_status (find_run w' pid) = Some (run_status p)
         \<and> map_option run_tenant_id (find_run w' pid) = Some (run_tenant_id p)"
        by (rule adds_children [OF assms(1) swapped(1)]) (use p replace_child_adds in auto)
      moreover have "ids \<noteq> []" using added ks by auto
      ultimately have ?replaced using p swapped(2) by (auto elim!: list_all2_mono)
      then show ?thesis by blast
    next
      case rejected
      then have ?idle using defer_replacement_status by blast
      then show ?thesis by blast
    qed
  qed
qed


text \<open>A parent that waits for one child, which has failed.\<close>

definition demo_failed_child :: run_row where
  "demo_failed_child = (demo_run FAILED)
     \<lparr>run_id := ''run_2'', run_parent_run_id := Some ''run_1'', run_tokens_used := 2000\<rparr>"

definition demo_family :: world where
  "demo_family = (demo_world WAITING_CHILDREN)
     \<lparr>w_runs := [demo_run WAITING_CHILDREN, demo_failed_child],
      w_admissions := [demo_admission, demo_admission\<lparr>adm_run_id := ''run_2'', adm_active := False\<rparr>]\<rparr>"

lemma demo_family_ok: "kernel_ok demo_family"
  by (simp add: demo_family_def demo_failed_child_def kernel_ok_def ledger_ok_def outbox_mirrors_def
      gapless_def admission_ok_def session_ok_def sessions_fenced_def session_open_def session_mirrors_def demo_session_def demo_admission_def)

lemma demo_family_replaces:
  "case resolve_parent (\<lambda>_. False) (\<lambda>_. False) 1 (''run_1'', ''tnt_1'') demo_family of
     Inl _ \<Rightarrow> False | Inr (out, _) \<Rightarrow> wr_woken out = [] \<and> length (wr_replaced out) = 1"
  by code_simp

theorem resolve_parent_outcome_witness:
  "\<exists>out w' i r. resolve_parent (\<lambda>_. False) (\<lambda>_. False) 1 (''run_1'', ''tnt_1'') demo_family = Inr (out, w')
     \<and> wr_replaced out = [i] \<and> find_run w' i = Some r \<and> run_replaces_run_id r = Some ''run_2''
     \<and> run_token_budget r = Some 3000"
proof -
  obtain out w' i where run: "resolve_parent (\<lambda>_. False) (\<lambda>_. False) 1 (''run_1'', ''tnt_1'') demo_family = Inr (out, w')"
    and out: "wr_woken out = []" "wr_replaced out = [i]"
    using demo_family_replaces by (auto split: sum.splits prod.splits simp: length_Suc_conv)
  have "filter (replaceable 1) (active_children demo_family ''run_1'') = [demo_failed_child]"
    by code_simp
  with resolve_parent_outcome [OF demo_family_ok run] out obtain p r :: run_row where
    "find_run w' i = Some r" "replaces 1 (run_tenant_id p) demo_failed_child r"
    by (auto simp: no_wake_def)
  then show ?thesis
    using run out by (auto simp: replaces_def demo_failed_child_def demo_run_def)
qed

end
