(* ===== verification/Sessions.thy ===== *)
theory Sessions
  imports Runs Receipts Scheduler One_Shot
begin

text \<open>
  Managed sessions, \<^verbatim>\<open>src/store/sessions.ts\<close>: their idempotent commands, the runs they own and
  their cancellation, which fences every open run of the session. \<open>sha\<close> is the \<^verbatim>\<open>sha256\<close> of
  \<^verbatim>\<open>node:crypto\<close> and \<open>fmt\<close> the number formatting of \<^verbatim>\<open>JSON.stringify\<close>.
\<close>

section \<open>Reads\<close>

definition getManagedSession :: "world \<Rightarrow> string \<Rightarrow> string option \<Rightarrow> session_row option" where
  "getManagedSession w sid tenantId =
     (case tenantId of
        None \<Rightarrow> find_session w sid
      | Some tid \<Rightarrow> find (\<lambda>s. ses_id s = sid \<and> ses_tenant_id s = tid) (w_sessions w))"

definition listManagedSessionRuns :: "world \<Rightarrow> string \<Rightarrow> string \<Rightarrow> run_row list" where
  "listManagedSessionRuns w sid tid =
     sort_key (\<lambda>r. (run_created_at r, run_id r))
       (filter (\<lambda>r. run_managed_session_id r = Some sid
          \<and> exists_row (\<lambda>s. ses_id s = sid \<and> ses_tenant_id s = tid) (w_sessions w)) (w_runs w))"

section \<open>Command receipts\<close>

record command_key =
  ck_tenantId :: string
  ck_principalId :: string
  ck_operation :: string
  ck_targetScope :: string
  ck_idempotencyKey :: string

definition has_key :: "command_key \<Rightarrow> command_row \<Rightarrow> bool" where
  "has_key k c \<longleftrightarrow>
     cmd_tenant_id c = ck_tenantId k \<and> cmd_principal_id c = ck_principalId k
     \<and> cmd_operation c = ck_operation k \<and> cmd_target_scope c = ck_targetScope k
     \<and> cmd_idempotency_key c = ck_idempotencyKey k"

text \<open>\<^verbatim>\<open>INSERT .. ON CONFLICT DO NOTHING RETURNING id\<close>: whether the row was inserted.\<close>

definition insert_command :: "string \<Rightarrow> command_key \<Rightarrow> string \<Rightarrow> bool txn" where
  "insert_command receiptId k digest =
     (\<lambda>w. if exists_row (has_key k) (w_commands w) then Inr (False, w)
          else if exists_row (\<lambda>c. cmd_id c = receiptId) (w_commands w)
          then Inl (UniqueViolation ''session_command_receipts_pkey'')
          else Inr (True, w\<lparr>w_commands := w_commands w @
                 [\<lparr>cmd_id = receiptId, cmd_tenant_id = ck_tenantId k,
                   cmd_principal_id = ck_principalId k, cmd_operation = ck_operation k,
                   cmd_target_scope = ck_targetScope k, cmd_idempotency_key = ck_idempotencyKey k,
                   cmd_request_digest = digest, cmd_session_id = None\<rparr>]\<rparr>))"

definition replay_command :: "command_key \<Rightarrow> string \<Rightarrow> string \<Rightarrow> session_row txn" where
  "replay_command k digest tid =
     bindT (getsT (\<lambda>w. find (has_key k) (w_commands w))) (\<lambda>receipt.
     case receipt of
       None \<Rightarrow> throwT SessionIdempotencyConflictError
     | Some c \<Rightarrow>
         thenT (ensureT (cmd_request_digest c = digest) SessionIdempotencyConflictError)
        (case cmd_session_id c of
           None \<Rightarrow> throwT (GenericError ''session command receipt is incomplete'')
         | Some sid \<Rightarrow>
             bindT (getsT (\<lambda>w. getManagedSession w sid (Some tid))) (\<lambda>session.
             case session of
               None \<Rightarrow> throwT (GenericError ''session command receipt target is missing'')
             | Some s \<Rightarrow> returnT s)))"

definition complete_command :: "string \<Rightarrow> string \<Rightarrow> unit txn" where
  "complete_command receiptId sid =
     modifyT (\<lambda>w. w\<lparr>w_commands := update_where (\<lambda>c. cmd_id c = receiptId)
       (\<lambda>c. c\<lparr>cmd_session_id := Some sid\<rparr>) (w_commands w)\<rparr>)"

section \<open>Creation\<close>

record session_start =
  st_goal :: string
  st_input :: "(string \<times> json) list option"
  st_maxSteps :: "int option"
  st_tokenBudget :: "int option"

record create_session_input =
  cm_tenantId :: string
  cm_principalId :: string
  cm_idempotencyKey :: string
  cm_agentVersionId :: string
  cm_objective :: string
  cm_correlationRef :: "string option"
  cm_policy :: "(string \<times> json) list option"
  cm_credentialGrantRefs :: "string list option"
  cm_start :: "session_start option"

definition optional :: "string \<Rightarrow> ('a \<Rightarrow> json) \<Rightarrow> 'a option \<Rightarrow> (string \<times> json) list" where
  "optional name f x = (case x of None \<Rightarrow> [] | Some y \<Rightarrow> [(name, f y)])"

definition start_json :: "session_start \<Rightarrow> json" where
  "start_json s =
     JObj ([(''goal'', JStr (st_goal s))] @ optional ''input'' JObj (st_input s)
       @ optional ''maxSteps'' jint (st_maxSteps s) @ optional ''tokenBudget'' jint (st_tokenBudget s))"

definition create_request :: "create_session_input \<Rightarrow> json" where
  "create_request input =
     JObj [(''agentVersionId'', JStr (cm_agentVersionId input)),
           (''objective'', JStr (cm_objective input)),
           (''correlationRef'', jopt JStr (cm_correlationRef input)),
           (''policy'', JObj (or_else (cm_policy input) [])),
           (''credentialGrantRefs'', JArr (map JStr (or_else (cm_credentialGrantRefs input) []))),
           (''start'', jopt start_json (cm_start input))]"

definition create_key :: "create_session_input \<Rightarrow> command_key" where
  "create_key input =
     \<lparr>ck_tenantId = cm_tenantId input, ck_principalId = cm_principalId input,
      ck_operation = ''session.create'', ck_targetScope = ''sessions'',
      ck_idempotencyKey = cm_idempotencyKey input\<rparr>"

definition new_session :: "create_session_input \<Rightarrow> string \<Rightarrow> int \<Rightarrow> session_row" where
  "new_session input sid now =
     \<lparr>ses_id = sid, ses_tenant_id = cm_tenantId input, ses_principal_id = cm_principalId input,
      ses_agent_version_id = cm_agentVersionId input, ses_objective = cm_objective input,
      ses_correlation_ref = cm_correlationRef input, ses_state = SS_IDLE, ses_version = 1,
      ses_policy = JObj (or_else (cm_policy input) []),
      ses_credential_grant_refs = or_else (cm_credentialGrantRefs input) [],
      ses_current_run = None, ses_received_event_seq = 0, ses_created_at = now, ses_updated_at = now\<rparr>"

definition insert_session :: "session_row \<Rightarrow> unit txn" where
  "insert_session s =
     (\<lambda>w. if exists_row (\<lambda>s'. ses_id s' = ses_id s) (w_sessions w)
          then Inl (UniqueViolation ''managed_sessions_pkey'')
          else Inr ((), w\<lparr>w_sessions := w_sessions w @ [s]\<rparr>))"

definition start_input :: "create_session_input \<Rightarrow> string \<Rightarrow> session_start \<Rightarrow> create_run_input" where
  "start_input input sid s =
     \<lparr>cr_tenantId = cm_tenantId input, cr_managedSessionId = Some sid,
      cr_agentVersionId = cm_agentVersionId input, cr_goal = st_goal s, cr_input = st_input s,
      cr_maxSteps = st_maxSteps s, cr_tokenBudget = st_tokenBudget s, cr_scheduledFor = None,
      cr_parentRunId = None, cr_replacesRunId = None, cr_replacementGeneration = None,
      cr_forkedFromRunId = None, cr_progress = None, cr_grants = [], cr_debugFaultPoints = []\<rparr>"

definition create_fresh_session ::
    "create_session_input \<Rightarrow> string \<Rightarrow> (session_row \<times> bool) txn" where
  "create_fresh_session input receiptId =
     bindT (newId ''ses'') (\<lambda>sid.
     bindT (getsT w_now) (\<lambda>now.
     thenT (insert_session (new_session input sid now))
    (thenT (case cm_start input of
              None \<Rightarrow> returnT ()
            | Some s \<Rightarrow> thenT (createRun (start_input input sid s)) (returnT ()))
    (thenT (complete_command receiptId sid)
    (bindT (getsT (\<lambda>w. getManagedSession w sid None)) (\<lambda>stored.
       returnT (case (cm_start input, stored) of
                  (Some _, Some s) \<Rightarrow> s | _ \<Rightarrow> new_session input sid now, False)))))))"

definition createManagedSession ::
    "(string \<Rightarrow> string) \<Rightarrow> (rat \<Rightarrow> string) \<Rightarrow> create_session_input \<Rightarrow> (session_row \<times> bool) txn" where
  "createManagedSession sha fmt input =
     thenT (bindT (getsT (\<lambda>w. exists_row (\<lambda>v. v = (cm_agentVersionId input, cm_tenantId input)) (w_versions w)))
              (\<lambda>owned. ensureT owned
                (GenericError ''managed session agent version does not belong to tenant'')))
    (let digest = sha (canonicalJson fmt (create_request input)) in
     bindT (newId ''scmd'') (\<lambda>receiptId.
     bindT (insert_command receiptId (create_key input) digest) (\<lambda>inserted.
     if \<not> inserted
     then bindT (replay_command (create_key input) digest (cm_tenantId input)) (\<lambda>s. returnT (s, True))
     else create_fresh_session input receiptId)))"

section \<open>Cancellation\<close>

definition NONTERMINAL_RUN_STATES :: "run_status list" where
  "NONTERMINAL_RUN_STATES =
     [CREATED, RESOLVING, QUEUED, STARTING, RUNNING, WAITING_APPROVAL, WAITING_SIGNAL,
      WAITING_CHILDREN, SLEEPING, SUSPENDED, RETRY_PENDING, VERIFYING]"

definition to_fenced :: "string \<Rightarrow> transition_options" where
  "to_fenced reason =
     \<lparr>to_expectFrom = NONTERMINAL_RUN_STATES, to_to = CANCELLED, to_type = RunCancelled,
      to_payload = [(''reason'', JStr reason)], to_attempt = None,
      to_reason = Some ''managed_session_cancelled'', to_patch = no_patch\<rparr>"

definition cancel_attempt :: "string \<Rightarrow> unit txn" where
  "cancel_attempt aid =
     modifyT (\<lambda>w. w\<lparr>w_attempts := update_where (\<lambda>a. att_id a = aid \<and> att_state a = AS_ACTIVE)
       (\<lambda>a. a\<lparr>att_state := AS_EXITED, att_exit_reason := Some ''cancelled''\<rparr>) (w_attempts w)\<rparr>)"

text \<open>
  One run of the fence. The status check throws before the transition writes, so the
  \<^verbatim>\<open>catch\<close> of the source goes on from the state before it.
\<close>

definition fence_run :: "string \<Rightarrow> run_row \<Rightarrow> unit txn" where
  "fence_run reason candidate =
     savepointT
       (bindT (transitionRun (run_id candidate) (to_fenced reason)) (\<lambda>cancelled.
        case run_current_attempt_id cancelled of
          None \<Rightarrow> returnT ()
        | Some aid \<Rightarrow> cancel_attempt aid))
       (\<lambda>e. case e of
          UnexpectedStatusError _ actual _ \<Rightarrow> if isTerminal actual then returnT () else throwT e
        | _ \<Rightarrow> throwT e)"

definition fence_candidates :: "world \<Rightarrow> string \<Rightarrow> string \<Rightarrow> run_row list" where
  "fence_candidates w tid sid =
     sort_key (\<lambda>r. (run_parent_run_id r = None, run_created_at r, run_id r))
       (filter (\<lambda>r. run_managed_session_id r = Some sid
          \<and> exists_row (\<lambda>s. ses_id s = sid \<and> ses_tenant_id s = tid) (w_sessions w)
          \<and> run_status r \<notin> {COMPLETED, FAILED, CANCELLED}) (w_runs w))"

definition fenceManagedSessionRuns :: "string \<Rightarrow> string \<Rightarrow> string \<Rightarrow> unit txn" where
  "fenceManagedSessionRuns tid sid reason =
     bindT (getsT (\<lambda>w. fence_candidates w tid sid)) (\<lambda>rows.
     thenT (mapT (fence_run reason) rows) (returnT ()))"

definition stale_events :: "string \<Rightarrow> string \<Rightarrow> unit txn" where
  "stale_events tid sid =
     modifyT (\<lambda>w. w\<lparr>w_session_events :=
       update_where (\<lambda>e. sev_session_id e = sid \<and> sev_tenant_id e = tid \<and> sev_status e = ES_PENDING)
         (\<lambda>e. e\<lparr>sev_status := ES_STALE, sev_status_reason := Some ''session_cancelled'',
                sev_consumed_at := Some (w_now w)\<rparr>) (w_session_events w)\<rparr>)"

definition close_session :: "session_row \<Rightarrow> unit txn" where
  "close_session s =
     modifyT (\<lambda>w. w\<lparr>w_sessions := update_where (\<lambda>s'. ses_id s' = ses_id s)
       (\<lambda>s'. s'\<lparr>ses_state := SS_CANCELLED, ses_current_run := ses_current_run s,
                ses_version := ses_version s' + 1, ses_updated_at := w_now w\<rparr>) (w_sessions w)\<rparr>)"

record cancel_session_input =
  cl_tenantId :: string
  cl_principalId :: string
  cl_sessionId :: string
  cl_idempotencyKey :: string
  cl_reason :: string

definition cancel_key :: "cancel_session_input \<Rightarrow> command_key" where
  "cancel_key input =
     \<lparr>ck_tenantId = cl_tenantId input, ck_principalId = cl_principalId input,
      ck_operation = ''session.cancel'', ck_targetScope = ''sessions/'' @ cl_sessionId input,
      ck_idempotencyKey = cl_idempotencyKey input\<rparr>"

definition cancel_open_session :: "cancel_session_input \<Rightarrow> session_row \<Rightarrow> unit txn" where
  "cancel_open_session input s =
     thenT (fenceManagedSessionRuns (cl_tenantId input) (ses_id s) (cl_reason input))
    (thenT (stale_events (cl_tenantId input) (ses_id s))
           (close_session s))"

definition cancelManagedSession ::
    "(string \<Rightarrow> string) \<Rightarrow> (rat \<Rightarrow> string) \<Rightarrow> cancel_session_input \<Rightarrow> (session_row \<times> bool) option txn" where
  "cancelManagedSession sha fmt input =
     bindT (getsT (\<lambda>w. getManagedSession w (cl_sessionId input) (Some (cl_tenantId input)))) (\<lambda>initial.
     case initial of
       None \<Rightarrow> returnT None
     | Some s \<Rightarrow>
         (let digest = sha (canonicalJson fmt (JObj [(''reason'', JStr (cl_reason input))])) in
          bindT (newId ''scmd'') (\<lambda>receiptId.
          bindT (insert_command receiptId (cancel_key input) digest) (\<lambda>inserted.
          if \<not> inserted
          then bindT (replay_command (cancel_key input) digest (cl_tenantId input))
                 (\<lambda>s'. returnT (Some (s', True)))
          else thenT (whenT (ses_state s \<noteq> SS_CANCELLED \<and> ses_state s \<noteq> SS_ARCHIVED)
                        (cancel_open_session input s))
              (thenT (complete_command receiptId (ses_id s))
              (bindT (getsT (\<lambda>w. getManagedSession w (ses_id s) None)) (\<lambda>stored.
               case stored of
                 None \<Rightarrow> returnT (Some (s, False))
               | Some s' \<Rightarrow> returnT (Some (s', False)))))))))"

section \<open>Writes of session rows\<close>

lemma kernel_from_session_update:
  assumes from_w: "kernel_from w0 w"
    and id: "\<And>s. ses_id (u s) = ses_id s" "\<And>s. ses_tenant_id (u s) = ses_tenant_id s"
    and same: "\<And>s. s \<in> set (w_sessions w) \<Longrightarrow> p s \<Longrightarrow> session_open (u s) \<Longrightarrow>
        ses_state (u s) = ses_state s \<and> ses_current_run (u s) = ses_current_run s"
    and closed: "\<And>s. s \<in> set (w_sessions w) \<Longrightarrow> p s \<Longrightarrow> \<not> session_open s \<Longrightarrow> ses_state (u s) = ses_state s"
    and fenced: "\<And>s r. s \<in> set (w_sessions w) \<Longrightarrow> p s \<Longrightarrow> \<not> session_open (u s) \<Longrightarrow> r \<in> set (w_runs w) \<Longrightarrow>
        run_managed_session_id r = Some (ses_id s) \<Longrightarrow> isTerminal (run_status r)"
  shows "kernel_from w0 (w\<lparr>w_sessions := update_where p u (w_sessions w)\<rparr>)" (is "kernel_from w0 ?w'")
proof (rule kernel_fromI [OF from_w])
  have ok: "kernel_ok w" by (rule kernel_from_ok [OF from_w])
  have "session_ok ?w'"
    unfolding session_ok_def
  proof (intro conjI ballI impI)
    show "distinct (map ses_id (w_sessions ?w'))"
      using ok by (simp add: kernel_ok_def session_ok_def table_simps id)
  next
    fix s' assume "s' \<in> set (w_sessions ?w')" and opened: "session_open s'"
    then have "s' \<in> set (update_where p u (w_sessions w))" by simp
    then obtain s where s: "s \<in> set (w_sessions w)" and s': "s' = (if p s then u s else s)"
      by (rule in_update_whereE)
    have eq: "ses_id s' = ses_id s" "ses_state s' = ses_state s" "ses_current_run s' = ses_current_run s"
      using s' opened same [OF s] id by (auto split: if_splits)
    then have "session_mirrors (w_runs w) s"
      using ok s opened by (simp add: kernel_ok_def session_ok_def session_open_def)
    then show "session_mirrors (w_runs ?w') s'"
      using eq by (cases "ses_current_run s") (auto simp: session_mirrors_def)
  qed
  moreover have "sessions_fenced ?w'"
    unfolding sessions_fenced_def
  proof (intro ballI impI)
    fix s' r assume "s' \<in> set (w_sessions ?w')" and cl: "\<not> session_open s'" and r: "r \<in> set (w_runs ?w')"
      "run_managed_session_id r = Some (ses_id s')"
    then have "s' \<in> set (update_where p u (w_sessions w))" by simp
    then obtain s where s: "s \<in> set (w_sessions w)" and s': "s' = (if p s then u s else s)"
      by (rule in_update_whereE)
    show "isTerminal (run_status r)"
    proof (cases "p s")
      case True
      then show ?thesis using fenced [OF s True] s' cl r id by simp
    next
      case False
      then show ?thesis using ok s s' cl r by (simp add: kernel_ok_def sessions_fenced_def)
    qed
  qed
  moreover have "ledger_ok ?w'" "admission_ok ?w'"
    using ok ledger_ok_cong [of ?w' w] by (simp_all add: kernel_ok_def admission_ok_def)
  ultimately show "kernel_ok ?w'" by (simp add: kernel_ok_def)
  have "\<exists>s' \<in> set (w_sessions ?w'). session_advances s s'" if s: "s \<in> set (w_sessions w)" for s
  proof (rule bexI)
    show "(if p s then u s else s) \<in> set (w_sessions ?w')" using in_update_whereI [OF s, of p u] by simp
    show "session_advances s (if p s then u s else s)"
      using id closed [OF s] by (simp add: session_advances_def)
  qed
  then show "advances w ?w'" by (auto simp: advances_def outbox_advances_same intro!: bexI)
qed

lemma kernel_from_session_insert:
  assumes from_w: "kernel_from w0 w" and new: "\<forall>s' \<in> set (w_sessions w). ses_id s' \<noteq> ses_id s"
    and idle: "ses_state s = SS_IDLE" "ses_current_run s = None"
  shows "kernel_from w0 (w\<lparr>w_sessions := w_sessions w @ [s]\<rparr>)" (is "kernel_from w0 ?w'")
proof (rule kernel_fromI [OF from_w])
  have ok: "kernel_ok w" by (rule kernel_from_ok [OF from_w])
  have "session_ok ?w'" "sessions_fenced ?w'"
    using ok new idle
    by (auto simp: kernel_ok_def session_ok_def sessions_fenced_def session_open_def session_mirrors_def)
  moreover have "ledger_ok ?w'" "admission_ok ?w'"
    using ok ledger_ok_cong [of ?w' w] by (simp_all add: kernel_ok_def admission_ok_def)
  ultimately show "kernel_ok ?w'" by (simp add: kernel_ok_def)
  show "advances w ?w'" by (auto simp: advances_def outbox_advances_same intro!: bexI)
qed

lemma insert_session_iff:
  "insert_session s w = Inr (x, w') \<longleftrightarrow>
     (\<forall>s' \<in> set (w_sessions w). ses_id s' \<noteq> ses_id s) \<and> w' = w\<lparr>w_sessions := w_sessions w @ [s]\<rparr>"
  by (auto simp: insert_session_def exists_row_iff)

lemma insert_command_kernel_from [hoare_rules]: "keeps (kernel_from w0) (insert_command receiptId k digest)"
  by (rule hoareI) (auto simp: insert_command_def split: if_splits)

lemma replay_command_kernel_from [hoare_rules]: "keeps (kernel_from w0) (replay_command k digest tid)"
  unfolding replay_command_def by (intro hoare_rules)

lemma complete_command_kernel_from [hoare_rules]: "keeps (kernel_from w0) (complete_command receiptId sid)"
  unfolding complete_command_def by (intro keeps_modifyT) simp

lemma insert_session_kernel_from [hoare_rules]:
  "keeps (kernel_from w0) (insert_session (new_session input sid now))"
  by (rule hoareI) (auto simp: insert_session_iff new_session_def intro!: kernel_from_session_insert)

lemma createManagedSession_kernel_from [hoare_rules]:
  "keeps (kernel_from w0) (createManagedSession sha fmt input)"
  unfolding createManagedSession_def create_fresh_session_def by (intro hoare_rules)


section \<open>The fence\<close>

definition fenced_world :: "string \<Rightarrow> run_row \<Rightarrow> world \<Rightarrow> world" where
  "fenced_world reason c w =
     (let w1 = transition_world c (to_fenced reason) w in
      case run_current_attempt_id c of
        None \<Rightarrow> w1
      | Some aid \<Rightarrow> w1\<lparr>w_attempts := update_where (\<lambda>a. att_id a = aid \<and> att_state a = AS_ACTIVE)
          (\<lambda>a. a\<lparr>att_state := AS_EXITED, att_exit_reason := Some ''cancelled''\<rparr>) (w_attempts w1)\<rparr>)"

lemma fence_run_effect:
  assumes "kernel_ok w" and "find_run w (run_id c) = Some c" and "\<not> isTerminal (run_status c)"
  shows "fence_run reason c w = Inr ((), fenced_world reason c w)"
proof -
  have "run_status c \<in> set NONTERMINAL_RUN_STATES" "isTransitionAllowed (run_status c) CANCELLED"
    using assms(3) by (cases "run_status c"; simp add: NONTERMINAL_RUN_STATES_def isTransitionAllowed_def)+
  then have "transitionRun (run_id c) (to_fenced reason) w =
      Inr (transition_row (to_fenced reason) (run_last_event_seq c + 1) (w_now w) c,
           transition_world c (to_fenced reason) w)"
    using assms next_seq_free [OF kernel_okD [OF assms(1)] assms(2)]
    by (auto simp: transitionRun_iff to_fenced_def)
  moreover have "run_current_attempt_id (transition_row (to_fenced reason) (run_last_event_seq c + 1) (w_now w) c) =
      run_current_attempt_id c"
    by (simp add: transition_row_def to_fenced_def no_patch_def)
  ultimately show ?thesis
    by (simp add: fence_run_def savepointT_def bindT_def fenced_world_def cancel_attempt_def modifyT_def
        returnT_def Let_def split: option.splits)
qed

text \<open>Every candidate of the fence ends terminal, and its current attempt is not active.\<close>

definition fenced_at :: "run_row \<Rightarrow> world \<Rightarrow> bool" where
  "fenced_at c w \<longleftrightarrow>
     (\<exists>r \<in> set (w_runs w). run_id r = run_id c \<and> isTerminal (run_status r))
     \<and> (\<forall>a \<in> set (w_attempts w). run_current_attempt_id c = Some (att_id a) \<longrightarrow> att_state a \<noteq> AS_ACTIVE)"

lemma find_run_fenced_world:
  assumes "run_id r \<noteq> run_id c"
  shows "find_run (fenced_world reason c w) (run_id r) = find_run w (run_id r)"
  using assms by (simp add: fenced_world_def Let_def find_run_transition_other split: option.split)

lemma fenced_world_sel [simp]:
  "w_runs (fenced_world reason c w) = w_runs (transition_world c (to_fenced reason) w)"
  "w_sessions (fenced_world reason c w) = w_sessions (transition_world c (to_fenced reason) w)"
  "w_commands (fenced_world reason c w) = w_commands w"
  "w_session_events (fenced_world reason c w) = w_session_events w"
  "w_now (fenced_world reason c w) = w_now w"
  by (simp_all add: fenced_world_def Let_def split: option.split)

lemma fenced_world_kernel_from:
  assumes "kernel_from w0 w" and "find_run w (run_id c) = Some c" and "\<not> isTerminal (run_status c)"
  shows "kernel_from w0 (fenced_world reason c w)"
proof -
  have "keeps (kernel_from w0) (fence_run reason c)"
  proof -
    have "keeps (kernel_from w0) (case e of
          UnexpectedStatusError _ actual _ \<Rightarrow> if isTerminal actual then returnT () else throwT e
        | _ \<Rightarrow> throwT e)" for e
      by (cases e) (simp_all add: hoare_rules)
    then show ?thesis
      unfolding fence_run_def cancel_attempt_def by (intro hoare_rules keeps_modifyT) simp_all
  qed
  then show ?thesis
    using assms fence_run_effect [OF kernel_from_ok [OF assms(1)] assms(2,3)] by (auto dest: hoareD)
qed

lemma fenced_world_attempts:
  assumes "a \<in> set (w_attempts (fenced_world reason c w))" and "att_state a = AS_ACTIVE"
  shows "a \<in> set (w_attempts w) \<and> run_current_attempt_id c \<noteq> Some (att_id a)"
proof (cases "run_current_attempt_id c")
  case None
  then show ?thesis using assms by (simp add: fenced_world_def Let_def)
next
  case (Some aid)
  then have "a \<in> set (update_where (\<lambda>a. att_id a = aid \<and> att_state a = AS_ACTIVE)
      (\<lambda>a. a\<lparr>att_state := AS_EXITED, att_exit_reason := Some ''cancelled''\<rparr>) (w_attempts w))"
    using assms(1) by (simp add: fenced_world_def Let_def)
  then show ?thesis
    by (rule in_update_whereE) (use assms(2) Some in \<open>simp split: if_splits\<close>)
qed

lemma fenced_world_fences:
  assumes "find_run w (run_id c) = Some c"
  shows "fenced_at c (fenced_world reason c w)"
proof -
  have "c \<in> set (w_runs w)" using find_run_id [OF assms] by simp
  from in_update_whereI [OF this, of "\<lambda>r. run_id r = run_id c"
      "transition_row (to_fenced reason) (run_last_event_seq c + 1) (w_now w)"]
  have "transition_row (to_fenced reason) (run_last_event_seq c + 1) (w_now w) c
      \<in> set (w_runs (fenced_world reason c w))" by simp
  then have "\<exists>r \<in> set (w_runs (fenced_world reason c w)). run_id r = run_id c \<and> isTerminal (run_status r)"
    by (rule rev_bexI) (simp add: to_fenced_def)
  moreover have "\<forall>a \<in> set (w_attempts (fenced_world reason c w)).
      run_current_attempt_id c = Some (att_id a) \<longrightarrow> att_state a \<noteq> AS_ACTIVE"
    using fenced_world_attempts by blast
  ultimately show ?thesis by (simp add: fenced_at_def)
qed

lemma fenced_at_stays:
  assumes "fenced_at c w" and "advances w w'"
    and "\<And>a. a \<in> set (w_attempts w') \<Longrightarrow> att_state a = AS_ACTIVE \<Longrightarrow> a \<in> set (w_attempts w)"
  shows "fenced_at c w'"
proof -
  obtain r where r: "r \<in> set (w_runs w)" "run_id r = run_id c" "isTerminal (run_status r)"
    using assms(1) by (auto simp: fenced_at_def)
  then obtain r' where "r' \<in> set (w_runs w')" "run_advances r r'"
    using assms(2) by (auto simp: advances_def)
  then show ?thesis
    using assms(1,3) r terminal_stays [of "run_status r" "run_status r'"]
    by (auto simp: fenced_at_def run_advances_def run_identity_def)
qed

lemma project_sessions_open:
  "map (\<lambda>s. (ses_id s, session_open s)) (project_sessions run st now ss) =
   map (\<lambda>s. (ses_id s, session_open s)) ss"
  by (auto simp: project_sessions_def update_where_def session_open_def)

lemma fence_loop:
  assumes "kernel_from w0 w" and "distinct (map run_id cs)"
    and "\<forall>c \<in> set cs. find_run w (run_id c) = Some c \<and> \<not> isTerminal (run_status c)"
  shows "\<exists>us w'. mapT (fence_run reason) cs w = Inr (us, w') \<and> kernel_from w0 w' \<and> kernel_from w w'
     \<and> (\<forall>c \<in> set cs. fenced_at c w') \<and> map run_id (w_runs w') = map run_id (w_runs w)
     \<and> (\<forall>a \<in> set (w_attempts w'). att_state a = AS_ACTIVE \<longrightarrow> a \<in> set (w_attempts w))
     \<and> map (\<lambda>s. (ses_id s, session_open s)) (w_sessions w') = map (\<lambda>s. (ses_id s, session_open s)) (w_sessions w)
     \<and> w_commands w' = w_commands w \<and> w_session_events w' = w_session_events w \<and> w_now w' = w_now w"
  using assms
proof (induction cs arbitrary: w0 w)
  case Nil
  then show ?case by (auto simp: returnT_def intro: kernel_from_refl dest: kernel_from_ok)
next
  case (Cons c cs)
  let ?w1 = "fenced_world reason c w"
  have c: "find_run w (run_id c) = Some c" "\<not> isTerminal (run_status c)" using Cons.prems(3) by simp_all
  have ok: "kernel_ok w" by (rule kernel_from_ok [OF Cons.prems(1)])
  have one: "fence_run reason c w = Inr ((), ?w1)" by (rule fence_run_effect [OF ok c])
  have from0: "kernel_from w0 ?w1" by (rule fenced_world_kernel_from [OF Cons.prems(1) c])
  have from1: "kernel_from w ?w1" by (rule fenced_world_kernel_from [OF kernel_from_refl [OF ok] c])
  have rest: "\<forall>d \<in> set cs. find_run ?w1 (run_id d) = Some d \<and> \<not> isTerminal (run_status d)"
    using Cons.prems(2,3) by (auto simp: find_run_fenced_world image_iff)
  have "distinct (map run_id cs)" using Cons.prems(2) by simp
  from Cons.IH [OF from1 this rest] obtain us w' where
    loop: "mapT (fence_run reason) cs ?w1 = Inr (us, w')" and w': "kernel_from w w'" "kernel_from ?w1 w'"
    and done_rest: "\<forall>c \<in> set cs. fenced_at c w'"
    and ids: "map run_id (w_runs w') = map run_id (w_runs ?w1)"
    and att: "\<forall>a \<in> set (w_attempts w'). att_state a = AS_ACTIVE \<longrightarrow> a \<in> set (w_attempts ?w1)"
    and sids: "map (\<lambda>s. (ses_id s, session_open s)) (w_sessions w') = map (\<lambda>s. (ses_id s, session_open s)) (w_sessions ?w1)"
    and frame: "w_commands w' = w_commands w" "w_session_events w' = w_session_events w" "w_now w' = w_now w"
    by auto
  have "fenced_at c w'"
    by (rule fenced_at_stays [OF fenced_world_fences [OF c(1), of reason]]) (use w'(2) att in \<open>auto simp: kernel_from_def\<close>)
  moreover have "kernel_from w0 w'"
    using from0 w'(2) by (auto simp: kernel_from_def intro: advances_trans)
  moreover have "\<forall>a \<in> set (w_attempts ?w1). att_state a = AS_ACTIVE \<longrightarrow> a \<in> set (w_attempts w)"
    using fenced_world_attempts by blast
  ultimately show ?case
    using loop one w' done_rest ids att sids frame
    by (auto simp: bindT_def returnT_def project_sessions_open map_update_where)
qed


lemma old_run:
  assumes "advances w w'" and "map run_id (w_runs w') = map run_id (w_runs w)" and "ledger_ok w'"
    and "r' \<in> set (w_runs w')"
  obtains r where "r \<in> set (w_runs w)" and "run_advances r r'"
proof -
  have "run_id r' \<in> set (map run_id (w_runs w))" using assms(2,4) by (metis image_eqI list.set_map)
  then obtain r where r: "r \<in> set (w_runs w)" "run_id r = run_id r'" by auto
  then obtain q where q: "q \<in> set (w_runs w')" "run_advances r q" using assms(1) by (auto simp: advances_def)
  then have "run_id q = run_id r'" using r by (simp add: run_advances_def run_identity_def)
  then have "q = r'" using assms(3,4) q(1) by (metis run_id_inj)
  then show ?thesis using that r q by blast
qed

lemma fence_candidates_mem:
  "r \<in> set (fence_candidates w tid sid) \<longleftrightarrow>
     r \<in> set (w_runs w) \<and> run_managed_session_id r = Some sid \<and> \<not> isTerminal (run_status r)
     \<and> (\<exists>s \<in> set (w_sessions w). ses_id s = sid \<and> ses_tenant_id s = tid)"
  by (auto simp: fence_candidates_def exists_row_iff isTerminal_iff simp del: isTerminal_simps)

lemma fence_session:
  assumes from_w: "kernel_from w0 w" and s: "s \<in> set (w_sessions w)" "ses_tenant_id s = tid"
  shows "\<exists>w'. fenceManagedSessionRuns tid (ses_id s) reason w = Inr ((), w') \<and> kernel_from w0 w' \<and> kernel_from w w'
     \<and> (\<forall>r \<in> set (w_runs w'). run_managed_session_id r = Some (ses_id s) \<longrightarrow> isTerminal (run_status r))
     \<and> (\<forall>c \<in> set (w_runs w). run_managed_session_id c = Some (ses_id s) \<and> \<not> isTerminal (run_status c) \<longrightarrow> fenced_at c w')
     \<and> map (\<lambda>s. (ses_id s, session_open s)) (w_sessions w') = map (\<lambda>s. (ses_id s, session_open s)) (w_sessions w)
     \<and> w_commands w' = w_commands w \<and> w_session_events w' = w_session_events w \<and> w_now w' = w_now w"
proof -
  let ?cs = "fence_candidates w tid (ses_id s)"
  have ok: "kernel_ok w" by (rule kernel_from_ok [OF from_w])
  then have "distinct (map run_id (w_runs w))" by (simp add: kernel_ok_def ledger_ok_def)
  then have d: "distinct (map run_id ?cs)"
    by (auto simp: fence_candidates_def distinct_map inj_on_def)
  have c: "\<forall>c \<in> set ?cs. find_run w (run_id c) = Some c \<and> \<not> isTerminal (run_status c)"
    using find_run_iff [OF kernel_okD [OF ok]] by (auto simp: fence_candidates_mem)
  from fence_loop [OF from_w d c, of reason] obtain us w' where loop: "mapT (fence_run reason) ?cs w = Inr (us, w')"
    and w': "kernel_from w0 w'" "kernel_from w w'" and fenced: "\<forall>c \<in> set ?cs. fenced_at c w'"
    and ids: "map run_id (w_runs w') = map run_id (w_runs w)"
    and frame: "map (\<lambda>s. (ses_id s, session_open s)) (w_sessions w') = map (\<lambda>s. (ses_id s, session_open s)) (w_sessions w)"
      "w_commands w' = w_commands w" "w_session_events w' = w_session_events w" "w_now w' = w_now w"
    by blast
  have adv: "advances w w'" and ok': "ledger_ok w'" using w'(2) by (auto simp: kernel_from_def)
  have ended: "isTerminal (run_status r')"
    if r': "r' \<in> set (w_runs w')" "run_managed_session_id r' = Some (ses_id s)" for r'
  proof -
    obtain r where r: "r \<in> set (w_runs w)" "run_advances r r'" by (rule old_run [OF adv ids ok' r'(1)])
    have same: "run_id r' = run_id r" "run_managed_session_id r = Some (ses_id s)"
      using r(2) r'(2) by (simp_all add: run_advances_def run_identity_def)
    show ?thesis
    proof (cases "isTerminal (run_status r)")
      case True
      then show ?thesis using r(2) terminal_stays [of "run_status r" "run_status r'"] by (auto simp: run_advances_def)
    next
      case False
      then have "r \<in> set ?cs" using r(1) same s by (auto simp: fence_candidates_mem)
      then obtain q where "q \<in> set (w_runs w')" "run_id q = run_id r" "isTerminal (run_status q)"
        using fenced by (auto simp: fenced_at_def)
      then show ?thesis using run_id_inj [OF ok' _ r'(1)] same by metis
    qed
  qed
  have "fenceManagedSessionRuns tid (ses_id s) reason w = Inr ((), w')"
    using loop by (simp add: fenceManagedSessionRuns_def tx_eval)
  moreover have "\<forall>c \<in> set (w_runs w). run_managed_session_id c = Some (ses_id s) \<and> \<not> isTerminal (run_status c)
      \<longrightarrow> fenced_at c w'"
    using fenced s by (metis fence_candidates_mem)
  ultimately show ?thesis using w' ended frame by blast
qed

section \<open>Cancellation\<close>

definition stale_event :: "int \<Rightarrow> session_event_row \<Rightarrow> session_event_row" where
  "stale_event now e = e\<lparr>sev_status := ES_STALE, sev_status_reason := Some ''session_cancelled'',
     sev_consumed_at := Some now\<rparr>"

lemma cancel_open_session_effect:
  assumes from_w: "kernel_from w0 w" and s: "find_session w (ses_id s) = Some s"
    and tid: "ses_tenant_id s = cl_tenantId input" and opened: "session_open s"
  shows "\<exists>w'. cancel_open_session input s w = Inr ((), w') \<and> kernel_from w0 w' \<and> kernel_from w w'
     \<and> (\<forall>r \<in> set (w_runs w'). run_managed_session_id r = Some (ses_id s) \<longrightarrow> isTerminal (run_status r))
     \<and> (\<forall>c \<in> set (w_runs w). run_managed_session_id c = Some (ses_id s) \<and> \<not> isTerminal (run_status c) \<longrightarrow>
          (\<forall>a \<in> set (w_attempts w'). run_current_attempt_id c = Some (att_id a) \<longrightarrow> att_state a \<noteq> AS_ACTIVE))
     \<and> (\<exists>s'. find_session w' (ses_id s) = Some s' \<and> ses_state s' = SS_CANCELLED
           \<and> ses_current_run s' = ses_current_run s)
     \<and> (\<forall>e \<in> set (w_session_events w'). sev_session_id e = ses_id s \<and> sev_tenant_id e = ses_tenant_id s \<longrightarrow>
          sev_status e \<noteq> ES_PENDING)
     \<and> w_commands w' = w_commands w"
proof -
  have mem: "s \<in> set (w_sessions w)" using s by (auto simp: find_session_def dest: find_SomeD)
  from fence_session [OF from_w mem tid, of "cl_reason input"] obtain w1 where
    fence: "fenceManagedSessionRuns (cl_tenantId input) (ses_id s) (cl_reason input) w = Inr ((), w1)"
    and from1: "kernel_from w0 w1" "kernel_from w w1"
    and ended: "\<forall>r \<in> set (w_runs w1). run_managed_session_id r = Some (ses_id s) \<longrightarrow> isTerminal (run_status r)"
    and fenced: "\<forall>c \<in> set (w_runs w). run_managed_session_id c = Some (ses_id s) \<and> \<not> isTerminal (run_status c) \<longrightarrow> fenced_at c w1"
    and frame: "map (\<lambda>s. (ses_id s, session_open s)) (w_sessions w1) = map (\<lambda>s. (ses_id s, session_open s)) (w_sessions w)" "w_commands w1 = w_commands w"
    by blast
  let ?w2 = "w1\<lparr>w_session_events := update_where (\<lambda>e. sev_session_id e = ses_id s
      \<and> sev_tenant_id e = cl_tenantId input \<and> sev_status e = ES_PENDING) (stale_event (w_now w1)) (w_session_events w1)\<rparr>"
  let ?u = "\<lambda>s'. s'\<lparr>ses_state := SS_CANCELLED, ses_current_run := ses_current_run s,
                ses_version := ses_version s' + 1, ses_updated_at := w_now w1\<rparr>"
  let ?w3 = "?w2\<lparr>w_sessions := update_where (\<lambda>s'. ses_id s' = ses_id s) ?u (w_sessions ?w2)\<rparr>"
  have run: "cancel_open_session input s w = Inr ((), ?w3)"
    using fence by (simp add: cancel_open_session_def stale_events_def close_session_def tx_eval stale_event_def [abs_def])
  have open1: "session_open s'" if s': "s' \<in> set (w_sessions w1)" "ses_id s' = ses_id s" for s'
  proof -
    have "(ses_id s', session_open s') \<in> set (map (\<lambda>s. (ses_id s, session_open s)) (w_sessions w1))"
      using s'(1) by auto
    then obtain q where q: "q \<in> set (w_sessions w)" "ses_id q = ses_id s'" "session_open q = session_open s'"
      unfolding frame(1) by auto
    have "distinct (map ses_id (w_sessions w))"
      using kernel_from_ok [OF from_w] by (simp add: kernel_ok_def session_ok_def)
    then have "q = s" using q s' mem by (auto simp: distinct_map inj_on_def)
    then show ?thesis using q opened by simp
  qed
  have from3: "kernel_from v ?w3" if v: "kernel_from v w1" for v
  proof (rule kernel_from_session_update)
    show "kernel_from v ?w2" using v by simp
    show "\<And>s' r. s' \<in> set (w_sessions ?w2) \<Longrightarrow> ses_id s' = ses_id s \<Longrightarrow> \<not> session_open (?u s') \<Longrightarrow>
        r \<in> set (w_runs ?w2) \<Longrightarrow> run_managed_session_id r = Some (ses_id s') \<Longrightarrow> isTerminal (run_status r)"
      using ended by simp
    show "\<And>s'. s' \<in> set (w_sessions ?w2) \<Longrightarrow> ses_id s' = ses_id s \<Longrightarrow> \<not> session_open s' \<Longrightarrow>
        ses_state (?u s') = ses_state s'"
      using open1 by simp
  qed (simp_all add: session_open_def)
  obtain s1 where s1: "find_session w1 (ses_id s) = Some s1"
    using from1(2) mem
    by (force simp: kernel_from_def advances_def session_advances_def find_session_def find_None_iff_all
        intro: that dest: find_SomeD)
  have "find_session ?w3 (ses_id s) = Some (?u s1)"
    using s1 find_SomeD [of "\<lambda>s'. ses_id s' = ses_id s" "w_sessions w1" s1]
    by (simp add: find_session_def find_key_update)
  then have closed: "\<exists>s'. find_session ?w3 (ses_id s) = Some s' \<and> ses_state s' = SS_CANCELLED
      \<and> ses_current_run s' = ses_current_run s" by simp
  have stale: "\<forall>e \<in> set (w_session_events ?w3). sev_session_id e = ses_id s \<and> sev_tenant_id e = ses_tenant_id s \<longrightarrow>
      sev_status e \<noteq> ES_PENDING"
    using tid by (auto simp: set_update_where stale_event_def)
  have att: "\<forall>c \<in> set (w_runs w). run_managed_session_id c = Some (ses_id s) \<and> \<not> isTerminal (run_status c) \<longrightarrow>
      (\<forall>a \<in> set (w_attempts ?w3). run_current_attempt_id c = Some (att_id a) \<longrightarrow> att_state a \<noteq> AS_ACTIVE)"
    using fenced by (simp add: fenced_at_def)
  have runs: "w_runs ?w3 = w_runs w1" and cmds: "w_commands ?w3 = w_commands w" using frame(2) by simp_all
  show ?thesis
    by (rule exI [of _ ?w3], intro conjI run from3 from1 att closed stale cmds) (unfold runs, rule ended)
qed

lemma insert_command_iff:
  "insert_command receiptId k digest w = Inr (b, w') \<longleftrightarrow>
     (if exists_row (has_key k) (w_commands w) then \<not> b \<and> w' = w
      else b \<and> \<not> exists_row (\<lambda>c. cmd_id c = receiptId) (w_commands w)
        \<and> w' = w\<lparr>w_commands := w_commands w @
                 [\<lparr>cmd_id = receiptId, cmd_tenant_id = ck_tenantId k,
                   cmd_principal_id = ck_principalId k, cmd_operation = ck_operation k,
                   cmd_target_scope = ck_targetScope k, cmd_idempotency_key = ck_idempotencyKey k,
                   cmd_request_digest = digest, cmd_session_id = None\<rparr>]\<rparr>)"
  by (auto simp: insert_command_def)


section \<open>Commands are idempotent\<close>

lemma newId_state: "newId p w = Inr (i, w') \<Longrightarrow> w' = w\<lparr>w_ulid_next := Suc (w_ulid_next w)\<rparr>"
  by (simp add: newId_iff)

lemma createRun_frame:
  assumes "kernel_ok w" and "createRun input w = Inr (r, w')"
  shows "w_commands w' = w_commands w \<and> w_session_events w' = w_session_events w \<and> w_versions w' = w_versions w"
proof -
  from createRun_effect [OF assms] obtain cap :: admission_capacity and msid rid wsId gs n r1 w1 w2 w3 where
    w1: "w1 = w\<lparr>w_ulid_next := Suc (Suc (w_ulid_next w))\<rparr>"
    and w2: "w2 = fresh_run_world input msid cap rid wsId gs n w1"
    and t1: "transitionRun rid (to_resolving input wsId) w2 = Inr (r1, w3)"
    and t2: "transitionRun rid to_queued w3 = Inr (r, w')" .
  then show ?thesis by (auto simp: transitionRun_iff fresh_run_world_def)
qed

text \<open>What a committed creation leaves: one complete receipt, and the session it names.\<close>

lemma createManagedSession_fresh:
  assumes ok: "kernel_ok w" and run: "createManagedSession sha fmt input w = Inr ((s, b), w')"
    and new: "\<not> exists_row (has_key (create_key input)) (w_commands w)"
  obtains c where "\<not> b" and "w_commands w' = w_commands w @ [c]" and "has_key (create_key input) c"
    and "cmd_request_digest c = sha (canonicalJson fmt (create_request input))"
    and "cmd_session_id c = Some (ses_id s)" and "ses_tenant_id s = cm_tenantId input"
    and "\<exists>s' \<in> set (w_sessions w'). ses_id s' = ses_id s \<and> ses_tenant_id s' = cm_tenantId input"
proof -
  let ?k = "create_key input" and ?d = "sha (canonicalJson fmt (create_request input))"
  from run new obtain rid w1 w2 where
    i: "newId ''scmd'' w = Inr (rid, w1)" and c: "insert_command rid ?k ?d w1 = Inr (True, w2)"
    and f: "create_fresh_session input rid w2 = Inr ((s, b), w')"
    by (auto simp: createManagedSession_def tx_simps Let_def newId_iff insert_command_iff split: if_splits)
  have w1: "w1 = w\<lparr>w_ulid_next := Suc (w_ulid_next w)\<rparr>" using i by (rule newId_state)
  define row where "row = \<lparr>cmd_id = rid, cmd_tenant_id = ck_tenantId ?k,
       cmd_principal_id = ck_principalId ?k, cmd_operation = ck_operation ?k,
       cmd_target_scope = ck_targetScope ?k, cmd_idempotency_key = ck_idempotencyKey ?k,
       cmd_request_digest = ?d, cmd_session_id = (None :: string option)\<rparr>"
  have fresh: "\<forall>c \<in> set (w_commands w). cmd_id c \<noteq> rid" and w2: "w2 = w1\<lparr>w_commands := w_commands w @ [row]\<rparr>"
    using c new by (auto simp: w1 insert_command_iff row_def exists_row_iff split: if_splits)
  from f obtain sid w3 w4 w5 where
    "newId ''ses'' w2 = Inr (sid, w3)"
    and ins: "insert_session (new_session input sid (w_now w3)) w3 = Inr ((), w4)"
    and st: "(case cm_start input of None \<Rightarrow> returnT ()
              | Some s \<Rightarrow> thenT (createRun (start_input input sid s)) (returnT ())) w4 = Inr ((), w5)"
    and w': "complete_command rid sid w5 = Inr ((), w')"
    and res: "s = (case (cm_start input, getManagedSession w' sid None) of
                  (Some _, Some s) \<Rightarrow> s | _ \<Rightarrow> new_session input sid (w_now w3))" "\<not> b"
    by (auto simp: create_fresh_session_def tx_simps)
  then have w3: "w3 = w2\<lparr>w_ulid_next := Suc (w_ulid_next w2)\<rparr>" by (auto dest: newId_state)
  have "kernel_from w w3" unfolding w3 w2 w1 using kernel_from_refl [OF ok] by simp
  then have ok3: "kernel_from w3 w3" by (intro kernel_from_refl kernel_from_ok)
  have from4: "kernel_from w3 w4" by (rule hoareD [OF insert_session_kernel_from ok3 ins])
  then have ok4: "kernel_ok w4" by (rule kernel_from_ok)
  have w4: "w4 = w3\<lparr>w_sessions := w_sessions w3 @ [new_session input sid (w_now w3)]\<rparr>"
    using ins by (simp add: insert_session_iff)
  have from5: "kernel_from w4 w5"
  proof -
    have "keeps (kernel_from w4) (case cm_start input of None \<Rightarrow> returnT ()
              | Some s \<Rightarrow> thenT (createRun (start_input input sid s)) (returnT ()))"
      by (intro hoare_rules)
    then show ?thesis using kernel_from_refl [OF ok4] st by (rule hoareD)
  qed
  have cmds5: "w_commands w5 = w_commands w @ [row]"
  proof -
    have "w_commands w4 = w_commands w @ [row]" by (simp add: w4 w3 w2)
    moreover have "w_commands w5 = w_commands w4"
    proof (cases "cm_start input")
      case None
      then show ?thesis using st by (simp add: returnT_def)
    next
      case (Some start)
      then obtain r where "createRun (start_input input sid start) w4 = Inr (r, w5)"
        using st by (auto simp: tx_simps)
      then show ?thesis using createRun_frame [OF ok4] by blast
    qed
    ultimately show ?thesis by simp
  qed
  have w'_eq: "w' = w5\<lparr>w_commands := update_where (\<lambda>c. cmd_id c = rid) (\<lambda>c. c\<lparr>cmd_session_id := Some sid\<rparr>) (w_commands w5)\<rparr>"
    using w' by (simp add: complete_command_def tx_simps)
  have cmds: "w_commands w' = w_commands w @ [row\<lparr>cmd_session_id := Some sid\<rparr>]"
    using fresh by (simp add: w'_eq cmds5 update_where_last row_def)
  obtain s5 where s5: "s5 \<in> set (w_sessions w5)" "ses_id s5 = sid" "ses_tenant_id s5 = cm_tenantId input"
    using from5 by (auto simp: kernel_from_def advances_def w4 session_advances_def new_session_def)
  have "distinct (map ses_id (w_sessions w5))"
    using from5 by (simp add: kernel_from_def kernel_ok_def session_ok_def)
  then have "getManagedSession w' sid None = Some s5"
    using s5 by (simp add: getManagedSession_def find_session_def w'_eq find_Some_iff_key)
  then have "ses_id s = sid \<and> ses_tenant_id s = cm_tenantId input"
    using res(1) s5 by (auto simp: new_session_def split: option.splits)
  then show ?thesis
    using that [of "row\<lparr>cmd_session_id := Some sid\<rparr>"] res(2) cmds s5
    by (auto simp: row_def has_key_def w'_eq)
qed

lemma replay_command_found:
  assumes "find (has_key k) (w_commands w) = Some c" and "cmd_session_id c = Some sid"
    and "find (\<lambda>s. ses_id s = sid \<and> ses_tenant_id s = tid) (w_sessions w) = Some s"
  shows "replay_command k digest tid w =
     (if cmd_request_digest c = digest then Inr (s, w) else Inl SessionIdempotencyConflictError)"
  using assms by (simp add: replay_command_def getManagedSession_def tx_eval)

text \<open>
  A session step: anything that only appends command receipts and advances the ledger, as every
  operation of the runtime does.
\<close>

inductive session_step :: "world \<Rightarrow> world \<Rightarrow> bool" where
  "advances w w' \<Longrightarrow> kernel_ok w' \<Longrightarrow> w_commands w' = w_commands w @ extra \<Longrightarrow> session_step w w'"

lemma session_steps:
  assumes "session_step\<^sup>*\<^sup>* w w'" and "kernel_ok w"
  shows "advances w w' \<and> kernel_ok w' \<and> (\<exists>extra. w_commands w' = w_commands w @ extra)"
  using assms
proof (induction rule: rtranclp_induct)
  case (step u v)
  then show ?case by (auto elim!: session_step.cases intro: advances_trans)
qed simp

text \<open>
  A session command is executed once. Once a creation has committed, and whatever else
  happens afterwards, every later request under the same key by the same principal is answered
  from its receipt: the same request with the session it created, a different one with a
  conflict. Neither writes a row.
\<close>

theorem session_creation_idempotent:
  assumes "kernel_ok w" and "createManagedSession sha fmt input w = Inr ((s, b), w1)"
    and "\<not> exists_row (has_key (create_key input)) (w_commands w)"
    and "session_step\<^sup>*\<^sup>* w1 w2" and "create_key input' = create_key input"
    and "(cm_agentVersionId input', cm_tenantId input') \<in> set (w_versions w2)"
  shows "\<exists>s'. ses_id s' = ses_id s \<and> createManagedSession sha fmt input' w2 =
     (if sha (canonicalJson fmt (create_request input')) = sha (canonicalJson fmt (create_request input))
      then Inr ((s', True), w2\<lparr>w_ulid_next := Suc (w_ulid_next w2)\<rparr>)
      else Inl SessionIdempotencyConflictError)"
proof -
  let ?k = "create_key input"
  obtain c where c: "w_commands w1 = w_commands w @ [c]" "has_key ?k c"
      "cmd_request_digest c = sha (canonicalJson fmt (create_request input))" "cmd_session_id c = Some (ses_id s)"
    and ten: "\<exists>s' \<in> set (w_sessions w1). ses_id s' = ses_id s \<and> ses_tenant_id s' = cm_tenantId input"
    by (rule createManagedSession_fresh [OF assms(1-3)])
  have "kernel_from w w1" by (rule hoareD [OF createManagedSession_kernel_from kernel_from_refl [OF assms(1)] assms(2)])
  then have "kernel_ok w1" by (rule kernel_from_ok)
  from session_steps [OF assms(4) this] obtain extra where adv: "advances w1 w2"
    and extra: "w_commands w2 = w_commands w1 @ extra" by blast
  have "find (has_key ?k) (w_commands w) = None"
    using assms(3) by (simp add: find_None_iff_all exists_row_iff)
  then have found: "find (has_key ?k) (w_commands w2) = Some c"
    using c(1,2) extra by (simp add: find_append)
  have tid: "cm_tenantId input' = cm_tenantId input"
    using assms(5) by (simp add: create_key_def)
  have "\<exists>s' \<in> set (w_sessions w2). ses_id s' = ses_id s \<and> ses_tenant_id s' = cm_tenantId input"
    using ten adv unfolding advances_def session_advances_def by metis
  then obtain s' where s': "find (\<lambda>s'. ses_id s' = ses_id s \<and> ses_tenant_id s' = cm_tenantId input) (w_sessions w2) = Some s'"
    by (cases "find (\<lambda>s'. ses_id s' = ses_id s \<and> ses_tenant_id s' = cm_tenantId input) (w_sessions w2)")
      (auto simp: find_None_iff)
  then have id: "ses_id s' = ses_id s" by (auto dest: find_SomeD)
  have ex: "exists_row (has_key ?k) (w_commands w2)"
    using found find_SomeD by (fastforce simp: exists_row_iff)
  have "replay_command ?k d (cm_tenantId input) (w2\<lparr>w_ulid_next := n\<rparr>) =
      (if cmd_request_digest c = d then Inr (s', w2\<lparr>w_ulid_next := n\<rparr>) else Inl SessionIdempotencyConflictError)" for d n
    by (rule replay_command_found [OF _ c(4)]) (simp_all add: found s')
  then show ?thesis
    using ex assms(5,6) tid c(3) id
    by (intro exI [of _ s'])
       (simp add: createManagedSession_def tx_eval newId_def insert_command_def exists_row_iff Let_def)
qed

text \<open>
  C18: cancelling a session fences everything it runs. Under a fresh key the cancellation of an
  existing open session always commits; afterwards the session is cancelled, every run that
  names it is terminal, the attempt that each of its live runs was owned by (its current attempt)
  is not active, none of its events is pending, and the invariants hold. An attempt that its run
  has already let go of, that of a run that went to wait and has not settled yet, is left to
  settle or expire by itself.
\<close>

theorem cancelManagedSession_fences:
  assumes ok: "kernel_ok w" and s: "find_session w (cl_sessionId input) = Some s"
    and tid: "ses_tenant_id s = cl_tenantId input" and opened: "session_open s"
    and new: "\<not> exists_row (has_key (cancel_key input)) (w_commands w)"
    and fresh: "\<forall>c \<in> set (w_commands w). cmd_id c \<noteq> ''scmd_'' @ toLowerCase (w_ulid w (w_ulid_next w))"
  shows "\<exists>s' w'. cancelManagedSession sha fmt input w = Inr (Some (s', False), w')
     \<and> ses_id s' = cl_sessionId input \<and> ses_state s' = SS_CANCELLED \<and> find_session w' (cl_sessionId input) = Some s'
     \<and> (\<forall>r \<in> set (w_runs w'). run_managed_session_id r = Some (cl_sessionId input) \<longrightarrow> isTerminal (run_status r))
     \<and> (\<forall>c \<in> set (w_runs w). run_managed_session_id c = Some (cl_sessionId input) \<and> \<not> isTerminal (run_status c) \<longrightarrow>
          (\<forall>a \<in> set (w_attempts w'). run_current_attempt_id c = Some (att_id a) \<longrightarrow> att_state a \<noteq> AS_ACTIVE))
     \<and> (\<forall>e \<in> set (w_session_events w'). sev_session_id e = cl_sessionId input
          \<and> sev_tenant_id e = cl_tenantId input \<longrightarrow> sev_status e \<noteq> ES_PENDING)
     \<and> kernel_ok w' \<and> advances w w'"
proof -
  have id: "ses_id s = cl_sessionId input" using s by (auto simp: find_session_def dest: find_SomeD)
  have dist: "distinct (map ses_id (w_sessions w))" using ok by (simp add: kernel_ok_def session_ok_def)
  have "s \<in> set (w_sessions w)" using s by (auto simp: find_session_def dest: find_SomeD)
  then have get: "getManagedSession w (cl_sessionId input) (Some (cl_tenantId input)) = Some s"
  proof -
    obtain s2 where s2: "find (\<lambda>s. ses_id s = cl_sessionId input \<and> ses_tenant_id s = cl_tenantId input) (w_sessions w) = Some s2"
      using \<open>s \<in> set (w_sessions w)\<close> id tid by (metis (mono_tags, lifting) find_None_iff_all not_None_eq)
    then have "s2 \<in> set (w_sessions w)" "ses_id s2 = ses_id s" using find_SomeD id by fastforce+
    then have "s2 = s" using dist \<open>s \<in> set (w_sessions w)\<close> by (auto simp: distinct_map inj_on_def)
    then show ?thesis using s2 by (simp add: getManagedSession_def)
  qed
  let ?d = "sha (canonicalJson fmt (JObj [(''reason'', JStr (cl_reason input))]))"
  let ?rid = "''scmd_'' @ toLowerCase (w_ulid w (w_ulid_next w))" and ?k = "cancel_key input"
  define row where "row = \<lparr>cmd_id = ?rid, cmd_tenant_id = ck_tenantId ?k,
       cmd_principal_id = ck_principalId ?k, cmd_operation = ck_operation ?k,
       cmd_target_scope = ck_targetScope ?k, cmd_idempotency_key = ck_idempotencyKey ?k,
       cmd_request_digest = ?d, cmd_session_id = (None :: string option)\<rparr>"
  define w1 where "w1 = w\<lparr>w_ulid_next := Suc (w_ulid_next w), w_commands := w_commands w @ [row]\<rparr>"
  have idc: "newId ''scmd'' w = Inr (?rid, w\<lparr>w_ulid_next := Suc (w_ulid_next w)\<rparr>)"
    by (simp add: newId_def)
  have ins: "insert_command ?rid ?k ?d (w\<lparr>w_ulid_next := Suc (w_ulid_next w)\<rparr>) = Inr (True, w1)"
    using new fresh by (auto simp: insert_command_def exists_row_iff w1_def row_def)
  have from1: "kernel_from w w1" unfolding w1_def using kernel_from_refl [OF ok] by simp
  have s1: "find_session w1 (ses_id s) = Some s" using s id by (simp add: find_session_def w1_def)
  from cancel_open_session_effect [OF from1 s1 tid opened] obtain w2 s' where
    cancel: "cancel_open_session input s w1 = Inr ((), w2)" and from2: "kernel_from w w2"
    and ended: "\<forall>r \<in> set (w_runs w2). run_managed_session_id r = Some (ses_id s) \<longrightarrow> isTerminal (run_status r)"
    and att: "\<forall>c \<in> set (w_runs w1). run_managed_session_id c = Some (ses_id s) \<and> \<not> isTerminal (run_status c) \<longrightarrow>
          (\<forall>a \<in> set (w_attempts w2). run_current_attempt_id c = Some (att_id a) \<longrightarrow> att_state a \<noteq> AS_ACTIVE)"
    and s': "find_session w2 (ses_id s) = Some s'" "ses_state s' = SS_CANCELLED"
    and ev: "\<forall>e \<in> set (w_session_events w2). sev_session_id e = ses_id s \<and> sev_tenant_id e = ses_tenant_id s \<longrightarrow>
          sev_status e \<noteq> ES_PENDING"
    by blast
  define w3 where "w3 = w2\<lparr>w_commands := update_where (\<lambda>c. cmd_id c = ?rid)
      (\<lambda>c. c\<lparr>cmd_session_id := Some (ses_id s)\<rparr>) (w_commands w2)\<rparr>"
  have done_cmd: "complete_command ?rid (ses_id s) w2 = Inr ((), w3)"
    by (simp add: complete_command_def modifyT_def w3_def)
  have "ses_state s \<noteq> SS_CANCELLED \<and> ses_state s \<noteq> SS_ARCHIVED" using opened by (simp add: session_open_def)
  then have "cancelManagedSession sha fmt input w = Inr (Some (s', False), w3)"
    using get idc ins cancel done_cmd s'(1)
    by (simp add: cancelManagedSession_def tx_eval Let_def getManagedSession_def find_session_def w3_def)
  moreover have "kernel_from w w3" unfolding w3_def using from2 by simp
  moreover have "ses_id s' = cl_sessionId input"
    using s'(1) id by (auto simp: find_session_def dest: find_SomeD)
  moreover have "find_session w3 (cl_sessionId input) = Some s'"
    using s'(1) id by (simp add: find_session_def w3_def)
  ultimately show ?thesis
    using s'(2) ended att ev id tid by (intro exI [of _ s'] exI [of _ w3]) (auto simp: w3_def w1_def kernel_from_def)
qed


definition demo_create :: create_session_input where
  "demo_create = \<lparr>cm_tenantId = ''tnt_1'', cm_principalId = ''key_1'', cm_idempotencyKey = ''k1'',
     cm_agentVersionId = ''av_1'', cm_objective = ''objective'', cm_correlationRef = None,
     cm_policy = None, cm_credentialGrantRefs = None, cm_start = None\<rparr>"

lemma demo_create_commits: "\<not> isl (createManagedSession id (\<lambda>_. ''0'') demo_create demo_base)"
  by code_simp

theorem session_creation_idempotent_witness:
  "\<exists>s b w1 s' w2. createManagedSession id (\<lambda>_. ''0'') demo_create demo_base = Inr ((s, b), w1)
     \<and> createManagedSession id (\<lambda>_. ''0'') demo_create w1 = Inr ((s', True), w2) \<and> ses_id s' = ses_id s
     \<and> createManagedSession id (\<lambda>_. ''0'') (demo_create\<lparr>cm_objective := ''other''\<rparr>) w1 = Inl SessionIdempotencyConflictError"
proof -
  obtain s b w1 where run: "createManagedSession id (\<lambda>_. ''0'') demo_create demo_base = Inr ((s, b), w1)"
    using demo_create_commits by (cases "createManagedSession id (\<lambda>_. ''0'') demo_create demo_base") auto
  have new: "\<not> exists_row (has_key (create_key demo_create)) (w_commands demo_base)"
    by (simp add: demo_base_def fresh_database_def exists_row_def)
  have v: "w_versions w1 = [(''av_1'', ''tnt_1'')]"
    using run new
    by (auto simp: createManagedSession_def create_fresh_session_def demo_create_def tx_simps Let_def newId_iff
        insert_command_iff insert_session_iff complete_command_def demo_base_def fresh_database_def split: if_splits)
  have differ: "canonicalJson (\<lambda>_. ''0'') (create_request (demo_create\<lparr>cm_objective := ''other''\<rparr>)) \<noteq>
      canonicalJson (\<lambda>_. ''0'') (create_request demo_create)"
    by code_simp
  from session_creation_idempotent [OF demo_base_ok run new rtranclp.rtrancl_refl, of demo_create]
    session_creation_idempotent [OF demo_base_ok run new rtranclp.rtrancl_refl, of "demo_create\<lparr>cm_objective := ''other''\<rparr>"]
  show ?thesis using run v differ by (auto simp: create_key_def demo_create_def)
qed

definition demo_cancel_session :: cancel_session_input where
  "demo_cancel_session = \<lparr>cl_tenantId = ''tnt_1'', cl_principalId = ''key_1'', cl_sessionId = ''ses_1'',
     cl_idempotencyKey = ''k2'', cl_reason = ''user_requested''\<rparr>"

text \<open>The session of the example with a queued run in it.\<close>

theorem cancelManagedSession_fences_witness:
  "\<exists>w run s' w'. kernel_ok w \<and> run_status run = QUEUED \<and> run \<in> set (w_runs w)
     \<and> cancelManagedSession id (\<lambda>_. ''0'') demo_cancel_session w = Inr (Some (s', False), w')
     \<and> ses_state s' = SS_CANCELLED
     \<and> (\<exists>r \<in> set (w_runs w'). run_id r = run_id run \<and> isTerminal (run_status r))"
proof -
  obtain run w where run: "createRun demo_input demo_base = Inr (run, w)" using demo_createRun_ex by blast
  obtain cap :: admission_capacity and msid wsId new where ok: "kernel_ok w"
    and runs: "w_runs w = w_runs demo_base @ [run]"
    and ss: "w_sessions w = enter_session demo_input msid (run_id run) (w_now demo_base) (w_sessions demo_base)"
    and rs: "resolve_session demo_input demo_base = Inr (msid, demo_base)"
    and new: "new = new_run_row demo_input (run_id run) msid (cap_effectiveTokenBudget cap) (w_now demo_base)"
    and row: "run = transition_row to_queued 2 (w_now demo_base)
        (transition_row (to_resolving demo_input wsId) 1 (w_now demo_base) new)"
    by (rule createRun_world [OF demo_base_ok run])
  have ident: "run_managed_session_id run = msid" by (subst row) (simp add: new)
  have msid: "msid = Some ''ses_1''" using rs by (simp add: resolve_session_def demo_input_def tx_simps)
  obtain s where s: "find_session w ''ses_1'' = Some s" "ses_tenant_id s = ''tnt_1''" "session_open s"
    by (rule that [of "demo_session\<lparr>ses_state := SS_ACTIVE, ses_current_run := Some (run_id run), ses_version := 2,
         ses_updated_at := 1000\<rparr>"])
       (simp_all add: find_session_def ss msid enter_session_def demo_base_def fresh_database_def demo_session_def
          demo_input_def update_where_def session_open_def)
  have cmds: "w_commands w = []"
    using createRun_frame [OF demo_base_ok run] by (simp add: demo_base_def fresh_database_def)
  have queued: "run_status run = QUEUED" by (subst row) (simp add: to_queued_def)
  have args: "find_session w (cl_sessionId demo_cancel_session) = Some s"
    "ses_tenant_id s = cl_tenantId demo_cancel_session"
    "\<not> exists_row (has_key (cancel_key demo_cancel_session)) (w_commands w)"
    "\<forall>c \<in> set (w_commands w). cmd_id c \<noteq> ''scmd_'' @ toLowerCase (w_ulid w (w_ulid_next w))"
    using s(1,2) by (simp_all add: demo_cancel_session_def cmds exists_row_def)
  from cancelManagedSession_fences [OF ok args(1,2) s(3) args(3,4), of id "\<lambda>_. ''0''"] obtain s' w' where
    c: "cancelManagedSession id (\<lambda>_. ''0'') demo_cancel_session w = Inr (Some (s', False), w')" "ses_state s' = SS_CANCELLED"
      "\<forall>r \<in> set (w_runs w'). run_managed_session_id r = Some (cl_sessionId demo_cancel_session) \<longrightarrow> isTerminal (run_status r)"
      "advances w w'"
    by blast
  have mem: "run \<in> set (w_runs w)" by (simp add: runs)
  then obtain r' where r': "r' \<in> set (w_runs w')" "run_advances run r'" using c(4) by (auto simp: advances_def)
  then have "run_id r' = run_id run" "run_managed_session_id r' = Some ''ses_1''"
    using ident msid by (simp_all add: run_advances_def run_identity_def)
  moreover have "cl_sessionId demo_cancel_session = ''ses_1''" by (simp add: demo_cancel_session_def)
  ultimately have "isTerminal (run_status r')" using c(3) r'(1) by simp
  with \<open>run_id r' = run_id run\<close> r'(1)
  have "\<exists>r \<in> set (w_runs w'). run_id r = run_id run \<and> isTerminal (run_status r)" by blast
  then show ?thesis using ok queued mem c(1,2) by blast
qed


section \<open>The cancellation keeps the invariants on every branch\<close>

lemma getManagedSession_find:
  assumes "kernel_ok w" and "getManagedSession w sid (Some tid) = Some s"
  shows "find_session w (ses_id s) = Some s \<and> ses_tenant_id s = tid \<and> ses_id s = sid"
proof -
  have "s \<in> set (w_sessions w) \<and> ses_id s = sid \<and> ses_tenant_id s = tid"
    using assms(2) by (auto simp: getManagedSession_def dest: find_SomeD)
  moreover have "distinct (map ses_id (w_sessions w))"
    using assms(1) by (simp add: kernel_ok_def session_ok_def)
  ultimately show ?thesis by (simp add: find_session_def find_Some_iff_key)
qed

lemma cancelManagedSession_kernel_from [hoare_rules]:
  "keeps (kernel_from w0) (cancelManagedSession sha fmt input)"
proof (rule hoareI)
  fix w res w' assume from_w: "kernel_from w0 w" and run: "cancelManagedSession sha fmt input w = Inr (res, w')"
  define d where "d = sha (canonicalJson fmt (JObj [(''reason'', JStr (cl_reason input))]))"
  show "kernel_from w0 w'"
  proof (cases "getManagedSession w (cl_sessionId input) (Some (cl_tenantId input))")
    case None
    then show ?thesis using run from_w by (simp add: cancelManagedSession_def tx_eval)
  next
    case (Some s)
    then obtain rid inserted w1 w2 where i: "newId ''scmd'' w = Inr (rid, w1)"
      and c: "insert_command rid (cancel_key input) d w1 = Inr (inserted, w2)"
      and rest: "(if \<not> inserted
          then bindT (replay_command (cancel_key input) d (cl_tenantId input)) (\<lambda>s'. returnT (Some (s', True)))
          else thenT (whenT (ses_state s \<noteq> SS_CANCELLED \<and> ses_state s \<noteq> SS_ARCHIVED)
                        (cancel_open_session input s))
              (thenT (complete_command rid (ses_id s))
              (bindT (getsT (\<lambda>w. getManagedSession w (ses_id s) None)) (\<lambda>stored.
               case stored of None \<Rightarrow> returnT (Some (s, False)) | Some s' \<Rightarrow> returnT (Some (s', False)))))) w2 = Inr (res, w')"
      using run unfolding cancelManagedSession_def Let_def d_def [symmetric] by (auto simp: tx_simps)
    have from1: "kernel_from w0 w1" by (rule hoareD [OF newId_kernel_from from_w i])
    have from2: "kernel_from w0 w2" by (rule hoareD [OF insert_command_kernel_from from1 c])
    have w1: "w1 = w\<lparr>w_ulid_next := Suc (w_ulid_next w)\<rparr>" using i by (rule newId_state)
    have same: "w_sessions w2 = w_sessions w"
      using c w1 by (auto simp: insert_command_iff split: if_splits)
    have f: "find_session w2 (ses_id s) = Some s" and tid: "ses_tenant_id s = cl_tenantId input"
      using getManagedSession_find [OF kernel_from_ok [OF from_w] Some] by (auto simp: find_session_def same)
    show ?thesis
    proof (cases "inserted \<and> session_open s")
      case True
      from cancel_open_session_effect [OF from2 f tid] True obtain w3
        where c3: "cancel_open_session input s w2 = Inr ((), w3)" and from3: "kernel_from w0 w3" by blast
      from True rest c3 have "w' = w3\<lparr>w_commands := update_where (\<lambda>c. cmd_id c = rid)
          (\<lambda>c. c\<lparr>cmd_session_id := Some (ses_id s)\<rparr>) (w_commands w3)\<rparr>"
        by (auto simp: tx_simps complete_command_def session_open_def split: option.splits if_splits)
      then show ?thesis using from3 by simp
    next
      case False
      have rep: "replay_command k d t u = Inr (x, u') \<Longrightarrow> u' = u" for k d t u x u'
        by (auto simp: replay_command_def tx_simps split: option.splits)
      from False rest have "w' = w2 \<or> w' = w2\<lparr>w_commands := update_where (\<lambda>c. cmd_id c = rid)
          (\<lambda>c. c\<lparr>cmd_session_id := Some (ses_id s)\<rparr>) (w_commands w2)\<rparr>"
        by (auto simp: tx_simps complete_command_def session_open_def split: option.splits if_splits dest!: rep)
      then show ?thesis using from2 by auto
    qed
  qed
qed

end
