(* ===== verification/Session_Events.thy ===== *)
theory Session_Events
  imports Sessions
begin

text \<open>
  Events that authenticated principals send to a managed session,
  \<^verbatim>\<open>src/store/sessionEvents.ts\<close>: their exactly-once acceptance, the signal that resumes the
  waiting run, paging, and the dispatch of queued events as new runs of the session.
\<close>

section \<open>Payload schemas\<close>

text \<open>
  Reading a member of a JavaScript object (\<^verbatim>\<open>obj[name]\<close>, \<^verbatim>\<open>name in obj\<close>) also finds the
  members of \<^verbatim>\<open>Object.prototype\<close>.
\<close>

definition object_prototype :: "string list" where
  "object_prototype =
     [''constructor'', ''__defineGetter__'', ''__defineSetter__'', ''hasOwnProperty'',
      ''__lookupGetter__'', ''__lookupSetter__'', ''isPrototypeOf'', ''propertyIsEnumerable'',
      ''toString'', ''valueOf'', ''__proto__'', ''toLocaleString'']"

definition safe_integer :: "rat \<Rightarrow> bool" where
  "safe_integer q \<longleftrightarrow> snd (quotient_of q) = 1 \<and> \<bar>q\<bar> \<le> 9007199254740991"

definition matchesPrimitive :: "json \<Rightarrow> prim_type \<Rightarrow> bool" where
  "matchesPrimitive value type =
     (case type of
        PT_null \<Rightarrow> value = JNull
      | PT_array \<Rightarrow> (case value of JArr _ \<Rightarrow> True | _ \<Rightarrow> False)
      | PT_object \<Rightarrow> (case value of JObj _ \<Rightarrow> True | _ \<Rightarrow> False)
      | PT_integer \<Rightarrow> (case value of JNum q \<Rightarrow> safe_integer q | _ \<Rightarrow> False)
      | PT_string \<Rightarrow> (case value of JStr _ \<Rightarrow> True | _ \<Rightarrow> False)
      | PT_number \<Rightarrow> (case value of JNum _ \<Rightarrow> True | _ \<Rightarrow> False)
      | PT_boolean \<Rightarrow> (case value of JBool _ \<Rightarrow> True | _ \<Rightarrow> False))"

text \<open>One entry of the payload; an inherited \<^verbatim>\<open>properties[name]\<close> has no \<^verbatim>\<open>type\<close> to match.\<close>

definition member_matches :: "signal_schema \<Rightarrow> string \<times> json \<Rightarrow> bool" where
  "member_matches schema = (\<lambda>(name, item).
     case map_of (sch_properties schema) name of
       Some expected \<Rightarrow> matchesPrimitive item expected
     | None \<Rightarrow> name \<notin> set object_prototype \<and> sch_additional schema \<noteq> Some False)"

definition matchesSignalPayload :: "json option \<Rightarrow> signal_schema option \<Rightarrow> bool" where
  "matchesSignalPayload value schema =
     (case schema of
        None \<Rightarrow> True
      | Some sch \<Rightarrow>
          if \<not> sch_object sch then True
          else case value of
                 Some (JObj members) \<Rightarrow>
                   list_all (\<lambda>name. name \<in> fst ` set members \<or> name \<in> set object_prototype) (sch_required sch)
                   \<and> list_all (member_matches sch) members
               | _ \<Rightarrow> False)"

section \<open>Receiving an event\<close>

record receive_event_input =
  re_tenantId :: string
  re_sessionId :: string
  re_sourceType :: string
  re_sourceId :: string
  re_sourceEventId :: string
  re_sourceSequence :: "int option"
  re_apiVersion :: string
  re_type :: session_event_type
  re_occurredAt :: string
  re_subject :: "(string \<times> json) list option"
  re_data :: "(string \<times> json) list"
  re_inputSnapshotRefs :: "json list"
  re_correlationId :: "string option"

definition dispatchClass :: "session_event_type \<Rightarrow> dispatch_class" where
  "dispatchClass type = (if type = SE_signal_received then DC_current_run else DC_future_run)"

definition session_event_type_name :: "session_event_type \<Rightarrow> string" where
  "session_event_type_name type =
     (case type of
        SE_signal_received \<Rightarrow> ''kertas.signal.received''
      | SE_objective_requested \<Rightarrow> ''kertas.objective.requested''
      | SE_feedback_received \<Rightarrow> ''kertas.feedback.received'')"

definition event_request :: "receive_event_input \<Rightarrow> json" where
  "event_request input =
     JObj [(''sessionId'', JStr (re_sessionId input)),
           (''sourceSequence'', jopt jint (re_sourceSequence input)),
           (''apiVersion'', JStr (re_apiVersion input)),
           (''type'', JStr (session_event_type_name (re_type input))),
           (''occurredAt'', JStr (re_occurredAt input)),
           (''subject'', jopt JObj (re_subject input)),
           (''data'', JObj (re_data input)),
           (''inputSnapshotRefs'', JArr (re_inputSnapshotRefs input)),
           (''correlationId'', jopt JStr (re_correlationId input))]"

definition from_source :: "receive_event_input \<Rightarrow> session_event_row \<Rightarrow> bool" where
  "from_source input e \<longleftrightarrow>
     sev_tenant_id e = re_tenantId input \<and> sev_source_type e = re_sourceType input
     \<and> sev_source_id e = re_sourceId input \<and> sev_source_event_id e = re_sourceEventId input"

text \<open>Whether the session's current run waits for exactly this signal.\<close>

definition awaits :: "receive_event_input \<Rightarrow> run_row \<Rightarrow> bool" where
  "awaits input r \<longleftrightarrow>
     run_status r = WAITING_SIGNAL
     \<and> (case jfield (re_data input) ''name'' of
          Some (JStr signalName) \<Rightarrow> run_awaited_signal r = Some signalName
        | _ \<Rightarrow> False)
     \<and> run_awaited_correlation r = re_correlationId input
     \<and> matchesSignalPayload (jfield (re_data input) ''payload'') (run_awaited_schema r)"

definition waiting_run :: "receive_event_input \<Rightarrow> session_row \<Rightarrow> run_row option txn" where
  "waiting_run input s =
     (if dispatchClass (re_type input) \<noteq> DC_current_run then returnT None
      else case ses_current_run s of
             None \<Rightarrow> throwT (SessionEventDeliveryError ''no_current_run'')
           | Some rid \<Rightarrow>
               bindT (getsT (\<lambda>w. find_run w rid)) (\<lambda>currentRun.
               case currentRun of
                 None \<Rightarrow> throwT (SessionEventDeliveryError ''current_run_wait_mismatch'')
               | Some r \<Rightarrow>
                   thenT (ensureT (awaits input r) (SessionEventDeliveryError ''current_run_wait_mismatch''))
                         (returnT (Some r))))"

definition count_event :: "session_row \<Rightarrow> int txn" where
  "count_event s =
     thenT (modifyT (\<lambda>w. w\<lparr>w_sessions := update_where (\<lambda>s'. ses_id s' = ses_id s)
              (\<lambda>s'. s'\<lparr>ses_received_event_seq := ses_received_event_seq s' + 1,
                       ses_version := ses_version s' + 1, ses_updated_at := w_now w\<rparr>) (w_sessions w)\<rparr>))
           (returnT (ses_received_event_seq s + 1))"

definition new_session_event ::
    "receive_event_input \<Rightarrow> string \<Rightarrow> string \<Rightarrow> string \<Rightarrow> int \<Rightarrow> run_row option \<Rightarrow> int \<Rightarrow> session_event_row" where
  "new_session_event input eid sid digest seq currentRun now =
     (let current = dispatchClass (re_type input) = DC_current_run in
      \<lparr>sev_id = eid, sev_tenant_id = re_tenantId input, sev_session_id = sid,
       sev_source_type = re_sourceType input, sev_source_id = re_sourceId input,
       sev_source_event_id = re_sourceEventId input, sev_source_sequence = re_sourceSequence input,
       sev_payload_digest = digest, sev_received_sequence = seq,
       sev_api_version = re_apiVersion input, sev_type = re_type input,
       sev_occurred_at = re_occurredAt input, sev_subject = map_option JObj (re_subject input),
       sev_data = re_data input, sev_snapshot_refs = JArr (re_inputSnapshotRefs input),
       sev_correlation_id = re_correlationId input, sev_dispatch_class = dispatchClass (re_type input),
       sev_status = (if current then ES_CONSUMED else ES_PENDING), sev_status_reason = None,
       sev_run_id = map_option run_id currentRun, sev_dispatch_after = now, sev_created_at = now,
       sev_consumed_at = (if current then Some now else None)\<rparr>)"

text \<open>The insert, with the unique indexes of the table.\<close>

definition insert_session_event :: "session_event_row \<Rightarrow> unit txn" where
  "insert_session_event e =
     (\<lambda>w. if exists_row (\<lambda>e'. sev_id e' = sev_id e) (w_session_events w)
          then Inl (UniqueViolation ''managed_session_events_pkey'')
          else if exists_row (\<lambda>e'. sev_session_id e' = sev_session_id e
                                \<and> sev_received_sequence e' = sev_received_sequence e) (w_session_events w)
          then Inl (UniqueViolation ''managed_session_events_session_id_received_sequence_key'')
          else Inr ((), w\<lparr>w_session_events := w_session_events w @ [e]\<rparr>))"

definition to_signalled :: "receive_event_input \<Rightarrow> string \<Rightarrow> transition_options" where
  "to_signalled input eid =
     \<lparr>to_expectFrom = [WAITING_SIGNAL], to_to = QUEUED, to_type = SignalReceived,
      to_payload = [(''name'', case jfield (re_data input) ''name'' of Some v \<Rightarrow> v | None \<Rightarrow> JNull),
                    (''payload'', case jfield (re_data input) ''payload'' of Some v \<Rightarrow> v | None \<Rightarrow> JNull),
                    (''sessionEventId'', JStr eid)],
      to_attempt = None, to_reason = None,
      to_patch = no_patch\<lparr>p_current_attempt_id := Some None, p_awaited_signal := Some None,
                           p_awaited_correlation := Some None, p_awaited_schema := Some None\<rparr>\<rparr>"

definition accept_event :: "receive_event_input \<Rightarrow> session_row \<Rightarrow> string \<Rightarrow> session_event_row txn" where
  "accept_event input s digest =
     bindT (waiting_run input s) (\<lambda>currentRun.
     bindT (count_event s) (\<lambda>seq.
     bindT (newId ''sevt'') (\<lambda>eid.
     bindT (getsT w_now) (\<lambda>now.
     let e = new_session_event input eid (ses_id s) digest seq currentRun now in
     thenT (insert_session_event e)
    (thenT (case currentRun of
              None \<Rightarrow> returnT ()
            | Some r \<Rightarrow> thenT (transitionRun (run_id r) (to_signalled input eid)) (returnT ()))
           (returnT e))))))"

definition receiveManagedSessionEvent ::
    "(string \<Rightarrow> string) \<Rightarrow> (rat \<Rightarrow> string) \<Rightarrow> receive_event_input \<Rightarrow> (session_event_row \<times> bool) option txn" where
  "receiveManagedSessionEvent sha fmt input =
     bindT (getsT (\<lambda>w. getManagedSession w (re_sessionId input) (Some (re_tenantId input)))) (\<lambda>session.
     case session of
       None \<Rightarrow> returnT None
     | Some s \<Rightarrow>
         (let digest = sha (canonicalJson fmt (event_request input)) in
          bindT (getsT (\<lambda>w. find (from_source input) (w_session_events w))) (\<lambda>existing.
          case existing of
            Some e \<Rightarrow>
              thenT (ensureT (sev_payload_digest e = digest) SessionEventConflictError)
                    (returnT (Some (e, True)))
          | None \<Rightarrow>
              thenT (ensureT (session_open s)
                       (SessionEventDeliveryError (''session_'' @
                          (if ses_state s = SS_CANCELLED then ''cancelled'' else ''archived''))))
                    (bindT (accept_event input s digest) (\<lambda>e. returnT (Some (e, False)))))))"

section \<open>Paging\<close>

definition session_events_after :: "world \<Rightarrow> string \<Rightarrow> string \<Rightarrow> int \<Rightarrow> session_event_row list" where
  "session_events_after w sid tid cursor =
     sort_key sev_received_sequence
       (filter (\<lambda>e. sev_session_id e = sid \<and> cursor < sev_received_sequence e
          \<and> exists_row (\<lambda>s. ses_id s = sid \<and> ses_tenant_id s = tid) (w_sessions w)) (w_session_events w))"

definition listManagedSessionEvents ::
    "world \<Rightarrow> string \<Rightarrow> string \<Rightarrow> int option \<Rightarrow> nat \<Rightarrow> session_event_row list \<times> int option" where
  "listManagedSessionEvents w sid tid afterSeq limit =
     (let rows = take (limit + 1) (session_events_after w sid tid (or_else afterSeq 0));
          hasMore = limit < length rows;
          events = (if hasMore then take limit rows else rows)
      in (events, if hasMore then Some (sev_received_sequence (last events)) else None))"

section \<open>Dispatching queued events\<close>

definition pending_future :: "string \<Rightarrow> session_event_row \<Rightarrow> bool" where
  "pending_future sid e \<longleftrightarrow>
     sev_session_id e = sid \<and> sev_status e = ES_PENDING \<and> sev_dispatch_class e = DC_future_run"

definition next_event :: "world \<Rightarrow> string \<Rightarrow> session_event_row option" where
  "next_event w sid =
     (case sort_key sev_received_sequence (filter (pending_future sid) (w_session_events w)) of
        [] \<Rightarrow> None | e # _ \<Rightarrow> Some e)"

definition dispatch_candidates :: "world \<Rightarrow> nat \<Rightarrow> int \<Rightarrow> (string \<times> string) list" where
  "dispatch_candidates w candidateLimit dispatchNow =
     take candidateLimit (map (\<lambda>(s, e). (ses_id s, ses_tenant_id s))
       (sort_key (\<lambda>(s, e). (sev_created_at e, ses_id s))
         (concat (map (\<lambda>s. case next_event w (ses_id s) of
                        Some e \<Rightarrow> if ses_state s = SS_IDLE \<and> sev_dispatch_after e \<le> dispatchNow
                                  then [(s, e)] else []
                      | None \<Rightarrow> []) (w_sessions w)))))"

definition dispatch_input :: "session_row \<Rightarrow> session_event_row \<Rightarrow> create_run_input" where
  "dispatch_input s e =
     \<lparr>cr_tenantId = ses_tenant_id s, cr_managedSessionId = Some (ses_id s),
      cr_agentVersionId = ses_agent_version_id s,
      cr_goal = (case jfield (sev_data e) ''goal'' of
                   Some (JStr g) \<Rightarrow> g
                 | _ \<Rightarrow> ses_objective s @ [CHR 0x0A, CHR 0x0A] @ ''Inbound event: ''
                        @ session_event_type_name (sev_type e)),
      cr_input = Some [(''sessionEventId'', JStr (sev_id e)),
                       (''eventType'', JStr (session_event_type_name (sev_type e))),
                       (''data'', JObj (sev_data e)), (''inputSnapshotRefs'', sev_snapshot_refs e)],
      cr_maxSteps = None, cr_tokenBudget = None, cr_scheduledFor = None, cr_parentRunId = None,
      cr_replacesRunId = None, cr_replacementGeneration = None, cr_forkedFromRunId = None,
      cr_progress = None, cr_grants = [], cr_debugFaultPoints = []\<rparr>"

definition mark_dispatched :: "string \<Rightarrow> string \<Rightarrow> unit txn" where
  "mark_dispatched eid rid =
     modifyT (\<lambda>w. w\<lparr>w_session_events := update_where (\<lambda>e. sev_id e = eid)
       (\<lambda>e. e\<lparr>sev_status := ES_DISPATCHED, sev_run_id := Some rid, sev_consumed_at := Some (w_now w)\<rparr>)
       (w_session_events w)\<rparr>)"

text \<open>One candidate, in one transaction; \<open>held\<close> are the rows another transaction has locked.\<close>

definition dispatch_one ::
    "(string \<Rightarrow> bool) \<Rightarrow> int \<Rightarrow> string \<times> string \<Rightarrow> string option txn" where
  "dispatch_one held dispatchNow cand =
     bindT (getsT (\<lambda>w. find (\<lambda>s. ses_id s = fst cand \<and> ses_tenant_id s = snd cand
                               \<and> ses_state s = SS_IDLE \<and> \<not> held (ses_id s)) (w_sessions w))) (\<lambda>session.
     case session of
       None \<Rightarrow> returnT None
     | Some s \<Rightarrow>
         bindT (getsT (\<lambda>w. find (\<lambda>e. \<not> held (sev_id e)) (sort_key sev_received_sequence
                  (filter (\<lambda>e. pending_future (ses_id s) e \<and> sev_dispatch_after e \<le> dispatchNow)
                     (w_session_events w))))) (\<lambda>event.
         case event of
           None \<Rightarrow> returnT None
         | Some e \<Rightarrow>
             bindT (createRun (dispatch_input s e)) (\<lambda>run.
             thenT (mark_dispatched (sev_id e) (run_id run))
                   (returnT (Some (run_id run))))))"

definition postpone :: "string \<Rightarrow> int \<Rightarrow> world \<Rightarrow> world" where
  "postpone sid until w =
     w\<lparr>w_session_events := update_where (\<lambda>e. pending_future sid e \<and> sev_dispatch_after e < until)
        (\<lambda>e. e\<lparr>sev_dispatch_after := until\<rparr>) (w_session_events w)\<rparr>"

fun dispatch_loop ::
    "(string \<Rightarrow> bool) \<Rightarrow> int \<Rightarrow> int \<Rightarrow> (string \<times> string) list \<Rightarrow> world \<Rightarrow> (err + string list) \<times> world" where
  "dispatch_loop held retryDelayMs dispatchNow [] w = (Inr [], w)"
| "dispatch_loop held retryDelayMs dispatchNow (c # cs) w =
     (case commit (dispatch_one held dispatchNow c) w of
        (Inl e, w1) \<Rightarrow>
          (case e of
             RunAdmissionRejectedError _ \<Rightarrow>
               dispatch_loop held retryDelayMs dispatchNow cs (postpone (fst c) (dispatchNow + retryDelayMs) w1)
           | _ \<Rightarrow> (Inl e, w1))
      | (Inr res, w1) \<Rightarrow>
          (case dispatch_loop held retryDelayMs dispatchNow cs w1 of
             (Inl e, w2) \<Rightarrow> (Inl e, w2)
           | (Inr ids, w2) \<Rightarrow> (Inr (case res of None \<Rightarrow> ids | Some rid \<Rightarrow> rid # ids), w2)))"

definition dispatchPendingSessionEvents ::
    "(string \<Rightarrow> bool) \<Rightarrow> nat \<Rightarrow> int \<Rightarrow> int \<Rightarrow> world \<Rightarrow> (err + string list) \<times> world" where
  "dispatchPendingSessionEvents held candidateLimit retryDelayMs dispatchNow w =
     dispatch_loop held retryDelayMs dispatchNow (dispatch_candidates w candidateLimit dispatchNow) w"

section \<open>Frames\<close>

lemma waiting_run_kernel_from [hoare_rules]: "keeps (kernel_from w0) (waiting_run input s)"
  unfolding waiting_run_def by (intro hoare_rules)

lemma count_event_kernel_from [hoare_rules]: "keeps (kernel_from w0) (count_event s)"
  unfolding count_event_def
  by (intro hoare_rules keeps_modifyT kernel_from_session_update)
     (auto simp: session_open_def kernel_from_def kernel_ok_def sessions_fenced_def)

lemma insert_session_event_kernel_from [hoare_rules]: "keeps (kernel_from w0) (insert_session_event e)"
  by (rule hoareI) (auto simp: insert_session_event_def split: if_splits)

lemma accept_event_kernel_from [hoare_rules]: "keeps (kernel_from w0) (accept_event input s digest)"
  unfolding accept_event_def Let_def by (intro hoare_rules)

lemma receive_kernel_from [hoare_rules]:
  "keeps (kernel_from w0) (receiveManagedSessionEvent sha fmt input)"
  unfolding receiveManagedSessionEvent_def Let_def by (intro hoare_rules)

lemma dispatch_one_kernel_from [hoare_rules]: "keeps (kernel_from w0) (dispatch_one held now cand)"
  unfolding dispatch_one_def mark_dispatched_def by (intro hoare_rules keeps_modifyT) simp

lemma postpone_kernel_from [simp]: "kernel_from w0 (postpone sid until w) = kernel_from w0 w"
  by (simp add: postpone_def)

lemma dispatch_loop_kernel_from:
  "kernel_from w0 w \<Longrightarrow> kernel_from w0 (snd (dispatch_loop held delay now cs w))"
proof (induction cs arbitrary: w)
  case (Cons c cs)
  have one: "kernel_from w0 (snd (commit (dispatch_one held now c) w))"
    by (rule commit_keeps [OF dispatch_one_kernel_from Cons.prems])
  obtain res w1 where c: "commit (dispatch_one held now c) w = (res, w1)" by (cases "commit (dispatch_one held now c) w")
  then have from1: "kernel_from w0 w1" using one by simp
  show ?case
  proof (cases res)
    case (Inl e)
    then show ?thesis using c from1 Cons.IH [of "postpone (fst c) (now + delay) w1"] by (cases e) simp_all
  next
    case (Inr r)
    then show ?thesis using c Cons.IH [OF from1] by (simp split: sum.split prod.split) (metis snd_conv)
  qed
qed simp

section \<open>Logs that only grow\<close>

text \<open>
  The contract of a log that operations append to: whatever the first match of a search is, it
  stays the first match.
\<close>

locale append_only =
  fixes log :: "'s \<Rightarrow> 'a list"
    and step :: "'s \<Rightarrow> 's \<Rightarrow> bool"
  assumes appends: "step s t \<Longrightarrow> \<exists>extra. log t = log s @ extra"
begin

lemma log_grows: "step\<^sup>*\<^sup>* s t \<Longrightarrow> \<exists>extra. log t = log s @ extra"
proof (induction rule: rtranclp_induct)
  case base
  then show ?case by simp
next
  case (step t u)
  then show ?case using appends by fastforce
qed

lemma found_stays: "step\<^sup>*\<^sup>* s t \<Longrightarrow> find p (log s) = Some x \<Longrightarrow> find p (log t) = Some x"
  using log_grows [of s t] by (auto simp: find_append)

end

text \<open>What no update of an event row changes.\<close>

definition event_ident :: "session_event_row \<Rightarrow> string \<times> string \<times> string \<times> string \<times> string \<times> string \<times> int \<times> string" where
  "event_ident e = (sev_id e, sev_tenant_id e, sev_source_type e, sev_source_id e,
     sev_source_event_id e, sev_payload_digest e, sev_received_sequence e, sev_session_id e)"

inductive event_step :: "world \<Rightarrow> world \<Rightarrow> bool" where
  receive: "receiveManagedSessionEvent sha fmt input w = Inr (res, w') \<Longrightarrow> event_step w w'"
| dispatch: "kernel_ok w \<Longrightarrow> dispatch_one held now cand w = Inr (res2, w') \<Longrightarrow> event_step w w'"
| delay: "event_step w (postpone sid until w)"
| cancel: "cancelManagedSession sha fmt cinput w = Inr (res3, w') \<Longrightarrow> event_step w w'"
| other: "w_session_events w' = w_session_events w \<Longrightarrow> event_step w w'"

lemma idents_update [simp]:
  "(\<And>e. event_ident (u e) = event_ident e) \<Longrightarrow>
   map event_ident (update_where p u es) = map event_ident es"
  by (rule map_update_where)

lemma idents_transitionRun [hoare_rules]:
  "keeps (\<lambda>w. map event_ident (w_session_events w) = X) (transitionRun rid opts)"
  by (rule hoareI) (auto simp: transitionRun_iff)

lemma idents_newId [hoare_rules]: "keeps (\<lambda>w. map event_ident (w_session_events w) = X) (newId pre)"
  by (rule hoareI) (auto simp: newId_iff)

lemma idents_commands [hoare_rules]:
  "keeps (\<lambda>w. map event_ident (w_session_events w) = X) (insert_command rid k d)"
  "keeps (\<lambda>w. map event_ident (w_session_events w) = X) (replay_command k d tid)"
  "keeps (\<lambda>w. map event_ident (w_session_events w) = X) (complete_command rid sid)"
proof -
  show "keeps (\<lambda>w. map event_ident (w_session_events w) = X) (insert_command rid k d)"
    by (rule hoareI) (auto simp: insert_command_def split: if_splits)
  show "keeps (\<lambda>w. map event_ident (w_session_events w) = X) (replay_command k d tid)"
    unfolding replay_command_def by (intro hoare_rules)
  show "keeps (\<lambda>w. map event_ident (w_session_events w) = X) (complete_command rid sid)"
    unfolding complete_command_def by (intro keeps_modifyT) simp
qed

lemma idents_fence_run [hoare_rules]:
  "keeps (\<lambda>w. map event_ident (w_session_events w) = X) (fence_run reason c)"
proof -
  have "keeps (\<lambda>w. map event_ident (w_session_events w) = X) (case e of
        UnexpectedStatusError _ actual _ \<Rightarrow> if isTerminal actual then returnT () else throwT e
      | _ \<Rightarrow> throwT e)" for e
    by (cases e) (simp_all add: hoare_rules)
  then show ?thesis
    unfolding fence_run_def cancel_attempt_def by (intro hoare_rules keeps_modifyT) simp_all
qed

lemma idents_cancel:
  "keeps (\<lambda>w. map event_ident (w_session_events w) = X) (cancelManagedSession sha fmt input)"
  unfolding cancelManagedSession_def cancel_open_session_def fenceManagedSessionRuns_def
    stale_events_def close_session_def Let_def
  by (intro hoare_rules keeps_modifyT) (simp_all add: event_ident_def)

lemma idents_dispatch_one:
  assumes "kernel_ok w" and "dispatch_one held now cand w = Inr (res, w')"
  shows "map event_ident (w_session_events w') = map event_ident (w_session_events w)"
  using assms createRun_frame [OF assms(1)]
  by (auto simp: dispatch_one_def mark_dispatched_def tx_simps event_ident_def split: option.splits)

section \<open>What receiving an event does\<close>

lemma new_session_event_sel [simp]:
  "sev_id (new_session_event input eid sid digest seq cur now) = eid"
  "sev_session_id (new_session_event input eid sid digest seq cur now) = sid"
  "sev_received_sequence (new_session_event input eid sid digest seq cur now) = seq"
  "sev_payload_digest (new_session_event input eid sid digest seq cur now) = digest"
  "from_source input (new_session_event input eid sid digest seq cur now)"
  by (simp_all add: new_session_event_def Let_def from_source_def)

lemma accept_event_effect:
  assumes "accept_event input s digest w = Inr (e, w')"
  obtains cur w1 where "waiting_run input s w = Inr (cur, w)"
    and "e = new_session_event input (''sevt_'' @ toLowerCase (w_ulid w (w_ulid_next w))) (ses_id s) digest
           (ses_received_event_seq s + 1) cur (w_now w)"
    and "w1 = w\<lparr>w_sessions := update_where (\<lambda>s'. ses_id s' = ses_id s)
              (\<lambda>s'. s'\<lparr>ses_received_event_seq := ses_received_event_seq s' + 1,
                       ses_version := ses_version s' + 1, ses_updated_at := w_now w\<rparr>) (w_sessions w),
              w_ulid_next := Suc (w_ulid_next w), w_session_events := w_session_events w @ [e]\<rparr>"
    and "case cur of None \<Rightarrow> w' = w1
         | Some r \<Rightarrow> \<exists>row. transitionRun (run_id r) (to_signalled input (sev_id e)) w1 = Inr (row, w')"
    and "\<forall>x \<in> set (w_session_events w). sev_id x \<noteq> sev_id e"
proof -
  have wait: "w2 = w" if "waiting_run input s w = Inr (cur, w2)" for cur w2
    using that by (auto simp: waiting_run_def tx_simps split: if_splits option.splits)
  from assms obtain cur w0 seq w2 eid w3 w4 where c: "waiting_run input s w = Inr (cur, w0)"
    and cnt: "count_event s w0 = Inr (seq, w2)" and idn: "newId ''sevt'' w2 = Inr (eid, w3)"
    and e: "e = new_session_event input eid (ses_id s) digest seq cur (w_now w3)"
    and ins: "insert_session_event e w3 = Inr ((), w4)"
    and t: "(case cur of None \<Rightarrow> returnT () | Some r \<Rightarrow>
        thenT (transitionRun (run_id r) (to_signalled input eid)) (returnT ())) w4 = Inr ((), w')"
    by (auto simp: accept_event_def tx_simps Let_def)
  have w0: "w0 = w" using c by (rule wait)
  have w2: "w2 = w\<lparr>w_sessions := update_where (\<lambda>s'. ses_id s' = ses_id s)
              (\<lambda>s'. s'\<lparr>ses_received_event_seq := ses_received_event_seq s' + 1,
                       ses_version := ses_version s' + 1, ses_updated_at := w_now w\<rparr>) (w_sessions w)\<rparr>"
    and seq: "seq = ses_received_event_seq s + 1"
    using cnt w0 by (simp_all add: count_event_def tx_simps)
  have w3: "w3 = w2\<lparr>w_ulid_next := Suc (w_ulid_next w)\<rparr>" and eid: "eid = ''sevt_'' @ toLowerCase (w_ulid w (w_ulid_next w))"
    using idn by (simp_all add: newId_iff w2)
  have w4: "w4 = w3\<lparr>w_session_events := w_session_events w @ [e]\<rparr>"
    and new: "\<forall>x \<in> set (w_session_events w). sev_id x \<noteq> sev_id e"
    using ins by (auto simp: insert_session_event_def exists_row_iff w3 w2 split: if_splits)
  show ?thesis
  proof (rule that)
    show "waiting_run input s w = Inr (cur, w)" using c w0 by simp
    show "e = new_session_event input (''sevt_'' @ toLowerCase (w_ulid w (w_ulid_next w))) (ses_id s) digest
           (ses_received_event_seq s + 1) cur (w_now w)"
      using e eid seq by (simp add: w3 w2)
    show "w4 = w\<lparr>w_sessions := update_where (\<lambda>s'. ses_id s' = ses_id s)
              (\<lambda>s'. s'\<lparr>ses_received_event_seq := ses_received_event_seq s' + 1,
                       ses_version := ses_version s' + 1, ses_updated_at := w_now w\<rparr>) (w_sessions w),
              w_ulid_next := Suc (w_ulid_next w), w_session_events := w_session_events w @ [e]\<rparr>"
      by (simp add: w4 w3 w2)
    show "case cur of None \<Rightarrow> w' = w4
         | Some r \<Rightarrow> \<exists>row. transitionRun (run_id r) (to_signalled input (sev_id e)) w4 = Inr (row, w')"
      using t by (cases cur) (auto simp: tx_simps e)
    show "\<forall>x \<in> set (w_session_events w). sev_id x \<noteq> sev_id e" by (rule new)
  qed
qed

lemma receive_fresh:
  assumes "receiveManagedSessionEvent sha fmt input w = Inr (Some (e, False), w')"
  obtains s where "getManagedSession w (re_sessionId input) (Some (re_tenantId input)) = Some s"
    and "find (from_source input) (w_session_events w) = None" and "session_open s"
    and "accept_event input s (sha (canonicalJson fmt (event_request input))) w = Inr (e, w')"
  using assms that
  by (auto simp: receiveManagedSessionEvent_def tx_simps Let_def split: option.splits)

lemma receive_replay:
  assumes "receiveManagedSessionEvent sha fmt input w = Inr (res, w')"
    and "\<And>e. res \<noteq> Some (e, False)"
  shows "w' = w"
  using assms
  by (auto simp: receiveManagedSessionEvent_def tx_simps Let_def split: option.splits)

lemma accept_event_events:
  assumes "accept_event input s digest w = Inr (e, w')"
  shows "w_session_events w' = w_session_events w @ [e]"
  using assms
  by (rule accept_event_effect) (auto simp: transitionRun_iff split: option.splits)

interpretation session_events: append_only "\<lambda>w. map event_ident (w_session_events w)" event_step
proof
  fix w w' assume "event_step w w'"
  then show "\<exists>extra. map event_ident (w_session_events w') = map event_ident (w_session_events w) @ extra"
  proof cases
    case (receive sha fmt input res)
    show ?thesis
    proof (cases "\<exists>e. res = Some (e, False)")
      case True
      then obtain e where "receiveManagedSessionEvent sha fmt input w = Inr (Some (e, False), w')"
        using receive by blast
      then show ?thesis by (rule receive_fresh) (drule accept_event_events, simp)
    next
      case False
      then show ?thesis using receive_replay [OF receive] by simp
    qed
  next
    case (dispatch held now cand res)
    then show ?thesis using idents_dispatch_one by simp
  next
    case (delay sid until)
    then show ?thesis by (simp add: postpone_def event_ident_def)
  next
    case (cancel sha fmt input res)
    then show ?thesis using hoareD [OF idents_cancel refl] by fastforce
  qed auto
qed

interpretation commands: append_only w_commands session_step
  by unfold_locales (auto elim: session_step.cases)

section \<open>Properties\<close>

definition same_source :: "receive_event_input \<Rightarrow> receive_event_input \<Rightarrow> bool" where
  "same_source a b \<longleftrightarrow>
     re_tenantId b = re_tenantId a \<and> re_sourceType b = re_sourceType a
     \<and> re_sourceId b = re_sourceId a \<and> re_sourceEventId b = re_sourceEventId a"

definition source_of_ident where
  "source_of_ident input =
     (\<lambda>(eid, ten, sty, sid, sev, dig, seq, ses). ten = re_tenantId input \<and> sty = re_sourceType input
        \<and> sid = re_sourceId input \<and> sev = re_sourceEventId input)"

lemma find_ident:
  "find (source_of_ident input) (map event_ident es) = map_option event_ident (find (from_source input) es)"
  by (induction es) (auto simp: source_of_ident_def event_ident_def from_source_def)

text \<open>
  C19: an event is accepted once. Once an event has been accepted, and whatever receptions,
  dispatches, delays and cancellations follow, every later delivery of the same source event is
  answered from the stored row: the same payload with that event, another payload with a
  conflict; nothing is written and no run is signalled again.
\<close>

theorem event_accepted_once:
  assumes "receiveManagedSessionEvent sha fmt input w = Inr (Some (e, False), w1)"
    and "event_step\<^sup>*\<^sup>* w1 w2" and "same_source input input'"
    and "getManagedSession w2 (re_sessionId input') (Some (re_tenantId input')) \<noteq> None"
  shows "\<exists>e' \<in> set (w_session_events w2). sev_id e' = sev_id e
     \<and> receiveManagedSessionEvent sha fmt input' w2 =
        (if sha (canonicalJson fmt (event_request input')) = sha (canonicalJson fmt (event_request input))
         then Inr (Some (e', True), w2) else Inl SessionEventConflictError)"
proof -
  obtain s where none: "find (from_source input) (w_session_events w) = None"
    and acc: "accept_event input s (sha (canonicalJson fmt (event_request input))) w = Inr (e, w1)"
    by (rule receive_fresh [OF assms(1)])
  have row: "from_source input e" "sev_payload_digest e = sha (canonicalJson fmt (event_request input))"
    by (rule accept_event_effect [OF acc], simp)+
  have "find (from_source input) (w_session_events w1) = Some e"
    using none row(1) by (simp add: accept_event_events [OF acc] find_append)
  then have "find (source_of_ident input) (map event_ident (w_session_events w1)) = Some (event_ident e)"
    by (simp add: find_ident)
  then have "find (source_of_ident input) (map event_ident (w_session_events w2)) = Some (event_ident e)"
    by (rule session_events.found_stays [OF assms(2)])
  then obtain e' where e': "find (from_source input) (w_session_events w2) = Some e'" "event_ident e' = event_ident e"
    by (auto simp: find_ident)
  have "from_source input' = from_source input"
    using assms(3) by (simp add: from_source_def [abs_def] same_source_def)
  moreover obtain s' where "getManagedSession w2 (re_sessionId input') (Some (re_tenantId input')) = Some s'"
    using assms(4) by blast
  ultimately have "receiveManagedSessionEvent sha fmt input' w2 =
        (if sha (canonicalJson fmt (event_request input')) = sha (canonicalJson fmt (event_request input))
         then Inr (Some (e', True), w2) else Inl SessionEventConflictError)"
    using e' row(2) by (simp add: receiveManagedSessionEvent_def tx_eval Let_def event_ident_def)
  moreover have "e' \<in> set (w_session_events w2)" "sev_id e' = sev_id e"
    using e' find_SomeD [OF e'(1)] by (simp_all add: event_ident_def)
  ultimately show ?thesis by blast
qed

text \<open>
  A signal resumes exactly the run that waits for it. An accepted signal finds the current
  run of its session waiting for that signal, under that correlation, with a payload of the
  awaited shape; the run is queued again, waits for nothing and holds no attempt; the ledger has
  one more event, with the payload; the stored event is consumed by that run.
\<close>

theorem signal_resumes_run:
  assumes "kernel_ok w" and "re_type input = SE_signal_received"
    and "receiveManagedSessionEvent sha fmt input w = Inr (Some (e, False), w')"
  shows "\<exists>s r r' ev. getManagedSession w (re_sessionId input) (Some (re_tenantId input)) = Some s
     \<and> ses_current_run s = Some (run_id r) \<and> find_run w (run_id r) = Some r \<and> awaits input r
     \<and> find_run w' (run_id r) = Some r' \<and> run_status r' = QUEUED \<and> run_current_attempt_id r' = None
     \<and> run_awaited_signal r' = None \<and> run_awaited_correlation r' = None \<and> run_awaited_schema r' = None
     \<and> w_events w' = w_events w @ [ev] \<and> ev_run_id ev = run_id r \<and> ev_type ev = SignalReceived
     \<and> jfield (ev_payload ev) ''payload'' = Some (or_else (jfield (re_data input) ''payload'') JNull)
     \<and> sev_status e = ES_CONSUMED \<and> sev_run_id e = Some (run_id r) \<and> kernel_ok w'"
proof -
  obtain s where s: "getManagedSession w (re_sessionId input) (Some (re_tenantId input)) = Some s"
    and acc: "accept_event input s (sha (canonicalJson fmt (event_request input))) w = Inr (e, w')"
    by (rule receive_fresh [OF assms(3)])
  let ?d = "sha (canonicalJson fmt (event_request input))"
  from acc obtain cur w1 where wait: "waiting_run input s w = Inr (cur, w)"
    and e: "e = new_session_event input (''sevt_'' @ toLowerCase (w_ulid w (w_ulid_next w))) (ses_id s) ?d
           (ses_received_event_seq s + 1) cur (w_now w)"
    and w1: "w1 = w\<lparr>w_sessions := update_where (\<lambda>s'. ses_id s' = ses_id s)
              (\<lambda>s'. s'\<lparr>ses_received_event_seq := ses_received_event_seq s' + 1,
                       ses_version := ses_version s' + 1, ses_updated_at := w_now w\<rparr>) (w_sessions w),
              w_ulid_next := Suc (w_ulid_next w), w_session_events := w_session_events w @ [e]\<rparr>"
    and t: "case cur of None \<Rightarrow> w' = w1
         | Some r \<Rightarrow> \<exists>row. transitionRun (run_id r) (to_signalled input (sev_id e)) w1 = Inr (row, w')"
    by (rule accept_event_effect)
  from wait assms(2) obtain r where cur: "cur = Some r" and r: "ses_current_run s = Some (run_id r)"
      "find_run w (run_id r) = Some r" "awaits input r"
    by (auto simp: waiting_run_def dispatchClass_def tx_simps split: option.splits dest: find_run_id)
  have f1: "find_run w1 (run_id r) = Some r" using r(2) by (simp add: w1 find_run_def)
  let ?o = "to_signalled input (sev_id e)"
  have w': "w' = transition_world r ?o w1"
    using t cur f1 by (auto simp: transitionRun_iff)
  have "find_run w' (run_id r) = Some (transition_row ?o (run_last_event_seq r + 1) (w_now w1) r)"
    unfolding w' using f1 by (simp add: find_run_transition_world)
  moreover have "w_events w' = w_events w @ [transition_event r ?o (w_now w1)]"
    by (simp add: w' w1)
  moreover have "jfield (ev_payload (transition_event r ?o (w_now w1))) ''payload'' =
      Some (or_else (jfield (re_data input) ''payload'') JNull)"
    by (simp add: transition_payload_def to_signalled_def jfield_def split: option.split)
  moreover have "kernel_ok w'"
    using hoareD [OF receive_kernel_from kernel_from_refl [OF assms(1)] assms(3)] by (rule kernel_from_ok)
  ultimately show ?thesis
    using s r assms(2) cur
    by (intro exI [of _ s] exI [of _ r] exI [of _ "transition_row ?o (run_last_event_seq r + 1) (w_now w1) r"]
          exI [of _ "transition_event r ?o (w_now w1)"] conjI)
       (simp_all add: to_signalled_def transition_row_def no_patch_def e new_session_event_def dispatchClass_def)
qed


section \<open>Numbering and paging\<close>

text \<open>\<open>numbered\<close>: the events of a session are numbered \<open>1, 2, ..\<close> in the order of their arrival.\<close>

definition numbered :: "world \<Rightarrow> bool" where
  "numbered w \<longleftrightarrow>
     (\<forall>s \<in> set (w_sessions w). 0 \<le> ses_received_event_seq s
        \<and> map sev_received_sequence (filter (\<lambda>e. sev_session_id e = ses_id s) (w_session_events w))
            = [1..ses_received_event_seq s])
     \<and> (\<forall>e \<in> set (w_session_events w). \<exists>s \<in> set (w_sessions w). ses_id s = sev_session_id e)"

definition session_seq :: "session_row \<Rightarrow> string \<times> int" where
  "session_seq s = (ses_id s, ses_received_event_seq s)"

definition seq_tables :: "world \<Rightarrow> (string \<times> int) list \<times> (string \<times> int) list" where
  "seq_tables w = (map session_seq (w_sessions w),
     map (\<lambda>e. (sev_session_id e, sev_received_sequence e)) (w_session_events w))"

lemma seq_filter:
  "map sev_received_sequence (filter (\<lambda>e. sev_session_id e = sid) es) =
   map snd (filter (\<lambda>p. fst p = sid) (map (\<lambda>e. (sev_session_id e, sev_received_sequence e)) es))"
  by (induction es) auto

lemma numbered_tables:
  "numbered w \<longleftrightarrow>
     (\<forall>p \<in> set (fst (seq_tables w)). 0 \<le> snd p
        \<and> map snd (filter (\<lambda>q. fst q = fst p) (snd (seq_tables w))) = [1..snd p])
     \<and> (\<forall>q \<in> set (snd (seq_tables w)). \<exists>p \<in> set (fst (seq_tables w)). fst p = fst q)"
  by (simp add: numbered_def seq_tables_def session_seq_def seq_filter)

lemma numbered_cong: "seq_tables w' = seq_tables w \<Longrightarrow> numbered w' = numbered w"
  by (simp add: numbered_tables)

lemma seq_update_sessions [simp]:
  "(\<And>s. session_seq (u s) = session_seq s) \<Longrightarrow>
   map session_seq (update_where p u ss) = map session_seq ss"
  by (rule map_update_where)

lemma seq_tables_transition [simp]: "seq_tables (transition_world r opts w) = seq_tables w"
  by (simp add: seq_tables_def project_sessions_def session_seq_def)

lemma seq_tables_event_rows:
  assumes "map event_ident (w_session_events w') = map event_ident (w_session_events w)"
  shows "snd (seq_tables w') = snd (seq_tables w)"
proof -
  have "(\<lambda>e. (sev_session_id e, sev_received_sequence e)) =
      (\<lambda>(a, b, c, d, e, f, g, h). (h, g)) \<circ> event_ident"
    by (simp add: fun_eq_iff event_ident_def)
  then show ?thesis using assms by (simp add: seq_tables_def flip: map_map)
qed

lemma seq_transitionRun [hoare_rules]:
  "keeps (\<lambda>w. map session_seq (w_sessions w) = X) (transitionRun rid opts)"
  by (rule hoareI) (auto simp: transitionRun_iff project_sessions_def session_seq_def)

lemma seq_newId [hoare_rules]: "keeps (\<lambda>w. map session_seq (w_sessions w) = X) (newId pre)"
  by (rule hoareI) (auto simp: newId_iff)

lemma seq_commands [hoare_rules]:
  "keeps (\<lambda>w. map session_seq (w_sessions w) = X) (insert_command rid k d)"
  "keeps (\<lambda>w. map session_seq (w_sessions w) = X) (replay_command k d tid)"
  "keeps (\<lambda>w. map session_seq (w_sessions w) = X) (complete_command rid sid)"
proof -
  show "keeps (\<lambda>w. map session_seq (w_sessions w) = X) (insert_command rid k d)"
    by (rule hoareI) (auto simp: insert_command_def split: if_splits)
  show "keeps (\<lambda>w. map session_seq (w_sessions w) = X) (replay_command k d tid)"
    unfolding replay_command_def by (intro hoare_rules)
  show "keeps (\<lambda>w. map session_seq (w_sessions w) = X) (complete_command rid sid)"
    unfolding complete_command_def by (intro keeps_modifyT) simp
qed

lemma seq_fence_run [hoare_rules]: "keeps (\<lambda>w. map session_seq (w_sessions w) = X) (fence_run reason c)"
proof -
  have "keeps (\<lambda>w. map session_seq (w_sessions w) = X) (case e of
        UnexpectedStatusError _ actual _ \<Rightarrow> if isTerminal actual then returnT () else throwT e
      | _ \<Rightarrow> throwT e)" for e
    by (cases e) (simp_all add: hoare_rules)
  then show ?thesis
    unfolding fence_run_def cancel_attempt_def by (intro hoare_rules keeps_modifyT) simp_all
qed

lemma seq_cancel: "keeps (\<lambda>w. map session_seq (w_sessions w) = X) (cancelManagedSession sha fmt input)"
  unfolding cancelManagedSession_def cancel_open_session_def fenceManagedSessionRuns_def
    stale_events_def close_session_def Let_def
  by (intro hoare_rules keeps_modifyT) (simp_all add: session_seq_def)

lemma seq_createRun:
  assumes "kernel_ok w" and "createRun input w = Inr (r, w')"
  shows "map session_seq (w_sessions w') = map session_seq (w_sessions w)"
proof -
  obtain msid where "w_sessions w' = enter_session input msid (run_id r) (w_now w) (w_sessions w)"
    by (rule createRun_world [OF assms])
  then show ?thesis by (simp add: enter_session_def session_seq_def)
qed

lemma numbered_dispatch_one:
  assumes "kernel_ok w" and "dispatch_one held now cand w = Inr (res, w')" and "numbered w"
  shows "numbered w'"
proof -
  have "map session_seq (w_sessions w') = map session_seq (w_sessions w)"
    using assms(2)
    by (auto simp: dispatch_one_def mark_dispatched_def tx_simps dest: seq_createRun [OF assms(1)] split: option.splits)
  then have "seq_tables w' = seq_tables w"
    using seq_tables_event_rows [OF idents_dispatch_one [OF assms(1,2)]]
    by (simp add: seq_tables_def)
  then show ?thesis using assms(3) numbered_cong by blast
qed

lemma numbered_receive:
  assumes ok: "kernel_ok w" and num: "numbered w"
    and run: "receiveManagedSessionEvent sha fmt input w = Inr (res, w')"
  shows "numbered w'"
proof (cases "\<exists>e. res = Some (e, False)")
  case True
  then obtain e where "receiveManagedSessionEvent sha fmt input w = Inr (Some (e, False), w')"
    using run by blast
  then obtain s where s: "getManagedSession w (re_sessionId input) (Some (re_tenantId input)) = Some s"
    and acc: "accept_event input s (sha (canonicalJson fmt (event_request input))) w = Inr (e, w')"
    by (rule receive_fresh)
  have mem: "s \<in> set (w_sessions w)"
    using s by (auto simp: getManagedSession_def dest: find_SomeD)
  have "distinct (map ses_id (w_sessions w))" using ok by (simp add: kernel_ok_def session_ok_def)
  then have inj: "x = s" if "x \<in> set (w_sessions w)" "ses_id x = ses_id s" for x
    using that mem by (auto simp: distinct_map inj_on_def)
  let ?u = "\<lambda>s' :: session_row. s'\<lparr>ses_received_event_seq := ses_received_event_seq s' + 1,
                       ses_version := ses_version s' + 1, ses_updated_at := w_now w\<rparr>"
  from acc obtain cur w1 where
    e_eq: "e = new_session_event input (''sevt_'' @ toLowerCase (w_ulid w (w_ulid_next w))) (ses_id s)
           (sha (canonicalJson fmt (event_request input))) (ses_received_event_seq s + 1) cur (w_now w)"
    and w1: "w1 = w\<lparr>w_sessions := update_where (\<lambda>s'. ses_id s' = ses_id s) ?u (w_sessions w),
              w_ulid_next := Suc (w_ulid_next w), w_session_events := w_session_events w @ [e]\<rparr>"
    and t: "case cur of None \<Rightarrow> w' = w1
         | Some r \<Rightarrow> \<exists>row. transitionRun (run_id r) (to_signalled input (sev_id e)) w1 = Inr (row, w')"
    by (rule accept_event_effect)
  have e: "sev_session_id e = ses_id s" "sev_received_sequence e = ses_received_event_seq s + 1"
    by (simp_all add: e_eq)
  have "numbered w1"
    unfolding numbered_def
  proof (intro conjI ballI)
    fix x assume "x \<in> set (w_sessions w1)"
    then have "x \<in> set (update_where (\<lambda>s'. ses_id s' = ses_id s) ?u (w_sessions w))" by (simp add: w1)
    then obtain y where y: "y \<in> set (w_sessions w)" and x: "x = (if ses_id y = ses_id s then ?u y else y)"
      by (rule in_update_whereE)
    have old: "0 \<le> ses_received_event_seq y"
      "map sev_received_sequence (filter (\<lambda>e. sev_session_id e = ses_id y) (w_session_events w)) = [1..ses_received_event_seq y]"
      using num y by (simp_all add: numbered_def)
    show "0 \<le> ses_received_event_seq x" using old(1) x by simp
    show "map sev_received_sequence (filter (\<lambda>e. sev_session_id e = ses_id x) (w_session_events w1)) =
        [1..ses_received_event_seq x]"
    proof (cases "ses_id y = ses_id s")
      case True
      then have "y = s" using inj y by blast
      then show ?thesis using old x e by (simp add: w1 upto_rec2)
    next
      case False
      then show ?thesis using old x e by (simp add: w1)
    qed
  next
    fix q assume "q \<in> set (w_session_events w1)"
    then have "\<exists>y \<in> set (w_sessions w). ses_id y = sev_session_id q"
      using num mem e by (auto simp: w1 numbered_def)
    then obtain y where y: "y \<in> set (w_sessions w)" "ses_id y = sev_session_id q" by blast
    from in_update_whereI [OF y(1), of "\<lambda>s'. ses_id s' = ses_id s" ?u]
    have "(if ses_id y = ses_id s then ?u y else y) \<in> set (w_sessions w1)" by (simp add: w1)
    then show "\<exists>x \<in> set (w_sessions w1). ses_id x = sev_session_id q"
      by (rule rev_bexI) (simp add: y(2))
  qed
  moreover have "seq_tables w' = seq_tables w1"
    using t by (auto simp: transitionRun_iff split: option.splits)
  ultimately show ?thesis using numbered_cong by blast
next
  case False
  then show ?thesis using receive_replay [OF run] num by simp
qed


lemma numbered_insert_session:
  assumes "numbered w" and "insert_session (new_session input sid now) w = Inr (u, w')"
  shows "numbered w'"
proof -
  have new: "\<forall>s \<in> set (w_sessions w). ses_id s \<noteq> sid"
    and w': "w' = w\<lparr>w_sessions := w_sessions w @ [new_session input sid now]\<rparr>"
    using assms(2) by (simp_all add: insert_session_iff new_session_def)
  have "filter (\<lambda>e. sev_session_id e = sid) (w_session_events w) = []"
    using assms(1) new by (fastforce simp: numbered_def filter_empty_conv)
  then show ?thesis using assms(1) by (auto simp: numbered_def w' new_session_def)
qed

text \<open>The operations on sessions and their events, on a database in which the invariants hold.\<close>

definition sound :: "world \<Rightarrow> bool" where
  "sound w \<longleftrightarrow> kernel_ok w \<and> numbered w"

inductive numbered_step :: "world \<Rightarrow> world \<Rightarrow> bool" where
  receive: "receiveManagedSessionEvent sha fmt input w = Inr (res, w') \<Longrightarrow> numbered_step w w'"
| dispatch: "dispatch_one held now cand w = Inr (res2, w') \<Longrightarrow> numbered_step w w'"
| delay: "numbered_step w (postpone sid until w)"
| cancel: "cancelManagedSession sha fmt cinput w = Inr (res3, w') \<Longrightarrow> numbered_step w w'"
| create: "createManagedSession sha fmt minput w = Inr (res4, w') \<Longrightarrow> numbered_step w w'"
| createRun: "createRun rinput w = Inr (r, w') \<Longrightarrow> numbered_step w w'"
| transition: "transitionRun rid opts w = Inr (r2, w') \<Longrightarrow> numbered_step w w'"

lemma soundI:
  assumes "sound w" and "kernel_from w w'" and "seq_tables w' = seq_tables w"
  shows "sound w'"
  unfolding sound_def
proof
  show "kernel_ok w'" using assms(2) by (rule kernel_from_ok)
  show "numbered w'" using numbered_cong [OF assms(3)] assms(1) by (simp add: sound_def)
qed

lemma sound_ok: "sound w \<Longrightarrow> kernel_ok w" "sound w \<Longrightarrow> numbered w" "sound w \<Longrightarrow> kernel_from w w"
  by (simp_all add: sound_def kernel_from_refl)

lemma sound_createRun: "keeps sound (createRun input)"
proof (rule hoareI)
  fix w r w' assume s: "sound w" and run: "createRun input w = Inr (r, w')"
  show "sound w'"
  proof (rule soundI [OF s])
    show "kernel_from w w'" by (rule hoareD [OF createRun_kernel_from sound_ok(3) [OF s] run])
    show "seq_tables w' = seq_tables w"
      using seq_createRun [OF sound_ok(1) [OF s] run] createRun_frame [OF sound_ok(1) [OF s] run]
      by (simp add: seq_tables_def)
  qed
qed

lemma sound_plain:
  assumes "\<And>w0. keeps (kernel_from w0) m" and "\<And>X. keeps (\<lambda>w. map session_seq (w_sessions w) = X) m"
    and "\<And>X. keeps (\<lambda>w. map event_ident (w_session_events w) = X) m"
  shows "keeps sound m"
proof (rule hoareI)
  fix w x w' assume s: "sound w" and run: "m w = Inr (x, w')"
  show "sound w'"
  proof (rule soundI [OF s])
    show "kernel_from w w'" by (rule hoareD [OF assms(1) sound_ok(3) [OF s] run])
    show "seq_tables w' = seq_tables w"
      using hoareD [OF assms(2) refl run] seq_tables_event_rows [OF hoareD [OF assms(3) refl run]]
      by (simp add: seq_tables_def)
  qed
qed

lemma sound_newId [hoare_rules]: "keeps sound (newId pre)"
  by (rule sound_plain) (intro hoare_rules)+

lemma sound_commands [hoare_rules]:
  "keeps sound (insert_command rid k d)" "keeps sound (replay_command k d tid)" "keeps sound (complete_command rid sid)"
  by (rule sound_plain; intro hoare_rules)+

lemma sound_insert_session [hoare_rules]: "keeps sound (insert_session (new_session input sid now))"
proof (rule hoareI)
  fix w u w' assume s: "sound w" and run: "insert_session (new_session input sid now) w = Inr (u, w')"
  have "kernel_ok w'"
    by (rule kernel_from_ok [OF hoareD [OF insert_session_kernel_from sound_ok(3) [OF s] run]])
  then show "sound w'" using numbered_insert_session [OF sound_ok(2) [OF s] run] by (simp add: sound_def)
qed

lemma sound_createManagedSession: "keeps sound (createManagedSession sha fmt input)"
  unfolding createManagedSession_def create_fresh_session_def
  by (intro hoare_rules sound_createRun)

lemma sound_step: "numbered_step w w' \<Longrightarrow> sound w \<Longrightarrow> sound w'"
proof (induction rule: numbered_step.induct)
  case (receive sha fmt input w res w')
  note s = sound_ok [OF receive.prems]
  show ?case unfolding sound_def
    using kernel_from_ok [OF hoareD [OF receive_kernel_from s(3) receive.hyps]]
      numbered_receive [OF s(1,2) receive.hyps] by blast
next
  case (dispatch held now cand w res w')
  note s = sound_ok [OF dispatch.prems]
  show ?case unfolding sound_def
    using kernel_from_ok [OF hoareD [OF dispatch_one_kernel_from s(3) dispatch.hyps]]
      numbered_dispatch_one [OF s(1) dispatch.hyps s(2)] by blast
next
  case (delay w sid until)
  have "seq_tables (postpone sid until w) = seq_tables w"
    by (simp add: seq_tables_def postpone_def map_update_where)
  then have "numbered (postpone sid until w) = numbered w" by (rule numbered_cong)
  moreover have "kernel_ok (postpone sid until w) = kernel_ok w"
    by (rule kernel_ok_cong) (simp_all add: postpone_def)
  ultimately show ?case using delay by (simp add: sound_def)
next
  case (cancel sha fmt cinput w res w')
  have "keeps sound (cancelManagedSession sha fmt cinput)"
    by (rule sound_plain) (intro cancelManagedSession_kernel_from seq_cancel idents_cancel)+
  then show ?case using cancel by (blast dest: hoareD)
next
  case (create sha fmt minput w res w')
  then show ?case using sound_createManagedSession by (blast dest: hoareD)
next
  case (createRun rinput w r w')
  then show ?case using sound_createRun by (blast dest: hoareD)
next
  case (transition rid opts w r w')
  have "keeps sound (transitionRun rid opts)" by (rule sound_plain) (intro hoare_rules)+
  then show ?case using transition by (blast dest: hoareD)
qed

lemma sound_steps: "numbered_step\<^sup>*\<^sup>* w w' \<Longrightarrow> sound w \<Longrightarrow> sound w'"
  by (induction rule: rtranclp_induct) (auto dest: sound_step)


section \<open>Reading the events page by page\<close>

text \<open>Every operation appends to the events, the creation of a session and of a run included.\<close>

definition keeps_events :: "session_event_row list \<Rightarrow> world \<Rightarrow> bool" where
  "keeps_events es w \<longleftrightarrow> sound w \<and> w_session_events w = es"

lemma keeps_eventsI:
  assumes "keeps sound m"
    and "\<And>w x w'. sound w \<Longrightarrow> m w = Inr (x, w') \<Longrightarrow> w_session_events w' = w_session_events w"
  shows "keeps (keeps_events es) m"
  by (rule hoareI) (auto simp: keeps_events_def assms(2) dest: hoareD [OF assms(1)])

lemma events_kept [hoare_rules]:
  "keeps (keeps_events es) (newId pre)" "keeps (keeps_events es) (insert_command rid k d)"
  "keeps (keeps_events es) (replay_command k d tid)" "keeps (keeps_events es) (complete_command rid sid)"
  "keeps (keeps_events es) (insert_session (new_session input sid now))"
  "keeps (keeps_events es) (createRun rinput)"
  by (rule keeps_eventsI; (intro hoare_rules sound_createRun)?;
      auto simp: newId_iff insert_command_iff insert_session_iff replay_command_def complete_command_def
        tx_simps sound_def dest: createRun_frame split: option.splits if_splits)+

lemma create_session_events:
  "keeps (keeps_events es) (createManagedSession sha fmt input)"
  unfolding createManagedSession_def create_fresh_session_def by (intro hoare_rules)

lemma numbered_event_step: "numbered_step w w' \<Longrightarrow> sound w \<Longrightarrow> event_step w w'"
proof (induction rule: numbered_step.induct)
  case (create sha fmt minput w res w')
  have "keeps_events (w_session_events w) w'"
    by (rule hoareD [OF create_session_events _ create.hyps]) (simp add: keeps_events_def create.prems)
  then show ?case by (intro event_step.other) (simp add: keeps_events_def)
next
  case (createRun rinput w r w')
  then show ?case using createRun_frame [OF sound_ok(1)] by (blast intro: event_step.other)
next
  case (transition rid opts w r w')
  then show ?case by (intro event_step.other) (auto simp: transitionRun_iff)
qed (auto intro: event_step.intros dest: sound_ok)

lemma numbered_event_steps: "numbered_step\<^sup>*\<^sup>* w w' \<Longrightarrow> sound w \<Longrightarrow> event_step\<^sup>*\<^sup>* w w'"
proof (induction rule: rtranclp_induct)
  case (step v w')
  then show ?case using numbered_event_step sound_steps [OF step.hyps(1)]
    by (meson rtranclp.rtrancl_into_rtrancl)
qed simp

text \<open>The events of a session in the order of their arrival, as no update changes them.\<close>

definition session_log :: "string \<Rightarrow> world \<Rightarrow> (string \<times> string \<times> string \<times> string \<times> string \<times> string \<times> int \<times> string) list" where
  "session_log sid w = map event_ident (filter (\<lambda>e. sev_session_id e = sid) (w_session_events w))"

lemma session_log_filter:
  "session_log sid w = filter (\<lambda>(a, b, c, d, e, f, g, h). h = sid) (map event_ident (w_session_events w))"
  by (simp add: session_log_def filter_map comp_def event_ident_def)

lemma session_log_grows:
  assumes "numbered_step\<^sup>*\<^sup>* w w'" and "sound w"
  shows "\<exists>extra. session_log sid w' = session_log sid w @ extra"
  using session_events.log_grows [OF numbered_event_steps [OF assms]] by (auto simp: session_log_filter)


lemma filter_numbered:
  "map f es = [a..n] \<Longrightarrow> a \<le> c + 1 \<Longrightarrow> filter (\<lambda>e. c < f e) es = drop (nat (c + 1 - a)) es"
proof (induction es arbitrary: a)
  case (Cons e es)
  from Cons.prems(1) have le: "a \<le> n" by (cases "a \<le> n") simp_all
  then have e: "f e = a" and es: "map f es = [a + 1..n]" using Cons.prems(1) by (simp_all add: upto_rec1)
  show ?case
  proof (cases "a \<le> c")
    case True
    then have "nat (c + 1 - a) = Suc (nat (c + 1 - (a + 1)))" by simp
    then show ?thesis using Cons.IH [OF es] True e by simp
  next
    case False
    have "\<forall>x \<in> set es. a + 1 \<le> f x" using es by (metis atLeastAtMost_iff imageI set_map set_upto)
    then show ?thesis using False Cons.prems(2) e by (auto simp: filter_id_conv)
  qed
qed simp

lemma session_events_after_drop:
  assumes "numbered w" and "s \<in> set (w_sessions w)" and "0 \<le> cursor"
  shows "session_events_after w (ses_id s) (ses_tenant_id s) cursor =
    drop (nat cursor) (filter (\<lambda>e. sev_session_id e = ses_id s) (w_session_events w))"
proof -
  let ?es = "filter (\<lambda>e. sev_session_id e = ses_id s) (w_session_events w)"
  have seq: "map sev_received_sequence ?es = [1..ses_received_event_seq s]"
    using assms(1,2) by (simp add: numbered_def)
  have ex: "exists_row (\<lambda>s'. ses_id s' = ses_id s \<and> ses_tenant_id s' = ses_tenant_id s) (w_sessions w)"
    using assms(2) by (auto simp: exists_row_iff)
  have "filter (\<lambda>e. sev_session_id e = ses_id s \<and> cursor < sev_received_sequence e) (w_session_events w) =
      drop (nat cursor) ?es"
    using filter_numbered [OF seq, of cursor] assms(3) by (simp add: conj_commute)
  moreover have "sorted (map sev_received_sequence (drop (nat cursor) ?es))"
    using seq by (metis drop_map sorted_upto sorted_wrt_drop)
  ultimately show ?thesis by (simp add: session_events_after_def ex sort_key_id_if_sorted)
qed

text \<open>A page is the next \<open>limit\<close> events, and the cursor it returns is their number.\<close>

lemma page_of_log:
  assumes "numbered w" and "s \<in> set (w_sessions w)" and "0 < limit"
    and page: "listManagedSessionEvents w (ses_id s) (ses_tenant_id s) (Some (int c)) limit = (es, next)"
  shows "map event_ident es = take limit (drop c (session_log (ses_id s) w))"
    and "next = (if c + limit < length (session_log (ses_id s) w) then Some (int (c + limit)) else None)"
proof -
  let ?all = "filter (\<lambda>e. sev_session_id e = ses_id s) (w_session_events w)"
  have after: "session_events_after w (ses_id s) (ses_tenant_id s) (int c) = drop c ?all"
    using session_events_after_drop [OF assms(1,2), of "int c"] by simp
  have es: "es = take limit (drop c ?all)"
    using page by (auto simp: listManagedSessionEvents_def Let_def after split: if_splits)
  then show "map event_ident es = take limit (drop c (session_log (ses_id s) w))"
    by (simp add: session_log_def take_map drop_map)
  have len: "length (session_log (ses_id s) w) = length ?all" by (simp add: session_log_def)
  show "next = (if c + limit < length (session_log (ses_id s) w) then Some (int (c + limit)) else None)"
  proof (cases "c + limit < length ?all")
    case True
    have seq: "map sev_received_sequence ?all = [1..ses_received_event_seq s]"
      using assms(1,2) by (simp add: numbered_def)
    have "last es = ?all ! (c + limit - 1)"
      using True assms(3) by (simp add: es last_conv_nth min_def)
    moreover have "sev_received_sequence (?all ! (c + limit - 1)) = int (c + limit)"
      using True assms(3) arg_cong [OF seq, of "\<lambda>xs. xs ! (c + limit - 1)"] arg_cong [OF seq, of length]
      by (simp add: nth_upto)
    ultimately show ?thesis
      using True page es by (auto simp: listManagedSessionEvents_def Let_def after len split: if_splits)
  next
    case False
    then show ?thesis using page by (auto simp: listManagedSessionEvents_def Let_def after len split: if_splits)
  qed
qed

text \<open>
  The client's loop: it reads page after page, each on the database as it is at that moment,
  until no cursor is returned or it stops asking.
\<close>

fun read_pages ::
    "world list \<Rightarrow> string \<Rightarrow> string \<Rightarrow> int option \<Rightarrow> nat \<Rightarrow> session_event_row list" where
  "read_pages [] sid tid cursor limit = []"
| "read_pages (w # ws) sid tid cursor limit =
     (case listManagedSessionEvents w sid tid cursor limit of
        (es, None) \<Rightarrow> es
      | (es, Some c) \<Rightarrow> es @ read_pages ws sid tid (Some c) limit)"


lemma numbered_kernel_from: "numbered_step w w' \<Longrightarrow> sound w \<Longrightarrow> kernel_from w w'"
proof (induction rule: numbered_step.induct)
  case (delay w sid until)
  then show ?case by (simp add: sound_ok(3))
next
  case (receive sha fmt input w res w')
  show ?case by (rule hoareD [OF receive_kernel_from sound_ok(3) [OF receive.prems] receive.hyps])
next
  case (dispatch held now cand w res w')
  show ?case by (rule hoareD [OF dispatch_one_kernel_from sound_ok(3) [OF dispatch.prems] dispatch.hyps])
next
  case (cancel sha fmt input w res w')
  show ?case by (rule hoareD [OF cancelManagedSession_kernel_from sound_ok(3) [OF cancel.prems] cancel.hyps])
next
  case (create sha fmt input w res w')
  show ?case by (rule hoareD [OF createManagedSession_kernel_from sound_ok(3) [OF create.prems] create.hyps])
next
  case (createRun input w r w')
  show ?case by (rule hoareD [OF createRun_kernel_from sound_ok(3) [OF createRun.prems] createRun.hyps])
next
  case (transition rid opts w r w')
  show ?case by (rule hoareD [OF transitionRun_kernel_from sound_ok(3) [OF transition.prems] transition.hyps])
qed

lemma sessions_persist:
  assumes "numbered_step\<^sup>*\<^sup>* w w'" and "sound w" and "s \<in> set (w_sessions w)"
  shows "\<exists>t \<in> set (w_sessions w'). ses_id t = ses_id s \<and> ses_tenant_id t = ses_tenant_id s"
  using assms
proof (induction rule: rtranclp_induct)
  case (step v w')
  then obtain t where t: "t \<in> set (w_sessions v)" "ses_id t = ses_id s" "ses_tenant_id t = ses_tenant_id s" by blast
  have "kernel_from v w'" by (rule numbered_kernel_from [OF step.hyps(2) sound_steps [OF step.hyps(1) step.prems(1)]])
  then show ?case using t by (fastforce simp: kernel_from_def advances_def session_advances_def)
qed blast

lemma pages_from:
  assumes "successively numbered_step\<^sup>*\<^sup>* ws" and "ws \<noteq> []" and "sound (hd ws)"
    and "s \<in> set (w_sessions (hd ws))" and "0 < limit" and "c \<le> length (session_log (ses_id s) (hd ws))"
  shows "\<exists>m. map event_ident (read_pages ws (ses_id s) (ses_tenant_id s) (Some (int c)) limit)
        = take m (drop c (session_log (ses_id s) (last ws)))
     \<and> m \<le> length (session_log (ses_id s) (last ws)) - c
     \<and> (length (session_log (ses_id s) (last ws)) \<le> c + length ws * limit \<longrightarrow>
          length (session_log (ses_id s) (hd ws)) \<le> c + m)"
  using assms
proof (induction ws arbitrary: c s)
  case (Cons w ws)
  let ?log = "session_log (ses_id s)"
  have s: "sound w" and mem: "s \<in> set (w_sessions w)" and c: "c \<le> length (?log w)" using Cons.prems by simp_all
  have chain: "successively numbered_step\<^sup>*\<^sup>* ws" and next_w: "ws \<noteq> [] \<Longrightarrow> numbered_step\<^sup>*\<^sup>* w (hd ws)"
    using Cons.prems(1) by (auto simp: successively_Cons)
  have "numbered_step\<^sup>*\<^sup>* w (last (w # ws))"
    using Cons.prems(1) by (induction ws arbitrary: w) (auto simp: successively_Cons intro: rtranclp_trans)
  then obtain extra where grows: "?log (last (w # ws)) = ?log w @ extra"
    using session_log_grows [OF _ s] by blast
  obtain es nxt where page: "listManagedSessionEvents w (ses_id s) (ses_tenant_id s) (Some (int c)) limit = (es, nxt)"
    by (cases "listManagedSessionEvents w (ses_id s) (ses_tenant_id s) (Some (int c)) limit")
  note p = page_of_log [OF sound_ok(2) [OF s] mem Cons.prems(5) page]
  show ?case
  proof (cases "c + limit < length (?log w)")
    case False
    then have "map event_ident (read_pages (w # ws) (ses_id s) (ses_tenant_id s) (Some (int c)) limit) =
        take (length (?log w) - c) (drop c (?log (last (w # ws))))"
      using p page grows c by (simp add: take_drop)
    then show ?thesis using c grows by (intro exI [of _ "length (?log w) - c"]) simp
  next
    case True
    then have nxt: "nxt = Some (int (c + limit))" using p(2) by simp
    have pages: "read_pages (w # ws) (ses_id s) (ses_tenant_id s) (Some (int c)) limit =
        es @ read_pages ws (ses_id s) (ses_tenant_id s) (Some (int (c + limit))) limit"
      using page nxt by simp
    have page_log: "map event_ident es = take limit (drop c (?log (last (w # ws))))"
      using True p(1) grows by simp
    show ?thesis
    proof (cases "ws = []")
      case ws: True
      then show ?thesis using pages page_log True by (intro exI [of _ limit]) simp
    next
      case ws: False
      have s': "sound (hd ws)" by (rule sound_steps [OF next_w [OF ws] s])
      obtain t where t: "t \<in> set (w_sessions (hd ws))" "ses_id t = ses_id s" "ses_tenant_id t = ses_tenant_id s"
        using sessions_persist [OF next_w [OF ws] s mem] by blast
      obtain extra' where "?log (hd ws) = ?log w @ extra'" using session_log_grows [OF next_w [OF ws] s] by blast
      then have len: "c + limit \<le> length (?log (hd ws))" "length (?log w) \<le> length (?log (hd ws))"
        using True by simp_all
      from Cons.IH [OF chain ws s' t(1) Cons.prems(5), of "c + limit"] len(1) t(2,3) ws
      obtain m where m: "map event_ident (read_pages ws (ses_id s) (ses_tenant_id s) (Some (int (c + limit))) limit) =
          take m (drop (c + limit) (?log (last (w # ws))))"
        "m \<le> length (?log (last (w # ws))) - (c + limit)"
        "length (?log (last (w # ws))) \<le> c + limit + length ws * limit \<longrightarrow> length (?log (hd ws)) \<le> c + limit + m"
        by auto
      have "map event_ident (read_pages (w # ws) (ses_id s) (ses_tenant_id s) (Some (int c)) limit) =
          take (limit + m) (drop c (?log (last (w # ws))))"
        unfolding pages map_append page_log m(1) by (simp add: take_add add.commute)
      then show ?thesis using m(2,3) len grows True
        by (intro exI [of _ "limit + m"]) (auto simp: algebra_simps)
    qed
  qed
qed simp

text \<open>
  C20: paging loses and repeats nothing. A client reads page after page, each on the database as
  it is at that moment, while receptions, dispatches, creations and transitions go on. What it
  reads is a prefix of the events of the session in the order of their arrival, each once; when
  its pages have room for all of them, it has read at least those that had arrived when it
  started.
\<close>

theorem paging_complete:
  assumes "successively numbered_step\<^sup>*\<^sup>* ws" and "ws \<noteq> []" and "sound (hd ws)"
    and "s \<in> set (w_sessions (hd ws))" and "0 < limit"
  shows "\<exists>m. map event_ident (read_pages ws (ses_id s) (ses_tenant_id s) None limit)
        = take m (session_log (ses_id s) (last ws))
     \<and> (length (session_log (ses_id s) (last ws)) \<le> length ws * limit \<longrightarrow>
          length (session_log (ses_id s) (hd ws)) \<le> m)"
proof -
  have "read_pages ws (ses_id s) (ses_tenant_id s) None limit = read_pages ws (ses_id s) (ses_tenant_id s) (Some (int 0)) limit"
    by (cases ws) (simp_all add: listManagedSessionEvents_def or_else_def)
  then show ?thesis using pages_from [OF assms, of 0] by auto
qed


section \<open>Dispatching an event\<close>

definition dispatchable :: "(string \<Rightarrow> bool) \<Rightarrow> int \<Rightarrow> string \<Rightarrow> session_event_row \<Rightarrow> bool" where
  "dispatchable held now sid e \<longleftrightarrow> pending_future sid e \<and> sev_dispatch_after e \<le> now \<and> \<not> held (sev_id e)"

lemma find_sort_least:
  assumes "find p (sort_key f xs) = Some x"
  shows "x \<in> set xs" and "p x" and "\<And>y. y \<in> set xs \<Longrightarrow> p y \<Longrightarrow> f x \<le> f y"
proof -
  from find_SomeD [OF assms] show "x \<in> set xs" "p x" by simp_all
  fix y assume y: "y \<in> set xs" "p y"
  have "f x \<le> f y" if "sorted (map f ys)" "find p ys = Some x" "y \<in> set ys" for ys
    using that y(2) by (induction ys) (auto split: if_splits dest: find_SomeD)
  from this [OF _ assms] y(1) show "f x \<le> f y" by simp
qed

lemma dispatch_one_effect:
  assumes "kernel_ok w" and "dispatch_one held now (sid, tid) w = Inr (Some rid, w')"
  obtains s e run w1 where "find_session w sid = Some s" and "ses_tenant_id s = tid" and "ses_state s = SS_IDLE"
    and "e \<in> set (w_session_events w)" and "dispatchable held now sid e"
    and "\<forall>x \<in> set (w_session_events w). dispatchable held now sid x \<longrightarrow>
          sev_received_sequence e \<le> sev_received_sequence x"
    and "createRun (dispatch_input s e) w = Inr (run, w1)" and "rid = run_id run"
    and "w' = w1\<lparr>w_session_events := update_where (\<lambda>x. sev_id x = sev_id e)
       (\<lambda>x. x\<lparr>sev_status := ES_DISPATCHED, sev_run_id := Some rid, sev_consumed_at := Some (w_now w1)\<rparr>)
       (w_session_events w1)\<rparr>"
proof -
  from assms(2) obtain s e run w1 where
    s: "find (\<lambda>s. ses_id s = sid \<and> ses_tenant_id s = tid \<and> ses_state s = SS_IDLE \<and> \<not> held (ses_id s)) (w_sessions w) = Some s"
    and e: "find (\<lambda>e. \<not> held (sev_id e)) (sort_key sev_received_sequence
          (filter (\<lambda>e. pending_future (ses_id s) e \<and> sev_dispatch_after e \<le> now) (w_session_events w))) = Some e"
    and run: "createRun (dispatch_input s e) w = Inr (run, w1)" and rid: "rid = run_id run"
    and w': "w' = w1\<lparr>w_session_events := update_where (\<lambda>x. sev_id x = sev_id e)
       (\<lambda>x. x\<lparr>sev_status := ES_DISPATCHED, sev_run_id := Some rid, sev_consumed_at := Some (w_now w1)\<rparr>)
       (w_session_events w1)\<rparr>"
    by (auto simp: dispatch_one_def mark_dispatched_def tx_simps split: option.splits)
  have "distinct (map ses_id (w_sessions w))" using assms(1) by (simp add: kernel_ok_def session_ok_def)
  then have f: "find_session w sid = Some s"
    using find_SomeD [OF s] by (auto simp: find_session_def find_Some_iff_key)
  note s' = find_SomeD [OF s] and least = find_sort_least [OF e]
  show ?thesis
    by (rule that [OF f _ _ _ _ _ run rid w']) (use s' least in \<open>auto simp: dispatchable_def\<close>)
qed

lemma dispatched_run:
  assumes "kernel_ok w" and "createRun (dispatch_input s e) w = Inr (run, w1)" and "find_session w (ses_id s) = Some s"
  shows "w_runs w1 = w_runs w @ [run]" and "\<forall>r \<in> set (w_runs w). run_id r \<noteq> run_id run"
    and "run_status run = QUEUED" and "run_managed_session_id run = Some (ses_id s)"
    and "run_parent_run_id run = None" and "run_tenant_id run = ses_tenant_id s"
    and "jfield (run_input run) ''sessionEventId'' = Some (JStr (sev_id e))"
    and "jfield (run_input run) ''data'' = Some (JObj (sev_data e))"
    and "\<exists>s'. find_session w1 (ses_id s) = Some s' \<and> ses_state s' = SS_ACTIVE \<and> ses_current_run s' = Some (run_id run)"
    and "w_session_events w1 = w_session_events w" and "kernel_ok w1"
proof -
  obtain cap :: admission_capacity and msid wsId new where
    runs: "w_runs w1 = w_runs w @ [run]" and rs: "resolve_session (dispatch_input s e) w = Inr (msid, w)"
    and fresh: "\<forall>r \<in> set (w_runs w). run_id r \<noteq> run_id run"
    and new: "new = new_run_row (dispatch_input s e) (run_id run) msid (cap_effectiveTokenBudget cap) (w_now w)"
    and row: "run = transition_row to_queued 2 (w_now w) (transition_row (to_resolving (dispatch_input s e) wsId) 1 (w_now w) new)"
    and ss: "w_sessions w1 = enter_session (dispatch_input s e) msid (run_id run) (w_now w) (w_sessions w)"
    and ok1: "kernel_ok w1"
    by (rule createRun_world [OF assms(1,2)])
  have msid: "msid = Some (ses_id s)" using rs by (simp add: resolve_session_def dispatch_input_def tx_simps)
  show "w_runs w1 = w_runs w @ [run]" "\<forall>r \<in> set (w_runs w). run_id r \<noteq> run_id run" "kernel_ok w1"
    by (rule runs fresh ok1)+
  show "run_status run = QUEUED" by (subst row) (simp add: to_queued_def)
  have keep: "run_managed_session_id run = run_managed_session_id new" "run_parent_run_id run = run_parent_run_id new"
    "run_tenant_id run = run_tenant_id new" "run_input run = run_input new"
    by (subst row, simp add: transition_row_def Let_def to_queued_def to_resolving_def no_patch_def)+
  then show "run_managed_session_id run = Some (ses_id s)" "run_parent_run_id run = None"
    "run_tenant_id run = ses_tenant_id s" "jfield (run_input run) ''sessionEventId'' = Some (JStr (sev_id e))"
    "jfield (run_input run) ''data'' = Some (JObj (sev_data e))"
    by (simp_all add: new new_run_row_def dispatch_input_def msid jfield_def)
  show "w_session_events w1 = w_session_events w" using createRun_frame [OF assms(1,2)] by simp
  show "\<exists>s'. find_session w1 (ses_id s) = Some s' \<and> ses_state s' = SS_ACTIVE \<and> ses_current_run s' = Some (run_id run)"
    using assms(3) by (auto simp: find_session_def ss enter_session_def msid dispatch_input_def find_key_update)
qed

text \<open>
  A dispatch starts the oldest event. A committed dispatch of a session's event finds the
  session idle and takes, among the events that are queued for a future run, due and not locked,
  the one that arrived first; it queues one new top-level run of the session that carries the
  event, makes that run the session's current one, and marks exactly that event as dispatched to
  the run; the invariants hold again.
\<close>

theorem dispatch_starts_oldest:
  assumes "sound w" and "dispatch_one held now (sid, tid) w = Inr (Some rid, w')"
  shows "\<exists>s s' e run. find_session w sid = Some s \<and> ses_tenant_id s = tid \<and> ses_state s = SS_IDLE
     \<and> e \<in> set (w_session_events w) \<and> dispatchable held now sid e
     \<and> (\<forall>x \<in> set (w_session_events w). dispatchable held now sid x \<longrightarrow> sev_received_sequence e \<le> sev_received_sequence x)
     \<and> w_runs w' = w_runs w @ [run] \<and> run_id run = rid \<and> run_status run = QUEUED
     \<and> run_managed_session_id run = Some sid \<and> run_parent_run_id run = None \<and> run_tenant_id run = tid
     \<and> jfield (run_input run) ''sessionEventId'' = Some (JStr (sev_id e))
     \<and> jfield (run_input run) ''data'' = Some (JObj (sev_data e))
     \<and> find_session w' sid = Some s' \<and> ses_state s' = SS_ACTIVE \<and> ses_current_run s' = Some rid
     \<and> (\<forall>x' \<in> set (w_session_events w'). if sev_id x' = sev_id e
          then sev_status x' = ES_DISPATCHED \<and> sev_run_id x' = Some rid else x' \<in> set (w_session_events w))
     \<and> sound w'"
proof -
  obtain s e run w1 where e: "find_session w sid = Some s" "ses_tenant_id s = tid" "ses_state s = SS_IDLE"
      "e \<in> set (w_session_events w)" "dispatchable held now sid e"
    and least: "\<forall>x \<in> set (w_session_events w). dispatchable held now sid x \<longrightarrow>
          sev_received_sequence e \<le> sev_received_sequence x"
    and run: "createRun (dispatch_input s e) w = Inr (run, w1)" and rid: "rid = run_id run"
    and w': "w' = w1\<lparr>w_session_events := update_where (\<lambda>x. sev_id x = sev_id e)
       (\<lambda>x. x\<lparr>sev_status := ES_DISPATCHED, sev_run_id := Some rid, sev_consumed_at := Some (w_now w1)\<rparr>)
       (w_session_events w1)\<rparr>"
    by (rule dispatch_one_effect [OF sound_ok(1) [OF assms(1)] assms(2)])
  have sid: "ses_id s = sid" using e(1) by (auto simp: find_session_def dest: find_SomeD)
  have f: "find_session w (ses_id s) = Some s" using e(1) by (simp add: sid)
  note r = dispatched_run [OF sound_ok(1) [OF assms(1)] run f]
  from r(9) obtain s' where s': "find_session w1 sid = Some s'" "ses_state s' = SS_ACTIVE" "ses_current_run s' = Some rid"
    by (auto simp: sid rid)
  have "sound w'" by (rule sound_step [OF numbered_step.dispatch [OF assms(2)] assms(1)])
  moreover have "find_session w' sid = Some s'" using s'(1) by (simp add: find_session_def w')
  moreover have "\<forall>x' \<in> set (w_session_events w'). if sev_id x' = sev_id e
          then sev_status x' = ES_DISPATCHED \<and> sev_run_id x' = Some rid else x' \<in> set (w_session_events w)"
    by (auto simp: w' r(10) set_update_where)
  ultimately show ?thesis using e least r(1-8) s' rid sid w'
    by (intro exI [of _ s] exI [of _ s'] exI [of _ e] exI [of _ run]) simp
qed


section \<open>Worked examples\<close>

definition demo_event :: receive_event_input where
  "demo_event =
     \<lparr>re_tenantId = ''tnt_1'', re_sessionId = ''ses_1'', re_sourceType = ''api_key'', re_sourceId = ''key_1'',
      re_sourceEventId = ''evt_1'', re_sourceSequence = None, re_apiVersion = ''v1'',
      re_type = SE_objective_requested, re_occurredAt = ''2025-01-01T00:00:00Z'', re_subject = None,
      re_data = [(''goal'', JStr ''next goal'')], re_inputSnapshotRefs = [], re_correlationId = None\<rparr>"

definition demo_queued_world :: world where
  "demo_queued_world = demo_base
     \<lparr>w_sessions := [demo_session\<lparr>ses_received_event_seq := 1\<rparr>],
      w_session_events := [new_session_event demo_event ''sevt_1'' ''ses_1'' ''digest'' 1 None 1000]\<rparr>"

lemma demo_base_sound: "sound demo_base"
  using demo_base_ok by (simp add: sound_def numbered_def demo_base_def fresh_database_def demo_session_def)

lemma demo_queued_sound: "sound demo_queued_world"
  by (simp add: sound_def numbered_def demo_queued_world_def demo_base_def fresh_database_def kernel_ok_def
      ledger_ok_def outbox_mirrors_def admission_ok_def session_ok_def sessions_fenced_def session_open_def
      session_mirrors_def demo_session_def)

lemma demo_receive:
  "\<exists>e w1. receiveManagedSessionEvent id (\<lambda>_. ''0'') demo_event demo_base = Inr (Some (e, False), w1)"
  by (simp add: receiveManagedSessionEvent_def tx_eval Let_def demo_base_def fresh_database_def
      getManagedSession_def demo_session_def demo_event_def session_open_def accept_event_def waiting_run_def
      dispatchClass_def count_event_def newId_def insert_session_event_def new_session_event_def exists_row_def)

theorem event_accepted_once_witness:
  "\<exists>e w1 e'. receiveManagedSessionEvent id (\<lambda>_. ''0'') demo_event demo_base = Inr (Some (e, False), w1)
     \<and> receiveManagedSessionEvent id (\<lambda>_. ''0'') demo_event w1 = Inr (Some (e', True), w1) \<and> sev_id e' = sev_id e"
proof -
  obtain e w1 where run: "receiveManagedSessionEvent id (\<lambda>_. ''0'') demo_event demo_base = Inr (Some (e, False), w1)"
    using demo_receive by blast
  have "getManagedSession w1 (re_sessionId demo_event) (Some (re_tenantId demo_event)) \<noteq> None"
    using run by (auto simp: receiveManagedSessionEvent_def tx_simps Let_def demo_base_def fresh_database_def
      getManagedSession_def demo_session_def demo_event_def session_open_def accept_event_def waiting_run_def
      dispatchClass_def count_event_def newId_iff insert_session_event_def update_where_def split: if_splits)
  from event_accepted_once [OF run rtranclp.rtrancl_refl _ this] run show ?thesis
    by (auto simp: same_source_def)
qed

definition demo_signal :: receive_event_input where
  "demo_signal = demo_event\<lparr>re_type := SE_signal_received,
     re_data := [(''name'', JStr ''go''), (''payload'', JObj [(''ok'', JBool True)])]\<rparr>"

definition demo_waiting_world :: world where
  "demo_waiting_world = demo_base
     \<lparr>w_sessions := [demo_session\<lparr>ses_state := SS_WAITING, ses_current_run := Some ''run_1''\<rparr>],
      w_runs := [(demo_run WAITING_SIGNAL)\<lparr>run_managed_session_id := Some ''ses_1'', run_awaited_signal := Some ''go'',
        run_awaited_schema := Some \<lparr>sch_object = True, sch_required = [''ok''],
          sch_properties = [(''ok'', PT_boolean)], sch_additional = Some False\<rparr>\<rparr>],
      w_attempts := [demo_attempt], w_admissions := [demo_admission], w_workspaces := [(''ws_1'', ''run_1'')]\<rparr>"

lemma demo_waiting_ok: "kernel_ok demo_waiting_world"
  by (simp add: demo_waiting_world_def demo_base_def fresh_database_def kernel_ok_def ledger_ok_def
      outbox_mirrors_def gapless_def admission_ok_def demo_admission_def session_ok_def sessions_fenced_def
      session_open_def session_mirrors_def demo_session_def projected_session_state_def)

lemma demo_signal_received:
  "case receiveManagedSessionEvent id (\<lambda>_. ''0'') demo_signal demo_waiting_world of
     Inr (Some (_, False), _) \<Rightarrow> True | _ \<Rightarrow> False"
  by code_simp

theorem signal_resumes_run_witness:
  "\<exists>e w' r'. receiveManagedSessionEvent id (\<lambda>_. ''0'') demo_signal demo_waiting_world = Inr (Some (e, False), w')
     \<and> find_run w' ''run_1'' = Some r' \<and> run_status r' = QUEUED \<and> sev_run_id e = Some ''run_1''"
proof -
  obtain e w1 where run: "receiveManagedSessionEvent id (\<lambda>_. ''0'') demo_signal demo_waiting_world = Inr (Some (e, False), w1)"
    using demo_signal_received by (auto split: sum.splits option.splits prod.splits bool.splits)
  have "re_type demo_signal = SE_signal_received" by (simp add: demo_signal_def)
  from signal_resumes_run [OF demo_waiting_ok this run] run show ?thesis
    by (auto simp: getManagedSession_def demo_waiting_world_def demo_signal_def demo_event_def demo_session_def)
qed

theorem paging_complete_witness:
  "\<exists>e w1. receiveManagedSessionEvent id (\<lambda>_. ''0'') demo_event demo_base = Inr (Some (e, False), w1)
     \<and> (\<exists>m. map event_ident (read_pages [demo_base, w1] ''ses_1'' ''tnt_1'' None 1) = take m (session_log ''ses_1'' w1))"
proof -
  obtain e w1 where run: "receiveManagedSessionEvent id (\<lambda>_. ''0'') demo_event demo_base = Inr (Some (e, False), w1)"
    using demo_receive by blast
  have chain: "successively numbered_step\<^sup>*\<^sup>* [demo_base, w1]"
    using numbered_step.receive [OF run] by simp
  have "demo_session \<in> set (w_sessions demo_base)" by (simp add: demo_base_def)
  with paging_complete [OF chain, of demo_session 1] demo_base_sound run show ?thesis
    by (auto simp: demo_session_def)
qed

lemma demo_dispatch_commits:
  "case dispatch_one (\<lambda>_. False) 1000 (''ses_1'', ''tnt_1'') demo_queued_world of Inr (Some _, _) \<Rightarrow> True | _ \<Rightarrow> False"
  by code_simp

theorem dispatch_starts_oldest_witness:
  "\<exists>rid w' s'. dispatch_one (\<lambda>_. False) 1000 (''ses_1'', ''tnt_1'') demo_queued_world = Inr (Some rid, w')
     \<and> find_session w' ''ses_1'' = Some s' \<and> ses_state s' = SS_ACTIVE \<and> ses_current_run s' = Some rid"
proof -
  obtain rid w' where run: "dispatch_one (\<lambda>_. False) 1000 (''ses_1'', ''tnt_1'') demo_queued_world = Inr (Some rid, w')"
    using demo_dispatch_commits by (auto split: sum.splits option.splits prod.splits)
  from dispatch_starts_oldest [OF demo_queued_sound run] run show ?thesis by blast
qed


end
