(* ===== verification/Run_Api.thy ===== *)
theory Run_Api
  imports Children Sessions Scheduler Approvals Grants Event_Log
begin

text \<open>
  The run endpoints of the API, \<^verbatim>\<open>src/api/routes/runs.ts\<close>, with the error handler of
  \<^verbatim>\<open>src/api/server.ts\<close>. A handler that reads first and writes in a later transaction takes
  the database at its reads (\<open>w0\<close>) and the one its transaction finds (\<open>w\<close>), as other
  requests and workers run in between; it returns what it leaves in \<open>w\<close>. Bodies are typed; the
  refinements of the request schemas are the \<open>_ok\<close> predicates.
\<close>

section \<open>Replies\<close>

record run_resource =
  res_id :: string
  res_tenant_id :: string
  res_agent_version_id :: string
  res_parent_run_id :: "string option"
  res_replaces_run_id :: "string option"
  res_replacement_generation :: int
  res_forked_from_run_id :: "string option"
  res_goal :: string
  res_input :: "(string \<times> json) list"
  res_status :: run_status
  res_status_reason :: "string option"
  res_result :: "json option"
  res_result_size_bytes :: "int option"
  res_progress :: json
  res_workspace_id :: "string option"
  res_current_attempt_id :: "string option"
  res_last_event_seq :: int
  res_max_steps :: int
  res_token_budget :: "int option"
  res_tokens_used :: int
  res_awaited_signal :: "string option"
  res_scheduled_for :: "int option"
  res_debug_fault_points :: "string list"
  res_created_at :: int
  res_updated_at :: int

text \<open>All fields but the session and the correlation and schema of the awaited signal.\<close>

definition compatibilityRunResource :: "run_row \<Rightarrow> run_resource" where
  "compatibilityRunResource r =
     \<lparr>res_id = run_id r, res_tenant_id = run_tenant_id r, res_agent_version_id = run_agent_version_id r,
      res_parent_run_id = run_parent_run_id r, res_replaces_run_id = run_replaces_run_id r,
      res_replacement_generation = run_replacement_generation r,
      res_forked_from_run_id = run_forked_from_run_id r, res_goal = run_goal r, res_input = run_input r,
      res_status = run_status r, res_status_reason = run_status_reason r, res_result = run_result r,
      res_result_size_bytes = run_result_size_bytes r, res_progress = run_progress r,
      res_workspace_id = run_workspace_id r, res_current_attempt_id = run_current_attempt_id r,
      res_last_event_seq = run_last_event_seq r, res_max_steps = run_max_steps r,
      res_token_budget = run_token_budget r, res_tokens_used = run_tokens_used r,
      res_awaited_signal = run_awaited_signal r, res_scheduled_for = run_scheduled_for r,
      res_debug_fault_points = run_debug_fault_points r, res_created_at = run_created_at r,
      res_updated_at = run_updated_at r\<rparr>"

datatype api_body =
    Error_body string                                   \<comment> \<open>\<open>error\<close>\<close>
  | Status_body run_status                              \<comment> \<open>\<open>error: run is ..\<close>\<close>
  | Rejected_body string admission_reason               \<comment> \<open>\<open>error\<close>, \<open>reason\<close>\<close>
  | Run_body run_resource
  | Run_attempts_body run_resource "attempt_row list"
  | Seq_body int
  | Events_body "event_row list"
  | Approvals_body "approval_row list"
  | Approval_body approval_row
  | Delivered_body bool
  | Lineage_body "child_result list" "child_result list"

record reply =
  rp_code :: nat
  rp_body :: api_body

abbreviation "reply_error code msg \<equiv> \<lparr>rp_code = code, rp_body = Error_body msg\<rparr>"

definition rejection_message :: "admission_reason \<Rightarrow> string" where
  "rejection_message reason =
     (case reason of
        concurrency_exhausted \<Rightarrow> ''concurrent run quota exceeded''
      | token_capacity_exhausted \<Rightarrow> ''daily token capacity exhausted''
      | tenant_unavailable \<Rightarrow> ''tenant is unavailable'')"

definition reply_rejected :: "admission_reason \<Rightarrow> reply" where
  "reply_rejected reason =
     \<lparr>rp_code = (if reason = tenant_unavailable then 403 else 429),
      rp_body = Rejected_body (rejection_message reason) reason\<rparr>"

text \<open>The server's error handler: what a thrown error becomes.\<close>

definition error_reply :: "err \<Rightarrow> reply" where
  "error_reply e =
     (case e of
        RunNotFoundError _ \<Rightarrow> reply_error 404 ''RunNotFoundError''
      | UnexpectedStatusError _ _ _ \<Rightarrow> reply_error 409 ''UnexpectedStatusError''
      | InvalidTransitionError _ _ _ \<Rightarrow> reply_error 409 ''InvalidTransitionError''
      | _ \<Rightarrow> reply_error 500 ''internal_error'')"

definition zod_error :: reply where "zod_error = reply_error 400 ''ZodError''"

section \<open>Creating and reading runs\<close>

definition RESERVED_INPUT_KEYS :: "string list" where
  "RESERVED_INPUT_KEYS = [''forkFrom'', ''parentWorkspaceId'']"

definition stripReservedInput :: "(string \<times> json) list \<Rightarrow> (string \<times> json) list" where
  "stripReservedInput input = filter (\<lambda>(k, v). k \<notin> set RESERVED_INPUT_KEYS) input"

definition runInput_ok :: "(string \<times> json) list \<Rightarrow> bool" where
  "runInput_ok input = list_all (\<lambda>k. k \<notin> fst ` set input) RESERVED_INPUT_KEYS"

definition positive_int_ok :: "int option \<Rightarrow> bool" where
  "positive_int_ok n = (case n of None \<Rightarrow> True | Some i \<Rightarrow> 0 < i \<and> i \<le> 9007199254740991)"

record grant_body =
  gb_action :: string
  gb_resource :: "string option"
  gb_requiresApproval :: "bool option"
  gb_maxCalls :: "int option"

record create_run_body =
  cb_agentVersionId :: string
  cb_goal :: string
  cb_input :: "(string \<times> json) list option"
  cb_maxSteps :: "int option"
  cb_tokenBudget :: "int option"
  cb_scheduledFor :: "int option"
  cb_grants :: "grant_body list option"
  cb_debugFaultPoints :: "string list option"

definition create_run_body_ok :: "create_run_body \<Rightarrow> bool" where
  "create_run_body_ok b \<longleftrightarrow>
     cb_goal b \<noteq> [] \<and> pred_option runInput_ok (cb_input b) \<and> positive_int_ok (cb_maxSteps b)
     \<and> positive_int_ok (cb_tokenBudget b)
     \<and> pred_option (list_all (\<lambda>g. positive_int_ok (gb_maxCalls g))) (cb_grants b)"

definition body_input :: "create_run_body \<Rightarrow> string \<Rightarrow> create_run_input" where
  "body_input b tid =
     \<lparr>cr_tenantId = tid, cr_managedSessionId = None, cr_agentVersionId = cb_agentVersionId b,
      cr_goal = cb_goal b, cr_input = cb_input b, cr_maxSteps = cb_maxSteps b,
      cr_tokenBudget = cb_tokenBudget b, cr_scheduledFor = cb_scheduledFor b, cr_parentRunId = None,
      cr_replacesRunId = None, cr_replacementGeneration = None, cr_forkedFromRunId = None,
      cr_progress = None,
      cr_grants = map (\<lambda>g. \<lparr>gs_action = gb_action g, gs_resource = gb_resource g,
        gs_requiresApproval = gb_requiresApproval g, gs_maxCalls = gb_maxCalls g, gs_expiresAt = None\<rparr>)
        (or_else (cb_grants b) []),
      cr_debugFaultPoints = or_else (cb_debugFaultPoints b) []\<rparr>"

definition created_reply :: "(err + run_row) \<times> world \<Rightarrow> (err + reply) \<times> world" where
  "created_reply res =
     (case res of
        (Inr run, w') \<Rightarrow> (Inr \<lparr>rp_code = 201, rp_body = Run_body (compatibilityRunResource run)\<rparr>, w')
      | (Inl (RunAdmissionRejectedError reason), w') \<Rightarrow> (Inr (reply_rejected reason), w')
      | (Inl e, w') \<Rightarrow> (Inl e, w'))"

definition post_run :: "bool \<Rightarrow> create_run_body \<Rightarrow> string \<Rightarrow> world \<Rightarrow> world \<Rightarrow> (err + reply) \<times> world" where
  "post_run faultsEnabled b tid w0 w =
     (if \<not> create_run_body_ok b then (Inr zod_error, w)
      else if or_else (cb_debugFaultPoints b) [] \<noteq> [] \<and> \<not> faultsEnabled
      then (Inr (reply_error 400 ''fault injection disabled''), w)
      else if (cb_agentVersionId b, tid) \<notin> set (w_versions w0)
      then (Inr (reply_error 404 ''agent version not found''), w)
      else created_reply (commit (createRun (body_input b tid)) w))"

definition get_run :: "string \<Rightarrow> string \<Rightarrow> world \<Rightarrow> world \<Rightarrow> reply" where
  "get_run rid tid w0 w =
     (case getRun w0 rid (Some tid) of
        None \<Rightarrow> reply_error 404 ''run not found''
      | Some run \<Rightarrow> \<lparr>rp_code = 200,
          rp_body = Run_attempts_body (compatibilityRunResource run) (listAttempts w (run_id run))\<rparr>)"

text \<open>The long poll: it reads once, and again every 250 ms until there is an event or its time is up.\<close>

fun poll_events :: "world list \<Rightarrow> string \<Rightarrow> int \<Rightarrow> event_row list" where
  "poll_events [] rid afterSeq = []"
| "poll_events (w # ws) rid afterSeq =
     (case listEvents w rid afterSeq 500 of
        [] \<Rightarrow> poll_events ws rid afterSeq
      | events \<Rightarrow> events)"

definition get_events :: "string \<Rightarrow> string \<Rightarrow> int \<Rightarrow> world \<Rightarrow> world list \<Rightarrow> reply" where
  "get_events rid tid afterSeq w0 ws =
     (case getRun w0 rid (Some tid) of
        None \<Rightarrow> reply_error 404 ''run not found''
      | Some run \<Rightarrow> \<lparr>rp_code = 200, rp_body = Events_body (poll_events ws (run_id run) afterSeq)\<rparr>)"

definition get_children :: "string \<Rightarrow> string \<Rightarrow> world \<Rightarrow> err + reply" where
  "get_children rid tid w =
     (case childLineageProjection w rid tid of
        Inl e \<Rightarrow> Inl e
      | Inr None \<Rightarrow> Inr (reply_error 404 ''run not found'')
      | Inr (Some (children, selected)) \<Rightarrow> Inr \<lparr>rp_code = 200, rp_body = Lineage_body children selected\<rparr>)"

section \<open>Messages, approvals, signals\<close>

definition post_message :: "string \<Rightarrow> string \<Rightarrow> string \<Rightarrow> world \<Rightarrow> world \<Rightarrow> (err + reply) \<times> world" where
  "post_message rid tid message w0 w =
     (if message = [] then (Inr zod_error, w)
      else case getRun w0 rid (Some tid) of
        None \<Rightarrow> (Inr (reply_error 404 ''run not found''), w)
      | Some run \<Rightarrow>
          if isTerminal (run_status run)
          then (Inr \<lparr>rp_code = 409, rp_body = Status_body (run_status run)\<rparr>, w)
          else case commit (appendEvent (run_id run) UserMessageReceived [(''message'', JStr message)] None no_patch) w of
                 (Inl e, w') \<Rightarrow> (Inl e, w')
               | (Inr seq, w') \<Rightarrow> (Inr \<lparr>rp_code = 202, rp_body = Seq_body seq\<rparr>, w'))"

definition get_approvals :: "string \<Rightarrow> string \<Rightarrow> world \<Rightarrow> world \<Rightarrow> reply" where
  "get_approvals rid tid w0 w =
     (case getRun w0 rid (Some tid) of
        None \<Rightarrow> reply_error 404 ''run not found''
      | Some run \<Rightarrow> \<lparr>rp_code = 200, rp_body = Approvals_body (listApprovals w (run_id run) None)\<rparr>)"

definition to_decided :: "string \<Rightarrow> decision \<Rightarrow> transition_options" where
  "to_decided aid decision =
     \<lparr>to_expectFrom = [WAITING_APPROVAL], to_to = QUEUED,
      to_type = (if decision = Approve then ApprovalReceived else ApprovalDenied),
      to_payload = [(''approvalId'', JStr aid)], to_attempt = None, to_reason = None,
      to_patch = no_patch\<lparr>p_current_attempt_id := Some None\<rparr>\<rparr>"

text \<open>The transaction of a decision: it wakes the run if the run waits for an approval.\<close>

definition decide_and_wake :: "string \<Rightarrow> string \<Rightarrow> decision \<Rightarrow> string \<Rightarrow> approval_row option txn" where
  "decide_and_wake aid rid decision decidedBy =
     bindT (decideApproval aid decision decidedBy) (\<lambda>decided.
     case decided of
       None \<Rightarrow> returnT None
     | Some a \<Rightarrow>
         bindT (getsT (\<lambda>w. getRun w rid None)) (\<lambda>run.
         thenT (case run of
                  Some r \<Rightarrow> whenT (run_status r = WAITING_APPROVAL)
                               (thenT (transitionRun (run_id r) (to_decided aid decision)) (returnT ()))
                | None \<Rightarrow> returnT ())
               (returnT (Some a))))"

definition post_approval ::
    "string \<Rightarrow> string \<Rightarrow> string \<Rightarrow> decision \<Rightarrow> string \<Rightarrow> world \<Rightarrow> world \<Rightarrow> (err + reply) \<times> world" where
  "post_approval rid aid tid decision decidedBy w0 w =
     (case getApproval w0 aid of
        None \<Rightarrow> (Inr (reply_error 404 ''approval not found''), w)
      | Some a \<Rightarrow>
          if ap_run_id a \<noteq> rid \<or> getRun w0 rid (Some tid) = None
          then (Inr (reply_error 404 ''approval not found''), w)
          else case commit (decide_and_wake (ap_id a) (ap_run_id a) decision decidedBy) w of
                 (Inl e, w') \<Rightarrow> (Inl e, w')
               | (Inr None, w') \<Rightarrow> (Inr (reply_error 409 ''approval already decided''), w')
               | (Inr (Some d), w') \<Rightarrow> (Inr \<lparr>rp_code = 200, rp_body = Approval_body d\<rparr>, w'))"

definition to_woken :: "string \<Rightarrow> transition_options" where
  "to_woken name =
     \<lparr>to_expectFrom = [WAITING_SIGNAL], to_to = QUEUED, to_type = SignalReceived,
      to_payload = [(''name'', JStr name), (''woke'', JBool True)], to_attempt = None, to_reason = None,
      to_patch = no_patch\<lparr>p_current_attempt_id := Some None, p_awaited_signal := Some None,
                           p_awaited_correlation := Some None, p_awaited_schema := Some None\<rparr>\<rparr>"

definition signal_run :: "string \<Rightarrow> string \<Rightarrow> string \<Rightarrow> json option \<Rightarrow> reply txn" where
  "signal_run rid tid name payload =
     bindT (getsT (\<lambda>w. getRun w rid (Some tid))) (\<lambda>found.
     case found of
       None \<Rightarrow> returnT (reply_error 404 ''run not found'')
     | Some run \<Rightarrow>
         if isTerminal (run_status run)
         then returnT \<lparr>rp_code = 409, rp_body = Status_body (run_status run)\<rparr>
         else if run_managed_session_id run \<noteq> None
         then returnT (reply_error 409 ''managed_session_event_required'')
         else
           thenT (appendEvent (run_id run) SignalReceived
                    [(''name'', JStr name), (''payload'', or_else payload JNull)] None no_patch)
          (let woke = (run_status run = WAITING_SIGNAL \<and> run_awaited_signal run = Some name) in
           thenT (whenT woke (thenT (transitionRun (run_id run) (to_woken name)) (returnT ())))
                 (returnT \<lparr>rp_code = 202, rp_body = Delivered_body woke\<rparr>)))"

definition post_signal :: "string \<Rightarrow> string \<Rightarrow> string \<Rightarrow> json option \<Rightarrow> world \<Rightarrow> (err + reply) \<times> world" where
  "post_signal rid tid name payload w =
     (if name = [] then (Inr zod_error, w) else commit (signal_run rid tid name payload) w)"

section \<open>Cancelling and forking\<close>

definition to_cancelled :: "run_status \<Rightarrow> transition_options" where
  "to_cancelled status =
     \<lparr>to_expectFrom = [status], to_to = CANCELLED, to_type = RunCancelled, to_payload = [],
      to_attempt = None, to_reason = Some ''cancelled_by_api'', to_patch = no_patch\<rparr>"

definition cancel_run :: "string \<Rightarrow> string \<Rightarrow> reply txn" where
  "cancel_run rid tid =
     bindT (getsT (\<lambda>w. getRun w rid (Some tid))) (\<lambda>found.
     case found of
       None \<Rightarrow> returnT (reply_error 404 ''run not found'')
     | Some run \<Rightarrow>
         if isTerminal (run_status run)
         then returnT \<lparr>rp_code = 409, rp_body = Status_body (run_status run)\<rparr>
         else
           bindT (transitionRun (run_id run) (to_cancelled (run_status run))) (\<lambda>cancelled.
           thenT (case run_current_attempt_id run of None \<Rightarrow> returnT () | Some aid \<Rightarrow> cancel_attempt aid)
                 (returnT \<lparr>rp_code = 200, rp_body = Run_body (compatibilityRunResource cancelled)\<rparr>)))"

definition post_cancel :: "string \<Rightarrow> string \<Rightarrow> world \<Rightarrow> (err + reply) \<times> world" where
  "post_cancel rid tid w = commit (cancel_run rid tid) w"

record fork_body =
  fb_goal :: "string option"
  fb_input :: "(string \<times> json) list option"
  fb_maxSteps :: "int option"
  fb_tokenBudget :: "int option"

definition fork_body_ok :: "fork_body \<Rightarrow> bool" where
  "fork_body_ok b \<longleftrightarrow>
     fb_goal b \<noteq> Some [] \<and> pred_option runInput_ok (fb_input b) \<and> positive_int_ok (fb_maxSteps b)
     \<and> positive_int_ok (fb_tokenBudget b)"

definition fork_grant :: "grant_row \<Rightarrow> grant_spec" where
  "fork_grant g =
     \<lparr>gs_action = gr_action_pattern g, gs_resource = Some (gr_resource_pattern g),
      gs_requiresApproval = Some (gr_requires_approval g), gs_maxCalls = gr_max_calls g,
      gs_expiresAt = None\<rparr>"

definition fork_input :: "run_row \<Rightarrow> string \<Rightarrow> fork_body \<Rightarrow> grant_row list \<Rightarrow> create_run_input" where
  "fork_input source tid b grants =
     \<lparr>cr_tenantId = tid, cr_managedSessionId = None, cr_agentVersionId = run_agent_version_id source,
      cr_goal = or_else (fb_goal b) (run_goal source),
      cr_input = Some (stripReservedInput (or_else (fb_input b) (run_input source))),
      cr_maxSteps = Some (or_else (fb_maxSteps b) (run_max_steps source)),
      cr_tokenBudget = (case fb_tokenBudget b of Some t \<Rightarrow> Some t | None \<Rightarrow> run_token_budget source),
      cr_scheduledFor = None, cr_parentRunId = None, cr_replacesRunId = None,
      cr_replacementGeneration = None, cr_forkedFromRunId = Some (run_id source),
      cr_progress = Some (run_progress source), cr_grants = map fork_grant grants,
      cr_debugFaultPoints = []\<rparr>"

text \<open>The source at \<open>w0\<close>, its grants at \<open>w1\<close>, the transaction at \<open>w\<close>.\<close>

definition post_fork ::
    "string \<Rightarrow> string \<Rightarrow> fork_body \<Rightarrow> world \<Rightarrow> world \<Rightarrow> world \<Rightarrow> (err + reply) \<times> world" where
  "post_fork rid tid b w0 w1 w =
     (case getRun w0 rid (Some tid) of
        None \<Rightarrow> (Inr (reply_error 404 ''run not found''), w)
      | Some source \<Rightarrow>
          if \<not> fork_body_ok b then (Inr zod_error, w)
          else created_reply (commit (createRun (fork_input source tid b (listGrants w1 (run_id source)))) w))"


section \<open>The handlers keep the invariants\<close>

lemma cancel_attempt_kernel_from [hoare_rules]: "keeps (kernel_from w0) (cancel_attempt aid)"
  unfolding cancel_attempt_def by (intro keeps_modifyT) simp

lemma decide_and_wake_kernel_from [hoare_rules]:
  "keeps (kernel_from w0) (decide_and_wake aid rid decision who)"
  unfolding decide_and_wake_def by (intro hoare_rules)

lemma signal_run_kernel_from [hoare_rules]: "keeps (kernel_from w0) (signal_run rid tid name payload)"
  unfolding signal_run_def Let_def by (intro hoare_rules)

lemma cancel_run_kernel_from [hoare_rules]: "keeps (kernel_from w0) (cancel_run rid tid)"
  unfolding cancel_run_def by (intro hoare_rules)

text \<open>A request of a tenant: the databases at its reads and the one its transaction finds and leaves.\<close>

inductive run_request :: "string \<Rightarrow> world list \<Rightarrow> world \<Rightarrow> world \<Rightarrow> bool" where
  create: "post_run faults b tid w0 w = (res, w') \<Longrightarrow> run_request tid [w0] w w'"
| message: "post_message rid tid msg w0 w = (res, w') \<Longrightarrow> run_request tid [w0] w w'"
| approval: "post_approval rid aid tid decision who w0 w = (res, w') \<Longrightarrow> run_request tid [w0] w w'"
| signal: "post_signal rid tid name payload w = (res, w') \<Longrightarrow> run_request tid [] w w'"
| cancel: "post_cancel rid tid w = (res, w') \<Longrightarrow> run_request tid [] w w'"
| fork: "post_fork rid tid fb w0 w1 w = (res, w') \<Longrightarrow> run_request tid [w0, w1] w w'"

text \<open>What a request leaves is what one committed transaction leaves, or the database as it was.\<close>

lemma created_reply_world: "created_reply res = (x, w') \<Longrightarrow> w' = snd res"
  by (cases res; cases "fst res") (auto simp: created_reply_def split: err.splits)

lemma input_tenant [simp]:
  "cr_tenantId (body_input b tid) = tid" "cr_tenantId (fork_input source tid fb grants) = tid"
  by (simp_all add: body_input_def fork_input_def)

lemma run_request_commits:
  assumes "run_request tid ws w w'"
  obtains (unchanged) "w' = w"
  | (created) input where "cr_tenantId input = tid" and "w' = snd (commit (createRun input) w)"
  | (message) rid msg r w0 where "w0 \<in> set ws" and "getRun w0 rid (Some tid) = Some r"
      and "w' = snd (commit (appendEvent rid UserMessageReceived [(''message'', JStr msg)] None no_patch) w)"
  | (decided) aid rid decision who r w0 where "w0 \<in> set ws" and "getRun w0 rid (Some tid) = Some r"
      and "w' = snd (commit (decide_and_wake aid rid decision who) w)"
  | (signalled) rid name payload where "w' = snd (commit (signal_run rid tid name payload) w)"
  | (cancelled) rid where "w' = snd (commit (cancel_run rid tid) w)"
  using assms
proof cases
  case (create faults b w0 res)
  then show ?thesis
    using unchanged created [OF input_tenant(1)]
    by (auto simp: post_run_def dest!: created_reply_world split: if_splits)
next
  case (message rid msg w0 res)
  have "run_id r = rid" if "getRun w0 rid (Some tid) = Some r" for r
    using that by (auto simp: getRun_def dest: find_SomeD)
  then show ?thesis
    using message unchanged that(3) [of w0 rid _ msg]
    by (auto simp: post_message_def split: if_splits option.splits sum.splits prod.splits)
next
  case (approval rid aid decision who w0 res)
  have "ap_id a = aid" if "getApproval w0 aid = Some a" for a
    using that by (auto simp: getApproval_def find_approval_def dest: find_SomeD)
  then show ?thesis
    using approval unchanged decided [of w0 rid _ aid decision who]
    by (auto simp: post_approval_def split: if_splits option.splits sum.splits prod.splits)
next
  case (signal rid name payload res)
  then show ?thesis using unchanged signalled [of rid name payload] by (auto simp: post_signal_def split: if_splits)
next
  case (cancel rid res)
  then show ?thesis using cancelled [of rid] by (auto simp: post_cancel_def)
next
  case (fork rid fb w0 w1 res)
  then show ?thesis
    using unchanged created [OF input_tenant(2)]
    by (auto simp: post_fork_def dest!: created_reply_world split: if_splits option.splits)
qed

lemma run_request_kernel_from:
  assumes "run_request tid ws w w'" and "kernel_from u w"
  shows "kernel_from u w'"
  using assms(1)
proof (cases rule: run_request_commits)
  case (created input)
  show ?thesis unfolding created(2) by (rule commit_keeps [OF createRun_kernel_from assms(2)])
next
  case (message rid msg r w0)
  show ?thesis unfolding message(3) by (rule commit_keeps [OF appendEvent_kernel_from assms(2)])
next
  case (decided aid rid decision who r w0)
  show ?thesis unfolding decided(3) by (rule commit_keeps [OF decide_and_wake_kernel_from assms(2)])
next
  case (signalled rid name payload)
  show ?thesis unfolding signalled by (rule commit_keeps [OF signal_run_kernel_from assms(2)])
next
  case (cancelled rid)
  show ?thesis unfolding cancelled by (rule commit_keeps [OF cancel_run_kernel_from assms(2)])
qed (simp add: assms(2))


section \<open>Tenants are isolated\<close>

text \<open>What a tenant owns: its runs, and the ledger of each of them.\<close>

definition tenant_runs :: "string \<Rightarrow> world \<Rightarrow> run_row list" where
  "tenant_runs t w = filter (\<lambda>r. run_tenant_id r = t) (w_runs w)"

definition tenant_events :: "string \<Rightarrow> world \<Rightarrow> event_row list" where
  "tenant_events t w = filter (\<lambda>e. ev_run_id e \<in> run_id ` set (tenant_runs t w)) (w_events w)"

definition isolated :: "string \<Rightarrow> world \<Rightarrow> world \<Rightarrow> bool" where
  "isolated t w0 w \<longleftrightarrow> kernel_ok w \<and> tenant_runs t w = tenant_runs t w0 \<and> tenant_events t w = tenant_events t w0"

definition foreign :: "string \<Rightarrow> world \<Rightarrow> string \<Rightarrow> bool" where
  "foreign t w rid \<longleftrightarrow> rid \<notin> run_id ` set (tenant_runs t w)"

lemma isolated_log:
  assumes "isolated t w0 w" and "foreign t w0 rid" and "kernel_ok w'"
    and runs: "w_runs w' = update_where (\<lambda>r. run_id r = rid) u (w_runs w)" and keep: "\<And>r. run_identity (u r) = run_identity r"
    and ev: "w_events w' = w_events w @ [e]" and rid: "ev_run_id e = rid"
  shows "isolated t w0 w'"
proof -
  have id: "run_id (u r) = run_id r" and ten: "run_tenant_id (u r) = run_tenant_id r" for r
    using keep [of r] by (simp_all add: run_identity_def)
  have away: "\<forall>r \<in> set (tenant_runs t w). run_id r \<noteq> rid"
    using assms(1,2) by (auto simp: isolated_def foreign_def)
  have "tenant_runs t w' = update_where (\<lambda>r. run_id r = rid) u (tenant_runs t w)"
    by (simp add: tenant_runs_def runs ten filter_update_where_key)
  also have "\<dots> = tenant_runs t w" using away by (simp add: update_where_none)
  finally have same: "tenant_runs t w' = tenant_runs t w" .
  have "tenant_events t w' = tenant_events t w"
    using away by (auto simp: tenant_events_def same ev rid)
  then show ?thesis using same assms(1,3) by (simp add: isolated_def)
qed

lemma isolated_cong:
  "w_runs w' = w_runs w \<Longrightarrow> w_events w' = w_events w \<Longrightarrow> kernel_ok w' \<Longrightarrow> isolated t w0 w \<Longrightarrow> isolated t w0 w'"
proof -
  assume same: "w_runs w' = w_runs w" "w_events w' = w_events w" and "kernel_ok w'" "isolated t w0 w"
  moreover have "tenant_runs t w' = tenant_runs t w" by (simp add: tenant_runs_def same(1))
  moreover from this have "tenant_events t w' = tenant_events t w" by (simp add: tenant_events_def same(2))
  ultimately show "isolated t w0 w'" by (simp add: isolated_def)
qed

lemma isolated_ok: "isolated t w0 w \<Longrightarrow> kernel_from w w"
  by (simp add: isolated_def kernel_from_refl)

lemma isolated_transitionRun:
  assumes "foreign t w0 rid"
  shows "keeps (isolated t w0) (transitionRun rid opts)"
proof (rule hoareI)
  fix w r w' assume iso: "isolated t w0 w" and run: "transitionRun rid opts w = Inr (r, w')"
  have "kernel_ok w'"
    by (rule kernel_from_ok [OF hoareD [OF transitionRun_kernel_from isolated_ok [OF iso] run]])
  with run show "isolated t w0 w'"
    by (auto simp: transitionRun_iff intro!: isolated_log [OF iso assms, of _ "transition_row opts _ _"]
        dest: find_run_id)
qed

lemma isolated_appendEvent:
  assumes "foreign t w0 rid"
  shows "keeps (isolated t w0) (appendEvent rid type payload attempt patch)"
proof (rule hoareI)
  fix w x w' assume iso: "isolated t w0 w" and run: "appendEvent rid type payload attempt patch w = Inr (x, w')"
  have "kernel_ok w'"
    by (rule kernel_from_ok [OF hoareD [OF appendEvent_kernel_from isolated_ok [OF iso] run]])
  with run show "isolated t w0 w'"
    by (auto simp: appendEvent_iff intro!: isolated_log [OF iso assms, of _ "append_row patch _ _"])
qed

lemma isolated_cancel_attempt: "keeps (isolated t w0) (cancel_attempt aid)"
proof (rule hoareI)
  fix w x w' assume iso: "isolated t w0 w" and run: "cancel_attempt aid w = Inr (x, w')"
  have "kernel_ok w'" by (rule kernel_from_ok [OF hoareD [OF cancel_attempt_kernel_from isolated_ok [OF iso] run]])
  with run iso show "isolated t w0 w'"
    by (intro isolated_cong [OF _ _ _ iso]) (auto simp: cancel_attempt_def tx_simps)
qed

lemma isolated_decideApproval: "keeps (isolated t w0) (decideApproval aid d who)"
proof (rule hoareI)
  fix w x w' assume iso: "isolated t w0 w" and run: "decideApproval aid d who w = Inr (x, w')"
  have "kernel_ok w'" by (rule kernel_from_ok [OF hoareD [OF decideApproval_kernel_from isolated_ok [OF iso] run]])
  with run iso show "isolated t w0 w'"
    by (intro isolated_cong [OF _ _ _ iso]) (auto simp: decideApproval_def tx_simps Let_def)
qed

lemma isolated_createRun:
  assumes "cr_tenantId input \<noteq> t"
  shows "keeps (isolated t w0) (createRun input)"
proof (rule hoareI)
  fix w run w' assume iso: "isolated t w0 w" and create: "createRun input w = Inr (run, w')"
  have ok: "kernel_ok w" using iso by (simp add: isolated_def)
  obtain cap :: admission_capacity and msid wsId new where
    new: "new = new_run_row input (run_id run) msid (cap_effectiveTokenBudget cap) (w_now w)"
    and row: "run = transition_row to_queued 2 (w_now w) (transition_row (to_resolving input wsId) 1 (w_now w) new)"
    and runs: "w_runs w' = w_runs w @ [run]" and ok': "kernel_ok w'"
    and ev: "w_events w' = w_events w @
           [new_event (run_id run) 1 RunCreated (transition_payload CREATED (to_resolving input wsId)) None (w_now w),
            new_event (run_id run) 2 RunQueued (transition_payload RESOLVING to_queued) None (w_now w)]"
    and fresh: "\<forall>r \<in> set (w_runs w). run_id r \<noteq> run_id run"
    by (rule createRun_world [OF ok create])
  have "run_identity run = run_identity new" by (subst row) simp
  then have "run_tenant_id run \<noteq> t" using assms by (simp add: run_identity_def new)
  then have same: "tenant_runs t w' = tenant_runs t w" by (simp add: tenant_runs_def runs)
  have "run_id run \<notin> run_id ` set (tenant_runs t w)" using fresh by (auto simp: tenant_runs_def)
  then have "tenant_events t w' = tenant_events t w" by (simp add: tenant_events_def same ev)
  then show "isolated t w0 w'" using iso ok' same by (simp add: isolated_def)
qed

lemma own_run_foreign:
  assumes "kernel_ok w" and "r \<in> set (w_runs w)" and "run_tenant_id r \<noteq> t"
  shows "foreign t w (run_id r)"
  using assms run_id_inj [OF kernel_okD [OF assms(1)]] by (fastforce simp: foreign_def tenant_runs_def)

lemma getRun_own:
  "getRun w rid (Some tid) = Some r \<Longrightarrow> r \<in> set (w_runs w) \<and> run_id r = rid \<and> run_tenant_id r = tid"
  by (auto simp: getRun_def dest: find_SomeD)

lemma read_run_foreign:
  assumes "kernel_ok w" and "advances w0 w" and "getRun w0 rid (Some tid) = Some r" and "tid \<noteq> t"
  shows "foreign t w rid"
proof -
  obtain r' where "r' \<in> set (w_runs w)" "run_identity r' = run_identity r"
    using getRun_own [OF assms(3)] assms(2) by (fastforce simp: advances_def run_advances_def)
  then show ?thesis using own_run_foreign [OF assms(1), of r' t] getRun_own [OF assms(3)] assms(4)
    by (simp add: run_identity_def)
qed

lemma isolated_decide_and_wake:
  assumes "foreign t w0 rid"
  shows "keeps (isolated t w0) (decide_and_wake aid rid decision who)"
proof -
  have "run_id r = rid" if "getRun w rid None = Some r" for w r
    using that by (auto simp: getRun_def dest: find_run_id)
  then have wake: "keeps (isolated t w0) (bindT (getsT (\<lambda>w. getRun w rid None)) (\<lambda>run.
         thenT (case run of
                  Some r \<Rightarrow> whenT (run_status r = WAITING_APPROVAL)
                               (thenT (transitionRun (run_id r) (to_decided aid decision)) (returnT ()))
                | None \<Rightarrow> returnT ())
               (returnT (Some a))))" for a :: approval_row
    using isolated_transitionRun [OF assms]
    by (auto simp: hoare_def tx_simps whenT_def split: option.splits if_splits)
  show ?thesis
    unfolding decide_and_wake_def
    by (rule keeps_bindT [OF isolated_decideApproval]) (simp add: wake keeps_returnT split: option.split)
qed


lemma isolated_found:
  assumes "kernel_ok w" and "t \<noteq> tid" and "\<And>r. getRun w rid (Some tid) = Some r \<Longrightarrow> foreign t w rid \<Longrightarrow> run_id r = rid
      \<Longrightarrow> keeps (isolated t w) (f (Some r))" and "keeps (isolated t w) (f None)"
    and "bindT (getsT (\<lambda>w. getRun w rid (Some tid))) f w = Inr (x, w')"
  shows "isolated t w w'"
proof -
  have start: "isolated t w w" using assms(1) by (simp add: isolated_def)
  have run: "f (getRun w rid (Some tid)) w = Inr (x, w')" using assms(5) by (simp add: tx_simps)
  show ?thesis
  proof (cases "getRun w rid (Some tid)")
    case None
    then have "f None w = Inr (x, w')" using run by simp
    then show ?thesis by (rule hoareD [OF assms(4), where s = w, OF start])
  next
    case (Some r)
    have "foreign t w rid" by (rule read_run_foreign [OF assms(1) advances_refl Some]) (use assms(2) in simp)
    from assms(3) [OF Some this] getRun_own [OF Some] have "keeps (isolated t w) (f (Some r))" by simp
    moreover have "f (Some r) w = Inr (x, w')" using run Some by simp
    ultimately show ?thesis using start unfolding hoare_def by blast
  qed
qed

lemma isolated_commit: "(\<And>x w'. m w = Inr (x, w') \<Longrightarrow> isolated t w w') \<Longrightarrow> kernel_ok w \<Longrightarrow> isolated t w (snd (commit m w))"
  by (cases "m w") (auto simp: commit_def isolated_def)

text \<open>
  C21: tenants are isolated. Whatever a request of one tenant asks of the run endpoints - creating,
  forking, messaging, deciding an approval, signalling or cancelling, under whatever run or
  approval id, with whatever committing between its reads and its transaction - the runs of
  every other tenant and their ledgers stay exactly as they were.
\<close>

theorem tenants_isolated:
  assumes "run_request tid ws w w'" and "kernel_ok w" and "\<forall>w0 \<in> set ws. advances w0 w" and "t \<noteq> tid"
  shows "tenant_runs t w' = tenant_runs t w \<and> tenant_events t w' = tenant_events t w"
proof -
  have start: "isolated t w w" using assms(2) by (simp add: isolated_def)
  have "isolated t w w'"
    using assms(1)
  proof (cases rule: run_request_commits)
    case (created input)
    have "keeps (isolated t w) (createRun input)" by (rule isolated_createRun) (use created(1) assms(4) in simp)
    from commit_keeps [OF this start] show ?thesis by (simp add: created(2))
  next
    case (message rid msg r w0)
    have "foreign t w rid" by (rule read_run_foreign [OF assms(2) _ message(2)]) (use message(1) assms(3,4) in auto)
    from commit_keeps [OF isolated_appendEvent [OF this] start] show ?thesis by (simp add: message(3))
  next
    case (decided aid rid decision who r w0)
    have "foreign t w rid" by (rule read_run_foreign [OF assms(2) _ decided(2)]) (use decided(1) assms(3,4) in auto)
    from commit_keeps [OF isolated_decide_and_wake [OF this] start] show ?thesis by (simp add: decided(3))
  next
    case (signalled rid name payload)
    show ?thesis unfolding signalled
    proof (rule isolated_commit [OF _ assms(2)])
      show "isolated t w v" if "signal_run rid tid name payload w = Inr (x, v)" for x v
        by (rule isolated_found [OF assms(2,4) _ _ that [unfolded signal_run_def]])
           (auto simp: Let_def whenT_def intro!: hoare_rules isolated_appendEvent isolated_transitionRun)
    qed
  next
    case (cancelled rid)
    show ?thesis unfolding cancelled
    proof (rule isolated_commit [OF _ assms(2)])
      show "isolated t w v" if "cancel_run rid tid w = Inr (x, v)" for x v
        by (rule isolated_found [OF assms(2,4) _ _ that [unfolded cancel_run_def]])
           (auto intro!: hoare_rules isolated_cancel_attempt isolated_transitionRun)
    qed
  qed (simp add: start)
  then show ?thesis by (simp add: isolated_def)
qed

section \<open>What cancelling and deciding do\<close>

lemma released:
  assumes "a \<in> set (release_admissions rid why now rows)" and "adm_run_id a = rid"
  shows "\<not> adm_active a"
  using assms(1) unfolding release_admissions_def
  by (rule in_update_whereE) (use assms(2) in \<open>simp split: if_splits\<close>)

text \<open>
  A cancel request always settles. An unknown run and a run of another tenant are reported
  as not found and a finished run as such, and nothing is written. Any other run is cancelled: it
  ends in CANCELLED with one RunCancelled event, its admission is released, and the attempt that
  held it is no longer active, so its worker can neither heartbeat nor settle.
\<close>

theorem cancel_request_outcome:
  assumes "kernel_ok w"
  shows "case getRun w rid (Some tid) of
      None \<Rightarrow> post_cancel rid tid w = (Inr (reply_error 404 ''run not found''), w)
    | Some r \<Rightarrow>
        if isTerminal (run_status r)
        then post_cancel rid tid w = (Inr \<lparr>rp_code = 409, rp_body = Status_body (run_status r)\<rparr>, w)
        else \<exists>r' w' ev. post_cancel rid tid w = (Inr \<lparr>rp_code = 200, rp_body = Run_body (compatibilityRunResource r')\<rparr>, w')
          \<and> find_run w' rid = Some r' \<and> run_status r' = CANCELLED \<and> run_status_reason r' = Some ''cancelled_by_api''
          \<and> w_events w' = w_events w @ [ev] \<and> ev_run_id ev = rid \<and> ev_type ev = RunCancelled
          \<and> (\<forall>a \<in> set (w_admissions w'). adm_run_id a = rid \<longrightarrow> \<not> adm_active a)
          \<and> (\<forall>a \<in> set (w_attempts w'). run_current_attempt_id r = Some (att_id a) \<longrightarrow> att_state a \<noteq> AS_ACTIVE)
          \<and> kernel_ok w'"
proof (cases "getRun w rid (Some tid)")
  case None
  then show ?thesis by (simp add: post_cancel_def cancel_run_def commit_def tx_eval)
next
  case (Some r)
  show ?thesis
  proof (cases "isTerminal (run_status r)")
    case True
    then show ?thesis using Some by (simp add: post_cancel_def cancel_run_def commit_def tx_eval)
  next
    case False
    have r: "r \<in> set (w_runs w)" "run_id r = rid" using getRun_own [OF Some] by simp_all
    have f: "find_run w rid = Some r" using r by (simp add: find_run_iff kernel_okD [OF assms])
    let ?o = "to_cancelled (run_status r)"
    let ?w1 = "transition_world r ?o w"
    let ?r' = "transition_row ?o (run_last_event_seq r + 1) (w_now w) r"
    have t: "transitionRun (run_id r) ?o w = Inr (?r', ?w1)"
      using f r(2) False next_seq_free [OF kernel_okD [OF assms] f]
      by (auto simp: transitionRun_iff to_cancelled_def to_CANCELLED_iff)
    define w' where "w' = (case run_current_attempt_id r of None \<Rightarrow> ?w1
       | Some aid \<Rightarrow> ?w1\<lparr>w_attempts := update_where (\<lambda>a. att_id a = aid \<and> att_state a = AS_ACTIVE)
           (\<lambda>a. a\<lparr>att_state := AS_EXITED, att_exit_reason := Some ''cancelled''\<rparr>) (w_attempts ?w1)\<rparr>)"
    have run: "cancel_run rid tid w = Inr (\<lparr>rp_code = 200, rp_body = Run_body (compatibilityRunResource ?r')\<rparr>, w')"
      using Some False t by (simp add: cancel_run_def tx_eval w'_def cancel_attempt_def split: option.split)
    have "kernel_ok w'"
      by (rule kernel_from_ok [OF hoareD [OF cancel_run_kernel_from kernel_from_refl [OF assms] run]])
    moreover have same: "w_runs w' = w_runs ?w1" "w_events w' = w_events ?w1" "w_admissions w' = w_admissions ?w1"
      by (simp_all add: w'_def split: option.split)
    have "find_run w' rid = find_run ?w1 rid" by (simp add: find_run_def same)
    then have "find_run w' rid = Some ?r'" using f r(2) by (simp add: find_run_transition_world)
    moreover obtain why where adm: "w_admissions w' = release_admissions rid why (w_now w) (w_admissions w)"
      using r(2) by (auto simp: same(3) to_cancelled_def)
    have "\<forall>a \<in> set (w_admissions w'). adm_run_id a = rid \<longrightarrow> \<not> adm_active a"
      unfolding adm by (intro ballI impI released)
    moreover have "\<forall>a \<in> set (w_attempts w'). run_current_attempt_id r = Some (att_id a) \<longrightarrow> att_state a \<noteq> AS_ACTIVE"
    proof (intro ballI impI)
      fix a assume a: "a \<in> set (w_attempts w')" and cur: "run_current_attempt_id r = Some (att_id a)"
      from a have "a \<in> set (update_where (\<lambda>b. att_id b = att_id a \<and> att_state b = AS_ACTIVE)
           (\<lambda>b. b\<lparr>att_state := AS_EXITED, att_exit_reason := Some ''cancelled''\<rparr>) (w_attempts ?w1))"
        by (simp add: w'_def cur)
      then show "att_state a \<noteq> AS_ACTIVE" by (rule in_update_whereE) (auto split: if_splits)
    qed
    moreover have "run_status ?r' = CANCELLED" "run_status_reason ?r' = Some ''cancelled_by_api''"
      by (simp_all add: to_cancelled_def transition_row_def no_patch_def Let_def)
    moreover have "w_events w' = w_events w @ [transition_event r ?o (w_now w)]" by (simp add: same)
    moreover have "ev_run_id (transition_event r ?o (w_now w)) = rid"
      "ev_type (transition_event r ?o (w_now w)) = RunCancelled"
      by (simp_all add: r(2) to_cancelled_def)
    moreover have "post_cancel rid tid w =
        (Inr \<lparr>rp_code = 200, rp_body = Run_body (compatibilityRunResource ?r')\<rparr>, w')"
      using run by (simp add: post_cancel_def commit_def)
    ultimately have "\<exists>r' w' ev. post_cancel rid tid w = (Inr \<lparr>rp_code = 200, rp_body = Run_body (compatibilityRunResource r')\<rparr>, w')
          \<and> find_run w' rid = Some r' \<and> run_status r' = CANCELLED \<and> run_status_reason r' = Some ''cancelled_by_api''
          \<and> w_events w' = w_events w @ [ev] \<and> ev_run_id ev = rid \<and> ev_type ev = RunCancelled
          \<and> (\<forall>a \<in> set (w_admissions w'). adm_run_id a = rid \<longrightarrow> \<not> adm_active a)
          \<and> (\<forall>a \<in> set (w_attempts w'). run_current_attempt_id r = Some (att_id a) \<longrightarrow> att_state a \<noteq> AS_ACTIVE)
          \<and> kernel_ok w'"
      by (intro exI [of _ ?r'] exI [of _ w'] exI [of _ "transition_event r ?o (w_now w)"] conjI)
    then show ?thesis using Some False by simp
  qed
qed


lemma find_stronger: "find p xs = Some x \<Longrightarrow> q x \<Longrightarrow> find (\<lambda>y. p y \<and> q y) xs = Some x"
  by (induction xs) (auto split: if_splits)

lemma decide_pending:
  assumes "find_approval w aid = Some a" and "ap_status a = AP_PENDING"
  shows "decideApproval aid decision who w = Inr (Some (a\<lparr>ap_status := decision_status decision,
        ap_decision_by := Some who, ap_decided_at := Some (w_now w)\<rparr>),
      w\<lparr>w_approvals := update_where (\<lambda>a. ap_id a = aid \<and> ap_status a = AP_PENDING)
        (\<lambda>a. a\<lparr>ap_status := decision_status decision, ap_decision_by := Some who,
               ap_decided_at := Some (w_now w)\<rparr>) (w_approvals w)\<rparr>)"
proof -
  have "find (\<lambda>a. ap_id a = aid \<and> ap_status a = AP_PENDING) (w_approvals w) = Some a"
    using find_stronger [OF assms(1) [unfolded find_approval_def]] assms(2) by simp
  then show ?thesis by (simp add: decideApproval_def tx_eval Let_def)
qed

lemma decide_settled:
  assumes "\<forall>a \<in> set (w_approvals w). ap_id a = aid \<longrightarrow> ap_status a \<noteq> AP_PENDING"
  shows "decideApproval aid decision who w = Inr (None, w)"
proof -
  have "find (\<lambda>a. ap_id a = aid \<and> ap_status a = AP_PENDING) (w_approvals w) = None"
    using assms by (auto simp: find_None_iff)
  moreover have "update_where (\<lambda>a. ap_id a = aid \<and> ap_status a = AP_PENDING) f (w_approvals w) = w_approvals w" for f
    using assms by (intro update_where_none) auto
  ultimately show ?thesis by (simp add: decideApproval_def tx_eval Let_def)
qed

lemma decided_rows:
  assumes "x \<in> set (update_where (\<lambda>a. ap_id a = aid \<and> ap_status a = AP_PENDING) u rows)"
    and "\<And>a. ap_status (u a) \<noteq> AP_PENDING" and "\<And>a. ap_id (u a) = ap_id a"
  shows "ap_id x = aid \<longrightarrow> ap_status x \<noteq> AP_PENDING"
  using assms(1) by (rule in_update_whereE) (use assms(2,3) in \<open>simp split: if_splits\<close>)

text \<open>
  A decision is taken once and wakes the run. Deciding a pending approval of one's own run
  stores the decision with its author; a run that waits for an approval is queued again, with
  the decision in its ledger and no attempt, and a run that is elsewhere is left alone. Every
  further decision of that approval is refused with a conflict and writes nothing.
\<close>

theorem approval_request_outcome:
  assumes "kernel_ok w" and "getApproval w aid = Some a" and "ap_run_id a = rid" and "ap_status a = AP_PENDING"
    and "getRun w rid (Some tid) = Some r"
  shows "\<exists>d w' r'. post_approval rid aid tid decision who w w = (Inr \<lparr>rp_code = 200, rp_body = Approval_body d\<rparr>, w')
     \<and> getApproval w' aid = Some d \<and> ap_status d = decision_status decision \<and> ap_decision_by d = Some who
     \<and> find_run w' rid = Some r' \<and> kernel_ok w'
     \<and> (if run_status r = WAITING_APPROVAL
        then run_status r' = QUEUED \<and> run_current_attempt_id r' = None
          \<and> (\<exists>ev. w_events w' = w_events w @ [ev] \<and> ev_run_id ev = rid
                \<and> ev_type ev = (if decision = Approve then ApprovalReceived else ApprovalDenied))
        else r' = r \<and> w_events w' = w_events w)
     \<and> (\<forall>decision' who'. post_approval rid aid tid decision' who' w' w' =
          (Inr (reply_error 409 ''approval already decided''), w'))"
proof -
  let ?decide = "\<lambda>a. a\<lparr>ap_status := decision_status decision, ap_decision_by := Some who, ap_decided_at := Some (w_now w)\<rparr>"
  let ?w1 = "w\<lparr>w_approvals := update_where (\<lambda>a. ap_id a = aid \<and> ap_status a = AP_PENDING) ?decide (w_approvals w)\<rparr>"
  have a: "find_approval w aid = Some a" "ap_id a = aid"
    using assms(2) by (auto simp: getApproval_def find_approval_def dest: find_SomeD)
  have r: "r \<in> set (w_runs w)" "run_id r = rid" using getRun_own [OF assms(5)] by simp_all
  have f: "find_run w rid = Some r" using r by (simp add: find_run_iff kernel_okD [OF assms(1)])
  have f1: "find_run ?w1 rid = Some r" using f by simp
  have ok1: "kernel_ok ?w1"
    by (rule kernel_from_ok [OF hoareD [OF decideApproval_kernel_from kernel_from_refl [OF assms(1)]
          decide_pending [OF a(1) assms(4)]]])
  let ?o = "to_decided aid decision"
  define w' where "w' = (if run_status r = WAITING_APPROVAL then transition_world r ?o ?w1 else ?w1)"
  have t: "transitionRun rid ?o ?w1 = Inr (transition_row ?o (run_last_event_seq r + 1) (w_now w) r, transition_world r ?o ?w1)"
    if "run_status r = WAITING_APPROVAL"
    using f1 that next_seq_free [OF kernel_okD [OF ok1] f1]
    by (auto simp: transitionRun_iff to_decided_def isTransitionAllowed_def)
  have run: "decide_and_wake aid rid decision who w = Inr (Some (?decide a), w')"
    using f r(2) t decide_pending [OF a(1) assms(4), of decision who]
    by (auto simp: decide_and_wake_def tx_eval getRun_def find_run_def w'_def)
  have "post_approval rid aid tid decision who w w = (Inr \<lparr>rp_code = 200, rp_body = Approval_body (?decide a)\<rparr>, w')"
    using run assms(2,3,5) a(2) by (simp add: post_approval_def commit_def)
  moreover have apps: "w_approvals w' = w_approvals ?w1" by (simp add: w'_def)
  have "getApproval w' aid = Some (?decide a)"
    using a assms(4) by (simp add: getApproval_def find_approval_def apps find_key_update)
  moreover have ok': "kernel_ok w'"
    by (rule kernel_from_ok [OF hoareD [OF decide_and_wake_kernel_from kernel_from_refl [OF assms(1)] run]])
  moreover obtain r' where r': "find_run w' rid = Some r'" and
    settled: "if run_status r = WAITING_APPROVAL
        then run_status r' = QUEUED \<and> run_current_attempt_id r' = None
          \<and> (\<exists>ev. w_events w' = w_events w @ [ev] \<and> ev_run_id ev = rid
                \<and> ev_type ev = (if decision = Approve then ApprovalReceived else ApprovalDenied))
        else r' = r \<and> w_events w' = w_events w"
  proof (cases "run_status r = WAITING_APPROVAL")
    case True
    let ?r' = "transition_row ?o (run_last_event_seq r + 1) (w_now w) r"
    have "find_run w' rid = Some ?r'" using f1 True r(2) by (simp add: w'_def find_run_transition_world)
    moreover have "run_status ?r' = QUEUED" "run_current_attempt_id ?r' = None"
      by (simp_all add: to_decided_def transition_row_def no_patch_def Let_def)
    moreover have "w_events w' = w_events w @ [transition_event r ?o (w_now w)]" using True by (simp add: w'_def)
    ultimately show ?thesis using True r(2) by (intro that [of ?r']) (auto simp: to_decided_def)
  next
    case False
    then show ?thesis using f1 by (intro that [of r]) (simp_all add: w'_def)
  qed
  moreover have "post_approval rid aid tid decision' who' w' w' = (Inr (reply_error 409 ''approval already decided''), w')"
    for decision' who'
  proof -
    have "decision_status decision \<noteq> AP_PENDING" by (cases decision) (simp_all add: decision_status_def)
    then have "\<forall>x \<in> set (w_approvals w'). ap_id x = aid \<longrightarrow> ap_status x \<noteq> AP_PENDING"
      unfolding apps by (intro ballI, rule_tac decided_rows [of _ _ ?decide "w_approvals w"]) simp_all
    from decide_settled [OF this] have again: "decide_and_wake aid rid decision' who' w' = Inr (None, w')"
      by (simp add: decide_and_wake_def tx_eval)
    obtain r2 where "r2 \<in> set (w_runs w')" "run_identity r2 = run_identity r"
      using hoareD [OF decide_and_wake_kernel_from kernel_from_refl [OF assms(1)] run] r(1)
      by (fastforce simp: kernel_from_def advances_def run_advances_def)
    then have "getRun w' rid (Some tid) \<noteq> None"
      using r(2) getRun_own [OF assms(5)] by (auto simp: getRun_def find_None_iff run_identity_def)
    then show ?thesis
      using again a(2) assms(3) \<open>getApproval w' aid = Some (?decide a)\<close> by (simp add: post_approval_def commit_def)
  qed
  moreover have "ap_status (?decide a) = decision_status decision" "ap_decision_by (?decide a) = Some who" by simp_all
  ultimately show ?thesis
    by (intro exI [of _ "?decide a"] exI [of _ w'] exI [of _ r'] conjI allI)
qed

text \<open>The grants of a fork: those of its source, unspent and without an expiry.\<close>

lemma fork_grants:
  "cr_grants (fork_input source tid fb grants) = map fork_grant grants"
  "gs_maxCalls (fork_grant g) = gr_max_calls g" "gs_expiresAt (fork_grant g) = None"
  by (simp_all add: fork_input_def fork_grant_def)


section \<open>Worked examples\<close>

definition demo_two_tenants :: world where
  "demo_two_tenants = (demo_world RUNNING)
     \<lparr>w_runs := [demo_run RUNNING, (demo_run QUEUED)\<lparr>run_id := ''run_2'', run_tenant_id := ''tnt_2''\<rparr>],
      w_admissions := [demo_admission, demo_admission\<lparr>adm_run_id := ''run_2'', adm_tenant_id := ''tnt_2''\<rparr>]\<rparr>"

lemma demo_two_tenants_ok: "kernel_ok demo_two_tenants"
  by (simp add: demo_two_tenants_def kernel_ok_def ledger_ok_def outbox_mirrors_def gapless_def
      admission_ok_def session_ok_def sessions_fenced_def session_open_def session_mirrors_def demo_session_def
      demo_admission_def)

theorem tenants_isolated_witness:
  "\<exists>r' w'. post_cancel ''run_1'' ''tnt_1'' demo_two_tenants
        = (Inr \<lparr>rp_code = 200, rp_body = Run_body (compatibilityRunResource r')\<rparr>, w')
     \<and> tenant_runs ''tnt_2'' w' = [(demo_run QUEUED)\<lparr>run_id := ''run_2'', run_tenant_id := ''tnt_2''\<rparr>]"
proof -
  have get: "getRun demo_two_tenants ''run_1'' (Some ''tnt_1'') = Some (demo_run RUNNING)"
    by (simp add: getRun_def demo_two_tenants_def)
  obtain r' w' where run: "post_cancel ''run_1'' ''tnt_1'' demo_two_tenants
        = (Inr \<lparr>rp_code = 200, rp_body = Run_body (compatibilityRunResource r')\<rparr>, w')"
    using cancel_request_outcome [OF demo_two_tenants_ok, of "''run_1''" "''tnt_1''"] get by auto
  have "tenant_runs ''tnt_2'' w' = tenant_runs ''tnt_2'' demo_two_tenants"
    using tenants_isolated [OF run_request.cancel [OF run] demo_two_tenants_ok, of "''tnt_2''"] by simp
  also have "\<dots> = [(demo_run QUEUED)\<lparr>run_id := ''run_2'', run_tenant_id := ''tnt_2''\<rparr>]"
    by (simp add: tenant_runs_def demo_two_tenants_def)
  finally show ?thesis using run by blast
qed

theorem cancel_request_outcome_witness:
  "\<exists>r' w'. post_cancel ''run_1'' ''tnt_1'' (demo_world RUNNING)
        = (Inr \<lparr>rp_code = 200, rp_body = Run_body (compatibilityRunResource r')\<rparr>, w') \<and> run_status r' = CANCELLED
     \<and> post_cancel ''run_1'' ''tnt_2'' (demo_world RUNNING) = (Inr (reply_error 404 ''run not found''), demo_world RUNNING)"
proof -
  have get: "getRun (demo_world RUNNING) ''run_1'' (Some ''tnt_1'') = Some (demo_run RUNNING)"
    "getRun (demo_world RUNNING) ''run_1'' (Some ''tnt_2'') = None"
    by (simp_all add: getRun_def)
  from cancel_request_outcome [of "demo_world RUNNING" "''run_1''" "''tnt_1''"]
    cancel_request_outcome [of "demo_world RUNNING" "''run_1''" "''tnt_2''"] get
  show ?thesis by auto
qed

definition demo_pending :: world where
  "demo_pending = (demo_world WAITING_APPROVAL)
     \<lparr>w_approvals := [demo_approval\<lparr>ap_status := AP_PENDING, ap_decision_by := None, ap_decided_at := None\<rparr>]\<rparr>"

lemma demo_pending_ok: "kernel_ok demo_pending"
  unfolding demo_pending_def using kernel_ok_cong [of _ "demo_world WAITING_APPROVAL"] demo_world_ok by fastforce

theorem approval_request_outcome_witness:
  "\<exists>d w' r'. post_approval ''run_1'' ''apr_1'' ''tnt_1'' Deny ''alice'' demo_pending demo_pending
        = (Inr \<lparr>rp_code = 200, rp_body = Approval_body d\<rparr>, w')
     \<and> ap_status d = AP_DENIED \<and> find_run w' ''run_1'' = Some r' \<and> run_status r' = QUEUED"
proof -
  have "getApproval demo_pending ''apr_1'' = Some (demo_approval\<lparr>ap_status := AP_PENDING, ap_decision_by := None, ap_decided_at := None\<rparr>)"
    "getRun demo_pending ''run_1'' (Some ''tnt_1'') = Some (demo_run WAITING_APPROVAL)"
    by (simp_all add: getApproval_def find_approval_def getRun_def demo_pending_def demo_approval_def)
  from approval_request_outcome [OF demo_pending_ok this(1) _ _ this(2), of Deny "''alice''"] show ?thesis
    by (auto simp: demo_approval_def decision_status_def)
qed


end
