(* ===== verification/Js_Values.thy ===== *)
theory Js_Values
  imports Receipts
begin

text \<open>
  JSON values the way tool arguments are read: \<^verbatim>\<open>JSON.stringify\<close>, \<^verbatim>\<open>String(..)\<close>, truthiness,
  \<^verbatim>\<open>??\<close>, \<^verbatim>\<open>trim\<close>, and the length and slices of strings in UTF-16 units over their UTF-8 bytes.
  Objects that shadow \<^verbatim>\<open>toString\<close> are not considered; white space is the ASCII part.
\<close>

fun stringify :: "(rat \<Rightarrow> string) \<Rightarrow> json \<Rightarrow> string" where
  "stringify fmt JNull = ''null''"
| "stringify fmt (JBool b) = (if b then ''true'' else ''false'')"
| "stringify fmt (JNum q) = json_number fmt q"
| "stringify fmt (JStr s) = json_quote s"
| "stringify fmt (JArr vs) = ''['' @ join_comma (map (stringify fmt) vs) @ '']''"
| "stringify fmt (JObj kvs) =
     ''{'' @ join_comma (map (\<lambda>(k, v). json_quote k @ '':'' @ stringify fmt v) kvs) @ ''}''"

fun js_string :: "(rat \<Rightarrow> string) \<Rightarrow> json \<Rightarrow> string" where
  "js_string fmt JNull = ''null''"
| "js_string fmt (JBool b) = (if b then ''true'' else ''false'')"
| "js_string fmt (JNum q) = json_number fmt q"
| "js_string fmt (JStr s) = s"
| "js_string fmt (JArr vs) = join_comma (map (\<lambda>v. if v = JNull then [] else js_string fmt v) vs)"
| "js_string fmt (JObj kvs) = ''[object Object]''"

fun truthy :: "json option \<Rightarrow> bool" where
  "truthy None = False"
| "truthy (Some JNull) = False"
| "truthy (Some (JBool b)) = b"
| "truthy (Some (JNum q)) = (q \<noteq> 0)"
| "truthy (Some (JStr s)) = (s \<noteq> [])"
| "truthy (Some (JArr vs)) = True"
| "truthy (Some (JObj kvs)) = True"

text \<open>\<^verbatim>\<open>String(args.name ?? fallback)\<close>.\<close>

definition string_arg :: "(rat \<Rightarrow> string) \<Rightarrow> (string \<times> json) list \<Rightarrow> string \<Rightarrow> string \<Rightarrow> string" where
  "string_arg fmt args name fallback =
     (case jfield args name of
        None \<Rightarrow> fallback
      | Some JNull \<Rightarrow> fallback
      | Some v \<Rightarrow> js_string fmt v)"

definition is_space :: "char \<Rightarrow> bool" where
  "is_space c = (let n = of_char c :: nat in n = 32 \<or> 9 \<le> n \<and> n \<le> 13)"

definition js_trim :: "string \<Rightarrow> string" where
  "js_trim s = rev (dropWhile is_space (rev (dropWhile is_space s)))"

text \<open>
  The UTF-16 units that a byte of UTF-8 adds: none if it continues a character, two if it starts one
  of four bytes. A slice that would cut a surrogate pair ends before it.
\<close>

definition utf16_units :: "char \<Rightarrow> nat" where
  "utf16_units c = (let n = of_char c :: nat in if 128 \<le> n \<and> n < 192 then 0 else if 240 \<le> n then 2 else 1)"

definition js_length :: "string \<Rightarrow> nat" where
  "js_length s = sum_list (map utf16_units s)"

fun js_slice :: "nat \<Rightarrow> string \<Rightarrow> string" where
  "js_slice n [] = []"
| "js_slice n (c # s) = (if utf16_units c \<le> n then c # js_slice (n - utf16_units c) s else [])"

lemma js_slice_short: "js_length s \<le> n \<Longrightarrow> js_slice n s = s"
  by (induction n s rule: js_slice.induct) (auto simp: js_length_def)

lemma js_slice_prefix: "\<exists>rest. s = js_slice n s @ rest"
  by (induction n s rule: js_slice.induct) auto

lemma js_slice_bound: "js_length (js_slice n s) \<le> n"
  by (induction n s rule: js_slice.induct) (auto simp: js_length_def)

end
