(* ===== verification/Patterns.thy ===== *)
theory Patterns
  imports Js_Values
begin

text \<open>
  The regular expressions of the code. A pattern is a value of \<open>rx\<close>; it is matched at a cursor, the
  character before it and the rest of the string. \<open>rx_test\<close> is \<^verbatim>\<open>RegExp.prototype.test\<close>. White space and
  case are the ASCII ones.
\<close>

datatype rx =
    Chars "char \<Rightarrow> bool" nat "nat option"   \<comment> \<open>a run of a class, at least and at most so many\<close>
  | Lit string
  | Seq "rx list"
  | Alt "rx list"
  | Boundary                                  \<comment> \<open>\<^verbatim>\<open>\b\<close>\<close>
  | Bos
  | Eos

type_synonym cursor = "char option \<times> string"

definition is_digit :: "char \<Rightarrow> bool" where
  "is_digit c = (let n = of_char c :: nat in 48 \<le> n \<and> n \<le> 57)"

definition is_capital :: "char \<Rightarrow> bool" where
  "is_capital c = (let n = of_char c :: nat in 48 \<le> n \<and> n \<le> 57 \<or> 65 \<le> n \<and> n \<le> 90)"

definition is_alnum :: "char \<Rightarrow> bool" where
  "is_alnum c = (let n = of_char c :: nat in 48 \<le> n \<and> n \<le> 57 \<or> 65 \<le> n \<and> n \<le> 90 \<or> 97 \<le> n \<and> n \<le> 122)"

definition is_word :: "char \<Rightarrow> bool" where
  "is_word c = (is_alnum c \<or> c = CHR ''_'')"

definition word_opt :: "char option \<Rightarrow> bool" where
  "word_opt c = (case c of None \<Rightarrow> False | Some x \<Rightarrow> is_word x)"

fun first_char :: "string \<Rightarrow> char option" where
  "first_char [] = None"
| "first_char (c # s) = Some c"

fun rx_run :: "(char \<Rightarrow> bool) \<Rightarrow> nat \<Rightarrow> nat option \<Rightarrow> char option \<Rightarrow> string \<Rightarrow> cursor list" where
  "rx_run P least most prev [] = (if least = 0 then [(prev, [])] else [])"
| "rx_run P least most prev (c # s) =
     (if least = 0 then [(prev, c # s)] else [])
     @ (if most \<noteq> Some 0 \<and> P c then rx_run P (least - 1) (map_option (\<lambda>m. m - 1) most) (Some c) s else [])"

fun rx_lit :: "string \<Rightarrow> char option \<Rightarrow> string \<Rightarrow> cursor list" where
  "rx_lit [] prev s = [(prev, s)]"
| "rx_lit (p # ps) prev [] = []"
| "rx_lit (p # ps) prev (c # s) = (if c = p then rx_lit ps (Some c) s else [])"

text \<open>The cursors at which a match that starts at the given one can end.\<close>

fun rx_ends :: "rx \<Rightarrow> cursor \<Rightarrow> cursor list" where
  "rx_ends (Chars P least most) (prev, s) = rx_run P least most prev s"
| "rx_ends (Lit p) (prev, s) = rx_lit p prev s"
| "rx_ends (Seq []) cur = [cur]"
| "rx_ends (Seq (r # rs)) cur = concat (map (rx_ends (Seq rs)) (rx_ends r cur))"
| "rx_ends (Alt []) cur = []"
| "rx_ends (Alt (r # rs)) cur = rx_ends r cur @ rx_ends (Alt rs) cur"
| "rx_ends Boundary (prev, s) = (if word_opt prev \<noteq> word_opt (first_char s) then [(prev, s)] else [])"
| "rx_ends Bos (prev, s) = (if prev = None then [(prev, s)] else [])"
| "rx_ends Eos (prev, s) = (if s = [] then [(prev, s)] else [])"

fun rx_search :: "rx \<Rightarrow> char option \<Rightarrow> string \<Rightarrow> bool" where
  "rx_search r prev [] = (rx_ends r (prev, []) \<noteq> [])"
| "rx_search r prev (c # s) = (rx_ends r (prev, c # s) \<noteq> [] \<or> rx_search r (Some c) s)"

definition rx_test :: "rx \<Rightarrow> string \<Rightarrow> bool" where
  "rx_test r s = rx_search r None s"

text \<open>Under the flag \<^verbatim>\<open>i\<close> a pattern in lower case is matched with the string in lower case.\<close>

definition rx_test_i :: "rx \<Rightarrow> string \<Rightarrow> bool" where
  "rx_test_i r s = rx_test r (toLowerCase s)"

definition opt :: "rx \<Rightarrow> rx" where "opt r = Alt [r, Seq []]"

abbreviation one_of :: "string \<Rightarrow> rx" where "one_of cs \<equiv> Chars (\<lambda>x. x \<in> set cs) 1 (Some 1)"

lemma rx_run_sound:
  "(p, t) \<in> set (rx_run P least most prev s) \<Longrightarrow>
   \<exists>u. s = u @ t \<and> (\<forall>c \<in> set u. P c) \<and> least \<le> length u \<and> (\<forall>m. most = Some m \<longrightarrow> length u \<le> m)"
proof (induction P least most prev s rule: rx_run.induct)
  case (2 P least most prev c s)
  then consider "least = 0" "t = c # s" | "most \<noteq> Some 0" "P c" "(p, t) \<in> set (rx_run P (least - 1) (map_option (\<lambda>m. m - 1) most) (Some c) s)"
    by (auto split: if_splits)
  then show ?case
  proof cases
    case 1
    then show ?thesis by (intro exI [of _ "[]"]) simp
  next
    case 2
    with "2.IH" obtain u where "s = u @ t" "\<forall>c \<in> set u. P c" "least - 1 \<le> length u"
      "\<forall>m. map_option (\<lambda>m. m - 1) most = Some m \<longrightarrow> length u \<le> m" by blast
    with 2 show ?thesis by (intro exI [of _ "c # u"]) (auto split: option.splits)
  qed
qed (auto split: if_splits)

end
