(* ===== verification/Supervisor.thy ===== *)
theory Supervisor
  imports Receipts
begin

text \<open>
  The semantic supervisor of a run, \<^verbatim>\<open>src/harness/supervisor.ts\<close>, with what feeds it and what it
  writes to the ledger (\<^verbatim>\<open>src/harness/supervision.ts\<close>), the choice of the model
  (\<^verbatim>\<open>src/harness/modelRouter.ts\<close>) and the cost estimate (\<^verbatim>\<open>src/core/costs.ts\<close>). Fractions are
  exact rationals where the source has floating point.
\<close>

section \<open>The evaluator\<close>

record supervisor_thresholds =
  th_loopThreshold :: nat
  th_stagnationSteps :: nat
  th_window :: nat
  th_budgetHeadroom :: rat
  th_maxEscalations :: nat

definition DEFAULT_THRESHOLDS :: supervisor_thresholds where
  "DEFAULT_THRESHOLDS =
     \<lparr>th_loopThreshold = 3, th_stagnationSteps = 5, th_window = 8, th_budgetHeadroom = 15 / 100,
      th_maxEscalations = 2\<rparr>"

record supervisor_state =
  sv_actionWindow :: "string list"
  sv_progressWindow :: "nat list"
  sv_escalationLevel :: nat
  sv_recoveries :: nat

definition initialSupervisorState :: supervisor_state where
  "initialSupervisorState =
     \<lparr>sv_actionWindow = [], sv_progressWindow = [], sv_escalationLevel = 0, sv_recoveries = 0\<rparr>"

record supervisor_input =
  si_proposedSignature :: "string option"
  si_proposedTargets :: "string list"
  si_completedItems :: "string list"
  si_remainingItems :: nat
  si_step :: int
  si_maxSteps :: int
  si_tokensUsed :: int
  si_tokenBudget :: "int option"

datatype basis = By_steps | By_tokens

datatype detection =
    Loop string nat
  | Stagnation nat
  | Context_loss string
  | Budget_low rat basis

datatype directive =
    Continue
  | Recover string
  | Escalate_model string
  | Wind_down string
  | Terminate string

record supervisor_result =
  sr_detections :: "detection list"
  sr_directive :: directive
  sr_state :: supervisor_state

definition push :: "'a list \<Rightarrow> 'a \<Rightarrow> nat \<Rightarrow> 'a list" where
  "push arr v cap =
     (let next = arr @ [v] in if cap < length next then drop (length next - cap) next else next)"

definition trailingRepeats :: "'a list \<Rightarrow> nat" where
  "trailingRepeats window =
     (case rev window of [] \<Rightarrow> 0 | l # _ \<Rightarrow> length (takeWhile (\<lambda>x. x = l) (rev window)))"

text \<open>The mark of a step without tools, and two more characters outside ASCII, as UTF-8 bytes.\<close>

definition no_tools :: string where
  "no_tools = [CHR 0xE2, CHR 0x88, CHR 0x85]"

definition em_dash :: string where
  "em_dash = [CHR 0xE2, CHR 0x80, CHR 0x94]"

definition signature_of :: "supervisor_input \<Rightarrow> string" where
  "signature_of input = (case si_proposedSignature input of None \<Rightarrow> no_tools | Some s \<Rightarrow> s)"

definition detect_loop :: "supervisor_thresholds \<Rightarrow> string \<Rightarrow> string list \<Rightarrow> detection list" where
  "detect_loop t signature actionWindow =
     (if signature \<noteq> no_tools \<and> th_loopThreshold t \<le> trailingRepeats actionWindow
      then [Loop signature (trailingRepeats actionWindow)] else [])"

definition detect_stagnation :: "supervisor_thresholds \<Rightarrow> nat list \<Rightarrow> detection list" where
  "detect_stagnation t progressWindow =
     (let recent = drop (length progressWindow - th_stagnationSteps t) progressWindow in
      if th_stagnationSteps t \<le> length progressWindow \<and> list_all (\<lambda>c. c = hd recent) recent
      then [Stagnation (th_stagnationSteps t)] else [])"

text \<open>The first target with a completed item in it or around it, and the first such item.\<close>

fun context_hit :: "string list \<Rightarrow> string list \<Rightarrow> string option" where
  "context_hit completedLower [] = None"
| "context_hit completedLower (target # targets) =
     (case find (\<lambda>c. 0 < length c \<and> (str_includes c (toLowerCase target) \<or> str_includes (toLowerCase target) c))
             completedLower of
        Some c \<Rightarrow> Some c
      | None \<Rightarrow> context_hit completedLower targets)"

definition detect_context_loss :: "supervisor_input \<Rightarrow> detection list" where
  "detect_context_loss input =
     (case context_hit (map toLowerCase (si_completedItems input)) (si_proposedTargets input) of
        Some item \<Rightarrow> [Context_loss item] | None \<Rightarrow> [])"

definition step_fraction :: "supervisor_input \<Rightarrow> rat" where
  "step_fraction input =
     (if 0 < si_maxSteps input
      then of_int (si_maxSteps input - si_step input) / of_int (si_maxSteps input) else 1)"

definition token_fraction :: "supervisor_input \<Rightarrow> rat" where
  "token_fraction input =
     (case si_tokenBudget input of
        Some budget \<Rightarrow> if 0 < budget then max 0 (of_int (budget - si_tokensUsed input) / of_int budget) else 1
      | None \<Rightarrow> 1)"

definition detect_budget :: "supervisor_thresholds \<Rightarrow> supervisor_input \<Rightarrow> detection list" where
  "detect_budget t input =
     (let fraction = min (step_fraction input) (token_fraction input);
          basis = (if step_fraction input \<le> token_fraction input then By_steps else By_tokens)
      in if fraction < th_budgetHeadroom t \<and> 0 < si_remainingItems input
         then [Budget_low fraction basis] else [])"

definition is_stuck :: "detection \<Rightarrow> bool" where
  "is_stuck d = (case d of Budget_low _ _ \<Rightarrow> False | _ \<Rightarrow> True)"

definition terminalReason :: "detection list \<Rightarrow> string" where
  "terminalReason stuck =
     (case hd stuck of
        Loop _ _ \<Rightarrow> ''loop_unrecovered''
      | Stagnation _ \<Rightarrow> ''stagnation_unrecovered''
      | _ \<Rightarrow> ''context_loss_unrecovered'')"

definition has_loop :: "detection list \<Rightarrow> bool" where
  "has_loop = list_ex (\<lambda>d. case d of Loop _ _ \<Rightarrow> True | _ \<Rightarrow> False)"

definition has_stagnation :: "detection list \<Rightarrow> bool" where
  "has_stagnation = list_ex (\<lambda>d. case d of Stagnation _ \<Rightarrow> True | _ \<Rightarrow> False)"

definition has_context_loss :: "detection list \<Rightarrow> bool" where
  "has_context_loss = list_ex (\<lambda>d. case d of Context_loss _ \<Rightarrow> True | _ \<Rightarrow> False)"

fun join_space :: "string list \<Rightarrow> string" where
  "join_space [] = []"
| "join_space [s] = s"
| "join_space (s # t # ss) = s @ '' '' @ join_space (t # ss)"

definition recoveryNote :: "detection list \<Rightarrow> bool \<Rightarrow> string" where
  "recoveryNote stuck escalated =
     join_space
       ((if has_loop stuck then [''You are repeating the same action without effect.''] else [])
        @ (if has_stagnation stuck then [''Your progress ledger has not advanced for several steps.''] else [])
        @ (if has_context_loss stuck
           then [''You are redoing work your progress ledger already marks as completed.''] else []))
     @ '' '' @
     (if escalated
      then ''A stronger model is now assisting. Re-read your progress ledger, choose a genuinely different approach, and if the goal is already met call run_complete.''
      else ''Stop and re-read your progress ledger. Change your approach '' @ em_dash
        @ '' do not repeat the previous action '' @ em_dash
        @ '' and if the goal is already met call run_complete.'')"

definition budgetNote :: "(int \<Rightarrow> string) \<Rightarrow> supervisor_input \<Rightarrow> string" where
  "budgetNote dec input =
     (let stepsLeft = max 0 (si_maxSteps input - si_step input);
          budget = (case si_tokenBudget input of
                      Some b \<Rightarrow> ''~'' @ dec stepsLeft @ '' steps and ~'' @ dec (b - si_tokensUsed input) @ '' tokens''
                    | None \<Rightarrow> ''~'' @ dec stepsLeft @ '' steps'')
      in ''Budget is running low: '' @ budget @ '' remaining for '' @ dec (int (si_remainingItems input))
         @ '' outstanding item(s). Prioritize the most important remaining work, produce partial results, and call run_complete before the budget is exhausted rather than leaving the run to fail.'')"

definition next_actions :: "supervisor_thresholds \<Rightarrow> supervisor_state \<Rightarrow> supervisor_input \<Rightarrow> string list" where
  "next_actions t state input = push (sv_actionWindow state) (signature_of input) (th_window t)"

definition next_progress :: "supervisor_thresholds \<Rightarrow> supervisor_state \<Rightarrow> supervisor_input \<Rightarrow> nat list" where
  "next_progress t state input =
     push (sv_progressWindow state) (length (si_completedItems input)) (th_window t)"

definition detections_of ::
    "supervisor_thresholds \<Rightarrow> supervisor_state \<Rightarrow> supervisor_input \<Rightarrow> detection list" where
  "detections_of t state input =
     detect_loop t (signature_of input) (next_actions t state input)
     @ detect_stagnation t (next_progress t state input)
     @ detect_context_loss input @ detect_budget t input"

definition evaluate ::
    "(int \<Rightarrow> string) \<Rightarrow> supervisor_thresholds \<Rightarrow> supervisor_state \<Rightarrow> supervisor_input \<Rightarrow> supervisor_result" where
  "evaluate dec t state input =
     (let detections = detections_of t state input;
          stuck = filter is_stuck detections;
          level = sv_escalationLevel state; recoveries = sv_recoveries state;
          result = (\<lambda>directive level' recoveries'.
            \<lparr>sr_detections = detections, sr_directive = directive,
             sr_state = \<lparr>sv_actionWindow = next_actions t state input,
                         sv_progressWindow = next_progress t state input,
                         sv_escalationLevel = level', sv_recoveries = recoveries'\<rparr>\<rparr>)
      in if stuck \<noteq> [] then
           (if th_maxEscalations t \<le> level then result (Terminate (terminalReason stuck)) level recoveries
            else if 1 \<le> recoveries
            then result (Escalate_model (recoveryNote stuck True)) (level + 1) (recoveries + 1)
            else result (Recover (recoveryNote stuck False)) level (recoveries + 1))
         else if detections \<noteq> [] then result (Wind_down (budgetNote dec input)) level 0
         else result Continue level 0)"

section \<open>What feeds it and what it writes\<close>

record tool_call =
  tc_id :: string
  tc_name :: string
  tc_arguments :: "(string \<times> json) list"

fun join_bar :: "string list \<Rightarrow> string" where
  "join_bar [] = []"
| "join_bar [s] = s"
| "join_bar (s # t # ss) = s @ ''|'' @ join_bar (t # ss)"

definition is_blank :: "string \<Rightarrow> bool" where
  "is_blank s = list_all (\<lambda>c. of_char c \<in> {9, 10, 11, 12, 13, 32 :: nat}) s"

text \<open>\<open>stableStringify\<close> is the canonical JSON of \<^verbatim>\<open>src/store/receipts.ts\<close>.\<close>

definition stableStringify :: "(rat \<Rightarrow> string) \<Rightarrow> json \<Rightarrow> string" where
  "stableStringify fmt v = canonicalJson fmt v"

definition actionSignature :: "(rat \<Rightarrow> string) \<Rightarrow> tool_call list \<Rightarrow> string \<times> string list" where
  "actionSignature fmt toolCalls =
     (join_bar (map (\<lambda>c. tc_name c @ ''('' @ stableStringify fmt (JObj (tc_arguments c)) @ '')'') toolCalls),
      concat (map (\<lambda>c. concat (map (\<lambda>(k, v). case v of JStr s \<Rightarrow> if is_blank s then [] else [s] | _ \<Rightarrow> [])
        (tc_arguments c))) toolCalls))"

text \<open>A member of the progress ledger that is not a list counts as an empty one.\<close>

definition ledger_strings :: "json \<Rightarrow> string \<Rightarrow> json list" where
  "ledger_strings progress field =
     (case progress of
        JObj kvs \<Rightarrow> (case map_of kvs field of Some (JArr vs) \<Rightarrow> vs | _ \<Rightarrow> [])
      | _ \<Rightarrow> [])"

definition ledgerCompleted :: "json \<Rightarrow> json list" where
  "ledgerCompleted progress = ledger_strings progress ''completed''"

definition ledgerRemaining :: "json \<Rightarrow> nat" where
  "ledgerRemaining progress =
     length (ledger_strings progress ''active'') + length (ledger_strings progress ''remaining'')"

definition detection_event :: "detection \<Rightarrow> event_type" where
  "detection_event d =
     (case d of
        Loop _ _ \<Rightarrow> LoopDetected
      | Stagnation _ \<Rightarrow> StagnationDetected
      | Context_loss _ \<Rightarrow> ContextLossDetected
      | Budget_low _ _ \<Rightarrow> BudgetPlanUpdated)"

definition detection_payload :: "detection \<Rightarrow> (string \<times> json) list" where
  "detection_payload d =
     (case d of
        Loop s n \<Rightarrow> [(''kind'', JStr ''loop''), (''signature'', JStr s), (''repeats'', jint (int n))]
      | Stagnation n \<Rightarrow> [(''kind'', JStr ''stagnation''), (''steps'', jint (int n))]
      | Context_loss item \<Rightarrow> [(''kind'', JStr ''context_loss''), (''item'', JStr item)]
      | Budget_low f b \<Rightarrow> [(''kind'', JStr ''budget_low''), (''fraction'', JNum f),
          (''basis'', JStr (case b of By_steps \<Rightarrow> ''steps'' | By_tokens \<Rightarrow> ''tokens''))])"

definition append_plain :: "string \<Rightarrow> string \<Rightarrow> event_type \<Rightarrow> (string \<times> json) list \<Rightarrow> unit txn" where
  "append_plain runId attemptId type payload =
     thenT (appendEvent runId type payload (Some attemptId) no_patch) (returnT ())"

definition recordSupervision :: "string \<Rightarrow> string \<Rightarrow> supervisor_result \<Rightarrow> unit txn" where
  "recordSupervision runId attemptId outcome =
     bindT (mapT (\<lambda>d. append_plain runId attemptId (detection_event d) (detection_payload d)) (sr_detections outcome)) (\<lambda>_.
     case sr_directive outcome of
       Escalate_model _ \<Rightarrow>
         thenT (append_plain runId attemptId ModelEscalated
                  [(''escalationLevel'', jint (int (sv_escalationLevel (sr_state outcome))))])
               (append_plain runId attemptId SemanticRecoveryApplied [(''strategy'', JStr ''escalate_model'')])
     | Recover _ \<Rightarrow>
         append_plain runId attemptId SemanticRecoveryApplied [(''strategy'', JStr ''corrective_note'')]
     | _ \<Rightarrow> returnT ())"

section \<open>Models and costs\<close>

definition routeModel :: "string option \<Rightarrow> string option \<Rightarrow> string option \<Rightarrow> string option \<Rightarrow> nat \<Rightarrow> string" where
  "routeModel policyModel policyEscalation arkModel escalationDefault escalationLevel =
     (let base = (case policyModel of Some m \<Rightarrow> m | None \<Rightarrow> (case arkModel of Some m \<Rightarrow> m | None \<Rightarrow> [])) in
      if escalationLevel = 0 then base
      else case policyEscalation of Some m \<Rightarrow> m
           | None \<Rightarrow> (case escalationDefault of Some m \<Rightarrow> m | None \<Rightarrow> base))"

record model_price =
  mp_inputPerMTok :: rat
  mp_outputPerMTok :: rat

definition SEED_2_0_LITE_PRICE :: model_price where
  "SEED_2_0_LITE_PRICE = \<lparr>mp_inputPerMTok = 1 / 4, mp_outputPerMTok = 2\<rparr>"

definition js_round :: "rat \<Rightarrow> int" where
  "js_round x = \<lfloor>x + 1 / 2\<rfloor>"

definition estimateModelCostUsd :: "nat \<Rightarrow> nat \<Rightarrow> model_price \<Rightarrow> rat" where
  "estimateModelCostUsd inputTokens outputTokens price =
     (let cost = of_nat inputTokens / 1000000 * mp_inputPerMTok price
                 + of_nat outputTokens / 1000000 * mp_outputPerMTok price
      in of_int (js_round (cost * 1000000)) / 1000000)"

section \<open>The escalation ladder\<close>

text \<open>The steps of a run, the state threaded through.\<close>

fun supervise ::
    "(int \<Rightarrow> string) \<Rightarrow> supervisor_thresholds \<Rightarrow> supervisor_state \<Rightarrow> supervisor_input list \<Rightarrow>
     directive list \<times> supervisor_state" where
  "supervise dec t state [] = ([], state)"
| "supervise dec t state (input # inputs) =
     (let r = evaluate dec t state input; (ds, state') = supervise dec t (sr_state r) inputs
      in (sr_directive r # ds, state'))"

definition stuck_step :: "supervisor_thresholds \<Rightarrow> supervisor_state \<Rightarrow> supervisor_input \<Rightarrow> bool" where
  "stuck_step t state input \<longleftrightarrow> filter is_stuck (detections_of t state input) \<noteq> []"

lemma evaluate_windows [simp]:
  "sv_actionWindow (sr_state (evaluate dec t state input)) = next_actions t state input"
  "sv_progressWindow (sr_state (evaluate dec t state input)) = next_progress t state input"
  by (simp_all add: evaluate_def Let_def)

text \<open>What each kind of step does to the ladder.\<close>

lemma evaluate_ladder:
  fixes dec t state input
  defines "r \<equiv> evaluate dec t state input"
  shows "\<not> stuck_step t state input \<Longrightarrow>
      sv_escalationLevel (sr_state r) = sv_escalationLevel state \<and> sv_recoveries (sr_state r) = 0
      \<and> (\<forall>n. sr_directive r \<noteq> Escalate_model n \<and> sr_directive r \<noteq> Terminate n)"
    and "stuck_step t state input \<Longrightarrow> th_maxEscalations t \<le> sv_escalationLevel state \<Longrightarrow>
      (\<exists>n. sr_directive r = Terminate n) \<and> sv_escalationLevel (sr_state r) = sv_escalationLevel state
      \<and> sv_recoveries (sr_state r) = sv_recoveries state"
    and "stuck_step t state input \<Longrightarrow> sv_escalationLevel state < th_maxEscalations t \<Longrightarrow> 1 \<le> sv_recoveries state \<Longrightarrow>
      (\<exists>n. sr_directive r = Escalate_model n) \<and> sv_escalationLevel (sr_state r) = sv_escalationLevel state + 1
      \<and> 1 \<le> sv_recoveries (sr_state r)"
    and "stuck_step t state input \<Longrightarrow> sv_escalationLevel state < th_maxEscalations t \<Longrightarrow> sv_recoveries state = 0 \<Longrightarrow>
      (\<exists>n. sr_directive r = Recover n) \<and> sv_escalationLevel (sr_state r) = sv_escalationLevel state
      \<and> 1 \<le> sv_recoveries (sr_state r)"
  by (simp_all add: r_def evaluate_def Let_def stuck_step_def)

definition is_escalation :: "directive \<Rightarrow> bool" where
  "is_escalation d = (case d of Escalate_model _ \<Rightarrow> True | _ \<Rightarrow> False)"

definition is_termination :: "directive \<Rightarrow> bool" where
  "is_termination d = (case d of Terminate _ \<Rightarrow> True | _ \<Rightarrow> False)"

text \<open>However the run goes, the model is escalated at most \<open>maxEscalations\<close> times.\<close>

lemma escalations_bounded:
  "supervise dec t state inputs = (ds, state') \<Longrightarrow> sv_escalationLevel state \<le> th_maxEscalations t \<Longrightarrow>
   sv_escalationLevel state' = sv_escalationLevel state + length (filter is_escalation ds)
   \<and> sv_escalationLevel state' \<le> th_maxEscalations t"
proof (induction inputs arbitrary: state ds)
  case (Cons input inputs)
  let ?r = "evaluate dec t state input"
  obtain ds' where rest: "supervise dec t (sr_state ?r) inputs = (ds', state')" and ds: "ds = sr_directive ?r # ds'"
    using Cons.prems(1) by (auto simp: Let_def split: prod.splits)
  have one: "sv_escalationLevel (sr_state ?r) = sv_escalationLevel state + (if is_escalation (sr_directive ?r) then 1 else 0)
      \<and> sv_escalationLevel (sr_state ?r) \<le> th_maxEscalations t"
    using evaluate_ladder [of t state input dec] Cons.prems(2)
    by (cases "stuck_step t state input"; cases "th_maxEscalations t \<le> sv_escalationLevel state";
        cases "sv_recoveries state") (auto simp: is_escalation_def split: directive.split)
  then show ?case using Cons.IH [OF rest] ds by auto
qed simp

text \<open>How many stuck steps in a row are still possible before the run is terminated.\<close>

definition patience :: "supervisor_thresholds \<Rightarrow> supervisor_state \<Rightarrow> nat" where
  "patience t state = (th_maxEscalations t - sv_escalationLevel state) + (if sv_recoveries state = 0 then 1 else 0)"

fun all_stuck :: "supervisor_thresholds \<Rightarrow> supervisor_state \<Rightarrow> supervisor_input list \<Rightarrow> bool" where
  "all_stuck t state [] = True"
| "all_stuck t state (input # inputs) =
     (stuck_step t state input \<and> all_stuck t (sr_state (evaluate (\<lambda>_. []) t state input)) inputs)"

lemma state_dec: "sr_state (evaluate dec t state input) = sr_state (evaluate dec' t state input)"
  by (simp add: evaluate_def Let_def)

lemma stuck_streak_terminates:
  "all_stuck t state inputs \<Longrightarrow> patience t state < length inputs \<Longrightarrow>
   \<exists>d \<in> set (fst (supervise dec t state inputs)). is_termination d"
proof (induction inputs arbitrary: state)
  case (Cons input inputs)
  let ?r = "evaluate dec t state input"
  have stuck: "stuck_step t state input" and rest: "all_stuck t (sr_state ?r) inputs"
    using Cons.prems(1) state_dec [of dec t state input "\<lambda>_. []"] by simp_all
  show ?case
  proof (cases "th_maxEscalations t \<le> sv_escalationLevel state")
    case True
    then have "is_termination (sr_directive ?r)"
      using evaluate_ladder(2) [OF stuck, of dec] by (auto simp: is_termination_def)
    then show ?thesis by (simp add: Let_def split: prod.split)
  next
    case False
    have "patience t (sr_state ?r) < patience t state"
      using evaluate_ladder(3,4) [OF stuck, of dec] False by (cases "sv_recoveries state") (auto simp: patience_def)
    then have "\<exists>d \<in> set (fst (supervise dec t (sr_state ?r) inputs)). is_termination d"
      using Cons.prems(2) by (intro Cons.IH [OF rest]) simp
    then show ?thesis by (auto simp: Let_def split: prod.split)
  qed
qed simp

text \<open>The window after the same action \<open>k\<close> times.\<close>

lemma takeWhile_replicate: "takeWhile (\<lambda>y. y = x) (replicate n x @ ys) = replicate n x @ takeWhile (\<lambda>y. y = x) ys"
  by (induction n) simp_all

lemma trailing_replicate: "n \<le> trailingRepeats (xs @ replicate n x)"
proof -
  have r: "rev (xs @ replicate n x) = replicate n x @ rev xs" by simp
  show ?thesis unfolding trailingRepeats_def r by (cases n) (simp_all add: takeWhile_replicate)
qed

lemma push_same:
  assumes "window = xs @ replicate n x"
  shows "\<exists>ys. push window x cap = ys @ replicate (min cap (Suc n)) x"
proof -
  let ?all = "xs @ replicate (Suc n) x"
  have all: "window @ [x] = ?all" by (simp add: assms replicate_append_same)
  have "push window x cap = drop (length ?all - cap) ?all"
    by (simp add: push_def Let_def all)
  also have "\<dots> = drop (length ?all - cap) xs @ replicate (min cap (Suc n)) x"
    by (simp add: min_def del: replicate_Suc)
  finally show ?thesis by blast
qed

definition same_action :: "string \<Rightarrow> supervisor_thresholds \<Rightarrow> nat \<Rightarrow> supervisor_state \<Rightarrow> bool" where
  "same_action x t k state \<longleftrightarrow> (\<exists>ys. sv_actionWindow state = ys @ replicate (min (th_window t) k) x)"

lemma same_action_step:
  assumes "same_action x t k state" and "signature_of input = x"
  shows "same_action x t (Suc k) (sr_state (evaluate dec t state input))"
proof -
  obtain ys where "sv_actionWindow state = ys @ replicate (min (th_window t) k) x"
    using assms(1) by (auto simp: same_action_def)
  from push_same [OF this, of "th_window t"] show ?thesis
    by (auto simp: same_action_def next_actions_def assms(2) min_def split: if_splits)
qed

lemma same_action_stuck:
  assumes "same_action x t k state" and "signature_of input = x" and "x \<noteq> no_tools"
    and "th_loopThreshold t \<le> Suc k" and "th_loopThreshold t \<le> th_window t"
  shows "stuck_step t state input"
proof -
  obtain ys where "next_actions t state input = ys @ replicate (min (th_window t) (Suc k)) x"
    using same_action_step [OF assms(1,2)] by (auto simp: same_action_def)
  then have "min (th_window t) (Suc k) \<le> trailingRepeats (next_actions t state input)"
    by (simp only: trailing_replicate)
  then show ?thesis using assms by (auto simp: stuck_step_def detections_of_def detect_loop_def is_stuck_def)
qed

lemma same_action_all_stuck:
  "same_action x t k state \<Longrightarrow> \<forall>input \<in> set inputs. signature_of input = x \<Longrightarrow> x \<noteq> no_tools \<Longrightarrow>
   th_loopThreshold t \<le> Suc k \<Longrightarrow> th_loopThreshold t \<le> th_window t \<Longrightarrow> all_stuck t state inputs"
proof (induction inputs arbitrary: state k)
  case (Cons input inputs)
  then show ?case
    using same_action_stuck [OF Cons.prems(1)] Cons.IH [OF same_action_step [OF Cons.prems(1)]] by simp
qed simp

lemma supervise_append:
  "supervise dec t state (as @ bs) =
     (fst (supervise dec t state as) @ fst (supervise dec t (snd (supervise dec t state as)) bs),
      snd (supervise dec t (snd (supervise dec t state as)) bs))"
  by (induction as arbitrary: state) (simp_all add: Let_def split: prod.split)

lemma supervise_Cons:
  "supervise dec t state (input # inputs) =
     (sr_directive (evaluate dec t state input)
        # fst (supervise dec t (sr_state (evaluate dec t state input)) inputs),
      snd (supervise dec t (sr_state (evaluate dec t state input)) inputs))"
  by (simp add: Let_def split: prod.split)

lemma length_supervise [simp]: "length (fst (supervise dec t state inputs)) = length inputs"
  by (induction inputs arbitrary: state) (simp_all add: supervise_Cons del: supervise.simps(2))

lemma same_action_supervise:
  "same_action x t k state \<Longrightarrow> \<forall>input \<in> set inputs. signature_of input = x \<Longrightarrow>
   same_action x t (k + length inputs) (snd (supervise dec t state inputs))"
proof (induction inputs arbitrary: state k)
  case (Cons input inputs)
  then show ?case using Cons.IH [OF same_action_step [OF Cons.prems(1)]]
    by (simp add: supervise_Cons del: supervise.simps(2))
qed simp

lemma repeated_action_terminates:
  assumes "\<forall>input \<in> set same. signature_of input = x" and "x \<noteq> no_tools"
    and "1 \<le> th_loopThreshold t" and "th_loopThreshold t \<le> th_window t"
    and "length same = th_loopThreshold t + th_maxEscalations t + 1"
  shows "\<exists>d \<in> set (fst (supervise dec t state same)). is_termination d"
proof -
  define firsts rest where "firsts = take (th_loopThreshold t - 1) same" and "rest = drop (th_loopThreshold t - 1) same"
  have same: "same = firsts @ rest" by (simp add: firsts_def rest_def)
  have sub: "\<forall>input \<in> set firsts. signature_of input = x" "\<forall>input \<in> set rest. signature_of input = x"
    using assms(1) set_take_subset [of "th_loopThreshold t - 1" same] set_drop_subset [of "th_loopThreshold t - 1" same]
    by (auto simp: firsts_def rest_def)
  have len: "length firsts = th_loopThreshold t - 1" "length rest = th_maxEscalations t + 2"
    using assms(3,5) by (simp_all add: firsts_def rest_def)
  let ?s = "snd (supervise dec t state firsts)"
  have "same_action x t 0 state" by (simp add: same_action_def)
  then have "same_action x t (length firsts) ?s"
    using same_action_supervise [of x t 0 state firsts dec] sub(1) by simp
  then have "all_stuck t ?s rest"
    by (rule same_action_all_stuck [OF _ sub(2) assms(2)]) (use assms(3,4) len in simp_all)
  moreover have "patience t ?s < length rest" unfolding patience_def len by (auto intro: le_less_trans)
  ultimately have "\<exists>d \<in> set (fst (supervise dec t ?s rest)). is_termination d" by (rule stuck_streak_terminates)
  moreover have "fst (supervise dec t state same) = fst (supervise dec t state firsts) @ fst (supervise dec t ?s rest)"
    unfolding same supervise_append by simp
  ultimately show ?thesis by auto
qed

text \<open>Whatever the windows were before, one step brings them within the bound.\<close>

lemma length_push: "1 \<le> n \<Longrightarrow> length (push xs x n) \<le> n"
  by (auto simp: push_def Let_def)

lemma windows_bounded:
  assumes "1 \<le> th_window t" and "0 < n" and "n \<le> length inputs"
  shows "length (sv_actionWindow (snd (supervise dec t state (take n inputs)))) \<le> th_window t
     \<and> length (sv_progressWindow (snd (supervise dec t state (take n inputs)))) \<le> th_window t"
proof -
  obtain m where n: "n = Suc m" "m < length inputs" using assms(2,3) by (cases n) auto
  then have "take n inputs = take m inputs @ [inputs ! m]" by (simp add: take_Suc_conv_app_nth)
  then show ?thesis
    using assms(1) by (simp add: supervise_append Let_def next_actions_def next_progress_def length_push)
qed

text \<open>
  C30: the ladder is bounded. Over any sequence of evaluated steps, each evaluated in the state
  that the one before it left, the supervisor escalates the model at most \<open>maxEscalations\<close>
  times, and the two windows of its history hold at most \<open>window\<close> entries after every step.
  Such a run cannot spin: as soon as one action is proposed
  \<open>loopThreshold + maxEscalations + 1\<close> times in a row, whatever else the steps show and whatever
  happened before, the supervisor has directed its termination. (A state that is lost between two
  epochs, with the checkpoint that holds it, starts the ladder again.)
\<close>

theorem supervisor_ladder_bounded:
  assumes "supervise dec t state inputs = (ds, state')"
    and "sv_escalationLevel state \<le> th_maxEscalations t"
    and "1 \<le> th_loopThreshold t" and "th_loopThreshold t \<le> th_window t"
  shows "length (filter is_escalation ds) \<le> th_maxEscalations t - sv_escalationLevel state
     \<and> (\<forall>before same after x. inputs = before @ same @ after \<and> x \<noteq> no_tools
          \<and> (\<forall>input \<in> set same. signature_of input = x)
          \<and> length same = th_loopThreshold t + th_maxEscalations t + 1
        \<longrightarrow> (\<exists>d \<in> set (take (length before + length same) ds). is_termination d))
     \<and> (\<forall>n. 0 < n \<and> n \<le> length inputs
        \<longrightarrow> length (sv_actionWindow (snd (supervise dec t state (take n inputs)))) \<le> th_window t
          \<and> length (sv_progressWindow (snd (supervise dec t state (take n inputs)))) \<le> th_window t)"
proof (intro conjI allI impI; (elim conjE)?)
  show "length (filter is_escalation ds) \<le> th_maxEscalations t - sv_escalationLevel state"
    using escalations_bounded [OF assms(1,2)] by linarith
next
  fix before same after x
  assume a: "inputs = before @ same @ after" "x \<noteq> no_tools" "\<forall>input \<in> set same. signature_of input = x"
      "length same = th_loopThreshold t + th_maxEscalations t + 1"
  let ?s = "snd (supervise dec t state before)"
  have "ds = fst (supervise dec t state before) @ fst (supervise dec t ?s same)
      @ fst (supervise dec t (snd (supervise dec t ?s same)) after)"
    using assms(1) a by (simp add: supervise_append)
  then have "take (length before + length same) ds = fst (supervise dec t state before) @ fst (supervise dec t ?s same)"
    by simp
  moreover have "\<exists>d \<in> set (fst (supervise dec t ?s same)). is_termination d"
    using a assms(3,4) by (intro repeated_action_terminates [of same x]) simp_all
  ultimately show "\<exists>d \<in> set (take (length before + length same) ds). is_termination d" by auto
next
  fix n assume "0 < n" "n \<le> length inputs"
  with windows_bounded [of t n inputs dec state] assms(3,4)
  show "length (sv_actionWindow (snd (supervise dec t state (take n inputs)))) \<le> th_window t"
    and "length (sv_progressWindow (snd (supervise dec t state (take n inputs)))) \<le> th_window t"
    by simp_all
qed

definition demo_step :: supervisor_input where
  "demo_step = \<lparr>si_proposedSignature = Some ''bash({})'', si_proposedTargets = [], si_completedItems = [],
     si_remainingItems = 1, si_step = 1, si_maxSteps = 50, si_tokensUsed = 0, si_tokenBudget = None\<rparr>"

theorem supervisor_ladder_bounded_witness:
  "\<exists>ds state'. supervise (\<lambda>_. []) DEFAULT_THRESHOLDS initialSupervisorState (replicate 6 demo_step) = (ds, state')
     \<and> length (filter is_escalation ds) \<le> 2 \<and> (\<exists>d \<in> set ds. is_termination d)"
proof -
  obtain ds state' where run: "supervise (\<lambda>_. []) DEFAULT_THRESHOLDS initialSupervisorState (replicate 6 demo_step) = (ds, state')"
    by (cases "supervise (\<lambda>_. []) DEFAULT_THRESHOLDS initialSupervisorState (replicate 6 demo_step)")
  have parts: "replicate 6 demo_step = [] @ replicate 6 demo_step @ []" by simp
  have sig: "\<forall>input \<in> set (replicate 6 demo_step). signature_of input = ''bash({})''"
    by (simp add: signature_of_def demo_step_def)
  have th: "th_loopThreshold DEFAULT_THRESHOLDS = 3" "th_window DEFAULT_THRESHOLDS = 8"
    "th_maxEscalations DEFAULT_THRESHOLDS = 2" "sv_escalationLevel initialSupervisorState = 0"
    by (simp_all add: DEFAULT_THRESHOLDS_def initialSupervisorState_def)
  have "''bash({})'' \<noteq> no_tools" by (simp add: no_tools_def)
  with sig th parts have "\<exists>d \<in> set (take (length ([] :: supervisor_input list) + length (replicate 6 demo_step)) ds). is_termination d"
    by (intro supervisor_ladder_bounded [OF run, THEN conjunct2, THEN conjunct1, rule_format, of _ _ _ "''bash({})''"]) simp_all
  moreover have "length (filter is_escalation ds) \<le> 2"
    using supervisor_ladder_bounded [OF run] th by simp
  ultimately show ?thesis using run by (auto dest: in_set_takeD)
qed

end
