(* ===== verification/Model_Calls.thy ===== *)
theory Model_Calls
  imports Supervisor Approvals Event_Log Runs Demo
begin

text \<open>
  One model invocation of a run: the hard token budget (\<^verbatim>\<open>src/harness/limits.ts\<close>), the two
  transactions around the provider call (\<^verbatim>\<open>src/store/modelUsage.ts\<close>) and the part of the
  epoch that joins them (\<^verbatim>\<open>src/harness/epoch.ts\<close>). The provider is a parameter: what it returns
  is the usage it reports.
\<close>

section \<open>The token budget\<close>

definition tokenBudgetExceeded :: "world \<Rightarrow> string \<Rightarrow> bool" where
  "tokenBudgetExceeded w rid =
     (case find_run w rid of
        None \<Rightarrow> False
      | Some r \<Rightarrow> (case run_token_budget r of None \<Rightarrow> False | Some b \<Rightarrow> b \<le> run_tokens_used r))"

text \<open>A JavaScript number: finite, or one of NaN and the infinities.\<close>

datatype js_number = Finite rat | Not_finite

definition normalizeRequestedMax :: "js_number option \<Rightarrow> int option" where
  "normalizeRequestedMax v =
     (case v of
        None \<Rightarrow> None
      | Some Not_finite \<Rightarrow> None
      | Some (Finite q) \<Rightarrow> if q \<le> 0 then None else Some \<lfloor>q\<rfloor>)"

definition MAX_SAFE_INTEGER :: int where
  "MAX_SAFE_INTEGER = 9007199254740991"

record invocation_limit =
  il_maxTokens :: int
  il_remaining :: "int option"
  il_inputTokenCeiling :: int

text \<open>\<open>promptBytes\<close> is the byte length of the serialized messages and tools.\<close>

definition limitModelInvocation ::
    "int option \<Rightarrow> int \<Rightarrow> nat \<Rightarrow> js_number option \<Rightarrow> int \<Rightarrow> invocation_limit option" where
  "limitModelInvocation tokenBudget tokensUsed promptBytes requestedMaxTokens defaultMaxTokens =
     (let requested = or_else (normalizeRequestedMax requestedMaxTokens) defaultMaxTokens in
      case tokenBudget of
        None \<Rightarrow> Some \<lparr>il_maxTokens = requested, il_remaining = None, il_inputTokenCeiling = int promptBytes\<rparr>
      | Some budget \<Rightarrow>
          (let remaining = budget - tokensUsed; outputCapacity = remaining - int promptBytes in
           if outputCapacity \<le> 0 then None
           else let bounded = min requested outputCapacity in
                Some \<lparr>il_maxTokens = min bounded MAX_SAFE_INTEGER, il_remaining = Some remaining,
                      il_inputTokenCeiling = int promptBytes\<rparr>))"

section \<open>The transactions around the call\<close>

definition holds_run :: "world \<Rightarrow> string \<Rightarrow> run_row \<Rightarrow> bool" where
  "holds_run w attemptId r \<longleftrightarrow>
     run_status r = RUNNING \<and> run_current_attempt_id r = Some attemptId
     \<and> exists_row (\<lambda>a. att_id a = attemptId \<and> att_run_id a = run_id r \<and> att_state a = AS_ACTIVE) (w_attempts w)"

definition beginModelInvocation :: "string \<Rightarrow> string \<Rightarrow> int \<Rightarrow> run_row option txn" where
  "beginModelInvocation runId attemptId step =
     bindT (getsT (\<lambda>w. find (\<lambda>r. run_id r = runId \<and> holds_run w attemptId r) (w_runs w))) (\<lambda>found.
     case found of
       None \<Rightarrow> returnT None
     | Some run \<Rightarrow>
         thenT (appendEvent runId ModelInvocationStarted [(''step'', jint step)] (Some attemptId) no_patch)
               (returnT (Some run)))"

record model_usage =
  mu_inputTokens :: int
  mu_outputTokens :: int

definition usage_json :: "model_usage \<Rightarrow> json" where
  "usage_json u = JObj [(''inputTokens'', jint (mu_inputTokens u)), (''outputTokens'', jint (mu_outputTokens u))]"

definition completeModelInvocation ::
    "string \<Rightarrow> string \<Rightarrow> int \<Rightarrow> model_usage \<Rightarrow> (int \<times> bool) txn" where
  "completeModelInvocation runId attemptId step usage =
     bindT (getsT (\<lambda>w. find_run w runId)) (\<lambda>found.
     case found of
       None \<Rightarrow> throwT (GenericError ''run missing while recording model usage'')
     | Some run \<Rightarrow>
         (let tokensUsed = run_tokens_used run + (mu_inputTokens usage + mu_outputTokens usage) in
          thenT (appendEvent runId ModelInvocationCompleted [(''step'', jint step), (''usage'', usage_json usage)]
                   (Some attemptId) (no_patch\<lparr>p_tokens_used := Some tokensUsed\<rparr>))
         (bindT (getsT (\<lambda>w. find_attempt w attemptId)) (\<lambda>attempt.
          returnT (tokensUsed,
            run_status run = RUNNING \<and> run_current_attempt_id run = Some attemptId
            \<and> map_option att_state attempt = Some AS_ACTIVE)))))"

section \<open>The invocation\<close>

datatype invocation =
    Lease_lost
  | Budget_exhausted
  | Completed model_usage run_row "int option" bool int

text \<open>
  One invocation under the advisory lock of the run. \<open>prompt w run\<close> is the size of the prompt compiled
  from the database and the run, \<open>chat limit\<close> the usage the provider reports, and \<open>interfere\<close> what other transactions
  commit between the two transactions of the invocation; no other invocation of the run is among
  them, since they all take the same lock.
\<close>

definition invoke_model ::
    "(world \<Rightarrow> run_row \<Rightarrow> nat) \<Rightarrow> js_number option \<Rightarrow> int \<Rightarrow> (invocation_limit \<Rightarrow> err + model_usage) \<Rightarrow> (world \<Rightarrow> world) \<Rightarrow>
     bool \<Rightarrow> string \<Rightarrow> string \<Rightarrow> int \<Rightarrow> world \<Rightarrow> (err + invocation) \<times> world" where
  "invoke_model prompt requestedMax defaultMax chat interfere aborted runId attemptId step w =
     (if aborted then (Inr Lease_lost, w)
      else case commit (beginModelInvocation runId attemptId step) w of
             (Inl e, w1) \<Rightarrow> (Inl e, w1)
           | (Inr None, w1) \<Rightarrow> (Inr Lease_lost, w1)
           | (Inr (Some run), w1) \<Rightarrow>
               (case limitModelInvocation (run_token_budget run) (run_tokens_used run) (prompt w1 run) requestedMax defaultMax of
                  None \<Rightarrow> (Inr Budget_exhausted, w1)
                | Some limit \<Rightarrow>
                    (case chat limit of
                       Inl e \<Rightarrow> (Inl e, interfere w1)
                     | Inr usage \<Rightarrow>
                         (case commit (completeModelInvocation runId attemptId step usage) (interfere w1) of
                            (Inl e, w2) \<Rightarrow> (Inl e, w2)
                          | (Inr (tokensUsed, stillOwned), w2) \<Rightarrow>
                              (Inr (Completed usage run (il_remaining limit) stillOwned tokensUsed), w2)))))"

section \<open>What the prompt is compiled from\<close>

text \<open>\<open>js_string\<close> is \<^verbatim>\<open>String(..)\<close> on values that are neither strings nor null.\<close>

definition message_text :: "(json \<Rightarrow> string) \<Rightarrow> json option \<Rightarrow> string" where
  "message_text js_string m =
     (case m of None \<Rightarrow> [] | Some JNull \<Rightarrow> [] | Some (JStr s) \<Rightarrow> s | Some j \<Rightarrow> js_string j)"

definition unseenUserMessages :: "(json \<Rightarrow> string) \<Rightarrow> world \<Rightarrow> string \<Rightarrow> string list" where
  "unseenUserMessages js_string w rid =
     map (\<lambda>e. message_text js_string (jfield (ev_payload e) ''message''))
       (filter (\<lambda>e. ev_type e = UserMessageReceived) (listEvents w rid 0 1000))"

definition recentApprovalOutcomes :: "world \<Rightarrow> string \<Rightarrow> (string \<times> approval_status) list" where
  "recentApprovalOutcomes w rid =
     map (\<lambda>a. (sa_action (ap_action a) @ '' on '' @ sa_resource (ap_action a), ap_status a))
       (filter (\<lambda>a. ap_status a \<noteq> AP_PENDING) (listApprovals w rid None))"

section \<open>Frame and invariants\<close>

lemma beginModelInvocation_kernel_from [hoare_rules]:
  "keeps (kernel_from w0) (beginModelInvocation rid aid step)"
  unfolding beginModelInvocation_def by (intro hoare_rules)

lemma completeModelInvocation_kernel_from [hoare_rules]:
  "keeps (kernel_from w0) (completeModelInvocation rid aid step usage)"
  unfolding completeModelInvocation_def Let_def by (intro hoare_rules)

section \<open>The hard budget\<close>

text \<open>The run and what it has used of which budget.\<close>

definition budget_state :: "world \<Rightarrow> string \<Rightarrow> (int option \<times> int) option" where
  "budget_state w rid = map_option (\<lambda>r. (run_token_budget r, run_tokens_used r)) (find_run w rid)"

lemma budget_state_append:
  assumes "appendEvent rid type payload attempt patch w = Inr (seq, w')"
  shows "budget_state w' rid =
    map_option (\<lambda>(b, u). (b, case p_tokens_used patch of None \<Rightarrow> u | Some x \<Rightarrow> x)) (budget_state w rid)"
proof -
  from assms obtain r where r: "find_run w rid = Some r"
    and w': "w' = log_event (new_event rid seq type payload attempt (w_now w)) (append_row patch seq (w_now w)) w"
    by (auto simp: appendEvent_iff)
  show ?thesis
    using r find_run_id [OF r] by (simp add: w' budget_state_def find_run_log_event append_row_def)
qed

lemma budget_state_no_patch:
  "appendEvent rid type payload attempt no_patch w = Inr (seq, w') \<Longrightarrow> budget_state w' rid = budget_state w rid"
  by (drule budget_state_append) (simp add: no_patch_def option.map_id split_beta)

lemma beginModelInvocation_iff:
  "beginModelInvocation rid aid step w = Inr (found, w') \<longleftrightarrow>
     found = find (\<lambda>r. run_id r = rid \<and> holds_run w aid r) (w_runs w)
     \<and> (case found of None \<Rightarrow> w' = w
        | Some run \<Rightarrow> \<exists>seq. appendEvent rid ModelInvocationStarted [(''step'', jint step)] (Some aid) no_patch w = Inr (seq, w'))"
  by (auto simp: beginModelInvocation_def tx_simps split: option.splits)

lemma beginModelInvocation_budget:
  assumes "beginModelInvocation rid aid step w = Inr (found, w')"
  shows "budget_state w' rid = budget_state w rid"
  using assms by (cases found) (auto simp: beginModelInvocation_iff dest: budget_state_no_patch)

lemma beginModelInvocation_run:
  assumes "ledger_ok w" and "beginModelInvocation rid aid step w = Inr (Some run, w')"
  shows "find_run w rid = Some run \<and> holds_run w aid run"
proof -
  from assms(2) have "find (\<lambda>r. run_id r = rid \<and> holds_run w aid r) (w_runs w) = Some run"
    by (simp add: beginModelInvocation_iff)
  from find_SomeD [OF this] assms(1) show ?thesis by (simp add: find_run_iff)
qed

lemma completeModelInvocation_iff:
  "completeModelInvocation rid aid step usage w = Inr ((tokens, owned), w') \<longleftrightarrow>
     (\<exists>run seq. find_run w rid = Some run
        \<and> tokens = run_tokens_used run + (mu_inputTokens usage + mu_outputTokens usage)
        \<and> appendEvent rid ModelInvocationCompleted [(''step'', jint step), (''usage'', usage_json usage)]
              (Some aid) (no_patch\<lparr>p_tokens_used := Some tokens\<rparr>) w = Inr (seq, w')
        \<and> owned = (run_status run = RUNNING \<and> run_current_attempt_id run = Some aid
                   \<and> map_option att_state (find_attempt w' aid) = Some AS_ACTIVE))"
  by (cases "find_run w rid") (auto simp: completeModelInvocation_def Let_def tx_simps)

lemma completeModelInvocation_budget:
  assumes "completeModelInvocation rid aid step usage w = Inr ((tokens, owned), w')"
    and "budget_state w rid = Some (b, u)"
  shows "tokens = u + (mu_inputTokens usage + mu_outputTokens usage) \<and> budget_state w' rid = Some (b, tokens)"
proof -
  from assms(1) obtain run seq where run: "find_run w rid = Some run"
    and tokens: "tokens = run_tokens_used run + (mu_inputTokens usage + mu_outputTokens usage)"
    and app: "appendEvent rid ModelInvocationCompleted [(''step'', jint step), (''usage'', usage_json usage)]
              (Some aid) (no_patch\<lparr>p_tokens_used := Some tokens\<rparr>) w = Inr (seq, w')"
    by (auto simp: completeModelInvocation_iff)
  show ?thesis using budget_state_append [OF app] run tokens assms(2) by (simp add: budget_state_def)
qed

lemma completeModelInvocation_commits:
  assumes "ledger_ok w" and "find_run w rid = Some run"
  shows "\<exists>tokens owned w'. completeModelInvocation rid aid step usage w = Inr ((tokens, owned), w')"
proof -
  let ?tokens = "run_tokens_used run + (mu_inputTokens usage + mu_outputTokens usage)"
  have "\<exists>seq w'. appendEvent rid ModelInvocationCompleted [(''step'', jint step), (''usage'', usage_json usage)]
              (Some aid) (no_patch\<lparr>p_tokens_used := Some ?tokens\<rparr>) w = Inr (seq, w')"
    using next_seq_free [OF assms] assms(2) by (auto simp: appendEvent_iff)
  with assms(2) show ?thesis unfolding completeModelInvocation_iff by blast
qed

lemma limitModelInvocation_None:
  "limitModelInvocation (Some b) u bytes req def = None \<longleftrightarrow> b - u \<le> int bytes"
  by (auto simp: limitModelInvocation_def Let_def)

lemma limitModelInvocation_Some:
  "limitModelInvocation (Some b) u bytes req def = Some limit \<Longrightarrow>
   il_remaining limit = Some (b - u) \<and> il_inputTokenCeiling limit = int bytes
   \<and> il_inputTokenCeiling limit + il_maxTokens limit \<le> b - u"
  by (auto simp: limitModelInvocation_def Let_def split: if_splits)

text \<open>
  C31: the token budget of a run is a hard ceiling. Invocations of a run are serialized by the
  advisory lock, so the transactions that commit between the two of one invocation leave the usage
  alone; the provider reports no more input than the byte length of the prompt and no more output
  than it was capped at. Then whatever the invocation ends in, a run that was within its budget is
  within its budget, usage is recorded in full even when the lease was lost meanwhile, nothing is
  recorded when nothing was reported, and the invocation is refused exactly when the prompt does
  not fit into what is left.
\<close>

theorem invocation_within_budget:
  assumes "kernel_ok w" and "\<And>v. kernel_ok v \<Longrightarrow> kernel_ok (interfere v)"
    and "\<And>v. budget_state (interfere v) rid = budget_state v rid"
    and "\<And>limit usage. chat limit = Inr usage \<Longrightarrow>
           mu_inputTokens usage \<le> il_inputTokenCeiling limit \<and> mu_outputTokens usage \<le> il_maxTokens limit"
    and "budget_state w rid = Some (Some b, u)" and "u \<le> b"
    and "invoke_model prompt req def chat interfere aborted rid aid step w = (outcome, w')"
  shows "kernel_ok w' \<and> (\<exists>u'. budget_state w' rid = Some (Some b, u') \<and> u' \<le> b \<and>
     (case outcome of
        Inr (Completed usage run remaining owned tokens) \<Rightarrow>
          u' = u + mu_inputTokens usage + mu_outputTokens usage \<and> tokens = u' \<and> remaining = Some (b - u)
      | Inr Budget_exhausted \<Rightarrow> u' = u \<and> (\<exists>w1 run. find_run w rid = Some run \<and> b - u \<le> int (prompt w1 run))
      | _ \<Rightarrow> u' = u))"
proof (cases "aborted \<or> (\<forall>found w1. beginModelInvocation rid aid step w \<noteq> Inr (found, w1))
    \<or> (\<exists>w1. beginModelInvocation rid aid step w = Inr (None, w1))")
  case True
  then have "w' = w \<and> (\<forall>run. outcome \<noteq> Inr Budget_exhausted) \<and> (\<forall>x y z o' t. outcome \<noteq> Inr (Completed x y z o' t))"
    using assms(7) by (auto simp: invoke_model_def commit_def beginModelInvocation_iff split: if_splits sum.splits)
  with assms(1,5,6) show ?thesis by (auto split: sum.splits invocation.splits)
next
  case False
  then obtain run w1 where started: "beginModelInvocation rid aid step w = Inr (Some run, w1)" and "\<not> aborted"
    by (metis not_None_eq)
  have ok1: "kernel_ok w1"
    using keeps_kernel_fromD [OF beginModelInvocation_kernel_from assms(1) started] by blast
  have run: "find_run w rid = Some run" using beginModelInvocation_run [OF _ started] assms(1) by blast
  with assms(5) have fields: "run_token_budget run = Some b" "run_tokens_used run = u"
    by (simp_all add: budget_state_def)
  have b1: "budget_state w1 rid = Some (Some b, u)" using beginModelInvocation_budget [OF started] assms(5) by simp
  show ?thesis
  proof (cases "limitModelInvocation (Some b) u (prompt w1 run) req def")
    case None
    then have "outcome = Inr Budget_exhausted \<and> w' = w1"
      using assms(7) started \<open>\<not> aborted\<close> by (simp add: invoke_model_def commit_def fields)
    moreover from None have "b - u \<le> int (prompt w1 run)" by (simp only: limitModelInvocation_None)
    ultimately show ?thesis using ok1 b1 assms(6) run by auto
  next
    case (Some limit)
    note limit = limitModelInvocation_Some [OF Some]
    show ?thesis
    proof (cases "chat limit")
      case (Inl e)
      then have "outcome = Inl e \<and> w' = interfere w1"
        using assms(7) started \<open>\<not> aborted\<close> Some by (simp add: invoke_model_def commit_def fields)
      with assms(2) [OF ok1] assms(3,6) b1 show ?thesis by simp
    next
      case (Inr usage)
      let ?v = "interfere w1"
      have ok: "kernel_ok ?v" by (rule assms(2) [OF ok1])
      have bv: "budget_state ?v rid = Some (Some b, u)" using assms(3) b1 by simp
      then obtain r where "find_run ?v rid = Some r" by (auto simp: budget_state_def)
      then obtain tokens owned w2 where complete: "completeModelInvocation rid aid step usage ?v = Inr ((tokens, owned), w2)"
        using completeModelInvocation_commits ok by blast
      then have res: "outcome = Inr (Completed usage run (il_remaining limit) owned tokens) \<and> w' = w2"
        using assms(7) started \<open>\<not> aborted\<close> Some Inr by (simp add: invoke_model_def commit_def fields)
      have "kernel_ok w2"
        using keeps_kernel_fromD [OF completeModelInvocation_kernel_from ok complete] by blast
      moreover note completeModelInvocation_budget [OF complete bv]
      ultimately show ?thesis using res limit assms(4) [OF Inr] by auto
    qed
  qed
qed


definition greedy :: "invocation_limit \<Rightarrow> err + model_usage" where
  "greedy limit = Inr \<lparr>mu_inputTokens = il_inputTokenCeiling limit, mu_outputTokens = il_maxTokens limit\<rparr>"

lemma demo_invocation:
  "\<exists>usage run owned w'. invoke_model (\<lambda>_ _. 100) None 1000 greedy id False ''run_1'' ''att_1'' 1 (demo_world RUNNING)
     = (Inr (Completed usage run (Some 5000) owned 1100), w')"
  by (simp add: invoke_model_def commit_def greedy_def limitModelInvocation_def normalizeRequestedMax_def
      MAX_SAFE_INTEGER_def beginModelInvocation_def completeModelInvocation_def appendEvent_def lockRun_def
      insertEvent_def tx_eval Let_def holds_run_def exists_row_def demo_attempt_def demo_run_def find_run_def
      update_where_def append_row_def no_patch_def)

theorem invocation_within_budget_witness:
  "\<exists>usage run owned w'. invoke_model (\<lambda>_ _. 100) None 1000 greedy id False ''run_1'' ''att_1'' 1 (demo_world RUNNING)
     = (Inr (Completed usage run (Some 5000) owned 1100), w') \<and> budget_state w' ''run_1'' = Some (Some 5000, 1100)"
proof -
  obtain usage run owned w' where run: "invoke_model (\<lambda>_ _. 100) None 1000 greedy id False ''run_1'' ''att_1'' 1 (demo_world RUNNING)
     = (Inr (Completed usage run (Some 5000) owned 1100), w')" using demo_invocation by blast
  have "budget_state (demo_world RUNNING) ''run_1'' = Some (Some 5000, 0)"
    by (simp add: budget_state_def demo_run_def)
  from invocation_within_budget [OF _ _ _ _ this _ run]
  have "budget_state w' ''run_1'' = Some (Some 5000, 1100)" by (auto simp: greedy_def)
  with run show ?thesis by blast
qed

section \<open>The first thousand events\<close>

text \<open>
  The messages a prompt is compiled from are those among the first thousand events of the run: a
  message that arrives later is never shown to the model.
\<close>

lemma listEvents_full:
  assumes "ledger_ok w" and "find_run w rid = Some run" and "0 \<le> a" and "a + int n \<le> run_last_event_seq run"
    and "appendEvent rid type payload attempt patch w = Inr (seq, w')" and "ledger_ok w'"
  shows "listEvents w' rid a n = listEvents w rid a n"
proof -
  let ?mine = "filter (\<lambda>e. ev_run_id e = rid)" and ?later = "filter (\<lambda>e. a < ev_seq e)"
  from assms(2,5) have w': "w' = log_event (new_event rid seq type payload attempt (w_now w))
       (append_row patch seq (w_now w)) w" and seq: "seq = run_last_event_seq run + 1"
    by (auto simp: appendEvent_iff)
  have g: "map ev_seq (?mine (w_events w)) = [1..run_last_event_seq run]"
    using assms(1,2) by (auto simp: find_run_iff ledger_ok_def gapless_def)
  have g': "map ev_seq (?mine (w_events w')) = [1..seq]"
    using g seq assms(3,4) by (simp add: w' upto_rec2)
  have "length (?later (?mine (w_events w))) = length (filter (\<lambda>q. a < q) (map ev_seq (?mine (w_events w))))"
    by (simp add: filter_map comp_def)
  then have "n \<le> length (?later (?mine (w_events w)))"
    using assms(3,4) unfolding g filter_upto [OF assms(3)] by simp
  moreover have "?later (?mine (w_events w')) = ?later (?mine (w_events w)) @ ?later [new_event rid seq type payload attempt (w_now w)]"
    by (simp add: w')
  ultimately show ?thesis
    unfolding listEvents_def sorted_gapless_filter [OF g] sorted_gapless_filter [OF g'] by simp
qed

lemma unseen_after_thousand:
  assumes "kernel_ok w" and "find_run w rid = Some run" and "1000 \<le> run_last_event_seq run"
    and "appendEvent rid UserMessageReceived payload attempt no_patch w = Inr (seq, w')"
  shows "unseenUserMessages js w' rid = unseenUserMessages js w rid"
proof -
  have "kernel_ok w'" by (rule keeps_kernel_fromD(1) [OF appendEvent_kernel_from assms(1,4)])
  then have "listEvents w' rid 0 1000 = listEvents w rid 0 1000"
    using assms by (intro listEvents_full) auto
  then show ?thesis by (simp add: unseenUserMessages_def)
qed

end
