(* ===== verification/Ip_Address.thy ===== *)
theory Ip_Address
  imports Prelude "HOL-Library.Word"
begin

text \<open>
  Internet addresses as the runtime's egress policy sees them: the text formats that
  \<^verbatim>\<open>isIP\<close> of \<^verbatim>\<open>node:net\<close> accepts, read as machine words, and its \<^verbatim>\<open>BlockList\<close> of
  addresses and networks.
\<close>

section \<open>Splitting\<close>

fun split_on :: "char \<Rightarrow> string \<Rightarrow> string list" where
  "split_on d [] = [[]]"
| "split_on d (c # s) =
     (if c = d then [] # split_on d s
      else case split_on d s of [] \<Rightarrow> [[c]] | piece # pieces \<Rightarrow> (c # piece) # pieces)"

text \<open>What stands before and after the first occurrence of a separator.\<close>

fun break_at :: "string \<Rightarrow> string \<Rightarrow> (string \<times> string) option" where
  "break_at sep [] = (if sep = [] then Some ([], []) else None)"
| "break_at sep (c # s) =
     (if startsWith (c # s) sep then Some ([], drop (length sep) (c # s))
      else map_option (\<lambda>(a, b). (c # a, b)) (break_at sep s))"

section \<open>Addresses\<close>

datatype ip = V4 "32 word" | V6 "128 word"

definition code_of :: "char \<Rightarrow> int" where
  "code_of c = of_char c"

definition is_digit :: "char \<Rightarrow> bool" where
  "is_digit c \<longleftrightarrow> 48 \<le> code_of c \<and> code_of c \<le> 57"

definition hex_value :: "char \<Rightarrow> int option" where
  "hex_value c =
     (let n = code_of c in
      if 48 \<le> n \<and> n \<le> 57 then Some (n - 48)
      else if 65 \<le> n \<and> n \<le> 70 then Some (n - 55)
      else if 97 \<le> n \<and> n \<le> 102 then Some (n - 87)
      else None)"

text \<open>A decimal number up to 255 without leading zeros.\<close>

definition octet :: "string \<Rightarrow> int option" where
  "octet s =
     (let n = foldl (\<lambda>n c. 10 * n + (code_of c - 48)) 0 s in
      if s \<noteq> [] \<and> length s \<le> 3 \<and> list_all is_digit s \<and> (length s = 1 \<or> hd s \<noteq> CHR ''0'') \<and> n \<le> 255
      then Some n else None)"

definition parse_v4 :: "string \<Rightarrow> int option" where
  "parse_v4 s =
     (case map octet (split_on CHR ''.'' s) of
        [Some a, Some b, Some c, Some d] \<Rightarrow> Some (((a * 256 + b) * 256 + c) * 256 + d)
      | _ \<Rightarrow> None)"

text \<open>One to four hexadecimal digits.\<close>

definition hextet :: "string \<Rightarrow> int option" where
  "hextet s =
     (if s \<noteq> [] \<and> length s \<le> 4 \<and> list_all (\<lambda>c. hex_value c \<noteq> None) s
      then Some (foldl (\<lambda>n c. 16 * n + the (hex_value c)) 0 s) else None)"

text \<open>Groups between colons; the last one of the address may be a dotted IPv4 address.\<close>

fun hextets :: "bool \<Rightarrow> string list \<Rightarrow> int list option" where
  "hextets v4 [] = Some []"
| "hextets v4 [s] =
     (case hextet s of
        Some n \<Rightarrow> Some [n]
      | None \<Rightarrow> if v4 then map_option (\<lambda>n. [n div 65536, n mod 65536]) (parse_v4 s) else None)"
| "hextets v4 (s # t # ss) =
     (case (hextet s, hextets v4 (t # ss)) of (Some n, Some ns) \<Rightarrow> Some (n # ns) | _ \<Rightarrow> None)"

definition groups :: "bool \<Rightarrow> string \<Rightarrow> int list option" where
  "groups v4 s = (if s = [] then Some [] else hextets v4 (split_on CHR '':'' s))"

definition of_groups :: "int list \<Rightarrow> int" where
  "of_groups ns = foldl (\<lambda>n g. 65536 * n + g) 0 ns"

definition parse_v6_groups :: "string \<Rightarrow> int option" where
  "parse_v6_groups s =
     (case break_at ''::'' s of
        None \<Rightarrow> (case groups True s of
                   Some ns \<Rightarrow> if length ns = 8 then Some (of_groups ns) else None
                 | None \<Rightarrow> None)
      | Some (front, back) \<Rightarrow>
          (case (groups False front, groups True back) of
             (Some ns, Some ms) \<Rightarrow>
               if length ns + length ms \<le> 7
               then Some (of_groups (ns @ replicate (8 - length ns - length ms) 0 @ ms)) else None
           | _ \<Rightarrow> None))"

definition zone_char :: "char \<Rightarrow> bool" where
  "zone_char c \<longleftrightarrow>
     is_digit c \<or> (let n = code_of c in 65 \<le> n \<and> n \<le> 90 \<or> 97 \<le> n \<and> n \<le> 122)
     \<or> c \<in> {CHR ''-'', CHR ''.'', CHR '':''}"

text \<open>A zone (\<^verbatim>\<open>%eth0\<close>) is accepted and does not change the address.\<close>

definition parse_v6 :: "string \<Rightarrow> int option" where
  "parse_v6 s =
     (case break_at ''%'' s of
        None \<Rightarrow> parse_v6_groups s
      | Some (addr, zone) \<Rightarrow> if zone \<noteq> [] \<and> list_all zone_char zone then parse_v6_groups addr else None)"

definition parse_ip :: "string \<Rightarrow> ip option" where
  "parse_ip s =
     (case parse_v4 s of
        Some n \<Rightarrow> Some (V4 (word_of_int n))
      | None \<Rightarrow> map_option (\<lambda>n. V6 (word_of_int n)) (parse_v6 s))"

definition family_of :: "ip \<Rightarrow> nat" where
  "family_of a = (case a of V4 _ \<Rightarrow> 4 | V6 _ \<Rightarrow> 6)"

definition isIP :: "string \<Rightarrow> nat" where
  "isIP s = (case parse_ip s of None \<Rightarrow> 0 | Some a \<Rightarrow> family_of a)"

section \<open>Block lists\<close>

definition in_net :: "'a::len word \<Rightarrow> nat \<Rightarrow> 'a word \<Rightarrow> bool" where
  "in_net net prefix a \<longleftrightarrow>
     drop_bit (LENGTH('a) - prefix) net = drop_bit (LENGTH('a) - prefix) a"

definition mapped :: "32 word \<Rightarrow> 128 word" where
  "mapped a = 281470681743360 + ucast a"

datatype rule = Address ip | Subnet ip nat

text \<open>An IPv4 rule also applies to the IPv4-mapped form of an IPv6 address, and the other way round.\<close>

fun rule_matches :: "ip \<Rightarrow> rule \<Rightarrow> bool" where
  "rule_matches (V4 a) (Address (V4 x)) = (a = x)"
| "rule_matches (V6 a) (Address (V6 x)) = (a = x)"
| "rule_matches (V6 a) (Address (V4 x)) = (a = mapped x)"
| "rule_matches (V4 a) (Address (V6 x)) = (mapped a = x)"
| "rule_matches (V4 a) (Subnet (V4 x) p) = in_net x p a"
| "rule_matches (V6 a) (Subnet (V6 x) p) = in_net x p a"
| "rule_matches (V6 a) (Subnet (V4 x) p) = (in_net (mapped 0) 96 a \<and> in_net x p (ucast a))"
| "rule_matches (V4 a) (Subnet (V6 x) p) = in_net x p (mapped a)"

definition block_check :: "rule list \<Rightarrow> ip \<Rightarrow> bool" where
  "block_check rules a \<longleftrightarrow> list_ex (rule_matches a) rules"

definition subnet_rules :: "(string \<times> nat) list \<Rightarrow> rule list" where
  "subnet_rules nets = map (\<lambda>(net, prefix). Subnet (the (parse_ip net)) prefix) nets"

section \<open>Networks as ranges\<close>

lemma in_net_range:
  fixes net a :: "'a::len word"
  assumes "prefix \<le> LENGTH('a)" and "take_bit (LENGTH('a) - prefix) net = 0"
  shows "in_net net prefix a \<longleftrightarrow> unat net \<le> unat a \<and> unat a < unat net + 2 ^ (LENGTH('a) - prefix)"
proof -
  let ?k = "LENGTH('a) - prefix"
  have "in_net net prefix a \<longleftrightarrow> unat net div 2 ^ ?k = unat a div 2 ^ ?k"
    by (simp only: in_net_def word_unat_eq_iff unat_drop_bit_eq) (simp only: drop_bit_eq_div)
  moreover have "unat net mod 2 ^ ?k = 0"
    using assms(2) by (simp only: word_unat_eq_iff unsigned_take_bit_eq unat_0) (simp only: take_bit_eq_mod)
  then have "unat net = 2 ^ ?k * (unat net div 2 ^ ?k)" by (metis add.right_neutral mult_div_mod_eq)
  moreover have "unat a div 2 ^ ?k = m \<longleftrightarrow> 2 ^ ?k * m \<le> unat a \<and> unat a < 2 ^ ?k * m + 2 ^ ?k" for m
  proof -
    have "0 < (2::nat) ^ ?k" by simp
    then show ?thesis
      by (metis (no_types, lifting) add.commute div_nat_eqI div_times_less_eq_dividend dividend_less_div_times
          mult.commute mult_Suc_right)
  qed
  ultimately show ?thesis by metis
qed

end
