(* ===== verification/Safe_Http.thy ===== *)
theory Safe_Http
  imports Ip_Address
begin

text \<open>
  The outbound HTTP client of the tools, \<^verbatim>\<open>src/net/safeHttp.ts\<close>: the egress policy on origins
  and addresses, the redirect loop and the proxy hop.

  The network is an environment: a state \<open>'w\<close> with the clock, name resolution and the exchange
  of one request on it. URL parsing is the runtime's; its functions are parameters, and a URL is
  the record of the getters that the client reads.
\<close>

section \<open>Policies and requests\<close>

record url =
  url_href :: string
  url_protocol :: string
  url_hostname :: string
  url_port :: string
  url_origin :: string
  url_username :: string
  url_password :: string

record url_parser =
  up_parse :: "string \<Rightarrow> url option"                       \<comment> \<open>\<open>new URL(raw)\<close>\<close>
  up_relative :: "string \<Rightarrow> url \<Rightarrow> string option"         \<comment> \<open>\<open>new URL(location, base).toString()\<close>\<close>

record egress_policy =
  pol_allowedOrigins :: "string list"
  pol_proxyUrl :: "string option"
  pol_connectTimeoutMs :: int
  pol_totalTimeoutMs :: int
  pol_maxRedirects :: nat
  pol_maxResponseBytes :: nat

record http_request =
  rq_url :: string
  rq_method :: string
  rq_headers :: "(string \<times> string) list"
  rq_body :: "string option"
  rq_privateOrigins :: "string list"

record http_response =
  rs_status :: nat
  rs_headers :: "(string \<times> string) list"
  rs_body :: string
  rs_redirects :: nat

text \<open>One request on the wire: the URL whose host and port are used, and the address connected to.\<close>

record connection =
  co_url :: url
  co_address :: string
  co_family :: nat
  co_method :: string
  co_headers :: "(string \<times> string) list"
  co_body :: "string option"
  co_connectTimeoutMs :: int
  co_totalTimeoutMs :: int

text \<open>What the wire answers: an error, or the status, the headers and the chunks of the body.\<close>

record 'w network =
  net_now :: "'w \<Rightarrow> int \<times> 'w"
  net_resolve :: "string \<Rightarrow> int \<Rightarrow> 'w \<Rightarrow> (string + (string \<times> nat) list) \<times> 'w"
  net_exchange :: "connection \<Rightarrow> 'w \<Rightarrow> (string + nat \<times> (string \<times> string list) list \<times> string list) \<times> 'w"
  net_aborted :: "'w \<Rightarrow> string option"

section \<open>Addresses\<close>

definition blockedIpv4 :: "rule list" where
  "blockedIpv4 = subnet_rules
     [(''0.0.0.0'', 8), (''10.0.0.0'', 8), (''100.64.0.0'', 10), (''127.0.0.0'', 8), (''169.254.0.0'', 16),
      (''172.16.0.0'', 12), (''192.0.0.0'', 24), (''192.0.2.0'', 24), (''192.88.99.0'', 24),
      (''192.168.0.0'', 16), (''198.18.0.0'', 15), (''198.51.100.0'', 24), (''203.0.113.0'', 24),
      (''224.0.0.0'', 4), (''240.0.0.0'', 4)]"

definition blockedIpv6 :: "rule list" where
  "blockedIpv6 = subnet_rules
     [(''::'', 96), (''::ffff:0:0'', 96), (''64:ff9b:1::'', 48), (''100::'', 64), (''2001::'', 23),
      (''2002::'', 16), (''3fff::'', 20), (''5f00::'', 16), (''fc00::'', 7), (''fe80::'', 10), (''fec0::'', 10),
      (''ff00::'', 8), (''2001:db8::'', 32)]"

definition privateIpv4 :: "rule list" where
  "privateIpv4 = subnet_rules [(''10.0.0.0'', 8), (''172.16.0.0'', 12), (''192.168.0.0'', 16)]"

definition privateIpv6 :: "rule list" where
  "privateIpv6 = subnet_rules [(''fc00::'', 7)]"

definition knownMetadataAddresses :: "rule list" where
  "knownMetadataAddresses =
     map (\<lambda>s. Address (the (parse_ip s))) [''169.254.169.254'', ''100.100.100.200'', ''fd00:ec2::254'']"

definition loopbackIpv4 :: "rule list" where
  "loopbackIpv4 = subnet_rules [(''127.0.0.0'', 8)]"

definition isLoopbackAddress :: "string \<Rightarrow> bool" where
  "isLoopbackAddress address =
     (case parse_ip address of
        Some (V4 a) \<Rightarrow> block_check loopbackIpv4 (V4 a)
      | Some (V6 _) \<Rightarrow> address = ''::1''
      | None \<Rightarrow> False)"

definition unbracket :: "string \<Rightarrow> string" where
  "unbracket s = butlast (tl s)"

definition denied_address :: "ip \<Rightarrow> bool" where
  "denied_address a = (case a of V4 _ \<Rightarrow> block_check blockedIpv4 a | V6 _ \<Rightarrow> block_check blockedIpv6 a)"

text \<open>\<open>assertPublicAddress\<close>: the error it throws, if any.\<close>

definition assertPublicAddress :: "string \<Rightarrow> string + unit" where
  "assertPublicAddress rawAddress =
     (let address = (if startsWith rawAddress ''['' \<and> endsWith rawAddress '']'' then unbracket rawAddress
                     else rawAddress) in
      case parse_ip address of
        None \<Rightarrow> Inl ''resolved address is invalid''
      | Some a \<Rightarrow> if denied_address a then Inl ''destination address is not permitted by egress policy''
                  else Inr ())"

definition isOrdinaryPrivateAddress :: "string \<Rightarrow> bool" where
  "isOrdinaryPrivateAddress address =
     (case parse_ip address of
        Some (V4 a) \<Rightarrow> block_check privateIpv4 (V4 a)
      | Some (V6 a) \<Rightarrow> block_check privateIpv6 (V6 a)
      | None \<Rightarrow> False)"

definition normalizedHostname :: "url \<Rightarrow> string" where
  "normalizedHostname u = (if startsWith (url_hostname u) ''['' then unbracket (url_hostname u) else url_hostname u)"

definition literalAddressGrant :: "url \<Rightarrow> string \<Rightarrow> bool" where
  "literalAddressGrant u address \<longleftrightarrow>
     isIP (normalizedHostname u) \<noteq> 0 \<and> toLowerCase (normalizedHostname u) = toLowerCase address"

definition knownMetadata :: "string \<Rightarrow> bool" where
  "knownMetadata address =
     (case parse_ip address of None \<Rightarrow> False | Some a \<Rightarrow> block_check knownMetadataAddresses a)"

definition assertAddressAllowed :: "url \<Rightarrow> string \<Rightarrow> bool \<Rightarrow> string + unit" where
  "assertAddressAllowed u address allowPrivate =
     (case assertPublicAddress address of
        Inr _ \<Rightarrow> Inr ()
      | Inl e \<Rightarrow>
          if \<not> allowPrivate then Inl e
          else if \<not> knownMetadata address \<and> isOrdinaryPrivateAddress address then Inr ()
          else if literalAddressGrant u address then Inr ()
          else Inl ''restricted destination address requires an exact literal-address origin grant'')"

section \<open>Origins and headers\<close>

definition matchesOrigin :: "url_parser \<Rightarrow> string \<Rightarrow> url \<Rightarrow> bool" where
  "matchesOrigin up pattern u =
     (if pattern = url_origin u then True
      else
        let wildcard = (case break_at ''://*.'' pattern of
                          None \<Rightarrow> pattern | Some (a, b) \<Rightarrow> a @ ''://wildcard.'' @ b) in
        case up_parse up wildcard of
          None \<Rightarrow> False
        | Some allowed \<Rightarrow>
            if \<not> str_includes pattern ''://*.'' then False
            else
              let suffix = drop (length ''wildcard'') (url_hostname allowed) in
              url_protocol allowed = url_protocol u \<and> url_port allowed = url_port u
              \<and> endsWith (url_hostname u) suffix \<and> length suffix < length (url_hostname u))"

definition in_allowlist :: "url_parser \<Rightarrow> egress_policy \<Rightarrow> url \<Rightarrow> bool" where
  "in_allowlist up pol u \<longleftrightarrow>
     pol_allowedOrigins pol = [] \<or> list_ex (\<lambda>pattern. matchesOrigin up pattern u) (pol_allowedOrigins pol)"

definition join_values :: "string list \<Rightarrow> string" where
  "join_values vs = (case vs of [] \<Rightarrow> [] | v # rest \<Rightarrow> v @ concat (map (\<lambda>x. '', '' @ x) rest))"

definition responseHeaders :: "(string \<times> string list) list \<Rightarrow> (string \<times> string) list" where
  "responseHeaders headers = map (\<lambda>(name, values). (name, join_values values)) headers"

definition redirectHeaders :: "(string \<times> string) list \<Rightarrow> bool \<Rightarrow> (string \<times> string) list" where
  "redirectHeaders headers crossOrigin =
     (if \<not> crossOrigin then headers
      else filter (\<lambda>(name, v). toLowerCase name \<in>
             set [''accept'', ''content-type'', ''idempotency-key'', ''user-agent'']) headers)"

definition setHeader :: "(string \<times> string) list \<Rightarrow> string \<Rightarrow> string \<Rightarrow> (string \<times> string) list" where
  "setHeader headers name v =
     filter (\<lambda>(existing, _). toLowerCase existing \<noteq> toLowerCase name) headers @ [(name, v)]"

definition drop_content_type :: "(string \<times> string) list \<Rightarrow> (string \<times> string) list" where
  "drop_content_type headers = filter (\<lambda>(name, _). toLowerCase name \<noteq> ''content-type'') headers"

section \<open>The client\<close>

text \<open>A step of the client: an error or a result, the environment after it, and the requests it sent.\<close>

type_synonym ('w, 'a) client = "'w \<Rightarrow> (string + 'a) \<times> 'w \<times> connection list"

definition failC :: "string \<Rightarrow> ('w, 'a) client" where "failC e w = (Inl e, w, [])"
definition returnC :: "'a \<Rightarrow> ('w, 'a) client" where "returnC x w = (Inr x, w, [])"
definition bindC :: "('w, 'a) client \<Rightarrow> ('a \<Rightarrow> ('w, 'b) client) \<Rightarrow> ('w, 'b) client" where
  "bindC m f w =
     (case m w of
        (Inl e, w', cs) \<Rightarrow> (Inl e, w', cs)
      | (Inr x, w', cs) \<Rightarrow> (case f x w' of (r, w'', cs') \<Rightarrow> (r, w'', cs @ cs')))"
definition ensureC :: "bool \<Rightarrow> string \<Rightarrow> ('w, unit) client" where
  "ensureC b e = (if b then returnC () else failC e)"
definition liftC :: "string + 'a \<Rightarrow> ('w, 'a) client" where
  "liftC r = (case r of Inl e \<Rightarrow> failC e | Inr x \<Rightarrow> returnC x)"
definition nowC :: "'w network \<Rightarrow> ('w, int) client" where
  "nowC net w = (case net_now net w of (t, w') \<Rightarrow> (Inr t, w', []))"
definition abortedC :: "'w network \<Rightarrow> ('w, unit) client" where
  "abortedC net w = (case net_aborted net w of Some e \<Rightarrow> (Inl e, w, []) | None \<Rightarrow> (Inr (), w, []))"

definition parseTarget :: "url_parser \<Rightarrow> egress_policy \<Rightarrow> string \<Rightarrow> bool \<Rightarrow> string + url" where
  "parseTarget up pol raw enforceAllowlist =
     (case up_parse up raw of
        None \<Rightarrow> Inl ''invalid HTTP destination URL''
      | Some u \<Rightarrow>
          if url_protocol u \<noteq> ''http:'' \<and> url_protocol u \<noteq> ''https:'' then Inl ''URL scheme is not allowed''
          else if url_username u \<noteq> [] \<or> url_password u \<noteq> [] then Inl ''URL userinfo is not allowed''
          else if enforceAllowlist \<and> \<not> in_allowlist up pol u
          then Inl ''origin is not present in the egress allowlist''
          else Inr u)"

text \<open>The checks on every answer of the resolver, in order.\<close>

fun check_answers :: "url \<Rightarrow> bool \<Rightarrow> bool \<Rightarrow> (string \<times> nat) list \<Rightarrow> string + unit" where
  "check_answers u allowPrivate requireLoopback [] = Inr ()"
| "check_answers u allowPrivate requireLoopback ((address, family) # answers) =
     (if isIP address \<noteq> family then Inl ''DNS returned an invalid address family''
      else if requireLoopback
      then (if isLoopbackAddress address then check_answers u allowPrivate requireLoopback answers
            else Inl ''plaintext HTTP proxy address is not loopback'')
      else case assertAddressAllowed u address allowPrivate of
             Inl e \<Rightarrow> Inl e
           | Inr _ \<Rightarrow> check_answers u allowPrivate requireLoopback answers)"

definition resolveTarget ::
    "'w network \<Rightarrow> url_parser \<Rightarrow> egress_policy \<Rightarrow> url \<Rightarrow> bool \<Rightarrow> int \<Rightarrow> bool \<Rightarrow> bool \<Rightarrow> ('w, string \<times> nat) client" where
  "resolveTarget net up pol u allowPrivate deadline enforceAllowlist requireLoopback =
     bindC (ensureC (enforceAllowlist \<longrightarrow> in_allowlist up pol u) ''origin is not present in the egress allowlist'')
       (\<lambda>_. bindC (nowC net) (\<lambda>now.
     bindC (ensureC (0 < deadline - now) ''HTTP total deadline exceeded'') (\<lambda>_.
     bindC (\<lambda>w. case net_resolve net (normalizedHostname u) (deadline - now) w of (r, w') \<Rightarrow> (r, w', [])) (\<lambda>answers.
     bindC (ensureC (answers \<noteq> []) ''DNS returned no addresses'') (\<lambda>_.
     bindC (liftC (check_answers u allowPrivate requireLoopback answers)) (\<lambda>_.
     returnC (hd answers)))))))"

text \<open>The body is cut off at the first chunk that exceeds the limit.\<close>

fun collect_body :: "nat \<Rightarrow> nat \<Rightarrow> string list \<Rightarrow> string + string" where
  "collect_body maxBytes bytes [] = Inr []"
| "collect_body maxBytes bytes (chunk # chunks) =
     (let bytes' = bytes + length chunk in
      if maxBytes < bytes' then Inl ''HTTP response byte limit exceeded''
      else case collect_body maxBytes bytes' chunks of Inl e \<Rightarrow> Inl e | Inr rest \<Rightarrow> Inr (chunk @ rest))"

definition requestOnce :: "'w network \<Rightarrow> egress_policy \<Rightarrow> connection \<Rightarrow> ('w, http_response) client" where
  "requestOnce net pol c w =
     (case net_exchange net c w of
        (Inl e, w') \<Rightarrow> (Inl e, w', [c])
      | (Inr (status, headers, chunks), w') \<Rightarrow>
          (case collect_body (pol_maxResponseBytes pol) 0 chunks of
             Inl e \<Rightarrow> (Inl e, w', [c])
           | Inr body \<Rightarrow> (Inr \<lparr>rs_status = status, rs_headers = responseHeaders headers, rs_body = body,
                               rs_redirects = 0\<rparr>, w', [c])))"


definition family_name :: "nat \<Rightarrow> string" where
  "family_name family = (if family = 4 then ''4'' else if family = 6 then ''6'' else ''0'')"

text \<open>The hop itself: straight to the target, or to the proxy with the validated target in headers.\<close>

definition transport ::
    "'w network \<Rightarrow> url_parser \<Rightarrow> egress_policy \<Rightarrow> int \<Rightarrow> url \<Rightarrow> string \<times> nat \<Rightarrow> (string \<times> string) list \<Rightarrow>
     ('w, url \<times> (string \<times> nat) \<times> (string \<times> string) list) client" where
  "transport net up pol deadline target targetAddress headers =
     (case pol_proxyUrl pol of
        None \<Rightarrow> returnC (target, targetAddress, headers)
      | Some proxy \<Rightarrow>
          if proxy = [] then returnC (target, targetAddress, headers)
          else
            bindC (liftC (parseTarget up pol proxy False)) (\<lambda>transportUrl.
            bindC (resolveTarget net up pol transportUrl True deadline False (url_protocol transportUrl = ''http:''))
              (\<lambda>transportAddress.
            returnC (transportUrl, transportAddress,
              setHeader (setHeader (setHeader headers
                ''x-managed-agents-target-url'' (url_href target))
                ''x-managed-agents-target-address'' (fst targetAddress))
                ''x-managed-agents-target-family'' (family_name (snd targetAddress))))))"

definition hop ::
    "'w network \<Rightarrow> url_parser \<Rightarrow> egress_policy \<Rightarrow> string list \<Rightarrow> int \<Rightarrow> url \<Rightarrow> string \<Rightarrow> string option \<Rightarrow>
     (string \<times> string) list \<Rightarrow> ('w, http_response \<times> (string \<times> string) list) client" where
  "hop net up pol privateOrigins deadline target method body headers =
     bindC (resolveTarget net up pol target (url_origin target \<in> set privateOrigins) deadline True False)
       (\<lambda>targetAddress.
     bindC (abortedC net) (\<lambda>_.
     bindC (transport net up pol deadline target targetAddress headers) (\<lambda>(transportUrl, transportAddress, headers').
     bindC (nowC net) (\<lambda>now.
     bindC (ensureC (0 < deadline - now) ''HTTP total deadline exceeded'') (\<lambda>_.
     bindC (requestOnce net pol
        \<lparr>co_url = transportUrl, co_address = fst transportAddress, co_family = snd transportAddress,
         co_method = method, co_headers = headers', co_body = body,
         co_connectTimeoutMs = min (pol_connectTimeoutMs pol) (deadline - now),
         co_totalTimeoutMs = deadline - now\<rparr>) (\<lambda>response.
     returnC (response, headers')))))))"

definition redirect_location :: "http_response \<Rightarrow> string option" where
  "redirect_location response =
     (if rs_status response \<in> set [301, 302, 303, 307, 308]
      then (case map_of (rs_headers response) ''location'' of
              Some l \<Rightarrow> if l = [] then None else Some l | None \<Rightarrow> None)
      else None)"

definition next_target :: "url_parser \<Rightarrow> egress_policy \<Rightarrow> string \<Rightarrow> url \<Rightarrow> string + url" where
  "next_target up pol location target =
     (case up_relative up location target of
        None \<Rightarrow> Inl ''Invalid URL''
      | Some raw \<Rightarrow> parseTarget up pol raw True)"

definition becomes_get :: "nat \<Rightarrow> string \<Rightarrow> bool" where
  "becomes_get status method \<longleftrightarrow> status = 303 \<or> ((status = 301 \<or> status = 302) \<and> method = ''POST'')"

text \<open>The loop; \<open>left\<close> is the number of redirects it may still follow.\<close>

fun request_loop ::
    "'w network \<Rightarrow> url_parser \<Rightarrow> egress_policy \<Rightarrow> string list \<Rightarrow> int \<Rightarrow> nat \<Rightarrow> url \<Rightarrow> string \<Rightarrow> string option \<Rightarrow>
     (string \<times> string) list \<Rightarrow> ('w, http_response) client" where
  "request_loop net up pol privateOrigins deadline left target method body headers =
     bindC (hop net up pol privateOrigins deadline target method body headers) (\<lambda>(response, headers1).
     case redirect_location response of
       None \<Rightarrow> returnC (response\<lparr>rs_redirects := pol_maxRedirects pol - left\<rparr>)
     | Some location \<Rightarrow>
         (case left of
            0 \<Rightarrow> failC ''HTTP redirect limit exceeded''
          | Suc left' \<Rightarrow>
              bindC (liftC (next_target up pol location target)) (\<lambda>next.
              let headers2 = redirectHeaders headers1 (url_origin next \<noteq> url_origin target);
                  get = becomes_get (rs_status response) method
              in request_loop net up pol privateOrigins deadline left' next
                   (if get then ''GET'' else method) (if get then None else body)
                   (if get then drop_content_type headers2 else headers2))))"

definition request :: "'w network \<Rightarrow> url_parser \<Rightarrow> egress_policy \<Rightarrow> http_request \<Rightarrow> ('w, http_response) client" where
  "request net up pol input =
     bindC (abortedC net) (\<lambda>_.
     bindC (nowC net) (\<lambda>now.
     bindC (liftC (parseTarget up pol (rq_url input) True)) (\<lambda>target.
     request_loop net up pol (rq_privateOrigins input) (now + pol_totalTimeoutMs pol) (pol_maxRedirects pol)
       target (toUpperCase (rq_method input)) (rq_body input) (rq_headers input))))"

declare request_loop.simps [simp del]

section \<open>What the client lets through\<close>

text \<open>
  \<open>emits n P Q m\<close>: the step sends at most \<open>n\<close> requests, all of them satisfy \<open>P\<close>, and its result,
  if it has one, satisfies \<open>Q\<close>.
\<close>

definition emits :: "nat \<Rightarrow> (connection \<Rightarrow> bool) \<Rightarrow> ('a \<Rightarrow> bool) \<Rightarrow> ('w, 'a) client \<Rightarrow> bool" where
  "emits n P Q m \<longleftrightarrow>
     (\<forall>w r w' cs. m w = (r, w', cs) \<longrightarrow> length cs \<le> n \<and> (\<forall>c \<in> set cs. P c) \<and> (\<forall>x. r = Inr x \<longrightarrow> Q x))"

lemma emits_failC [simp]: "emits n P Q (failC e)"
  by (simp add: emits_def failC_def)

lemma emits_returnC [simp]: "Q x \<Longrightarrow> emits n P Q (returnC x)"
  by (simp add: emits_def returnC_def)

lemma emits_bindC:
  assumes "emits n P R m" and "\<And>x. R x \<Longrightarrow> emits k P Q (f x)"
  shows "emits (n + k) P Q (bindC m f)"
  unfolding emits_def
proof (intro allI impI)
  fix w r w' cs assume run: "bindC m f w = (r, w', cs)"
  obtain r1 w1 cs1 where m: "m w = (r1, w1, cs1)" by (cases "m w")
  note first = assms(1) [unfolded emits_def, rule_format, OF m]
  show "length cs \<le> n + k \<and> (\<forall>c \<in> set cs. P c) \<and> (\<forall>x. r = Inr x \<longrightarrow> Q x)"
  proof (cases r1)
    case (Inl e)
    then show ?thesis using run m first by (auto simp: bindC_def)
  next
    case (Inr x)
    obtain r2 w2 cs2 where f: "f x w1 = (r2, w2, cs2)" by (cases "f x w1")
    have "emits k P Q (f x)" using assms(2) first Inr by blast
    note second = this [unfolded emits_def, rule_format, OF f]
    show ?thesis using run m f Inr first second by (auto simp: bindC_def)
  qed
qed

lemma emits_bind0:
  assumes "emits 0 P R m" and "\<And>x. R x \<Longrightarrow> emits n P Q (f x)"
  shows "emits n P Q (bindC m f)"
  using emits_bindC [OF assms] by simp

lemma emits_ensureC: "emits 0 P (\<lambda>_. b) (ensureC b e)"
  by (simp add: ensureC_def)

lemma emits_liftC: "(\<And>x. v = Inr x \<Longrightarrow> Q x) \<Longrightarrow> emits 0 P Q (liftC v)"
  by (cases v) (simp_all add: liftC_def)

lemma emits_nowC [simp]: "emits 0 P (\<lambda>_. True) (nowC net)"
  by (auto simp: emits_def nowC_def split: prod.splits)

lemma emits_abortedC [simp]: "emits 0 P (\<lambda>_. True) (abortedC net)"
  by (auto simp: emits_def abortedC_def split: option.splits)

lemma emits_weaken: "emits n P Q m \<Longrightarrow> n \<le> k \<Longrightarrow> (\<And>x. Q x \<Longrightarrow> R x) \<Longrightarrow> emits k P R m"
  unfolding emits_def by (fastforce intro: order_trans)

text \<open>The URLs and addresses that the policy admits.\<close>

definition reaches :: "string list \<Rightarrow> url \<Rightarrow> string \<Rightarrow> bool" where
  "reaches privateOrigins u address \<longleftrightarrow>
     (\<exists>a. parse_ip address = Some a \<and>
        (\<not> denied_address a
         \<or> url_origin u \<in> set privateOrigins
           \<and> (\<not> knownMetadata address \<and> isOrdinaryPrivateAddress address \<or> literalAddressGrant u address)))"

definition web_url :: "url \<Rightarrow> bool" where
  "web_url u \<longleftrightarrow> url_protocol u \<in> {''http:'', ''https:''} \<and> url_username u = [] \<and> url_password u = []"

definition authorized_target :: "url_parser \<Rightarrow> egress_policy \<Rightarrow> string list \<Rightarrow> url \<Rightarrow> string \<times> nat \<Rightarrow> bool" where
  "authorized_target up pol privateOrigins u answer \<longleftrightarrow>
     web_url u \<and> in_allowlist up pol u \<and> isIP (fst answer) = snd answer \<and> reaches privateOrigins u (fst answer)"

definition uses_proxy :: "egress_policy \<Rightarrow> bool" where
  "uses_proxy pol \<longleftrightarrow> pol_proxyUrl pol \<noteq> None \<and> pol_proxyUrl pol \<noteq> Some []"

text \<open>
  A request on the wire goes to an authorized target; with a proxy, it goes to the configured
  proxy (over plain HTTP only on the loopback) and carries the authorized target and its
  validated address.
\<close>

definition safe_connection :: "url_parser \<Rightarrow> egress_policy \<Rightarrow> string list \<Rightarrow> connection \<Rightarrow> bool" where
  "safe_connection up pol privateOrigins c \<longleftrightarrow>
     (\<exists>target answer. authorized_target up pol privateOrigins target answer
        \<and> (if uses_proxy pol
           then web_url (co_url c)
             \<and> (url_protocol (co_url c) = ''http:'' \<longrightarrow> isLoopbackAddress (co_address c))
             \<and> (''x-managed-agents-target-url'', url_href target) \<in> set (co_headers c)
             \<and> (''x-managed-agents-target-address'', fst answer) \<in> set (co_headers c)
           else co_url c = target \<and> (co_address c, co_family c) = answer))"

definition resolver_typed :: "'w network \<Rightarrow> bool" where
  "resolver_typed net \<longleftrightarrow>
     (\<forall>host t w answers w'. net_resolve net host t w = (Inr answers, w') \<longrightarrow> (\<forall>(a, f) \<in> set answers. f = 4 \<or> f = 6))"

text \<open>A bracketed address is not an address.\<close>

lemma split_on_Cons: "c \<noteq> d \<Longrightarrow> \<exists>p ps. split_on d (c # s) = (c # p) # ps"
  by (auto split: list.split)

lemma octet_bracket: "octet (CHR ''['' # p) = None" and hextet_bracket: "hextet (CHR ''['' # p) = None"
  by (simp_all add: octet_def hextet_def is_digit_def hex_value_def code_of_def)

lemma parse_v4_bracket: "parse_v4 (CHR ''['' # s) = None"
proof -
  have "CHR ''['' \<noteq> CHR ''.''" by simp
  from split_on_Cons [OF this] obtain p ps where "split_on CHR ''.'' (CHR ''['' # s) = (CHR ''['' # p) # ps" by blast
  then show ?thesis by (simp add: parse_v4_def octet_bracket del: split_on.simps)
qed

lemma hextets_bracket: "hextets v4 ((CHR ''['' # p) # ps) = None"
  by (cases ps) (simp_all add: hextet_bracket parse_v4_bracket)

lemma groups_bracket: "groups v4 (CHR ''['' # s) = None"
proof -
  have "CHR ''['' \<noteq> CHR '':''" by simp
  from split_on_Cons [OF this] obtain p ps where "split_on CHR '':'' (CHR ''['' # s) = (CHR ''['' # p) # ps" by blast
  then show ?thesis by (simp add: groups_def hextets_bracket del: split_on.simps)
qed

lemma parse_v6_groups_bracket: "parse_v6_groups (CHR ''['' # s) = None"
  by (cases "break_at ''::'' s") (auto simp: parse_v6_groups_def groups_bracket)

lemma bracketed_no_ip:
  assumes "startsWith s ''[''"
  shows "parse_ip s = None"
proof -
  obtain t where s: "s = CHR ''['' # t" using assms by (auto simp: startsWith_iff)
  have "parse_v6 s = None"
    by (cases "break_at ''%'' t") (auto simp: s parse_v6_def parse_v6_groups_bracket)
  then show ?thesis by (simp add: parse_ip_def parse_v4_bracket s)
qed

lemma allowed_reaches:
  assumes "assertAddressAllowed u address (url_origin u \<in> set po) = Inr ()" and "isIP address = family"
    and "family = 4 \<or> family = 6"
  shows "reaches po u address"
proof -
  obtain a where a: "parse_ip address = Some a" using assms(2,3) by (auto simp: isIP_def split: option.splits)
  have no_bracket: "\<not> (startsWith address ''['' \<and> endsWith address '']'')"
    using a bracketed_no_ip by fastforce
  then show ?thesis
    using assms(1) a by (auto simp: assertAddressAllowed_def assertPublicAddress_def Let_def reaches_def split: if_splits sum.splits)
qed

lemma check_answers_all:
  "check_answers u allowPrivate False answers = Inr () \<Longrightarrow>
   \<forall>(a, f) \<in> set answers. isIP a = f \<and> assertAddressAllowed u a allowPrivate = Inr ()"
  by (induction u allowPrivate False answers rule: check_answers.induct) (auto split: if_splits sum.splits)

lemma check_answers_loopback:
  "check_answers u allowPrivate True answers = Inr () \<Longrightarrow> \<forall>(a, f) \<in> set answers. isLoopbackAddress a"
  by (induction u allowPrivate True answers rule: check_answers.induct) (auto split: if_splits)

lemma emits_resolve:
  "resolver_typed net \<Longrightarrow> emits 0 P (\<lambda>answers. \<forall>(a, f) \<in> set answers. f = 4 \<or> f = 6)
     (\<lambda>w. case net_resolve net host t w of (r, w') \<Rightarrow> (r, w', []))"
  unfolding emits_def resolver_typed_def by (fastforce split: prod.splits)

lemma resolveTarget_gives:
  assumes "resolver_typed net"
    and "\<And>answers. \<forall>(a, f) \<in> set answers. f = 4 \<or> f = 6 \<Longrightarrow> answers \<noteq> [] \<Longrightarrow>
      check_answers u allowPrivate loopback answers = Inr () \<Longrightarrow> Q (hd answers)"
  shows "emits 0 P (\<lambda>answer. Q answer \<and> (enforce \<longrightarrow> in_allowlist up pol u))
    (resolveTarget net up pol u allowPrivate deadline enforce loopback)"
  unfolding resolveTarget_def
  by (rule emits_bind0 [OF emits_ensureC] emits_bind0 [OF emits_nowC] emits_bind0 [OF emits_resolve [OF assms(1)]]
        emits_bind0 [OF emits_liftC [where Q = "\<lambda>x. check_answers u allowPrivate loopback _ = Inr x"]])+
     (use assms(2) in auto)

lemma emits_target:
  assumes "resolver_typed net" and "web_url u"
  shows "emits 0 P (authorized_target up pol po u)
    (resolveTarget net up pol u (url_origin u \<in> set po) deadline True False)"
proof -
  have "isIP (fst (hd answers)) = snd (hd answers) \<and> reaches po u (fst (hd answers))"
    if t: "\<forall>(a, f) \<in> set answers. f = 4 \<or> f = 6" "answers \<noteq> []"
      and c: "check_answers u (url_origin u \<in> set po) False answers = Inr ()" for answers
  proof -
    obtain a f where h: "hd answers = (a, f)" "(a, f) \<in> set answers" using t(2) by (cases answers) auto
    then have "isIP a = f" "assertAddressAllowed u a (url_origin u \<in> set po) = Inr ()" "f = 4 \<or> f = 6"
      using check_answers_all [OF c] t(1) by auto
    then show ?thesis using h(1) allowed_reaches by simp
  qed
  then have "emits 0 P (\<lambda>answer. (isIP (fst answer) = snd answer \<and> reaches po u (fst answer))
      \<and> (True \<longrightarrow> in_allowlist up pol u))
    (resolveTarget net up pol u (url_origin u \<in> set po) deadline True False)"
    by (intro resolveTarget_gives [OF assms(1)])
  then show ?thesis by (rule emits_weaken) (auto simp: authorized_target_def assms(2))
qed

lemma parseTarget_web: "parseTarget up pol raw enforce = Inr u \<Longrightarrow> web_url u"
  by (auto simp: parseTarget_def web_url_def split: option.splits if_splits)

lemma in_setHeader: "(n, v) \<in> set (setHeader headers n v)"
  by (simp add: setHeader_def)

lemma setHeader_other:
  "(n, v) \<in> set headers \<Longrightarrow> toLowerCase n \<noteq> toLowerCase m \<Longrightarrow> (n, v) \<in> set (setHeader headers m x)"
  by (simp add: setHeader_def)

definition carries :: "egress_policy \<Rightarrow> url \<Rightarrow> string \<times> nat \<Rightarrow> url \<times> (string \<times> nat) \<times> (string \<times> string) list \<Rightarrow> bool" where
  "carries pol target answer = (\<lambda>(u, (address, family), headers).
     if uses_proxy pol
     then web_url u \<and> (url_protocol u = ''http:'' \<longrightarrow> isLoopbackAddress address)
       \<and> (''x-managed-agents-target-url'', url_href target) \<in> set headers
       \<and> (''x-managed-agents-target-address'', fst answer) \<in> set headers
     else u = target \<and> (address, family) = answer)"

lemma emits_transport:
  assumes "resolver_typed net"
  shows "emits 0 P (carries pol target answer) (transport net up pol deadline target answer headers)"
proof (cases "uses_proxy pol")
  case False
  then show ?thesis by (cases "pol_proxyUrl pol") (auto simp: transport_def uses_proxy_def carries_def)
next
  case True
  then obtain proxy where p: "pol_proxyUrl pol = Some proxy" "proxy \<noteq> []" by (auto simp: uses_proxy_def)
  have names: "toLowerCase ''x-managed-agents-target-url'' \<noteq> toLowerCase ''x-managed-agents-target-address''"
    "toLowerCase ''x-managed-agents-target-url'' \<noteq> toLowerCase ''x-managed-agents-target-family''"
    "toLowerCase ''x-managed-agents-target-address'' \<noteq> toLowerCase ''x-managed-agents-target-family''"
    by code_simp+
  have loop: "isLoopbackAddress (fst (hd answers))"
    if "answers \<noteq> []" "check_answers u True True answers = Inr ()" for u answers
    using check_answers_loopback [OF that(2)] that(1) by (cases answers) auto
  let ?h = "setHeader (setHeader (setHeader headers ''x-managed-agents-target-url'' (url_href target))
    ''x-managed-agents-target-address'' (fst answer)) ''x-managed-agents-target-family'' (family_name (snd answer))"
  have "(''x-managed-agents-target-url'', url_href target) \<in> set ?h"
    "(''x-managed-agents-target-address'', fst answer) \<in> set ?h"
    by (intro setHeader_other in_setHeader names)+
  then have h: "carries pol target answer (u, r, ?h)"
    if "web_url u" "url_protocol u = ''http:'' \<longrightarrow> isLoopbackAddress (fst r)" for u r
    using that True by (cases r) (simp add: carries_def)
  have "emits 0 P (carries pol target answer)
     (bindC (resolveTarget net up pol u True deadline False (url_protocol u = ''http:''))
        (\<lambda>transportAddress. returnC (u, transportAddress, ?h)))" if u: "web_url u" for u
  proof (rule emits_bind0)
    show "emits 0 P (\<lambda>r. (url_protocol u = ''http:'' \<longrightarrow> isLoopbackAddress (fst r)) \<and> (False \<longrightarrow> in_allowlist up pol u))
      (resolveTarget net up pol u True deadline False (url_protocol u = ''http:''))"
      by (rule resolveTarget_gives [OF assms]) (use loop in auto)
  qed (intro emits_returnC h u, blast)
  then show ?thesis
    using p by (auto simp: transport_def intro!: emits_bind0 [OF emits_liftC [where Q = web_url]] dest: parseTarget_web)
qed


lemma collect_body_bound:
  "collect_body maxBytes bytes chunks = Inr body \<Longrightarrow> bytes \<le> maxBytes \<Longrightarrow> bytes + length body \<le> maxBytes"
  by (induction maxBytes bytes chunks arbitrary: body rule: collect_body.induct)
     (fastforce simp: Let_def split: if_splits sum.splits)+

definition bounded_body :: "egress_policy \<Rightarrow> http_response \<Rightarrow> bool" where
  "bounded_body pol response \<longleftrightarrow> length (rs_body response) \<le> pol_maxResponseBytes pol"

lemma emits_requestOnce: "P c \<Longrightarrow> emits 1 P (bounded_body pol) (requestOnce net pol c)"
  unfolding emits_def
  by (auto simp: requestOnce_def bounded_body_def dest: collect_body_bound split: sum.splits prod.splits)

lemma emits_hop:
  assumes "resolver_typed net" and "web_url target"
  shows "emits 1 (safe_connection up pol po) (\<lambda>(response, headers). bounded_body pol response)
    (hop net up pol po deadline target method body headers)"
  unfolding hop_def
proof (rule emits_bind0 [OF emits_target [OF assms]])
  fix answer assume auth: "authorized_target up pol po target answer"
  have send: "emits 1 (safe_connection up pol po) (\<lambda>(response, headers). bounded_body pol response)
     (bindC (nowC net) (\<lambda>now.
     bindC (ensureC (0 < deadline - now) ''HTTP total deadline exceeded'') (\<lambda>_.
     bindC (requestOnce net pol
        \<lparr>co_url = u, co_address = fst r, co_family = snd r,
         co_method = method, co_headers = h, co_body = body,
         co_connectTimeoutMs = min (pol_connectTimeoutMs pol) (deadline - now),
         co_totalTimeoutMs = deadline - now\<rparr>) (\<lambda>response.
     returnC (response, h)))))" if c: "carries pol target answer (u, r, h)" for u r h
  proof (intro emits_bind0 [OF emits_nowC] emits_bind0 [OF emits_ensureC])
    fix now :: int
    let ?c = "\<lparr>co_url = u, co_address = fst r, co_family = snd r,
         co_method = method, co_headers = h, co_body = body,
         co_connectTimeoutMs = min (pol_connectTimeoutMs pol) (deadline - now),
         co_totalTimeoutMs = deadline - now\<rparr>"
    have safe: "safe_connection up pol po ?c"
      unfolding safe_connection_def using auth c
      by (intro exI [of _ target] exI [of _ answer]) (cases r, auto simp: carries_def split: if_splits)
    from emits_bindC [OF emits_requestOnce [of "safe_connection up pol po", OF safe, of pol net],
        of 0 "\<lambda>(response, headers). bounded_body pol response" "\<lambda>response. returnC (response, h)"]
    show "emits 1 (safe_connection up pol po) (\<lambda>(response, headers). bounded_body pol response)
       (bindC (requestOnce net pol ?c) (\<lambda>response. returnC (response, h)))" by simp
  qed
  show "emits 1 (safe_connection up pol po) (\<lambda>(response, headers). bounded_body pol response)
     (bindC (abortedC net) (\<lambda>_.
     bindC (transport net up pol deadline target answer headers) (\<lambda>(transportUrl, transportAddress, headers').
     bindC (nowC net) (\<lambda>now.
     bindC (ensureC (0 < deadline - now) ''HTTP total deadline exceeded'') (\<lambda>_.
     bindC (requestOnce net pol
        \<lparr>co_url = transportUrl, co_address = fst transportAddress, co_family = snd transportAddress,
         co_method = method, co_headers = headers', co_body = body,
         co_connectTimeoutMs = min (pol_connectTimeoutMs pol) (deadline - now),
         co_totalTimeoutMs = deadline - now\<rparr>) (\<lambda>response.
     returnC (response, headers')))))))"
    by (intro emits_bind0 [OF emits_abortedC] emits_bind0 [OF emits_transport [OF assms(1), of _ pol target answer]])
       (auto dest!: send)
qed

lemma emits_loop:
  assumes "resolver_typed net" and "web_url target" and "left \<le> pol_maxRedirects pol"
  shows "emits (Suc left) (safe_connection up pol po)
    (\<lambda>response. bounded_body pol response \<and> rs_redirects response \<le> pol_maxRedirects pol)
    (request_loop net up pol po deadline left target meth body headers)"
  using assms(2,3)
proof (induction left arbitrary: target meth body headers)
  case 0
  show ?case
    by (subst request_loop.simps, rule emits_weaken [OF emits_bindC [OF emits_hop [OF assms(1) 0(1)], where k = 0]])
       (auto simp: bounded_body_def split: option.splits)
next
  case (Suc left)
  have next_web: "web_url u" if "next_target up pol location target = Inr u" for location u
    using that by (auto simp: next_target_def split: option.splits dest: parseTarget_web)
  show ?case
    by (subst request_loop.simps, rule emits_weaken [OF emits_bindC [OF emits_hop [OF assms(1) Suc.prems(1)], where k = "Suc left"]])
       (use Suc.prems(2) in \<open>auto simp: bounded_body_def Let_def split: option.splits
          intro!: emits_bind0 [OF emits_liftC [where Q = web_url]] Suc.IH [unfolded bounded_body_def]
            emits_weaken [OF emits_returnC, where Q = "\<lambda>_. True"] dest: next_web\<close>)
qed


text \<open>The metadata addresses lie in the blocked networks, in every form.\<close>

lemma unat_mapped: "unat (mapped x) = 281470681743360 + unat x"
proof -
  have x: "unat x < 2 ^ 32" by (rule order_less_le_trans [OF unsigned_less]) simp
  have "unat (ucast x :: 128 word) = unat x" by (simp add: unsigned_ucast_eq take_bit_nat_eq_self order_less_trans [OF x])
  moreover have "unat (281470681743360 :: 128 word) = 281470681743360" by simp
  ultimately show ?thesis
    unfolding mapped_def using x by (subst unat_add_lem [THEN iffD1]) simp_all
qed

lemma metadata_rules:
  "knownMetadataAddresses = [Address (V4 2852039166), Address (V4 1684301000),
      Address (V6 336294982257581694735330614659971547732)]"
  by code_simp

lemma metadata_denied:
  assumes "block_check knownMetadataAddresses a"
  shows "denied_address a"
proof (cases a)
  case (V4 x)
  have "mapped x \<noteq> 336294982257581694735330614659971547732"
  proof
    assume "mapped x = 336294982257581694735330614659971547732"
    then have "unat (mapped x) = unat (336294982257581694735330614659971547732 :: 128 word)" by simp
    moreover have "unat x < 2 ^ 32" by (rule order_less_le_trans [OF unsigned_less]) simp
    ultimately show False using unat_mapped [of x] by simp
  qed
  then have "x = 2852039166 \<or> x = 1684301000" using assms V4 by (auto simp: block_check_def metadata_rules)
  moreover have "denied_address (V4 2852039166)" "denied_address (V4 1684301000)" by code_simp+
  ultimately show ?thesis using V4 by auto
next
  case (V6 y)
  then have "y = mapped 2852039166 \<or> y = mapped 1684301000 \<or> y = 336294982257581694735330614659971547732"
    using assms by (auto simp: block_check_def metadata_rules)
  moreover have "denied_address (V6 (mapped 2852039166))" "denied_address (V6 (mapped 1684301000))"
    "denied_address (V6 336294982257581694735330614659971547732)" by code_simp+
  ultimately show ?thesis using V6 by auto
qed

lemma request_emits_all:
  assumes "resolver_typed net"
  shows "emits (Suc (pol_maxRedirects pol)) (safe_connection up pol (rq_privateOrigins input))
    (\<lambda>response. bounded_body pol response \<and> rs_redirects response \<le> pol_maxRedirects pol)
    (request net up pol input)"
  unfolding request_def
  by (intro emits_bind0 [OF emits_abortedC] emits_bind0 [OF emits_nowC] emits_bind0 [OF emits_liftC [where Q = web_url]]
        emits_loop [OF assms]) (auto dest: parseTarget_web)

lemma request_emits:
  assumes "resolver_typed net"
  shows "length (snd (snd (request net up pol input w))) \<le> pol_maxRedirects pol + 1
     \<and> (\<forall>c \<in> set (snd (snd (request net up pol input w))). safe_connection up pol (rq_privateOrigins input) c)"
  using request_emits_all [OF assms, of pol up input] unfolding emits_def by (metis Suc_eq_plus1 prod.collapse)

text \<open>
  C29: nothing leaves outside the egress policy. For every network, resolver and clock, every
  request that the client puts on the wire - the first one and those after redirects - goes to an
  http or https URL of the allowlist without user information and to a validated address of it:
  a public one, or one that the caller's exact-origin grant admits. A cloud metadata address is
  only ever contacted when the granted origin names that very address. With a proxy, the request
  goes to the proxy and carries the validated target. At most \<open>maxRedirects + 1\<close> requests are
  sent, and no returned body exceeds its limit.
\<close>

theorem egress_is_authorized:
  assumes "resolver_typed net" and "request net up pol input w = (r, w', cs)"
  shows "length cs \<le> pol_maxRedirects pol + 1
     \<and> (\<forall>c \<in> set cs. safe_connection up pol (rq_privateOrigins input) c)
     \<and> (\<not> uses_proxy pol \<longrightarrow> (\<forall>c \<in> set cs. knownMetadata (co_address c) \<longrightarrow>
          url_origin (co_url c) \<in> set (rq_privateOrigins input) \<and> literalAddressGrant (co_url c) (co_address c)))
     \<and> (\<forall>response. r = Inr response \<longrightarrow> length (rs_body response) \<le> pol_maxResponseBytes pol
          \<and> rs_redirects response \<le> pol_maxRedirects pol)"
proof -
  have "emits (Suc (pol_maxRedirects pol)) (safe_connection up pol (rq_privateOrigins input))
    (\<lambda>response. bounded_body pol response \<and> rs_redirects response \<le> pol_maxRedirects pol)
    (request net up pol input)"
    by (rule request_emits_all [OF assms(1)])
  then have all: "length cs \<le> Suc (pol_maxRedirects pol)"
    "\<forall>c \<in> set cs. safe_connection up pol (rq_privateOrigins input) c"
    "\<forall>response. r = Inr response \<longrightarrow> bounded_body pol response \<and> rs_redirects response \<le> pol_maxRedirects pol"
    using assms(2) unfolding emits_def by blast+
  have "url_origin (co_url c) \<in> set (rq_privateOrigins input) \<and> literalAddressGrant (co_url c) (co_address c)"
    if c: "c \<in> set cs" "knownMetadata (co_address c)" "\<not> uses_proxy pol" for c
  proof -
    have "reaches (rq_privateOrigins input) (co_url c) (co_address c)"
      using all(2) c(1,3) by (auto simp: safe_connection_def authorized_target_def)
    then show ?thesis
      using c(2) metadata_denied by (auto simp: reaches_def knownMetadata_def)
  qed
  then show ?thesis using all by (auto simp: bounded_body_def)
qed

section \<open>A worked example\<close>

definition demo_url :: url where
  "demo_url = \<lparr>url_href = ''https://example.com/'', url_protocol = ''https:'', url_hostname = ''example.com'',
     url_port = [], url_origin = ''https://example.com'', url_username = [], url_password = []\<rparr>"

definition demo_parser :: url_parser where
  "demo_parser = \<lparr>up_parse = (\<lambda>raw. if raw = ''https://example.com/'' then Some demo_url else None),
     up_relative = (\<lambda>location base. Some location)\<rparr>"

definition demo_egress :: egress_policy where
  "demo_egress = \<lparr>pol_allowedOrigins = [''https://example.com''], pol_proxyUrl = None, pol_connectTimeoutMs = 1000,
     pol_totalTimeoutMs = 5000, pol_maxRedirects = 3, pol_maxResponseBytes = 100\<rparr>"

definition demo_network :: "string \<Rightarrow> unit network" where
  "demo_network address = \<lparr>net_now = (\<lambda>_. (0, ())), net_resolve = (\<lambda>host t _. (Inr [(address, 4)], ())),
     net_exchange = (\<lambda>c _. (Inr (200, [], [''ok'']), ())), net_aborted = (\<lambda>_. None)\<rparr>"

definition demo_http :: http_request where
  "demo_http = \<lparr>rq_url = ''https://example.com/'', rq_method = ''get'', rq_headers = [], rq_body = None,
     rq_privateOrigins = []\<rparr>"

lemma demo_typed: "resolver_typed (demo_network address)"
  by (simp add: resolver_typed_def demo_network_def)

theorem egress_is_authorized_witness:
  "\<exists>cs. request (demo_network ''93.184.216.34'') demo_parser demo_egress demo_http ()
      = (Inr \<lparr>rs_status = 200, rs_headers = [], rs_body = ''ok'', rs_redirects = 0\<rparr>, (), cs)
    \<and> map co_address cs = [''93.184.216.34'']
    \<and> (\<forall>c \<in> set cs. safe_connection demo_parser demo_egress [] c)
    \<and> (case request (demo_network ''169.254.169.254'') demo_parser demo_egress demo_http () of
         (r, w, cs') \<Rightarrow> isl r \<and> cs' = [])"
proof -
  have ok: "case request (demo_network ''93.184.216.34'') demo_parser demo_egress demo_http () of
      (r, w, cs) \<Rightarrow> r = Inr \<lparr>rs_status = 200, rs_headers = [], rs_body = ''ok'', rs_redirects = 0\<rparr>
         \<and> map co_address cs = [''93.184.216.34'']"
    by code_simp
  obtain r w cs where run: "request (demo_network ''93.184.216.34'') demo_parser demo_egress demo_http () = (r, w, cs)"
    by (cases "request (demo_network ''93.184.216.34'') demo_parser demo_egress demo_http ()")
  have "rq_privateOrigins demo_http = []" by (simp add: demo_http_def)
  with egress_is_authorized [OF demo_typed run] have "\<forall>c \<in> set cs. safe_connection demo_parser demo_egress [] c" by simp
  moreover have "case request (demo_network ''169.254.169.254'') demo_parser demo_egress demo_http () of
      (r, w, cs') \<Rightarrow> isl r \<and> cs' = []" by code_simp
  ultimately show ?thesis using ok run by auto
qed


end
