(* ===== verification/Checkpoints.thy ===== *)
theory Checkpoints
  imports Patterns Model_Calls Safe_Http
begin

text \<open>
  Checkpoints, \<^verbatim>\<open>src/core/checkpoints.ts\<close> and \<^verbatim>\<open>src/store/checkpoints.ts\<close>: the envelope that an epoch leaves
  behind, its validation and the migration of the first version, the rejection of secrets, and the table.

  An envelope is a JSON object, given by its members, since that is what is stored and read back. The URL
  parser of the platform is a parameter, \<open>url_reader\<close>: it gives the URL and the keys of its query.
\<close>

section \<open>Checks that throw\<close>

definition thenE :: "'e + 'b \<Rightarrow> 'e + 'a \<Rightarrow> 'e + 'a" where
  "thenE m n = (case m of Inl e \<Rightarrow> Inl e | Inr _ \<Rightarrow> n)"

definition bindE :: "'e + 'a \<Rightarrow> ('a \<Rightarrow> 'e + 'b) \<Rightarrow> 'e + 'b" where
  "bindE m f = (case m of Inl e \<Rightarrow> Inl e | Inr x \<Rightarrow> f x)"

definition check :: "bool \<Rightarrow> string \<Rightarrow> err + unit" where
  "check b message = (if b then Inr () else Inl (GenericError message))"

definition record_of :: "json option \<Rightarrow> string \<Rightarrow> err + (string \<times> json) list" where
  "record_of v label =
     (case v of Some (JObj kvs) \<Rightarrow> Inr kvs | _ \<Rightarrow> Inl (GenericError (label @ '' must be an object'')))"

definition safe_integer :: "rat \<Rightarrow> bool" where
  "safe_integer q = (of_int \<lfloor>q\<rfloor> = q \<and> \<bar>\<lfloor>q\<rfloor>\<bar> \<le> MAX_SAFE_INTEGER)"

definition nonNegativeInteger :: "json option \<Rightarrow> string \<Rightarrow> err + int" where
  "nonNegativeInteger v label =
     (case v of
        Some (JNum q) \<Rightarrow> if safe_integer q \<and> 0 \<le> q then Inr \<lfloor>q\<rfloor> else Inl (GenericError (label @ '' is invalid''))
      | _ \<Rightarrow> Inl (GenericError (label @ '' is invalid'')))"

definition array_of :: "json option \<Rightarrow> string \<Rightarrow> err + json list" where
  "array_of v label =
     (case v of Some (JArr vs) \<Rightarrow> Inr vs | _ \<Rightarrow> Inl (GenericError (label @ '' must be an array'')))"

fun is_string :: "json \<Rightarrow> bool" where
  "is_string (JStr _) = True"
| "is_string _ = False"

definition stringArray :: "json option \<Rightarrow> string \<Rightarrow> err + unit" where
  "stringArray v label =
     bindE (array_of v label) (\<lambda>vs. check (list_all is_string vs) (label @ '' must contain only strings''))"

definition requiredString :: "json option \<Rightarrow> string \<Rightarrow> err + string" where
  "requiredString v label =
     (case v of Some (JStr s) \<Rightarrow> Inr s | _ \<Rightarrow> Inl (GenericError (label @ '' is invalid'')))"

definition optionalString :: "json option \<Rightarrow> string \<Rightarrow> err + string option" where
  "optionalString v label =
     (case v of None \<Rightarrow> Inr None | Some (JStr s) \<Rightarrow> Inr (Some s) | _ \<Rightarrow> Inl (GenericError (label @ '' is invalid'')))"

definition is_text :: "json option \<Rightarrow> bool" where
  "is_text v = (case v of Some (JStr _) \<Rightarrow> True | _ \<Rightarrow> False)"

definition is_object :: "json option \<Rightarrow> bool" where
  "is_object v = (case v of Some (JObj _) \<Rightarrow> True | _ \<Rightarrow> False)"

definition toolCall :: "json option \<Rightarrow> err + json" where
  "toolCall v =
     bindE (record_of v ''pending tool call'') (\<lambda>candidate.
       if is_text (jfield candidate ''id'') \<and> is_text (jfield candidate ''name'')
          \<and> is_object (jfield candidate ''arguments'')
       then Inr (JObj candidate) else Inl (GenericError ''pending tool call is invalid''))"

section \<open>Secrets\<close>

definition forbidden_key :: rx where
  "forbidden_key =
     Alt [Lit ''secret'', Lit ''password'', Lit ''authorization'', Lit ''cookie'',
       Seq [Lit ''api'', opt (one_of ''_-''), Lit ''key''],
       Seq [Lit ''access'', opt (one_of ''_-''), Lit ''key''],
       Seq [Lit ''session'', opt (one_of ''_-''), Lit ''token''],
       Seq [Lit ''signed'', opt (one_of ''_-''), Lit ''url'']]"

definition bearer_rx :: rx where
  "bearer_rx =
     Seq [Boundary, Alt [Lit ''bearer'', Lit ''basic''], Chars is_space 1 None,
       Chars (\<lambda>c. is_alnum c \<or> c \<in> set ''._~+/-'') 8 None, Chars (\<lambda>c. c = CHR ''='') 0 (Some 2), Boundary]"

definition github_rx :: rx where
  "github_rx =
     Seq [Boundary,
       Alt [Seq [Lit ''gh'', one_of ''pousr'', Lit ''_'', Chars is_alnum 20 None],
            Seq [Lit ''github_pat_'', Chars is_word 20 None]], Boundary]"

definition aws_rx :: rx where
  "aws_rx = Seq [Boundary, Alt [Lit ''AKIA'', Lit ''ASIA''], Chars is_capital 16 (Some 16), Boundary]"

definition slack_rx :: rx where
  "slack_rx = Seq [Boundary, Lit ''xox'', one_of ''baprs'', Lit ''-'', Chars (\<lambda>c. is_alnum c \<or> c = CHR ''-'') 10 None, Boundary]"

definition google_rx :: rx where
  "google_rx = Seq [Boundary, Lit ''AIza'', Chars (\<lambda>c. is_word c \<or> c = CHR ''-'') 30 None, Boundary]"

definition jwt_rx :: rx where
  "jwt_rx =
     (let part = Chars (\<lambda>c. is_word c \<or> c = CHR ''-'') 8 None
      in Seq [Boundary, Lit ''eyJ'', part, Lit ''.eyJ'', part, Lit ''.'', part, Boundary])"

definition private_key_rx :: rx where
  "private_key_rx =
     Seq [Lit ''-----BEGIN '', opt (Seq [Chars is_capital 1 None, Lit '' '']), Lit ''PRIVATE KEY-----'']"

definition looksLikeCredentialValue :: "string \<Rightarrow> bool" where
  "looksLikeCredentialValue s =
     (rx_test_i bearer_rx s \<or> rx_test github_rx s \<or> rx_test aws_rx s \<or> rx_test slack_rx s \<or> rx_test google_rx s
      \<or> rx_test jwt_rx s \<or> rx_test private_key_rx s)"

definition isCredentialQueryParameter :: "string \<Rightarrow> bool" where
  "isCredentialQueryParameter key =
     (rx_test_i (Alt (map Lit [''signature'', ''credential'', ''token'', ''ticket'', ''authorization'', ''cookie'',
        ''expires''])) key
      \<or> toLowerCase key \<in> set [''sig'', ''se'', ''sv'', ''sp'', ''sr'', ''skoid'', ''sktid'', ''skt'', ''ske'',
          ''sks'', ''skv'', ''policy'', ''key-pair-id''])"

type_synonym url_reader = "string \<Rightarrow> (url \<times> string list) option"

definition url_char :: "char \<Rightarrow> bool" where
  "url_char c = (\<not> is_space c \<and> c \<noteq> CHR 0x22 \<and> c \<noteq> CHR 0x27 \<and> c \<noteq> CHR ''<'' \<and> c \<noteq> CHR ''>'')"

definition url_at :: "string \<Rightarrow> string option" where
  "url_at s =
     (case find (\<lambda>scheme. startsWith (toLowerCase s) scheme \<and> takeWhile url_char (drop (length scheme) s) \<noteq> [])
             [''https://'', ''http://'', ''wss://'', ''ws://''] of
        None \<Rightarrow> None
      | Some scheme \<Rightarrow> Some (take (length scheme) s @ takeWhile url_char (drop (length scheme) s)))"

fun find_urls :: "string \<Rightarrow> string list" where
  "find_urls [] = []"
| "find_urls (c # s) =
     (case url_at (c # s) of
        None \<Rightarrow> find_urls s
      | Some u \<Rightarrow> u # find_urls (drop (length u - 1) s))"

definition strip_punctuation :: "string \<Rightarrow> string" where
  "strip_punctuation u = rev (dropWhile (\<lambda>c. c \<in> set ''),.;'') (rev u))"

definition check_url :: "url_reader \<Rightarrow> string \<Rightarrow> string \<Rightarrow> err + unit" where
  "check_url rd path u =
     (case rd (strip_punctuation u) of
        None \<Rightarrow> Inl (GenericError (''checkpoint contains invalid URL at '' @ path))
      | Some (parsed, keys) \<Rightarrow>
          if url_username parsed \<noteq> [] \<or> url_password parsed \<noteq> []
          then Inl (GenericError (''checkpoint contains a credential-bearing URL at '' @ path))
          else check (\<not> list_ex isCredentialQueryParameter keys)
                 (''checkpoint contains a signed or credential-bearing URL at '' @ path))"

fun check_urls :: "url_reader \<Rightarrow> string \<Rightarrow> string list \<Rightarrow> err + unit" where
  "check_urls rd path [] = Inr ()"
| "check_urls rd path (u # us) = thenE (check_url rd path u) (check_urls rd path us)"

definition check_string :: "url_reader \<Rightarrow> string \<Rightarrow> string \<Rightarrow> err + unit" where
  "check_string rd path s =
     (if looksLikeCredentialValue s
      then Inl (GenericError (''checkpoint contains a credential-like value at '' @ path))
      else check_urls rd path (find_urls s))"

fun assertSafeCheckpointValue :: "url_reader \<Rightarrow> string \<Rightarrow> json \<Rightarrow> err + unit"
  and assert_elements :: "url_reader \<Rightarrow> string \<Rightarrow> nat \<Rightarrow> json list \<Rightarrow> err + unit"
  and assert_members :: "url_reader \<Rightarrow> string \<Rightarrow> (string \<times> json) list \<Rightarrow> err + unit" where
  "assertSafeCheckpointValue rd path (JStr s) = check_string rd path s"
| "assertSafeCheckpointValue rd path (JArr vs) = assert_elements rd path 0 vs"
| "assertSafeCheckpointValue rd path (JObj kvs) = assert_members rd path kvs"
| "assertSafeCheckpointValue rd path JNull = Inr ()"
| "assertSafeCheckpointValue rd path (JBool b) = Inr ()"
| "assertSafeCheckpointValue rd path (JNum q) = Inr ()"
| "assert_elements rd path i [] = Inr ()"
| "assert_elements rd path i (v # vs) =
     thenE (assertSafeCheckpointValue rd (path @ ''['' @ nat_digits i @ '']'') v) (assert_elements rd path (Suc i) vs)"
| "assert_members rd path [] = Inr ()"
| "assert_members rd path ((k, v) # kvs) =
     (if rx_test_i forbidden_key k
      then Inl (GenericError (''checkpoint contains forbidden secret field at '' @ path @ ''.'' @ k))
      else thenE (assertSafeCheckpointValue rd (path @ ''.'' @ k) v) (assert_members rd path kvs))"

section \<open>Envelopes\<close>

definition CHECKPOINT_SCHEMA_VERSION :: int where "CHECKPOINT_SCHEMA_VERSION = 2"

definition emptyCommitments :: json where
  "emptyCommitments =
     JObj [(''awaitedSignal'', JNull), (''pendingApprovalIds'', JArr []), (''activeChildRunIds'', JArr []),
       (''pendingWork'', JObj [(''active'', JArr []), (''blocked'', JArr []), (''remaining'', JArr [])])]"

definition emptyReferences :: json where
  "emptyReferences = JObj [(''childRunIds'', JArr []), (''artifactIds'', JArr []), (''evidence'', JArr [])]"

definition emptyContextSelection :: json where
  "emptyContextSelection =
     JObj [(''strategyVersion'', JStr ''context-compiler/v1''), (''transcriptTailLimit'', jint 60),
       (''transcriptMessagesAvailable'', jint 0), (''transcriptMessagesSelected'', jint 0), (''memoryIds'', JArr []),
       (''userMessageCount'', jint 0), (''approvalOutcomeCount'', jint 0), (''skillRefs'', JArr [])]"

fun check_blocked :: "nat \<Rightarrow> json list \<Rightarrow> err + unit" where
  "check_blocked i [] = Inr ()"
| "check_blocked i (entry # entries) =
     (let label = ''checkpoint pendingWork.blocked['' @ nat_digits i @ '']'' in
      bindE (record_of (Some entry) label) (\<lambda>item.
        thenE (requiredString (jfield item ''item'') (label @ ''.item''))
       (thenE (requiredString (jfield item ''reason'') (label @ ''.reason''))
          (check_blocked (Suc i) entries))))"

fun check_evidence :: "nat \<Rightarrow> json list \<Rightarrow> err + unit" where
  "check_evidence i [] = Inr ()"
| "check_evidence i (entry # entries) =
     (let label = ''checkpoint evidence['' @ nat_digits i @ '']'' in
      bindE (record_of (Some entry) label) (\<lambda>ref.
        thenE (requiredString (jfield ref ''runId'') (label @ ''.runId''))
       (bindE (requiredString (jfield ref ''eventSeq'') (label @ ''.eventSeq'')) (\<lambda>eventSeq.
        thenE (check (eventSeq \<noteq> [] \<and> list_all is_digit eventSeq) (label @ ''.eventSeq is invalid''))
          (check_evidence (Suc i) entries)))))"

definition check_commitments :: "(string \<times> json) list \<Rightarrow> err + unit" where
  "check_commitments commitments =
     thenE (check (jfield commitments ''awaitedSignal'' = Some JNull \<or> is_text (jfield commitments ''awaitedSignal''))
              ''checkpoint awaitedSignal is invalid'')
    (thenE (stringArray (jfield commitments ''pendingApprovalIds'') ''checkpoint pendingApprovalIds'')
    (thenE (stringArray (jfield commitments ''activeChildRunIds'') ''checkpoint activeChildRunIds'')
    (bindE (record_of (jfield commitments ''pendingWork'') ''checkpoint pendingWork'') (\<lambda>pendingWork.
     thenE (stringArray (jfield pendingWork ''active'') ''checkpoint pendingWork.active'')
    (thenE (stringArray (jfield pendingWork ''remaining'') ''checkpoint pendingWork.remaining'')
    (bindE (array_of (jfield pendingWork ''blocked'') ''checkpoint pendingWork.blocked'')
       (check_blocked 0)))))))"

definition check_references :: "(string \<times> json) list \<Rightarrow> err + unit" where
  "check_references references =
     thenE (stringArray (jfield references ''childRunIds'') ''checkpoint childRunIds'')
    (thenE (stringArray (jfield references ''artifactIds'') ''checkpoint artifactIds'')
    (bindE (array_of (jfield references ''evidence'') ''checkpoint evidence'') (check_evidence 0)))"

definition check_selection :: "(string \<times> json) list \<Rightarrow> err + unit" where
  "check_selection selection =
     (let label = (\<lambda>name. ''checkpoint contextSelection.'' @ name); field = jfield selection in
      thenE (check (field ''strategyVersion'' = Some (JStr ''context-compiler/v1''))
               ''checkpoint contextSelection.strategyVersion is invalid'')
     (bindE (nonNegativeInteger (field ''transcriptTailLimit'') (label ''transcriptTailLimit'')) (\<lambda>tailLimit.
      bindE (nonNegativeInteger (field ''transcriptMessagesAvailable'') (label ''transcriptMessagesAvailable'')) (\<lambda>available.
      bindE (nonNegativeInteger (field ''transcriptMessagesSelected'') (label ''transcriptMessagesSelected'')) (\<lambda>selected.
      thenE (check (\<not> (available < selected \<or> tailLimit < selected))
               ''checkpoint contextSelection transcript selection is inconsistent'')
     (thenE (nonNegativeInteger (field ''userMessageCount'') (label ''userMessageCount''))
     (thenE (nonNegativeInteger (field ''approvalOutcomeCount'') (label ''approvalOutcomeCount''))
     (thenE (stringArray (field ''memoryIds'') (label ''memoryIds''))
            (stringArray (field ''skillRefs'') (label ''skillRefs''))))))))))"

definition validateCheckpointEnvelope :: "url_reader \<Rightarrow> (string \<times> json) list \<Rightarrow> err + unit" where
  "validateCheckpointEnvelope rd env =
     thenE (if jfield env ''schemaVersion'' = Some (jint CHECKPOINT_SCHEMA_VERSION) then Inr ()
            else Inl (UnsupportedCheckpointVersionError (jfield env ''schemaVersion'')))
    (thenE (nonNegativeInteger (jfield env ''step'') ''checkpoint step'')
    (thenE (optionalString (jfield env ''transcriptTosKey'') ''transcriptTosKey'')
    (thenE (optionalString (jfield env ''contextSummary'') ''contextSummary'')
    (thenE (if truthy (jfield env ''pendingToolCall'') then thenE (toolCall (jfield env ''pendingToolCall'')) (Inr ())
            else Inr ())
    (thenE (bindE (record_of (jfield env ''commitments'') ''checkpoint commitments'') check_commitments)
    (thenE (bindE (record_of (jfield env ''references'') ''checkpoint references'') check_references)
    (thenE (bindE (record_of (jfield env ''contextSelection'') ''checkpoint contextSelection'') check_selection)
           (assertSafeCheckpointValue rd ''$'' (JObj env)))))))))"

record checkpoint_input =
  ci_step :: rat
  ci_transcriptTosKey :: "string option"
  ci_contextSummary :: "string option"
  ci_supervisor :: "json option"
  ci_pendingToolCall :: "json option"
  ci_commitments :: "json option"
  ci_references :: "json option"
  ci_contextSelection :: "json option"

definition member_if :: "bool \<Rightarrow> string \<Rightarrow> json \<Rightarrow> (string \<times> json) list" where
  "member_if b name v = (if b then [(name, v)] else [])"

definition envelope_of :: "checkpoint_input \<Rightarrow> (string \<times> json) list" where
  "envelope_of i =
     [(''schemaVersion'', jint CHECKPOINT_SCHEMA_VERSION), (''step'', JNum (ci_step i))]
     @ (case ci_transcriptTosKey i of None \<Rightarrow> [] | Some s \<Rightarrow> member_if (s \<noteq> []) ''transcriptTosKey'' (JStr s))
     @ (case ci_contextSummary i of None \<Rightarrow> [] | Some s \<Rightarrow> member_if (s \<noteq> []) ''contextSummary'' (JStr s))
     @ (case ci_supervisor i of None \<Rightarrow> [] | Some v \<Rightarrow> [(''supervisor'', v)])
     @ (case ci_pendingToolCall i of None \<Rightarrow> [] | Some v \<Rightarrow> member_if (truthy (Some v)) ''pendingToolCall'' v)
     @ [(''commitments'', or_else (ci_commitments i) emptyCommitments),
        (''references'', or_else (ci_references i) emptyReferences),
        (''contextSelection'', or_else (ci_contextSelection i) emptyContextSelection)]"

definition createCheckpointEnvelope :: "url_reader \<Rightarrow> checkpoint_input \<Rightarrow> err + (string \<times> json) list" where
  "createCheckpointEnvelope rd i =
     (let envelope = envelope_of i in thenE (validateCheckpointEnvelope rd envelope) (Inr envelope))"

text \<open>An envelope of the first version has the members that the second took over.\<close>

definition migrate_v1 :: "url_reader \<Rightarrow> (string \<times> json) list \<Rightarrow> err + (string \<times> json) list" where
  "migrate_v1 rd legacy =
     bindE (nonNegativeInteger (jfield legacy ''step'') ''checkpoint step'') (\<lambda>step.
     bindE (optionalString (jfield legacy ''transcriptTosKey'') ''transcriptTosKey'') (\<lambda>transcriptTosKey.
     bindE (optionalString (jfield legacy ''contextSummary'') ''contextSummary'') (\<lambda>contextSummary.
     bindE (if truthy (jfield legacy ''pendingToolCall'')
            then bindE (toolCall (jfield legacy ''pendingToolCall'')) (\<lambda>c. Inr (Some c)) else Inr None) (\<lambda>pendingToolCall.
     createCheckpointEnvelope rd
       \<lparr>ci_step = of_int step, ci_transcriptTosKey = transcriptTosKey, ci_contextSummary = contextSummary,
        ci_supervisor = jfield legacy ''supervisor'', ci_pendingToolCall = pendingToolCall,
        ci_commitments = None, ci_references = None, ci_contextSelection = None\<rparr>))))"

definition decodeCheckpointEnvelope :: "url_reader \<Rightarrow> int \<Rightarrow> json \<Rightarrow> err + (string \<times> json) list" where
  "decodeCheckpointEnvelope rd schemaVersion raw =
     (if schemaVersion = 1 then bindE (record_of (Some raw) ''legacy checkpoint state'') (migrate_v1 rd)
      else if schemaVersion \<noteq> CHECKPOINT_SCHEMA_VERSION
      then Inl (UnsupportedCheckpointVersionError (Some (jint schemaVersion)))
      else bindE (record_of (Some raw) ''checkpoint envelope'') (\<lambda>envelope.
             thenE (validateCheckpointEnvelope rd envelope) (Inr envelope)))"

section \<open>JSONB\<close>

text \<open>
  What a value is after \<^verbatim>\<open>JSON.stringify\<close>, a \<^verbatim>\<open>JSONB\<close> column and \<^verbatim>\<open>JSON.parse\<close>. PostgreSQL keeps
  the members of an object by the length of the key, then by its bytes; the engine then lists the
  keys that are array indices first. A text with the character U+0000, in a key or in a string, is
  refused by the cast.
\<close>

definition is_index_key :: "string \<Rightarrow> bool" where
  "is_index_key k \<longleftrightarrow>
     k \<noteq> [] \<and> list_all is_digit k \<and> (hd k = CHR ''0'' \<longrightarrow> k = ''0'')
     \<and> foldl (\<lambda>n c. 10 * n + (of_char c - 48)) (0 :: nat) k < 2 ^ 32 - 1"

definition key_place :: "string \<Rightarrow> bool \<times> nat \<times> string" where
  "key_place k = (\<not> is_index_key k, length k, k)"

definition by_key :: "(string \<times> json) list \<Rightarrow> (string \<times> json) list" where
  "by_key kvs = sort_key (\<lambda>kv. key_place (fst kv)) kvs"

primrec jsonb :: "json \<Rightarrow> json" where
  "jsonb JNull = JNull"
| "jsonb (JBool b) = JBool b"
| "jsonb (JNum q) = JNum q"
| "jsonb (JStr s) = JStr s"
| "jsonb (JArr vs) = JArr (map jsonb vs)"
| "jsonb (JObj kvs) = JObj (by_key (map (map_prod id jsonb) kvs))"

primrec storable :: "json \<Rightarrow> bool" where
  "storable JNull = True"
| "storable (JBool b) = True"
| "storable (JNum q) = True"
| "storable (JStr s) = (CHR 0x00 \<notin> set s)"
| "storable (JArr vs) = list_all id (map storable vs)"
| "storable (JObj kvs) = list_all (\<lambda>(k, ok). CHR 0x00 \<notin> set k \<and> ok) (map (map_prod id storable) kvs)"

definition to_jsonb :: "json \<Rightarrow> err + json" where
  "to_jsonb v = (if storable v then Inr (jsonb v) else Inl (GenericError ''unsupported Unicode escape sequence''))"

section \<open>The table\<close>

text \<open>A check inside a transaction.\<close>

definition liftT :: "err + 'a \<Rightarrow> 'a txn" where
  "liftT r = (case r of Inl e \<Rightarrow> throwT e | Inr x \<Rightarrow> returnT x)"

record checkpoint_insert =
  cn_runId :: string
  cn_attemptId :: string
  cn_eventSeq :: int
  cn_workspaceRevisionId :: "string option"
  cn_progress :: json
  cn_agentState :: "(string \<times> json) list"

definition insertCheckpoint :: "url_reader \<Rightarrow> checkpoint_insert \<Rightarrow> checkpoint_row txn" where
  "insertCheckpoint rd i =
     thenT (liftT (validateCheckpointEnvelope rd (cn_agentState i)))
    (bindT (newId ''ckpt'') (\<lambda>id.
     bindT (liftT (to_jsonb (cn_progress i))) (\<lambda>progress.
     bindT (liftT (to_jsonb (JObj (cn_agentState i)))) (\<lambda>agentState.
     bindT (getsT (\<lambda>w. w)) (\<lambda>w.
     let row = \<lparr>ck_id = id, ck_run_id = cn_runId i, ck_attempt_id = cn_attemptId i, ck_event_seq = cn_eventSeq i,
                ck_workspace_revision_id = cn_workspaceRevisionId i, ck_progress = progress,
                ck_agent_state = agentState, ck_schema_version = CHECKPOINT_SCHEMA_VERSION,
                ck_created_at = w_now w\<rparr> in
     thenT (ensureT (\<not> exists_row (\<lambda>c. ck_id c = id) (w_checkpoints w)) (UniqueViolation ''checkpoints_pkey''))
    (thenT (modifyT (\<lambda>w. w\<lparr>w_checkpoints := w_checkpoints w @ [row]\<rparr>))
    (bindT (liftT (decodeCheckpointEnvelope rd (ck_schema_version row) (ck_agent_state row))) (\<lambda>state.
     returnT (row\<lparr>ck_agent_state := JObj state\<rparr>)))))))))"

text \<open>
  \<^verbatim>\<open>ORDER BY event_seq DESC, created_at DESC LIMIT 1\<close>; which of several rows that tie in both
  comes first is up to the database, \<open>w_scan\<close>.
\<close>

definition newest_checkpoint :: "world \<Rightarrow> string \<Rightarrow> checkpoint_row option" where
  "newest_checkpoint w rid =
     (case rev (sort_key (\<lambda>c. (ck_event_seq c, ck_created_at c, w_scan w c))
              (filter (\<lambda>c. ck_run_id c = rid) (w_checkpoints w))) of
        [] \<Rightarrow> None | c # _ \<Rightarrow> Some c)"

definition latestCheckpoint :: "url_reader \<Rightarrow> world \<Rightarrow> string \<Rightarrow> err + checkpoint_row option" where
  "latestCheckpoint rd w rid =
     (case newest_checkpoint w rid of
        None \<Rightarrow> Inr None
      | Some row \<Rightarrow>
          bindE (decodeCheckpointEnvelope rd (ck_schema_version row) (ck_agent_state row)) (\<lambda>state.
            Inr (Some (row\<lparr>ck_agent_state := JObj state\<rparr>))))"

section \<open>What the checks accept\<close>

named_theorems accept \<open>when a check accepts\<close>

lemma thenE_Inr [accept]: "thenE m n = Inr x \<longleftrightarrow> (\<exists>y. m = Inr y) \<and> n = Inr x"
  by (cases m) (simp_all add: thenE_def)

lemma bindE_Inr [accept]: "bindE m f = Inr x \<longleftrightarrow> (\<exists>y. m = Inr y \<and> f y = Inr x)"
  by (cases m) (simp_all add: bindE_def)

lemma check_Inr [accept]: "check b message = Inr u \<longleftrightarrow> b"
  by (simp add: check_def)

lemma record_of_Inr [accept]: "record_of v label = Inr kvs \<longleftrightarrow> v = Some (JObj kvs)"
  by (auto simp: record_of_def split: option.splits json.splits)

lemma array_of_Inr [accept]: "array_of v label = Inr vs \<longleftrightarrow> v = Some (JArr vs)"
  by (auto simp: array_of_def split: option.splits json.splits)

lemma requiredString_Inr [accept]: "requiredString v label = Inr s \<longleftrightarrow> v = Some (JStr s)"
  by (auto simp: requiredString_def split: option.splits json.splits)

lemma optionalString_Inr [accept]: "optionalString v label = Inr s \<longleftrightarrow> v = map_option JStr s"
  by (cases s) (auto simp: optionalString_def split: option.splits json.splits)

lemma is_text_iff: "is_text v \<longleftrightarrow> (\<exists>s. v = Some (JStr s))"
  by (auto simp: is_text_def split: option.splits json.splits)

lemma is_object_iff: "is_object v \<longleftrightarrow> (\<exists>kvs. v = Some (JObj kvs))"
  by (auto simp: is_object_def split: option.splits json.splits)

text \<open>A count: a whole number that JavaScript represents exactly. A list of strings.\<close>

definition counts :: "json option \<Rightarrow> int \<Rightarrow> bool" where
  "counts v n \<longleftrightarrow> v = Some (jint n) \<and> 0 \<le> n \<and> n \<le> MAX_SAFE_INTEGER"

definition strings :: "json option \<Rightarrow> bool" where
  "strings v \<longleftrightarrow> (\<exists>ss. v = Some (JArr (map JStr ss)))"

lemma nonNegativeInteger_Inr [accept]: "nonNegativeInteger v label = Inr n \<longleftrightarrow> counts v n"
proof -
  have "safe_integer q \<and> 0 \<le> q \<and> \<lfloor>q\<rfloor> = n \<longleftrightarrow> q = of_int n \<and> 0 \<le> n \<and> n \<le> MAX_SAFE_INTEGER" for q
    by (auto simp: safe_integer_def)
  then show ?thesis
    by (auto simp: nonNegativeInteger_def counts_def jint_def split: option.splits json.splits)
qed

lemma all_strings: "list_all is_string vs \<longleftrightarrow> (\<exists>ss. vs = map JStr ss)"
proof (induction vs)
  case (Cons v vs)
  show ?case by (cases v) (auto simp: Cons.IH Cons_eq_map_conv)
qed simp

lemma stringArray_Inr [accept]: "stringArray v label = Inr u \<longleftrightarrow> strings v"
  by (auto simp: stringArray_def strings_def all_strings accept)

section \<open>Secrets, declaratively\<close>

inductive part_of :: "json \<Rightarrow> json \<Rightarrow> bool" where
  part_self: "part_of v v"
| part_element: "v \<in> set vs \<Longrightarrow> part_of x v \<Longrightarrow> part_of x (JArr vs)"
| part_member: "(k, v) \<in> set kvs \<Longrightarrow> part_of x v \<Longrightarrow> part_of x (JObj kvs)"

inductive_simps part_of_simps:
  "part_of x JNull" "part_of x (JBool b)" "part_of x (JNum q)" "part_of x (JStr s)" "part_of x (JArr vs)"
  "part_of x (JObj kvs)"

definition safe_url :: "url_reader \<Rightarrow> string \<Rightarrow> bool" where
  "safe_url rd u \<longleftrightarrow>
     (\<exists>parsed keys. rd (strip_punctuation u) = Some (parsed, keys) \<and> url_username parsed = [] \<and> url_password parsed = []
        \<and> (\<forall>key \<in> set keys. \<not> isCredentialQueryParameter key))"

definition safe_text :: "url_reader \<Rightarrow> string \<Rightarrow> bool" where
  "safe_text rd s \<longleftrightarrow> \<not> looksLikeCredentialValue s \<and> (\<forall>u \<in> set (find_urls s). safe_url rd u)"

text \<open>No string at any depth is or links to a credential, and no object at any depth has a member named like one.\<close>

definition secret_free :: "url_reader \<Rightarrow> json \<Rightarrow> bool" where
  "secret_free rd v \<longleftrightarrow>
     (\<forall>s. part_of (JStr s) v \<longrightarrow> safe_text rd s)
     \<and> (\<forall>kvs k x. part_of (JObj kvs) v \<and> (k, x) \<in> set kvs \<longrightarrow> \<not> rx_test_i forbidden_key k)"

lemma secret_free_simps:
  "secret_free rd JNull" "secret_free rd (JBool b)" "secret_free rd (JNum q)"
  "secret_free rd (JStr s) \<longleftrightarrow> safe_text rd s"
  "secret_free rd (JArr vs) \<longleftrightarrow> (\<forall>v \<in> set vs. secret_free rd v)"
  "secret_free rd (JObj kvs) \<longleftrightarrow> (\<forall>(k, v) \<in> set kvs. \<not> rx_test_i forbidden_key k \<and> secret_free rd v)"
  unfolding secret_free_def by (auto simp: part_of_simps) blast+

lemma check_url_Inr: "check_url rd path u = Inr x \<longleftrightarrow> safe_url rd u"
  by (auto simp: check_url_def safe_url_def accept list_ex_iff split: option.splits)

lemma check_string_Inr: "check_string rd path s = Inr u \<longleftrightarrow> safe_text rd s"
proof -
  have "check_urls rd path us = Inr u \<longleftrightarrow> (\<forall>x \<in> set us. safe_url rd x)" for us
    by (induction us) (auto simp: accept check_url_Inr)
  then show ?thesis by (simp add: check_string_def safe_text_def)
qed

text \<open>The search for secrets is complete.\<close>

lemma assert_safe_iff: "assertSafeCheckpointValue rd path v = Inr u \<longleftrightarrow> secret_free rd v"
proof -
  have "(assertSafeCheckpointValue rd path v = Inr u \<longleftrightarrow> secret_free rd v)"
    "(assert_elements rd path' i vs = Inr u \<longleftrightarrow> (\<forall>v \<in> set vs. secret_free rd v))"
    "(assert_members rd path'' kvs = Inr u \<longleftrightarrow> (\<forall>(k, v) \<in> set kvs. \<not> rx_test_i forbidden_key k \<and> secret_free rd v))"
    for path' path'' i vs kvs
    by (induction rd path v and rd path' i vs and rd path'' kvs rule: assertSafeCheckpointValue_assert_elements_assert_members.induct)
      (auto simp: secret_free_simps accept check_string_Inr)
  then show ?thesis by blast
qed

section \<open>Well-formed envelopes\<close>

definition tool_call :: "json option \<Rightarrow> bool" where
  "tool_call v \<longleftrightarrow>
     (\<exists>kvs i n a. v = Some (JObj kvs) \<and> jfield kvs ''id'' = Some (JStr i) \<and> jfield kvs ''name'' = Some (JStr n)
        \<and> jfield kvs ''arguments'' = Some (JObj a))"

lemma toolCall_Inr [accept]: "toolCall v = Inr c \<longleftrightarrow> tool_call v \<and> v = Some c"
  by (auto simp: toolCall_def tool_call_def accept is_text_iff is_object_iff split: if_splits)

definition blocked_item :: "json \<Rightarrow> bool" where
  "blocked_item v \<longleftrightarrow>
     (\<exists>kvs i r. v = JObj kvs \<and> jfield kvs ''item'' = Some (JStr i) \<and> jfield kvs ''reason'' = Some (JStr r))"

lemma check_blocked_Inr [accept]: "check_blocked i vs = Inr u \<longleftrightarrow> (\<forall>v \<in> set vs. blocked_item v)"
  by (induction vs arbitrary: i) (auto simp: accept blocked_item_def Let_def)

definition evidence_ref :: "json \<Rightarrow> bool" where
  "evidence_ref v \<longleftrightarrow>
     (\<exists>kvs r s. v = JObj kvs \<and> jfield kvs ''runId'' = Some (JStr r) \<and> jfield kvs ''eventSeq'' = Some (JStr s)
        \<and> s \<noteq> [] \<and> (\<forall>c \<in> set s. is_digit c))"

lemma check_evidence_Inr [accept]: "check_evidence i vs = Inr u \<longleftrightarrow> (\<forall>v \<in> set vs. evidence_ref v)"
  by (induction vs arbitrary: i) (auto simp: accept evidence_ref_def Let_def list_all_iff)

definition pending_work_ok :: "json option \<Rightarrow> bool" where
  "pending_work_ok v \<longleftrightarrow>
     (\<exists>kvs vs. v = Some (JObj kvs) \<and> strings (jfield kvs ''active'') \<and> strings (jfield kvs ''remaining'')
        \<and> jfield kvs ''blocked'' = Some (JArr vs) \<and> (\<forall>x \<in> set vs. blocked_item x))"

definition commitments_ok :: "json option \<Rightarrow> bool" where
  "commitments_ok v \<longleftrightarrow>
     (\<exists>kvs. v = Some (JObj kvs)
        \<and> (jfield kvs ''awaitedSignal'' = Some JNull \<or> (\<exists>s. jfield kvs ''awaitedSignal'' = Some (JStr s)))
        \<and> strings (jfield kvs ''pendingApprovalIds'') \<and> strings (jfield kvs ''activeChildRunIds'')
        \<and> pending_work_ok (jfield kvs ''pendingWork''))"

definition references_ok :: "json option \<Rightarrow> bool" where
  "references_ok v \<longleftrightarrow>
     (\<exists>kvs vs. v = Some (JObj kvs) \<and> strings (jfield kvs ''childRunIds'') \<and> strings (jfield kvs ''artifactIds'')
        \<and> jfield kvs ''evidence'' = Some (JArr vs) \<and> (\<forall>x \<in> set vs. evidence_ref x))"

text \<open>The transcript selection is part of what is available and within its limit.\<close>

definition selection_ok :: "json option \<Rightarrow> bool" where
  "selection_ok v \<longleftrightarrow>
     (\<exists>kvs limit available selected users outcomes. v = Some (JObj kvs)
        \<and> jfield kvs ''strategyVersion'' = Some (JStr ''context-compiler/v1'')
        \<and> counts (jfield kvs ''transcriptTailLimit'') limit
        \<and> counts (jfield kvs ''transcriptMessagesAvailable'') available
        \<and> counts (jfield kvs ''transcriptMessagesSelected'') selected \<and> selected \<le> available \<and> selected \<le> limit
        \<and> counts (jfield kvs ''userMessageCount'') users \<and> counts (jfield kvs ''approvalOutcomeCount'') outcomes
        \<and> strings (jfield kvs ''memoryIds'') \<and> strings (jfield kvs ''skillRefs''))"

definition optional_text :: "json option \<Rightarrow> bool" where
  "optional_text v \<longleftrightarrow> (\<exists>s. v = map_option JStr s)"

definition envelope_ok :: "url_reader \<Rightarrow> (string \<times> json) list \<Rightarrow> bool" where
  "envelope_ok rd env \<longleftrightarrow>
     jfield env ''schemaVersion'' = Some (jint 2) \<and> (\<exists>n. counts (jfield env ''step'') n)
     \<and> optional_text (jfield env ''transcriptTosKey'') \<and> optional_text (jfield env ''contextSummary'')
     \<and> (truthy (jfield env ''pendingToolCall'') \<longrightarrow> tool_call (jfield env ''pendingToolCall''))
     \<and> commitments_ok (jfield env ''commitments'') \<and> references_ok (jfield env ''references'')
     \<and> selection_ok (jfield env ''contextSelection'') \<and> secret_free rd (JObj env)"

lemma check_commitments_ok: "bindE (record_of v label) check_commitments = Inr u \<longleftrightarrow> commitments_ok v"
  by (auto simp: accept check_commitments_def commitments_ok_def pending_work_ok_def is_text_iff)

lemma check_references_ok: "bindE (record_of v label) check_references = Inr u \<longleftrightarrow> references_ok v"
  by (auto simp: accept check_references_def references_ok_def)

lemma check_selection_ok: "bindE (record_of v label) check_selection = Inr u \<longleftrightarrow> selection_ok v"
  by (auto simp: accept check_selection_def selection_ok_def Let_def not_less)

lemma validate_iff [accept]: "validateCheckpointEnvelope rd env = Inr u \<longleftrightarrow> envelope_ok rd env"
  unfolding validateCheckpointEnvelope_def envelope_ok_def thenE_Inr [where n = "thenE _ _"] thenE_Inr
    check_commitments_ok check_references_ok check_selection_ok assert_safe_iff
  by (auto simp: accept optional_text_def CHECKPOINT_SCHEMA_VERSION_def tool_call_def)

lemma create_iff [accept]:
  "createCheckpointEnvelope rd i = Inr env \<longleftrightarrow> env = envelope_of i \<and> envelope_ok rd env"
  by (auto simp: createCheckpointEnvelope_def accept Let_def)

text \<open>What an envelope of the first version becomes.\<close>

definition migrates :: "(string \<times> json) list \<Rightarrow> (string \<times> json) list \<Rightarrow> bool" where
  "migrates legacy env \<longleftrightarrow>
     (\<exists>step transcript summary. counts (jfield legacy ''step'') step
        \<and> jfield legacy ''transcriptTosKey'' = map_option JStr transcript
        \<and> jfield legacy ''contextSummary'' = map_option JStr summary
        \<and> (truthy (jfield legacy ''pendingToolCall'') \<longrightarrow> tool_call (jfield legacy ''pendingToolCall''))
        \<and> env = envelope_of \<lparr>ci_step = of_int step, ci_transcriptTosKey = transcript, ci_contextSummary = summary,
            ci_supervisor = jfield legacy ''supervisor'',
            ci_pendingToolCall = (if truthy (jfield legacy ''pendingToolCall'') then jfield legacy ''pendingToolCall'' else None),
            ci_commitments = None, ci_references = None, ci_contextSelection = None\<rparr>)"

lemma decode_v1:
  "decodeCheckpointEnvelope rd 1 raw = Inr env \<longleftrightarrow> (\<exists>legacy. raw = JObj legacy \<and> migrates legacy env \<and> envelope_ok rd env)"
proof -
  have pending: "(if truthy p then bindE (toolCall p) (\<lambda>c. Inr (Some c)) else Inr None) = Inr c \<longleftrightarrow>
      (truthy p \<longrightarrow> tool_call p) \<and> c = (if truthy p then p else None)" for p c
    by (cases p) (auto simp: accept)
  have "migrate_v1 rd legacy = Inr env \<longleftrightarrow> migrates legacy env \<and> envelope_ok rd env" for legacy
    unfolding migrate_v1_def migrates_def bindE_Inr pending create_iff nonNegativeInteger_Inr optionalString_Inr by blast
  then show ?thesis by (simp add: decodeCheckpointEnvelope_def accept)
qed

section \<open>JSONB keeps the content\<close>

text \<open>
  The content of a value: what stands at the end of every path through members and elements. It
  leaves open the order of the members and nothing else.
\<close>

datatype json_step = Member string | Element nat

fun json_at :: "json_step list \<Rightarrow> json \<Rightarrow> json option" where
  "json_at [] v = Some v"
| "json_at (Member k # p) (JObj kvs) = (case jfield kvs k of None \<Rightarrow> None | Some v \<Rightarrow> json_at p v)"
| "json_at (Element i # p) (JArr vs) = (if i < length vs then json_at p (vs ! i) else None)"
| "json_at _ _ = None"

fun outline :: "json \<Rightarrow> json" where
  "outline (JArr vs) = JArr []"
| "outline (JObj kvs) = JObj []"
| "outline v = v"

definition same_content :: "json \<Rightarrow> json \<Rightarrow> bool" where
  "same_content a b \<longleftrightarrow> (\<forall>p. map_option outline (json_at p a) = map_option outline (json_at p b))"

lemma lookup_filter: "map_of kvs k = (case filter (\<lambda>kv. fst kv = k) kvs of [] \<Rightarrow> None | kv # _ \<Rightarrow> Some (snd kv))"
  by (induction kvs) auto

lemma key_place_eq: "key_place k = key_place k' \<longleftrightarrow> k = k'"
  by (auto simp: key_place_def)

text \<open>A stable sort by key changes no lookup.\<close>

lemma jfield_by_key [simp]: "jfield (by_key kvs) k = jfield kvs k"
proof -
  have "filter (\<lambda>kv. key_place (fst kv) = key_place k) (by_key kvs) = filter (\<lambda>kv. key_place (fst kv) = key_place k) kvs"
    unfolding by_key_def by (rule sort_key_stable)
  then show ?thesis by (simp add: jfield_def lookup_filter [of _ k] key_place_eq)
qed

lemma jfield_map: "jfield (map (map_prod id f) kvs) k = map_option f (jfield kvs k)"
  unfolding jfield_def by (induction kvs) auto

lemma set_by_key [simp]: "set (by_key kvs) = set kvs"
  by (simp add: by_key_def)

lemma outline_jsonb [simp]: "outline (jsonb v) = outline v"
  by (cases v) simp_all

lemma json_at_jsonb: "json_at p (jsonb v) = map_option jsonb (json_at p v)"
  by (induction p v rule: json_at.induct) (auto simp: jfield_map split: option.splits)

lemma jsonb_same_content: "same_content (jsonb v) v"
  unfolding same_content_def by (simp add: json_at_jsonb option.map_comp comp_def)

text \<open>And what the checks accept they accept after the column as well.\<close>

lemma jsonb_leaf [simp]:
  "jsonb v = JNull \<longleftrightarrow> v = JNull" "jsonb v = JStr s \<longleftrightarrow> v = JStr s" "jsonb v = JNum q \<longleftrightarrow> v = JNum q"
  "jsonb (jint n) = jint n"
  by (cases v; simp add: jint_def)+

lemma jsonb_accepted:
  "strings v \<Longrightarrow> strings (map_option jsonb v)" "counts v n \<Longrightarrow> counts (map_option jsonb v) n"
  "optional_text v \<Longrightarrow> optional_text (map_option jsonb v)" "truthy (map_option jsonb v) = truthy v"
  "tool_call v \<Longrightarrow> tool_call (map_option jsonb v)"
  "blocked_item x \<Longrightarrow> blocked_item (jsonb x)" "evidence_ref x \<Longrightarrow> evidence_ref (jsonb x)"
  subgoal by (auto simp: strings_def comp_def)
  subgoal by (auto simp: counts_def)
  subgoal by (auto simp: optional_text_def option.map_comp comp_def)
  subgoal by (cases v; simp; cases "the v"; simp)
  subgoal by (force simp: tool_call_def jfield_map)
  subgoal by (force simp: blocked_item_def jfield_map)
  subgoal by (force simp: evidence_ref_def jfield_map)
  done

lemma jsonb_sections:
  "pending_work_ok v \<Longrightarrow> pending_work_ok (map_option jsonb v)"
  "references_ok v \<Longrightarrow> references_ok (map_option jsonb v)"
  "selection_ok v \<Longrightarrow> selection_ok (map_option jsonb v)"
  subgoal unfolding pending_work_ok_def by (elim exE conjE) (auto simp: jfield_map intro: jsonb_accepted)
  subgoal unfolding references_ok_def by (elim exE conjE) (auto simp: jfield_map intro: jsonb_accepted)
  subgoal unfolding selection_ok_def by (elim exE conjE) (simp add: jfield_map, meson jsonb_accepted)
  done

lemma jsonb_commitments: "commitments_ok v \<Longrightarrow> commitments_ok (map_option jsonb v)"
  unfolding commitments_ok_def by (elim exE conjE) (auto simp: jfield_map intro: jsonb_accepted jsonb_sections)

lemma jsonb_secret_free: "secret_free rd v \<Longrightarrow> secret_free rd (jsonb v)"
proof (induction v)
  case (JObj kvs)
  then show ?case by (fastforce simp: secret_free_simps)
qed (auto simp: secret_free_simps)

lemma jsonb_envelope_ok:
  assumes "envelope_ok rd env"
  shows "envelope_ok rd (by_key (map (map_prod id jsonb) env))"
  using assms jsonb_secret_free [of rd "JObj env"]
  unfolding envelope_ok_def
  by (auto simp: jfield_map jsonb_accepted(4) intro: jsonb_accepted jsonb_sections jsonb_commitments)

section \<open>The table of checkpoints\<close>

lemma liftT_iff [tx_simps]: "liftT r w = Inr (x, w') \<longleftrightarrow> r = Inr x \<and> w' = w"
  by (cases r) (auto simp: liftT_def tx_simps)

lemma to_jsonb_Inr [accept]: "to_jsonb v = Inr x \<longleftrightarrow> storable v \<and> x = jsonb v"
  by (auto simp: to_jsonb_def)

lemma insertCheckpoint_iff:
  "insertCheckpoint rd i w = Inr (c, w') \<longleftrightarrow>
     (let id = ''ckpt_'' @ toLowerCase (w_ulid w (w_ulid_next w));
          row = \<lparr>ck_id = id, ck_run_id = cn_runId i, ck_attempt_id = cn_attemptId i, ck_event_seq = cn_eventSeq i,
                ck_workspace_revision_id = cn_workspaceRevisionId i, ck_progress = jsonb (cn_progress i),
                ck_agent_state = jsonb (JObj (cn_agentState i)), ck_schema_version = 2, ck_created_at = w_now w\<rparr>
      in envelope_ok rd (cn_agentState i) \<and> storable (cn_progress i) \<and> storable (JObj (cn_agentState i))
         \<and> \<not> exists_row (\<lambda>c. ck_id c = id) (w_checkpoints w) \<and> c = row
         \<and> w' = w\<lparr>w_ulid_next := Suc (w_ulid_next w), w_checkpoints := w_checkpoints w @ [row]\<rparr>)"
  using jsonb_envelope_ok [of rd "cn_agentState i"]
  by (auto simp: insertCheckpoint_def newId_def tx_simps Let_def accept CHECKPOINT_SCHEMA_VERSION_def
      decodeCheckpointEnvelope_def simp del: storable.simps)

lemma insertCheckpoint_kernel_from [hoare_rules]: "keeps (kernel_from w0) (insertCheckpoint rd i)"
  by (auto simp: hoare_def insertCheckpoint_iff Let_def)

text \<open>A row that is newer than all others of its run is the newest, however ties are resolved.\<close>

lemma newest_last:
  assumes "\<forall>c \<in> set (w_checkpoints w). ck_run_id c = ck_run_id row \<longrightarrow>
      (ck_event_seq c, ck_created_at c) < (ck_event_seq row, ck_created_at row)"
    and "w_checkpoints w' = w_checkpoints w @ [row]" and "rid = ck_run_id row"
  shows "newest_checkpoint w' rid = Some row"
proof -
  have "sort_key k (xs @ [x]) = sort_key k xs @ [x]" if "\<forall>y \<in> set xs. k y \<le> k x" for k :: "'c \<Rightarrow> int \<times> int \<times> nat" and xs x
    using that
  proof (induction xs)
    case (Cons y ys)
    have "insort_key k y (zs @ [x]) = insort_key k y zs @ [x]" if "k y \<le> k x" for zs
      using that by (induction zs) auto
    with Cons show ?case by simp
  qed simp
  from this [of "filter (\<lambda>c. ck_run_id c = rid) (w_checkpoints w)" "\<lambda>c. (ck_event_seq c, ck_created_at c, w_scan w' c)" row]
  show ?thesis using assms by (fastforce simp: newest_checkpoint_def)
qed

text \<open>
  C26: what an epoch restores is well-formed. Decoding accepts an envelope of the current
  version if and only if it is a well-formed one without secrets, and gives it back; an envelope of
  the first version if and only if its members are well-formed, and gives its migration; and no other version. So
  whatever is in the table, the step, the references and the pending call that an epoch
  starts from have the types that the code relies on.
\<close>

theorem decode_accepts:
  "decodeCheckpointEnvelope rd version raw = Inr env \<longleftrightarrow>
     (if version = 1 then \<exists>legacy. raw = JObj legacy \<and> migrates legacy env \<and> envelope_ok rd env
      else version = 2 \<and> raw = JObj env \<and> envelope_ok rd env)"
proof (cases "version = 1")
  case True
  then show ?thesis by (auto simp: decode_v1 accept)
next
  case False
  then show ?thesis by (auto simp: decodeCheckpointEnvelope_def CHECKPOINT_SCHEMA_VERSION_def accept)
qed

text \<open>
  C27: a checkpoint survives the table. What \<^verbatim>\<open>createCheckpointEnvelope\<close> builds is accepted by the insert
  unless it or the progress holds the character U+0000, which the database refuses; and if
  all other rows of the run are older, the run's next epoch reads back an envelope and a
  progress with the same content at every path, in whatever order their members come, and the
  workspace revision that was saved. The checkpoints of other runs stay as they are.
\<close>

theorem checkpoint_roundtrip:
  assumes created: "createCheckpointEnvelope rd i = Inr env" and state: "cn_agentState row = env"
    and fresh: "\<forall>c \<in> set (w_checkpoints w). ck_id c \<noteq> ''ckpt_'' @ toLowerCase (w_ulid w (w_ulid_next w))"
    and newest: "\<forall>c \<in> set (w_checkpoints w). ck_run_id c = cn_runId row \<longrightarrow>
        (ck_event_seq c, ck_created_at c) < (cn_eventSeq row, w_now w)"
  shows "if storable (JObj env) \<and> storable (cn_progress row)
    then \<exists>c w'. insertCheckpoint rd row w = Inr (c, w')
     \<and> latestCheckpoint rd w' (cn_runId row) = Inr (Some c)
     \<and> same_content (ck_agent_state c) (JObj env) \<and> same_content (ck_progress c) (cn_progress row)
     \<and> ck_workspace_revision_id c = cn_workspaceRevisionId row \<and> ck_event_seq c = cn_eventSeq row
     \<and> (\<forall>rid. rid \<noteq> cn_runId row \<longrightarrow> latestCheckpoint rd w' rid = latestCheckpoint rd w rid)
    else \<exists>e. insertCheckpoint rd row w = Inl e"
proof (cases "storable (JObj env) \<and> storable (cn_progress row)")
  case True
  let ?id = "''ckpt_'' @ toLowerCase (w_ulid w (w_ulid_next w))" and ?env = "by_key (map (map_prod id jsonb) env)"
  let ?c = "\<lparr>ck_id = ?id, ck_run_id = cn_runId row, ck_attempt_id = cn_attemptId row, ck_event_seq = cn_eventSeq row,
                ck_workspace_revision_id = cn_workspaceRevisionId row, ck_progress = jsonb (cn_progress row),
                ck_agent_state = jsonb (JObj env), ck_schema_version = 2, ck_created_at = w_now w\<rparr>"
  let ?w = "w\<lparr>w_ulid_next := Suc (w_ulid_next w), w_checkpoints := w_checkpoints w @ [?c]\<rparr>"
  have ok: "envelope_ok rd env" using created unfolding create_iff by blast
  from jsonb_envelope_ok [OF this] have decode: "decodeCheckpointEnvelope rd 2 (jsonb (JObj env)) = Inr ?env"
    by (simp add: decodeCheckpointEnvelope_def CHECKPOINT_SCHEMA_VERSION_def accept)
  have insert: "insertCheckpoint rd row w = Inr (?c, ?w)"
    using fresh state ok True unfolding insertCheckpoint_iff Let_def by (simp add: exists_row_iff del: storable.simps)
  have "newest_checkpoint ?w (cn_runId row) = Some ?c"
    using newest by (intro newest_last) auto
  then have "latestCheckpoint rd ?w (cn_runId row) = Inr (Some ?c)"
    using decode by (simp add: latestCheckpoint_def bindE_def)
  moreover have "latestCheckpoint rd ?w rid = latestCheckpoint rd w rid" if "rid \<noteq> cn_runId row" for rid
    using that by (simp add: latestCheckpoint_def newest_checkpoint_def)
  ultimately have "\<exists>c w'. insertCheckpoint rd row w = Inr (c, w')
     \<and> latestCheckpoint rd w' (cn_runId row) = Inr (Some c)
     \<and> same_content (ck_agent_state c) (JObj env) \<and> same_content (ck_progress c) (cn_progress row)
     \<and> ck_workspace_revision_id c = cn_workspaceRevisionId row \<and> ck_event_seq c = cn_eventSeq row
     \<and> (\<forall>rid. rid \<noteq> cn_runId row \<longrightarrow> latestCheckpoint rd w' rid = latestCheckpoint rd w rid)"
    using insert jsonb_same_content [of "JObj env"] jsonb_same_content [of "cn_progress row"]
    by (intro exI [of _ ?c] exI [of _ ?w] conjI allI impI) simp_all
  with True show ?thesis by (simp only: if_True simp_thms)
next
  case False
  then have "insertCheckpoint rd row w \<noteq> Inr (c, w')" for c w'
    using state unfolding insertCheckpoint_iff Let_def by blast
  then have "\<exists>e. insertCheckpoint rd row w = Inl e" by (cases "insertCheckpoint rd row w") auto
  with False show ?thesis by (simp only: if_False)
qed

section \<open>A worked example\<close>

text \<open>A suspended call whose arguments hold a link; the same link with a token in its query is refused.\<close>

definition demo_reader :: url_reader where
  "demo_reader raw =
     (if raw = ''https://x.y/a'' then Some (demo_url, [])
      else if raw = ''https://x.y/a?token=1'' then Some (demo_url, [''token'']) else None)"

definition demo_state :: "string \<Rightarrow> checkpoint_input" where
  "demo_state link =
     \<lparr>ci_step = 3, ci_transcriptTosKey = Some ''t'', ci_contextSummary = None, ci_supervisor = None,
      ci_pendingToolCall = Some (JObj [(''id'', JStr ''c1''), (''name'', JStr ''file_read''),
        (''arguments'', JObj [(''path'', JStr link)])]),
      ci_commitments = None, ci_references = None, ci_contextSelection = None\<rparr>"

lemma demo_state_ok: "createCheckpointEnvelope demo_reader (demo_state ''https://x.y/a.'') =
    Inr (envelope_of (demo_state ''https://x.y/a.''))"
  by code_simp

definition demo_insert :: checkpoint_insert where
  "demo_insert = \<lparr>cn_runId = ''run_1'', cn_attemptId = ''att_1'', cn_eventSeq = 5, cn_workspaceRevisionId = None,
     cn_progress = JObj [], cn_agentState = envelope_of (demo_state ''https://x.y/a.'')\<rparr>"

lemma demo_storable: "storable (JObj (envelope_of (demo_state ''https://x.y/a.'')))"
  by code_simp

theorem checkpoint_roundtrip_witness:
  "\<exists>c w'. insertCheckpoint demo_reader demo_insert demo_base = Inr (c, w')
     \<and> latestCheckpoint demo_reader w' ''run_1'' = Inr (Some c) \<and> ck_event_seq c = 5
     \<and> assertSafeCheckpointValue demo_reader ''$'' (JObj [(''path'', JStr ''https://x.y/a?token=1'')])
        = Inl (GenericError ''checkpoint contains a signed or credential-bearing URL at $.path'')"
proof -
  have "assertSafeCheckpointValue demo_reader ''$'' (JObj [(''path'', JStr ''https://x.y/a?token=1'')])
        = Inl (GenericError ''checkpoint contains a signed or credential-bearing URL at $.path'')"
    by code_simp
  moreover have "w_checkpoints demo_base = []" by (simp add: demo_base_def fresh_database_def)
  ultimately show ?thesis
    using checkpoint_roundtrip [OF demo_state_ok, of demo_insert demo_base] demo_storable by (auto simp: demo_insert_def)
qed

end
