(* ===== verification/Governed_Inputs.thy ===== *)
theory Governed_Inputs
  imports Governed_Safety
begin

text \<open>
  What a connector is handed: the input of every dispatch of \<^verbatim>\<open>src/harness/governedAction.ts\<close> is
  accounted for by what the execution has read. The tools rest on this when they turn grants and credentials
  into requests.
\<close>

section \<open>Suppliers\<close>

text \<open>
  \<open>supplies P m\<close>: every dispatch of \<open>m\<close> satisfies \<open>P\<close>, which may look at the events of the execution.
\<close>

type_synonym evidence = "trace_event set \<Rightarrow> governed_input \<Rightarrow> dispatch_result \<Rightarrow> bool"

definition supplies :: "evidence \<Rightarrow> 'a proc \<Rightarrow> bool" where
  "supplies P m \<longleftrightarrow> tspec m (\<lambda>es _. \<forall>inp d. Call_dispatch inp d \<in> set es \<longrightarrow> P (set es) inp d)"

lemma no_dispatchD: "no_dispatch es \<Longrightarrow> Call_dispatch inp d \<notin> set es"
  by (auto simp: no_dispatch_def)

lemma supplies_no_dispatch: "tspec m (\<lambda>es res. no_dispatch es \<and> Q es res) \<Longrightarrow> supplies P m"
  unfolding supplies_def by (erule tspec_mono) (simp add: no_dispatchD)

lemma supplies_aside: "aside m \<Longrightarrow> supplies P m"
  unfolding aside_def by (rule supplies_no_dispatch)

lemma supplies_mono:
  "supplies P m \<Longrightarrow> (\<And>E inp d. P E inp d \<Longrightarrow> R E inp d) \<Longrightarrow> supplies R m"
  unfolding supplies_def by (erule tspec_mono) blast

lemma supplies_bindP:
  assumes "tspec m (\<lambda>es res. no_dispatch es \<and> Q es res)"
    and "\<And>es x. Q es (Inr x) \<Longrightarrow> supplies (\<lambda>E. P (set es \<union> E)) (f x)"
  shows "supplies P (bindP m f)"
  unfolding supplies_def
proof (rule tspec_bindP [OF assms(1)])
  fix es and e :: err assume "no_dispatch es \<and> Q es (Inl e)"
  then show "\<forall>inp d. Call_dispatch inp d \<in> set es \<longrightarrow> P (set es) inp d" by (simp add: no_dispatchD)
next
  fix es x assume es: "no_dispatch es \<and> Q es (Inr x)"
  show "tspec (f x) (\<lambda>es' res. \<forall>inp d. Call_dispatch inp d \<in> set (es @ es') \<longrightarrow> P (set (es @ es')) inp d)"
  proof (rule tspec_mono)
    show "tspec (f x) (\<lambda>es' _. \<forall>inp d. Call_dispatch inp d \<in> set es' \<longrightarrow> P (set es \<union> set es') inp d)"
      using assms(2) es unfolding supplies_def by blast
  qed (use es in \<open>auto dest: no_dispatchD\<close>)
qed

lemma supplies_quiet_thenP:
  "quiet m \<Longrightarrow> supplies P n \<Longrightarrow> (\<And>E F inp d. P F inp d \<Longrightarrow> P (E \<union> F) inp d) \<Longrightarrow> supplies P (thenP m n)"
  unfolding thenP_def
  by (rule supplies_bindP [OF tspec_quiet]) (auto elim: supplies_mono)

lemma supplies_if: "(b \<Longrightarrow> supplies P m) \<Longrightarrow> (\<not> b \<Longrightarrow> supplies P n) \<Longrightarrow> supplies P (if b then m else n)"
  by simp

lemma supplies_option:
  "(x = None \<Longrightarrow> supplies P m) \<Longrightarrow> (\<And>y. x = Some y \<Longrightarrow> supplies P (f y)) \<Longrightarrow>
   supplies P (case x of None \<Rightarrow> m | Some y \<Rightarrow> f y)"
  by (cases x) auto

lemma supplies_prod: "supplies P (f a b) \<Longrightarrow> supplies P (case (a, b) of (x, y) \<Rightarrow> f x y)"
  by simp

lemmas supplies_cases = supplies_if supplies_option supplies_prod
lemmas supplies_asides = aside_rules [THEN supplies_aside]

section \<open>The phases\<close>

definition given :: "action_spec \<Rightarrow> governed_input \<Rightarrow> evidence" where
  "given spec inp E inp' d \<longleftrightarrow> inp' = inp \<and> (\<exists>n. d = sp_dispatch spec inp n)"

lemma supplies_dispatch: "supplies (given spec inp) (fenced_dispatch ctx spec inp rid)"
  unfolding supplies_def
  by (rule tspec_mono [OF tspec_fenced_dispatch]) (force simp: given_def dest: no_dispatchD)

lemma supplies_boundary: "supplies (given spec inp) (fenced_boundary ctx spec inp usable approvalId undispatched rid)"
proof -
  have go: "supplies (given spec inp) (thenP (withTransaction (assertCurrentActionOwner ctx)) (fenced_dispatch ctx spec inp rid))"
    by (intro supplies_quiet_thenP supplies_dispatch tspec_rules) (simp add: given_def)
  have check: "quiet (case usable of None \<Rightarrow> returnP True
      | Some g \<Rightarrow> query (\<lambda>w. revalidateGrantForDispatch w (gr_id g) (cx_run ctx) (sp_action spec) (sp_resource spec)))"
    by (cases usable) (simp_all add: tspec_rules)
  have inside: "supplies (\<lambda>E. given spec inp (F \<union> E)) m" if "supplies (given spec inp) m" for F and m :: "action_result proc"
    using that by (rule supplies_mono) (simp add: given_def)
  have same: "(\<lambda>E. given spec inp (F \<union> E)) = given spec inp" for F
    by (simp add: fun_eq_iff given_def)
  show ?thesis
    unfolding fenced_boundary_def Let_def
  proof (intro supplies_quiet_thenP tspec_rules, rule supplies_bindP [OF tspec_quiet [OF check]], goal_cases)
    case (1 es b)
    show ?case
      unfolding same
    proof (intro supplies_cases supplies_asides go, rule supplies_bindP [OF tspec_lock_approval], goal_cases)
      case (1 g aid es' ap)
      show ?case unfolding same by (intro supplies_cases supplies_asides go)
    qed
  qed (simp_all add: given_def)
qed

lemma supplies_receipt: "supplies (given spec inp) (fenced_receipt ctx spec inp pending knownAbsent usable approvalId)"
  unfolding fenced_receipt_def
proof (rule supplies_bindP [OF tspec_quiet])
  show "quiet (case pending of None \<Rightarrow> withTransaction (open_receipt ctx spec (di_key inp) usable approvalId)
      | Some r \<Rightarrow> returnP r)"
    by (cases pending) (simp_all add: tspec_rules)
qed (rule supplies_mono [OF supplies_boundary], simp add: given_def)

text \<open>The credential of a dispatch is the one that was resolved for its key.\<close>

definition with_credential :: "action_ctx \<Rightarrow> action_spec \<Rightarrow> string \<Rightarrow> string list \<Rightarrow> evidence" where
  "with_credential ctx spec key patterns E inp d \<longleftrightarrow>
     di_key inp = key \<and> di_patterns inp = patterns \<and> (\<exists>n. d = sp_dispatch spec inp n)
     \<and> (case cx_credentials ctx of
          None \<Rightarrow> di_credential inp = None
        | Some f \<Rightarrow> Call_credential key (Cred_resolved (di_credential inp)) \<in> E)"

lemma with_credential_mono:
  "with_credential ctx spec key patterns F inp d \<Longrightarrow> with_credential ctx spec key patterns (E \<union> F) inp d"
  by (auto simp: with_credential_def split: option.splits)

lemma supplies_credential:
  "supplies (with_credential ctx spec key patterns)
     (fenced_credential ctx spec key patterns pending knownAbsent usable approvalId)"
proof -
  let ?resolve = "case cx_credentials ctx of None \<Rightarrow> returnP (Cred_resolved None)
      | Some f \<Rightarrow> external f (Call_credential key)"
  let ?R = "\<lambda>es res. \<forall>c. res = Inr (Cred_resolved c) \<longrightarrow>
      (case cx_credentials ctx of None \<Rightarrow> c = None | Some f \<Rightarrow> Call_credential key (Cred_resolved c) \<in> set es)"
  have resolve: "tspec ?resolve (\<lambda>es res. no_dispatch es \<and> ?R es res)"
    by (cases "cx_credentials ctx") (simp_all add: tspec_returnP tspec_external)
  show ?thesis
    unfolding fenced_credential_def Let_def
  proof (rule supplies_bindP [OF resolve], goal_cases)
    case (1 es c)
    show ?case
    proof (cases c)
      case Cred_throws
      have "aside (thenP (withTransaction (append_audit ctx spec ToolInvocationFailed
                  [(''stage'', JStr ''credential''), (''reconciliationRequired'', JBool False)]))
               (throwP (GenericError (''credential resolution failed for '' @ sp_action spec))))"
        by (intro aside_thenP tspec_rules aside_throwP)
      then show ?thesis unfolding Cred_throws credential_result.case by (rule supplies_aside)
    next
      case (Cred_resolved x)
      have proceed: "supplies (\<lambda>E. with_credential ctx spec key patterns (set es \<union> (F \<union> E)))
          (fenced_receipt ctx spec \<lparr>di_key = key, di_credential = x, di_patterns = patterns\<rparr> pending knownAbsent usable approvalId)"
        for F
        by (rule supplies_mono [OF supplies_receipt])
          (use 1 in \<open>auto simp: given_def with_credential_def Cred_resolved split: option.splits\<close>)
      show ?thesis
        unfolding Cred_resolved credential_result.case
      proof (intro supplies_cases proceed [of "{}", simplified], rule supplies_bindP [OF tspec_lock_approval], goal_cases)
        case (1 g aid es' ap)
        show ?case by (intro supplies_cases supplies_asides proceed)
      qed
    qed
  qed
qed

lemma supplies_approval:
  "supplies (with_credential ctx spec key patterns) (fenced_approval ctx spec key patterns pending knownAbsent usable)"
proof -
  have go: "supplies (\<lambda>E. with_credential ctx spec key patterns (F \<union> E))
      (fenced_credential ctx spec key patterns pending knownAbsent usable aid)" for F aid
    by (rule supplies_mono [OF supplies_credential]) (rule with_credential_mono)
  have recorded: "quiet (case x of Some aid \<Rightarrow> returnP (Some aid) | None \<Rightarrow> query (latest_approval ctx key))" for x
    by (cases x) (simp_all add: tspec_rules)
  show ?thesis
    unfolding fenced_approval_def Let_def
  proof (intro supplies_if go [where F = "{}", simplified], rule supplies_bindP [OF tspec_quiet [OF recorded]], goal_cases)
    case (1 es ap)
    show ?case
    proof (intro supplies_cases supplies_asides, rule supplies_bindP [OF tspec_lock_approval], goal_cases)
      case (1 aid es' found)
      show ?case
        unfolding Un_assoc [symmetric]
        by (intro supplies_cases supplies_asides go supplies_aside [OF aside_returnP]) simp_all
    qed
  qed
qed

text \<open>
  The patterns of a dispatch are those of the grants that were usable in a database the execution has read, and
  the validation has accepted them.
\<close>

definition input_evidence :: "action_ctx \<Rightarrow> action_spec \<Rightarrow> string \<Rightarrow> evidence" where
  "input_evidence ctx spec key E inp d \<longleftrightarrow>
     with_credential ctx spec key (di_patterns inp) E inp d
     \<and> (\<exists>w recovering. Db w \<in> E
          \<and> di_patterns inp = map gr_resource_pattern (usable_grants spec recovering (declared_grants ctx spec w))
          \<and> (\<forall>v. sp_validate spec = Some v \<longrightarrow>
               v (declared_grants ctx spec w \<noteq> []) (map (\<lambda>(g, _). gr_resource_pattern g) (declared_grants ctx spec w))
                 (di_patterns inp) = None))"

lemma input_evidence_mono: "input_evidence ctx spec key F inp d \<Longrightarrow> input_evidence ctx spec key (E \<union> F) inp d"
  unfolding input_evidence_def using with_credential_mono by blast

lemma supplies_policy: "supplies (input_evidence ctx spec key) (fenced_policy ctx spec key pending knownAbsent)"
  unfolding fenced_policy_def Let_def
proof (rule supplies_bindP [OF tspec_query], goal_cases)
  case (1 es declared)
  then obtain w where w: "es = [Db w]" "declared = declared_grants ctx spec w" by auto
  let ?usable = "usable_grants spec (pending \<noteq> None) declared"
  have go: "supplies (\<lambda>E. input_evidence ctx spec key (set es \<union> E))
      (fenced_approval ctx spec key (map gr_resource_pattern ?usable) pending knownAbsent usableGrant)"
    if "(case sp_validate spec of None \<Rightarrow> None
         | Some v \<Rightarrow> v (declared \<noteq> []) (map (\<lambda>(g, _). gr_resource_pattern g) declared) (map gr_resource_pattern ?usable)) = None"
    for usableGrant
  proof (rule supplies_mono [OF supplies_approval])
    fix E inp d assume inp: "with_credential ctx spec key (map gr_resource_pattern ?usable) E inp d"
    then have "di_patterns inp = map gr_resource_pattern ?usable" by (simp add: with_credential_def)
    then show "input_evidence ctx spec key (set es \<union> E) inp d"
      using inp that with_credential_mono [of ctx spec key "di_patterns inp" E inp d "set es"] w
      unfolding input_evidence_def by (intro conjI exI [of _ w] exI [of _ "pending \<noteq> None"]) auto
  qed
  show ?case
    by (intro supplies_cases supplies_asides go) simp_all
qed

lemma supplies_recovery: "supplies (input_evidence ctx spec key) (fenced_recovery ctx spec key receipt)"
  unfolding fenced_recovery_def
proof (intro supplies_cases supplies_asides supplies_policy, goal_cases)
  case (1 f)
  have rec: "tspec (external (f key) (Call_reconcile key)) (\<lambda>es res. no_dispatch es \<and> True)"
    by (rule tspec_external) simp
  show ?case
  proof (rule supplies_bindP [OF rec], goal_cases)
    case (1 es d)
    show ?case
    proof (cases d)
      case (Rec_committed val ext audit)
      have "quiet (thenP (withTransaction (commit_action ctx spec (rc_id receipt) val ext audit True))
                    (returnP (Completed val True)))" by (intro tspec_rules)
      then show ?thesis by (simp add: Rec_committed supplies_no_dispatch [OF tspec_quiet])
    next
      case Rec_not_found
      show ?thesis
        unfolding Rec_not_found reconcile_result.case
        by (rule supplies_mono [OF supplies_policy]) (rule input_evidence_mono)
    qed (simp_all add: supplies_asides)
  qed
qed

lemma supplies_execution: "supplies (input_evidence ctx spec key) (executeGovernedActionFenced ctx spec key)"
  unfolding executeGovernedActionFenced_def
proof (rule supplies_quiet_thenP [OF quiet_withTransaction], goal_cases)
  case 1
  show ?case
  proof (rule supplies_bindP [OF tspec_query], goal_cases)
    case (1 es existing)
    show ?case
      by (intro supplies_cases supplies_aside [OF aside_returnP] supplies_no_dispatch [OF tspec_quiet] tspec_rules
          supplies_mono [OF supplies_policy] supplies_mono [OF supplies_recovery] input_evidence_mono) simp_all
  qed
qed (rule input_evidence_mono)


section \<open>What a process keeps\<close>

text \<open>
  \<open>maintains I m\<close>: if what the others do keeps \<open>I\<close>, every database that \<open>m\<close> commits satisfies \<open>I\<close>.
\<close>

named_theorems maintain_rules \<open>introduction rules for invariants of processes\<close>

definition guarded :: "(world \<Rightarrow> bool) \<Rightarrow> proc_state \<Rightarrow> bool" where
  "guarded I g \<longleftrightarrow> I (ps_world g) \<and> (\<forall>n w. I w \<longrightarrow> I (ps_env g n w))"

definition maintains :: "(world \<Rightarrow> bool) \<Rightarrow> 'a proc \<Rightarrow> bool" where
  "maintains I m \<longleftrightarrow> (\<forall>g. guarded I g \<longrightarrow> guarded I (snd (m g))
     \<and> (\<exists>es. ps_trace (snd (m g)) = ps_trace g @ es \<and> (\<forall>w. Db w \<in> set es \<longrightarrow> I w)))"

lemma maintainsD:
  assumes "maintains I m" and "guarded I g"
  obtains es where "guarded I (snd (m g))" "ps_trace (snd (m g)) = ps_trace g @ es" "\<forall>w. Db w \<in> set es \<longrightarrow> I w"
  using assms unfolding maintains_def by blast

lemma maintains_returnP [maintain_rules]: "maintains I (returnP x)"
  by (simp add: maintains_def returnP_def)

lemma maintains_throwP [maintain_rules]: "maintains I (throwP e)"
  by (simp add: maintains_def throwP_def)

lemma maintains_bindP [maintain_rules]:
  assumes "maintains I m" and "\<And>x. maintains I (f x)"
  shows "maintains I (bindP m f)"
  unfolding maintains_def
proof (intro allI impI)
  fix g assume "guarded I g"
  with assms(1) obtain es where m: "guarded I (snd (m g))" "ps_trace (snd (m g)) = ps_trace g @ es" "\<forall>w. Db w \<in> set es \<longrightarrow> I w"
    by (rule maintainsD)
  show "guarded I (snd (bindP m f g)) \<and>
      (\<exists>es. ps_trace (snd (bindP m f g)) = ps_trace g @ es \<and> (\<forall>w. Db w \<in> set es \<longrightarrow> I w))"
  proof (cases "fst (m g)")
    case (Inl e)
    then have "bindP m f g = (Inl e, snd (m g))" by (cases "m g") (simp add: bindP_def)
    with m show ?thesis by simp
  next
    case (Inr x)
    then have run: "bindP m f g = f x (snd (m g))" by (cases "m g") (simp add: bindP_def)
    from assms(2) m(1) obtain es' where "guarded I (snd (f x (snd (m g))))"
      "ps_trace (snd (f x (snd (m g)))) = ps_trace (snd (m g)) @ es'" "\<forall>w. Db w \<in> set es' \<longrightarrow> I w"
      by (rule maintainsD)
    with m show ?thesis unfolding run by (intro conjI exI [of _ "es @ es'"]) auto
  qed
qed

lemma maintains_thenP [maintain_rules]: "maintains I m \<Longrightarrow> maintains I n \<Longrightarrow> maintains I (thenP m n)"
  unfolding thenP_def by (rule maintains_bindP)

lemma maintains_catchP [maintain_rules]:
  assumes "maintains I m" and "\<And>e. maintains I (h e)"
  shows "maintains I (catchP m h)"
proof -
  have "catchP m h g = bindP (\<lambda>g. (case m g of (r, g') \<Rightarrow> (Inr r, g')))
      (\<lambda>r. case r of Inl e \<Rightarrow> h e | Inr x \<Rightarrow> returnP x) g" for g
    by (auto simp: catchP_def bindP_def returnP_def split: prod.split sum.split)
  moreover have "maintains I (\<lambda>g. (case m g of (r, g') \<Rightarrow> (Inr r, g')))"
    using assms(1) by (simp add: maintains_def case_prod_beta)
  then have "maintains I (bindP (\<lambda>g. (case m g of (r, g') \<Rightarrow> (Inr r, g'))) (\<lambda>r. case r of Inl e \<Rightarrow> h e | Inr x \<Rightarrow> returnP x))"
    by (rule maintains_bindP) (simp add: assms(2) maintains_returnP split: sum.split)
  ultimately show ?thesis by presburger
qed

lemma maintains_maybe_throw [maintain_rules]: "maintains I (maybe_throw e)"
  unfolding maybe_throw_def by (cases e) (simp_all add: maintain_rules)

lemma maintains_withTransaction [maintain_rules]: "keeps I m \<Longrightarrow> maintains I (withTransaction m)"
  unfolding maintains_def guarded_def withTransaction_def Let_def
  by (auto intro: commit_keeps)

lemma maintains_query [maintain_rules]: "maintains I (query f)"
  unfolding query_def by (intro maintains_withTransaction keeps_getsT)

lemma maintains_external [maintain_rules]: "(\<And>x w. ev x \<noteq> Db w) \<Longrightarrow> maintains I (external f ev)"
  by (auto simp: maintains_def guarded_def external_def Let_def) metis

lemma maintains_credential_result [maintain_rules]:
  "(\<And>x. maintains I (f x)) \<Longrightarrow> maintains I m \<Longrightarrow>
   maintains I (case c of Cred_resolved x \<Rightarrow> f x | Cred_throws \<Rightarrow> m)"
  by (cases c) simp_all

lemma maintains_reconcile_result [maintain_rules]:
  "(\<And>v x a. maintains I (f v x a)) \<Longrightarrow> maintains I m \<Longrightarrow> maintains I n \<Longrightarrow> (\<And>b e. maintains I (h b e)) \<Longrightarrow>
   maintains I (case c of Rec_committed v x a \<Rightarrow> f v x a | Rec_not_found \<Rightarrow> m | Rec_unknown \<Rightarrow> n | Rec_throws b e \<Rightarrow> h b e)"
  by (cases c) simp_all

lemma maintains_if [maintain_rules]: "(b \<Longrightarrow> maintains I m) \<Longrightarrow> (\<not> b \<Longrightarrow> maintains I n) \<Longrightarrow> maintains I (if b then m else n)"
  by simp

lemma maintains_option [maintain_rules]:
  "(x = None \<Longrightarrow> maintains I m) \<Longrightarrow> (\<And>y. x = Some y \<Longrightarrow> maintains I (f y)) \<Longrightarrow>
   maintains I (case x of None \<Rightarrow> m | Some y \<Rightarrow> f y)"
  by (cases x) auto

lemma maintains_prod [maintain_rules]:
  "(\<And>a b. x = (a, b) \<Longrightarrow> maintains I (f a b)) \<Longrightarrow> maintains I (case x of (a, b) \<Rightarrow> f a b)"
  by (cases x) auto

lemma maintains_sum [maintain_rules]:
  "(\<And>e. x = Inl e \<Longrightarrow> maintains I (m e)) \<Longrightarrow> (\<And>y. x = Inr y \<Longrightarrow> maintains I (f y)) \<Longrightarrow>
   maintains I (case x of Inl e \<Rightarrow> m e | Inr y \<Rightarrow> f y)"
  by (cases x) auto

lemma keeps_audit [hoare_rules]: "keeps (kernel_from w0) (append_audit ctx spec type middle)"
  unfolding append_audit_def by (intro hoare_rules)

lemma keeps_owner [hoare_rules]: "keeps (kernel_from w0) (assertCurrentActionOwner ctx)"
  unfolding assertCurrentActionOwner_def by (intro hoare_rules)

lemma keeps_commit_action [hoare_rules]:
  "keeps (kernel_from w0) (commit_action ctx spec rid val ext audit reconciled)"
  unfolding commit_action_def by (intro hoare_rules)

lemma keeps_authorized [hoare_rules]:
  "keeps (kernel_from w0) (case a of GrantDenied reason \<Rightarrow> throwT (GenericError (''capability disappeared: '' @ reason))
     | GrantAllowed x y \<Rightarrow> returnT ())"
  by (cases a) (simp_all add: hoare_rules)

lemma keeps_open_receipt [hoare_rules]: "keeps (kernel_from w0) (open_receipt ctx spec key usable approvalId)"
  unfolding open_receipt_def by (intro hoare_rules)

lemma maintains_mark [maintain_rules]: "maintains (kernel_from w0) (markReconciliationRequired ctx spec rid reason)"
  unfolding markReconciliationRequired_def by (intro maintain_rules hoare_rules)

lemma maintains_retryable [maintain_rules]: "maintains (kernel_from w0) (auditRetryableFailure ctx spec rid stage)"
  unfolding auditRetryableFailure_def by (intro maintain_rules hoare_rules)

lemma maintains_fail [maintain_rules]: "maintains (kernel_from w0) (failUndispatchedReceiptAndDeny ctx spec rid reason stage)"
  unfolding failUndispatchedReceiptAndDeny_def by (intro maintain_rules hoare_rules)

lemma maintains_request [maintain_rules]: "maintains (kernel_from w0) (requestFreshApproval ctx spec key rid)"
  unfolding requestFreshApproval_def by (intro maintain_rules hoare_rules)

lemma maintains_deny [maintain_rules]: "maintains (kernel_from w0) (deny ctx spec u reason stage)"
  unfolding deny_def auditDenial_def by (intro maintain_rules hoare_rules)

lemma maintains_dispatch [maintain_rules]: "maintains (kernel_from w0) (fenced_dispatch ctx spec inp rid)"
  unfolding fenced_dispatch_def
proof (rule maintains_bindP)
  show "maintains (kernel_from w0) (external (sp_dispatch spec inp) (Call_dispatch inp))"
    by (rule maintains_external) simp
qed (auto split: dispatch_result.split intro!: maintain_rules hoare_rules)

lemma maintains_lock_approval [maintain_rules]: "maintains (kernel_from w0) (lock_approval ctx spec key aid)"
  unfolding lock_approval_def by (intro maintain_rules hoare_rules)

lemma maintains_boundary [maintain_rules]:
  "maintains (kernel_from w0) (fenced_boundary ctx spec inp usable approvalId undispatched rid)"
  unfolding fenced_boundary_def Let_def by (intro maintain_rules hoare_rules)

lemma maintains_receipt [maintain_rules]:
  "maintains (kernel_from w0) (fenced_receipt ctx spec inp pending knownAbsent usable approvalId)"
  unfolding fenced_receipt_def by (intro maintain_rules hoare_rules)

lemma maintains_credential [maintain_rules]:
  "maintains (kernel_from w0) (fenced_credential ctx spec key patterns pending knownAbsent usable approvalId)"
  unfolding fenced_credential_def Let_def by (intro maintain_rules hoare_rules) simp

lemma maintains_approval [maintain_rules]:
  "maintains (kernel_from w0) (fenced_approval ctx spec key patterns pending knownAbsent usable)"
  unfolding fenced_approval_def Let_def by (intro maintain_rules hoare_rules)

lemma maintains_policy [maintain_rules]:
  "maintains (kernel_from w0) (fenced_policy ctx spec key pending knownAbsent)"
  unfolding fenced_policy_def Let_def by (intro maintain_rules hoare_rules)

lemma maintains_recovery [maintain_rules]: "maintains (kernel_from w0) (fenced_recovery ctx spec key receipt)"
  unfolding fenced_recovery_def by (intro maintain_rules hoare_rules) simp_all

lemma maintains_execution [maintain_rules]: "maintains (kernel_from w0) (executeGovernedActionFenced ctx spec key)"
  unfolding executeGovernedActionFenced_def by (intro maintain_rules hoare_rules)

lemma maintains_action [maintain_rules]: "maintains (kernel_from w0) (executeGovernedAction aborted ctx spec)"
  unfolding executeGovernedAction_def Let_def by (intro maintain_rules)

end
