(* ===== verification/Tool_Router.thy ===== *)
theory Tool_Router
  imports Governed_Inputs Safe_Http Children Event_Log Js_Values
begin

text \<open>
  The tools of the agent, \<^verbatim>\<open>src/harness/toolRouter.ts\<close> and \<^verbatim>\<open>src/harness/mcp.ts\<close>: what each call does
  to the database, the sandbox, the providers and the network, and what the model gets back. External
  writes go through the governed execution, whose specification is built here; requests go through the HTTP
  client.

  Providers, the sandbox and the network are environments that answer at a moment of the execution. A crash
  that is injected for benchmarks ends the process; \<open>tc_fault\<close> is the hook that tests set instead.
\<close>

section \<open>Contexts and outcomes\<close>

datatype tool_outcome =
    Result string
  | Suspended_approval string
  | Suspended_signal string
  | Suspended_children "string list"
  | Complete string "string list" json nat

datatype mcp_recovery = Mcp_read | Mcp_idempotent | Mcp_reconcile | Mcp_manual

record mcp_entry =
  me_toolsetRef :: string
  me_originalName :: string
  me_classification :: classification
  me_recovery :: mcp_recovery

datatype fault_point =
    After_external_commit | Before_external_commit | Before_mcp_dispatch | After_mcp_remote_commit
  | After_mcp_receipt_commit

text \<open>
  What an MCP provider answers: a value (its chunks, when the content is a stream, and the transaction
  id), or nothing usable. \<open>Mcp_deadline\<close> and \<open>Mcp_cancelled\<close> are the race that the bounded operation loses.
\<close>

datatype mcp_chunk = Chunk string | Bad_chunk | Broken_chunk

record mcp_value =
  mv_object :: bool
  mv_content :: "mcp_chunk list option"
  mv_externalTxnId :: "json option"
  mv_status :: string
  mv_terminal :: bool

datatype mcp_answer = Mcp_returns mcp_value | Mcp_fails | Mcp_deadline | Mcp_cancelled err

record exec_result =
  ex_exitCode :: int
  ex_stdout :: string
  ex_stderr :: string

record evidence_item =
  ei_title :: json
  ei_content :: string
  ei_score :: rat

record tool_config =
  tg_httpMaxExternalTxnIdBytes :: nat
  tg_mcpMaxResponseBytes :: nat
  tg_mcpMaxExternalTxnIdBytes :: nat
  tg_mcpCallTimeoutMs :: int

record 'w tool_ctx =
  tc_run :: run_row
  tc_attempt :: string
  tc_step :: int
  tc_cfg :: tool_config
  tc_sha256 :: "string \<Rightarrow> string"
  tc_fmt :: "rat \<Rightarrow> string"
  tc_number :: "json \<Rightarrow> rat option"                                  \<comment> \<open>\<^verbatim>\<open>Number(..)\<close>; \<open>None\<close> is \<^verbatim>\<open>NaN\<close>\<close>
  tc_parseJson :: "string \<Rightarrow> json option"
  tc_aborted :: bool
  tc_credentials :: "(nat \<Rightarrow> credential_result) option"
  tc_exec :: "string \<Rightarrow> string \<Rightarrow> rat option \<Rightarrow> nat \<Rightarrow> err + exec_result"
  tc_writeFile :: "string \<Rightarrow> string \<Rightarrow> nat \<Rightarrow> err + unit"
  tc_readFile :: "string \<Rightarrow> nat \<Rightarrow> err + string"
  tc_memory :: "(string \<Rightarrow> string \<Rightarrow> nat \<Rightarrow> err + unit) option"      \<comment> \<open>provider and scope\<close>
  tc_knowledge :: "(string \<Rightarrow> rat option \<Rightarrow> nat \<Rightarrow> err + evidence_item list) option"
  tc_mcpRoute :: "(string \<times> mcp_entry) list"
  tc_mcpCall :: "(mcp_entry \<Rightarrow> (string \<times> json) list \<Rightarrow> governed_input \<Rightarrow> nat \<Rightarrow> mcp_answer) option"
  tc_mcpReconcile :: "mcp_entry \<Rightarrow> (string \<times> json) list \<Rightarrow> string \<Rightarrow> nat \<Rightarrow> mcp_answer"
  tc_fault :: "fault_point \<Rightarrow> err option"
  tc_parser :: url_parser
  tc_egress :: egress_policy
  tc_network :: "'w network"
  tc_wire :: "nat \<Rightarrow> 'w"                                            \<comment> \<open>the network at a moment of the execution\<close>

definition action_context :: "'w tool_ctx \<Rightarrow> action_ctx" where
  "action_context tc =
     \<lparr>cx_run = run_id (tc_run tc), cx_attempt = tc_attempt tc, cx_step = tc_step tc,
      cx_credentials = tc_credentials tc, cx_sha256 = tc_sha256 tc, cx_fmt = tc_fmt tc\<rparr>"

definition WORKSPACE_DIR :: string where
  "WORKSPACE_DIR = ''/home/gem/workspace''"

definition resolvePath :: "string \<Rightarrow> string" where
  "resolvePath path = (if startsWith path ''/'' then path else WORKSPACE_DIR @ ''/'' @ path)"

definition provider_call :: "string \<Rightarrow> (nat \<Rightarrow> err + 'a) \<Rightarrow> 'a proc" where
  "provider_call name f =
     bindP (external f (\<lambda>_. Call_provider name)) (\<lambda>r. case r of Inl e \<Rightarrow> throwP e | Inr x \<Rightarrow> returnP x)"

definition emitToolInvoked :: "'w tool_ctx \<Rightarrow> string \<Rightarrow> (string \<times> json) list \<Rightarrow> unit proc" where
  "emitToolInvoked tc tool detail =
     thenP (withTransaction (appendEvent (run_id (tc_run tc)) ToolInvoked
              (jspread [(''tool'', JStr tool), (''step'', jint (tc_step tc))] detail) (Some (tc_attempt tc)) no_patch))
           (returnP ())"

section \<open>The sandbox, memory and knowledge\<close>

definition bash_exec :: "'w tool_ctx \<Rightarrow> (string \<times> json) list \<Rightarrow> tool_outcome proc" where
  "bash_exec tc args =
     (let command = string_arg (tc_fmt tc) args ''command'' '''';
          cwd = (if truthy (jfield args ''cwd'') then js_string (tc_fmt tc) (the (jfield args ''cwd'')) else WORKSPACE_DIR);
          timeout = (if truthy (jfield args ''timeout_sec'') then tc_number tc (the (jfield args ''timeout_sec''))
                     else Some 300)
      in bindP (provider_call ''exec'' (tc_exec tc command cwd timeout)) (\<lambda>res.
         thenP (emitToolInvoked tc ''bash_exec''
                  [(''command'', JStr (js_slice 500 command)), (''exitCode'', jint (ex_exitCode res))])
               (returnP (Result (stringify (tc_fmt tc)
                  (JObj [(''exit_code'', jint (ex_exitCode res)), (''stdout'', JStr (js_slice 20000 (ex_stdout res))),
                         (''stderr'', JStr (js_slice 10000 (ex_stderr res)))]))))))"

definition file_write :: "'w tool_ctx \<Rightarrow> (string \<times> json) list \<Rightarrow> tool_outcome proc" where
  "file_write tc args =
     (let path = string_arg (tc_fmt tc) args ''path'' '''';
          content = string_arg (tc_fmt tc) args ''content'' ''''
      in thenP (provider_call ''writeFile'' (tc_writeFile tc (resolvePath path) content))
        (thenP (emitToolInvoked tc ''file_write'' [(''path'', JStr path), (''bytes'', jint (int (js_length content)))])
               (returnP (Result (''wrote '' @ path)))))"

definition file_read :: "'w tool_ctx \<Rightarrow> (string \<times> json) list \<Rightarrow> tool_outcome proc" where
  "file_read tc args =
     (let path = string_arg (tc_fmt tc) args ''path'' ''''
      in bindP (provider_call ''readFile'' (tc_readFile tc (resolvePath path))) (\<lambda>content.
         thenP (emitToolInvoked tc ''file_read'' [(''path'', JStr path), (''bytes'', jint (int (js_length content)))])
               (returnP (Result (js_slice 50000 content)))))"

definition progress_update :: "'w tool_ctx \<Rightarrow> (string \<times> json) list \<Rightarrow> tool_outcome proc" where
  "progress_update tc args =
     thenP (withTransaction (appendEvent (run_id (tc_run tc)) ProgressUpdated [(''progress'', JObj args)]
              (Some (tc_attempt tc)) (no_patch\<lparr>p_progress := Some (JObj args)\<rparr>)))
           (returnP (Result ''progress ledger updated''))"

definition remember :: "'w tool_ctx \<Rightarrow> (string \<times> json) list \<Rightarrow> tool_outcome proc" where
  "remember tc args =
     (let content = js_trim (string_arg (tc_fmt tc) args ''content'' '''');
          kind = (if truthy (jfield args ''kind'') then js_string (tc_fmt tc) (the (jfield args ''kind'')) else ''fact'')
      in if content = [] then returnP (Result ''error: remember requires content'')
         else case tc_memory tc of
                None \<Rightarrow> returnP (Result ''error: memory is not configured for this run'')
              | Some write \<Rightarrow>
                  thenP (provider_call ''memory'' (write content kind))
                 (thenP (emitToolInvoked tc ''remember''
                           [(''kind'', case jfield args ''kind'' of None \<Rightarrow> JStr ''fact'' | Some JNull \<Rightarrow> JStr ''fact''
                              | Some k \<Rightarrow> k)])
                        (returnP (Result ''saved to long-term memory''))))"

definition knowledge_search :: "'w tool_ctx \<Rightarrow> (string \<times> json) list \<Rightarrow> tool_outcome proc" where
  "knowledge_search tc args =
     (case tc_knowledge tc of
        None \<Rightarrow> returnP (Result ''error: no knowledge base is configured for this run'')
      | Some retrieve \<Rightarrow>
          let limit = (if truthy (jfield args ''limit'')
                       then map_option (min 20) (tc_number tc (the (jfield args ''limit''))) else Some 5);
              q = string_arg (tc_fmt tc) args ''query'' ''''
          in bindP (provider_call ''knowledge'' (retrieve q limit)) (\<lambda>found.
             thenP (emitToolInvoked tc ''knowledge_search''
                      [(''query'', JStr (js_slice 200 q)), (''hits'', jint (int (length found)))])
                   (returnP (Result (stringify (tc_fmt tc) (JObj [(''passages'', JArr (map (\<lambda>e.
                      JObj [(''title'', ei_title e), (''content'', JStr (ei_content e)), (''score'', JNum (ei_score e))])
                      found))]))))))"

section \<open>Delegation\<close>

definition resolved_children :: "world \<Rightarrow> string \<Rightarrow> json list option" where
  "resolved_children w rid =
     map_option (\<lambda>e. case jfield (ev_payload e) ''children'' of Some (JArr cs) \<Rightarrow> cs | _ \<Rightarrow> [])
       (find (\<lambda>e. ev_type e = ChildrenResolved) (listEvents w rid 0 500))"

definition subtask_goals :: "(string \<times> json) list \<Rightarrow> string list" where
  "subtask_goals args =
     (case jfield args ''subtasks'' of
        Some (JArr subtasks) \<Rightarrow>
          [g. JObj s \<leftarrow> subtasks, JStr g \<leftarrow> (case jfield s ''goal'' of None \<Rightarrow> [] | Some v \<Rightarrow> [v]), js_trim g \<noteq> []]
      | _ \<Rightarrow> [])"

text \<open>A subtask that is null has no member to read: the access throws.\<close>

definition null_subtask :: "(string \<times> json) list \<Rightarrow> bool" where
  "null_subtask args = (case jfield args ''subtasks'' of Some (JArr subtasks) \<Rightarrow> JNull \<in> set subtasks | _ \<Rightarrow> False)"

definition child_budget :: "run_row \<Rightarrow> nat \<Rightarrow> int option" where
  "child_budget run n =
     map_option (\<lambda>budget. max 1 (max 0 (budget - run_tokens_used run) div int n)) (run_token_budget run)"

definition delegated_child :: "run_row \<Rightarrow> nat \<Rightarrow> string \<Rightarrow> child_spec" where
  "delegated_child run n goal =
     \<lparr>cs_agentVersionId = run_agent_version_id run, cs_goal = goal, cs_input = None, cs_grants = [],
      cs_tokenBudget = child_budget run n, cs_maxSteps = None\<rparr>"

definition delegate :: "'w tool_ctx \<Rightarrow> (string \<times> json) list \<Rightarrow> tool_outcome proc" where
  "delegate tc args =
     bindP (query (\<lambda>w. resolved_children w (run_id (tc_run tc)))) (\<lambda>resolved.
     case resolved of
       Some children \<Rightarrow> returnP (Result (stringify (tc_fmt tc) (JObj [(''delegated_results'', JArr children)])))
     | None \<Rightarrow>
         if null_subtask args then throwP (GenericError ''Cannot read properties of null'')
         else let goals = subtask_goals args in
           if goals = [] then returnP (Result ''error: delegate requires at least one subtask with a goal'')
           else if MAX_DELEGATED_CHILDREN < length goals
           then returnP (Result ''error: delegate supports at most 8 subtasks'')
           else if list_ex (\<lambda>goal. MAX_DELEGATED_GOAL_BYTES < length goal) goals
           then returnP (Result ''error: delegated goals must not exceed 4096 encoded bytes'')
           else bindP (withTransaction (spawnChildren (run_id (tc_run tc)) (tc_attempt tc)
                         (map (delegated_child (tc_run tc) (length goals)) goals)))
                  (\<lambda>ids. returnP (Suspended_children ids)))"

section \<open>Signals\<close>

definition latest_signal :: "world \<Rightarrow> string \<Rightarrow> string \<Rightarrow> event_row option" where
  "latest_signal w rid name =
     find (\<lambda>e. ev_type e = SignalReceived \<and> jfield (ev_payload e) ''name'' = Some (JStr name))
       (rev (sort_key ev_seq (run_events w rid)))"

definition to_waiting_signal :: "string \<Rightarrow> string \<Rightarrow> transition_options" where
  "to_waiting_signal attemptId name =
     \<lparr>to_expectFrom = [RUNNING], to_to = WAITING_SIGNAL, to_type = SignalReceived,
      to_payload = [(''waiting_for'', JStr name)], to_attempt = Some attemptId, to_reason = None,
      to_patch = no_patch\<lparr>p_awaited_signal := Some (Some name), p_awaited_correlation := Some None,
        p_awaited_schema := Some (Some \<lparr>sch_object = False, sch_required = [], sch_properties = [],
          sch_additional = None\<rparr>)\<rparr>\<rparr>"

definition signal_reply :: "(rat \<Rightarrow> string) \<Rightarrow> string \<Rightarrow> event_row \<Rightarrow> string" where
  "signal_reply fmt name e =
     stringify fmt (JObj [(''signal'', JStr name),
       (''payload'', case jfield (ev_payload e) ''payload'' of None \<Rightarrow> JNull | Some v \<Rightarrow> v)])"

definition waitForSignal :: "'w tool_ctx \<Rightarrow> string \<Rightarrow> tool_outcome proc" where
  "waitForSignal tc name =
     (if name = [] then returnP (Result ''error: wait_for_signal requires a signal name'')
      else bindP (query (\<lambda>w. latest_signal w (run_id (tc_run tc)) name)) (\<lambda>received.
        case received of
          Some e \<Rightarrow> returnP (Result (signal_reply (tc_fmt tc) name e))
        | None \<Rightarrow>
            thenP (withTransaction (transitionRun (run_id (tc_run tc)) (to_waiting_signal (tc_attempt tc) name)))
                  (returnP (Suspended_signal name))))"

section \<open>Completion\<close>

definition MAX_DELEGATED_ARTIFACT_REFS :: nat where "MAX_DELEGATED_ARTIFACT_REFS = 32"

definition run_complete :: "'w tool_ctx \<Rightarrow> (string \<times> json) list \<Rightarrow> tool_outcome proc" where
  "run_complete tc args =
     (let artifacts = (case jfield args ''artifacts'' of Some (JArr vs) \<Rightarrow> map (js_string (tc_fmt tc)) vs | _ \<Rightarrow> []);
          summary = string_arg (tc_fmt tc) args ''summary'' ''''
      in if MAX_DELEGATED_ARTIFACT_REFS < length artifacts
         then returnP (Result ''error: run completion supports at most 32 artifacts'')
         else case buildBoundedRunResult (\<lambda>v. length (stringify (tc_fmt tc) v)) summary
                     (case jfield args ''result'' of None \<Rightarrow> JNull | Some v \<Rightarrow> v) of
                Inl _ \<Rightarrow> returnP (Result ''error: structured run result exceeds 65536 encoded bytes'')
              | Inr (v, sizeBytes) \<Rightarrow> returnP (Complete summary artifacts v sizeBytes))"


section \<open>External HTTP requests\<close>

definition safeOrigin :: "url_parser \<Rightarrow> string \<Rightarrow> string" where
  "safeOrigin up u = (case up_parse up u of None \<Rightarrow> u | Some parsed \<Rightarrow> url_origin parsed)"

definition private_host :: "url \<Rightarrow> bool" where
  "private_host u =
     (let hostname = normalizedHostname u in
      hostname = ''localhost'' \<or> endsWith hostname ''.localhost'' \<or> endsWith hostname ''.local''
      \<or> isIP hostname \<noteq> 0 \<and> isl (assertPublicAddress hostname))"

text \<open>The reason of a refusal.\<close>

definition checkUrlPolicy :: "url_parser \<Rightarrow> string \<Rightarrow> bool \<Rightarrow> string option" where
  "checkUrlPolicy up u originGranted =
     (case up_parse up u of
        None \<Rightarrow> Some (''invalid URL: '' @ u)
      | Some parsed \<Rightarrow>
          if url_protocol parsed \<noteq> ''http:'' \<and> url_protocol parsed \<noteq> ''https:''
          then Some (''scheme '' @ url_protocol parsed @ '' is not allowed'')
          else if url_username parsed \<noteq> [] \<or> url_password parsed \<noteq> [] then Some ''URL userinfo is not allowed''
          else if private_host parsed \<and> \<not> originGranted
          then Some (''requests to private host '' @ url_hostname parsed
                 @ '' require an exact-origin capability grant for '' @ url_origin parsed)
          else None)"

text \<open>
  \<^verbatim>\<open>Object.entries\<close> of the value of \<open>headers\<close>, and the assignment to a plain object, which an
  own property of the name \<^verbatim>\<open>__proto__\<close> escapes.
\<close>

definition object_entries :: "json \<Rightarrow> (string \<times> json) list" where
  "object_entries v =
     (case v of
        JObj kvs \<Rightarrow> kvs
      | JArr vs \<Rightarrow> map (\<lambda>(i, x). (nat_digits i, x)) (enumerate 0 vs)
      | JStr s \<Rightarrow> map (\<lambda>(i, c). (nat_digits i, JStr [c])) (enumerate 0 s)
      | _ \<Rightarrow> [])"

fun assign_header :: "string \<Rightarrow> string \<Rightarrow> (string \<times> string) list \<Rightarrow> (string \<times> string) list" where
  "assign_header name v [] = (if name = ''__proto__'' then [] else [(name, v)])"
| "assign_header name v ((k, x) # headers) = (if k = name then (k, v) # headers else (k, x) # assign_header name v headers)"

definition RESERVED_HEADERS :: "string list" where
  "RESERVED_HEADERS =
     [''host'', ''content-length'', ''transfer-encoding'', ''authorization'', ''proxy-authorization'', ''cookie'',
      ''idempotency-key'', ''x-managed-agents-target-url'', ''x-managed-agents-target-address'',
      ''x-managed-agents-target-family'']"

definition model_headers :: "(rat \<Rightarrow> string) \<Rightarrow> (string \<times> json) list \<Rightarrow> (string \<times> string) list" where
  "model_headers fmt args =
     fold (\<lambda>(name, v) headers.
             if toLowerCase name \<in> set RESERVED_HEADERS then headers
             else assign_header name (js_string fmt v) headers)
       (case jfield args ''headers'' of None \<Rightarrow> [] | Some JNull \<Rightarrow> [] | Some v \<Rightarrow> object_entries v) []"

definition request_headers ::
    "(rat \<Rightarrow> string) \<Rightarrow> (string \<times> json) list \<Rightarrow> governed_input \<Rightarrow> (string \<times> string) list" where
  "request_headers fmt args inp =
     (let headers = model_headers fmt args;
          headers = (case di_credential inp of None \<Rightarrow> headers | Some (name, v) \<Rightarrow> setHeader headers name v)
      in setHeader (setHeader headers ''content-type'' ''application/json'') ''idempotency-key'' (di_key inp))"

definition http_method :: "'w tool_ctx \<Rightarrow> (string \<times> json) list \<Rightarrow> string" where
  "http_method tc args = toUpperCase (string_arg (tc_fmt tc) args ''method'' ''GET'')"

definition http_url :: "'w tool_ctx \<Rightarrow> (string \<times> json) list \<Rightarrow> string" where
  "http_url tc args = string_arg (tc_fmt tc) args ''url'' ''''"

definition http_resource :: "'w tool_ctx \<Rightarrow> (string \<times> json) list \<Rightarrow> string" where
  "http_resource tc args = safeOrigin (tc_parser tc) (http_url tc args)"

definition tool_request :: "'w tool_ctx \<Rightarrow> (string \<times> json) list \<Rightarrow> governed_input \<Rightarrow> http_request" where
  "tool_request tc args inp =
     \<lparr>rq_url = http_url tc args, rq_method = http_method tc args, rq_headers = request_headers (tc_fmt tc) args inp,
      rq_body = (if http_method tc args \<noteq> ''GET'' then map_option (stringify (tc_fmt tc)) (jfield args ''body'') else None),
      rq_privateOrigins = filter (\<lambda>pattern. pattern = http_resource tc args) (di_patterns inp)\<rparr>"

definition includes_secret :: "string option \<Rightarrow> string \<Rightarrow> string option \<Rightarrow> bool" where
  "includes_secret secret body ext =
     (case secret of
        None \<Rightarrow> False
      | Some s \<Rightarrow> s \<noteq> [] \<and> (str_includes body s \<or> (case ext of None \<Rightarrow> False | Some x \<Rightarrow> str_includes x s)))"

definition limited :: "string \<Rightarrow> nat \<Rightarrow> string" where
  "limited what limit = what @ '' byte limit exceeded ('' @ nat_digits limit @ '')''"

definition http_result ::
    "'w tool_ctx \<Rightarrow> governed_input \<Rightarrow> string + http_response \<Rightarrow> dispatch_result" where
  "http_result tc inp answer =
     (case answer of
        Inl e \<Rightarrow> Disp_throws (GenericError e)
      | Inr response \<Rightarrow>
          let ext = map_of (rs_headers response) ''x-transaction-id'' in
          if (case ext of None \<Rightarrow> False | Some x \<Rightarrow> tg_httpMaxExternalTxnIdBytes (tc_cfg tc) < length x)
          then Disp_throws (GenericError (limited ''HTTP external transaction ID'' (tg_httpMaxExternalTxnIdBytes (tc_cfg tc))))
          else if includes_secret (map_option snd (di_credential inp)) (rs_body response) ext
          then Disp_throws (GenericError ''HTTP response contained scoped credential material'')
          else Disp_ok
                 [(''status'', jint (int (rs_status response))),
                  (''body'', case tc_parseJson tc (rs_body response) of
                     None \<Rightarrow> JStr (js_slice 5000 (rs_body response)) | Some v \<Rightarrow> v)]
                 ext [(''status'', jint (int (rs_status response)))])"

definition http_exchange ::
    "'w tool_ctx \<Rightarrow> (string \<times> json) list \<Rightarrow> governed_input \<Rightarrow> nat \<Rightarrow> (string + http_response) \<times> 'w \<times> connection list" where
  "http_exchange tc args inp n =
     request (tc_network tc) (tc_parser tc) (tc_egress tc) (tool_request tc args inp) (tc_wire tc n)"

definition http_spec :: "'w tool_ctx \<Rightarrow> (string \<times> json) list \<Rightarrow> action_spec" where
  "http_spec tc args =
     (let method = http_method tc args; resource = http_resource tc args in
      \<lparr>sp_connector = ''http'', sp_purpose = Some ''http.request'', sp_action = ''external.http.request'',
       sp_resource = resource, sp_args = args,
       sp_classification = (if method = ''GET'' then Action_read else Action_mutation),
       sp_requireGrant = (method \<noteq> ''GET''), sp_preferExact = True, sp_recovery = Retry_with_idempotency,
       sp_audit = [(''method'', JStr method)],
       sp_validate = Some (\<lambda>_ _ usablePatterns.
          checkUrlPolicy (tc_parser tc) (http_url tc args) (filter (\<lambda>pattern. pattern = resource) usablePatterns \<noteq> [])),
       sp_beforeDispatch = tc_fault tc Before_external_commit, sp_afterDispatch = None,
       sp_afterCommit = tc_fault tc After_external_commit, sp_reconcile = None,
       sp_dispatch = (\<lambda>inp n. http_result tc inp (fst (http_exchange tc args inp n)))\<rparr>)"

definition http_outcome :: "(rat \<Rightarrow> string) \<Rightarrow> action_result \<Rightarrow> tool_outcome" where
  "http_outcome fmt res =
     (case res of
        Suspend_approval aid \<Rightarrow> Suspended_approval aid
      | Denied reason \<Rightarrow> Result (''error: '' @ reason)
      | Reconciliation_required reason \<Rightarrow> Result (''error: '' @ reason)
      | Completed v deduplicated \<Rightarrow>
          Result (stringify fmt
            (if deduplicated
             then JObj [(''deduplicated'', JBool True),
                        (''note'', JStr ''this action was already executed before a recovery; returning the recorded result''),
                        (''result'', JObj v)]
             else JObj v)))"

definition externalHttpRequest :: "'w tool_ctx \<Rightarrow> (string \<times> json) list \<Rightarrow> tool_outcome proc" where
  "externalHttpRequest tc args =
     bindP (executeGovernedAction (tc_aborted tc) (action_context tc) (http_spec tc args))
       (\<lambda>res. returnP (http_outcome (tc_fmt tc) res))"

section \<open>MCP tools\<close>

definition mcp_deadline_error :: "'w tool_ctx \<Rightarrow> string" where
  "mcp_deadline_error tc = ''MCP call deadline exceeded ('' @ int_digits (tg_mcpCallTimeoutMs (tc_cfg tc)) @ ''ms)''"

fun collect_chunks :: "nat \<Rightarrow> nat \<Rightarrow> mcp_chunk list \<Rightarrow> string + string" where
  "collect_chunks limit bytes [] = Inr []"
| "collect_chunks limit bytes (c # cs) =
     (case c of
        Bad_chunk \<Rightarrow> Inl ''MCP provider response stream yielded an invalid chunk''
      | Broken_chunk \<Rightarrow> Inl ''MCP provider call failed''
      | Chunk b \<Rightarrow>
          if limit < bytes + length b then Inl (limited ''MCP response'' limit)
          else case collect_chunks limit (bytes + length b) cs of Inl e \<Rightarrow> Inl e | Inr rest \<Rightarrow> Inr (b @ rest))"

text \<open>The content and the transaction id, or the message of the error.\<close>

definition validateMcpResult :: "tool_config \<Rightarrow> mcp_value \<Rightarrow> string option \<Rightarrow> string + string \<times> string option" where
  "validateMcpResult cfg v secret =
     (if \<not> mv_object v then Inl ''MCP provider returned a malformed result''
      else case mv_content v of
        None \<Rightarrow> Inl ''MCP provider result content must be an async byte stream''
      | Some chunks \<Rightarrow>
          (case collect_chunks (tg_mcpMaxResponseBytes cfg) 0 chunks of
             Inl e \<Rightarrow> Inl e
           | Inr content \<Rightarrow>
               (case (case mv_externalTxnId v of None \<Rightarrow> Inr None | Some (JStr x) \<Rightarrow> Inr (Some x) | Some _ \<Rightarrow> Inl ()) of
                  Inl _ \<Rightarrow> Inl ''MCP provider external transaction ID must be a string''
                | Inr ext \<Rightarrow>
                    if (case ext of None \<Rightarrow> False | Some x \<Rightarrow> tg_mcpMaxExternalTxnIdBytes cfg < length x)
                    then Inl (limited ''MCP external transaction ID'' (tg_mcpMaxExternalTxnIdBytes cfg))
                    else if includes_secret secret content ext
                    then Inl ''MCP provider response contained scoped credential material''
                    else Inr (content, if ext = Some [] then None else ext))))"

definition mcp_dispatch :: "'w tool_ctx \<Rightarrow> governed_input \<Rightarrow> mcp_answer \<Rightarrow> dispatch_result" where
  "mcp_dispatch tc inp answer =
     (case answer of
        Mcp_deadline \<Rightarrow> Disp_throws (GenericError (mcp_deadline_error tc))
      | Mcp_cancelled e \<Rightarrow> Disp_throws e
      | Mcp_fails \<Rightarrow> Disp_throws (GenericError ''MCP provider call failed'')
      | Mcp_returns v \<Rightarrow>
          (case validateMcpResult (tc_cfg tc) v (map_option snd (di_credential inp)) of
             Inl e \<Rightarrow> Disp_throws (GenericError e)
           | Inr (content, ext) \<Rightarrow> Disp_ok [(''content'', JStr content)] ext []))"

text \<open>Reconciliation. The action signal is aborted only when the worker cancels.\<close>

definition mcp_reconciled :: "'w tool_ctx \<Rightarrow> mcp_answer \<Rightarrow> reconcile_result" where
  "mcp_reconciled tc answer =
     (case answer of
        Mcp_deadline \<Rightarrow> Rec_throws False (GenericError (mcp_deadline_error tc))
      | Mcp_cancelled e \<Rightarrow> Rec_throws True e
      | Mcp_fails \<Rightarrow> Rec_throws False (GenericError ''MCP provider reconciliation failed'')
      | Mcp_returns v \<Rightarrow>
          if \<not> mv_object v
          then Rec_throws False (GenericError ''MCP provider returned a malformed reconciliation result'')
          else if mv_status v = ''committed''
          then (case validateMcpResult (tc_cfg tc) v None of
                  Inl e \<Rightarrow> Rec_throws False (GenericError e)
                | Inr (content, ext) \<Rightarrow> Rec_committed [(''content'', JStr content)] ext [(''reconciled'', JBool True)])
          else if mv_status v = ''not_found'' \<and> mv_terminal v then Rec_not_found
          else if mv_status v = ''unknown'' then Rec_unknown
          else Rec_throws False (GenericError ''MCP provider returned an invalid reconciliation status''))"

definition mcp_recovery_name :: "mcp_recovery \<Rightarrow> string" where
  "mcp_recovery_name r =
     (case r of Mcp_read \<Rightarrow> ''read'' | Mcp_idempotent \<Rightarrow> ''idempotent'' | Mcp_reconcile \<Rightarrow> ''reconcile'' | Mcp_manual \<Rightarrow> ''manual'')"

definition mcp_spec ::
    "'w tool_ctx \<Rightarrow> (mcp_entry \<Rightarrow> (string \<times> json) list \<Rightarrow> governed_input \<Rightarrow> nat \<Rightarrow> mcp_answer) \<Rightarrow> mcp_entry \<Rightarrow>
     (string \<times> json) list \<Rightarrow> action_spec" where
  "mcp_spec tc call entry args =
     \<lparr>sp_connector = ''mcp'', sp_purpose = Some ''mcp.tool_call'',
      sp_action = ''mcp.'' @ me_toolsetRef entry @ ''.'' @ me_originalName entry,
      sp_resource = me_toolsetRef entry, sp_args = args, sp_classification = me_classification entry,
      sp_requireGrant = True, sp_preferExact = False,
      sp_recovery = (if me_classification entry = Action_read \<or> me_recovery entry = Mcp_idempotent
                     then Retry_with_idempotency else Reconcile),
      sp_audit = [(''mcpRecovery'', JStr (mcp_recovery_name (me_recovery entry)))], sp_validate = None,
      sp_beforeDispatch = tc_fault tc Before_mcp_dispatch, sp_afterDispatch = tc_fault tc After_mcp_remote_commit,
      sp_afterCommit = tc_fault tc After_mcp_receipt_commit,
      sp_reconcile = (if me_recovery entry = Mcp_reconcile
                      then Some (\<lambda>key n. mcp_reconciled tc (tc_mcpReconcile tc entry args key n)) else None),
      sp_dispatch = (\<lambda>inp n. mcp_dispatch tc inp (call entry args inp n))\<rparr>"

definition mcp_outcome :: "action_result \<Rightarrow> tool_outcome" where
  "mcp_outcome res =
     (case res of
        Suspend_approval aid \<Rightarrow> Suspended_approval aid
      | Denied reason \<Rightarrow> Result (''error: '' @ reason)
      | Reconciliation_required reason \<Rightarrow> Result (''error: '' @ reason)
      | Completed v _ \<Rightarrow> Result (case jfield v ''content'' of Some (JStr content) \<Rightarrow> content | _ \<Rightarrow> []))"

definition dispatchMcp ::
    "'w tool_ctx \<Rightarrow> (mcp_entry \<Rightarrow> (string \<times> json) list \<Rightarrow> governed_input \<Rightarrow> nat \<Rightarrow> mcp_answer) \<Rightarrow> mcp_entry \<Rightarrow>
     (string \<times> json) list \<Rightarrow> tool_outcome proc" where
  "dispatchMcp tc call entry args =
     bindP (executeGovernedAction (tc_aborted tc) (action_context tc) (mcp_spec tc call entry args))
       (\<lambda>res. returnP (mcp_outcome res))"

section \<open>The router\<close>

definition dispatchTool :: "'w tool_ctx \<Rightarrow> string \<Rightarrow> (string \<times> json) list \<Rightarrow> tool_outcome proc" where
  "dispatchTool tc name args =
     (if name = ''bash_exec'' then bash_exec tc args
      else if name = ''file_write'' then file_write tc args
      else if name = ''file_read'' then file_read tc args
      else if name = ''progress_update'' then progress_update tc args
      else if name = ''remember'' then remember tc args
      else if name = ''knowledge_search'' then knowledge_search tc args
      else if name = ''delegate'' then delegate tc args
      else if name = ''wait_for_signal'' then waitForSignal tc (string_arg (tc_fmt tc) args ''name'' '''')
      else if name = ''external_http_request'' then externalHttpRequest tc args
      else if name = ''run_complete'' then run_complete tc args
      else case (map_of (tc_mcpRoute tc) name, tc_mcpCall tc) of
             (Some entry, Some call) \<Rightarrow> dispatchMcp tc call entry args
           | _ \<Rightarrow> returnP (Result (''error: unknown tool '' @ name)))"

text \<open>
  \<^verbatim>\<open>resolveMcpTools\<close>: the tools of the toolsets of a version. The router finds the route that was set
  last under a name.
\<close>

datatype mcp_policy = Policy_missing | Policy_read | Policy_mutation mcp_recovery | Policy_invalid

definition mcp_route_entry :: "string \<Rightarrow> string \<Rightarrow> mcp_policy \<Rightarrow> string + mcp_entry" where
  "mcp_route_entry ref name policy =
     (case policy of
        Policy_missing \<Rightarrow> Inl ''MCP tool execution policy is missing or malformed''
      | Policy_read \<Rightarrow> Inr \<lparr>me_toolsetRef = ref, me_originalName = name, me_classification = Action_read, me_recovery = Mcp_read\<rparr>
      | Policy_mutation r \<Rightarrow>
          if r = Mcp_read then Inl ''MCP tool execution policy has an invalid classification or recovery mode''
          else Inr \<lparr>me_toolsetRef = ref, me_originalName = name, me_classification = Action_mutation, me_recovery = r\<rparr>
      | Policy_invalid \<Rightarrow> Inl ''MCP tool execution policy has an invalid classification or recovery mode'')"

fun resolve_tools :: "(string \<Rightarrow> string \<Rightarrow> mcp_policy) \<Rightarrow> string \<Rightarrow> string list \<Rightarrow> string + (string \<times> mcp_entry) list" where
  "resolve_tools policy ref [] = Inr []"
| "resolve_tools policy ref (t # ts) =
     (case mcp_route_entry ref t (policy ref t) of
        Inl e \<Rightarrow> Inl e
      | Inr entry \<Rightarrow>
          (case resolve_tools policy ref ts of
             Inl e \<Rightarrow> Inl e
           | Inr route \<Rightarrow> Inr (route @ [(''mcp__'' @ ref @ ''__'' @ t, entry)])))"

fun resolveMcpTools ::
    "(string \<Rightarrow> string list) \<Rightarrow> (string \<Rightarrow> string \<Rightarrow> mcp_policy) \<Rightarrow> string list \<Rightarrow> string + (string \<times> mcp_entry) list" where
  "resolveMcpTools tools policy [] = Inr []"
| "resolveMcpTools tools policy (ref # refs) =
     (case resolve_tools policy ref (tools ref) of
        Inl e \<Rightarrow> Inl e
      | Inr here \<Rightarrow>
          (case resolveMcpTools tools policy refs of
             Inl e \<Rightarrow> Inl e
           | Inr later \<Rightarrow> Inr (later @ here)))"


section \<open>Every tool keeps the kernel's invariants\<close>

lemma maintains_provider_call [maintain_rules]: "maintains I (provider_call name f)"
  unfolding provider_call_def by (intro maintain_rules) simp

lemma maintains_emit [maintain_rules]: "maintains (kernel_from w0) (emitToolInvoked tc tool detail)"
  unfolding emitToolInvoked_def by (intro maintain_rules hoare_rules)

lemma maintains_tools [maintain_rules]:
  "maintains (kernel_from w0) (bash_exec tc args)"
  "maintains (kernel_from w0) (file_write tc args)"
  "maintains (kernel_from w0) (file_read tc args)"
  "maintains (kernel_from w0) (progress_update tc args)"
  "maintains (kernel_from w0) (remember tc args)"
  "maintains (kernel_from w0) (knowledge_search tc args)"
  "maintains (kernel_from w0) (delegate tc args)"
  "maintains (kernel_from w0) (waitForSignal tc name)"
  "maintains (kernel_from w0) (externalHttpRequest tc args)"
  "maintains (kernel_from w0) (run_complete tc args)"
  "maintains (kernel_from w0) (dispatchMcp tc call entry args)"
  unfolding bash_exec_def file_write_def file_read_def progress_update_def remember_def knowledge_search_def
    delegate_def waitForSignal_def externalHttpRequest_def run_complete_def dispatchMcp_def Let_def
  by (intro maintain_rules hoare_rules)+

lemma maintains_dispatchTool: "maintains (kernel_from w0) (dispatchTool tc name args)"
  unfolding dispatchTool_def by (intro maintain_rules)

text \<open>
  No tool call breaks the kernel. Whatever the model calls with whatever arguments, and whatever the
  sandbox, the providers and the network answer, if the other processes only make the database advance, so
  does the call: every database it commits satisfies the invariants, has the ledger of the start as a
  prefix and keeps the identity, the finished status and the result of every run.
\<close>

theorem tool_call_keeps_kernel:
  assumes "kernel_ok (ps_world g)" and "\<And>n w. kernel_from (ps_world g) w \<Longrightarrow> kernel_from (ps_world g) (ps_env g n w)"
  shows "kernel_from (ps_world g) (ps_world (snd (dispatchTool tc name args g)))
     \<and> (\<exists>es. ps_trace (snd (dispatchTool tc name args g)) = ps_trace g @ es
          \<and> (\<forall>w. Db w \<in> set es \<longrightarrow> kernel_from (ps_world g) w))"
proof -
  have "guarded (kernel_from (ps_world g)) g"
    using assms kernel_from_refl by (simp add: guarded_def)
  with maintains_dispatchTool obtain es where "guarded (kernel_from (ps_world g)) (snd (dispatchTool tc name args g))"
    "ps_trace (snd (dispatchTool tc name args g)) = ps_trace g @ es" "\<forall>w. Db w \<in> set es \<longrightarrow> kernel_from (ps_world g) w"
    by (rule maintainsD)
  then show ?thesis by (auto simp: guarded_def)
qed


section \<open>What leaves through a tool\<close>

text \<open>\<open>contained\<close>: at most one dispatch, and each one is accounted for and granted.\<close>

definition contained :: "action_ctx \<Rightarrow> action_spec \<Rightarrow> trace_event list \<Rightarrow> bool" where
  "contained ctx spec es \<longleftrightarrow> length (filter is_dispatch es) \<le> 1
     \<and> (\<forall>inp d. Call_dispatch inp d \<in> set es \<longrightarrow>
          input_evidence ctx spec (di_key inp) (set es) inp d
          \<and> (sp_requireGrant spec \<longrightarrow> granted ctx spec (di_key inp) es))"

lemma granted_more: "granted ctx spec key pre \<Longrightarrow> set pre \<subseteq> set es \<Longrightarrow> granted ctx spec key es"
  unfolding granted_def grant_checked_def approval_checked_def by blast

lemma input_evidence_more: "input_evidence ctx spec key E inp d \<Longrightarrow> E \<subseteq> F \<Longrightarrow> input_evidence ctx spec key F inp d"
  using input_evidence_mono [of ctx spec key E inp d F] by (simp add: sup.absorb1)

lemma contained_fenced:
  "tspec (executeGovernedActionFenced ctx spec key) (\<lambda>es res. contained ctx spec es)"
proof -
  have "\<exists>es. ps_trace (snd (executeGovernedActionFenced ctx spec key g)) = ps_trace g @ es \<and> contained ctx spec es" for g
  proof -
    obtain es where es: "ps_trace (snd (executeGovernedActionFenced ctx spec key g)) = ps_trace g @ es"
      and safe: "safe (dispatch_evidence ctx spec key) key es (fst (executeGovernedActionFenced ctx spec key g))"
      using tspecD [OF safe_execution, of ctx spec key g] by blast
    obtain es' where es': "ps_trace (snd (executeGovernedActionFenced ctx spec key g)) = ps_trace g @ es'"
      and inputs: "\<forall>inp d. Call_dispatch inp d \<in> set es' \<longrightarrow> input_evidence ctx spec key (set es') inp d"
      using tspecD [OF supplies_execution [unfolded supplies_def], of ctx spec key g] by blast
    have same: "es' = es" using es es' by simp
    from safe consider "no_dispatch es" | "dispatched (dispatch_evidence ctx spec key) key es
        (fst (executeGovernedActionFenced ctx spec key g))"
      unfolding safe_def by blast
    then have "contained ctx spec es"
    proof cases
      case 1
      then show ?thesis using filter_dispatch_Nil [of es] no_dispatchD by (auto simp: contained_def)
    next
      case 2
      then obtain pre w inp d post where split: "es = pre @ [Db w, Call_dispatch inp d] @ post"
        and key: "di_key inp = key" and quiet: "no_dispatch pre" "no_dispatch post"
        and ev: "dispatch_evidence ctx spec key pre w"
        unfolding dispatched_def by blast
      have "length (filter is_dispatch es) = 1"
        using quiet filter_dispatch_Nil [of pre] filter_dispatch_Nil [of post] by (simp add: split)
      moreover have "inp' = inp" if "Call_dispatch inp' d' \<in> set es" for inp' d'
        using that quiet by (auto simp: split dest: no_dispatchD)
      moreover have "sp_requireGrant spec \<longrightarrow> granted ctx spec key es"
        using ev granted_more [of ctx spec key pre es] by (auto simp: dispatch_evidence_def split)
      ultimately show ?thesis using inputs key same unfolding contained_def by fastforce
    qed
    with es show ?thesis by blast
  qed
  then show ?thesis by (simp add: tspec_def)
qed

lemma contained_prepend:
  assumes "no_dispatch es" and "contained ctx spec es'"
  shows "contained ctx spec (es @ es')"
  using assms granted_more [of ctx spec _ es' "es @ es'"] input_evidence_mono [of ctx spec _ "set es'" _ _ "set es"]
    filter_dispatch_Nil [of es] no_dispatchD [OF assms(1)]
  unfolding contained_def by (auto simp: subset_iff)

lemma contained_action: "tspec (executeGovernedAction aborted ctx spec) (\<lambda>es res. contained ctx spec es)"
  unfolding executeGovernedAction_def Let_def
proof (rule tspec_bindP [OF tspec_query], goal_cases)
  case (1 es e)
  then show ?case using filter_dispatch_Nil [of es] no_dispatchD by (auto simp: contained_def)
next
  case (2 es x)
  then have es: "no_dispatch es" by simp
  have none: "contained ctx spec es" using es filter_dispatch_Nil [of es] no_dispatchD by (auto simp: contained_def)
  show ?case
    by (cases aborted) (use es none in \<open>simp_all add: tspec_throwP tspec_mono [OF contained_fenced contained_prepend]\<close>)
qed

lemma contained_tool:
  assumes "tspec m (\<lambda>es res. contained ctx spec es)" and "bindP m (\<lambda>res. returnP (f res)) g = (r, g')"
  obtains es where "ps_trace g' = ps_trace g @ es" "contained ctx spec es"
proof -
  have "tspec (bindP m (\<lambda>res. returnP (f res))) (\<lambda>es res. contained ctx spec es)"
    by (rule tspec_bindP [OF assms(1)]) (auto intro: tspec_returnP)
  from tspecD [OF this, of g] show thesis using assms(2) that by auto
qed

lemma http_spec_sel [simp]:
  "sp_action (http_spec tc args) = ''external.http.request''"
  "sp_resource (http_spec tc args) = http_resource tc args"
  "sp_requireGrant (http_spec tc args) = (http_method tc args \<noteq> ''GET'')"
  "sp_validate (http_spec tc args) = Some (\<lambda>_ _ patterns.
     checkUrlPolicy (tc_parser tc) (http_url tc args) (filter (\<lambda>pattern. pattern = http_resource tc args) patterns \<noteq> []))"
  "sp_dispatch (http_spec tc args) = (\<lambda>inp n. http_result tc inp (fst (http_exchange tc args inp n)))"
  by (simp_all add: http_spec_def Let_def)

definition exact_grant :: "'w tool_ctx \<Rightarrow> (string \<times> json) list \<Rightarrow> trace_event list \<Rightarrow> bool" where
  "exact_grant tc args es \<longleftrightarrow>
     (\<exists>w g. Db w \<in> set es \<and> g \<in> set (w_grants w) \<and> gr_run_id g = run_id (tc_run tc) \<and> is_unexpired w g
        \<and> patternMatches (gr_action_pattern g) ''external.http.request'' \<and> gr_resource_pattern g = http_resource tc args)"

lemma in_assign_header: "(n, v) \<in> set (assign_header name x headers) \<Longrightarrow> (n, v) \<in> set headers \<or> (n, v) = (name, x)"
  by (induction name x headers rule: assign_header.induct) (auto split: if_splits)

lemma in_model_headers: "(n, v) \<in> set (model_headers fmt args) \<Longrightarrow> toLowerCase n \<notin> set RESERVED_HEADERS"
proof -
  have "(n, v) \<in> set (fold (\<lambda>(name, v) headers.
             if toLowerCase name \<in> set RESERVED_HEADERS then headers
             else assign_header name (js_string fmt v) headers) entries headers) \<Longrightarrow>
      (\<forall>(n, v) \<in> set headers. toLowerCase n \<notin> set RESERVED_HEADERS) \<Longrightarrow> toLowerCase n \<notin> set RESERVED_HEADERS"
    for entries :: "(string \<times> json) list" and headers
  proof (induction entries arbitrary: headers)
    case (Cons e entries)
    have "\<forall>(n, v) \<in> set (if toLowerCase (fst e) \<in> set RESERVED_HEADERS then headers
        else assign_header (fst e) (js_string fmt (snd e)) headers). toLowerCase n \<notin> set RESERVED_HEADERS"
      using Cons.prems(2) by (auto dest: in_assign_header)
    with Cons.IH Cons.prems(1) show ?case by (simp add: case_prod_beta)
  qed auto
  then show "(n, v) \<in> set (model_headers fmt args) \<Longrightarrow> toLowerCase n \<notin> set RESERVED_HEADERS"
    unfolding model_headers_def by fastforce
qed


lemma in_setHeader_iff:
  "(n, v) \<in> set (setHeader headers m x) \<longleftrightarrow> (n, v) = (m, x) \<or> (n, v) \<in> set headers \<and> toLowerCase n \<noteq> toLowerCase m"
  by (auto simp: setHeader_def)

lemma lower_names [simp]:
  "toLowerCase ''idempotency-key'' = ''idempotency-key''" "toLowerCase ''content-type'' = ''content-type''"
  by code_simp+

text \<open>
  Of the headers of a request that the client or the tool reserve, the model sets none: each of them is the
  key of the receipt or the credential.
\<close>

definition sealed_headers :: "governed_input \<Rightarrow> (string \<times> string) list \<Rightarrow> bool" where
  "sealed_headers inp headers \<longleftrightarrow>
     (''idempotency-key'', di_key inp) \<in> set headers
     \<and> (\<forall>(n, v) \<in> set headers.
          (toLowerCase n = ''idempotency-key'' \<longrightarrow> (n, v) = (''idempotency-key'', di_key inp))
          \<and> (toLowerCase n \<in> set RESERVED_HEADERS \<longrightarrow> (n, v) = (''idempotency-key'', di_key inp) \<or> di_credential inp = Some (n, v)))"

lemma request_headers_sealed: "sealed_headers inp (request_headers fmt args inp)"
proof -
  have "''content-type'' \<notin> set RESERVED_HEADERS" by (simp add: RESERVED_HEADERS_def)
  then show ?thesis
    unfolding sealed_headers_def request_headers_def Let_def
    by (auto simp: in_setHeader_iff dest: in_model_headers split: option.splits)
qed

lemma usable_grants_of_spec:
  assumes "input_evidence (action_context tc) (http_spec tc args) key E inp d"
    and "rq_privateOrigins (tool_request tc args inp) \<noteq> []" and "E \<subseteq> set es"
  shows "exact_grant tc args es"
proof -
  obtain w recovering where w: "Db w \<in> E"
    and p: "di_patterns inp = map gr_resource_pattern
        (usable_grants (http_spec tc args) recovering (declared_grants (action_context tc) (http_spec tc args) w))"
    using assms(1) unfolding input_evidence_def by blast
  from assms(2) have "http_resource tc args \<in> set (di_patterns inp)"
    by (auto simp: tool_request_def filter_empty_conv)
  then obtain g where g: "g \<in> set (usable_grants (http_spec tc args) recovering (declared_grants (action_context tc) (http_spec tc args) w))"
    and resource: "gr_resource_pattern g = http_resource tc args"
    by (auto simp: p)
  have "cx_run (action_context tc) = run_id (tc_run tc)" by (simp add: action_context_def)
  with usable_grant_in [OF g] resource w assms(3) show ?thesis
    unfolding exact_grant_def by (intro exI [of _ w] exI [of _ g]) auto
qed

text \<open>
  C14: what an external request of the model can do. It reaches the network at most once, in one
  execution of the client: to an http or https URL without user information, only to addresses
  that the egress policy admits, with private ones only if an unexpired grant of the run names
  exactly the origin of the URL. If it is not a GET, an unexpired grant of the run covers it. Its
  idempotency key is that of the receipt, and of the reserved headers none comes from the model.
\<close>

theorem http_tool_contained:
  assumes "resolver_typed (tc_network tc)" and "externalHttpRequest tc args g = (res, g')"
  shows "\<exists>es. ps_trace g' = ps_trace g @ es \<and> length (filter is_dispatch es) \<le> 1
     \<and> (\<forall>inp d. Call_dispatch inp d \<in> set es \<longrightarrow>
          (let rq = tool_request tc args inp in
           (\<exists>n. d = http_result tc inp (fst (http_exchange tc args inp n)))
           \<and> (\<forall>n. length (snd (snd (http_exchange tc args inp n))) \<le> pol_maxRedirects (tc_egress tc) + 1
                \<and> (\<forall>c \<in> set (snd (snd (http_exchange tc args inp n))).
                     safe_connection (tc_parser tc) (tc_egress tc) (rq_privateOrigins rq) c))
           \<and> (\<exists>u. up_parse (tc_parser tc) (rq_url rq) = Some u \<and> web_url u \<and> (private_host u \<longrightarrow> exact_grant tc args es))
           \<and> set (rq_privateOrigins rq) \<subseteq> {http_resource tc args}
           \<and> (rq_privateOrigins rq \<noteq> [] \<longrightarrow> exact_grant tc args es)
           \<and> (rq_method rq \<noteq> ''GET'' \<longrightarrow> granted (action_context tc) (http_spec tc args) (di_key inp) es)
           \<and> sealed_headers inp (rq_headers rq)))"
proof -
  let ?ctx = "action_context tc" and ?spec = "http_spec tc args"
  obtain es where es: "ps_trace g' = ps_trace g @ es" and contained: "contained ?ctx ?spec es"
    using contained_tool [OF contained_action assms(2) [unfolded externalHttpRequest_def]] .
  have "let rq = tool_request tc args inp in
           (\<exists>n. d = http_result tc inp (fst (http_exchange tc args inp n)))
           \<and> (\<forall>n. length (snd (snd (http_exchange tc args inp n))) \<le> pol_maxRedirects (tc_egress tc) + 1
                \<and> (\<forall>c \<in> set (snd (snd (http_exchange tc args inp n))).
                     safe_connection (tc_parser tc) (tc_egress tc) (rq_privateOrigins rq) c))
           \<and> (\<exists>u. up_parse (tc_parser tc) (rq_url rq) = Some u \<and> web_url u \<and> (private_host u \<longrightarrow> exact_grant tc args es))
           \<and> set (rq_privateOrigins rq) \<subseteq> {http_resource tc args}
           \<and> (rq_privateOrigins rq \<noteq> [] \<longrightarrow> exact_grant tc args es)
           \<and> (rq_method rq \<noteq> ''GET'' \<longrightarrow> granted ?ctx ?spec (di_key inp) es)
           \<and> sealed_headers inp (rq_headers rq)"
    if call: "Call_dispatch inp d \<in> set es" for inp d
  proof -
    let ?rq = "tool_request tc args inp"
    from contained call have ev: "input_evidence ?ctx ?spec (di_key inp) (set es) inp d"
      and grant: "sp_requireGrant ?spec \<longrightarrow> granted ?ctx ?spec (di_key inp) es"
      unfolding contained_def by blast+
    have origins: "rq_privateOrigins ?rq \<noteq> [] \<longrightarrow> exact_grant tc args es"
      using usable_grants_of_spec [OF ev] by blast
    have "checkUrlPolicy (tc_parser tc) (http_url tc args) (rq_privateOrigins ?rq \<noteq> []) = None"
      using ev unfolding input_evidence_def tool_request_def by auto
    then have "\<exists>u. up_parse (tc_parser tc) (rq_url ?rq) = Some u \<and> web_url u \<and> (private_host u \<longrightarrow> rq_privateOrigins ?rq \<noteq> [])"
      by (auto simp: checkUrlPolicy_def web_url_def tool_request_def split: option.splits if_splits)
    moreover have "\<exists>n. d = http_result tc inp (fst (http_exchange tc args inp n))"
      using ev by (simp add: input_evidence_def with_credential_def)
    moreover have "length (snd (snd (http_exchange tc args inp n))) \<le> pol_maxRedirects (tc_egress tc) + 1
        \<and> (\<forall>c \<in> set (snd (snd (http_exchange tc args inp n))).
             safe_connection (tc_parser tc) (tc_egress tc) (rq_privateOrigins ?rq) c)" for n
      unfolding http_exchange_def by (rule request_emits [OF assms(1)])
    moreover have "set (rq_privateOrigins ?rq) \<subseteq> {http_resource tc args}" by (auto simp: tool_request_def)
    moreover have "rq_method ?rq \<noteq> ''GET'' \<longrightarrow> granted ?ctx ?spec (di_key inp) es"
      using grant by (simp add: tool_request_def)
    moreover have "sealed_headers inp (rq_headers ?rq)"
      using request_headers_sealed by (simp add: tool_request_def)
    ultimately show ?thesis using origins unfolding Let_def by blast
  qed
  with es contained show ?thesis unfolding contained_def by blast
qed


lemma collect_chunks_bound: "collect_chunks limit bytes cs = Inr b \<Longrightarrow> bytes \<le> limit \<Longrightarrow> bytes + length b \<le> limit"
  by (induction limit bytes cs arbitrary: b rule: collect_chunks.induct)
    (auto split: mcp_chunk.splits if_splits sum.splits, metis add.assoc not_less)

lemma validateMcpResult_bounds:
  assumes "validateMcpResult cfg v secret = Inr (content, ext)"
  shows "length content \<le> tg_mcpMaxResponseBytes cfg
     \<and> (\<forall>x. ext = Some x \<longrightarrow> length x \<le> tg_mcpMaxExternalTxnIdBytes cfg)
     \<and> (\<forall>s. secret = Some s \<and> s \<noteq> [] \<longrightarrow> \<not> str_includes content s \<and> (\<forall>x. ext = Some x \<longrightarrow> \<not> str_includes x s))"
proof -
  obtain chunks where chunks: "mv_content v = Some chunks"
    and c: "collect_chunks (tg_mcpMaxResponseBytes cfg) 0 chunks = Inr content"
    using assms unfolding validateMcpResult_def by (auto split: if_splits option.splits sum.splits)
  have "length content \<le> tg_mcpMaxResponseBytes cfg" using collect_chunks_bound [OF c] by simp
  moreover have "(\<forall>x. ext = Some x \<longrightarrow> length x \<le> tg_mcpMaxExternalTxnIdBytes cfg)
      \<and> (\<forall>s. secret = Some s \<and> s \<noteq> [] \<longrightarrow> \<not> str_includes content s \<and> (\<forall>x. ext = Some x \<longrightarrow> \<not> str_includes x s))"
    using assms unfolding validateMcpResult_def
    by (auto simp: chunks c includes_secret_def split: if_splits option.splits json.splits)
  ultimately show ?thesis by blast
qed

text \<open>An answer is bounded and does not contain the credential of the call.\<close>

definition clean_answer :: "tool_config \<Rightarrow> governed_input \<Rightarrow> dispatch_result \<Rightarrow> bool" where
  "clean_answer cfg inp d \<longleftrightarrow>
     (\<forall>v ext audit. d = Disp_ok v ext audit \<longrightarrow>
        (\<exists>content. v = [(''content'', JStr content)] \<and> length content \<le> tg_mcpMaxResponseBytes cfg
           \<and> (\<forall>x. ext = Some x \<longrightarrow> length x \<le> tg_mcpMaxExternalTxnIdBytes cfg)
           \<and> (\<forall>name s. di_credential inp = Some (name, s) \<and> s \<noteq> [] \<longrightarrow>
                \<not> str_includes content s \<and> (\<forall>x. ext = Some x \<longrightarrow> \<not> str_includes x s))))"

lemma mcp_dispatch_bounds:
  assumes "mcp_dispatch tc inp answer = Disp_ok v ext audit"
  shows "\<exists>content. v = [(''content'', JStr content)] \<and> length content \<le> tg_mcpMaxResponseBytes (tc_cfg tc)
     \<and> (\<forall>x. ext = Some x \<longrightarrow> length x \<le> tg_mcpMaxExternalTxnIdBytes (tc_cfg tc))
     \<and> (\<forall>name s. di_credential inp = Some (name, s) \<and> s \<noteq> [] \<longrightarrow>
          \<not> str_includes content s \<and> (\<forall>x. ext = Some x \<longrightarrow> \<not> str_includes x s))"
proof -
  from assms obtain answered content where
    "validateMcpResult (tc_cfg tc) answered (map_option snd (di_credential inp)) = Inr (content, ext)"
    "v = [(''content'', JStr content)]"
    by (auto simp: mcp_dispatch_def split: mcp_answer.splits sum.splits)
  then show ?thesis using validateMcpResult_bounds by fastforce
qed

lemma mcp_dispatch_clean: "clean_answer (tc_cfg tc) inp (mcp_dispatch tc inp answer)"
  unfolding clean_answer_def by (intro allI impI) (rule mcp_dispatch_bounds)

lemma mcp_spec_sel [simp]:
  "sp_requireGrant (mcp_spec tc call entry args) = True"
  "sp_dispatch (mcp_spec tc call entry args) = (\<lambda>inp n. mcp_dispatch tc inp (call entry args inp n))"
  by (simp_all add: mcp_spec_def)

text \<open>
  C15: an MCP tool is called at most once by an execution and only under a grant of the run for the tool and its
  toolset. What comes back is bounded, and it never contains the credential that the call was given.
\<close>

theorem mcp_tool_contained:
  "\<exists>es. ps_trace (snd (dispatchMcp tc call entry args g)) = ps_trace g @ es \<and> length (filter is_dispatch es) \<le> 1
     \<and> (\<forall>inp d. Call_dispatch inp d \<in> set es \<longrightarrow>
          granted (action_context tc) (mcp_spec tc call entry args) (di_key inp) es
          \<and> (\<exists>n. d = mcp_dispatch tc inp (call entry args inp n))
          \<and> clean_answer (tc_cfg tc) inp d)"
proof -
  let ?ctx = "action_context tc" and ?spec = "mcp_spec tc call entry args"
  obtain es where es: "ps_trace (snd (dispatchMcp tc call entry args g)) = ps_trace g @ es" and contained: "contained ?ctx ?spec es"
    using contained_tool [OF contained_action prod.collapse [symmetric]] unfolding dispatchMcp_def by blast
  have "granted ?ctx ?spec (di_key inp) es \<and> (\<exists>n. d = mcp_dispatch tc inp (call entry args inp n))
      \<and> clean_answer (tc_cfg tc) inp d"
    if "Call_dispatch inp d \<in> set es" for inp d
  proof -
    from contained that have "granted ?ctx ?spec (di_key inp) es" "\<exists>n. d = sp_dispatch ?spec inp n"
      unfolding contained_def input_evidence_def with_credential_def by auto
    then show ?thesis using mcp_dispatch_clean by auto
  qed
  with es contained show ?thesis unfolding contained_def by blast
qed

end
