(* ===== verification/Artifacts.thy ===== *)
theory Artifacts
  imports Checkpoints Tool_Router
begin

text \<open>
  Workspaces and artifacts: \<^verbatim>\<open>src/store/workspaces.ts\<close>, \<^verbatim>\<open>src/store/artifacts.ts\<close>, \<^verbatim>\<open>src/harness/workspace.ts\<close> and
  \<^verbatim>\<open>src/harness/artifacts.ts\<close>. The sandbox and the object store are environments that answer at a moment of the
  execution; the digest is a parameter.
\<close>

section \<open>The tables\<close>

definition insertRevision ::
    "string \<Rightarrow> string \<Rightarrow> string \<Rightarrow> int option \<Rightarrow> string option \<Rightarrow> revision_row txn" where
  "insertRevision workspaceId tosKey digest sizeBytes attemptId =
     bindT (getsT (\<lambda>w. w)) (\<lambda>w.
     if \<not> exists_row (\<lambda>(id, _). id = workspaceId) (w_workspaces w)
     then throwT (GenericError (''Workspace not found: '' @ workspaceId))
     else bindT (newId ''rev'') (\<lambda>id.
       let row = \<lparr>rev_id = id, rev_workspace_id = workspaceId, rev_parent_revision_id = map_of (w_heads w) workspaceId,
                  rev_tos_key = tosKey, rev_digest = digest, rev_size_bytes = sizeBytes,
                  rev_created_by_attempt_id = attemptId, rev_created_at = w_now w\<rparr> in
       thenT (ensureT (\<not> exists_row (\<lambda>r. rev_id r = id) (w_revisions w)) (UniqueViolation ''workspace_revisions_pkey''))
      (thenT (modifyT (\<lambda>w. w\<lparr>w_revisions := w_revisions w @ [row]\<rparr>))
      (thenT (modifyT (\<lambda>w. w\<lparr>w_heads := (workspaceId, id) # filter (\<lambda>(x, _). x \<noteq> workspaceId) (w_heads w)\<rparr>))
             (returnT row)))))"

definition getRevision :: "world \<Rightarrow> string \<Rightarrow> revision_row option" where
  "getRevision w revisionId = find (\<lambda>r. rev_id r = revisionId) (w_revisions w)"

definition headRevision :: "world \<Rightarrow> string \<Rightarrow> revision_row option" where
  "headRevision w workspaceId =
     (case map_of (w_heads w) workspaceId of None \<Rightarrow> None | Some head \<Rightarrow> getRevision w head)"

definition listRevisions :: "world \<Rightarrow> string \<Rightarrow> revision_row list" where
  "listRevisions w workspaceId =
     sort_key rev_created_at (filter (\<lambda>r. rev_workspace_id r = workspaceId) (w_revisions w))"

record artifact_input =
  ai_id :: "string option"
  ai_producerRunId :: string
  ai_producerAttemptId :: string
  ai_producerStep :: int
  ai_digest :: string
  ai_mimeType :: string
  ai_sizeBytes :: int
  ai_logicalRole :: string
  ai_sourcePath :: string
  ai_sourceRefs :: "json list"
  ai_verificationRefs :: "json list"
  ai_evidenceRefs :: "json list"
  ai_objectKey :: string

fun split_on :: "char \<Rightarrow> string \<Rightarrow> string list" where
  "split_on d [] = [[]]"
| "split_on d (c # s) =
     (if c = d then [] # split_on d s
      else case split_on d s of [] \<Rightarrow> [[c]] | part # parts \<Rightarrow> (c # part) # parts)"

definition normalized :: "string \<Rightarrow> bool" where
  "normalized path =
     (\<not> startsWith path ''/'' \<and> list_all (\<lambda>part. part \<noteq> [] \<and> part \<noteq> ''.'' \<and> part \<noteq> ''..'') (split_on CHR ''/'' path))"

definition digest_rx :: rx where
  "digest_rx =
     Seq [Bos, Lit ''sha256:'', Chars (\<lambda>c. c \<in> set ''0123456789abcdef'') 64 (Some 64), Eos]"

definition mime_rx :: rx where
  "mime_rx =
     (let name = Seq [Chars is_alnum 1 (Some 1), Chars (\<lambda>c. is_alnum c \<or> c \<in> set ''.+-'') 0 None]
      in Seq [Bos, name, Lit ''/'', name, Eos])"

definition role_rx :: rx where
  "role_rx = Seq [Bos, Chars (\<lambda>c. is_alnum c \<or> c \<in> set ''._:-'') 1 (Some 128), Eos]"

definition validateArtifactInput :: "artifact_input \<Rightarrow> err + unit" where
  "validateArtifactInput i =
     thenE (check (rx_test digest_rx (ai_digest i)) ''artifact digest must be a sha256 content digest'')
    (thenE (check (\<bar>ai_sizeBytes i\<bar> \<le> MAX_SAFE_INTEGER \<and> 0 \<le> ai_sizeBytes i)
              ''artifact size must be a non-negative safe integer'')
    (thenE (check (\<bar>ai_producerStep i\<bar> \<le> MAX_SAFE_INTEGER \<and> 0 \<le> ai_producerStep i)
              ''artifact producer step must be a non-negative integer'')
    (thenE (check (rx_test mime_rx (ai_mimeType i)) ''artifact MIME type is invalid'')
    (thenE (check (rx_test role_rx (ai_logicalRole i)) ''artifact logical role is invalid'')
    (thenE (check (normalized (ai_sourcePath i)) ''artifact source path must be normalized and workspace-relative'')
           (check (ai_objectKey i \<noteq> [] \<and> \<not> startsWith (ai_objectKey i) ''/'' \<and> \<not> str_includes (ai_objectKey i) ''..'')
              ''artifact object key is invalid''))))))"

text \<open>The insert, with the constraints of the table that a valid input can still run into.\<close>

definition createArtifact :: "artifact_input \<Rightarrow> artifact_row txn" where
  "createArtifact i =
     thenT (liftT (validateArtifactInput i))
    (bindT (case ai_id i of Some aid \<Rightarrow> returnT aid | None \<Rightarrow> newId ''art'') (\<lambda>id.
     bindT (getsT (\<lambda>w. w)) (\<lambda>w.
     let row = \<lparr>art_id = id, art_producer_run_id = ai_producerRunId i, art_producer_attempt_id = ai_producerAttemptId i,
                art_producer_step = ai_producerStep i, art_schema_version = 1, art_digest = ai_digest i,
                art_mime_type = ai_mimeType i, art_size_bytes = ai_sizeBytes i, art_logical_role = ai_logicalRole i,
                art_source_path = ai_sourcePath i, art_source_refs = ai_sourceRefs i,
                art_verification_refs = ai_verificationRefs i, art_evidence_refs = ai_evidenceRefs i,
                art_object_key = ai_objectKey i, art_created_at = w_now w\<rparr> in
     thenT (ensureT (length (ai_mimeType i) \<le> 255 \<and> length (ai_sourcePath i) \<le> 1024 \<and> length (ai_objectKey i) \<le> 2048)
              (GenericError ''artifacts_check''))
    (thenT (ensureT (\<not> exists_row (\<lambda>a. art_id a = id) (w_artifacts w)) (UniqueViolation ''artifacts_pkey''))
    (thenT (ensureT (\<not> exists_row (\<lambda>a. art_producer_run_id a = ai_producerRunId i \<and> art_source_path a = ai_sourcePath i) (w_artifacts w))
              (UniqueViolation ''artifacts_producer_run_id_source_path_key''))
    (thenT (modifyT (\<lambda>w. w\<lparr>w_artifacts := w_artifacts w @ [row]\<rparr>)) (returnT row)))))))"

definition of_tenant :: "world \<Rightarrow> string option \<Rightarrow> artifact_row \<Rightarrow> bool" where
  "of_tenant w tid a \<longleftrightarrow>
     exists_row (\<lambda>r. run_id r = art_producer_run_id a \<and> (tid = None \<or> tid = Some (run_tenant_id r))) (w_runs w)"

definition listArtifactsForRun :: "world \<Rightarrow> string \<Rightarrow> string option \<Rightarrow> artifact_row list" where
  "listArtifactsForRun w rid tid =
     sort_key (\<lambda>a. (art_created_at a, art_id a))
       (filter (\<lambda>a. art_producer_run_id a = rid \<and> of_tenant w tid a) (w_artifacts w))"

definition getArtifactForTenant :: "world \<Rightarrow> string \<Rightarrow> string \<Rightarrow> artifact_row option" where
  "getArtifactForTenant w artifactId tid =
     find (\<lambda>a. art_id a = artifactId \<and> of_tenant w (Some tid) a) (w_artifacts w)"

section \<open>The sandbox and the object store\<close>

record exec_options =
  eo_cwd :: "string option"
  eo_timeoutSec :: "rat option option"          \<comment> \<open>\<open>Some None\<close> is \<^verbatim>\<open>NaN\<close>\<close>

record sandbox =
  sx_id :: string
  sx_exec :: "string \<Rightarrow> exec_options \<Rightarrow> nat \<Rightarrow> err + exec_result"
  sx_writeFile :: "string \<Rightarrow> string \<Rightarrow> nat \<Rightarrow> err + unit"
  sx_readFile :: "string \<Rightarrow> nat \<Rightarrow> err + string"

record object_store =
  os_get :: "string \<Rightarrow> nat \<Rightarrow> err + string"
  os_put :: "string \<Rightarrow> string \<Rightarrow> nat \<Rightarrow> err + unit"
  os_presignGet :: "string \<Rightarrow> int \<Rightarrow> nat \<Rightarrow> err + string"
  os_presignPut :: "string \<Rightarrow> int \<Rightarrow> nat \<Rightarrow> err + string"
  os_clock :: "nat \<Rightarrow> int"                       \<comment> \<open>\<^verbatim>\<open>Date.now()\<close>\<close>

definition exec_in :: "sandbox \<Rightarrow> string \<Rightarrow> string option \<Rightarrow> int option \<Rightarrow> exec_result proc" where
  "exec_in sx command cwd timeoutSec =
     provider_call ''exec''
       (sx_exec sx command \<lparr>eo_cwd = cwd, eo_timeoutSec = map_option (\<lambda>t. Some (of_int t)) timeoutSec\<rparr>)"

fun mapP :: "('a \<Rightarrow> 'b proc) \<Rightarrow> 'a list \<Rightarrow> 'b list proc" where
  "mapP f [] = returnP []"
| "mapP f (x # xs) = bindP (f x) (\<lambda>y. bindP (mapP f xs) (\<lambda>ys. returnP (y # ys)))"

section \<open>The workspace manager\<close>

definition restore_command :: "string \<Rightarrow> string" where
  "restore_command url = ''curl -fsSL '' @ [CHR 0x27] @ url @ [CHR 0x27] @ '' | tar -xz -C '' @ WORKSPACE_DIR"

definition snapshot_command :: "string \<Rightarrow> string" where
  "snapshot_command putUrl =
     ''cd '' @ WORKSPACE_DIR @ '' && tar -czf /tmp/ws-snapshot.tgz . && ''
     @ ''curl -fsS -X PUT --upload-file /tmp/ws-snapshot.tgz '' @ [CHR 0x27] @ putUrl @ [CHR 0x27] @ '' && ''
     @ ''{ command -v sha256sum >/dev/null 2>&1 && sha256sum /tmp/ws-snapshot.tgz | cut -d'' @ [CHR 0x27] @ '' '' @ [CHR 0x27]
     @ '' -f1 || shasum -a 256 /tmp/ws-snapshot.tgz | cut -d'' @ [CHR 0x27] @ '' '' @ [CHR 0x27] @ '' -f1; } && ''
     @ ''wc -c < /tmp/ws-snapshot.tgz | tr -d '' @ [CHR 0x27] @ '' '' @ [CHR 0x27]"

record restore_input =
  wr_runId :: string
  wr_attemptId :: string
  wr_workspaceId :: string
  wr_seedFiles :: "(string \<times> string) list"
  wr_initCommand :: "string option"
  wr_parentWorkspaceId :: "string option"

definition restore_head :: "restore_input \<Rightarrow> revision_row option proc" where
  "restore_head i =
     bindP (query (\<lambda>w. headRevision w (wr_workspaceId i))) (\<lambda>head.
     case (head, wr_parentWorkspaceId i) of
       (None, Some parent) \<Rightarrow> if parent = [] then returnP None else query (\<lambda>w. headRevision w parent)
     | _ \<Rightarrow> returnP head)"

definition restore_files :: "object_store \<Rightarrow> sandbox \<Rightarrow> restore_input \<Rightarrow> revision_row option \<Rightarrow> unit proc" where
  "restore_files os sx i head =
     (case head of
        Some r \<Rightarrow>
          bindP (provider_call ''presign'' (os_presignGet os (rev_tos_key r) 900)) (\<lambda>url.
          bindP (exec_in sx (restore_command url) None (Some 300)) (\<lambda>res.
          if ex_exitCode res \<noteq> 0
          then throwP (GenericError (''workspace restore failed (rev '' @ rev_id r @ ''): '' @ js_slice 300 (ex_stderr res)))
          else returnP ()))
      | None \<Rightarrow>
          bindP (mapP (\<lambda>(path, content). provider_call ''writeFile'' (sx_writeFile sx (WORKSPACE_DIR @ ''/'' @ path) content))
                      (wr_seedFiles i)) (\<lambda>_.
          case wr_initCommand i of
            None \<Rightarrow> returnP ()
          | Some command \<Rightarrow>
              if command = [] then returnP ()
              else bindP (exec_in sx command (Some WORKSPACE_DIR) (Some 600)) (\<lambda>res.
                if ex_exitCode res \<noteq> 0
                then throwP (GenericError (''workspace init failed: '' @ js_slice 300 (ex_stderr res)))
                else returnP ())))"

definition restore :: "object_store \<Rightarrow> sandbox \<Rightarrow> restore_input \<Rightarrow> string option proc" where
  "restore os sx i =
     bindP (exec_in sx (''mkdir -p '' @ WORKSPACE_DIR) None None) (\<lambda>mk.
     if ex_exitCode mk \<noteq> 0
     then throwP (GenericError (''could not create workspace dir '' @ WORKSPACE_DIR @ '': '' @ js_slice 200 (ex_stderr mk)))
     else bindP (restore_head i) (\<lambda>head.
       thenP (restore_files os sx i head)
      (thenP (withTransaction (appendEvent (wr_runId i) WorkspaceRestored
                [(''sandboxId'', JStr (sx_id sx)), (''fromRevision'', jopt (\<lambda>r. JStr (rev_id r)) head)]
                (Some (wr_attemptId i)) no_patch))
             (returnP (map_option rev_id head)))))"

definition last_line :: "nat \<Rightarrow> string list \<Rightarrow> string option" where
  "last_line n ls = (if n < length ls then Some (rev ls ! n) else None)"

text \<open>The size that \<^verbatim>\<open>Number\<close> reads; the column takes only whole numbers.\<close>

definition snapshot_size :: "(string \<Rightarrow> rat option) \<Rightarrow> string \<Rightarrow> err + int" where
  "snapshot_size number text =
     (case number text of
        Some q \<Rightarrow> if of_int \<lfloor>q\<rfloor> = q then Inr \<lfloor>q\<rfloor> else Inl (GenericError ''invalid input syntax for type bigint'')
      | None \<Rightarrow> Inl (GenericError ''invalid input syntax for type bigint''))"

definition record_revision ::
    "(string \<Rightarrow> rat option) \<Rightarrow> string \<Rightarrow> string \<Rightarrow> string \<Rightarrow> string \<Rightarrow> string \<Rightarrow> string \<Rightarrow> string txn" where
  "record_revision number runId attemptId workspaceId tosKey digest sizeText =
     bindT (liftT (snapshot_size number sizeText)) (\<lambda>sizeBytes.
     bindT (insertRevision workspaceId tosKey digest (Some sizeBytes) (Some attemptId)) (\<lambda>row.
     thenT (appendEvent runId WorkspaceCheckpointed
              [(''revisionId'', JStr (rev_id row)), (''tosKey'', JStr tosKey), (''digest'', JStr digest),
               (''sizeBytes'', jint sizeBytes)] (Some attemptId) no_patch)
           (returnT (rev_id row))))"

definition workspace_checkpoint ::
    "(string \<Rightarrow> rat option) \<Rightarrow> object_store \<Rightarrow> sandbox \<Rightarrow> string \<Rightarrow> string \<Rightarrow> string \<Rightarrow> string proc" where
  "workspace_checkpoint number os sx runId attemptId workspaceId =
     bindP (provider_call ''clock'' (\<lambda>n. Inr (os_clock os n))) (\<lambda>now.
     let tosKey = ''runs/'' @ runId @ ''/workspace/'' @ int_digits now @ ''-'' @ sx_id sx @ ''.tgz'' in
     bindP (provider_call ''presign'' (os_presignPut os tosKey 900)) (\<lambda>putUrl.
     bindP (exec_in sx (snapshot_command putUrl) None (Some 300)) (\<lambda>res.
     if ex_exitCode res \<noteq> 0
     then throwP (GenericError (''workspace snapshot failed: '' @ js_slice 300 (ex_stderr res)))
     else let out = split_on (CHR 0x0A) (js_trim (ex_stdout res)) in
       withTransaction (record_revision number runId attemptId workspaceId tosKey
         (or_else (last_line 1 out) ''unknown'') (or_else (last_line 0 out) ''0'')))))"

definition revisionDownloadUrl :: "object_store \<Rightarrow> string \<Rightarrow> int \<Rightarrow> string option proc" where
  "revisionDownloadUrl os revisionId ttlSec =
     bindP (query (\<lambda>w. getRevision w revisionId)) (\<lambda>found.
     case found of
       None \<Rightarrow> returnP None
     | Some r \<Rightarrow> bindP (provider_call ''presign'' (os_presignGet os (rev_tos_key r) ttlSec)) (\<lambda>url. returnP (Some url)))"

section \<open>Outputs\<close>

definition normalizeArtifactPath :: "string \<Rightarrow> err + string" where
  "normalizeArtifactPath path =
     (let candidate = (if startsWith path (WORKSPACE_DIR @ ''/'') then drop (length WORKSPACE_DIR + 1) path else path)
      in if candidate = [] \<or> startsWith candidate ''/'' \<or> CHR 0x5C \<in> set candidate
            \<or> \<not> list_all (\<lambda>part. part \<noteq> [] \<and> part \<noteq> ''.'' \<and> part \<noteq> ''..'') (split_on CHR ''/'' candidate)
         then Inl (GenericError (''artifact path must be normalized and workspace-relative: '' @ path))
         else Inr candidate)"

definition deterministicArtifactId :: "(string \<Rightarrow> string) \<Rightarrow> string \<Rightarrow> string \<Rightarrow> string \<Rightarrow> string" where
  "deterministicArtifactId sha256 runId sourcePath digestHex =
     ''art_'' @ take 32 (sha256 (runId @ [CHR 0x00] @ sourcePath @ [CHR 0x00] @ digestHex))"

text \<open>\<^verbatim>\<open>extname\<close> of a normalized path: from the last dot of the last component, unless that is its first character.\<close>

definition extname :: "string \<Rightarrow> string" where
  "extname path =
     (let base = last (split_on CHR ''/'' path); tail = takeWhile (\<lambda>c. c \<noteq> CHR ''.'') (rev base)
      in if length tail + 1 < length base then CHR ''.'' # rev tail else [])"

definition mimeTypeFor :: "string \<Rightarrow> string" where
  "mimeTypeFor path =
     (case map_of [(''.csv'', ''text/csv''),
        (''.docx'', ''application/vnd.openxmlformats-officedocument.wordprocessingml.document''),
        (''.html'', ''text/html''), (''.json'', ''application/json''), (''.md'', ''text/markdown''),
        (''.pdf'', ''application/pdf''), (''.txt'', ''text/plain''),
        (''.xlsx'', ''application/vnd.openxmlformats-officedocument.spreadsheetml.sheet'')]
        (toLowerCase (extname path)) of
        Some t \<Rightarrow> t | None \<Rightarrow> ''application/octet-stream'')"

record stage_context =
  sg_runId :: string
  sg_attemptId :: string
  sg_producerStep :: int
  sg_verificationPassedEventSeq :: int
  sg_sandbox :: sandbox
  sg_objectStore :: object_store
  sg_sha256 :: "string \<Rightarrow> string"

definition staged_artifact :: "stage_context \<Rightarrow> string \<Rightarrow> string \<Rightarrow> artifact_input" where
  "staged_artifact sg sourcePath bytes =
     (let digestHex = sg_sha256 sg bytes; aid = deterministicArtifactId (sg_sha256 sg) (sg_runId sg) sourcePath digestHex;
          seq = JStr (int_digits (sg_verificationPassedEventSeq sg)) in
      \<lparr>ai_id = Some aid, ai_producerRunId = sg_runId sg, ai_producerAttemptId = sg_attemptId sg,
       ai_producerStep = sg_producerStep sg, ai_digest = ''sha256:'' @ digestHex, ai_mimeType = mimeTypeFor sourcePath,
       ai_sizeBytes = int (length bytes), ai_logicalRole = ''deliverable'', ai_sourcePath = sourcePath,
       ai_sourceRefs = [JObj [(''kind'', JStr ''workspace_path''), (''path'', JStr sourcePath)]],
       ai_verificationRefs = [JObj [(''kind'', JStr ''runtime_verifier''), (''status'', JStr ''passed''),
         (''runId'', JStr (sg_runId sg)), (''eventSeq'', seq)]],
       ai_evidenceRefs = [JObj [(''kind'', JStr ''run_event''), (''runId'', JStr (sg_runId sg)), (''seq'', seq),
         (''type'', JStr ''VerificationPassed'')]],
       ai_objectKey = ''runs/'' @ sg_runId sg @ ''/artifacts/'' @ aid\<rparr>)"

definition stage_one :: "stage_context \<Rightarrow> string \<Rightarrow> artifact_input proc" where
  "stage_one sg sourcePath =
     bindP (provider_call ''readFile'' (sx_readFile (sg_sandbox sg) (WORKSPACE_DIR @ ''/'' @ sourcePath))) (\<lambda>bytes.
     let artifact = staged_artifact sg sourcePath bytes in
     thenP (provider_call ''put'' (os_put (sg_objectStore sg) (ai_objectKey artifact) bytes)) (returnP artifact))"

text \<open>\<^verbatim>\<open>[...new Set(xs)]\<close>: the first occurrences.\<close>

definition unique :: "'a list \<Rightarrow> 'a list" where
  "unique xs = rev (remdups (rev xs))"

definition stageArtifactOutputs :: "stage_context \<Rightarrow> string list \<Rightarrow> artifact_input list proc" where
  "stageArtifactOutputs sg claimedPaths =
     (case collect normalizeArtifactPath claimedPaths of
        Inl e \<Rightarrow> throwP e
      | Inr sourcePaths \<Rightarrow> mapP (stage_one sg) (unique sourcePaths))"

section \<open>Verification\<close>

record verifier_policy =
  vp_requiredArtifacts :: "string list"
  vp_command :: "string option"
  vp_requireReceiptsSettled :: bool

definition verify_path :: "sandbox \<Rightarrow> string \<Rightarrow> string list proc" where
  "verify_path sx path =
     bindP (exec_in sx (''test -e '' @ [CHR 0x27] @ resolvePath path @ [CHR 0x27]) None None) (\<lambda>res.
     returnP (if ex_exitCode res \<noteq> 0 then [''required artifact missing: '' @ path] else []))"

definition verify_command :: "sandbox \<Rightarrow> string option \<Rightarrow> string list proc" where
  "verify_command sx command =
     (case command of
        None \<Rightarrow> returnP []
      | Some c \<Rightarrow>
          if c = [] then returnP []
          else bindP (exec_in sx c (Some WORKSPACE_DIR) (Some 600)) (\<lambda>res.
            returnP (if ex_exitCode res \<noteq> 0
                     then [''verification command failed (exit '' @ int_digits (ex_exitCode res) @ ''): '' @ c @ [CHR 0x0A]
                           @ (if ex_stderr res \<noteq> [] then js_slice 500 (ex_stderr res) else js_slice 500 (ex_stdout res))]
                     else [])))"

definition unresolved_receipts :: "world \<Rightarrow> string \<Rightarrow> nat" where
  "unresolved_receipts w rid =
     row_count (\<lambda>r. rc_run_id r = rid \<and> (rc_status r = RS_PENDING \<or> rc_status r = RS_NEEDS_RECONCILIATION)) (w_receipts w)"

definition verify_receipts :: "bool \<Rightarrow> string \<Rightarrow> string list proc" where
  "verify_receipts required rid =
     (if required
      then bindP (query (\<lambda>w. unresolved_receipts w rid)) (\<lambda>n.
        returnP (if n \<noteq> 0 then [nat_digits n @ '' tool receipt(s) unresolved''] else []))
      else returnP [])"

text \<open>The failures; the run passes if there is none.\<close>

definition verify :: "sandbox \<Rightarrow> string \<Rightarrow> verifier_policy \<Rightarrow> string list \<Rightarrow> string list proc" where
  "verify sx rid policy claimedArtifacts =
     bindP (mapP (verify_path sx) (unique (vp_requiredArtifacts policy @ claimedArtifacts))) (\<lambda>missing.
     bindP (verify_command sx (vp_command policy)) (\<lambda>failed.
     bindP (verify_receipts (vp_requireReceiptsSettled policy) rid) (\<lambda>unresolved.
     returnP (concat missing @ failed @ unresolved))))"

section \<open>Invariants\<close>

lemma insertRevision_kernel_from [hoare_rules]: "keeps (kernel_from w0) (insertRevision ws key digest sz aid)"
  unfolding insertRevision_def Let_def by (intro hoare_rules keeps_modifyT) simp_all

lemma liftT_kernel_from [hoare_rules]: "keeps I (liftT r)"
  unfolding liftT_def by (cases r) (auto intro: hoare_rules)

lemma record_revision_kernel_from [hoare_rules]:
  "keeps (kernel_from w0) (record_revision number rid aid ws key digest text)"
  unfolding record_revision_def by (intro hoare_rules)

lemma createArtifact_kernel_from [hoare_rules]: "keeps (kernel_from w0) (createArtifact i)"
  unfolding createArtifact_def Let_def
  by (intro hoare_rules keeps_modifyT) simp

lemma maintains_exec_in [maintain_rules]: "maintains I (exec_in sx command cwd t)"
  unfolding exec_in_def by (intro maintain_rules)

lemma maintains_mapP [maintain_rules]: "(\<And>x. x \<in> set xs \<Longrightarrow> maintains I (f x)) \<Longrightarrow> maintains I (mapP f xs)"
  by (induction xs) (auto intro!: maintain_rules)

lemma maintains_restore [maintain_rules]: "maintains (kernel_from w0) (restore os sx i)"
  unfolding restore_def restore_head_def restore_files_def
  by (intro maintain_rules hoare_rules)

lemma maintains_workspace_checkpoint [maintain_rules]:
  "maintains (kernel_from w0) (workspace_checkpoint number os sx rid aid ws)"
  unfolding workspace_checkpoint_def Let_def by (intro maintain_rules hoare_rules)

lemma maintains_revisionDownloadUrl [maintain_rules]: "maintains I (revisionDownloadUrl os revisionId ttlSec)"
  unfolding revisionDownloadUrl_def by (intro maintain_rules)

lemma maintains_stage [maintain_rules]: "maintains (kernel_from w0) (stageArtifactOutputs sg paths)"
  unfolding stageArtifactOutputs_def stage_one_def Let_def by (intro maintain_rules)

lemma maintains_verify [maintain_rules]: "maintains (kernel_from w0) (verify sx rid policy claimed)"
  unfolding verify_def verify_path_def verify_command_def verify_receipts_def by (intro maintain_rules)

end
