(* ===== verification/Kernel_Steps.thy ===== *)
theory Kernel_Steps
  imports Receipts Session_Events Run_Api Artifacts
begin

text \<open>
  The kernel as a whole: every transaction of its components as a step on the database, and what
  holds in every database that the steps reach. A worker, the scheduler, the reaper, the relay of
  session events and the API take these steps in any order.
\<close>

section \<open>The steps\<close>

text \<open>A transaction that commits; one that throws leaves the database as it was.\<close>

definition commits :: "'a txn \<Rightarrow> world \<Rightarrow> world \<Rightarrow> bool" where
  "commits m w w' \<longleftrightarrow> (\<exists>x. m w = Inr (x, w'))"

inductive kernel_step :: "world \<Rightarrow> world \<Rightarrow> bool" where
  clock: "w_now w \<le> t \<Longrightarrow> kernel_step w (w\<lparr>w_now := t\<rparr>)"
| request: "run_request tid ws w w' \<Longrightarrow> kernel_step w w'"
| create: "commits (createRun input) w w' \<Longrightarrow> kernel_step w w'"
| transition: "commits (transitionRun rid opts) w w' \<Longrightarrow> kernel_step w w'"
| append: "commits (appendEvent rid type payload attempt patch) w w' \<Longrightarrow> kernel_step w w'"
| claim: "commits (claimRun locked worker ttl) w w' \<Longrightarrow> kernel_step w w'"
| start: "commits (startEpoch rid att) w w' \<Longrightarrow> kernel_step w w'"
| heartbeat: "commits (heartbeatAttempt aid ttl) w w' \<Longrightarrow> kernel_step w w'"
| sandbox: "commits (setAttemptSandbox aid sandbox address) w w' \<Longrightarrow> kernel_step w w'"
| settle: "commits (settleAttempt maxAttempts rid att reason) w w' \<Longrightarrow> kernel_step w w'"
| reap: "commits (reap_one held locked maxAttempts) w w' \<Longrightarrow> kernel_step w w'"
| authorize: "commits (authorizeAndConsume rid action resource required) w w' \<Longrightarrow> kernel_step w w'"
| ask: "commits (insertApproval rid aid semantic) w w' \<Longrightarrow> kernel_step w w'"
| lock: "commits (lockApprovalForExecution aid rid action resource key) w w' \<Longrightarrow> kernel_step w w'"
| decide: "commits (decideApproval aid decision who) w w' \<Longrightarrow> kernel_step w w'"
| receipt: "commits (insertPendingReceipt sha fmt receipt) w w' \<Longrightarrow> kernel_step w w'"
| bind: "commits (setPendingReceiptApproval rid aid) w w' \<Longrightarrow> kernel_step w w'"
| commit: "commits (commitReceipt sha fmt rid xid result) w w' \<Longrightarrow> kernel_step w w'"
| fail: "commits (failReceipt rid status) w w' \<Longrightarrow> kernel_step w w'"
| spawn: "commits (spawnChildren pid aid specs) w w' \<Longrightarrow> kernel_step w w'"
| wake: "commits (resolve_parent held locked cap cand) w w' \<Longrightarrow> kernel_step w w'"
| session: "commits (createManagedSession sha fmt cinput) w w' \<Longrightarrow> kernel_step w w'"
| cancel: "commits (cancelManagedSession sha fmt xinput) w w' \<Longrightarrow> kernel_step w w'"
| receive: "commits (receiveManagedSessionEvent sha fmt rinput) w w' \<Longrightarrow> kernel_step w w'"
| dispatch: "commits (dispatch_one held now cand) w w' \<Longrightarrow> kernel_step w w'"
| revision: "commits (insertRevision ws key digest bytes aid) w w' \<Longrightarrow> kernel_step w w'"
| artifact: "commits (createArtifact output) w w' \<Longrightarrow> kernel_step w w'"
| checkpoint: "commits (insertCheckpoint reader state) w w' \<Longrightarrow> kernel_step w w'"
| delay: "kernel_step w (postpone sid until w)"

section \<open>What they keep\<close>

lemma commits_kernel_from:
  "commits m w w' \<Longrightarrow> keeps (kernel_from w0) m \<Longrightarrow> kernel_from w0 w \<Longrightarrow> kernel_from w0 w'"
  by (auto simp: commits_def hoare_def)

lemma kernel_from_clock: "kernel_from w0 (w\<lparr>w_now := t\<rparr>) = kernel_from w0 w"
  by (rule kernel_from_cong) simp_all

lemma kernel_step_from: "kernel_step w w' \<Longrightarrow> kernel_from w0 w \<Longrightarrow> kernel_from w0 w'"
proof (induction rule: kernel_step.induct)
  case (clock w t)
  then show ?case by (simp only: kernel_from_clock)
next
  case (request tid ws w w')
  then show ?case by (rule run_request_kernel_from)
qed (simp_all, (erule commits_kernel_from, intro hoare_rules, assumption)+)

lemma kernel_steps_from: "kernel_step\<^sup>*\<^sup>* w w' \<Longrightarrow> kernel_from w0 w \<Longrightarrow> kernel_from w0 w'"
  by (induction rule: rtranclp_induct) (simp_all add: kernel_step_from)

section \<open>Claims\<close>

text \<open>Somewhere on the way a property that has changed changed.\<close>

lemma steps_change:
  assumes "R\<^sup>*\<^sup>* a b" and "P a" and "\<not> P b"
  obtains v v' where "R\<^sup>*\<^sup>* a v" "R v v'" "R\<^sup>*\<^sup>* v' b" "P v" "\<not> P v'"
  using assms
proof (induction arbitrary: thesis rule: converse_rtranclp_induct)
  case (step x y)
  show ?case
  proof (cases "P y")
    case True
    from step.IH [OF _ True step.prems(3)] obtain v v' where "R\<^sup>*\<^sup>* y v" "R v v'" "R\<^sup>*\<^sup>* v' b" "P v" "\<not> P v'" by metis
    then show ?thesis using step.hyps(1) by (intro step.prems(1)) (auto intro: converse_rtranclp_into_rtranclp)
  next
    case False
    with step show ?thesis by (intro step.prems(1) [of x y]) auto
  qed
qed simp

lemma run_stays:
  assumes "kernel_step\<^sup>*\<^sup>* w w'" and "kernel_ok w" and "find_run w rid = Some r"
  obtains r' where "find_run w' rid = Some r'"
proof -
  have "kernel_from w w'" using kernel_steps_from [OF assms(1) kernel_from_refl [OF assms(2)]] .
  moreover have "r \<in> set (w_runs w)" "run_id r = rid" using find_run_id [OF assms(3)] by simp_all
  ultimately obtain r' where "r' \<in> set (w_runs w')" "run_id r' = rid"
    unfolding kernel_from_def advances_def run_advances_def run_identity_def by fastforce
  then show thesis using that by (cases "find_run w' rid") (auto simp: find_run_def find_None_iff)
qed

text \<open>
  C4: two workers do not claim the same run. However many claim at the same time on the same
  rows, they go for different runs, all of them queued, since each skips the rows the others hold.
  After a claim has committed, and while every other transaction of the kernel goes on, the run is claimed
  again only if some transaction in between took it from another status back to \<open>QUEUED\<close> (a
  settlement, or the reaper); and as long as the row of the first attempt is in the table, the new
  attempt has another id and, for the same run, a higher number.
\<close>

theorem claims_are_disjoint:
  assumes "kernel_ok w"
  shows "distinct (map run_id (claims_at_once locked w workers))
     \<and> (\<forall>run \<in> set (claims_at_once locked w workers). \<not> locked (run_id run)
         \<and> (\<exists>q \<in> set (w_runs w). run_id q = run_id run \<and> run_status q = QUEUED))
     \<and> (claimRun locked1 worker1 ttl1 w = Inr (Some (run1, att1), w1) \<and> kernel_step\<^sup>*\<^sup>* w1 u
         \<and> claimRun locked2 worker2 ttl2 u = Inr (Some (run2, att2), u')
       \<longrightarrow> (run_id run2 = run_id run1
            \<longrightarrow> (\<exists>v v' r r'. kernel_step\<^sup>*\<^sup>* w1 v \<and> kernel_step v v' \<and> kernel_step\<^sup>*\<^sup>* v' u
                 \<and> find_run v (run_id run1) = Some r \<and> run_status r \<noteq> QUEUED
                 \<and> find_run v' (run_id run1) = Some r' \<and> run_status r' = QUEUED))
         \<and> (\<forall>a \<in> set (w_attempts u). att_id a = att_id att1
            \<longrightarrow> att_id att2 \<noteq> att_id att1 \<and> (att_run_id a = run_id run2 \<longrightarrow> att_no a < att_no att2)))"
proof (intro conjI impI)
  show "distinct (map run_id (claims_at_once locked w workers))"
    and "\<forall>run \<in> set (claims_at_once locked w workers). \<not> locked (run_id run)
         \<and> (\<exists>q \<in> set (w_runs w). run_id q = run_id run \<and> run_status q = QUEUED)"
    using claims_at_once_disjoint [OF assms] by blast+
next
  assume a: "claimRun locked1 worker1 ttl1 w = Inr (Some (run1, att1), w1) \<and> kernel_step\<^sup>*\<^sup>* w1 u
         \<and> claimRun locked2 worker2 ttl2 u = Inr (Some (run2, att2), u')" and same: "run_id run2 = run_id run1"
  note claim1 = claimed_run_starts [OF assms conjunct1 [OF a]]
  have from1: "kernel_from w1 w1"
    using keeps_kernel_fromD(1) [OF claimRun_kernel_from assms conjunct1 [OF a]] by (rule kernel_from_refl)
  have steps: "kernel_step\<^sup>*\<^sup>* w1 u" and c2: "claimRun locked2 worker2 ttl2 u = Inr (Some (run2, att2), u')"
    using a by blast+
  have ok1: "kernel_ok w1" and oku: "kernel_ok u"
    using from1 kernel_steps_from [OF steps from1] by (simp_all add: kernel_from_def)
  note claim2 = claimed_run_starts [OF oku c2]
  let ?P = "\<lambda>v. \<exists>r. find_run v (run_id run1) = Some r \<and> run_status r \<noteq> QUEUED"
  have "?P w1" "\<not> ?P u" using claim1(1,2) claim2(5) same by auto
  with steps obtain v v' where v: "kernel_step\<^sup>*\<^sup>* w1 v" "kernel_step v v'" "kernel_step\<^sup>*\<^sup>* v' u" "?P v" "\<not> ?P v'"
    by (rule steps_change)
  obtain r' where "find_run v' (run_id run1) = Some r'"
    using run_stays [OF _ ok1 claim1(1), of v'] v(1,2) by (metis rtranclp.rtrancl_into_rtrancl)
  with v show "\<exists>v v' r r'. kernel_step\<^sup>*\<^sup>* w1 v \<and> kernel_step v v' \<and> kernel_step\<^sup>*\<^sup>* v' u
      \<and> find_run v (run_id run1) = Some r \<and> run_status r \<noteq> QUEUED
      \<and> find_run v' (run_id run1) = Some r' \<and> run_status r' = QUEUED" by auto
next
  assume a: "claimRun locked1 worker1 ttl1 w = Inr (Some (run1, att1), w1) \<and> kernel_step\<^sup>*\<^sup>* w1 u
         \<and> claimRun locked2 worker2 ttl2 u = Inr (Some (run2, att2), u')"
  have "kernel_from w1 w1"
    using keeps_kernel_fromD(1) [OF claimRun_kernel_from assms conjunct1 [OF a]] by (rule kernel_from_refl)
  from kernel_steps_from [OF conjunct1 [OF conjunct2 [OF a]] this] have "kernel_ok u" by (simp add: kernel_from_def)
  from claimed_run_starts(4) [OF this conjunct2 [OF conjunct2 [OF a]]]
  show "\<forall>a \<in> set (w_attempts u). att_id a = att_id att1
      \<longrightarrow> att_id att2 \<noteq> att_id att1 \<and> (att_run_id a = run_id run2 \<longrightarrow> att_no a < att_no att2)" by fastforce
qed

text \<open>Two workers at the same time; and a second worker after the first, which goes for the other run.\<close>

theorem claims_are_disjoint_witness:
  "(\<exists>a b. claims_at_once (\<lambda>_. False) demo_two_queued [(''worker_1'', 30000), (''worker_2'', 30000)] = [a, b]
     \<and> run_id a \<noteq> run_id b)
   \<and> (\<exists>run1 att1 w1 run2 att2 w2.
     claimRun (\<lambda>_. False) ''worker_1'' 30000 demo_two_queued = Inr (Some (run1, att1), w1)
     \<and> claimRun (\<lambda>_. False) ''worker_2'' 30000 w1 = Inr (Some (run2, att2), w2)
     \<and> att_id att1 \<noteq> att_id att2)"
proof
  let ?cs = "claims_at_once (\<lambda>_. False) demo_two_queued [(''worker_1'', 30000), (''worker_2'', 30000)]"
  have "length ?cs = 2" by code_simp
  then obtain a b where "?cs = [a, b]" by (auto simp: numeral_2_eq_2 length_Suc_conv)
  with claims_are_disjoint [OF demo_two_queued_ok, THEN conjunct1, of "\<lambda>_. False" "[(''worker_1'', 30000), (''worker_2'', 30000)]"]
  show "\<exists>a b. ?cs = [a, b] \<and> run_id a \<noteq> run_id b" by (metis distinct_length_2_or_more list.simps(9))
next
  from demo_two_claims obtain run1 att1 w1 run2 att2 w2 where
    c1: "claimRun (\<lambda>_. False) ''worker_1'' 30000 demo_two_queued = Inr (Some (run1, att1), w1)"
    and c2: "claimRun (\<lambda>_. False) ''worker_2'' 30000 w1 = Inr (Some (run2, att2), w2)" by blast
  have "att1 \<in> set (w_attempts w1)" by (rule claimRun_effect [OF demo_two_queued_ok c1]) simp
  with claims_are_disjoint [OF demo_two_queued_ok, THEN conjunct2, THEN conjunct2, rule_format,
      OF conjI [OF c1 conjI [OF rtranclp.rtrancl_refl c2]], THEN conjunct2]
  have "att_id att1 \<noteq> att_id att2" by metis
  with c1 c2 show "\<exists>run1 att1 w1 run2 att2 w2.
     claimRun (\<lambda>_. False) ''worker_1'' 30000 demo_two_queued = Inr (Some (run1, att1), w1)
     \<and> claimRun (\<lambda>_. False) ''worker_2'' 30000 w1 = Inr (Some (run2, att2), w2)
     \<and> att_id att1 \<noteq> att_id att2" by blast
qed

end
