(* ===== verification/Credentials.thy ===== *)
theory Credentials
  imports Approvals Grants Runs
begin

text \<open>
  The credential vault, \<^verbatim>\<open>src/store/credentials.ts\<close>: encrypted secrets, the grants that bind their
  release to a run, and the one transaction that releases a secret, counts the use and records it.
  The tables of the vault extend the database. The cipher is a parameter; it may fail.
\<close>

section \<open>The vault\<close>

record sealed =
  sl_ct :: string
  sl_iv :: string
  sl_tag :: string

datatype vault_status = VS_active | VS_revoked

record credential_row =
  cr_id :: string
  cr_tenant_id :: string
  cr_name :: string
  cr_action_pattern :: string
  cr_resource_pattern :: string
  cr_header_name :: string
  cr_sealed :: sealed
  cr_expires_at :: "int option"
  cr_max_uses :: "int option"
  cr_uses :: int
  cr_status :: vault_status
  cr_created_at :: int

record credential_grant_row =
  cg_id :: string
  cg_credential_id :: string
  cg_tenant_id :: string
  cg_agent_version_id :: string
  cg_run_id :: string
  cg_caller_pattern :: string
  cg_purpose_pattern :: string
  cg_action_pattern :: string
  cg_resource_pattern :: string
  cg_requires_approval :: bool
  cg_allow_delegated_runs :: bool
  cg_allow_forks :: bool
  cg_max_uses :: "int option"
  cg_uses :: int
  cg_expires_at :: "int option"
  cg_status :: vault_status
  cg_created_at :: int

record credential_use_row =
  cu_id :: string
  cu_grant_id :: string
  cu_credential_id :: string
  cu_tenant_id :: string
  cu_run_id :: string
  cu_attempt_id :: string
  cu_approval_id :: "string option"
  cu_idempotency_key :: string
  cu_caller :: string
  cu_purpose :: string
  cu_action :: string
  cu_resource :: string
  cu_created_at :: int

text \<open>
  The rows that a release reads are locked, so other transactions show only in the clock:
  \<^verbatim>\<open>clock_timestamp()\<close> moves on between the statements. \<open>va_clock\<close> is the sequence of its
  readings, one per statement.
\<close>

record vault =
  va_world :: world
  va_credentials :: "credential_row list"
  va_grants :: "credential_grant_row list"
  va_uses :: "credential_use_row list"
  va_clock :: "nat \<Rightarrow> int"
  va_reads :: nat

type_synonym 'a vtxn = "(err, vault, 'a) tx"

definition clock_timestamp :: "int vtxn" where
  "clock_timestamp = (\<lambda>v. Inr (va_clock v (va_reads v), v\<lparr>va_reads := Suc (va_reads v)\<rparr>))"

definition vault_id :: "string \<Rightarrow> string vtxn" where
  "vault_id prefix =
     (\<lambda>v. case newId prefix (va_world v) of
            Inl e \<Rightarrow> Inl e
          | Inr (x, w) \<Rightarrow> Inr (x, v\<lparr>va_world := w\<rparr>))"

definition fresh_key :: "string \<Rightarrow> string \<Rightarrow> (vault \<Rightarrow> string list) \<Rightarrow> unit vtxn" where
  "fresh_key index i keys = bindT (getsT keys) (\<lambda>ks. ensureT (i \<notin> set ks) (UniqueViolation index))"

definition before :: "int \<Rightarrow> int option \<Rightarrow> bool" where
  "before t expires = (case expires of None \<Rightarrow> True | Some e \<Rightarrow> t < e)"

section \<open>Credentials and grants\<close>

record credential_input =
  ci_tenantId :: string
  ci_name :: string
  ci_action :: string
  ci_resource :: "string option"
  ci_headerName :: string
  ci_secret :: string
  ci_expiresAt :: "int option"
  ci_maxUses :: "int option"

definition createCredential :: "(string \<Rightarrow> err + sealed) \<Rightarrow> credential_input \<Rightarrow> string vtxn" where
  "createCredential seal input =
     bindT (vault_id ''cred'') (\<lambda>i.
     case seal (ci_secret input) of
       Inl e \<Rightarrow> throwT e
     | Inr box \<Rightarrow>
         thenT (fresh_key ''credentials_pkey'' i (\<lambda>v. map cr_id (va_credentials v)))
        (thenT (modifyT (\<lambda>v. v\<lparr>va_credentials := va_credentials v @
                 [\<lparr>cr_id = i, cr_tenant_id = ci_tenantId input, cr_name = ci_name input,
                   cr_action_pattern = ci_action input,
                   cr_resource_pattern = or_else (ci_resource input) ''*'',
                   cr_header_name = ci_headerName input, cr_sealed = box,
                   cr_expires_at = ci_expiresAt input, cr_max_uses = ci_maxUses input, cr_uses = 0,
                   cr_status = VS_active, cr_created_at = w_now (va_world v)\<rparr>]\<rparr>))
               (returnT i)))"

text \<open>The listing has no ciphertext.\<close>

record credential_metadata =
  cm_id :: string
  cm_name :: string
  cm_action_pattern :: string
  cm_resource_pattern :: string
  cm_header_name :: string
  cm_expires_at :: "int option"
  cm_max_uses :: "int option"
  cm_uses :: int
  cm_status :: vault_status
  cm_created_at :: int

definition credential_metadata_of :: "credential_row \<Rightarrow> credential_metadata" where
  "credential_metadata_of c =
     \<lparr>cm_id = cr_id c, cm_name = cr_name c, cm_action_pattern = cr_action_pattern c,
      cm_resource_pattern = cr_resource_pattern c, cm_header_name = cr_header_name c,
      cm_expires_at = cr_expires_at c, cm_max_uses = cr_max_uses c, cm_uses = cr_uses c,
      cm_status = cr_status c, cm_created_at = cr_created_at c\<rparr>"

definition listCredentials :: "vault \<Rightarrow> string \<Rightarrow> credential_metadata list" where
  "listCredentials v tid =
     map credential_metadata_of (sort_key cr_created_at (filter (\<lambda>c. cr_tenant_id c = tid) (va_credentials v)))"

definition revokeCredential :: "string \<Rightarrow> string \<Rightarrow> bool vtxn" where
  "revokeCredential i tid =
     bindT (getsT (\<lambda>v. exists_row (\<lambda>c. cr_id c = i \<and> cr_tenant_id c = tid) (va_credentials v))) (\<lambda>found.
     thenT (modifyT (\<lambda>v. v\<lparr>va_credentials :=
              update_where (\<lambda>c. cr_id c = i \<and> cr_tenant_id c = tid) (\<lambda>c. c\<lparr>cr_status := VS_revoked\<rparr>) (va_credentials v)\<rparr>))
           (returnT found))"

record credential_grant_input =
  gi_tenantId :: string
  gi_credentialId :: string
  gi_agentVersionId :: string
  gi_runId :: string
  gi_caller :: string
  gi_purpose :: string
  gi_action :: string
  gi_resource :: "string option"
  gi_requiresApproval :: "bool option"
  gi_allowDelegatedRuns :: "bool option"
  gi_allowForks :: "bool option"
  gi_maxUses :: "int option"
  gi_expiresAt :: "int option"

text \<open>The subject: credential, run and agent version all belong to the tenant and to each other.\<close>

definition grant_subject_ok :: "vault \<Rightarrow> credential_grant_input \<Rightarrow> bool" where
  "grant_subject_ok v input \<longleftrightarrow>
     exists_row (\<lambda>c. cr_id c = gi_credentialId input \<and> cr_tenant_id c = gi_tenantId input) (va_credentials v)
     \<and> exists_row (\<lambda>r. run_id r = gi_runId input \<and> run_tenant_id r = gi_tenantId input
          \<and> run_agent_version_id r = gi_agentVersionId input) (w_runs (va_world v))
     \<and> (gi_agentVersionId input, gi_tenantId input) \<in> set (w_versions (va_world v))"

definition createCredentialGrant :: "credential_grant_input \<Rightarrow> credential_grant_row vtxn" where
  "createCredentialGrant input =
     bindT (getsT (\<lambda>v. grant_subject_ok v input)) (\<lambda>ok.
     thenT (ensureT ok (GenericError ''credential grant subject does not belong to the tenant or run''))
    (bindT (vault_id ''cgr'') (\<lambda>i.
     bindT (getsT (\<lambda>v. w_now (va_world v))) (\<lambda>now.
     let g = \<lparr>cg_id = i, cg_credential_id = gi_credentialId input, cg_tenant_id = gi_tenantId input,
              cg_agent_version_id = gi_agentVersionId input, cg_run_id = gi_runId input,
              cg_caller_pattern = gi_caller input, cg_purpose_pattern = gi_purpose input,
              cg_action_pattern = gi_action input, cg_resource_pattern = or_else (gi_resource input) ''*'',
              cg_requires_approval = or_else (gi_requiresApproval input) False,
              cg_allow_delegated_runs = or_else (gi_allowDelegatedRuns input) False,
              cg_allow_forks = or_else (gi_allowForks input) False, cg_max_uses = gi_maxUses input,
              cg_uses = 0, cg_expires_at = gi_expiresAt input, cg_status = VS_active, cg_created_at = now\<rparr>
     in thenT (ensureT (case gi_maxUses input of None \<Rightarrow> True | Some m \<Rightarrow> 0 < m)
                 (GenericError ''credential_grants_max_uses_check''))
        (thenT (fresh_key ''credential_grants_pkey'' i (\<lambda>v. map cg_id (va_grants v)))
        (thenT (modifyT (\<lambda>v. v\<lparr>va_grants := va_grants v @ [g]\<rparr>)) (returnT g)))))))"

definition listCredentialGrants :: "vault \<Rightarrow> string \<Rightarrow> credential_grant_row list" where
  "listCredentialGrants v tid = sort_key cg_created_at (filter (\<lambda>g. cg_tenant_id g = tid) (va_grants v))"

definition revokeCredentialGrant :: "string \<Rightarrow> string \<Rightarrow> bool vtxn" where
  "revokeCredentialGrant i tid =
     bindT (getsT (\<lambda>v. exists_row (\<lambda>g. cg_id g = i \<and> cg_tenant_id g = tid) (va_grants v))) (\<lambda>found.
     thenT (modifyT (\<lambda>v. v\<lparr>va_grants :=
              update_where (\<lambda>g. cg_id g = i \<and> cg_tenant_id g = tid) (\<lambda>g. g\<lparr>cg_status := VS_revoked\<rparr>) (va_grants v)\<rparr>))
           (returnT found))"

definition listCredentialUseReceipts :: "vault \<Rightarrow> string \<Rightarrow> credential_use_row list" where
  "listCredentialUseReceipts v tid = sort_key cu_created_at (filter (\<lambda>u. cu_tenant_id u = tid) (va_uses v))"

section \<open>Release\<close>

record credential_request =
  cq_tenantId :: string
  cq_runId :: string
  cq_attemptId :: string
  cq_caller :: string
  cq_purpose :: string
  cq_action :: string
  cq_resource :: string
  cq_approvalId :: "string option"
  cq_idempotencyKey :: string

text \<open>
  The recursive query over the ancestors of a run in its tenant, with whether the path from an
  ancestor goes through a delegation or a fork. A run is created after the one it comes from, so
  the query ends; the recursion here drops the runs it has passed.
\<close>

function ancestry :: "string \<Rightarrow> run_row list \<Rightarrow> string \<Rightarrow> bool \<Rightarrow> bool \<Rightarrow> (string \<times> bool \<times> bool) list" where
  "ancestry tid runs rid via_delegation via_fork =
     (case find (\<lambda>r. run_id r = rid \<and> run_tenant_id r = tid) runs of
        None \<Rightarrow> []
      | Some r \<Rightarrow> (rid, via_delegation, via_fork) #
          (case (case run_parent_run_id r of None \<Rightarrow> run_forked_from_run_id r | Some p \<Rightarrow> Some p) of
             None \<Rightarrow> []
           | Some p \<Rightarrow> ancestry tid (filter (\<lambda>q. run_id q \<noteq> rid) runs) p
               (via_delegation \<or> run_parent_run_id r \<noteq> None) (via_fork \<or> run_forked_from_run_id r \<noteq> None)))"
  by pat_completeness auto
termination
proof (relation "measure (\<lambda>(tid, runs, rid, d, f). length runs)")
  fix tid :: string and runs :: "run_row list" and rid r p and d f :: bool
  assume "find (\<lambda>r. run_id r = rid \<and> run_tenant_id r = tid) runs = Some r"
  then have "r \<in> set runs" "run_id r = rid" by (auto dest: find_SomeD)
  then have "length (filter (\<lambda>q. run_id q \<noteq> rid) runs) < length runs"
    by (intro length_filter_less) auto
  then show "((tid, filter (\<lambda>q. run_id q \<noteq> rid) runs, p, d \<or> run_parent_run_id r \<noteq> None,
      f \<or> run_forked_from_run_id r \<noteq> None), tid, runs, rid, d, f) \<in> measure (\<lambda>(tid, runs, rid, d, f). length runs)"
    by simp
qed simp

declare ancestry.simps [simp del]

text \<open>The run and the attempt that a release is for, at time \<open>t\<close>.\<close>

definition locked_run :: "vault \<Rightarrow> credential_request \<Rightarrow> bool" where
  "locked_run v input \<longleftrightarrow>
     exists_row (\<lambda>r. run_id r = cq_runId input \<and> run_tenant_id r = cq_tenantId input \<and> run_status r = RUNNING
                     \<and> run_current_attempt_id r = Some (cq_attemptId input)) (w_runs (va_world v))"

definition live_attempt :: "int \<Rightarrow> vault \<Rightarrow> credential_request \<Rightarrow> bool" where
  "live_attempt t v input \<longleftrightarrow>
     exists_row (\<lambda>a. att_id a = cq_attemptId input \<and> att_run_id a = cq_runId input
                     \<and> att_state a = AS_ACTIVE \<and> t < att_lease_expires_at a) (w_attempts (va_world v))"

definition owns_attempt :: "int \<Rightarrow> vault \<Rightarrow> credential_request \<Rightarrow> bool" where
  "owns_attempt t v input \<longleftrightarrow>
     live_attempt t v input
     \<and> exists_row (\<lambda>r. run_id r = cq_runId input \<and> run_status r = RUNNING
                       \<and> run_current_attempt_id r = Some (cq_attemptId input)) (w_runs (va_world v))"

type_synonym candidate = "credential_grant_row \<times> credential_row"

definition both_active :: "int \<Rightarrow> candidate \<Rightarrow> bool" where
  "both_active t gc \<longleftrightarrow>
     cg_status (fst gc) = VS_active \<and> cr_status (snd gc) = VS_active
     \<and> before t (cg_expires_at (fst gc)) \<and> before t (cr_expires_at (snd gc))"

definition eligible_rows :: "int \<Rightarrow> vault \<Rightarrow> credential_request \<Rightarrow> candidate list" where
  "eligible_rows t v input =
     (let tid = cq_tenantId input; runs = w_runs (va_world v) in
      sort_key (\<lambda>gc. cg_created_at (fst gc)) (sort_key (\<lambda>gc. cr_created_at (snd gc))
        [(g, c). g \<leftarrow> va_grants v, c \<leftarrow> va_credentials v, r \<leftarrow> runs,
                 (lid, via_delegation, via_fork) \<leftarrow> ancestry tid runs (cq_runId input) False False,
                 cr_id c = cg_credential_id g \<and> cr_tenant_id c = cg_tenant_id g
                 \<and> run_id r = cq_runId input \<and> run_tenant_id r = cg_tenant_id g \<and> lid = cg_run_id g
                 \<and> cg_tenant_id g = tid \<and> cg_agent_version_id g = run_agent_version_id r
                 \<and> (via_delegation \<longrightarrow> cg_allow_delegated_runs g) \<and> (via_fork \<longrightarrow> cg_allow_forks g)
                 \<and> both_active t (g, c)]))"

definition policy_matches :: "credential_request \<Rightarrow> candidate \<Rightarrow> bool" where
  "policy_matches input gc \<longleftrightarrow>
     patternMatches (cg_caller_pattern (fst gc)) (cq_caller input)
     \<and> patternMatches (cg_purpose_pattern (fst gc)) (cq_purpose input)
     \<and> patternMatches (cg_action_pattern (fst gc)) (cq_action input)
     \<and> patternMatches (cg_resource_pattern (fst gc)) (cq_resource input)
     \<and> patternMatches (cr_action_pattern (snd gc)) (cq_action input)
     \<and> patternMatches (cr_resource_pattern (snd gc)) (cq_resource input)"

definition approves :: "int \<Rightarrow> vault \<Rightarrow> credential_request \<Rightarrow> string \<Rightarrow> bool" where
  "approves t v input aid \<longleftrightarrow>
     exists_row (\<lambda>a. authorizes aid (cq_runId input) (cq_action input) (cq_resource input) (cq_idempotencyKey input) a
                     \<and> ap_status a = AP_APPROVED \<and> before t (ap_expires_at a)) (w_approvals (va_world v))"

definition validate_approval :: "credential_request \<Rightarrow> string option vtxn" where
  "validate_approval input =
     (case cq_approvalId input of
        None \<Rightarrow> returnT None
      | Some aid \<Rightarrow>
          if aid = [] then returnT None
          else bindT clock_timestamp (\<lambda>t. getsT (\<lambda>v. if approves t v input aid then Some aid else None)))"

text \<open>The check after the cipher has answered.\<close>

definition still_valid :: "int \<Rightarrow> vault \<Rightarrow> credential_request \<Rightarrow> string option \<Rightarrow> string \<Rightarrow> bool" where
  "still_valid t v input approval gid \<longleftrightarrow>
     exists_row (\<lambda>g. cg_id g = gid \<and> cg_tenant_id g = cq_tenantId input
       \<and> exists_row (\<lambda>c. cr_id c = cg_credential_id g \<and> cr_tenant_id c = cg_tenant_id g \<and> both_active t (g, c))
           (va_credentials v)
       \<and> exists_row (\<lambda>r. run_id r = cq_runId input \<and> run_tenant_id r = cg_tenant_id g \<and> run_status r = RUNNING
                         \<and> run_current_attempt_id r = Some (cq_attemptId input)) (w_runs (va_world v))
       \<and> live_attempt t v input
       \<and> (cg_requires_approval g \<longrightarrow> (case approval of None \<Rightarrow> False | Some aid \<Rightarrow> approves t v input aid)))
     (va_grants v)"

definition openWhileStillAuthorized ::
    "(sealed \<Rightarrow> err + string) \<Rightarrow> credential_request \<Rightarrow> string option \<Rightarrow> candidate \<Rightarrow> string option vtxn" where
  "openWhileStillAuthorized decipher input approval gc =
     (case decipher (cr_sealed (snd gc)) of
        Inl e \<Rightarrow> throwT e
      | Inr plaintext \<Rightarrow>
          bindT clock_timestamp (\<lambda>t.
          getsT (\<lambda>v. if still_valid t v input approval (cg_id (fst gc)) then Some plaintext else None)))"

definition coalesce :: "string option \<Rightarrow> string" where
  "coalesce x = or_else x []"

definition record_use :: "credential_request \<Rightarrow> string option \<Rightarrow> candidate \<Rightarrow> unit vtxn" where
  "record_use input approval gc =
     bindT (vault_id ''cuse'') (\<lambda>i.
     bindT (getsT (\<lambda>v. exists_row (\<lambda>u. cu_grant_id u = cg_id (fst gc) \<and> cu_run_id u = cq_runId input
              \<and> cu_idempotency_key u = cq_idempotencyKey input
              \<and> coalesce (cu_approval_id u) = coalesce approval) (va_uses v))) (\<lambda>taken.
     thenT (ensureT (\<not> taken) (UniqueViolation ''credential_use_receipts_logical_use''))
           (modifyT (\<lambda>v. v\<lparr>va_uses := va_uses v @
              [\<lparr>cu_id = i, cu_grant_id = cg_id (fst gc), cu_credential_id = cg_credential_id (fst gc),
                cu_tenant_id = cq_tenantId input, cu_run_id = cq_runId input,
                cu_attempt_id = cq_attemptId input, cu_approval_id = approval,
                cu_idempotency_key = cq_idempotencyKey input, cu_caller = cq_caller input,
                cu_purpose = cq_purpose input, cu_action = cq_action input,
                cu_resource = cq_resource input, cu_created_at = w_now (va_world v)\<rparr>]\<rparr>))))"

definition prior_uses :: "vault \<Rightarrow> credential_request \<Rightarrow> candidate \<Rightarrow> credential_use_row list" where
  "prior_uses v input gc =
     filter (\<lambda>u. cu_grant_id u = cg_id (fst gc) \<and> cu_run_id u = cq_runId input
                 \<and> cu_idempotency_key u = cq_idempotencyKey input) (va_uses v)"

definition same_use :: "credential_request \<Rightarrow> credential_use_row \<Rightarrow> bool" where
  "same_use input u \<longleftrightarrow>
     cu_caller u = cq_caller input \<and> cu_purpose u = cq_purpose input
     \<and> cu_action u = cq_action input \<and> cu_resource u = cq_resource input"

text \<open>A candidate that this key has used before: the retry is answered without spending a use.\<close>

definition replay_use ::
    "(sealed \<Rightarrow> err + string) \<Rightarrow> credential_request \<Rightarrow> string option \<Rightarrow> candidate \<Rightarrow> credential_use_row list \<Rightarrow>
     (string \<times> string) option vtxn" where
  "replay_use decipher input approval gc prior =
     (if \<not> list_all (same_use input) prior then returnT None
      else bindT (openWhileStillAuthorized decipher input approval gc) (\<lambda>opened.
        case opened of
          None \<Rightarrow> returnT None
        | Some headerValue \<Rightarrow>
            thenT (whenT (\<not> list_ex (\<lambda>u. cu_approval_id u = approval) prior) (record_use input approval gc))
                  (returnT (Some (cr_header_name (snd gc), headerValue)))))"

definition uses_left :: "candidate \<Rightarrow> bool" where
  "uses_left gc \<longleftrightarrow>
     (case cg_max_uses (fst gc) of None \<Rightarrow> True | Some m \<Rightarrow> cg_uses (fst gc) < m)
     \<and> (case cr_max_uses (snd gc) of None \<Rightarrow> True | Some m \<Rightarrow> cr_uses (snd gc) < m)"

definition count_use :: "candidate \<Rightarrow> unit vtxn" where
  "count_use gc =
     modifyT (\<lambda>v. v\<lparr>va_grants := update_where (\<lambda>g. cg_id g = cg_id (fst gc)) (\<lambda>g. g\<lparr>cg_uses := cg_uses g + 1\<rparr>) (va_grants v),
                    va_credentials := update_where (\<lambda>c. cr_id c = cg_credential_id (fst gc))
                      (\<lambda>c. c\<lparr>cr_uses := cr_uses c + 1\<rparr>) (va_credentials v)\<rparr>)"

definition fresh_use ::
    "(sealed \<Rightarrow> err + string) \<Rightarrow> credential_request \<Rightarrow> string option \<Rightarrow> candidate list \<Rightarrow>
     (string \<times> string) option vtxn" where
  "fresh_use decipher input approval candidates =
     (case find (\<lambda>gc. (\<not> cg_requires_approval (fst gc) \<or> approval \<noteq> None) \<and> uses_left gc) candidates of
        None \<Rightarrow> returnT None
      | Some gc \<Rightarrow>
          bindT (openWhileStillAuthorized decipher input approval gc) (\<lambda>opened.
          case opened of
            None \<Rightarrow> returnT None
          | Some headerValue \<Rightarrow>
              thenT (count_use gc)
             (thenT (record_use input approval gc)
                    (returnT (Some (cr_header_name (snd gc), headerValue))))))"

text \<open>The loop over the candidates, and what follows it when none of them was used before.\<close>

fun release_loop ::
    "(sealed \<Rightarrow> err + string) \<Rightarrow> credential_request \<Rightarrow> string option \<Rightarrow> candidate list \<Rightarrow> candidate list \<Rightarrow>
     (string \<times> string) option vtxn" where
  "release_loop decipher input approval all [] = fresh_use decipher input approval all"
| "release_loop decipher input approval all (gc # rest) =
     (if cg_requires_approval (fst gc) \<and> (case approval of None \<Rightarrow> True | Some a \<Rightarrow> a = [])
      then release_loop decipher input approval all rest
      else bindT (getsT (\<lambda>v. prior_uses v input gc)) (\<lambda>prior.
        if prior \<noteq> [] then replay_use decipher input approval gc prior
        else release_loop decipher input approval all rest))"

definition consumeCredential ::
    "(sealed \<Rightarrow> err + string) \<Rightarrow> credential_request \<Rightarrow> (string \<times> string) option vtxn" where
  "consumeCredential decipher input =
     bindT (getsT (\<lambda>v. locked_run v input)) (\<lambda>locked.
     if \<not> locked then returnT None
     else bindT clock_timestamp (\<lambda>t1. bindT (getsT (\<lambda>v. live_attempt t1 v input)) (\<lambda>alive.
       if \<not> alive then returnT None
       else bindT clock_timestamp (\<lambda>t2.
         bindT (getsT (\<lambda>v. filter (policy_matches input) (eligible_rows t2 v input))) (\<lambda>candidates.
         if candidates = [] then returnT None
         else bindT clock_timestamp (\<lambda>t3. bindT (getsT (\<lambda>v. owns_attempt t3 v input)) (\<lambda>owner.
           if \<not> owner then returnT None
           else bindT (validate_approval input) (\<lambda>approval.
             release_loop decipher input approval candidates candidates))))))))"

section \<open>What a release does\<close>

lemma clock_timestamp_iff [tx_simps]:
  "clock_timestamp v = Inr (t, v') \<longleftrightarrow> t = va_clock v (va_reads v) \<and> v' = v\<lparr>va_reads := Suc (va_reads v)\<rparr>"
  by (auto simp: clock_timestamp_def)

lemma vault_id_iff:
  "vault_id pre v = Inr (i, v') \<longleftrightarrow>
     i = pre @ ''_'' @ toLowerCase (w_ulid (va_world v) (w_ulid_next (va_world v)))
     \<and> v' = v\<lparr>va_world := (va_world v)\<lparr>w_ulid_next := Suc (w_ulid_next (va_world v))\<rparr>\<rparr>"
  by (auto simp: vault_id_def newId_def)

text \<open>Reading the clock shows in nothing but the number of readings.\<close>

lemma reads_frame [simp]:
  "prior_uses (v\<lparr>va_reads := n\<rparr>) input gc = prior_uses v input gc"
  "eligible_rows t (v\<lparr>va_reads := n\<rparr>) input = eligible_rows t v input"
  "locked_run (v\<lparr>va_reads := n\<rparr>) input = locked_run v input"
  "live_attempt t (v\<lparr>va_reads := n\<rparr>) input = live_attempt t v input"
  "owns_attempt t (v\<lparr>va_reads := n\<rparr>) input = owns_attempt t v input"
  "approves t (v\<lparr>va_reads := n\<rparr>) input = approves t v input"
  by (simp_all add: prior_uses_def eligible_rows_def locked_run_def live_attempt_def owns_attempt_def
      approves_def fun_eq_iff)

lemma still_valid_reads [simp]:
  "still_valid t (v\<lparr>va_reads := n\<rparr>) input approval gid = still_valid t v input approval gid"
  by (simp add: still_valid_def cong: option.case_cong)

lemma open_iff:
  "openWhileStillAuthorized d input approval gc v = Inr (opened, v') \<longleftrightarrow>
     (\<exists>p. d (cr_sealed (snd gc)) = Inr p \<and> v' = v\<lparr>va_reads := Suc (va_reads v)\<rparr>
        \<and> opened = (if still_valid (va_clock v (va_reads v)) v input approval (cg_id (fst gc)) then Some p else None))"
  by (auto simp: openWhileStillAuthorized_def tx_simps split: sum.splits)

definition use_row :: "credential_request \<Rightarrow> string option \<Rightarrow> candidate \<Rightarrow> vault \<Rightarrow> credential_use_row" where
  "use_row input approval gc v =
     \<lparr>cu_id = ''cuse'' @ ''_'' @ toLowerCase (w_ulid (va_world v) (w_ulid_next (va_world v))),
      cu_grant_id = cg_id (fst gc), cu_credential_id = cg_credential_id (fst gc),
      cu_tenant_id = cq_tenantId input, cu_run_id = cq_runId input,
      cu_attempt_id = cq_attemptId input, cu_approval_id = approval,
      cu_idempotency_key = cq_idempotencyKey input, cu_caller = cq_caller input,
      cu_purpose = cq_purpose input, cu_action = cq_action input,
      cu_resource = cq_resource input, cu_created_at = w_now (va_world v)\<rparr>"

definition used :: "credential_request \<Rightarrow> string option \<Rightarrow> candidate \<Rightarrow> vault \<Rightarrow> vault" where
  "used input approval gc v =
     v\<lparr>va_world := (va_world v)\<lparr>w_ulid_next := Suc (w_ulid_next (va_world v))\<rparr>,
       va_uses := va_uses v @ [use_row input approval gc v]\<rparr>"

definition counted :: "candidate \<Rightarrow> vault \<Rightarrow> vault" where
  "counted gc v =
     v\<lparr>va_grants := update_where (\<lambda>g. cg_id g = cg_id (fst gc)) (\<lambda>g. g\<lparr>cg_uses := cg_uses g + 1\<rparr>) (va_grants v),
       va_credentials := update_where (\<lambda>c. cr_id c = cg_credential_id (fst gc))
         (\<lambda>c. c\<lparr>cr_uses := cr_uses c + 1\<rparr>) (va_credentials v)\<rparr>"

lemma record_use_iff:
  "record_use input approval gc v = Inr (u, v') \<longleftrightarrow>
     (\<forall>u \<in> set (prior_uses v input gc). coalesce (cu_approval_id u) \<noteq> coalesce approval)
     \<and> v' = used input approval gc v"
  by (auto simp: record_use_def tx_simps vault_id_iff exists_row_iff prior_uses_def used_def use_row_def)

text \<open>
  A release either gives nothing and only reads the clock, or opens one candidate that is still
  valid after the cipher has answered: a first use is counted and recorded, a repeated one is
  recorded only under a new approval.
\<close>

definition spends :: "credential_request \<Rightarrow> string option \<Rightarrow> candidate \<Rightarrow> vault \<Rightarrow> vault \<Rightarrow> bool" where
  "spends input approval gc v v' \<longleftrightarrow>
     (let prior = prior_uses v input gc in
      if prior = [] then uses_left gc \<and> v' = used input approval gc (counted gc v)
      else list_all (same_use input) prior
           \<and> v' = (if list_ex (\<lambda>u. cu_approval_id u = approval) prior then v else used input approval gc v))"

definition released ::
    "(sealed \<Rightarrow> err + string) \<Rightarrow> credential_request \<Rightarrow> candidate list \<Rightarrow> string option \<Rightarrow> vault \<Rightarrow>
     string \<times> string \<Rightarrow> vault \<Rightarrow> bool" where
  "released d input candidates approval v answer v' \<longleftrightarrow>
     (\<exists>gc \<in> set candidates. \<exists>n. va_reads v \<le> n \<and> still_valid (va_clock v n) v input approval (cg_id (fst gc))
        \<and> d (cr_sealed (snd gc)) = Inr (snd answer) \<and> fst answer = cr_header_name (snd gc)
        \<and> spends input approval gc (v\<lparr>va_reads := Suc n\<rparr>) v')"

lemma replay_use_cases:
  assumes "replay_use d input approval gc (prior_uses v input gc) v = Inr (out, v')"
    and "gc \<in> set candidates" and "prior_uses v input gc \<noteq> []"
  shows "case out of None \<Rightarrow> \<exists>n \<ge> va_reads v. v' = v\<lparr>va_reads := n\<rparr>
     | Some answer \<Rightarrow> released d input candidates approval v answer v'"
proof (cases out)
  case None
  with assms(1) have "v' = v \<or> v' = v\<lparr>va_reads := Suc (va_reads v)\<rparr>"
    by (auto simp: replay_use_def tx_simps open_iff split: if_splits option.splits)
  then have "\<exists>n \<ge> va_reads v. v' = v\<lparr>va_reads := n\<rparr>"
  proof
    assume "v' = v" then show ?thesis by (intro exI [of _ "va_reads v"]) simp
  next
    assume "v' = v\<lparr>va_reads := Suc (va_reads v)\<rparr>" then show ?thesis by (intro exI [of _ "Suc (va_reads v)"]) simp
  qed
  with None show ?thesis by simp
next
  case (Some answer)
  with assms(1) have "list_all (same_use input) (prior_uses v input gc)"
    "still_valid (va_clock v (va_reads v)) v input approval (cg_id (fst gc))"
    "d (cr_sealed (snd gc)) = Inr (snd answer)" "fst answer = cr_header_name (snd gc)"
    "v' = (if list_ex (\<lambda>u. cu_approval_id u = approval) (prior_uses v input gc)
      then v\<lparr>va_reads := Suc (va_reads v)\<rparr> else used input approval gc (v\<lparr>va_reads := Suc (va_reads v)\<rparr>))"
    by (auto simp: replay_use_def tx_simps open_iff record_use_iff split: if_splits option.splits)
  with assms(2,3) have "released d input candidates approval v answer v'"
    unfolding released_def spends_def by (intro bexI [of _ gc] exI [of _ "va_reads v"]) simp_all
  with Some show ?thesis by simp
qed

lemma fresh_use_cases:
  assumes "fresh_use d input approval candidates v = Inr (out, v')"
    and "\<And>gc. gc \<in> set candidates \<Longrightarrow> \<not> cg_requires_approval (fst gc) \<or> approval \<noteq> None \<Longrightarrow> prior_uses v input gc = []"
  shows "case out of None \<Rightarrow> \<exists>n \<ge> va_reads v. v' = v\<lparr>va_reads := n\<rparr>
     | Some answer \<Rightarrow> released d input candidates approval v answer v'"
proof (cases "find (\<lambda>gc. (\<not> cg_requires_approval (fst gc) \<or> approval \<noteq> None) \<and> uses_left gc) candidates")
  case None
  with assms(1) have "out = None \<and> v' = v" by (simp add: fresh_use_def tx_simps)
  then show ?thesis by (auto intro: exI [of _ "va_reads v"])
next
  case (Some gc)
  from find_SomeD [OF this] have gc: "gc \<in> set candidates" "uses_left gc" "prior_uses v input gc = []"
    using assms(2) by blast+
  show ?thesis
  proof (cases out)
    case None
    with assms(1) Some have "v' = v\<lparr>va_reads := Suc (va_reads v)\<rparr>"
      by (auto simp: fresh_use_def tx_simps open_iff split: if_splits option.splits)
    with None show ?thesis by (auto intro: exI [of _ "Suc (va_reads v)"])
  next
    case Some': (Some answer)
    with assms(1) Some have
      "still_valid (va_clock v (va_reads v)) v input approval (cg_id (fst gc))"
      "d (cr_sealed (snd gc)) = Inr (snd answer)" "fst answer = cr_header_name (snd gc)"
      "v' = used input approval gc (counted gc (v\<lparr>va_reads := Suc (va_reads v)\<rparr>))"
      by (auto simp: fresh_use_def tx_simps open_iff record_use_iff count_use_def counted_def split: if_splits option.splits)
    with gc have "released d input candidates approval v answer v'"
      unfolding released_def spends_def by (intro bexI [of _ gc] exI [of _ "va_reads v"]) simp_all
    with Some' show ?thesis by simp
  qed
qed


lemma release_loop_cases:
  assumes "release_loop d input approval candidates rest v = Inr (out, v')"
    and "approval \<noteq> Some []" and "set rest \<subseteq> set candidates"
    and "\<And>gc. gc \<in> set candidates \<Longrightarrow> gc \<notin> set rest \<Longrightarrow> \<not> cg_requires_approval (fst gc) \<or> approval \<noteq> None \<Longrightarrow>
           prior_uses v input gc = []"
  shows "case out of None \<Rightarrow> \<exists>n \<ge> va_reads v. v' = v\<lparr>va_reads := n\<rparr>
     | Some answer \<Rightarrow> released d input candidates approval v answer v'"
  using assms(1,3,4)
proof (induction rest)
  case Nil
  then have "fresh_use d input approval candidates v = Inr (out, v')" by simp
  then show ?case by (rule fresh_use_cases) (use Nil.prems(3) in auto)
next
  case (Cons gc rest)
  show ?case
  proof (cases "cg_requires_approval (fst gc) \<and> approval = None")
    case True
    then have "release_loop d input approval candidates rest v = Inr (out, v')"
      using Cons.prems(1) by simp
    then show ?thesis
      by (rule Cons.IH) (use Cons.prems(2,3) True in \<open>auto split: if_splits\<close>)
  next
    case False
    then have skip: "\<not> (cg_requires_approval (fst gc) \<and> (case approval of None \<Rightarrow> True | Some a \<Rightarrow> a = []))"
      using assms(2) by (cases approval) auto
    show ?thesis
    proof (cases "prior_uses v input gc = []")
      case True
      with skip have "release_loop d input approval candidates rest v = Inr (out, v')"
        using Cons.prems(1) unfolding release_loop.simps if_not_P [OF skip] by (simp add: tx_simps)
      then show ?thesis by (rule Cons.IH) (use Cons.prems(2,3) True in auto)
    next
      case prior: False
      with skip have "replay_use d input approval gc (prior_uses v input gc) v = Inr (out, v')"
        using Cons.prems(1) unfolding release_loop.simps if_not_P [OF skip] by (simp add: tx_simps)
      then show ?thesis by (rule replay_use_cases) (use Cons.prems(2) prior in auto)
    qed
  qed
qed

lemma validate_approval_iff:
  "validate_approval input v = Inr (approval, v') \<Longrightarrow>
   approval \<noteq> Some [] \<and> (\<exists>n. n \<ge> va_reads v \<and> v' = v\<lparr>va_reads := n\<rparr>)"
  by (auto simp: validate_approval_def tx_simps split: option.splits if_splits
      intro: exI [of _ "va_reads v"] exI [of _ "Suc (va_reads v)"])

lemma released_later:
  assumes "released d input candidates approval (v\<lparr>va_reads := n\<rparr>) answer v'" and "va_reads v \<le> n"
  shows "released d input candidates approval v answer v'"
  using assms unfolding released_def by (auto intro: order_trans)

lemma consumeCredential_cases:
  assumes "consumeCredential d input v = Inr (out, v')"
  shows "case out of None \<Rightarrow> \<exists>n \<ge> va_reads v. v' = v\<lparr>va_reads := n\<rparr>
     | Some answer \<Rightarrow> \<exists>t approval. released d input (filter (policy_matches input) (eligible_rows t v input)) approval v answer v'"
proof -
  define k where "k = va_reads v"
  define cs where "cs = filter (policy_matches input) (eligible_rows (va_clock v (Suc k)) v input)"
  let ?owner = "owns_attempt (va_clock v (Suc (Suc k))) v input"
  show ?thesis
  proof (cases "locked_run v input \<and> live_attempt (va_clock v k) v input \<and> cs \<noteq> [] \<and> ?owner")
    case False
    then have "out = None \<and> (v' = v \<or> v' = v\<lparr>va_reads := Suc k\<rparr> \<or> v' = v\<lparr>va_reads := Suc (Suc k)\<rparr>
        \<or> v' = v\<lparr>va_reads := Suc (Suc (Suc k))\<rparr>)"
      using assms by (auto simp: consumeCredential_def tx_simps k_def cs_def split: if_splits)
    moreover have "v = v\<lparr>va_reads := k\<rparr>" by (simp add: k_def)
    ultimately have "out = None \<and> (\<exists>n \<ge> k. v' = v\<lparr>va_reads := n\<rparr>)"
      by (metis Suc_n_not_le_n nat_le_linear le_SucI)
    then show ?thesis by (auto simp: k_def)
  next
    case True
    then obtain approval v1 where v1: "validate_approval input (v\<lparr>va_reads := Suc (Suc (Suc k))\<rparr>) = Inr (approval, v1)"
      and loop: "release_loop d input approval cs cs v1 = Inr (out, v')"
      using assms by (auto simp: consumeCredential_def tx_simps k_def cs_def split: if_splits)
    from validate_approval_iff [OF v1] obtain n where n: "approval \<noteq> Some []" "Suc (Suc (Suc k)) \<le> n" "v1 = v\<lparr>va_reads := n\<rparr>"
      by auto
    then have "k \<le> n" by simp
    have cases: "case out of None \<Rightarrow> \<exists>m \<ge> va_reads v1. v' = v1\<lparr>va_reads := m\<rparr>
       | Some answer \<Rightarrow> released d input cs approval v1 answer v'"
      by (rule release_loop_cases [OF loop n(1)]) auto
    show ?thesis
    proof (cases out)
      case None
      with cases n(3) \<open>k \<le> n\<close> show ?thesis
        unfolding k_def by (auto intro: order_trans)
    next
      case (Some answer)
      with cases n(3)
      have "released d input cs approval (v\<lparr>va_reads := n\<rparr>) answer v'" by simp
      then have "released d input cs approval v answer v'"
        by (rule released_later) (use \<open>k \<le> n\<close> in \<open>simp add: k_def\<close>)
      with Some show ?thesis unfolding cs_def by auto
    qed
  qed
qed

section \<open>Every use is counted once\<close>

definition logical_use :: "credential_use_row \<Rightarrow> string \<times> string \<times> string" where
  "logical_use u = (cu_grant_id u, cu_run_id u, cu_idempotency_key u)"

definition uses_of :: "(credential_use_row \<Rightarrow> bool) \<Rightarrow> credential_use_row list \<Rightarrow> nat" where
  "uses_of p us = card (logical_use ` set (filter p us))"

definition use_limit :: "int option \<Rightarrow> int \<Rightarrow> bool" where
  "use_limit limit n = (case limit of None \<Rightarrow> True | Some m \<Rightarrow> n \<le> max 0 m)"

definition vault_ok :: "vault \<Rightarrow> bool" where
  "vault_ok v \<longleftrightarrow>
     distinct (map cg_id (va_grants v)) \<and> distinct (map cr_id (va_credentials v))
     \<and> (\<forall>g \<in> set (va_grants v). cg_uses g = int (uses_of (\<lambda>u. cu_grant_id u = cg_id g) (va_uses v))
          \<and> use_limit (cg_max_uses g) (cg_uses g) \<and> cg_credential_id g \<in> set (map cr_id (va_credentials v)))
     \<and> (\<forall>c \<in> set (va_credentials v). cr_uses c = int (uses_of (\<lambda>u. cu_credential_id u = cr_id c) (va_uses v))
          \<and> use_limit (cr_max_uses c) (cr_uses c))
     \<and> (\<forall>u \<in> set (va_uses v). (cu_grant_id u, cu_credential_id u)
          \<in> set (map (\<lambda>g. (cg_id g, cg_credential_id g)) (va_grants v)))"

lemma uses_of_append:
  "uses_of p (us @ [u]) =
     (if p u \<and> logical_use u \<notin> logical_use ` set (filter p us) then Suc (uses_of p us) else uses_of p us)"
  by (auto simp: uses_of_def insert_absorb)

lemma prior_uses_none:
  "prior_uses v input gc = [] \<longleftrightarrow>
   (cg_id (fst gc), cq_runId input, cq_idempotencyKey input) \<notin> logical_use ` set (va_uses v)"
  by (auto simp: prior_uses_def logical_use_def filter_empty_conv image_iff)

lemma logical_use_row [simp]:
  "logical_use (use_row input approval gc v) = (cg_id (fst gc), cq_runId input, cq_idempotencyKey input)"
  "cu_grant_id (use_row input approval gc v) = cg_id (fst gc)"
  "cu_credential_id (use_row input approval gc v) = cg_credential_id (fst gc)"
  by (simp_all add: logical_use_def use_row_def)

lemma eligible_rows_mem:
  assumes "(g, c) \<in> set (eligible_rows t v input)"
  shows "g \<in> set (va_grants v) \<and> c \<in> set (va_credentials v) \<and> cr_id c = cg_credential_id g"
  using assms by (auto simp: eligible_rows_def Let_def)

text \<open>Uses that are not new to a row's counter leave it.\<close>

lemma uses_of_same:
  "(p u \<Longrightarrow> logical_use u \<in> logical_use ` set (filter p us)) \<Longrightarrow> uses_of p (us @ [u]) = uses_of p us"
  by (simp add: uses_of_append)

lemma uses_of_new:
  "p u \<Longrightarrow> logical_use u \<notin> logical_use ` set us \<Longrightarrow> uses_of p (us @ [u]) = Suc (uses_of p us)"
  by (auto simp: uses_of_append)

lemma ball_update_where:
  "(\<forall>r \<in> set (update_where p f rows). Q r) \<longleftrightarrow> (\<forall>r \<in> set rows. Q (if p r then f r else r))"
  by (auto simp: update_where_def)

lemma vault_ok_reads [simp]: "vault_ok (v\<lparr>va_reads := n\<rparr>) = vault_ok v"
  by (simp add: vault_ok_def)

lemma vault_ok_replay:
  assumes ok: "vault_ok v" and prior: "prior_uses v input gc \<noteq> []" and g: "fst gc \<in> set (va_grants v)"
  shows "vault_ok (used input approval gc v)"
proof -
  let ?u = "use_row input approval gc v"
  define u where "u = hd (prior_uses v input gc)"
  from hd_in_set [OF prior] have u: "u \<in> set (va_uses v)" "logical_use u = logical_use ?u" "cu_grant_id u = cg_id (fst gc)"
    by (simp_all add: u_def prior_uses_def logical_use_def use_row_def)
  from ok u(1) obtain h where h: "h \<in> set (va_grants v)" "cg_id h = cu_grant_id u" "cg_credential_id h = cu_credential_id u"
    unfolding vault_ok_def by force
  with ok g u(3) have "h = fst gc" by (auto simp: vault_ok_def distinct_map inj_on_def)
  with h have "cu_credential_id u = cg_credential_id (fst gc)" by simp
  with u have same: "uses_of (\<lambda>u. cu_grant_id u = i) (va_uses v @ [?u]) = uses_of (\<lambda>u. cu_grant_id u = i) (va_uses v)"
    "uses_of (\<lambda>u. cu_credential_id u = i) (va_uses v @ [?u]) = uses_of (\<lambda>u. cu_credential_id u = i) (va_uses v)" for i
    by (intro uses_of_same; force)+
  have "(cu_grant_id ?u, cu_credential_id ?u) \<in> set (map (\<lambda>g. (cg_id g, cg_credential_id g)) (va_grants v))"
    using g by simp
  with ok show ?thesis unfolding vault_ok_def used_def by (auto simp: same)
qed

lemma vault_ok_fresh:
  assumes ok: "vault_ok v" and prior: "prior_uses v input (g, c) = []" and left: "uses_left (g, c)"
    and g: "g \<in> set (va_grants v)" and c: "c \<in> set (va_credentials v)" "cr_id c = cg_credential_id g"
  shows "vault_ok (used input approval (g, c) (counted (g, c) v))"
proof -
  let ?u = "use_row input approval (g, c) (counted (g, c) v)"
  let ?us = "va_uses v @ [?u]"
  have new: "logical_use ?u \<notin> logical_use ` set (va_uses v)" using prior unfolding prior_uses_none by simp
  have grant: "cg_uses (if cg_id h = cg_id g then h\<lparr>cg_uses := cg_uses h + 1\<rparr> else h)
      = int (uses_of (\<lambda>u. cu_grant_id u = cg_id h) ?us)
      \<and> use_limit (cg_max_uses h) (cg_uses (if cg_id h = cg_id g then h\<lparr>cg_uses := cg_uses h + 1\<rparr> else h))"
    if h: "h \<in> set (va_grants v)" for h
  proof (cases "cg_id h = cg_id g")
    case True
    with ok h g have "h = g" by (auto simp: vault_ok_def distinct_map inj_on_def)
    with ok g left show ?thesis
      by (auto simp: vault_ok_def uses_left_def use_limit_def uses_of_new [OF _ new] split: option.splits)
  next
    case False
    with ok h show ?thesis by (auto simp: vault_ok_def uses_of_append)
  qed
  have cred: "cr_uses (if cr_id d = cg_credential_id g then d\<lparr>cr_uses := cr_uses d + 1\<rparr> else d)
      = int (uses_of (\<lambda>u. cu_credential_id u = cr_id d) ?us)
      \<and> use_limit (cr_max_uses d) (cr_uses (if cr_id d = cg_credential_id g then d\<lparr>cr_uses := cr_uses d + 1\<rparr> else d))"
    if d: "d \<in> set (va_credentials v)" for d
  proof (cases "cr_id d = cg_credential_id g")
    case True
    with ok d c have "d = c" by (auto simp: vault_ok_def distinct_map inj_on_def)
    with ok c left show ?thesis
      by (auto simp: vault_ok_def uses_left_def use_limit_def uses_of_new [OF _ new] split: option.splits)
  next
    case False
    with ok d show ?thesis by (auto simp: vault_ok_def uses_of_append)
  qed
  have "(cu_grant_id ?u, cu_credential_id ?u) \<in> set (map (\<lambda>g. (cg_id g, cg_credential_id g)) (va_grants v))"
    using g by auto
  let ?v = "used input approval (g, c) (counted (g, c) v)"
  have tables: "va_grants ?v = update_where (\<lambda>h. cg_id h = cg_id g) (\<lambda>h. h\<lparr>cg_uses := cg_uses h + 1\<rparr>) (va_grants v)"
    "va_credentials ?v = update_where (\<lambda>d. cr_id d = cg_credential_id g) (\<lambda>d. d\<lparr>cr_uses := cr_uses d + 1\<rparr>) (va_credentials v)"
    "va_uses ?v = ?us"
    by (simp_all add: used_def counted_def)
  have keys: "map cg_id (va_grants ?v) = map cg_id (va_grants v)" "map cr_id (va_credentials ?v) = map cr_id (va_credentials v)"
    "map (\<lambda>g. (cg_id g, cg_credential_id g)) (va_grants ?v) = map (\<lambda>g. (cg_id g, cg_credential_id g)) (va_grants v)"
    unfolding tables by (simp_all add: map_update_where)
  have "\<forall>h \<in> set (va_grants ?v). cg_uses h = int (uses_of (\<lambda>u. cu_grant_id u = cg_id h) ?us)
      \<and> use_limit (cg_max_uses h) (cg_uses h) \<and> cg_credential_id h \<in> set (map cr_id (va_credentials v))"
    unfolding tables(1) ball_update_where
  proof
    fix h assume h: "h \<in> set (va_grants v)"
    then have "cg_credential_id h \<in> set (map cr_id (va_credentials v))" using ok by (simp add: vault_ok_def)
    with grant [OF h] show "cg_uses (if cg_id h = cg_id g then h\<lparr>cg_uses := cg_uses h + 1\<rparr> else h) =
        int (uses_of (\<lambda>u. cu_grant_id u = cg_id (if cg_id h = cg_id g then h\<lparr>cg_uses := cg_uses h + 1\<rparr> else h)) ?us)
      \<and> use_limit (cg_max_uses (if cg_id h = cg_id g then h\<lparr>cg_uses := cg_uses h + 1\<rparr> else h))
          (cg_uses (if cg_id h = cg_id g then h\<lparr>cg_uses := cg_uses h + 1\<rparr> else h))
      \<and> cg_credential_id (if cg_id h = cg_id g then h\<lparr>cg_uses := cg_uses h + 1\<rparr> else h) \<in> set (map cr_id (va_credentials v))"
      by (cases "cg_id h = cg_id g") auto
  qed
  moreover have "\<forall>d \<in> set (va_credentials ?v). cr_uses d = int (uses_of (\<lambda>u. cu_credential_id u = cr_id d) ?us)
      \<and> use_limit (cr_max_uses d) (cr_uses d)"
    unfolding tables(2) ball_update_where
  proof
    fix d assume "d \<in> set (va_credentials v)"
    from cred [OF this] show "cr_uses (if cr_id d = cg_credential_id g then d\<lparr>cr_uses := cr_uses d + 1\<rparr> else d) =
        int (uses_of (\<lambda>u. cu_credential_id u = cr_id (if cr_id d = cg_credential_id g then d\<lparr>cr_uses := cr_uses d + 1\<rparr> else d)) ?us)
      \<and> use_limit (cr_max_uses (if cr_id d = cg_credential_id g then d\<lparr>cr_uses := cr_uses d + 1\<rparr> else d))
          (cr_uses (if cr_id d = cg_credential_id g then d\<lparr>cr_uses := cr_uses d + 1\<rparr> else d))"
      by (cases "cr_id d = cg_credential_id g") auto
  qed
  ultimately show ?thesis
    using ok \<open>(cu_grant_id ?u, cu_credential_id ?u) \<in> _\<close> unfolding vault_ok_def keys tables(3) by auto
qed

section \<open>Histories of the vault\<close>

text \<open>Other transactions change the database, and the clock moves, in any way.\<close>

inductive vault_step :: "vault \<Rightarrow> vault \<Rightarrow> bool" where
  elsewhere: "vault_step v (v\<lparr>va_world := w, va_clock := clk, va_reads := n\<rparr>)"
| create: "createCredential seal cinput v = Inr (i, v') \<Longrightarrow> vault_step v v'"
| revoke: "revokeCredential i tid v = Inr (b, v') \<Longrightarrow> vault_step v v'"
| grant: "createCredentialGrant ginput v = Inr (g, v') \<Longrightarrow> vault_step v v'"
| revoke_grant: "revokeCredentialGrant i tid v = Inr (b, v') \<Longrightarrow> vault_step v v'"
| consume: "consumeCredential decipher request v = Inr (out, v') \<Longrightarrow> vault_step v v'"

definition grant_policy :: "credential_grant_row \<Rightarrow> credential_grant_row" where
  "grant_policy g = g\<lparr>cg_uses := 0, cg_status := VS_active\<rparr>"

definition credential_policy :: "credential_row \<Rightarrow> credential_row" where
  "credential_policy c = c\<lparr>cr_uses := 0, cr_status := VS_active\<rparr>"

definition grant_advances :: "credential_grant_row \<Rightarrow> credential_grant_row \<Rightarrow> bool" where
  "grant_advances g g' \<longleftrightarrow> grant_policy g' = grant_policy g \<and> cg_uses g \<le> cg_uses g'
     \<and> (cg_status g = VS_revoked \<longrightarrow> cg_status g' = VS_revoked)"

definition credential_advances :: "credential_row \<Rightarrow> credential_row \<Rightarrow> bool" where
  "credential_advances c c' \<longleftrightarrow> credential_policy c' = credential_policy c \<and> cr_uses c \<le> cr_uses c'
     \<and> (cr_status c = VS_revoked \<longrightarrow> cr_status c' = VS_revoked)"

definition rows_advance :: "('r \<Rightarrow> 'r \<Rightarrow> bool) \<Rightarrow> 'r list \<Rightarrow> 'r list \<Rightarrow> bool" where
  "rows_advance A xs ys \<longleftrightarrow> (\<forall>x \<in> set xs. \<exists>y \<in> set ys. A x y)"

definition vault_advances :: "vault \<Rightarrow> vault \<Rightarrow> bool" where
  "vault_advances v v' \<longleftrightarrow>
     (\<exists>later. va_uses v' = va_uses v @ later)
     \<and> rows_advance grant_advances (va_grants v) (va_grants v')
     \<and> rows_advance credential_advances (va_credentials v) (va_credentials v')"

lemma grant_advances_refl [simp]: "grant_advances g g"
  by (simp add: grant_advances_def)

lemma credential_advances_refl [simp]: "credential_advances c c"
  by (simp add: credential_advances_def)

lemma rows_advance_refl: "(\<And>x. A x x) \<Longrightarrow> rows_advance A xs xs"
  by (auto simp: rows_advance_def)

lemma rows_advance_append: "(\<And>x. A x x) \<Longrightarrow> rows_advance A xs (xs @ ys)"
  by (auto simp: rows_advance_def)

lemma rows_advance_update: "(\<And>x. A x x) \<Longrightarrow> (\<And>x. A x (f x)) \<Longrightarrow> rows_advance A xs (update_where p f xs)"
  unfolding rows_advance_def by (metis in_update_whereI)

lemma rows_advance_trans:
  "(\<And>x y z. A x y \<Longrightarrow> A y z \<Longrightarrow> A x z) \<Longrightarrow> rows_advance A xs ys \<Longrightarrow> rows_advance A ys zs \<Longrightarrow> rows_advance A xs zs"
  unfolding rows_advance_def by metis

lemmas row_steps = rows_advance_refl rows_advance_append rows_advance_update

lemma vault_advances_trans:
  assumes "vault_advances u v" and "vault_advances v w"
  shows "vault_advances u w"
proof -
  have "rows_advance grant_advances (va_grants u) (va_grants w)"
    by (rule rows_advance_trans [of _ _ "va_grants v"]) (use assms in \<open>auto simp: vault_advances_def grant_advances_def\<close>)
  moreover have "rows_advance credential_advances (va_credentials u) (va_credentials w)"
    by (rule rows_advance_trans [of _ _ "va_credentials v"]) (use assms in \<open>auto simp: vault_advances_def credential_advances_def\<close>)
  ultimately show ?thesis using assms by (auto simp: vault_advances_def)
qed

lemma bump_advances [simp]:
  "grant_advances g (g\<lparr>cg_uses := cg_uses g + 1\<rparr>)" "grant_advances g (g\<lparr>cg_status := VS_revoked\<rparr>)"
  "credential_advances c (c\<lparr>cr_uses := cr_uses c + 1\<rparr>)" "credential_advances c (c\<lparr>cr_status := VS_revoked\<rparr>)"
  by (simp_all add: grant_advances_def grant_policy_def credential_advances_def credential_policy_def)

lemma vault_advances_ops [simp]:
  "vault_advances v v"
  "vault_advances v (counted gc v)"
  "vault_advances v (used input approval gc v)"
  "vault_advances v (v\<lparr>va_reads := n\<rparr>)"
  "vault_advances v (v\<lparr>va_world := w\<rparr>)"
  "vault_advances v (v\<lparr>va_world := w, va_clock := clk, va_reads := n\<rparr>)"
  "vault_advances v (v\<lparr>va_world := w, va_grants := va_grants v @ [g]\<rparr>)"
  "vault_advances v (v\<lparr>va_world := w, va_credentials := va_credentials v @ [c]\<rparr>)"
  "vault_advances v (v\<lparr>va_grants := update_where p (\<lambda>g. g\<lparr>cg_status := VS_revoked\<rparr>) (va_grants v)\<rparr>)"
  "vault_advances v (v\<lparr>va_credentials := update_where q (\<lambda>c. c\<lparr>cr_status := VS_revoked\<rparr>) (va_credentials v)\<rparr>)"
  by (simp_all add: vault_advances_def counted_def used_def row_steps)

lemma consume_keeps:
  assumes "consumeCredential d input v = Inr (out, v')" and ok: "vault_ok v"
  shows "vault_ok v' \<and> vault_advances v v'"
proof (cases out)
  case None
  with consumeCredential_cases [OF assms(1)] ok show ?thesis by auto
next
  case (Some answer)
  then obtain t approval where "released d input (filter (policy_matches input) (eligible_rows t v input)) approval v answer v'"
    using consumeCredential_cases [OF assms(1)] by auto
  then obtain gc n where mem: "gc \<in> set (eligible_rows t v input)"
    and v': "spends input approval gc (v\<lparr>va_reads := Suc n\<rparr>) v'"
    unfolding released_def set_filter by (elim bexE exE conjE CollectE) (rule that)
  obtain g c where gc: "gc = (g, c)" by (cases gc)
  note tables = eligible_rows_mem [OF mem [unfolded gc]]
  show ?thesis
  proof (cases "prior_uses v input gc = []")
    case True
    then have left: "uses_left gc" and v1: "v' = used input approval gc (counted gc (v\<lparr>va_reads := Suc n\<rparr>))"
      using v' by (simp_all add: spends_def)
    have "vault_ok v'" using True left tables ok unfolding v1 gc by (intro vault_ok_fresh) simp_all
    moreover have "vault_advances v v'"
      unfolding v1 by (rule vault_advances_trans [OF vault_advances_ops(4) [of v "Suc n"]],
        rule vault_advances_trans [OF vault_advances_ops(2) [of _ gc]], rule vault_advances_ops(3))
    ultimately show ?thesis by simp
  next
    case False
    then consider "v' = v\<lparr>va_reads := Suc n\<rparr>" | "v' = used input approval gc (v\<lparr>va_reads := Suc n\<rparr>)"
      using v' by (auto simp: spends_def Let_def split: if_splits)
    then show ?thesis
    proof cases
      case 2
      have "vault_ok v'" using False tables ok unfolding 2 gc by (intro vault_ok_replay) simp_all
      moreover have "vault_advances v v'"
        unfolding 2 by (rule vault_advances_trans [OF vault_advances_ops(4) [of v "Suc n"]], rule vault_advances_ops(3))
      ultimately show ?thesis by simp
    qed (use ok in simp)
  qed
qed

lemma vault_ok_revoke:
  "vault_ok v \<Longrightarrow> vault_ok (v\<lparr>va_grants := update_where p (\<lambda>g. g\<lparr>cg_status := VS_revoked\<rparr>) (va_grants v)\<rparr>)"
  "vault_ok v \<Longrightarrow> vault_ok (v\<lparr>va_credentials := update_where q (\<lambda>c. c\<lparr>cr_status := VS_revoked\<rparr>) (va_credentials v)\<rparr>)"
  by (auto simp: vault_ok_def map_update_where ball_update_where)

lemma fresh_key_iff: "fresh_key index i keys v = Inr (u, v') \<longleftrightarrow> i \<notin> set (keys v) \<and> v' = v"
  by (auto simp: fresh_key_def tx_simps)

lemma no_uses: "\<forall>u \<in> set us. \<not> p u \<Longrightarrow> uses_of p us = 0"
  by (simp add: uses_of_def filter_empty_conv)

lemma vault_ok_insert:
  assumes "vault_ok v"
  shows "cg_id g \<notin> set (map cg_id (va_grants v)) \<Longrightarrow> cg_uses g = 0 \<Longrightarrow> cg_credential_id g \<in> set (map cr_id (va_credentials v)) \<Longrightarrow>
      vault_ok (v\<lparr>va_world := w, va_grants := va_grants v @ [g]\<rparr>)"
    and "cr_id c \<notin> set (map cr_id (va_credentials v)) \<Longrightarrow> cr_uses c = 0 \<Longrightarrow>
      vault_ok (v\<lparr>va_world := w, va_credentials := va_credentials v @ [c]\<rparr>)"
proof -
  have known: "cu_grant_id u \<in> set (map cg_id (va_grants v)) \<and> cu_credential_id u \<in> set (map cr_id (va_credentials v))"
    if "u \<in> set (va_uses v)" for u
    using that assms by (auto simp: vault_ok_def)
  { assume "cg_id g \<notin> set (map cg_id (va_grants v))" "cg_uses g = 0" "cg_credential_id g \<in> set (map cr_id (va_credentials v))"
    moreover from this known have "uses_of (\<lambda>u. cu_grant_id u = cg_id g) (va_uses v) = 0" by (intro no_uses) metis
    ultimately show "vault_ok (v\<lparr>va_world := w, va_grants := va_grants v @ [g]\<rparr>)"
      using assms by (auto simp: vault_ok_def use_limit_def split: option.splits) }
  { assume "cr_id c \<notin> set (map cr_id (va_credentials v))" "cr_uses c = 0"
    moreover from this known have "uses_of (\<lambda>u. cu_credential_id u = cr_id c) (va_uses v) = 0" by (intro no_uses) metis
    ultimately show "vault_ok (v\<lparr>va_world := w, va_credentials := va_credentials v @ [c]\<rparr>)"
      using assms by (auto simp: vault_ok_def use_limit_def split: option.splits) }
qed

lemma vault_step_keeps: "vault_step v v' \<Longrightarrow> vault_ok v \<Longrightarrow> vault_ok v' \<and> vault_advances v v'"
proof (induction rule: vault_step.induct)
  case (elsewhere v w clk n)
  then show ?case by (auto simp: vault_ok_def)
next
  case (create seal cinput v i v')
  then obtain w c where "v' = v\<lparr>va_world := w, va_credentials := va_credentials v @ [c]\<rparr>"
    "cr_id c \<notin> set (map cr_id (va_credentials v))" "cr_uses c = 0"
    by (auto simp: createCredential_def tx_simps vault_id_iff fresh_key_iff split: sum.splits)
  then show ?case using vault_ok_insert(2) [OF create.prems] by simp
next
  case (revoke i tid v b v')
  then show ?case by (auto simp: revokeCredential_def tx_simps intro: vault_ok_revoke)
next
  case (grant ginput v g v')
  then have "v' = v\<lparr>va_world := va_world v', va_grants := va_grants v @ [g]\<rparr>"
    "cg_id g \<notin> set (map cg_id (va_grants v))" "cg_uses g = 0" "cg_credential_id g \<in> set (map cr_id (va_credentials v))"
    by (auto simp: createCredentialGrant_def Let_def tx_simps vault_id_iff fresh_key_iff grant_subject_ok_def exists_row_iff
        intro: rev_image_eqI)
  then show ?case using vault_ok_insert(1) [OF grant.prems] by (metis vault_advances_ops(7))
next
  case (revoke_grant i tid v b v')
  then show ?case by (auto simp: revokeCredentialGrant_def tx_simps intro: vault_ok_revoke)
next
  case (consume decipher request v out v')
  then show ?case by (intro consume_keeps)
qed

section \<open>Whom a secret is released to\<close>

text \<open>
  The ancestors that a run may draw on, with how it descends from them: \<open>descends\<close> is the
  declarative reading of the recursive query.
\<close>

inductive descends :: "string \<Rightarrow> run_row list \<Rightarrow> string \<Rightarrow> bool \<Rightarrow> bool \<Rightarrow> string \<Rightarrow> bool \<Rightarrow> bool \<Rightarrow> bool"
  for tid runs where
  itself: "r \<in> set runs \<Longrightarrow> run_id r = rid \<Longrightarrow> run_tenant_id r = tid \<Longrightarrow> descends tid runs rid vd vf rid vd vf"
| delegated: "r \<in> set runs \<Longrightarrow> run_id r = rid \<Longrightarrow> run_tenant_id r = tid \<Longrightarrow> run_parent_run_id r = Some p \<Longrightarrow>
    descends tid runs p True (vf \<or> run_forked_from_run_id r \<noteq> None) lid vd' vf' \<Longrightarrow> descends tid runs rid vd vf lid vd' vf'"
| forked: "r \<in> set runs \<Longrightarrow> run_id r = rid \<Longrightarrow> run_tenant_id r = tid \<Longrightarrow> run_parent_run_id r = None \<Longrightarrow>
    run_forked_from_run_id r = Some p \<Longrightarrow> descends tid runs p vd True lid vd' vf' \<Longrightarrow> descends tid runs rid vd vf lid vd' vf'"

lemma descends_mono: "descends tid rs rid vd vf lid vd' vf' \<Longrightarrow> set rs \<subseteq> set runs \<Longrightarrow> descends tid runs rid vd vf lid vd' vf'"
  by (induction rule: descends.induct) (auto intro: descends.intros)

lemma ancestry_descends: "(lid, vd', vf') \<in> set (ancestry tid runs rid vd vf) \<Longrightarrow> descends tid runs rid vd vf lid vd' vf'"
proof (induction tid runs rid vd vf rule: ancestry.induct)
  case (1 tid runs rid vd vf)
  have "find (\<lambda>r. run_id r = rid \<and> run_tenant_id r = tid) runs \<noteq> None"
    using "1.prems" ancestry.simps [of tid runs rid vd vf] by (auto split: option.splits)
  then obtain r where found: "find (\<lambda>r. run_id r = rid \<and> run_tenant_id r = tid) runs = Some r" by blast
  from find_SomeD [OF found] have r: "r \<in> set runs" "run_id r = rid" "run_tenant_id r = tid" by auto
  consider "(lid, vd', vf') = (rid, vd, vf)"
    | p where "(case run_parent_run_id r of None \<Rightarrow> run_forked_from_run_id r | Some p \<Rightarrow> Some p) = Some p"
      "(lid, vd', vf') \<in> set (ancestry tid (filter (\<lambda>q. run_id q \<noteq> rid) runs) p
         (vd \<or> run_parent_run_id r \<noteq> None) (vf \<or> run_forked_from_run_id r \<noteq> None))"
    using "1.prems" ancestry.simps [of tid runs rid vd vf] found by (auto split: option.splits)
  then show ?case
  proof cases
    case 1
    then show ?thesis using r by (auto intro: descends.itself)
  next
    case (2 p)
    then have "descends tid (filter (\<lambda>q. run_id q \<noteq> rid) runs) p (vd \<or> run_parent_run_id r \<noteq> None)
        (vf \<or> run_forked_from_run_id r \<noteq> None) lid vd' vf'"
      using "1.IH" found by blast
    then have "descends tid runs p (vd \<or> run_parent_run_id r \<noteq> None) (vf \<or> run_forked_from_run_id r \<noteq> None) lid vd' vf'"
      by (rule descends_mono) auto
    with 2(1) r show ?thesis
      by (cases "run_parent_run_id r") (auto intro: descends.delegated descends.forked)
  qed
qed

lemma eligible_rowsD:
  assumes "(g, c) \<in> set (eligible_rows t v input)"
  shows "g \<in> set (va_grants v) \<and> c \<in> set (va_credentials v) \<and> cr_id c = cg_credential_id g
     \<and> cr_tenant_id c = cq_tenantId input \<and> cg_tenant_id g = cq_tenantId input
     \<and> (\<exists>vd vf. descends (cq_tenantId input) (w_runs (va_world v)) (cq_runId input) False False (cg_run_id g) vd vf
          \<and> (vd \<longrightarrow> cg_allow_delegated_runs g) \<and> (vf \<longrightarrow> cg_allow_forks g))
     \<and> (\<exists>r \<in> set (w_runs (va_world v)). run_id r = cq_runId input \<and> run_agent_version_id r = cg_agent_version_id g)"
  using assms unfolding eligible_rows_def Let_def by (auto dest!: ancestry_descends)

lemma spends_recorded:
  assumes "spends input approval gc v v'"
  shows "(\<exists>u \<in> set (va_uses v'). logical_use u = (cg_id (fst gc), cq_runId input, cq_idempotencyKey input)
       \<and> same_use input u \<and> cu_approval_id u = approval)
     \<and> va_reads v' = va_reads v \<and> va_world v' = (va_world v)\<lparr>w_ulid_next := w_ulid_next (va_world v')\<rparr>"
proof -
  have fresh: "same_use input (use_row input approval gc x)" "cu_approval_id (use_row input approval gc x) = approval" for x
    by (simp_all add: same_use_def use_row_def)
  have old: "\<exists>u \<in> set (va_uses v). logical_use u = (cg_id (fst gc), cq_runId input, cq_idempotencyKey input)
       \<and> same_use input u \<and> cu_approval_id u = approval"
    if "list_all (same_use input) (prior_uses v input gc)" "list_ex (\<lambda>u. cu_approval_id u = approval) (prior_uses v input gc)"
    using that by (auto simp: list_all_iff list_ex_iff prior_uses_def logical_use_def)
  from assms consider "v' = used input approval gc (counted gc v)" | "v' = used input approval gc v"
    | "list_all (same_use input) (prior_uses v input gc)" "list_ex (\<lambda>u. cu_approval_id u = approval) (prior_uses v input gc)" "v' = v"
    by (auto simp: spends_def Let_def split: if_splits)
  then show ?thesis
  proof cases
    case 3
    with old show ?thesis by simp
  qed (auto simp: used_def counted_def fresh)
qed

lemma spends_pays:
  assumes "spends input approval (g, c) v v'" and "cr_id c = cg_credential_id g"
  shows "if \<exists>u \<in> set (va_uses v). logical_use u = (cg_id g, cq_runId input, cq_idempotencyKey input)
    then (\<forall>u \<in> set (va_uses v). logical_use u = (cg_id g, cq_runId input, cq_idempotencyKey input) \<longrightarrow> same_use input u)
       \<and> va_grants v' = va_grants v \<and> va_credentials v' = va_credentials v
    else (\<forall>m. cg_max_uses g = Some m \<longrightarrow> cg_uses g < m) \<and> (\<forall>m. cr_max_uses c = Some m \<longrightarrow> cr_uses c < m)
       \<and> va_grants v' = update_where (\<lambda>x. cg_id x = cg_id g) (\<lambda>x. x\<lparr>cg_uses := cg_uses x + 1\<rparr>) (va_grants v)
       \<and> va_credentials v' = update_where (\<lambda>x. cr_id x = cr_id c) (\<lambda>x. x\<lparr>cr_uses := cr_uses x + 1\<rparr>) (va_credentials v)"
proof -
  have prior: "(\<exists>u \<in> set (va_uses v). logical_use u = (cg_id g, cq_runId input, cq_idempotencyKey input))
      \<longleftrightarrow> prior_uses v input (g, c) \<noteq> []"
    by (auto simp: prior_uses_def logical_use_def filter_empty_conv)
  show ?thesis
  proof (cases "prior_uses v input (g, c) = []")
    case True
    with assms show ?thesis unfolding prior
      by (simp add: spends_def uses_left_def used_def counted_def split: option.splits)
  next
    case False
    with assms(1) have "list_all (same_use input) (prior_uses v input (g, c))"
      and "va_grants v' = va_grants v \<and> va_credentials v' = va_credentials v"
      by (auto simp: spends_def Let_def used_def)
    with False show ?thesis unfolding prior
      by (auto simp: list_all_iff prior_uses_def logical_use_def)
  qed
qed

text \<open>
  C32: a secret is only released to whom its grant names. Whatever a release returns is the
  plaintext and the header of an active credential of the tenant, under an active grant of the same
  credential for the agent version of the run: the run itself was granted it, or it descends from
  a run that was and the grant allows the way it descends. Caller, purpose, action and resource
  match the policy of both. After the cipher has answered the run is still running under the
  attempt that asks, its lease and both rows are still unexpired, and if the grant asks for it a
  human has approved exactly this action, resource and key. The release is on record, for this key
  and with this approval, and the database is left alone. It is either the first one under this
  grant, run and key: then neither the grant nor the credential was used up, and both count one
  more use; or a retry of uses recorded for the same caller, purpose, action and resource: then it
  counts nothing, and is answered from a grant that is used up as well.
\<close>

theorem credential_release_is_authorized:
  assumes "consumeCredential decipher input v = Inr (Some answer, v')" and "vault_ok v"
  shows "\<exists>g \<in> set (va_grants v). \<exists>c \<in> set (va_credentials v). \<exists>n u.
     cr_id c = cg_credential_id g \<and> cg_tenant_id g = cq_tenantId input \<and> cr_tenant_id c = cq_tenantId input
     \<and> decipher (cr_sealed c) = Inr (snd answer) \<and> fst answer = cr_header_name c
     \<and> (\<exists>vd vf. descends (cq_tenantId input) (w_runs (va_world v)) (cq_runId input) False False (cg_run_id g) vd vf
          \<and> (vd \<longrightarrow> cg_allow_delegated_runs g) \<and> (vf \<longrightarrow> cg_allow_forks g))
     \<and> (\<exists>r \<in> set (w_runs (va_world v)). run_id r = cq_runId input \<and> run_agent_version_id r = cg_agent_version_id g)
     \<and> policy_matches input (g, c)
     \<and> va_reads v \<le> n \<and> n < va_reads v' \<and> both_active (va_clock v n) (g, c) \<and> owns_attempt (va_clock v n) v input
     \<and> u \<in> set (va_uses v') \<and> logical_use u = (cg_id g, cq_runId input, cq_idempotencyKey input) \<and> same_use input u
     \<and> (cg_requires_approval g \<longrightarrow> (\<exists>aid. cu_approval_id u = Some aid \<and> approves (va_clock v n) v input aid))
     \<and> va_world v' = (va_world v)\<lparr>w_ulid_next := w_ulid_next (va_world v')\<rparr>
     \<and> (if \<exists>p \<in> set (va_uses v). logical_use p = (cg_id g, cq_runId input, cq_idempotencyKey input)
        then (\<forall>p \<in> set (va_uses v). logical_use p = (cg_id g, cq_runId input, cq_idempotencyKey input) \<longrightarrow> same_use input p)
           \<and> va_grants v' = va_grants v \<and> va_credentials v' = va_credentials v
        else (\<forall>m. cg_max_uses g = Some m \<longrightarrow> cg_uses g < m) \<and> (\<forall>m. cr_max_uses c = Some m \<longrightarrow> cr_uses c < m)
           \<and> va_grants v' = update_where (\<lambda>x. cg_id x = cg_id g) (\<lambda>x. x\<lparr>cg_uses := cg_uses x + 1\<rparr>) (va_grants v)
           \<and> va_credentials v' = update_where (\<lambda>x. cr_id x = cr_id c) (\<lambda>x. x\<lparr>cr_uses := cr_uses x + 1\<rparr>) (va_credentials v))"
proof -
  from consumeCredential_cases [OF assms(1)] obtain t approval where
    "released decipher input (filter (policy_matches input) (eligible_rows t v input)) approval v answer v'" by auto
  then obtain gc n where gc: "gc \<in> set (eligible_rows t v input)" "policy_matches input gc" "va_reads v \<le> n"
      "still_valid (va_clock v n) v input approval (cg_id (fst gc))"
      "decipher (cr_sealed (snd gc)) = Inr (snd answer)" "fst answer = cr_header_name (snd gc)"
    and spent: "spends input approval gc (v\<lparr>va_reads := Suc n\<rparr>) v'"
    unfolding released_def set_filter by (elim bexE exE conjE CollectE) (rule that)
  obtain g c where pair: "gc = (g, c)" by (cases gc)
  note row = eligible_rowsD [OF gc(1) [unfolded pair]]
  from gc(4) obtain g' c' where valid: "g' \<in> set (va_grants v)" "cg_id g' = cg_id g" "c' \<in> set (va_credentials v)"
      "cr_id c' = cg_credential_id g'" "both_active (va_clock v n) (g', c')" "owns_attempt (va_clock v n) v input"
      "cg_requires_approval g' \<longrightarrow> (\<exists>aid. approval = Some aid \<and> approves (va_clock v n) v input aid)"
    unfolding still_valid_def owns_attempt_def pair by (auto simp: exists_row_iff split: option.splits)
  have "g' = g" using assms(2) row valid(1,2) by (auto simp: vault_ok_def distinct_map inj_on_def)
  moreover from this have "c' = c" using assms(2) row valid(3,4) by (auto simp: vault_ok_def distinct_map inj_on_def)
  moreover obtain u where "u \<in> set (va_uses v')" "logical_use u = (cg_id g, cq_runId input, cq_idempotencyKey input)"
      "same_use input u" "cu_approval_id u = approval"
    and "n < va_reads v'" "va_world v' = (va_world v)\<lparr>w_ulid_next := w_ulid_next (va_world v')\<rparr>"
    using spends_recorded [OF spent] pair by auto
  moreover have ids: "cr_id c = cg_credential_id g" using row by simp
  moreover note spends_pays [OF spent [unfolded pair] ids]
  ultimately show ?thesis using row gc valid pair
    by (intro bexI [of _ g] bexI [of _ c] exI [of _ n] exI [of _ u]) auto
qed


section \<open>Every release is paid for\<close>

text \<open>
  C33: whatever is created, granted, revoked and released, in whatever order and while other
  transactions change the database: the uses of a grant and of a credential are exactly the
  distinct actions on record for them, so a retry under the same key costs nothing and nothing is
  used without a record; neither exceeds its limit; records are only added; no grant or credential
  disappears or changes its policy, counters only grow, and what is revoked stays revoked.
\<close>

theorem credential_history:
  assumes "vault_step\<^sup>*\<^sup>* v v'" and "vault_ok v"
  shows "(\<forall>g \<in> set (va_grants v'). cg_uses g = int (uses_of (\<lambda>u. cu_grant_id u = cg_id g) (va_uses v'))
        \<and> (\<forall>m. cg_max_uses g = Some m \<longrightarrow> cg_uses g \<le> max 0 m))
     \<and> (\<forall>c \<in> set (va_credentials v'). cr_uses c = int (uses_of (\<lambda>u. cu_credential_id u = cr_id c) (va_uses v'))
        \<and> (\<forall>m. cr_max_uses c = Some m \<longrightarrow> cr_uses c \<le> max 0 m))
     \<and> (\<exists>later. va_uses v' = va_uses v @ later)
     \<and> (\<forall>g \<in> set (va_grants v). \<exists>g' \<in> set (va_grants v'). grant_policy g' = grant_policy g \<and> cg_uses g \<le> cg_uses g'
        \<and> (cg_status g = VS_revoked \<longrightarrow> cg_status g' = VS_revoked))
     \<and> (\<forall>c \<in> set (va_credentials v). \<exists>c' \<in> set (va_credentials v'). credential_policy c' = credential_policy c
        \<and> cr_uses c \<le> cr_uses c' \<and> (cr_status c = VS_revoked \<longrightarrow> cr_status c' = VS_revoked))"
proof -
  from assms have "vault_ok v' \<and> vault_advances v v'"
    by (induction rule: rtranclp_induct) (auto dest: vault_step_keeps intro: vault_advances_trans)
  then have ok: "vault_ok v'" and adv: "vault_advances v v'" by simp_all
  from ok have "\<forall>g \<in> set (va_grants v'). cg_uses g = int (uses_of (\<lambda>u. cu_grant_id u = cg_id g) (va_uses v'))
        \<and> (\<forall>m. cg_max_uses g = Some m \<longrightarrow> cg_uses g \<le> max 0 m)"
    "\<forall>c \<in> set (va_credentials v'). cr_uses c = int (uses_of (\<lambda>u. cu_credential_id u = cr_id c) (va_uses v'))
        \<and> (\<forall>m. cr_max_uses c = Some m \<longrightarrow> cr_uses c \<le> max 0 m)"
    by (auto simp: vault_ok_def use_limit_def)
  with adv show ?thesis
    unfolding vault_advances_def rows_advance_def grant_advances_def credential_advances_def by blast
qed

section \<open>An example\<close>

definition demo_credential :: credential_row where
  "demo_credential =
     \<lparr>cr_id = ''cred_1'', cr_tenant_id = ''tnt_1'', cr_name = ''mail'', cr_action_pattern = ''mail.*'',
      cr_resource_pattern = ''*'', cr_header_name = ''Authorization'', cr_sealed = \<lparr>sl_ct = ''s3cret'', sl_iv = [], sl_tag = []\<rparr>,
      cr_expires_at = None, cr_max_uses = Some 5, cr_uses = 0, cr_status = VS_active, cr_created_at = 0\<rparr>"

definition demo_credential_grant :: credential_grant_row where
  "demo_credential_grant =
     \<lparr>cg_id = ''cgr_1'', cg_credential_id = ''cred_1'', cg_tenant_id = ''tnt_1'', cg_agent_version_id = ''av_1'',
      cg_run_id = ''run_1'', cg_caller_pattern = ''*'', cg_purpose_pattern = ''*'', cg_action_pattern = ''mail.send'',
      cg_resource_pattern = ''*'', cg_requires_approval = False, cg_allow_delegated_runs = False, cg_allow_forks = False,
      cg_max_uses = Some 1, cg_uses = 0, cg_expires_at = Some 1500, cg_status = VS_active, cg_created_at = 0\<rparr>"

definition demo_vault :: vault where
  "demo_vault = \<lparr>va_world = demo_world RUNNING, va_credentials = [demo_credential],
     va_grants = [demo_credential_grant], va_uses = [], va_clock = (\<lambda>n. 1000 + int n), va_reads = 0\<rparr>"

definition demo_request :: credential_request where
  "demo_request = \<lparr>cq_tenantId = ''tnt_1'', cq_runId = ''run_1'', cq_attemptId = ''att_1'', cq_caller = ''tool'',
     cq_purpose = ''call'', cq_action = ''mail.send'', cq_resource = ''all'', cq_approvalId = None,
     cq_idempotencyKey = ''k1''\<rparr>"

lemma demo_vault_ok: "vault_ok demo_vault"
  by (simp add: vault_ok_def demo_vault_def demo_credential_def demo_credential_grant_def uses_of_def use_limit_def)

lemma demo_matches: "policy_matches demo_request (demo_credential_grant, demo_credential)"
  by (simp add: policy_matches_def demo_request_def demo_credential_grant_def demo_credential_def
      patternMatches_pieces match_gap.simps line_terminator_at_def)

lemma demo_eligible: "t < 1500 \<Longrightarrow> eligible_rows t demo_vault demo_request = [(demo_credential_grant, demo_credential)]"
  by (simp add: eligible_rows_def demo_vault_def demo_request_def demo_credential_grant_def demo_credential_def
      ancestry.simps demo_run_def both_active_def before_def Let_def)

lemma demo_owner: "t < 2000 \<Longrightarrow> owns_attempt t demo_vault demo_request"
  "locked_run demo_vault demo_request" "t < 2000 \<Longrightarrow> live_attempt t demo_vault demo_request"
  "t < 1500 \<Longrightarrow> still_valid t demo_vault demo_request None ''cgr_1''"
  by (simp_all add: owns_attempt_def locked_run_def live_attempt_def still_valid_def demo_vault_def demo_request_def
      exists_row_def demo_run_def demo_attempt_def demo_credential_grant_def demo_credential_def both_active_def before_def)

lemma demo_release:
  "\<exists>v'. consumeCredential (\<lambda>s. Inr (sl_ct s)) demo_request demo_vault = Inr (Some (''Authorization'', ''s3cret''), v')"
proof -
  have flat: "va_clock demo_vault n = 1000 + int n" "va_reads demo_vault = 0" "cq_approvalId demo_request = None"
    "prior_uses demo_vault demo_request gc = []" for n gc
    by (simp_all add: demo_vault_def demo_request_def prior_uses_def)
  have fields: "cg_requires_approval demo_credential_grant = False" "cg_id demo_credential_grant = ''cgr_1''"
    "cr_header_name demo_credential = ''Authorization''" "sl_ct (cr_sealed demo_credential) = ''s3cret''"
    "uses_left (demo_credential_grant, demo_credential)"
    by (simp_all add: demo_credential_grant_def demo_credential_def uses_left_def)
  have recorded: "record_use demo_request None gc v = Inr ((), used demo_request None gc v)" if "va_uses v = []" for gc v
    using that by (simp add: record_use_iff prior_uses_def)
  have empty: "va_uses demo_vault = []" by (simp add: demo_vault_def)
  show ?thesis
    by (simp add: consumeCredential_def tx_eval clock_timestamp_def flat demo_owner demo_eligible demo_matches
        validate_approval_def fresh_use_def fields openWhileStillAuthorized_def count_use_def recorded empty)
qed

theorem credential_release_is_authorized_witness:
  "\<exists>v' u. consumeCredential (\<lambda>s. Inr (sl_ct s)) demo_request demo_vault = Inr (Some (''Authorization'', ''s3cret''), v')
     \<and> u \<in> set (va_uses v') \<and> logical_use u = (''cgr_1'', ''run_1'', ''k1'')"
proof -
  obtain v' where v': "consumeCredential (\<lambda>s. Inr (sl_ct s)) demo_request demo_vault = Inr (Some (''Authorization'', ''s3cret''), v')"
    using demo_release by blast
  from credential_release_is_authorized [OF this demo_vault_ok] obtain g u where
    "g \<in> set (va_grants demo_vault)" "u \<in> set (va_uses v')"
    "logical_use u = (cg_id g, cq_runId demo_request, cq_idempotencyKey demo_request)" by blast
  with v' show ?thesis by (auto simp: demo_vault_def demo_credential_grant_def demo_request_def)
qed

theorem credential_history_witness:
  "\<exists>v'. vault_step\<^sup>*\<^sup>* demo_vault v' \<and> va_uses v' \<noteq> []
     \<and> (\<forall>g \<in> set (va_grants v'). cg_uses g = int (uses_of (\<lambda>u. cu_grant_id u = cg_id g) (va_uses v')))"
proof -
  obtain v' where v': "consumeCredential (\<lambda>s. Inr (sl_ct s)) demo_request demo_vault = Inr (Some (''Authorization'', ''s3cret''), v')"
    using demo_release by blast
  then have "vault_step\<^sup>*\<^sup>* demo_vault v'" by (intro r_into_rtranclp vault_step.consume)
  moreover have "va_uses v' \<noteq> []"
    using consumeCredential_cases [OF v'] unfolding released_def
    by (auto simp: prior_uses_def demo_vault_def spends_def Let_def used_def)
  moreover note credential_history [OF calculation(1) demo_vault_ok]
  ultimately show ?thesis by blast
qed

end
