(* ===== verification/Rate_Limit.thy ===== *)
theory Rate_Limit
  imports Schema
begin

text \<open>
  Rate limiting of the API, \<^verbatim>\<open>src/api/rateLimit.ts\<close>: the token bucket in the memory of one process
  and the one in the database. Token counts are exact rationals here, where the source and Postgres
  use double precision. Times of the first are in milliseconds, of the second in seconds.
\<close>

section \<open>The in-process bucket\<close>

record rate_verdict =
  rv_ok :: bool
  rv_retryAfterSec :: int

record bucket =
  bk_tokens :: rat
  bk_last :: rat

type_synonym buckets = "string \<Rightarrow> bucket option"

definition instance_check ::
    "rat \<Rightarrow> rat \<Rightarrow> string \<Rightarrow> rat \<Rightarrow> buckets \<Rightarrow> rate_verdict \<times> buckets" where
  "instance_check capacity refillPerSec tenantId now buckets =
     (let b = (case buckets tenantId of None \<Rightarrow> \<lparr>bk_tokens = capacity, bk_last = now\<rparr> | Some b \<Rightarrow> b);
          elapsedSec = (now - bk_last b) / 1000;
          tokens = min capacity (bk_tokens b + elapsedSec * refillPerSec)
      in if tokens < 1
         then (\<lparr>rv_ok = False, rv_retryAfterSec = max 1 \<lceil>(1 - tokens) / refillPerSec\<rceil>\<rparr>,
               buckets(tenantId \<mapsto> \<lparr>bk_tokens = tokens, bk_last = now\<rparr>))
         else (\<lparr>rv_ok = True, rv_retryAfterSec = 0\<rparr>,
               buckets(tenantId \<mapsto> \<lparr>bk_tokens = tokens - 1, bk_last = now\<rparr>)))"

section \<open>The bucket in the database\<close>

text \<open>
  The upsert. In \<open>rate_buckets\<close> a row is the balance and the time of its last update, and \<^verbatim>\<open>now()\<close>
  is the time of the statement.
\<close>

definition pg_check ::
    "rat \<Rightarrow> rat \<Rightarrow> string \<Rightarrow> rat \<Rightarrow> buckets \<Rightarrow> rate_verdict \<times> buckets" where
  "pg_check capacity rate tenantId now buckets =
     (let tokens = (case buckets tenantId of
            None \<Rightarrow> capacity - 1
          | Some row \<Rightarrow> max (-1) (min capacity (bk_tokens row + (now - bk_last row) * rate) - 1))
      in (if tokens < 0
          then \<lparr>rv_ok = False, rv_retryAfterSec = max 1 \<lceil>1 / rate\<rceil>\<rparr>
          else \<lparr>rv_ok = True, rv_retryAfterSec = 0\<rparr>,
          buckets(tenantId \<mapsto> \<lparr>bk_tokens = tokens, bk_last = now\<rparr>)))"

section \<open>The limiter of a configuration\<close>

datatype rate_scope = Instance_scope | Global_scope

record rate_config =
  rl_perSec :: rat
  rl_burst :: rat
  rl_scope :: rate_scope

text \<open>\<open>ms\<close> is the clock in milliseconds.\<close>

definition rateLimiter :: "rate_config \<Rightarrow> string \<Rightarrow> rat \<Rightarrow> buckets \<Rightarrow> rate_verdict \<times> buckets" where
  "rateLimiter cfg tenantId ms buckets =
     (if rl_perSec cfg \<le> 0 then (\<lparr>rv_ok = True, rv_retryAfterSec = 0\<rparr>, buckets)
      else case rl_scope cfg of
             Global_scope \<Rightarrow> pg_check (rl_burst cfg) (rl_perSec cfg) tenantId (ms / 1000) buckets
           | Instance_scope \<Rightarrow> instance_check (rl_burst cfg) (rl_perSec cfg) tenantId ms buckets)"

section \<open>The contract of a token bucket\<close>

text \<open>
  A sequence of requests, each of a tenant at a time: the state after them, and how many of one
  tenant are admitted.
\<close>

type_synonym limiter = "string \<Rightarrow> rat \<Rightarrow> buckets \<Rightarrow> rate_verdict \<times> buckets"

fun after_requests :: "limiter \<Rightarrow> (string \<times> rat) list \<Rightarrow> buckets \<Rightarrow> buckets" where
  "after_requests check [] s = s"
| "after_requests check ((k, t) # reqs) s = after_requests check reqs (snd (check k t s))"

fun admitted :: "limiter \<Rightarrow> string \<Rightarrow> (string \<times> rat) list \<Rightarrow> buckets \<Rightarrow> nat" where
  "admitted check k [] s = 0"
| "admitted check k ((k', t) # reqs) s =
     (if rv_ok (fst (check k' t s)) \<and> k' = k then 1 else 0) + admitted check k reqs (snd (check k' t s))"

text \<open>
  What both buckets promise their callers: a level per tenant that a request of the tenant lowers
  by one when it is admitted and never raises, and that grows with time no faster than the rate.
\<close>

locale token_bucket =
  fixes rate :: rat
    and check :: limiter
    and level :: "string \<Rightarrow> rat \<Rightarrow> buckets \<Rightarrow> rat"
    and good :: "rat \<Rightarrow> buckets \<Rightarrow> bool"
  assumes level_nonneg: "good t s \<Longrightarrow> 0 \<le> level k t s"
    and level_grows: "good t s \<Longrightarrow> t \<le> t' \<Longrightarrow> level k t' s \<le> level k t s + rate * (t' - t)"
    and good_later: "good t s \<Longrightarrow> t \<le> t' \<Longrightarrow> good t' s"
    and check_good: "good t s \<Longrightarrow> good t (snd (check k t s))"
    and check_spends: "good t s \<Longrightarrow>
      level k t (snd (check k t s)) + (if rv_ok (fst (check k t s)) then 1 else 0) \<le> level k t s"
    and check_other: "k \<noteq> k' \<Longrightarrow> level k t (snd (check k' t s)) = level k t s"
begin

lemma after_good:
  "good t0 s \<Longrightarrow> sorted (t0 # map snd reqs) \<Longrightarrow> good (last (t0 # map snd reqs)) (after_requests check reqs s)"
proof (induction reqs arbitrary: t0 s)
  case (Cons req reqs)
  obtain k t where req: "req = (k, t)" by (cases req)
  have "good t (snd (check k t s))"
    using Cons.prems good_later [of t0 s t] check_good by (simp add: req)
  from Cons.IH [OF this] Cons.prems(2) show ?case by (simp add: req)
qed simp

lemma admitted_bounded:
  assumes "good t0 s" and "sorted (t0 # map snd reqs)"
  shows "of_nat (admitted check k reqs s) \<le> level k t0 s + rate * (last (t0 # map snd reqs) - t0)"
  using assms
proof (induction reqs arbitrary: t0 s)
  case Nil
  then show ?case using level_nonneg by simp
next
  case (Cons req reqs)
  obtain k' t where req: "req = (k', t)" by (cases req)
  define s' where "s' = snd (check k' t s)"
  have le: "t0 \<le> t" and sorted: "sorted (t # map snd reqs)" using Cons.prems(2) by (simp_all add: req)
  have good: "good t s" "good t s'"
    unfolding s'_def using good_later [OF Cons.prems(1) le] check_good by blast+
  define n where "n = (if rv_ok (fst (check k' t s)) \<and> k' = k then 1 else 0 :: nat)"
  have spent: "level k t s' + of_nat n \<le> level k t s"
    using check_spends [OF good(1), of k] check_other [of k k' t s] by (cases "k' = k") (auto simp: n_def s'_def)
  have "of_nat (admitted check k (req # reqs) s) = (of_nat n + of_nat (admitted check k reqs s') :: rat)"
    by (simp add: req s'_def n_def)
  also have "\<dots> \<le> of_nat n + (level k t s' + rate * (last (t # map snd reqs) - t))"
    using Cons.IH [OF good(2) sorted] by simp
  also have "\<dots> \<le> level k t s + rate * (last (t # map snd reqs) - t)" using spent by simp
  also have "\<dots> \<le> level k t0 s + rate * (t - t0) + rate * (last (t # map snd reqs) - t)"
    using level_grows [OF Cons.prems(1) le] by simp
  also have "\<dots> = level k t0 s + rate * (last (t # map snd reqs) - t0)"
    by (simp add: algebra_simps)
  finally show ?case by (simp add: req)
qed

end

section \<open>Both buckets keep it\<close>

definition local_level :: "rat \<Rightarrow> rat \<Rightarrow> string \<Rightarrow> rat \<Rightarrow> buckets \<Rightarrow> rat" where
  "local_level capacity rate k t s =
     (case s k of None \<Rightarrow> capacity | Some b \<Rightarrow> min capacity (bk_tokens b + (t - bk_last b) / 1000 * rate))"

definition local_good :: "rat \<Rightarrow> rat \<Rightarrow> rat \<Rightarrow> buckets \<Rightarrow> bool" where
  "local_good capacity rate t s \<longleftrightarrow> 0 \<le> capacity \<and> 0 \<le> rate
     \<and> (\<forall>k b. s k = Some b \<longrightarrow> 0 \<le> bk_tokens b \<and> bk_last b \<le> t)"

lemma instance_check_eq:
  "instance_check capacity rate k now s =
     (let tokens = local_level capacity rate k now s in
      if tokens < 1 then (\<lparr>rv_ok = False, rv_retryAfterSec = max 1 \<lceil>(1 - tokens) / rate\<rceil>\<rparr>,
                          s(k \<mapsto> \<lparr>bk_tokens = tokens, bk_last = now\<rparr>))
      else (\<lparr>rv_ok = True, rv_retryAfterSec = 0\<rparr>, s(k \<mapsto> \<lparr>bk_tokens = tokens - 1, bk_last = now\<rparr>)))"
  by (simp add: instance_check_def local_level_def split: option.splits)

lemma local_level_nonneg: "local_good capacity rate t s \<Longrightarrow> 0 \<le> local_level capacity rate k t s"
  by (auto simp: local_level_def local_good_def split: option.splits intro!: add_nonneg_nonneg mult_nonneg_nonneg)

lemma growth:
  fixes a :: rat
  assumes "0 \<le> r" and "t \<le> t'"
  shows "min c (a + (t' - l) * r) \<le> min c (a + (t - l) * r) + r * (t' - t)"
proof -
  have "a + (t' - l) * r = a + (t - l) * r + r * (t' - t)" by (simp add: algebra_simps)
  moreover have "0 \<le> r * (t' - t)" using assms by simp
  ultimately show ?thesis by linarith
qed

interpretation local_bucket: token_bucket "rate / 1000" "instance_check capacity rate"
  "local_level capacity rate" "local_good capacity rate"
proof
  fix t t' :: rat and s k k'
  show "local_good capacity rate t s \<Longrightarrow> 0 \<le> local_level capacity rate k t s" by (rule local_level_nonneg)
  show "local_level capacity rate k t' s \<le> local_level capacity rate k t s + rate / 1000 * (t' - t)"
    if "local_good capacity rate t s" "t \<le> t'"
  proof (cases "s k")
    case None
    with that show ?thesis by (simp add: local_level_def local_good_def)
  next
    case (Some b)
    with that growth [of "rate / 1000" t t' capacity "bk_tokens b" "bk_last b"] show ?thesis
      by (simp add: local_level_def local_good_def)
  qed
  show "local_good capacity rate t s \<Longrightarrow> t \<le> t' \<Longrightarrow> local_good capacity rate t' s"
    by (auto simp: local_good_def intro: order_trans)
  show "local_good capacity rate t s \<Longrightarrow> local_good capacity rate t (snd (instance_check capacity rate k t s))"
    using local_level_nonneg [of capacity rate t s k] by (auto simp: instance_check_eq Let_def local_good_def)
  show "local_level capacity rate k t (snd (instance_check capacity rate k t s))
      + (if rv_ok (fst (instance_check capacity rate k t s)) then 1 else 0) \<le> local_level capacity rate k t s"
    by (simp add: instance_check_eq Let_def) (simp add: local_level_def, linarith)
  show "k \<noteq> k' \<Longrightarrow> local_level capacity rate k t (snd (instance_check capacity rate k' t s)) = local_level capacity rate k t s"
    by (simp add: instance_check_eq Let_def) (simp add: local_level_def)
qed

definition shared_level :: "rat \<Rightarrow> rat \<Rightarrow> string \<Rightarrow> rat \<Rightarrow> buckets \<Rightarrow> rat" where
  "shared_level capacity rate k ms s =
     max 0 (case s k of None \<Rightarrow> capacity | Some b \<Rightarrow> min capacity (bk_tokens b + (ms / 1000 - bk_last b) * rate))"

definition shared_good :: "rat \<Rightarrow> rat \<Rightarrow> rat \<Rightarrow> buckets \<Rightarrow> bool" where
  "shared_good capacity rate ms s \<longleftrightarrow> 0 \<le> capacity \<and> 0 \<le> rate \<and> (\<forall>k b. s k = Some b \<longrightarrow> bk_last b \<le> ms / 1000)"

interpretation shared_bucket: token_bucket "rate / 1000" "\<lambda>k ms s. pg_check capacity rate k (ms / 1000) s"
  "shared_level capacity rate" "shared_good capacity rate"
proof
  fix t t' :: rat and s k k'
  show "0 \<le> shared_level capacity rate k t s" by (simp add: shared_level_def)
  show "shared_level capacity rate k t' s \<le> shared_level capacity rate k t s + rate / 1000 * (t' - t)"
    if "shared_good capacity rate t s" "t \<le> t'"
  proof (cases "s k")
    case None
    with that show ?thesis by (simp add: shared_level_def shared_good_def)
  next
    case (Some b)
    let ?level = "\<lambda>x. min capacity (bk_tokens b + (x / 1000 - bk_last b) * rate)"
    have eq: "rate * (t' / 1000 - t / 1000) = rate / 1000 * (t' - t)" by (simp add: diff_divide_distrib [symmetric])
    have "?level t' \<le> ?level t + rate / 1000 * (t' - t)"
      unfolding eq [symmetric] by (rule growth) (use that in \<open>simp_all add: shared_good_def divide_right_mono\<close>)
    moreover have "0 \<le> rate / 1000 * (t' - t)" using that by (simp add: shared_good_def)
    ultimately have "max 0 (?level t') \<le> max 0 (?level t) + rate / 1000 * (t' - t)" by linarith
    with Some show ?thesis by (simp only: shared_level_def option.case)
  qed
  show "shared_good capacity rate t s \<Longrightarrow> t \<le> t' \<Longrightarrow> shared_good capacity rate t' s"
    by (fastforce simp: shared_good_def)
  show "shared_good capacity rate t s \<Longrightarrow> shared_good capacity rate t (snd (pg_check capacity rate k (t / 1000) s))"
    by (auto simp: pg_check_def Let_def shared_good_def)
  show "shared_level capacity rate k t (snd (pg_check capacity rate k (t / 1000) s))
      + (if rv_ok (fst (pg_check capacity rate k (t / 1000) s)) then 1 else 0) \<le> shared_level capacity rate k t s"
    by (auto simp: pg_check_def Let_def shared_level_def split: option.splits)
  show "k \<noteq> k' \<Longrightarrow> shared_level capacity rate k t (snd (pg_check capacity rate k' (t / 1000) s)) = shared_level capacity rate k t s"
    by (simp add: pg_check_def Let_def shared_level_def)
qed

section \<open>The rate holds in every window\<close>

lemma local_good_empty: "0 \<le> capacity \<Longrightarrow> 0 \<le> rate \<Longrightarrow> local_good capacity rate t (\<lambda>_. None)"
  by (simp add: local_good_def)

lemma shared_good_empty: "0 \<le> capacity \<Longrightarrow> 0 \<le> rate \<Longrightarrow> shared_good capacity rate t (\<lambda>_. None)"
  by (simp add: shared_good_def)

lemma levels_capped:
  "local_level capacity rate k t s \<le> max 0 capacity" "shared_level capacity rate k t s \<le> max 0 capacity"
  by (auto simp: local_level_def shared_level_def split: option.splits)

lemma rateLimiter_scopes:
  assumes "0 < rl_perSec cfg"
  shows "rl_scope cfg = Instance_scope \<Longrightarrow> rateLimiter cfg = instance_check (rl_burst cfg) (rl_perSec cfg)"
    and "rl_scope cfg = Global_scope \<Longrightarrow> rateLimiter cfg = (\<lambda>k ms s. pg_check (rl_burst cfg) (rl_perSec cfg) k (ms / 1000) s)"
  using assms by (auto simp: rateLimiter_def fun_eq_iff)

text \<open>
  C34: the limit holds in every window of time, for either bucket. However the requests of all
  tenants were interleaved before it, of the requests in a window a tenant has at most its burst
  and the sustained rate times the length of the window admitted.
\<close>

theorem rate_limit_bounded:
  assumes "0 < rl_perSec cfg" and "0 \<le> rl_burst cfg"
    and "sorted (map snd (before @ (k0, start) # window))"
  shows "of_nat (admitted (rateLimiter cfg) k ((k0, start) # window) (after_requests (rateLimiter cfg) before (\<lambda>_. None)))
     \<le> rl_burst cfg + rl_perSec cfg * (last (start # map snd window) - start) / 1000"
proof -
  let ?t = "if before = [] then start else snd (hd before)"
  let ?s = "after_requests (rateLimiter cfg) before (\<lambda>_. None)"
  let ?reqs = "(k0, start) # window"
  have "sorted (?t # map snd before)"
    using assms(3) by (cases before) (simp_all add: sorted_append)
  moreover have "last (?t # map snd before) \<le> start"
    using assms(3) by (cases before rule: rev_cases) (simp_all add: sorted_append)
  moreover have "sorted (start # map snd ?reqs)"
    using assms(3) by (simp add: sorted_append)
  ultimately have sorted: "sorted (?t # map snd before)" "last (?t # map snd before) \<le> start"
    "sorted (start # map snd ?reqs)" by blast+
  show ?thesis
  proof (cases "rl_scope cfg")
    case Instance_scope
    note eq = rateLimiter_scopes(1) [OF assms(1) Instance_scope]
    have "local_good (rl_burst cfg) (rl_perSec cfg) start ?s"
      unfolding eq using assms(1,2)
      by (intro local_bucket.good_later [OF local_bucket.after_good [OF local_good_empty sorted(1)] sorted(2)]) simp_all
    from local_bucket.admitted_bounded [OF this sorted(3), of k] levels_capped(1) [of "rl_burst cfg" "rl_perSec cfg" k start ?s] assms(2)
    show ?thesis unfolding eq by simp
  next
    case Global_scope
    note eq = rateLimiter_scopes(2) [OF assms(1) Global_scope]
    have "shared_good (rl_burst cfg) (rl_perSec cfg) start ?s"
      unfolding eq using assms(1,2)
      by (intro shared_bucket.good_later [OF shared_bucket.after_good [OF shared_good_empty sorted(1)] sorted(2)]) simp_all
    from shared_bucket.admitted_bounded [OF this sorted(3), of k] levels_capped(2) [of "rl_burst cfg" "rl_perSec cfg" k start ?s] assms(2)
    show ?thesis unfolding eq by simp
  qed
qed

theorem rate_limit_bounded_witness:
  "of_nat (admitted (rateLimiter \<lparr>rl_perSec = 1, rl_burst = 2, rl_scope = Instance_scope\<rparr>) ''t''
      [(''t'', 0), (''t'', 0), (''t'', 0), (''t'', 1000)] (\<lambda>_. None)) \<le> (3 :: rat)
   \<and> admitted (rateLimiter \<lparr>rl_perSec = 1, rl_burst = 2, rl_scope = Instance_scope\<rparr>) ''t''
      [(''t'', 0), (''t'', 0), (''t'', 0), (''t'', 1000)] (\<lambda>_. None) = 3"
  using rate_limit_bounded [of "\<lparr>rl_perSec = 1, rl_burst = 2, rl_scope = Instance_scope\<rparr>" "[]" "''t''" 0
      "[(''t'', 0), (''t'', 0), (''t'', 1000)]" "''t''"]
  by (simp add: rateLimiter_def instance_check_def)

section \<open>Waiting as told\<close>

text \<open>
  The verdicts of a client that sends one request after the other and, after each, waits exactly
  as long as it was told.
\<close>

fun as_told :: "limiter \<Rightarrow> string \<Rightarrow> nat \<Rightarrow> rat \<Rightarrow> buckets \<Rightarrow> rate_verdict list" where
  "as_told check k 0 t s = []"
| "as_told check k (Suc n) t s =
     (let (v, s') = check k t s in v # as_told check k n (t + 1000 * of_int (rv_retryAfterSec v)) s')"

lemma whole_seconds:
  fixes r :: rat
  assumes "0 < r" and "1 / r \<in> \<int>"
  shows "of_int (max 1 \<lceil>1 / r\<rceil>) = 1 / r"
proof -
  have "0 < 1 / r" using assms(1) by simp
  then have "max 1 \<lceil>1 / r\<rceil> = \<lceil>1 / r\<rceil>" by linarith
  then show ?thesis using of_int_ceiling [OF assms(2)] by (simp only:)
qed

lemma instance_told:
  assumes "0 < rate" and "1 \<le> capacity"
    and "instance_check capacity rate k t s = (v, s')" and "\<not> rv_ok v"
    and "t + 1000 * of_int (rv_retryAfterSec v) \<le> t'"
  shows "rv_ok (fst (instance_check capacity rate k t' s'))"
proof -
  define l where "l = local_level capacity rate k t s"
  from assms have v: "v = \<lparr>rv_ok = False, rv_retryAfterSec = max 1 \<lceil>(1 - l) / rate\<rceil>\<rparr>"
    and s': "s' = s(k \<mapsto> \<lparr>bk_tokens = l, bk_last = t\<rparr>)"
    by (auto simp: instance_check_eq Let_def l_def split: if_splits)
  have "(1 - l) / rate \<le> of_int (rv_retryAfterSec v)"
    unfolding v rate_verdict.simps ceiling_le_iff [symmetric] by simp
  also have "\<dots> \<le> (t' - t) / 1000" using assms(5) by simp
  finally have "1 - l \<le> (t' - t) / 1000 * rate" using assms(1) by (simp add: pos_divide_le_eq)
  then have "1 \<le> local_level capacity rate k t' s'"
    using assms(2) by (simp add: s' local_level_def)
  then show ?thesis by (simp add: instance_check_eq Let_def)
qed

text \<open>At the bottom of the shared bucket one token is not enough, and the next refusal takes it.\<close>

lemma shared_bottom:
  assumes "s k = Some \<lparr>bk_tokens = -1, bk_last = t / 1000\<rparr>" and "(t' - t) / 1000 * rate \<le> 1"
  shows "pg_check capacity rate k (t' / 1000) s =
    (\<lparr>rv_ok = False, rv_retryAfterSec = max 1 \<lceil>1 / rate\<rceil>\<rparr>, s(k \<mapsto> \<lparr>bk_tokens = -1, bk_last = t' / 1000\<rparr>))"
proof -
  have "min capacity (- 1 + (t' / 1000 - t / 1000) * rate) \<le> 0"
    using assms(2) by (simp add: diff_divide_distrib min_le_iff_disj)
  then have "max (- 1) (min capacity (- 1 + (t' / 1000 - t / 1000) * rate) - 1) = - 1" by simp
  with assms(1) show ?thesis by (simp add: pg_check_def)
qed

lemma shared_starves:
  assumes "rl_scope cfg = Global_scope" and "0 < rl_perSec cfg" and "1 / rl_perSec cfg \<in> \<int>"
    and "s k = Some \<lparr>bk_tokens = -1, bk_last = t / 1000\<rparr>"
  shows "as_told (rateLimiter cfg) k n (t + 1000 / rl_perSec cfg) s
     = replicate n \<lparr>rv_ok = False, rv_retryAfterSec = max 1 \<lceil>1 / rl_perSec cfg\<rceil>\<rparr>"
  using assms(4)
proof (induction n arbitrary: t s)
  case (Suc n)
  define u s' where "u = t + 1000 / rl_perSec cfg" and "s' = s(k \<mapsto> \<lparr>bk_tokens = -1, bk_last = u / 1000\<rparr>)"
  have "(u - t) / 1000 * rl_perSec cfg \<le> 1" using assms(2) by (simp add: u_def)
  from shared_bottom [of s k t u "rl_perSec cfg" "rl_burst cfg", OF Suc.prems this]
  have now: "rateLimiter cfg k u s = (\<lparr>rv_ok = False, rv_retryAfterSec = max 1 \<lceil>1 / rl_perSec cfg\<rceil>\<rparr>, s')"
    using assms(1,2) by (simp add: rateLimiter_scopes s'_def)
  have "s' k = Some \<lparr>bk_tokens = -1, bk_last = u / 1000\<rparr>" by (simp add: s'_def)
  from Suc.IH [of s' u, OF this] have
    "as_told (rateLimiter cfg) k n (u + 1000 * of_int (max 1 \<lceil>1 / rl_perSec cfg\<rceil>)) s'
     = replicate n \<lparr>rv_ok = False, rv_retryAfterSec = max 1 \<lceil>1 / rl_perSec cfg\<rceil>\<rparr>"
    by (simp add: whole_seconds [OF assms(2,3)])
  with now show ?case by (simp add: u_def [symmetric])
qed simp

text \<open>From two tokens a second on, the one second told is long enough.\<close>

lemma shared_told:
  assumes "2 \<le> rate" and "1 \<le> capacity"
    and "pg_check capacity rate k (t / 1000) s = (v, s')" and "\<not> rv_ok v"
    and "t + 1000 * of_int (rv_retryAfterSec v) \<le> t'"
  shows "rv_ok (fst (pg_check capacity rate k (t' / 1000) s'))"
proof -
  from assms(2,3,4) obtain row where v: "v = \<lparr>rv_ok = False, rv_retryAfterSec = max 1 \<lceil>1 / rate\<rceil>\<rparr>"
    and s': "s' k = Some row" and row: "- 1 \<le> bk_tokens row" "bk_last row = t / 1000"
    by (auto simp: pg_check_def Let_def split: option.splits if_splits)
  have "1 \<le> (of_int (rv_retryAfterSec v) :: rat)" unfolding v by simp
  then have "1 \<le> t' / 1000 - t / 1000" using assms(5) by simp
  then have "1 * 2 \<le> (t' / 1000 - t / 1000) * rate" using assms(1) by (intro mult_mono) simp_all
  with row(1) have "1 \<le> bk_tokens row + (t' / 1000 - bk_last row) * rate"
    unfolding row(2) by linarith
  with assms(2) s' show ?thesis by (simp add: pg_check_def Let_def)
qed

text \<open>
  C35: what a refused client gets for waiting. With the bucket of one process it is admitted if
  it comes back after the time it was told, provided the bucket holds a request at all. The
  bucket in the database goes down to -1 when it refuses and then needs two tokens to admit, but
  announces the time of one. From two tokens a second on (the default is 20) the announced time
  is rounded up to a whole second, and that is enough. But with one token in a whole number of
  seconds (one request a second, or one in two seconds) a client that is at the bottom and always
  returns exactly when it was told is refused for ever.
\<close>

theorem retry_after_contract:
  "(rl_scope cfg = Instance_scope \<and> 0 < rl_perSec cfg \<and> 1 \<le> rl_burst cfg
      \<and> rateLimiter cfg k t s = (v, s') \<and> \<not> rv_ok v \<and> t + 1000 * of_int (rv_retryAfterSec v) \<le> t'
    \<longrightarrow> rv_ok (fst (rateLimiter cfg k t' s')))
   \<and> (rl_scope cfg = Global_scope \<and> 2 \<le> rl_perSec cfg \<and> 1 \<le> rl_burst cfg
      \<and> rateLimiter cfg k t s = (v, s') \<and> \<not> rv_ok v \<and> t + 1000 * of_int (rv_retryAfterSec v) \<le> t'
    \<longrightarrow> rv_ok (fst (rateLimiter cfg k t' s')))
   \<and> (rl_scope cfg = Global_scope \<and> 0 < rl_perSec cfg \<and> 1 / rl_perSec cfg \<in> \<int>
      \<and> s k = Some \<lparr>bk_tokens = -1, bk_last = t / 1000\<rparr>
    \<longrightarrow> (\<exists>verdict. \<not> rv_ok verdict \<and> of_int (rv_retryAfterSec verdict) = 1 / rl_perSec cfg
        \<and> (\<forall>n. as_told (rateLimiter cfg) k n (t + 1000 / rl_perSec cfg) s = replicate n verdict)))"
proof (intro conjI impI; elim conjE)
  assume "rl_scope cfg = Instance_scope" "0 < rl_perSec cfg" "1 \<le> rl_burst cfg"
    "rateLimiter cfg k t s = (v, s')" "\<not> rv_ok v" "t + 1000 * of_int (rv_retryAfterSec v) \<le> t'"
  then show "rv_ok (fst (rateLimiter cfg k t' s'))"
    using instance_told [of "rl_perSec cfg" "rl_burst cfg" k t s v s' t'] by (simp add: rateLimiter_scopes)
next
  assume "rl_scope cfg = Global_scope" "2 \<le> rl_perSec cfg" "1 \<le> rl_burst cfg"
    "rateLimiter cfg k t s = (v, s')" "\<not> rv_ok v" "t + 1000 * of_int (rv_retryAfterSec v) \<le> t'"
  then show "rv_ok (fst (rateLimiter cfg k t' s'))"
    using shared_told [of "rl_perSec cfg" "rl_burst cfg" k t s v s' t'] by (simp add: rateLimiter_scopes)
next
  assume "rl_scope cfg = Global_scope" "0 < rl_perSec cfg" "1 / rl_perSec cfg \<in> \<int>"
    "s k = Some \<lparr>bk_tokens = -1, bk_last = t / 1000\<rparr>"
  then show "\<exists>verdict. \<not> rv_ok verdict \<and> of_int (rv_retryAfterSec verdict) = 1 / rl_perSec cfg
        \<and> (\<forall>n. as_told (rateLimiter cfg) k n (t + 1000 / rl_perSec cfg) s = replicate n verdict)"
    using shared_starves [of cfg s k t] whole_seconds [of "rl_perSec cfg"]
    by (intro exI [of _ "\<lparr>rv_ok = False, rv_retryAfterSec = max 1 \<lceil>1 / rl_perSec cfg\<rceil>\<rparr>"]) simp
qed

text \<open>One request per second, as told: admitted by one bucket, refused a hundred times by the other.\<close>

theorem retry_after_contract_witness:
  "rv_ok (fst (rateLimiter \<lparr>rl_perSec = 1, rl_burst = 2, rl_scope = Instance_scope\<rparr> ''t'' 1000
       [''t'' \<mapsto> \<lparr>bk_tokens = 0, bk_last = 0\<rparr>]))
   \<and> rv_ok (fst (rateLimiter \<lparr>rl_perSec = 20, rl_burst = 40, rl_scope = Global_scope\<rparr> ''t'' 1000
       [''t'' \<mapsto> \<lparr>bk_tokens = -1, bk_last = 0\<rparr>]))
   \<and> (\<exists>verdict. \<not> rv_ok verdict
       \<and> as_told (rateLimiter \<lparr>rl_perSec = 1, rl_burst = 2, rl_scope = Global_scope\<rparr>) ''t'' 100 1000
           [''t'' \<mapsto> \<lparr>bk_tokens = -1, bk_last = 0\<rparr>] = replicate 100 verdict)"
proof (intro conjI)
  show "rv_ok (fst (rateLimiter \<lparr>rl_perSec = 1, rl_burst = 2, rl_scope = Instance_scope\<rparr> ''t'' 1000
       [''t'' \<mapsto> \<lparr>bk_tokens = 0, bk_last = 0\<rparr>]))"
    using retry_after_contract [THEN conjunct1, rule_format, of "\<lparr>rl_perSec = 1, rl_burst = 2, rl_scope = Instance_scope\<rparr>" "''t''" 0
      "[''t'' \<mapsto> \<lparr>bk_tokens = 0, bk_last = 0\<rparr>]" "\<lparr>rv_ok = False, rv_retryAfterSec = 1\<rparr>"
      "[''t'' \<mapsto> \<lparr>bk_tokens = 0, bk_last = 0\<rparr>]" 1000]
    by (auto simp: rateLimiter_def instance_check_def)
  show "rv_ok (fst (rateLimiter \<lparr>rl_perSec = 20, rl_burst = 40, rl_scope = Global_scope\<rparr> ''t'' 1000
       [''t'' \<mapsto> \<lparr>bk_tokens = -1, bk_last = 0\<rparr>]))"
    using retry_after_contract [THEN conjunct2, THEN conjunct1, rule_format,
      of "\<lparr>rl_perSec = 20, rl_burst = 40, rl_scope = Global_scope\<rparr>" "''t''" 0
      "[''t'' \<mapsto> \<lparr>bk_tokens = -1, bk_last = 0\<rparr>]" "\<lparr>rv_ok = False, rv_retryAfterSec = 1\<rparr>"
      "[''t'' \<mapsto> \<lparr>bk_tokens = -1, bk_last = 0\<rparr>]" 1000]
    by (auto simp: rateLimiter_def pg_check_def)
  have "\<exists>verdict. \<not> rv_ok verdict \<and> of_int (rv_retryAfterSec verdict) = 1 / (1 :: rat)
      \<and> (\<forall>n. as_told (rateLimiter \<lparr>rl_perSec = 1, rl_burst = 2, rl_scope = Global_scope\<rparr>) ''t'' n (0 + 1000 / 1)
           [''t'' \<mapsto> \<lparr>bk_tokens = -1, bk_last = 0\<rparr>] = replicate n verdict)"
    using retry_after_contract [THEN conjunct2, THEN conjunct2,
      of "\<lparr>rl_perSec = 1, rl_burst = 2, rl_scope = Global_scope\<rparr>" "[''t'' \<mapsto> \<lparr>bk_tokens = -1, bk_last = 0\<rparr>]" "''t''" 0]
    by simp
  then show "\<exists>verdict. \<not> rv_ok verdict
       \<and> as_told (rateLimiter \<lparr>rl_perSec = 1, rl_burst = 2, rl_scope = Global_scope\<rparr>) ''t'' 100 1000
           [''t'' \<mapsto> \<lparr>bk_tokens = -1, bk_last = 0\<rparr>] = replicate 100 verdict" by auto
qed

end
