(* ===== verification/Gate.thy ===== *)
theory Gate
  imports Rate_Limit Demo
begin

text \<open>
  The gate of the API: tenants and their keys (\<^verbatim>\<open>src/store/tenants.ts\<close>), authentication
  (\<^verbatim>\<open>src/api/auth.ts\<close>) and the hook of \<^verbatim>\<open>src/api/server.ts\<close> that every request passes. The
  hash, random bytes and the clock are parameters.
\<close>

section \<open>Tenants and keys\<close>

record api_key_row =
  ak_id :: string
  ak_tenant_id :: string
  ak_key_hash :: string
  ak_name :: "string option"
  ak_active :: bool
  ak_last_used_at :: "int option"

record gate =
  ga_world :: world
  ga_keys :: "api_key_row list"
  ga_buckets :: buckets

type_synonym 'a gtxn = "(err, gate, 'a) tx"

definition gate_id :: "string \<Rightarrow> string gtxn" where
  "gate_id prefix =
     (\<lambda>g. case newId prefix (ga_world g) of
            Inl e \<Rightarrow> Inl e
          | Inr (x, w) \<Rightarrow> Inr (x, g\<lparr>ga_world := w\<rparr>))"

record tenant_quota =
  tq_maxConcurrentRuns :: "int option"
  tq_dailyTokenBudget :: "int option"

definition createTenant :: "string option \<Rightarrow> tenant_quota option \<Rightarrow> tenant_row gtxn" where
  "createTenant chosen quota =
     bindT (case chosen of None \<Rightarrow> gate_id ''tnt'' | Some i \<Rightarrow> returnT i) (\<lambda>i.
     bindT (getsT (\<lambda>g. find_tenant (ga_world g) i)) (\<lambda>taken.
     let row = \<lparr>ten_id = i, ten_active = True,
                ten_max_concurrent_runs = Option.bind quota tq_maxConcurrentRuns,
                ten_daily_token_budget = Option.bind quota tq_dailyTokenBudget\<rparr>
     in thenT (ensureT (taken = None) (UniqueViolation ''tenants_pkey''))
       (thenT (modifyT (\<lambda>g. g\<lparr>ga_world := (ga_world g)\<lparr>w_tenants := w_tenants (ga_world g) @ [row]\<rparr>\<rparr>))
              (returnT row))))"

text \<open>\<open>random\<close> is the base64url form of 32 random bytes.\<close>

definition createApiKey ::
    "(string \<Rightarrow> string) \<Rightarrow> string \<Rightarrow> string \<Rightarrow> string option \<Rightarrow> (string \<times> string) gtxn" where
  "createApiKey hashApiKey random tenantId name =
     bindT (gate_id ''key'') (\<lambda>i.
     let plaintext = ''mak_'' @ random in
     bindT (getsT (\<lambda>g. (find_tenant (ga_world g) tenantId \<noteq> None,
              exists_row (\<lambda>k. ak_id k = i \<or> ak_key_hash k = hashApiKey plaintext) (ga_keys g)))) (\<lambda>(known, taken).
     thenT (ensureT known (GenericError ''api_keys_tenant_id_fkey''))
    (thenT (ensureT (\<not> taken) (UniqueViolation ''api_keys''))
    (thenT (modifyT (\<lambda>g. g\<lparr>ga_keys := ga_keys g @
              [\<lparr>ak_id = i, ak_tenant_id = tenantId, ak_key_hash = hashApiKey plaintext, ak_name = name,
                ak_active = True, ak_last_used_at = None\<rparr>]\<rparr>))
           (returnT (i, plaintext))))))"

definition getTenant :: "gate \<Rightarrow> string \<Rightarrow> tenant_row option" where
  "getTenant g i = find_tenant (ga_world g) i"

text \<open>The join of keys and tenants; \<open>stamp_key\<close> is the update of the last use, which may fail.\<close>

definition key_tenants :: "gate \<Rightarrow> string \<Rightarrow> (tenant_row \<times> api_key_row) list" where
  "key_tenants g hash =
     [(t, k). k \<leftarrow> ga_keys g, t \<leftarrow> w_tenants (ga_world g),
              ten_id t = ak_tenant_id k \<and> ak_key_hash k = hash \<and> ak_active k \<and> ten_active t]"

definition resolveApiKeyContext ::
    "(string \<Rightarrow> string) \<Rightarrow> gate \<Rightarrow> string \<Rightarrow> (tenant_row \<times> string) option" where
  "resolveApiKeyContext hashApiKey g plaintext =
     (case key_tenants g (hashApiKey plaintext) of
        [] \<Rightarrow> None
      | (t, k) # _ \<Rightarrow> Some (t, ''api-key:'' @ ak_id k))"

definition stamp_key :: "string \<Rightarrow> unit gtxn" where
  "stamp_key i = modifyT (\<lambda>g. g\<lparr>ga_keys :=
     update_where (\<lambda>k. ak_id k = i) (\<lambda>k. k\<lparr>ak_last_used_at := Some (w_now (ga_world g))\<rparr>) (ga_keys g)\<rparr>)"

section \<open>Authentication\<close>

text \<open>The constant-time comparison compares bytes.\<close>

definition safeEqual :: "string \<Rightarrow> string \<Rightarrow> bool" where
  "safeEqual a b \<longleftrightarrow> a = b"

definition resolveCaller ::
    "(string \<Rightarrow> string) \<Rightarrow> string \<Rightarrow> gate \<Rightarrow> string option \<Rightarrow> (tenant_row \<times> string) option" where
  "resolveCaller hashApiKey authToken g authorization =
     (case authorization of
        None \<Rightarrow> None
      | Some header \<Rightarrow>
          if header = [] \<or> \<not> startsWith header ''Bearer '' then None
          else let token = drop (length ''Bearer '') header in
            if token = [] then None
            else if safeEqual token authToken then
              (case getTenant g ''default'' of
                 None \<Rightarrow> None
               | Some t \<Rightarrow> Some (t, ''operator-token:default''))
            else resolveApiKeyContext hashApiKey g token)"

section \<open>The hook\<close>

datatype gate_result =
    Public_path
  | Admitted string string                  \<comment> \<open>tenant and principal of the request\<close>
  | Refused int int                         \<comment> \<open>status and Retry-After\<close>

definition PUBLIC_PATHS :: "string list" where
  "PUBLIC_PATHS = [''/healthz'', ''/readyz'']"

definition url_path :: "string \<Rightarrow> string" where
  "url_path url = takeWhile (\<lambda>c. c \<noteq> CHR ''?'') url"

definition on_request ::
    "(string \<Rightarrow> string) \<Rightarrow> string \<Rightarrow> rate_config \<Rightarrow> rat \<Rightarrow> string \<Rightarrow> string option \<Rightarrow> gate \<Rightarrow> gate_result \<times> gate" where
  "on_request hashApiKey authToken cfg ms url authorization g =
     (if url_path url \<in> set PUBLIC_PATHS then (Public_path, g)
      else case resolveCaller hashApiKey authToken g authorization of
             None \<Rightarrow> (Refused 401 0, g)
           | Some (tenant, principalId) \<Rightarrow>
               if \<not> ten_active tenant then (Refused 403 0, g)
               else let (verdict, buckets) = rateLimiter cfg (ten_id tenant) ms (ga_buckets g) in
                 (if rv_ok verdict then Admitted (ten_id tenant) principalId
                  else Refused 429 (rv_retryAfterSec verdict),
                  g\<lparr>ga_buckets := buckets\<rparr>))"

section \<open>Who gets in\<close>

lemma resolveCaller_bearer:
  "resolveCaller hashApiKey authToken g (Some (''Bearer '' @ token)) =
     (if token = [] then None
      else if token = authToken then map_option (\<lambda>t. (t, ''operator-token:default'')) (getTenant g ''default'')
      else resolveApiKeyContext hashApiKey g token)"
  by (simp add: resolveCaller_def safeEqual_def startsWith_iff split: option.splits)

lemma resolveCaller_other:
  "(\<And>token. header \<noteq> Some (''Bearer '' @ token)) \<Longrightarrow> resolveCaller hashApiKey authToken g header = None"
  by (cases header) (simp_all add: resolveCaller_def startsWith_iff)

lemma in_key_tenants:
  "(t, k) \<in> set (key_tenants g hash) \<longleftrightarrow> k \<in> set (ga_keys g) \<and> t \<in> set (w_tenants (ga_world g))
     \<and> ten_id t = ak_tenant_id k \<and> ak_key_hash k = hash \<and> ak_active k \<and> ten_active t"
  by (auto simp: key_tenants_def)

lemma resolveApiKeyContext_Some:
  assumes "resolveApiKeyContext hashApiKey g token = Some (t, p)"
  obtains k where "(t, k) \<in> set (key_tenants g (hashApiKey token))" "p = ''api-key:'' @ ak_id k"
proof -
  from assms obtain k rest where "key_tenants g (hashApiKey token) = (t, k) # rest" "p = ''api-key:'' @ ak_id k"
    by (auto simp: resolveApiKeyContext_def split: list.splits)
  moreover from this have "(t, k) \<in> set (key_tenants g (hashApiKey token))" by simp
  ultimately show thesis using that by blast
qed

lemma admitted_caller:
  assumes "on_request hashApiKey authToken cfg ms url authorization g = (Admitted tenantId principalId, g')"
  shows "\<exists>token t. authorization = Some (''Bearer '' @ token) \<and> token \<noteq> []
     \<and> t \<in> set (w_tenants (ga_world g)) \<and> ten_id t = tenantId \<and> ten_active t
     \<and> (token = authToken \<and> tenantId = ''default'' \<and> principalId = ''operator-token:default''
        \<or> token \<noteq> authToken \<and> (\<exists>k \<in> set (ga_keys g). ak_active k \<and> ak_tenant_id k = tenantId
            \<and> ak_key_hash k = hashApiKey token \<and> principalId = ''api-key:'' @ ak_id k))
     \<and> rv_ok (fst (rateLimiter cfg tenantId ms (ga_buckets g)))
     \<and> g' = g\<lparr>ga_buckets := snd (rateLimiter cfg tenantId ms (ga_buckets g))\<rparr>"
proof -
  from assms obtain t where caller: "resolveCaller hashApiKey authToken g authorization = Some (t, principalId)"
    and t: "ten_active t" "ten_id t = tenantId"
    and rate: "rv_ok (fst (rateLimiter cfg tenantId ms (ga_buckets g)))"
      "g' = g\<lparr>ga_buckets := snd (rateLimiter cfg tenantId ms (ga_buckets g))\<rparr>"
    by (auto simp: on_request_def Let_def split: if_splits option.splits prod.splits)
  from caller obtain token where token: "authorization = Some (''Bearer '' @ token)" "token \<noteq> []"
    and who: "if token = authToken then getTenant g ''default'' = Some t \<and> principalId = ''operator-token:default''
       else resolveApiKeyContext hashApiKey g token = Some (t, principalId)"
    unfolding resolveCaller_def Let_def
    by (auto simp: safeEqual_def startsWith_iff split: option.splits if_splits)
  show ?thesis
  proof (cases "token = authToken")
    case True
    with who have "find_tenant (ga_world g) ''default'' = Some t" by (simp add: getTenant_def)
    then have "t \<in> set (w_tenants (ga_world g))" "ten_id t = ''default''"
      using find_SomeD unfolding find_tenant_def by fastforce+
    with token t rate True who show ?thesis by (intro exI [of _ token] exI [of _ t]) simp
  next
    case False
    with who obtain k where "(t, k) \<in> set (key_tenants g (hashApiKey token))" "principalId = ''api-key:'' @ ak_id k"
      using resolveApiKeyContext_Some by metis
    with False token t rate show ?thesis
      by (intro exI [of _ token] exI [of _ t]) (auto simp: in_key_tenants)
  qed
qed

text \<open>The path of a url is what stands before the first question mark.\<close>

lemma url_path_iff:
  "CHR ''?'' \<notin> set p \<Longrightarrow> url_path url = p \<longleftrightarrow> url = p \<or> (\<exists>query. url = p @ ''?'' @ query)"
proof
  assume p: "CHR ''?'' \<notin> set p" and "url_path url = p"
  then have url: "url = p @ dropWhile (\<lambda>c. c \<noteq> CHR ''?'') url"
    unfolding url_path_def by (metis takeWhile_dropWhile_id)
  show "url = p \<or> (\<exists>query. url = p @ ''?'' @ query)"
  proof (cases "dropWhile (\<lambda>c. c \<noteq> CHR ''?'') url")
    case Nil
    with url show ?thesis by simp
  next
    case (Cons c query)
    moreover from this have "c = CHR ''?''" using hd_dropWhile [of "\<lambda>c. c \<noteq> CHR ''?''" url] by simp
    ultimately show ?thesis using url by auto
  qed
next
  assume "CHR ''?'' \<notin> set p" and "url = p \<or> (\<exists>query. url = p @ ''?'' @ query)"
  then show "url_path url = p" by (auto simp: url_path_def takeWhile_append)
qed


lemma only_tenant:
  assumes "distinct (map ten_id ts)" and "find (\<lambda>t. ten_id t = tid) ts = Some t" and "ten_active t"
  shows "[t. t \<leftarrow> ts, ten_id t = tid \<and> ten_active t] = [t]"
  using assms
proof (induction ts)
  case (Cons u us)
  have "[t. t \<leftarrow> us, ten_id t = tid \<and> ten_active t] = []" if "ten_id u = tid"
    using Cons.prems(1) that by (auto simp: image_iff)
  with Cons show ?case by (auto split: if_splits)
qed simp

text \<open>
  C37: minting and presenting a key is a round trip. The plaintext that is returned once opens the
  gate for exactly the tenant it was minted for, under the id of the key, although only its hash is
  stored; and whatever else is presented is answered as before, unless its hash collides.
\<close>

theorem minted_key_resolves:
  assumes "createApiKey hashApiKey random tenantId name g = Inr ((i, plaintext), g')"
    and "find_tenant (ga_world g) tenantId = Some t" and "ten_active t"
    and "distinct (map ten_id (w_tenants (ga_world g)))" and "plaintext \<noteq> authToken"
  shows "resolveCaller hashApiKey authToken g' (Some (''Bearer '' @ plaintext)) = Some (t, ''api-key:'' @ i)
     \<and> (\<forall>header. (\<forall>token. header = Some (''Bearer '' @ token) \<longrightarrow> hashApiKey token \<noteq> hashApiKey plaintext) \<longrightarrow>
          resolveCaller hashApiKey authToken g' header = resolveCaller hashApiKey authToken g header)"
proof -
  define w where "w = (ga_world g)\<lparr>w_ulid_next := Suc (w_ulid_next (ga_world g))\<rparr>"
  have w: "w_tenants w = w_tenants (ga_world g)" by (simp add: w_def)
  from assms(1) have g': "g' = g\<lparr>ga_world := w, ga_keys := ga_keys g @ [\<lparr>ak_id = i, ak_tenant_id = tenantId,
        ak_key_hash = hashApiKey plaintext, ak_name = name, ak_active = True, ak_last_used_at = None\<rparr>]\<rparr>"
    and plain: "plaintext = ''mak_'' @ random"
    and fresh: "\<forall>k \<in> set (ga_keys g). ak_key_hash k \<noteq> hashApiKey plaintext"
    by (auto simp: createApiKey_def Let_def tx_simps gate_id_def newId_def exists_row_iff w_def)
  have only: "[t. t \<leftarrow> w_tenants (ga_world g), ten_id t = tenantId \<and> ten_active t] = [t]"
    using only_tenant [OF assms(4)] assms(2,3) by (simp add: find_tenant_def)
  have old: "key_tenants g (hashApiKey plaintext) = []"
    using fresh in_key_tenants [of _ _ g] by (metis list.set_intros(1) neq_Nil_conv surj_pair)
  have grown: "key_tenants g' h = key_tenants g h @ (if h = hashApiKey plaintext then map (\<lambda>t. (t, last (ga_keys g')))
      [t. t \<leftarrow> w_tenants (ga_world g), ten_id t = tenantId \<and> ten_active t] else [])" for h
    by (auto simp: key_tenants_def g' w map_concat comp_def intro!: arg_cong [where f = concat])
  have found: "resolveApiKeyContext hashApiKey g' plaintext = Some (t, ''api-key:'' @ i)"
    unfolding resolveApiKeyContext_def grown old only by (simp add: g')
  have same: "resolveApiKeyContext hashApiKey g' token = resolveApiKeyContext hashApiKey g token"
    if "hashApiKey token \<noteq> hashApiKey plaintext" for token
    using that unfolding resolveApiKeyContext_def grown by simp
  have tenants: "getTenant g' = getTenant g" by (simp add: getTenant_def find_tenant_def g' w fun_eq_iff)
  have "resolveCaller hashApiKey authToken g' (Some (''Bearer '' @ plaintext)) = Some (t, ''api-key:'' @ i)"
    unfolding resolveCaller_bearer using found assms(5) plain by simp
  moreover have "resolveCaller hashApiKey authToken g' header = resolveCaller hashApiKey authToken g header"
    if "\<forall>token. header = Some (''Bearer '' @ token) \<longrightarrow> hashApiKey token \<noteq> hashApiKey plaintext" for header
  proof (cases "\<exists>token. header = Some (''Bearer '' @ token)")
    case True
    then obtain token where "header = Some (''Bearer '' @ token)" by blast
    moreover from this that have "resolveApiKeyContext hashApiKey g' token = resolveApiKeyContext hashApiKey g token"
      by (intro same) blast
    ultimately show ?thesis using tenants by (simp only: resolveCaller_bearer)
  next
    case False
    then have "resolveCaller hashApiKey authToken x header = None" for x by (intro resolveCaller_other) blast
    then show ?thesis by simp
  qed
  ultimately show ?thesis by blast
qed

section \<open>An example\<close>

definition demo_gate :: gate where
  "demo_gate = \<lparr>ga_world = demo_base, ga_keys = [], ga_buckets = (\<lambda>_. None)\<rparr>"

definition demo_rate :: rate_config where
  "demo_rate = \<lparr>rl_perSec = 20, rl_burst = 40, rl_scope = Instance_scope\<rparr>"

lemma demo_key: "\<exists>g'. createApiKey (\<lambda>s. s) ''abc'' ''tnt_1'' None demo_gate = Inr ((''key_'', ''mak_abc''), g')"
  by (simp add: createApiKey_def demo_gate_def gate_id_def newId_def tx_eval Let_def find_tenant_def exists_row_def
      demo_base_def fresh_database_def demo_tenant_def toLowerCase_def)

lemma demo_gate_tenant: "find_tenant (ga_world demo_gate) ''tnt_1'' = Some demo_tenant"
  "distinct (map ten_id (w_tenants (ga_world demo_gate)))" "ten_active demo_tenant" "ten_id demo_tenant = ''tnt_1''"
  by (simp_all add: demo_gate_def demo_base_def fresh_database_def demo_tenant_def find_tenant_def)

theorem minted_key_resolves_witness:
  "\<exists>g'. createApiKey (\<lambda>s. s) ''abc'' ''tnt_1'' None demo_gate = Inr ((''key_'', ''mak_abc''), g')
     \<and> resolveCaller (\<lambda>s. s) ''operator'' g' (Some ''Bearer mak_abc'') = Some (demo_tenant, ''api-key:key_'')"
proof -
  obtain g' where g': "createApiKey (\<lambda>s. s) ''abc'' ''tnt_1'' None demo_gate = Inr ((''key_'', ''mak_abc''), g')"
    using demo_key by blast
  from minted_key_resolves [OF this demo_gate_tenant(1,3,2), of "''operator''"] g' show ?thesis by auto
qed


end
