(* ===== verification/Outbox.thy ===== *)
theory Outbox
  imports Kernel_Steps Demo
begin

text \<open>
  The outbox relay: \<^verbatim>\<open>src/store/outbox.ts\<close> and the loop of \<^verbatim>\<open>src/bin/relay.ts\<close>. A drain is a
  transaction that holds its rows locked while the publisher runs, so other relays and the kernel go
  on in between; what they do is a step relation, and the promise of the whole is a channel that
  delivers the ledger at least once.
\<close>

section \<open>A drain\<close>

text \<open>
  What is in flight: the relay process, the rows it has locked, \<^verbatim>\<open>now()\<close> of its transaction and
  whether the publisher has returned. The broker keeps what it was sent, in order.
\<close>

record flight =
  fl_relay :: nat
  fl_rows :: "outbox_row list"
  fl_now :: int
  fl_published :: bool

record relay_state =
  rs_world :: world
  rs_flights :: "flight list"
  rs_log :: "outbox_row list"

definition locked_ids :: "relay_state \<Rightarrow> nat list" where
  "locked_ids s = map ob_id (concat (map fl_rows (rs_flights s)))"

definition flight_of :: "nat \<Rightarrow> relay_state \<Rightarrow> flight option" where
  "flight_of p s = find (\<lambda>f. fl_relay f = p) (rs_flights s)"

definition leave :: "nat \<Rightarrow> relay_state \<Rightarrow> relay_state" where
  "leave p s = s\<lparr>rs_flights := filter (\<lambda>f. fl_relay f \<noteq> p) (rs_flights s)\<rparr>"

text \<open>\<^verbatim>\<open>SELECT .. ORDER BY id LIMIT .. FOR UPDATE SKIP LOCKED\<close>.\<close>

definition select_batch :: "nat list \<Rightarrow> nat \<Rightarrow> world \<Rightarrow> outbox_row list" where
  "select_batch locked limit w =
     take limit (filter (\<lambda>ob. ob_published_at ob = None \<and> ob_id ob \<notin> set locked)
       (sort_key ob_id (w_outbox w)))"

definition mark_published :: "nat list \<Rightarrow> int \<Rightarrow> world \<Rightarrow> world" where
  "mark_published ids now w =
     w\<lparr>w_outbox := update_where (\<lambda>ob. ob_id ob \<in> set ids) (\<lambda>ob. ob\<lparr>ob_published_at := Some now\<rparr>) (w_outbox w)\<rparr>"

text \<open>
  The phases of a drain. A publisher answers for a batch what reached the broker and, when it
  throws, the error; \<open>publish_batch\<close> leaves the transaction open on success and rolls it back on a
  throw.
\<close>

type_synonym publisher = "outbox_row list \<Rightarrow> outbox_row list \<times> err option"

definition open_batch :: "nat \<Rightarrow> nat \<Rightarrow> relay_state \<Rightarrow> relay_state" where
  "open_batch p limit s = s\<lparr>rs_flights :=
     \<lparr>fl_relay = p, fl_rows = select_batch (locked_ids s) limit (rs_world s), fl_now = w_now (rs_world s),
      fl_published = False\<rparr> # rs_flights s\<rparr>"

definition send :: "outbox_row list \<Rightarrow> relay_state \<Rightarrow> relay_state" where
  "send sent s = s\<lparr>rs_log := rs_log s @ sent\<rparr>"

definition publish_batch :: "nat \<Rightarrow> outbox_row list \<Rightarrow> err option \<Rightarrow> relay_state \<Rightarrow> relay_state" where
  "publish_batch p sent failure s =
     (case failure of
        Some e \<Rightarrow> leave p (send sent s)
      | None \<Rightarrow> (send sent s)\<lparr>rs_flights :=
          update_where (\<lambda>f. fl_relay f = p) (\<lambda>f. f\<lparr>fl_published := True\<rparr>) (rs_flights s)\<rparr>)"

definition commit_batch :: "nat \<Rightarrow> outbox_row list \<Rightarrow> int \<Rightarrow> relay_state \<Rightarrow> relay_state" where
  "commit_batch p rows now s =
     leave p (s\<lparr>rs_world := mark_published (map ob_id rows) now (rs_world s)\<rparr>)"

definition drainOutbox :: "nat \<Rightarrow> nat \<Rightarrow> publisher \<Rightarrow> relay_state \<Rightarrow> (err + nat) \<times> relay_state" where
  "drainOutbox p limit publish s =
     (let rows = select_batch (locked_ids s) limit (rs_world s) in
      if rows = [] then (Inr 0, s)
      else let (sent, failure) = publish rows;
               t = publish_batch p sent failure (open_batch p limit s)
           in case failure of
                Some e \<Rightarrow> (Inl e, t)
              | None \<Rightarrow> (Inr (length rows), commit_batch p rows (w_now (rs_world s)) t))"

text \<open>The loop of the relay: it drains again whether the last drain succeeded, failed or was empty.\<close>

fun relay_loop :: "nat \<Rightarrow> nat \<Rightarrow> publisher list \<Rightarrow> relay_state \<Rightarrow> relay_state" where
  "relay_loop p limit [] s = s"
| "relay_loop p limit (publish # answers) s = relay_loop p limit answers (snd (drainOutbox p limit publish s))"

section \<open>Relays and the kernel\<close>

text \<open>
  Any number of relays drain while the kernel writes. What a publisher promises is only that it
  sends rows of its batch and, when it returns, has sent all of them. A crash and a failing
  \<^verbatim>\<open>COMMIT\<close> lose the transaction at any point.
\<close>

definition sends :: "outbox_row list \<Rightarrow> outbox_row list \<times> err option \<Rightarrow> bool" where
  "sends rows answer \<longleftrightarrow> set (fst answer) \<subseteq> set rows \<and> (snd answer = None \<longrightarrow> set rows \<subseteq> set (fst answer))"

inductive relay_step :: "relay_state \<Rightarrow> relay_state \<Rightarrow> bool" where
  kernel: "kernel_step (rs_world s) w \<Longrightarrow> relay_step s (s\<lparr>rs_world := w\<rparr>)"
| select: "flight_of p s = None \<Longrightarrow> select_batch (locked_ids s) limit (rs_world s) \<noteq> [] \<Longrightarrow> relay_step s (open_batch p limit s)"
| publish: "flight_of p s = Some f \<Longrightarrow> \<not> fl_published f \<Longrightarrow> sends (fl_rows f) (sent, failure) \<Longrightarrow>
    relay_step s (publish_batch p sent failure s)"
| commit: "flight_of p s = Some f \<Longrightarrow> fl_published f \<Longrightarrow> relay_step s (commit_batch p (fl_rows f) (fl_now f) s)"
| crash: "relay_step s (leave p s)"

section \<open>The channel\<close>

text \<open>
  The promise: the ledger, which grows, the positions of it that were delivered, and those
  that are acknowledged and will not be sent again. Nothing is delivered that is not in the ledger and
  nothing is acknowledged that was not delivered.
\<close>

record channel =
  ch_ledger :: "event_row list"
  ch_delivered :: "nat set"
  ch_acked :: "nat set"

inductive channel_step :: "channel \<Rightarrow> channel \<Rightarrow> bool" where
  record_events: "channel_step c (c\<lparr>ch_ledger := ch_ledger c @ new\<rparr>)"
| deliver: "I \<subseteq> {..<length (ch_ledger c)} \<Longrightarrow> channel_step c (c\<lparr>ch_delivered := ch_delivered c \<union> I\<rparr>)"
| acknowledge: "I \<subseteq> ch_delivered c \<Longrightarrow> channel_step c (c\<lparr>ch_acked := ch_acked c \<union> I\<rparr>)"

definition channel_ok :: "channel \<Rightarrow> bool" where
  "channel_ok c \<longleftrightarrow> ch_acked c \<subseteq> ch_delivered c \<and> ch_delivered c \<subseteq> {..<length (ch_ledger c)}"

lemma channel_steps_ok: "channel_step\<^sup>*\<^sup>* c c' \<Longrightarrow> channel_ok c \<Longrightarrow> channel_ok c'"
proof (induction rule: rtranclp_induct)
  case (step c' c'')
  from step.hyps(2) step.IH [OF step.prems] show ?case
    by (cases rule: channel_step.cases) (auto simp: channel_ok_def)
qed simp

text \<open>The channel that a state of the relays implements: positions are those of the outbox.\<close>

definition positions :: "(outbox_row \<Rightarrow> bool) \<Rightarrow> outbox_row list \<Rightarrow> nat set" where
  "positions P obs = {i. i < length obs \<and> P (obs ! i)}"

definition channel_of :: "relay_state \<Rightarrow> channel" where
  "channel_of s =
     \<lparr>ch_ledger = w_events (rs_world s),
      ch_delivered = positions (\<lambda>ob. ob_id ob \<in> ob_id ` set (rs_log s)) (w_outbox (rs_world s)),
      ch_acked = positions (\<lambda>ob. ob_published_at ob \<noteq> None) (w_outbox (rs_world s))\<rparr>"

text \<open>
  A simulation: a step of the program from a good state is a step of the promise, and the good
  states are closed under the steps.
\<close>

locale simulation =
  fixes step :: "'s \<Rightarrow> 's \<Rightarrow> bool"
    and good :: "'s \<Rightarrow> bool"
    and abs_step :: "'a \<Rightarrow> 'a \<Rightarrow> bool"
    and abs_of :: "'s \<Rightarrow> 'a"
  assumes step_good: "good s \<Longrightarrow> step s s' \<Longrightarrow> good s'"
    and step_abs: "good s \<Longrightarrow> step s s' \<Longrightarrow> abs_step (abs_of s) (abs_of s')"
begin

lemma steps_good: "step\<^sup>*\<^sup>* s s' \<Longrightarrow> good s \<Longrightarrow> good s'"
  by (induction rule: rtranclp_induct) (auto intro: step_good)

lemma steps_abs: "step\<^sup>*\<^sup>* s s' \<Longrightarrow> good s \<Longrightarrow> abs_step\<^sup>*\<^sup>* (abs_of s) (abs_of s')"
proof (induction rule: rtranclp_induct)
  case (step s' s'')
  have "abs_step (abs_of s') (abs_of s'')"
    using step_abs [OF steps_good [OF step.hyps(1) step.prems] step.hyps(2)] .
  with step.IH [OF step.prems] show ?case by (rule rtranclp.rtrancl_into_rtrancl)
qed simp

end

section \<open>The invariant\<close>

definition same_message :: "outbox_row \<Rightarrow> outbox_row \<Rightarrow> bool" where
  "same_message a b \<longleftrightarrow> ob_id a = ob_id b \<and> ob_topic a = ob_topic b \<and> ob_key a = ob_key b \<and> ob_payload a = ob_payload b"

text \<open>
  The rows carry the numbers that they drew from the sequence, and a sequence gives no number twice.
  In which order the numbers become visible is left open.
\<close>

definition outbox_ok :: "world \<Rightarrow> bool" where
  "outbox_ok w \<longleftrightarrow> kernel_ok w \<and> ids_drawn w \<and> inj (w_outbox_seq w)"

definition flight_ok :: "relay_state \<Rightarrow> flight \<Rightarrow> bool" where
  "flight_ok s f \<longleftrightarrow> set (fl_rows f) \<subseteq> set (w_outbox (rs_world s))
     \<and> (\<forall>ob \<in> set (fl_rows f). ob_published_at ob = None)
     \<and> (fl_published f \<longrightarrow> ob_id ` set (fl_rows f) \<subseteq> ob_id ` set (rs_log s))"

definition flights_ok :: "relay_state \<Rightarrow> bool" where
  "flights_ok s \<longleftrightarrow> distinct (map fl_relay (rs_flights s)) \<and> distinct (locked_ids s)
     \<and> (\<forall>f \<in> set (rs_flights s). flight_ok s f)"

definition log_ok :: "relay_state \<Rightarrow> bool" where
  "log_ok s \<longleftrightarrow> (\<forall>ob \<in> set (rs_log s). \<exists>row \<in> set (w_outbox (rs_world s)). same_message ob row)
     \<and> (\<forall>row \<in> set (w_outbox (rs_world s)). ob_published_at row \<noteq> None \<longrightarrow> ob_id row \<in> ob_id ` set (rs_log s))"

definition relay_ok :: "relay_state \<Rightarrow> bool" where
  "relay_ok s \<longleftrightarrow> outbox_ok (rs_world s) \<and> flights_ok s \<and> log_ok s"


lemma selected:
  "set (select_batch locked limit w) \<subseteq> {ob \<in> set (w_outbox w). ob_published_at ob = None \<and> ob_id ob \<notin> set locked}"
  unfolding select_batch_def by (auto dest!: in_set_takeD)

lemma selected_distinct:
  assumes "distinct (map ob_id (w_outbox w))"
  shows "distinct (map ob_id (select_batch locked limit w))"
proof -
  have "distinct (map ob_id (sort_key ob_id (w_outbox w)))"
    using assms by (simp add: distinct_map)
  then show ?thesis
    unfolding select_batch_def by (simp add: take_map [symmetric] distinct_map_filter)
qed

lemma outbox_ok_distinct: "outbox_ok w \<Longrightarrow> distinct (map ob_id (w_outbox w))"
  by (simp add: outbox_ok_def ids_drawn_def distinct_map inj_on_def)

lemma mark_published_sel [simp]:
  "w_events (mark_published ids now w) = w_events w"
  "w_now (mark_published ids now w) = w_now w"
  "map ob_id (w_outbox (mark_published ids now w)) = map ob_id (w_outbox w)"
  "length (w_outbox (mark_published ids now w)) = length (w_outbox w)"
  "w_outbox_seq (mark_published ids now w) = w_outbox_seq w"
  by (simp_all add: mark_published_def table_simps)

lemma mark_published_ok: "outbox_ok w \<Longrightarrow> outbox_ok (mark_published ids now w)"
  unfolding outbox_ok_def ids_drawn_def mark_published_sel
  by (simp add: mark_published_def kernel_ok_def ledger_ok_def outbox_mirrors_def
    admission_ok_def session_ok_def sessions_fenced_def map_update_where)

lemma kernel_step_outbox:
  assumes "kernel_step w w'" and "outbox_ok w"
  obtains later new where "w_outbox w' = w_outbox w @ later" "\<forall>ob \<in> set later. ob_published_at ob = None"
    "w_events w' = w_events w @ new" "outbox_ok w'"
proof -
  have "kernel_from w w'"
    using assms kernel_step_from kernel_from_refl unfolding outbox_ok_def by blast
  then show thesis
    using assms(2) that unfolding kernel_from_def advances_def outbox_advances_def outbox_ok_def by (metis (no_types))
qed

lemma locked_ids_leave: "set (locked_ids (leave p s)) \<subseteq> set (locked_ids s)"
  by (auto simp: locked_ids_def leave_def)

lemma distinct_concat_filter: "distinct (concat (map g xs)) \<Longrightarrow> distinct (concat (map g (filter P xs)))"
  by (induction xs) auto

lemma leave_sel [simp]:
  "rs_world (leave p s) = rs_world s" "rs_log (leave p s) = rs_log s"
  by (simp_all add: leave_def)

lemma relay_ok_leave: "relay_ok s \<Longrightarrow> relay_ok (leave p s)"
  unfolding relay_ok_def flights_ok_def flight_ok_def log_ok_def
  by (auto simp: leave_def locked_ids_def distinct_map_filter map_concat comp_def intro!: distinct_concat_filter)

lemma flight_ofD: "flight_of p s = Some f \<Longrightarrow> f \<in> set (rs_flights s) \<and> fl_relay f = p"
  unfolding flight_of_def by (rule find_SomeD)


lemma relay_ok_kernel:
  assumes "relay_ok s" and "kernel_step (rs_world s) w"
  shows "relay_ok (s\<lparr>rs_world := w\<rparr>)"
proof -
  from assms have "outbox_ok (rs_world s)" by (simp add: relay_ok_def)
  with assms(2) obtain later new where w: "w_outbox w = w_outbox (rs_world s) @ later"
    "\<forall>ob \<in> set later. ob_published_at ob = None" "outbox_ok w"
    by (rule kernel_step_outbox)
  show ?thesis
    using assms(1) w unfolding relay_ok_def flights_ok_def flight_ok_def log_ok_def locked_ids_def by fastforce
qed

lemma relay_ok_open:
  assumes "relay_ok s" and "flight_of p s = None"
  shows "relay_ok (open_batch p limit s)"
proof -
  let ?rows = "select_batch (locked_ids s) limit (rs_world s)"
  have "distinct (map ob_id ?rows)" "set ?rows \<subseteq> set (w_outbox (rs_world s))"
    "\<forall>ob \<in> set ?rows. ob_published_at ob = None" "ob_id ` set ?rows \<inter> set (locked_ids s) = {}"
    using selected [of "locked_ids s" limit "rs_world s"] selected_distinct outbox_ok_distinct assms(1)
    unfolding relay_ok_def by blast+
  moreover have "p \<notin> fl_relay ` set (rs_flights s)"
    using assms(2) by (auto simp: flight_of_def find_None_iff_all)
  moreover have "locked_ids (open_batch p limit s) = map ob_id ?rows @ locked_ids s"
    by (simp add: locked_ids_def open_batch_def)
  ultimately show ?thesis
    using assms(1) unfolding relay_ok_def flights_ok_def flight_ok_def log_ok_def by (simp add: open_batch_def)
qed

lemma relay_ok_send:
  assumes "relay_ok s" and "flight_of p s = Some f" and "set sent \<subseteq> set (fl_rows f)"
  shows "relay_ok (send sent s)"
proof -
  from flight_ofD [OF assms(2)] have "f \<in> set (rs_flights s)" by simp
  with assms(1,3) have "\<forall>ob \<in> set sent. ob \<in> set (w_outbox (rs_world s))"
    unfolding relay_ok_def flights_ok_def flight_ok_def by blast
  with assms(1) show ?thesis
    unfolding relay_ok_def flights_ok_def flight_ok_def log_ok_def
    by (simp add: send_def locked_ids_def same_message_def image_Un ball_Un) blast
qed

lemma relay_ok_publish:
  assumes ok: "relay_ok s" and f: "flight_of p s = Some f" and sends: "sends (fl_rows f) (sent, failure)"
  shows "relay_ok (publish_batch p sent failure s)"
proof -
  have sent: "relay_ok (send sent s)"
    using relay_ok_send [OF ok f] sends by (simp add: sends_def)
  show ?thesis
  proof (cases failure)
    case (Some e)
    then show ?thesis using relay_ok_leave [OF sent] by (simp add: publish_batch_def)
  next
    case None
    have only: "g = f" if "g \<in> set (rs_flights s)" "fl_relay g = p" for g
      using that flight_ofD [OF f] ok unfolding relay_ok_def flights_ok_def distinct_map inj_on_def by blast
    have "map fl_relay (rs_flights (publish_batch p sent failure s)) = map fl_relay (rs_flights (send sent s))"
      "locked_ids (publish_batch p sent failure s) = locked_ids (send sent s)"
      using None by (simp_all add: publish_batch_def locked_ids_def send_def map_update_where)
    moreover have "flight_ok (publish_batch p sent failure s) g" if "g \<in> set (rs_flights (publish_batch p sent failure s))" for g
    proof -
      from that None obtain h where h: "h \<in> set (rs_flights s)" "g = (if fl_relay h = p then h\<lparr>fl_published := True\<rparr> else h)"
        by (auto simp: publish_batch_def elim!: in_update_whereE)
      then have "flight_ok (send sent s) h" using sent by (simp add: relay_ok_def flights_ok_def send_def)
      moreover have "fl_relay h = p \<Longrightarrow> h = f" using only h(1) by blast
      ultimately show ?thesis
        using h(2) None sends by (auto simp: flight_ok_def publish_batch_def send_def sends_def)
    qed
    ultimately show ?thesis
      using sent None unfolding relay_ok_def flights_ok_def log_ok_def
      by (simp add: publish_batch_def send_def)
  qed
qed

lemma other_flights:
  assumes "relay_ok s" and "flight_of p s = Some f" and "g \<in> set (rs_flights s)" and "fl_relay g \<noteq> p"
  shows "ob_id ` set (fl_rows f) \<inter> ob_id ` set (fl_rows g) = {}"
proof -
  from flight_ofD [OF assms(2)] obtain xs ys where split: "rs_flights s = xs @ f # ys"
    by (meson in_set_conv_decomp)
  have "g \<in> set xs \<union> set ys" using assms(3,4) flight_ofD [OF assms(2)] by (auto simp: split)
  moreover have "distinct (locked_ids s)" using assms(1) by (simp add: relay_ok_def flights_ok_def)
  then have "ob_id ` set (fl_rows f) \<inter> ob_id ` (\<Union>a \<in> set xs \<union> set ys. set (fl_rows a)) = {}"
    by (simp add: locked_ids_def split image_Un) blast
  ultimately show ?thesis by blast
qed

lemma log_ok_mark:
  assumes "log_ok s" and "set ids \<subseteq> ob_id ` set (rs_log s)" and "rs_log s' = rs_log s"
    and w: "w_outbox (rs_world s') = update_where (\<lambda>ob. ob_id ob \<in> set ids)
      (\<lambda>ob. ob\<lparr>ob_published_at := Some now\<rparr>) (w_outbox (rs_world s))"
  shows "log_ok s'"
  unfolding log_ok_def assms(3)
proof (intro conjI ballI)
  fix ob assume "ob \<in> set (rs_log s)"
  with assms(1) obtain row where "row \<in> set (w_outbox (rs_world s))" "same_message ob row"
    unfolding log_ok_def by blast
  then show "\<exists>row \<in> set (w_outbox (rs_world s')). same_message ob row"
    unfolding w by (intro bexI [OF _ in_update_whereI]) (auto simp: same_message_def)
next
  fix row assume "row \<in> set (w_outbox (rs_world s'))"
  then obtain old where "old \<in> set (w_outbox (rs_world s))"
    "row = (if ob_id old \<in> set ids then old\<lparr>ob_published_at := Some now\<rparr> else old)"
    unfolding w by (rule in_update_whereE)
  with assms(1,2) show "ob_published_at row \<noteq> None \<longrightarrow> ob_id row \<in> ob_id ` set (rs_log s)"
    unfolding log_ok_def by auto
qed

lemma relay_ok_commit:
  assumes ok: "relay_ok s" and f: "flight_of p s = Some f" and published: "fl_published f"
  shows "relay_ok (commit_batch p (fl_rows f) now s)"
proof -
  let ?ids = "ob_id ` set (fl_rows f)"
  have f_in: "f \<in> set (rs_flights s)" using flight_ofD [OF f] by simp
  with ok published have logged: "?ids \<subseteq> ob_id ` set (rs_log s)"
    unfolding relay_ok_def flights_ok_def flight_ok_def by blast
  have rows: "set (fl_rows g) \<subseteq> set (w_outbox (mark_published (map ob_id (fl_rows f)) now (rs_world s)))"
    if "g \<in> set (rs_flights s)" "fl_relay g \<noteq> p" for g
  proof
    fix ob assume ob: "ob \<in> set (fl_rows g)"
    with ok that(1) have "ob \<in> set (w_outbox (rs_world s))" unfolding relay_ok_def flights_ok_def flight_ok_def by blast
    moreover have "ob_id ob \<notin> ?ids" using other_flights [OF ok f that] ob by auto
    ultimately show "ob \<in> set (w_outbox (mark_published (map ob_id (fl_rows f)) now (rs_world s)))"
      by (auto simp: mark_published_def set_update_where image_iff)
  qed
  have left: "flights_ok (leave p s)" using relay_ok_leave [OF ok] by (simp add: relay_ok_def)
  show ?thesis
    unfolding relay_ok_def
  proof (intro conjI)
    show "outbox_ok (rs_world (commit_batch p (fl_rows f) now s))"
      using ok by (simp add: commit_batch_def relay_ok_def mark_published_ok)
    have "rs_flights (commit_batch p (fl_rows f) now s) = rs_flights (leave p s)"
      "locked_ids (commit_batch p (fl_rows f) now s) = locked_ids (leave p s)"
      by (simp_all add: commit_batch_def leave_def locked_ids_def)
    moreover have "flight_ok (commit_batch p (fl_rows f) now s) g" if "g \<in> set (rs_flights (leave p s))" for g
    proof -
      from that have "g \<in> set (rs_flights s)" "fl_relay g \<noteq> p" by (simp_all add: leave_def)
      moreover from this(1) have "flight_ok s g" using ok by (simp add: relay_ok_def flights_ok_def)
      ultimately show ?thesis using rows by (simp add: flight_ok_def commit_batch_def)
    qed
    ultimately show "flights_ok (commit_batch p (fl_rows f) now s)"
      using left unfolding flights_ok_def by (metis (no_types))
    show "log_ok (commit_batch p (fl_rows f) now s)"
    proof (rule log_ok_mark [where ids = "map ob_id (fl_rows f)" and now = now])
      show "log_ok s" using ok by (simp add: relay_ok_def)
      show "set (map ob_id (fl_rows f)) \<subseteq> ob_id ` set (rs_log s)" using logged by simp
    qed (simp_all add: commit_batch_def mark_published_def)
  qed
qed

lemma relay_step_ok:
  assumes "relay_ok s" and "relay_step s s'"
  shows "relay_ok s'"
  using assms(2,1)
proof cases
  case (kernel w)
  then show ?thesis using relay_ok_kernel assms(1) by blast
next
  case (select p limit)
  then show ?thesis using relay_ok_open assms(1) by blast
next
  case (publish p f sent failure)
  then show ?thesis using relay_ok_publish assms(1) by blast
next
  case (commit p f)
  then show ?thesis using relay_ok_commit assms(1) by blast
next
  case (crash p)
  then show ?thesis using relay_ok_leave assms(1) by blast
qed


section \<open>The relays implement the channel\<close>

lemma positions_append:
  "positions P (obs @ later) = positions P obs \<union> (\<lambda>i. length obs + i) ` positions P later"
proof -
  have "i \<in> positions P (obs @ later) \<longleftrightarrow> i \<in> positions P obs \<union> (\<lambda>i. length obs + i) ` positions P later" for i
  proof (cases "i < length obs")
    case True
    then show ?thesis by (auto simp: positions_def nth_append)
  next
    case False
    then obtain j where "i = length obs + j" by (metis le_add_diff_inverse not_less)
    then show ?thesis by (auto simp: positions_def nth_append)
  qed
  then show ?thesis by blast
qed

lemma positions_none: "(\<And>ob. ob \<in> set obs \<Longrightarrow> \<not> P ob) \<Longrightarrow> positions P obs = {}"
  by (auto simp: positions_def)

lemma positions_Un: "positions (\<lambda>ob. P ob \<or> Q ob) obs = positions P obs \<union> positions Q obs"
  by (auto simp: positions_def)

lemma positions_update_where:
  "(\<And>ob. P ob \<Longrightarrow> Q (f ob)) \<Longrightarrow> positions Q (update_where P f obs) = positions P obs \<union> positions Q obs"
  by (auto simp: positions_def update_where_def split: if_splits)

lemma positions_cong_ids: "map ob_id obs = map ob_id obs' \<Longrightarrow> positions (\<lambda>ob. ob_id ob \<in> A) obs = positions (\<lambda>ob. ob_id ob \<in> A) obs'"
  unfolding positions_def by (metis (mono_tags, lifting) length_map nth_map)

lemma outbox_length: "outbox_ok w \<Longrightarrow> length (w_outbox w) = length (w_events w)"
  unfolding outbox_ok_def kernel_ok_def ledger_ok_def outbox_mirrors_def
  by (elim conjE) (drule map_eq_imp_length_eq, assumption)

lemma relay_ok_log_ids: "relay_ok s \<Longrightarrow> ob_id ` set (rs_log s) \<subseteq> ob_id ` set (w_outbox (rs_world s))"
  by (fastforce simp: relay_ok_def log_ok_def same_message_def)

lemma channel_idle: "c' = c \<Longrightarrow> channel_step c c'"
  using channel_step.record_events [of c "[]"] by simp

lemma channel_of_cong:
  "rs_world s' = rs_world s \<Longrightarrow> rs_log s' = rs_log s \<Longrightarrow> channel_of s' = channel_of s"
  by (simp add: channel_of_def)

lemma channel_send:
  assumes "relay_ok s"
  shows "channel_step (channel_of s) (channel_of (send sent s))"
proof -
  let ?I = "positions (\<lambda>ob. ob_id ob \<in> ob_id ` set sent) (w_outbox (rs_world s))"
  have "?I \<subseteq> {..<length (ch_ledger (channel_of s))}"
    using assms outbox_length [of "rs_world s"] by (auto simp: positions_def channel_of_def relay_ok_def)
  moreover have "channel_of (send sent s) = (channel_of s)\<lparr>ch_delivered := ch_delivered (channel_of s) \<union> ?I\<rparr>"
    by (simp add: channel_of_def send_def image_Un positions_Un)
  ultimately show ?thesis using channel_step.deliver by metis
qed

lemma channel_commit:
  assumes "relay_ok s" and "flight_of p s = Some f" and "fl_published f"
  shows "channel_step (channel_of s) (channel_of (commit_batch p (fl_rows f) now s))"
proof -
  let ?ids = "ob_id ` set (fl_rows f)"
  let ?I = "positions (\<lambda>ob. ob_id ob \<in> ?ids) (w_outbox (rs_world s))"
  have "flight_ok s f" using assms(1) flight_ofD [OF assms(2)] by (simp add: relay_ok_def flights_ok_def)
  then have "?I \<subseteq> ch_delivered (channel_of s)"
    using assms(3) by (auto simp: flight_ok_def channel_of_def positions_def)
  moreover have "channel_of (commit_batch p (fl_rows f) now s) = (channel_of s)\<lparr>ch_acked := ch_acked (channel_of s) \<union> ?I\<rparr>"
  proof -
    have "positions (\<lambda>ob. ob_id ob \<in> A) (w_outbox (mark_published ids now (rs_world s))) =
        positions (\<lambda>ob. ob_id ob \<in> A) (w_outbox (rs_world s))" for A ids
      by (rule positions_cong_ids) simp
    moreover have "positions (\<lambda>ob. ob_published_at ob \<noteq> None) (w_outbox (mark_published ids now (rs_world s))) =
        positions (\<lambda>ob. ob_id ob \<in> set ids) (w_outbox (rs_world s))
        \<union> positions (\<lambda>ob. ob_published_at ob \<noteq> None) (w_outbox (rs_world s))" for ids
      unfolding mark_published_def by simp (rule positions_update_where, simp)
    ultimately show ?thesis by (simp add: channel_of_def commit_batch_def Un_commute)
  qed
  ultimately show ?thesis using channel_step.acknowledge by metis
qed

lemma channel_kernel:
  assumes "relay_ok s" and "kernel_step (rs_world s) w"
  shows "channel_step (channel_of s) (channel_of (s\<lparr>rs_world := w\<rparr>))"
proof -
  have ok: "outbox_ok (rs_world s)" using assms(1) by (simp add: relay_ok_def)
  obtain later new where w: "w_outbox w = w_outbox (rs_world s) @ later"
    "\<forall>ob \<in> set later. ob_published_at ob = None" "w_events w = w_events (rs_world s) @ new" "outbox_ok w"
    using kernel_step_outbox [OF assms(2) ok] .
  have "ob_id ` set later \<inter> ob_id ` set (w_outbox (rs_world s)) = {}"
    using outbox_ok_distinct [OF w(4)] by (auto simp: w(1))
  then have "positions (\<lambda>ob. ob_id ob \<in> ob_id ` set (rs_log s)) later = {}"
    using relay_ok_log_ids [OF assms(1)] by (intro positions_none) blast
  moreover have "positions (\<lambda>ob. ob_published_at ob \<noteq> None) later = {}" using w(2) by (intro positions_none) simp
  ultimately have "channel_of (s\<lparr>rs_world := w\<rparr>) = (channel_of s)\<lparr>ch_ledger := ch_ledger (channel_of s) @ new\<rparr>"
    by (simp add: channel_of_def w positions_append)
  then show ?thesis using channel_step.record_events by metis
qed

lemma relay_step_channel:
  assumes "relay_ok s" and "relay_step s s'"
  shows "channel_step (channel_of s) (channel_of s')"
  using assms(2)
proof cases
  case (kernel w)
  then show ?thesis using channel_kernel assms(1) by blast
next
  case (select p limit)
  then show ?thesis by (intro channel_idle channel_of_cong) (simp_all add: open_batch_def)
next
  case (publish p f sent failure)
  have "channel_of s' = channel_of (send sent s)"
    unfolding publish(1) by (rule channel_of_cong) (simp_all add: publish_batch_def send_def split: option.split)
  then show ?thesis using channel_send [OF assms(1)] by simp
next
  case (commit p f)
  then show ?thesis using channel_commit assms(1) by blast
next
  case (crash p)
  then show ?thesis by (intro channel_idle channel_of_cong) simp_all
qed

interpretation relays: simulation relay_step relay_ok channel_step channel_of
  by unfold_locales (fact relay_step_ok relay_step_channel)+

lemma channel_of_ok: "relay_ok s \<Longrightarrow> channel_ok (channel_of s)"
  using outbox_length [of "rs_world s"]
  by (auto simp: channel_ok_def channel_of_def positions_def relay_ok_def log_ok_def)

definition event_message :: "event_row \<Rightarrow> string \<times> string \<times> (string \<times> json) list" where
  "event_message e = (''run_events'', ev_run_id e, outbox_payload (ev_run_id e) (ev_seq e) (ev_type e) (ev_payload e))"

lemma log_message:
  assumes ok: "relay_ok s" and ob: "ob \<in> set (rs_log s)"
  shows "\<exists>i \<in> ch_delivered (channel_of s).
    (ob_topic ob, ob_key ob, ob_payload ob) = event_message (ch_ledger (channel_of s) ! i)"
proof -
  let ?w = "rs_world s"
  obtain row where row: "row \<in> set (w_outbox ?w)" "same_message ob row"
    using ok ob by (auto simp: relay_ok_def log_ok_def)
  then obtain i where i: "i < length (w_outbox ?w)" "w_outbox ?w ! i = row" by (auto simp: in_set_conv_nth)
  have mirrors: "map (\<lambda>ob. (ob_topic ob, ob_key ob, ob_payload ob)) (w_outbox ?w) = map event_message (w_events ?w)"
    using ok by (simp add: relay_ok_def outbox_ok_def kernel_ok_def ledger_ok_def outbox_mirrors_def event_message_def)
  have "(ob_topic ob, ob_key ob, ob_payload ob) = map (\<lambda>ob. (ob_topic ob, ob_key ob, ob_payload ob)) (w_outbox ?w) ! i"
    using i row(2) by (simp add: same_message_def)
  also have "\<dots> = event_message (w_events ?w ! i)"
    using i outbox_length [of ?w] ok by (simp add: mirrors relay_ok_def)
  finally have "(ob_topic ob, ob_key ob, ob_payload ob) = event_message (ch_ledger (channel_of s) ! i)"
    by (simp add: channel_of_def)
  moreover have "ob_id row \<in> ob_id ` set (rs_log s)" using row(2) ob by (metis imageI same_message_def)
  then have "i \<in> ch_delivered (channel_of s)" using i by (simp add: channel_of_def positions_def)
  ultimately show ?thesis by blast
qed

text \<open>
  C38: whatever the kernel writes and however many relays drain, fail and crash in between, together they
  implement a channel that delivers the ledger at least once: the states they go through are
  those of the channel, so an event that is acknowledged was delivered, and what the broker holds is
  the message of an event of the ledger that counts as delivered.
\<close>

theorem relays_implement_channel:
  assumes "relay_step\<^sup>*\<^sup>* s s'" and "relay_ok s"
  shows "channel_step\<^sup>*\<^sup>* (channel_of s) (channel_of s') \<and> channel_ok (channel_of s')
     \<and> (\<forall>ob \<in> set (rs_log s'). \<exists>i \<in> ch_delivered (channel_of s').
          (ob_topic ob, ob_key ob, ob_payload ob) = event_message (ch_ledger (channel_of s') ! i))"
  using relays.steps_abs [OF assms] channel_of_ok log_message relays.steps_good [OF assms] by blast

section \<open>A relay on its own\<close>

definition pending :: "world \<Rightarrow> outbox_row list" where
  "pending w = filter (\<lambda>ob. ob_published_at ob = None) (sort_key ob_id (w_outbox w))"

lemma select_pending: "select_batch [] limit w = take limit (pending w)"
  by (simp add: select_batch_def pending_def)

lemma sort_key_map: "(\<And>x. f (g x) = f x) \<Longrightarrow> sort_key f (map g xs) = map g (sort_key f xs)"
proof (induction xs)
  case (Cons x xs)
  have "insort_key f (g y) (map g ys) = map g (insort_key f y ys)" for y ys
    by (induction ys) (simp_all add: Cons.prems)
  with Cons show ?case by simp
qed simp

lemma drop_by_ids:
  "distinct (map f xs) \<Longrightarrow> filter (\<lambda>x. f x \<notin> f ` set (take n xs)) xs = drop n xs"
proof (induction xs arbitrary: n)
  case (Cons x xs)
  show ?case
  proof (cases n)
    case (Suc m)
    have "f x \<notin> f ` set xs" using Cons.prems by simp
    then have "filter (\<lambda>y. f y \<noteq> f x \<and> f y \<notin> f ` set (take m xs)) xs = filter (\<lambda>y. f y \<notin> f ` set (take m xs)) xs"
      by (intro filter_cong) (auto simp: image_iff)
    with Cons Suc show ?thesis by simp
  qed simp
qed simp

lemma pending_mark:
  assumes "distinct (map ob_id (w_outbox w))"
  shows "pending (mark_published (map ob_id (take n (pending w))) now w) = drop n (pending w)"
proof -
  let ?ids = "ob_id ` set (take n (pending w))"
  have "filter (\<lambda>ob. ob_published_at ob = None) (update_where (\<lambda>ob. ob_id ob \<in> ?ids) (\<lambda>ob. ob\<lparr>ob_published_at := Some now\<rparr>) obs) =
      filter (\<lambda>ob. ob_id ob \<notin> ?ids) (filter (\<lambda>ob. ob_published_at ob = None) obs)" for obs
    by (induction obs) (simp_all add: update_where_def)
  moreover have "sort_key ob_id (update_where (\<lambda>ob. ob_id ob \<in> ?ids) (\<lambda>ob. ob\<lparr>ob_published_at := Some now\<rparr>) (w_outbox w)) =
      update_where (\<lambda>ob. ob_id ob \<in> ?ids) (\<lambda>ob. ob\<lparr>ob_published_at := Some now\<rparr>) (sort_key ob_id (w_outbox w))"
    unfolding update_where_def by (rule sort_key_map) simp
  ultimately have "pending (mark_published (map ob_id (take n (pending w))) now w) = filter (\<lambda>ob. ob_id ob \<notin> ?ids) (pending w)"
    by (simp add: pending_def mark_published_def)
  also have "\<dots> = drop n (pending w)"
    using assms by (intro drop_by_ids) (auto simp: pending_def distinct_map intro: inj_on_subset)
  finally show ?thesis .
qed

lemma drain_lone:
  assumes "rs_flights s = []" and "outbox_ok (rs_world s)"
  shows "drainOutbox p limit publish s =
     (let rows = take limit (pending (rs_world s)) in
      if rows = [] then (Inr 0, s)
      else case snd (publish rows) of
             Some e \<Rightarrow> (Inl e, send (fst (publish rows)) s)
           | None \<Rightarrow> (Inr (length rows), (send (fst (publish rows)) s)
                \<lparr>rs_world := mark_published (map ob_id rows) (w_now (rs_world s)) (rs_world s)\<rparr>))"
  using assms
  by (cases s) (auto simp: drainOutbox_def locked_ids_def select_pending Let_def publish_batch_def open_batch_def
      commit_batch_def leave_def send_def table_simps split: prod.split option.split)

lemma drainOutbox_steps:
  assumes idle: "flight_of p s = None" and sends: "\<And>rows. sends rows (publish rows)"
  shows "relay_step\<^sup>*\<^sup>* s (snd (drainOutbox p limit publish s))"
proof (cases "select_batch (locked_ids s) limit (rs_world s) = []")
  case True
  then show ?thesis by (simp add: drainOutbox_def)
next
  case False
  let ?rows = "select_batch (locked_ids s) limit (rs_world s)"
  obtain sent failure where answer: "publish ?rows = (sent, failure)" by fastforce
  let ?f = "\<lparr>fl_relay = p, fl_rows = ?rows, fl_now = w_now (rs_world s), fl_published = False\<rparr>"
  let ?s1 = "open_batch p limit s" and ?s2 = "publish_batch p sent failure (open_batch p limit s)"
  have f: "flight_of p ?s1 = Some ?f" by (simp add: flight_of_def open_batch_def)
  have "relay_step s ?s1" using idle False by (rule relay_step.select)
  moreover have "relay_step ?s1 ?s2"
    using f sends [of ?rows] answer by (intro relay_step.publish [of p _ ?f]) simp_all
  moreover have "relay_step ?s2 (commit_batch p ?rows (w_now (rs_world s)) ?s2)" if "failure = None"
  proof -
    have "flight_of p ?s2 = Some (?f\<lparr>fl_published := True\<rparr>)"
      using that by (simp add: flight_of_def open_batch_def publish_batch_def table_simps)
    from relay_step.commit [OF this] show ?thesis by simp
  qed
  ultimately show ?thesis
    using False answer by (cases failure) (auto simp: drainOutbox_def Let_def intro: rtranclp.rtrancl_into_rtrancl)
qed


lemma flights_after_drain: "rs_flights s = [] \<Longrightarrow> outbox_ok (rs_world s) \<Longrightarrow> rs_flights (snd (drainOutbox p limit publish s)) = []"
  by (simp add: drain_lone Let_def send_def split: option.split)

lemma pending_after_drain:
  assumes "rs_flights s = []" and "outbox_ok (rs_world s)"
  shows "pending (rs_world (snd (drainOutbox p limit publish s))) =
    (if snd (publish (take limit (pending (rs_world s)))) = None then drop limit (pending (rs_world s))
     else pending (rs_world s))"
  using pending_mark [OF outbox_ok_distinct [OF assms(2)]]
  by (simp add: drain_lone [OF assms] Let_def send_def split: option.split)

lemma events_after_drain: 
  "rs_flights s = [] \<Longrightarrow> outbox_ok (rs_world s) \<Longrightarrow>
   w_events (rs_world (snd (drainOutbox p limit publish s))) = w_events (rs_world s)"
  by (simp add: drain_lone Let_def send_def split: option.split)

lemma all_acked:
  assumes "relay_ok s" and "pending (rs_world s) = []"
  shows "ch_acked (channel_of s) = {..<length (ch_ledger (channel_of s))}"
proof -
  have "ch_acked (channel_of s) = {..<length (w_outbox (rs_world s))}"
    using assms(2) by (auto simp: channel_of_def positions_def pending_def filter_empty_conv)
  then show ?thesis
    using outbox_length [of "rs_world s"] assms(1) by (simp add: channel_of_def relay_ok_def)
qed

lemma relay_loop_lone:
  assumes "relay_ok s" and "rs_flights s = []" and "\<forall>publish \<in> set answers. \<forall>rows. sends rows (publish rows)"
    and "length (pending (rs_world s)) \<le> limit * row_count (\<lambda>publish. \<forall>rows. snd (publish rows) = None) answers"
  shows "relay_step\<^sup>*\<^sup>* s (relay_loop p limit answers s) \<and> pending (rs_world (relay_loop p limit answers s)) = []
     \<and> w_events (rs_world (relay_loop p limit answers s)) = w_events (rs_world s)"
  using assms
proof (induction answers arbitrary: s)
  case Nil
  then show ?case by (simp add: row_count_def)
next
  case (Cons publish answers)
  let ?t = "snd (drainOutbox p limit publish s)"
  have ok: "outbox_ok (rs_world s)" using Cons.prems(1) by (simp add: relay_ok_def)
  have step: "relay_step\<^sup>*\<^sup>* s ?t"
    using Cons.prems(2,3) by (intro drainOutbox_steps) (simp_all add: flight_of_def)
  have "length (pending (rs_world ?t)) \<le> limit * row_count (\<lambda>publish. \<forall>rows. snd (publish rows) = None) answers"
    using Cons.prems(4)
    by (cases "\<forall>rows. snd (publish rows) = None")
      (simp_all add: pending_after_drain [OF Cons.prems(2) ok] row_count_def le_diff_conv trans_le_add1)
  with Cons.IH [of ?t] relays.steps_good [OF step Cons.prems(1)] flights_after_drain [OF Cons.prems(2) ok] Cons.prems(3)
  have "relay_step\<^sup>*\<^sup>* ?t (relay_loop p limit answers ?t) \<and> pending (rs_world (relay_loop p limit answers ?t)) = []
     \<and> w_events (rs_world (relay_loop p limit answers ?t)) = w_events (rs_world ?t)"
    by simp
  with step events_after_drain [OF Cons.prems(2) ok] show ?case by (auto intro: rtranclp_trans)
qed

text \<open>
  C39: a relay catches up. Whatever drains fail in between, once as many have succeeded as the rows
  that wait fill batches, every event of the ledger is delivered and acknowledged, and the ledger is as
  it was.
\<close>

theorem relay_catches_up:
  assumes "relay_ok s" and "rs_flights s = []" and "\<forall>publish \<in> set answers. \<forall>rows. sends rows (publish rows)"
    and "length (pending (rs_world s)) \<le> limit * row_count (\<lambda>publish. \<forall>rows. snd (publish rows) = None) answers"
  shows "let c = channel_of (relay_loop p limit answers s) in
     ch_ledger c = w_events (rs_world s)
     \<and> ch_acked c = {..<length (ch_ledger c)} \<and> ch_delivered c = {..<length (ch_ledger c)}"
proof -
  let ?t = "relay_loop p limit answers s"
  from relay_loop_lone [OF assms, of p] have steps: "relay_step\<^sup>*\<^sup>* s ?t" and empty: "pending (rs_world ?t) = []"
    and same: "w_events (rs_world ?t) = w_events (rs_world s)" by blast+
  have ok: "relay_ok ?t" using relays.steps_good [OF steps assms(1)] .
  have "ch_acked (channel_of ?t) = {..<length (ch_ledger (channel_of ?t))}" using all_acked [OF ok empty] .
  moreover have "channel_ok (channel_of ?t)" using channel_of_ok [OF ok] .
  ultimately show ?thesis using same by (auto simp: Let_def channel_ok_def channel_of_def)
qed


section \<open>The order of delivery\<close>

text \<open>
  A publisher that sends its batch in order, and a single relay between the writes of the kernel.
  The numbers of different runs become visible in any order. Those of one run do so in theirs:
  whoever writes an event of a run holds the lock of its row from before the number is drawn until
  the commit. \<open>first_deliveries\<close> is the log without the repetitions.
\<close>

definition in_order :: "publisher \<Rightarrow> bool" where
  "in_order publish \<longleftrightarrow> (\<forall>rows. (\<exists>rest. rows = fst (publish rows) @ rest)
     \<and> (snd (publish rows) = None \<longrightarrow> fst (publish rows) = rows))"

definition of_run :: "string \<Rightarrow> outbox_row list \<Rightarrow> outbox_row list" where
  "of_run rid = filter (\<lambda>ob. ob_key ob = rid)"

definition run_ordered :: "world \<Rightarrow> bool" where
  "run_ordered w \<longleftrightarrow> (\<forall>rid. sorted_wrt (<) (map ob_id (of_run rid (w_outbox w))))"

inductive lone_step :: "relay_state \<Rightarrow> relay_state \<Rightarrow> bool" where
  kernel: "kernel_step (rs_world s) w \<Longrightarrow> run_ordered w \<Longrightarrow> lone_step s (s\<lparr>rs_world := w\<rparr>)"
| drain: "in_order publish \<Longrightarrow> lone_step s (snd (drainOutbox p limit publish s))"

definition first_deliveries :: "outbox_row list \<Rightarrow> outbox_row list" where
  "first_deliveries sent = rev (remdups (rev sent))"

definition unpublished :: "outbox_row \<Rightarrow> outbox_row" where
  "unpublished ob = ob\<lparr>ob_published_at := None\<rparr>"

text \<open>
  For each run there are two places in its part of the outbox: up to the first its rows are marked,
  up to the second they have been delivered.
\<close>

definition delivered_up_to :: "string \<Rightarrow> relay_state \<Rightarrow> bool" where
  "delivered_up_to rid s \<longleftrightarrow>
     (\<exists>m k rows. rows = map unpublished (of_run rid (w_outbox (rs_world s))) \<and> m \<le> k \<and> k \<le> length rows
          \<and> of_run rid (pending (rs_world s)) = drop m rows
          \<and> first_deliveries (of_run rid (rs_log s)) = take k rows)"

definition delivered_in_order :: "relay_state \<Rightarrow> bool" where
  "delivered_in_order s \<longleftrightarrow> relay_ok s \<and> rs_flights s = [] \<and> run_ordered (rs_world s)
     \<and> (\<forall>rid. delivered_up_to rid s)"

lemma in_order_sends: "in_order publish \<Longrightarrow> sends rows (publish rows)"
  unfolding in_order_def sends_def by (metis order_refl set_append Un_upper1)

lemma of_run_append [simp]: "of_run rid (xs @ ys) = of_run rid xs @ of_run rid ys"
  by (simp add: of_run_def)

lemma of_run_take: "\<exists>i. of_run rid (take n xs) = take i (of_run rid xs) \<and> of_run rid (drop n xs) = drop i (of_run rid xs)"
proof (intro exI conjI)
  let ?i = "length (of_run rid (take n xs))"
  have "of_run rid xs = of_run rid (take n xs) @ of_run rid (drop n xs)"
    using of_run_append [of rid "take n xs" "drop n xs"] by simp
  then show "of_run rid (take n xs) = take ?i (of_run rid xs)" "of_run rid (drop n xs) = drop ?i (of_run rid xs)"
    by simp_all
qed

lemma first_deliveries_append:
  "distinct new \<Longrightarrow> first_deliveries (sent @ new) = first_deliveries sent @ filter (\<lambda>ob. ob \<notin> set sent) new"
proof (induction new rule: rev_induct)
  case (snoc ob new)
  then show ?case by (simp add: first_deliveries_def)
qed (simp add: first_deliveries_def)

lemma set_first_deliveries [simp]: "set (first_deliveries sent) = set sent"
  by (simp add: first_deliveries_def)

lemma unpublished_mark: "of_run rid (w_outbox (mark_published ids now w)) =
    map (\<lambda>ob. if ob_id ob \<in> set ids then ob\<lparr>ob_published_at := Some now\<rparr> else ob) (of_run rid (w_outbox w))"
  unfolding of_run_def mark_published_def update_where_def
  by (simp add: filter_map comp_def if_distrib cong: if_cong)

text \<open>The rows of a run are waiting in the order of the ledger, whatever the numbers of other runs.\<close>

lemma pending_of_run:
  assumes "run_ordered w"
  shows "of_run rid (pending w) = filter (\<lambda>ob. ob_published_at ob = None) (of_run rid (w_outbox w))"
proof -
  have "sorted (map ob_id (of_run rid (w_outbox w)))" using assms by (simp add: run_ordered_def strict_sorted_iff)
  then have "filter (\<lambda>ob. ob_key ob = rid) (sort_key ob_id (w_outbox w)) = of_run rid (w_outbox w)"
    unfolding of_run_def by (simp add: filter_sort sort_key_id_if_sorted)
  moreover have "of_run rid (pending w) =
      filter (\<lambda>ob. ob_published_at ob = None) (filter (\<lambda>ob. ob_key ob = rid) (sort_key ob_id (w_outbox w)))"
    by (simp add: of_run_def pending_def conj_commute)
  ultimately show ?thesis by simp
qed

lemma run_ordered_mark: "run_ordered w \<Longrightarrow> run_ordered (mark_published ids now w)"
  unfolding run_ordered_def unpublished_mark by (simp add: comp_def if_distrib cong: if_cong)

lemma not_among_first:
  assumes "distinct xs" and "k \<le> length xs" and "m \<le> k"
  shows "filter (\<lambda>x. x \<notin> set (take k xs)) (take j (drop m xs)) = drop k (take (m + j) xs)"
proof -
  have "take j (drop m xs) = drop m (take (m + j) xs)" by (simp add: take_drop add.commute)
  also have "filter (\<lambda>x. x \<notin> set (take k xs)) \<dots> = drop k (take (m + j) xs)"
  proof (cases "k \<le> m + j")
    case True
    have "drop m (take (m + j) xs) = drop m (take k xs) @ drop k (take (m + j) xs)"
    proof -
      have "take (m + j) xs = take k (take (m + j) xs) @ drop k (take (m + j) xs)"
        by (rule append_take_drop_id [symmetric])
      also have "take k (take (m + j) xs) = take k xs" using True by (simp add: min_absorb1)
      finally show ?thesis using assms(2,3) by (metis drop_append diff_is_0_eq drop0 length_take min.absorb2)
    qed
    moreover have "\<forall>x \<in> set (drop k (take (m + j) xs)). x \<notin> set (take k xs)"
      using assms(1) by (metis disjoint_iff set_take_disj_set_drop_if_distinct order_refl in_set_takeD drop_take)
    moreover have "\<forall>x \<in> set (drop m (take k xs)). x \<in> set (take k xs)" by (meson in_set_dropD)
    ultimately show ?thesis by (simp add: filter_empty_conv)
  next
    case False
    then have "set (take (m + j) xs) \<subseteq> set (take k xs)" by (simp add: set_take_subset_set_take)
    then have "\<forall>x \<in> set (drop m (take (m + j) xs)). x \<in> set (take k xs)" by (meson in_set_dropD subsetD)
    moreover have "drop k (take (m + j) xs) = []" using False by simp
    ultimately show ?thesis by (simp add: filter_empty_conv)
  qed
  finally show ?thesis .
qed

text \<open>One batch, seen from one run: its rows are sent again from the mark on, and the place of delivery moves on.\<close>

lemma delivered_further:
  assumes "distinct rows" and "k \<le> length rows" and "m \<le> k"
    and "first_deliveries old = take k rows" and "sent = take j (drop m rows)"
  shows "first_deliveries (old @ sent) = take (max k (min (length rows) (m + j))) rows"
proof -
  have "set old = set (take k rows)" using assms(4) by (metis set_first_deliveries)
  moreover have "distinct sent" using assms(1,5) by simp
  ultimately have "first_deliveries (old @ sent) = take k rows @ drop k (take (m + j) rows)"
    using not_among_first [OF assms(1-3)] assms(4,5) by (simp add: first_deliveries_append)
  also have "\<dots> = take (max k (m + j)) rows"
    by (cases "k \<le> m + j") (simp_all add: take_add [symmetric] drop_take max_def)
  also have "\<dots> = take (max k (min (length rows) (m + j))) rows"
    using assms(2) by (auto simp: max_def min_def)
  finally show ?thesis .
qed

lemma ordered_drain:
  assumes ordered: "delivered_in_order s" and order: "in_order publish"
  shows "delivered_in_order (snd (drainOutbox p limit publish s))"
proof -
  let ?w = "rs_world s" and ?t = "snd (drainOutbox p limit publish s)"
  from ordered have ok: "relay_ok s" and idle: "rs_flights s = []" and w: "outbox_ok ?w" and runs: "run_ordered ?w"
    by (simp_all add: delivered_in_order_def relay_ok_def)
  have steps: "relay_step\<^sup>*\<^sup>* s ?t"
    using idle in_order_sends [OF order] by (intro drainOutbox_steps) (simp_all add: flight_of_def)
  define batch where "batch = take limit (pending ?w)"
  obtain sent failure where answer: "publish batch = (sent, failure)" by fastforce
  then obtain j where sent: "sent = take j batch" and all: "failure = None \<Longrightarrow> sent = batch"
    using order unfolding in_order_def by (metis append_eq_conv_conj fst_conv snd_conv)
  have log: "rs_log ?t = rs_log s @ sent"
    using sent by (simp add: drain_lone [OF idle w] Let_def send_def batch_def [symmetric] answer split: option.split)
  have plain: "map unpublished (of_run rid (w_outbox (rs_world ?t))) = map unpublished (of_run rid (w_outbox ?w))" for rid
    by (simp add: drain_lone [OF idle w] Let_def send_def unpublished_mark unpublished_def split: option.split)
  have "delivered_up_to rid ?t" for rid
  proof -
    from ordered obtain m k rows where rows: "rows = map unpublished (of_run rid (w_outbox ?w))"
      and mk: "m \<le> k" "k \<le> length rows" and pend: "of_run rid (pending ?w) = drop m rows"
      and firsts: "first_deliveries (of_run rid (rs_log s)) = take k rows"
      unfolding delivered_in_order_def delivered_up_to_def by blast
    have "map ob_id rows = map ob_id (of_run rid (w_outbox ?w))" by (simp add: rows unpublished_def)
    moreover have "distinct (map ob_id (of_run rid (w_outbox ?w)))"
      unfolding of_run_def using outbox_ok_distinct [OF w] by (simp add: distinct_map_filter)
    ultimately have dist: "distinct rows" by (metis distinct_map)
    have "sent = take (min j limit) (pending ?w)" by (simp add: sent batch_def)
    then obtain i where i: "of_run rid sent = take i (drop m rows)"
      using of_run_take [of rid "min j limit" "pending ?w"] pend by auto
    obtain b where b: "of_run rid batch = take b (drop m rows)" "of_run rid (drop limit (pending ?w)) = drop b (drop m rows)"
      using of_run_take [of rid limit "pending ?w"] pend by (auto simp: batch_def)
    define k' where "k' = max k (min (length rows) (m + i))"
    define m' where "m' = (if failure = None then min (length rows) (m + b) else m)"
    have "first_deliveries (of_run rid (rs_log ?t)) = take k' rows"
      using delivered_further [OF dist mk(2,1) firsts i] by (simp add: log k'_def)
    moreover have "of_run rid (pending (rs_world ?t)) = drop m' rows"
      using pend b(2) by (simp add: pending_after_drain [OF idle w] batch_def [symmetric] answer m'_def min_def add.commute)
    moreover have "m' \<le> k'"
    proof (cases "failure = None")
      case True
      then have "take i (drop m rows) = take b (drop m rows)" using all i b(1) by simp
      then have "length (take i (drop m rows)) = length (take b (drop m rows))" by (rule arg_cong)
      then show ?thesis using True mk by (simp add: m'_def k'_def)
    qed (use mk in \<open>auto simp: m'_def k'_def\<close>)
    moreover have "k' \<le> length rows" using mk by (simp add: k'_def)
    ultimately show ?thesis unfolding delivered_up_to_def plain using rows by blast
  qed
  moreover have "relay_ok ?t" "rs_flights ?t = []"
    using relays.steps_good [OF steps ok] flights_after_drain [OF idle w] by simp_all
  moreover have "run_ordered (rs_world ?t)"
    using runs by (simp add: drain_lone [OF idle w] Let_def send_def run_ordered_mark split: option.split)
  ultimately show ?thesis unfolding delivered_in_order_def by blast
qed

lemma ordered_kernel:
  assumes "delivered_in_order s" and step: "kernel_step (rs_world s) w" and runs: "run_ordered w"
  shows "delivered_in_order (s\<lparr>rs_world := w\<rparr>)"
proof -
  let ?w = "rs_world s"
  from assms(1) have ok: "relay_ok s" "rs_flights s = []" and before: "run_ordered ?w"
    by (simp_all add: delivered_in_order_def)
  obtain later new where w: "w_outbox w = w_outbox ?w @ later" "\<forall>ob \<in> set later. ob_published_at ob = None"
    using kernel_step_outbox [OF step] ok(1) unfolding relay_ok_def by metis
  have "delivered_up_to rid (s\<lparr>rs_world := w\<rparr>)" for rid
  proof -
    from assms(1) obtain m k rows where rows: "rows = map unpublished (of_run rid (w_outbox ?w))"
      and mk: "m \<le> k" "k \<le> length rows" and pend: "of_run rid (pending ?w) = drop m rows"
      and firsts: "first_deliveries (of_run rid (rs_log s)) = take k rows"
      unfolding delivered_in_order_def delivered_up_to_def by blast
    let ?later = "of_run rid later"
    have plain: "map unpublished ?later = ?later" "filter (\<lambda>ob. ob_published_at ob = None) ?later = ?later"
      using w(2) unfolding filter_id_conv by (auto intro!: map_idI simp: unpublished_def of_run_def)
    have "of_run rid (pending w) = of_run rid (pending ?w) @ ?later"
      using plain(2) by (simp add: pending_of_run [OF runs] pending_of_run [OF before] w(1))
    then have "of_run rid (pending w) = drop m (rows @ ?later)" using pend mk by simp
    moreover have "map unpublished (of_run rid (w_outbox w)) = rows @ ?later" by (simp add: w(1) rows plain(1))
    moreover have "first_deliveries (of_run rid (rs_log s)) = take k (rows @ ?later)" using firsts mk by simp
    moreover have "k \<le> length (rows @ ?later)" using mk by simp
    ultimately show ?thesis unfolding delivered_up_to_def using mk(1) by (intro exI [of _ m] exI [of _ k]) simp
  qed
  then show ?thesis using relay_ok_kernel [OF ok(1) step] ok(2) runs by (simp add: delivered_in_order_def)
qed

lemma ordered_steps: "lone_step\<^sup>*\<^sup>* s s' \<Longrightarrow> delivered_in_order s \<Longrightarrow> delivered_in_order s'"
proof (induction rule: rtranclp_induct)
  case (step s' s'')
  from step.hyps(2) step.IH [OF step.prems] show ?case
    by cases (simp_all add: ordered_kernel ordered_drain)
qed simp

text \<open>
  Two relays with a row each: the second publishes and commits before the first, whose row it had
  to skip.
\<close>

lemma two_relays:
  assumes ok: "outbox_ok (rs_world s)" and idle: "rs_flights s = []" and pend: "pending (rs_world s) = a # b # rest"
  shows "\<exists>s'. relay_step\<^sup>*\<^sup>* s s' \<and> rs_log s' = rs_log s @ [b, a] \<and> rs_flights s' = [] \<and> pending (rs_world s') = rest"
proof -
  let ?w = "rs_world s" and ?n = "w_now (rs_world s)"
  have ids: "distinct (map ob_id (w_outbox ?w))" using outbox_ok_distinct [OF ok] .
  then have "distinct (map ob_id (sort_key ob_id (w_outbox ?w)))" by (simp add: distinct_map)
  then have "distinct (map ob_id (a # b # rest))" using pend by (metis pending_def distinct_map_filter)
  then have ab: "ob_id a \<noteq> ob_id b" "ob_id a \<notin> ob_id ` set rest" by auto
  have first: "select_batch [] 1 ?w = [a]" using pend by (simp add: select_pending)
  have "select_batch [ob_id a] 1 ?w = take 1 (filter (\<lambda>ob. ob_id ob \<noteq> ob_id a) (pending ?w))"
    by (simp add: select_batch_def pending_def conj_commute)
  then have second: "select_batch [ob_id a] 1 ?w = [b]" using ab by (simp add: pend)
  define fa fb where "fa = \<lparr>fl_relay = 0, fl_rows = [a], fl_now = ?n, fl_published = False\<rparr>"
    and "fb = \<lparr>fl_relay = 1, fl_rows = [b], fl_now = ?n, fl_published = False\<rparr>"
  define s1 where "s1 = s\<lparr>rs_flights := [fa]\<rparr>"
  define s2 where "s2 = s\<lparr>rs_flights := [fb, fa]\<rparr>"
  define s3 where "s3 = s2\<lparr>rs_log := rs_log s @ [b], rs_flights := [fb\<lparr>fl_published := True\<rparr>, fa]\<rparr>"
  define s4 where "s4 = s3\<lparr>rs_world := mark_published [ob_id b] ?n ?w, rs_flights := [fa]\<rparr>"
  define s5 where "s5 = s4\<lparr>rs_log := rs_log s @ [b, a], rs_flights := [fa\<lparr>fl_published := True\<rparr>]\<rparr>"
  define s6 where "s6 = s5\<lparr>rs_world := mark_published [ob_id a] ?n (mark_published [ob_id b] ?n ?w), rs_flights := []\<rparr>"
  note defs = s1_def s2_def s3_def s4_def s5_def s6_def fa_def fb_def
  have "relay_step s s1"
    using relay_step.select [of 0 s 1] idle first by (simp add: defs flight_of_def open_batch_def locked_ids_def)
  moreover have "relay_step s1 s2"
    using relay_step.select [of 1 s1 1] second by (simp add: defs flight_of_def open_batch_def locked_ids_def)
  moreover have "relay_step s2 s3"
    using relay_step.publish [of 1 s2 fb "[b]" None]
    by (simp add: defs flight_of_def sends_def publish_batch_def send_def table_simps)
  moreover have "relay_step s3 s4"
    using relay_step.commit [of 1 s3 "fb\<lparr>fl_published := True\<rparr>"]
    by (simp add: defs flight_of_def commit_batch_def leave_def)
  moreover have "relay_step s4 s5"
    using relay_step.publish [of 0 s4 fa "[a]" None]
    by (simp add: defs flight_of_def sends_def publish_batch_def send_def table_simps)
  moreover have "relay_step s5 s6"
    using relay_step.commit [of 0 s5 "fa\<lparr>fl_published := True\<rparr>"]
    by (simp add: defs flight_of_def commit_batch_def leave_def)
  ultimately have "relay_step\<^sup>*\<^sup>* s s6" by (meson converse_rtranclp_into_rtranclp rtranclp.rtrancl_refl)
  moreover have "mark_published [ob_id a] ?n (mark_published [ob_id b] ?n ?w) = mark_published (map ob_id [a, b]) ?n ?w"
    by (simp add: mark_published_def update_where_def)
  then have "pending (rs_world s6) = rest"
    using pending_mark [OF ids, of 2 ?n] by (simp add: s6_def pend numeral_2_eq_2)
  ultimately show ?thesis by (intro exI [of _ s6]) (simp add: defs)
qed

text \<open>
  C40: the order of delivery. A single relay whose publisher keeps the order of its batch delivers,
  for every run and repetitions aside, a prefix of the run's ledger in its order, whatever fails
  in between and although the numbers of the rows of different runs may become visible
  in any order; the numbers of one run are drawn under the lock of its row, which is the
  hypothesis on the kernel's writes. Two relays do
  not keep the order, not even within a run: from any state with two rows waiting they can deliver the second
  first, both being acknowledged without an error.
\<close>

theorem order_of_delivery:
  "(lone_step\<^sup>*\<^sup>* s s' \<and> relay_ok s \<and> run_ordered (rs_world s) \<and> rs_flights s = [] \<and> rs_log s = [] \<longrightarrow>
     (\<forall>rid. \<exists>k. map (\<lambda>ob. (ob_topic ob, ob_key ob, ob_payload ob)) (first_deliveries (of_run rid (rs_log s'))) =
          map event_message (take k (filter (\<lambda>e. ev_run_id e = rid) (w_events (rs_world s'))))))
   \<and> (relay_ok s \<and> rs_flights s = [] \<and> pending (rs_world s) = a # b # rest \<longrightarrow>
     (\<exists>s'. relay_step\<^sup>*\<^sup>* s s' \<and> rs_log s' = rs_log s @ [b, a] \<and> rs_flights s' = [] \<and> pending (rs_world s') = rest))"
proof (intro conjI impI allI; elim conjE)
  fix rid
  let ?msg = "\<lambda>ob. (ob_topic ob, ob_key ob, ob_payload ob)"
  assume steps: "lone_step\<^sup>*\<^sup>* s s'" and ok: "relay_ok s" and runs: "run_ordered (rs_world s)"
    and start: "rs_flights s = []" "rs_log s = []"
  then have none: "\<forall>ob \<in> set (w_outbox (rs_world s)). ob_published_at ob = None"
    by (auto simp: relay_ok_def log_ok_def)
  have "delivered_up_to rid s" for rid
  proof -
    let ?rows = "of_run rid (w_outbox (rs_world s))"
    have "map unpublished ?rows = ?rows" "filter (\<lambda>ob. ob_published_at ob = None) ?rows = ?rows"
      using none unfolding filter_id_conv by (auto intro!: map_idI simp: unpublished_def of_run_def)
    then show ?thesis
      unfolding delivered_up_to_def pending_of_run [OF runs] start(2)
      by (intro exI [of _ 0] exI [of _ ?rows]) (simp add: first_deliveries_def of_run_def)
  qed
  with ok runs start have "delivered_in_order s" by (simp add: delivered_in_order_def)
  from ordered_steps [OF steps this] obtain k where ok': "relay_ok s'"
    and firsts: "first_deliveries (of_run rid (rs_log s')) = take k (map unpublished (of_run rid (w_outbox (rs_world s'))))"
    by (auto simp: delivered_in_order_def delivered_up_to_def)
  have mirrors: "map ?msg (w_outbox (rs_world s')) = map event_message (w_events (rs_world s'))"
    using ok' by (simp add: relay_ok_def outbox_ok_def kernel_ok_def ledger_ok_def outbox_mirrors_def event_message_def)
  have "map ?msg (of_run rid obs) = filter (\<lambda>(t, key, p). key = rid) (map ?msg obs)" for obs
    by (induction obs) (simp_all add: of_run_def)
  moreover have "map event_message (filter (\<lambda>e. ev_run_id e = rid) es) = filter (\<lambda>(t, key, p). key = rid) (map event_message es)" for es
    by (induction es) (simp_all add: event_message_def)
  ultimately have own: "map ?msg (of_run rid (w_outbox (rs_world s'))) =
      map event_message (filter (\<lambda>e. ev_run_id e = rid) (w_events (rs_world s')))"
    by (simp only: mirrors)
  have "map ?msg (first_deliveries (of_run rid (rs_log s'))) = take k (map ?msg (of_run rid (w_outbox (rs_world s'))))"
    by (simp add: firsts unpublished_def take_map)
  then show "\<exists>k. map ?msg (first_deliveries (of_run rid (rs_log s'))) =
      map event_message (take k (filter (\<lambda>e. ev_run_id e = rid) (w_events (rs_world s'))))"
    by (auto simp only: own take_map)
next
  assume "relay_ok s" "rs_flights s = []" "pending (rs_world s) = a # b # rest"
  then show "\<exists>s'. relay_step\<^sup>*\<^sup>* s s' \<and> rs_log s' = rs_log s @ [b, a] \<and> rs_flights s' = [] \<and> pending (rs_world s') = rest"
    by (intro two_relays) (simp_all add: relay_ok_def)
qed


section \<open>Worked example\<close>

text \<open>A run with two events, and a relay that has not run yet; then the same with one failed drain.\<close>

definition demo_event :: "int \<Rightarrow> event_row" where
  "demo_event seq = \<lparr>ev_run_id = ''run_1'', ev_seq = seq, ev_type = ProgressUpdated, ev_payload = [],
     ev_attempt_id = None, ev_created_at = 0\<rparr>"

definition demo_relay :: relay_state where
  "demo_relay =
     \<lparr>rs_world = (demo_world RUNNING)
        \<lparr>w_runs := [(demo_run RUNNING)\<lparr>run_last_event_seq := 2\<rparr>],
         w_events := [demo_event 1, demo_event 2],
         w_outbox := [event_outbox_row 1 (demo_event 1), event_outbox_row 2 (demo_event 2)]\<rparr>,
      rs_flights = [], rs_log = []\<rparr>"

lemma demo_relay_ok: "relay_ok demo_relay"
proof -
  have "kernel_ok (rs_world demo_relay)"
    by (simp add: demo_relay_def kernel_ok_def ledger_ok_def outbox_mirrors_def gapless_def demo_event_def
        event_outbox_row_def admission_ok_def session_ok_def sessions_fenced_def session_open_def session_mirrors_def
        demo_session_def demo_admission_def upto_rec1)
  then show ?thesis
    by (simp add: relay_ok_def outbox_ok_def flights_ok_def log_ok_def locked_ids_def)
      (simp add: demo_relay_def event_outbox_row_def ids_drawn_def demo_world_def demo_base_def fresh_database_def)
qed

definition demo_publisher :: "bool \<Rightarrow> publisher" where
  "demo_publisher up rows = (if up then (rows, None) else (take 1 rows, Some (GenericError ''broker'')))"

lemma demo_publisher_sends: "sends rows (demo_publisher up rows)" "in_order (demo_publisher up)"
  unfolding sends_def in_order_def demo_publisher_def
  by (auto dest: in_set_takeD) (metis append_take_drop_id)

theorem relays_implement_channel_witness:
  "channel_ok (channel_of (snd (drainOutbox 0 10 (demo_publisher False) demo_relay)))
   \<and> rs_log (snd (drainOutbox 0 10 (demo_publisher False) demo_relay)) \<noteq> []"
proof -
  let ?t = "snd (drainOutbox 0 10 (demo_publisher False) demo_relay)"
  have "relay_step\<^sup>*\<^sup>* demo_relay ?t"
    by (rule drainOutbox_steps) (simp_all add: demo_publisher_sends flight_of_def demo_relay_def)
  from relays_implement_channel [OF this demo_relay_ok] have "channel_ok (channel_of ?t)" by blast
  moreover have "rs_log ?t \<noteq> []"
    using demo_relay_ok by (simp add: relay_ok_def drain_lone Let_def demo_publisher_def send_def)
      (simp add: drain_lone demo_relay_def Let_def pending_def event_outbox_row_def demo_publisher_def send_def outbox_ok_def)
  ultimately show ?thesis by blast
qed

theorem relay_catches_up_witness:
  "ch_acked (channel_of (relay_loop 0 1 (map demo_publisher [True, False, True]) demo_relay)) = {..<2}"
proof -
  have "\<not> (\<forall>rows. snd (demo_publisher False rows) = None)" by (simp add: demo_publisher_def)
  moreover have "\<forall>rows. snd (demo_publisher True rows) = None" by (simp add: demo_publisher_def)
  moreover have "length (pending (rs_world demo_relay)) = 2" "rs_flights demo_relay = []"
    "length (w_events (rs_world demo_relay)) = 2"
    by (simp_all add: demo_relay_def pending_def event_outbox_row_def)
  ultimately show ?thesis
    using relay_catches_up [OF demo_relay_ok, of "map demo_publisher [True, False, True]" 1 0]
    by (simp add: demo_publisher_sends row_count_def Let_def)
qed

theorem order_of_delivery_witness:
  "(\<exists>k. map (\<lambda>ob. (ob_topic ob, ob_key ob, ob_payload ob))
        (first_deliveries (of_run ''run_1'' (rs_log (snd (drainOutbox 0 10 (demo_publisher True) demo_relay))))) =
      map event_message (take k [demo_event 1, demo_event 2]))
   \<and> (\<exists>s'. relay_step\<^sup>*\<^sup>* demo_relay s' \<and> map ob_id (rs_log s') = [2, 1] \<and> pending (rs_world s') = [])"
proof
  let ?t = "snd (drainOutbox 0 10 (demo_publisher True) demo_relay)"
  have idle: "rs_flights demo_relay = []" "rs_log demo_relay = []" and ok: "outbox_ok (rs_world demo_relay)"
    using demo_relay_ok by (simp_all add: demo_relay_def relay_ok_def)
  have runs: "run_ordered (rs_world demo_relay)"
    by (simp add: run_ordered_def of_run_def demo_relay_def event_outbox_row_def)
  have events: "w_events (rs_world ?t) = [demo_event 1, demo_event 2]"
    unfolding events_after_drain [OF idle(1) ok] by (simp add: demo_relay_def)
  have "lone_step\<^sup>*\<^sup>* demo_relay ?t" by (intro r_into_rtranclp lone_step.drain demo_publisher_sends)
  with order_of_delivery [THEN conjunct1, rule_format, OF conjI, of demo_relay ?t "''run_1''"] demo_relay_ok runs idle
  show "\<exists>k. map (\<lambda>ob. (ob_topic ob, ob_key ob, ob_payload ob)) (first_deliveries (of_run ''run_1'' (rs_log ?t))) =
      map event_message (take k [demo_event 1, demo_event 2])"
    by (simp add: events demo_event_def)
next
  have "rs_flights demo_relay = []" "rs_log demo_relay = []"
    "pending (rs_world demo_relay) = [event_outbox_row 1 (demo_event 1), event_outbox_row 2 (demo_event 2)]"
    by (simp_all add: demo_relay_def pending_def event_outbox_row_def)
  with order_of_delivery [THEN conjunct2, rule_format, of demo_relay "event_outbox_row 1 (demo_event 1)"
      "event_outbox_row 2 (demo_event 2)" "[]"] demo_relay_ok
  obtain s' where "relay_step\<^sup>*\<^sup>* demo_relay s'" "rs_log s' = [event_outbox_row 2 (demo_event 2), event_outbox_row 1 (demo_event 1)]"
    "pending (rs_world s') = []"
    by auto
  then show "\<exists>s'. relay_step\<^sup>*\<^sup>* demo_relay s' \<and> map ob_id (rs_log s') = [2, 1] \<and> pending (rs_world s') = []"
    by (intro exI [of _ s']) (simp add: event_outbox_row_def)
qed

end
