(* ===== verification/Tool_Safety.thy ===== *)
theory Tool_Safety
  imports Tool_Router Run_Api
begin

text \<open>
  How the tools of \<^verbatim>\<open>src/harness/toolRouter.ts\<close> and the rest of the runtime fit together: the
  signal tool and the signal endpoint, delegation and the ledger it reads, and worked examples of the tools.
\<close>

section \<open>Waiting for a signal\<close>

lemma run_events_sorted:
  assumes "ledger_ok w" and "find_run w rid = Some run"
  shows "sort_key ev_seq (run_events w rid) = run_events w rid"
proof -
  have "map ev_seq (run_events w rid) = [1..run_last_event_seq run]"
    using assms by (auto simp: find_run_iff ledger_ok_def gapless_def run_events_def)
  then have "sorted (map ev_seq (run_events w rid))" by (simp only: sorted_upto)
  then show ?thesis by (rule sort_key_id_if_sorted)
qed

lemma latest_signal_recent:
  assumes "ledger_ok w" and "find_run w rid = Some run" and "run_events w rid = es @ [e]"
    and "ev_type e = SignalReceived" and "jfield (ev_payload e) ''name'' = Some (JStr name)"
  shows "latest_signal w rid name = Some e"
  unfolding latest_signal_def run_events_sorted [OF assms(1,2)] by (simp add: assms)

lemma waitForSignal_received:
  assumes "ps_env g = (\<lambda>_ w. w)" and "latest_signal (ps_world g) (run_id (tc_run tc)) name = Some e" and "name \<noteq> []"
  shows "fst (waitForSignal tc name g) = Inr (Result (signal_reply (tc_fmt tc) name e))"
  using assms
  by (simp add: waitForSignal_def bindP_def query_def withTransaction_def getsT_def commit_def returnP_def Let_def)

lemma woken_payload:
  "jfield (transition_payload st (to_woken name)) ''name'' = Some (JStr name)"
  "jfield (transition_payload st (to_woken name)) ''payload'' = None"
  by (simp_all add: transition_payload_def to_woken_def jfield_def)

text \<open>
  C16: a signal wakes the run that waits for it, but its payload does not reach the agent. The
  endpoint records the payload and then the transition, both as \<^verbatim>\<open>SignalReceived\<close> of the name; the tool,
  called again when the run is resumed, answers from the later one, which has none. So whatever
  payload was posted the agent is told that it is null, while the ledger holds it.
\<close>

theorem signal_payload_is_lost:
  assumes ok: "kernel_ok w" and run: "find_run w rid = Some run" and own: "run_tenant_id run = tid"
    and free: "run_managed_session_id run = None"
    and waits: "run_status run = WAITING_SIGNAL" "run_awaited_signal run = Some name" and name: "name \<noteq> []"
    and calm: "ps_env g = (\<lambda>_ w. w)" and at: "ps_world g = snd (post_signal rid tid name payload w)"
    and tool: "run_id (tc_run tc) = rid"
  shows "fst (post_signal rid tid name payload w) = Inr \<lparr>rp_code = 202, rp_body = Delivered_body True\<rparr>
     \<and> (\<exists>r. find_run (ps_world g) rid = Some r \<and> run_status r = QUEUED)
     \<and> (\<exists>e \<in> set (run_events (ps_world g) rid). ev_type e = SignalReceived
          \<and> jfield (ev_payload e) ''name'' = Some (JStr name)
          \<and> jfield (ev_payload e) ''payload'' = Some (or_else payload JNull))
     \<and> fst (waitForSignal tc name g) =
         Inr (Result (stringify (tc_fmt tc) (JObj [(''signal'', JStr name), (''payload'', JNull)])))"
proof -
  let ?e1 = "new_event rid (run_last_event_seq run + 1) SignalReceived
      [(''name'', JStr name), (''payload'', or_else payload JNull)] None (w_now w)"
  let ?w1 = "log_event ?e1 (append_row no_patch (run_last_event_seq run + 1) (w_now w)) w"
  let ?run1 = "append_row no_patch (run_last_event_seq run + 1) (w_now w) run"
  let ?w2 = "transition_world ?run1 (to_woken name) ?w1"
  have lok: "ledger_ok w" using ok by blast
  have append: "appendEvent rid SignalReceived [(''name'', JStr name), (''payload'', or_else payload JNull)] None no_patch w
      = Inr (run_last_event_seq run + 1, ?w1)"
    using run next_seq_free [OF lok run] by (simp add: appendEvent_iff)
  have ok1: "kernel_ok ?w1" by (rule keeps_kernel_fromD(1) [OF appendEvent_kernel_from ok append])
  have run1: "find_run ?w1 rid = Some ?run1"
    using run find_run_id [OF run] by (simp add: find_run_log_event)
  have st1: "run_status ?run1 = WAITING_SIGNAL" using waits(1) by (simp add: append_row_def)
  have transition: "transitionRun rid (to_woken name) ?w1 = Inr (transition_row (to_woken name) (run_last_event_seq ?run1 + 1) (w_now ?w1) ?run1, ?w2)"
    unfolding transitionRun_iff
    using run1 st1 next_seq_free [OF kernel_okD [OF ok1] run1]
    by (intro exI [of _ ?run1]) (simp add: to_woken_def isTransitionAllowed_def)
  have ok2: "kernel_ok ?w2" by (rule keeps_kernel_fromD(1) [OF transitionRun_kernel_from ok1 transition])
  have "getRun w rid (Some tid) = Some run"
    using find_stronger [OF run [unfolded find_run_def], of "\<lambda>r. run_tenant_id r = tid"] own by (simp add: getRun_def)
  then have signal: "signal_run rid tid name payload w = Inr (\<lparr>rp_code = 202, rp_body = Delivered_body True\<rparr>, ?w2)"
    using append transition waits free find_run_id [OF run]
    by (simp add: signal_run_def tx_eval Let_def)
  then have post: "post_signal rid tid name payload w = (Inr \<lparr>rp_code = 202, rp_body = Delivered_body True\<rparr>, ?w2)"
    using name by (simp add: post_signal_def commit_def)
  then have world: "ps_world g = ?w2" using at by simp
  let ?e2 = "transition_event ?run1 (to_woken name) (w_now ?w1)"
  have events: "run_events ?w2 rid = run_events w rid @ [?e1, ?e2]"
    using find_run_id [OF run] by (simp add: run_events_def)
  have run2: "find_run ?w2 rid = Some (transition_row (to_woken name) (run_last_event_seq ?run1 + 1) (w_now ?w1) ?run1)"
    using run1 find_run_id [OF run1] by (simp add: find_run_transition_world)
  have "latest_signal ?w2 rid name = Some ?e2"
    by (rule latest_signal_recent [OF kernel_okD [OF ok2] run2, of "run_events w rid @ [?e1]"])
      (simp_all add: events transition_event_def woken_payload, simp add: to_woken_def)
  then have "fst (waitForSignal tc name g) = Inr (Result (signal_reply (tc_fmt tc) name ?e2))"
    by (intro waitForSignal_received calm name) (simp add: world tool)
  then have "fst (waitForSignal tc name g) =
      Inr (Result (stringify (tc_fmt tc) (JObj [(''signal'', JStr name), (''payload'', JNull)])))"
    by (simp add: signal_reply_def transition_event_def woken_payload)
  moreover have "?e1 \<in> set (run_events ?w2 rid)" by (simp add: events)
  moreover have "jfield (ev_payload ?e1) ''name'' = Some (JStr name)" "jfield (ev_payload ?e1) ''payload'' = Some (or_else payload JNull)"
    by (simp_all add: jfield_def)
  moreover have "run_status (transition_row (to_woken name) (run_last_event_seq ?run1 + 1) (w_now ?w1) ?run1) = QUEUED"
    by (simp add: to_woken_def transition_row_def)
  ultimately show ?thesis using post world run2 by (auto intro!: bexI [of _ ?e1])
qed


text \<open>A run that waits for an approval signal: the payload is posted, the tool answers null.\<close>

definition demo_entry :: mcp_entry where
  "demo_entry = \<lparr>me_toolsetRef = ''search'', me_originalName = ''find'', me_classification = Action_read,
     me_recovery = Mcp_read\<rparr>"

definition demo_call :: "mcp_entry \<Rightarrow> (string \<times> json) list \<Rightarrow> governed_input \<Rightarrow> nat \<Rightarrow> mcp_answer" where
  "demo_call = (\<lambda>_ _ _ _. Mcp_returns \<lparr>mv_object = True, mv_content = Some [Chunk ''fou'', Chunk ''nd''],
     mv_externalTxnId = None, mv_status = [], mv_terminal = False\<rparr>)"

definition demo_tool :: "unit tool_ctx" where
  "demo_tool =
     \<lparr>tc_run = demo_run RUNNING, tc_attempt = ''att_1'', tc_step = 3,
      tc_cfg = \<lparr>tg_httpMaxExternalTxnIdBytes = 256, tg_mcpMaxResponseBytes = 1000, tg_mcpMaxExternalTxnIdBytes = 256,
        tg_mcpCallTimeoutMs = 30000\<rparr>,
      tc_sha256 = (\<lambda>s. s), tc_fmt = (\<lambda>_. []), tc_number = (\<lambda>_. None), tc_parseJson = (\<lambda>_. None), tc_aborted = False,
      tc_credentials = Some (\<lambda>_. Cred_resolved (Some (''authorization'', ''Bearer k''))),
      tc_exec = (\<lambda>_ _ _ _. Inr \<lparr>ex_exitCode = 0, ex_stdout = ''out'', ex_stderr = []\<rparr>),
      tc_writeFile = (\<lambda>_ _ _. Inr ()), tc_readFile = (\<lambda>_ _. Inr ''text''), tc_memory = None, tc_knowledge = None,
      tc_mcpRoute = [(''mcp__search__find'', demo_entry)],
      tc_mcpCall = Some demo_call,
      tc_mcpReconcile = (\<lambda>_ _ _ _. Mcp_fails), tc_fault = (\<lambda>_. None),
      tc_parser = demo_parser, tc_egress = demo_egress, tc_network = demo_network ''93.184.216.34'',
      tc_wire = (\<lambda>_. ())\<rparr>"

definition demo_signalled :: world where
  "demo_signalled = (demo_world WAITING_SIGNAL)
     \<lparr>w_runs := [(demo_run WAITING_SIGNAL)\<lparr>run_awaited_signal := Some ''go''\<rparr>]\<rparr>"

lemma demo_signalled_ok: "kernel_ok demo_signalled"
  by (simp add: demo_signalled_def kernel_ok_def ledger_ok_def outbox_mirrors_def gapless_def
      admission_ok_def session_ok_def sessions_fenced_def session_open_def session_mirrors_def demo_session_def
      demo_admission_def)

theorem signal_payload_is_lost_witness:
  "fst (waitForSignal demo_tool ''go''
      \<lparr>ps_world = snd (post_signal ''run_1'' ''tnt_1'' ''go'' (Some (JObj [(''approved'', JBool True)])) demo_signalled),
       ps_env = (\<lambda>_ w. w), ps_tick = 0, ps_trace = []\<rparr>)
     = Inr (Result (stringify (\<lambda>_. []) (JObj [(''signal'', JStr ''go''), (''payload'', JNull)])))"
  using signal_payload_is_lost [OF demo_signalled_ok, of "''run_1''" "(demo_run WAITING_SIGNAL)\<lparr>run_awaited_signal := Some ''go''\<rparr>"
      "''tnt_1''" "''go''"
      "\<lparr>ps_world = snd (post_signal ''run_1'' ''tnt_1'' ''go'' (Some (JObj [(''approved'', JBool True)])) demo_signalled),
       ps_env = (\<lambda>_ w. w), ps_tick = 0, ps_trace = []\<rparr>" "Some (JObj [(''approved'', JBool True)])" demo_tool]
  by (simp add: demo_signalled_def find_run_def demo_tool_def)

section \<open>Requests and MCP calls\<close>

definition demo_post :: "(string \<times> json) list" where
  "demo_post = [(''method'', JStr ''post''), (''url'', JStr ''https://example.com/''),
     (''headers'', JObj [(''Idempotency-Key'', JStr ''forged''), (''X-Trace'', JStr ''t'')])]"

definition demo_tool_proc :: proc_state where
  "demo_tool_proc =
     \<lparr>ps_world = (demo_world RUNNING)\<lparr>w_grants := [demo_grant\<lparr>gr_action_pattern := ''*''\<rparr>]\<rparr>,
      ps_env = (\<lambda>_ w. w), ps_tick = 0, ps_trace = []\<rparr>"

lemma one_dispatch_call: "length (filter is_dispatch es) = 1 \<Longrightarrow> \<exists>inp d. Call_dispatch inp d \<in> set es"
  by (induction es) (auto split: if_splits elim: is_dispatch.elims, metis is_dispatch.elims(2))

lemma execution_completes:
  assumes calm: "ps_env g = (\<lambda>_ w. w)" and ctx: "ctx = action_context tc"
    and completes: "\<And>key h. ps_env h = (\<lambda>_ w. w) \<Longrightarrow> ps_world h = ps_world g \<Longrightarrow>
        fst (executeGovernedActionFenced ctx spec key h) = Inr (Completed v False)"
  shows "\<exists>es. fst (executeGovernedAction False ctx spec g) = Inr (Completed v False)
     \<and> ps_trace (snd (executeGovernedAction False ctx spec g)) = ps_trace g @ es \<and> length (filter is_dispatch es) = 1"
proof -
  define h where "h = snd (query (\<lambda>w. replacementRootRunId w (cx_run ctx)) g)"
  have h: "ps_env h = (\<lambda>_ w. w)" "ps_world h = ps_world g" "ps_trace h = ps_trace g @ [Db (ps_world g)]"
    by (simp_all add: h_def query_def withTransaction_calm calm getsT_def)
  obtain key where run: "executeGovernedAction False ctx spec g = executeGovernedActionFenced ctx spec key h"
    by (simp add: executeGovernedAction_def bindP_def Let_def h_def query_def withTransaction_calm calm getsT_def)
  show ?thesis using completed_trace [OF completes [OF h(1,2), of key]] completes [OF h(1,2)] by (auto simp: run h)
qed

lemma demo_tool_ready:
  "ps_env demo_tool_proc = (\<lambda>_ w. w)" "kernel_ok (ps_world demo_tool_proc)" "grants_ok (ps_world demo_tool_proc)"
  "is_current_owner (action_context demo_tool) (ps_world demo_tool_proc)"
  "findReceiptByLineageKey (ps_world demo_tool_proc) (cx_run (action_context demo_tool)) key = None"
  "w_receipts (ps_world demo_tool_proc) = []"
proof -
  show "kernel_ok (ps_world demo_tool_proc)"
    using demo_world_ok [of RUNNING] kernel_ok_cong [of "ps_world demo_tool_proc" "demo_world RUNNING"]
    by (simp add: demo_tool_proc_def)
qed (simp_all add: demo_tool_proc_def demo_tool_def action_context_def grants_ok_def demo_grant_def is_current_owner_def
      exists_row_iff demo_attempt_def findReceiptByLineageKey_None)

lemma demo_http_usable:
  "usable_grants (http_spec demo_tool demo_post) False
     (declared_grants (action_context demo_tool) (http_spec demo_tool demo_post) (ps_world demo_tool_proc))
     = [demo_grant\<lparr>gr_action_pattern := ''*''\<rparr>]"
  by code_simp

lemma demo_http_answer:
  "sp_dispatch (http_spec demo_tool demo_post)
     \<lparr>di_key = key, di_credential = Some (''authorization'', ''Bearer k''), di_patterns = [''*'']\<rparr> n
   = Disp_ok [(''status'', jint 200), (''body'', JStr ''ok'')] None [(''status'', jint 200)]"
  by code_simp

lemma demo_http_valid:
  "validation_passes (http_spec demo_tool demo_post) declared [demo_grant\<lparr>gr_action_pattern := ''*''\<rparr>]"
  by code_simp

lemma demo_http_hooks:
  "sp_beforeDispatch (http_spec demo_tool demo_post) = None" "sp_afterDispatch (http_spec demo_tool demo_post) = None"
  "sp_afterCommit (http_spec demo_tool demo_post) = None" "tc_aborted demo_tool = False"
  "broker_answers (action_context demo_tool) (Some (''authorization'', ''Bearer k''))"
  by (simp_all add: http_spec_def demo_tool_def Let_def broker_answers_def action_context_def)

lemma demo_http_completes:
  assumes "ps_env h = (\<lambda>_ w. w)" and "ps_world h = ps_world demo_tool_proc"
  shows "fst (executeGovernedActionFenced (action_context demo_tool) (http_spec demo_tool demo_post) key h) =
    Inr (Completed [(''status'', jint 200), (''body'', JStr ''ok'')] False)"
  by (rule authorized_completes [where gr = "demo_grant\<lparr>gr_action_pattern := ''*''\<rparr>" and grs = "[]" and
        cred = "Some (''authorization'', ''Bearer k'')" and ext = None and audit = "[(''status'', jint 200)]"])
    (simp_all only: assms demo_tool_ready demo_http_usable demo_http_valid,
     simp_all add: demo_grant_def demo_http_answer [unfolded http_spec_sel] demo_http_hooks)

theorem http_tool_contained_witness:
  "length (filter is_dispatch (ps_trace (snd (externalHttpRequest demo_tool demo_post demo_tool_proc)))) = 1
   \<and> (\<exists>inp d. Call_dispatch inp d \<in> set (ps_trace (snd (externalHttpRequest demo_tool demo_post demo_tool_proc)))
        \<and> sealed_headers inp (rq_headers (tool_request demo_tool demo_post inp)))"
proof -
  have one: "length (filter is_dispatch (ps_trace (snd (externalHttpRequest demo_tool demo_post demo_tool_proc)))) = 1"
    using execution_completes [OF demo_tool_ready(1) refl demo_http_completes]
    by (auto simp: externalHttpRequest_def bindP_def returnP_def demo_http_hooks demo_tool_proc_def split: prod.split)
  obtain inp d where call: "Call_dispatch inp d \<in> set (ps_trace (snd (externalHttpRequest demo_tool demo_post demo_tool_proc)))"
    using one_dispatch_call [OF one] by blast
  have "resolver_typed (tc_network demo_tool)" "ps_trace demo_tool_proc = []"
    by (simp_all add: demo_tool_def demo_typed demo_tool_proc_def)
  with http_tool_contained [of demo_tool, OF _ prod.collapse [symmetric], of demo_post demo_tool_proc] call
  have "sealed_headers inp (rq_headers (tool_request demo_tool demo_post inp))" by (auto simp: Let_def)
  with one call show ?thesis by blast
qed

abbreviation demo_mcp :: action_spec where
  "demo_mcp \<equiv> mcp_spec demo_tool demo_call demo_entry []"

lemma demo_mcp_usable:
  "usable_grants demo_mcp False (declared_grants (action_context demo_tool) demo_mcp (ps_world demo_tool_proc))
     = [demo_grant\<lparr>gr_action_pattern := ''*''\<rparr>]"
  by code_simp

lemma demo_mcp_answer:
  "sp_dispatch demo_mcp \<lparr>di_key = key, di_credential = Some (''authorization'', ''Bearer k''), di_patterns = [''*'']\<rparr> n
   = Disp_ok [(''content'', JStr ''found'')] None []"
  by code_simp

lemma demo_mcp_hooks:
  "sp_beforeDispatch demo_mcp = None" "sp_afterDispatch demo_mcp = None" "sp_afterCommit demo_mcp = None"
  "validation_passes demo_mcp declared usable"
  by (simp_all add: mcp_spec_def demo_tool_def validation_passes_def)

lemma demo_mcp_completes:
  assumes "ps_env h = (\<lambda>_ w. w)" and "ps_world h = ps_world demo_tool_proc"
  shows "fst (executeGovernedActionFenced (action_context demo_tool) demo_mcp key h) =
    Inr (Completed [(''content'', JStr ''found'')] False)"
  by (rule authorized_completes [where gr = "demo_grant\<lparr>gr_action_pattern := ''*''\<rparr>" and grs = "[]" and
        cred = "Some (''authorization'', ''Bearer k'')" and ext = None and audit = "[]"])
    (simp_all only: assms demo_tool_ready demo_mcp_usable,
     simp_all add: demo_grant_def demo_mcp_answer [unfolded mcp_spec_sel] demo_mcp_hooks demo_http_hooks)

theorem mcp_tool_contained_witness:
  "length (filter is_dispatch (ps_trace (snd (dispatchMcp demo_tool demo_call demo_entry [] demo_tool_proc)))) = 1
   \<and> (\<exists>inp d. Call_dispatch inp d \<in> set (ps_trace (snd (dispatchMcp demo_tool demo_call demo_entry [] demo_tool_proc)))
        \<and> clean_answer (tc_cfg demo_tool) inp d)"
proof -
  have one: "length (filter is_dispatch (ps_trace (snd (dispatchMcp demo_tool demo_call demo_entry [] demo_tool_proc)))) = 1"
    using execution_completes [OF demo_tool_ready(1) refl demo_mcp_completes]
    by (auto simp: dispatchMcp_def bindP_def returnP_def demo_http_hooks demo_tool_proc_def split: prod.split)
  obtain inp d where call: "Call_dispatch inp d \<in> set (ps_trace (snd (dispatchMcp demo_tool demo_call demo_entry [] demo_tool_proc)))"
    using one_dispatch_call [OF one] by blast
  have "ps_trace demo_tool_proc = []" by (simp add: demo_tool_proc_def)
  with mcp_tool_contained [of demo_tool demo_call demo_entry "[]" demo_tool_proc] call
  have "clean_answer (tc_cfg demo_tool) inp d" by auto
  with one call show ?thesis by blast
qed

theorem tool_call_keeps_kernel_witness:
  "kernel_from (ps_world demo_tool_proc)
     (ps_world (snd (dispatchTool demo_tool ''external_http_request'' demo_post demo_tool_proc)))"
  by (rule conjunct1 [OF tool_call_keeps_kernel [OF demo_tool_ready(2)]]) (simp only: demo_tool_ready(1))

end
