(* ===== verification/Context.thy ===== *)
theory Context
  imports Model_Calls Tool_Router
begin

text \<open>
  What the model is shown: \<^verbatim>\<open>src/harness/contextCompiler.ts\<close>. The prompt is compiled from the agent
  version, the run, its grants and the tail of the transcript. Line breaks are the character 10.
\<close>

section \<open>Messages\<close>

datatype role = System | User | Assistant | Tool

record chat_message =
  cm_role :: role
  cm_content :: "string option"
  cm_toolCalls :: "tool_call list option"
  cm_toolCallId :: "string option"

definition plain_message :: "role \<Rightarrow> string \<Rightarrow> chat_message" where
  "plain_message r content = \<lparr>cm_role = r, cm_content = Some content, cm_toolCalls = None, cm_toolCallId = None\<rparr>"

definition tool_message :: "string \<Rightarrow> string \<Rightarrow> chat_message" where
  "tool_message content callId =
     \<lparr>cm_role = Tool, cm_content = Some content, cm_toolCalls = None, cm_toolCallId = Some callId\<rparr>"

definition role_name :: "role \<Rightarrow> string" where
  "role_name r = (case r of System \<Rightarrow> ''system'' | User \<Rightarrow> ''user'' | Assistant \<Rightarrow> ''assistant'' | Tool \<Rightarrow> ''tool'')"

definition tool_call_json :: "tool_call \<Rightarrow> json" where
  "tool_call_json c =
     JObj [(''id'', JStr (tc_id c)), (''name'', JStr (tc_name c)), (''arguments'', JObj (tc_arguments c))]"

definition message_json :: "chat_message \<Rightarrow> json" where
  "message_json m =
     JObj ([(''role'', JStr (role_name (cm_role m))), (''content'', jopt JStr (cm_content m))]
       @ (case cm_toolCalls m of None \<Rightarrow> [] | Some cs \<Rightarrow> [(''toolCalls'', JArr (map tool_call_json cs))])
       @ (case cm_toolCallId m of None \<Rightarrow> [] | Some i \<Rightarrow> [(''toolCallId'', JStr i)]))"

section \<open>The prompt\<close>

definition TRANSCRIPT_TAIL :: nat where "TRANSCRIPT_TAIL = 60"

definition nl :: string where "nl = [CHR 0x0A]"

fun join :: "string \<Rightarrow> string list \<Rightarrow> string" where
  "join sep [] = []"
| "join sep [s] = s"
| "join sep (s # t # ss) = s @ sep @ join sep (t # ss)"

text \<open>\<^verbatim>\<open>JSON.stringify(v, null, 2)\<close>.\<close>

fun pretty :: "(rat \<Rightarrow> string) \<Rightarrow> nat \<Rightarrow> json \<Rightarrow> string" where
  "pretty fmt i (JArr []) = ''[]''"
| "pretty fmt i (JArr (v # vs)) =
     ''['' @ nl @ join ('','' @ nl) (map (\<lambda>x. replicate (i + 2) CHR '' '' @ pretty fmt (i + 2) x) (v # vs))
     @ nl @ replicate i CHR '' '' @ '']''"
| "pretty fmt i (JObj []) = ''{}''"
| "pretty fmt i (JObj (kv # kvs)) =
     ''{'' @ nl
     @ join ('','' @ nl) (map (\<lambda>(k, x). replicate (i + 2) CHR '' '' @ json_quote k @ '': '' @ pretty fmt (i + 2) x) (kv # kvs))
     @ nl @ replicate i CHR '' '' @ ''}''"
| "pretty fmt i v = stringify fmt v"

record materialized_skill =
  sk_name :: string
  sk_version :: string
  sk_description :: "string option"
  sk_path :: string

record memory_record =
  mr_id :: string
  mr_kind :: string
  mr_content :: string

definition skill_line :: "materialized_skill \<Rightarrow> string" where
  "skill_line s =
     ''- '' @ sk_name s @ '' v'' @ sk_version s
     @ (case sk_description s of None \<Rightarrow> [] | Some d \<Rightarrow> if d = [] then [] else '' '' @ em_dash @ '' '' @ d)
     @ '' (at '' @ sk_path s @ '')''"

definition grant_line :: "grant_row \<Rightarrow> string" where
  "grant_line g =
     ''- '' @ gr_action_pattern g @ '' on '' @ gr_resource_pattern g
     @ (if gr_requires_approval g then '' (requires human approval)'' else [])
     @ (case gr_max_calls g of None \<Rightarrow> [] | Some m \<Rightarrow> '' (max '' @ int_digits m @ '' calls)'')"

definition system_prompt :: "string \<Rightarrow> string \<Rightarrow> materialized_skill list \<Rightarrow> grant_row list \<Rightarrow> string" where
  "system_prompt instructions toolDocs skills grants =
     join nl
       ([instructions, [], ''# Execution environment'',
         ''You are a durable agent process. Your work happens in a Linux sandbox'',
         ''with a persistent '' @ WORKSPACE_DIR @ '' directory that survives sandbox loss.'',
         ''Work step by step using the available tools. Keep the progress ledger'',
         ''up to date with progress.update '' @ em_dash @ '' it is how your work survives'',
         ''interruption. When the goal is fully achieved, call run.complete.'', [], ''# Tools'', toolDocs, []]
        @ (if skills \<noteq> [] then [[], ''# Skills available (materialized into your workspace)''] @ map skill_line skills else [])
        @ [[], ''# Capabilities granted to this run'',
           if grants \<noteq> [] then join nl (map grant_line grants) else ''- none beyond built-in workspace tools''])"

definition status_name :: "approval_status \<Rightarrow> string" where
  "status_name s = (case s of AP_PENDING \<Rightarrow> ''PENDING'' | AP_APPROVED \<Rightarrow> ''APPROVED'' | AP_DENIED \<Rightarrow> ''DENIED'' | AP_EXPIRED \<Rightarrow> ''EXPIRED'')"

record context_input =
  cc_instructions :: string
  cc_run :: run_row
  cc_grants :: "grant_row list"
  cc_transcript :: "chat_message list"
  cc_userMessages :: "string list"
  cc_approvalOutcomes :: "(string \<times> approval_status) list"
  cc_memories :: "memory_record list"
  cc_skills :: "materialized_skill list"
  cc_toolDocs :: string

definition user_parts :: "(rat \<Rightarrow> string) \<Rightarrow> context_input \<Rightarrow> string list" where
  "user_parts fmt i =
     (if cc_memories i \<noteq> []
      then [''# What you remember (long-term memory from past runs)'' @ nl
            @ join nl (map (\<lambda>m. ''- ['' @ mr_kind m @ ''] '' @ mr_content m) (cc_memories i))] else [])
     @ [''# Goal'' @ nl @ run_goal (cc_run i)]
     @ (if run_progress (cc_run i) \<noteq> JObj []
        then [''# Progress ledger (your durable state)'' @ nl @ pretty fmt 0 (run_progress (cc_run i))] else [])
     @ (if cc_approvalOutcomes i \<noteq> []
        then [''# Approval decisions since you last ran'' @ nl
              @ join nl (map (\<lambda>(action, s). ''- '' @ action @ '': '' @ status_name s) (cc_approvalOutcomes i))] else [])
     @ (if cc_userMessages i \<noteq> []
        then [''# New user messages'' @ nl @ join nl (map (\<lambda>m. ''- '' @ m) (cc_userMessages i))] else [])
     @ [''Remaining budget: '' @ int_digits (run_max_steps (cc_run i)) @ '' total steps for this run.'']"

definition transcript_tail :: "chat_message list \<Rightarrow> chat_message list" where
  "transcript_tail transcript =
     (if TRANSCRIPT_TAIL < length transcript
      then plain_message User (''['' @ nat_digits (length transcript - TRANSCRIPT_TAIL)
             @ '' earlier transcript messages truncated '' @ em_dash @ '' rely on the progress ledger]'')
           # drop (length transcript - TRANSCRIPT_TAIL) transcript
      else transcript)"

definition compileContext :: "(rat \<Rightarrow> string) \<Rightarrow> context_input \<Rightarrow> chat_message list" where
  "compileContext fmt i =
     [plain_message System (system_prompt (cc_instructions i) (cc_toolDocs i) (cc_skills i) (cc_grants i)),
      plain_message User (join (nl @ nl) (user_parts fmt i))]
     @ transcript_tail (cc_transcript i)"

text \<open>The bytes that the budget of an invocation counts.\<close>

definition promptBytes :: "(rat \<Rightarrow> string) \<Rightarrow> chat_message list \<Rightarrow> json \<Rightarrow> nat" where
  "promptBytes fmt messages tools =
     length (stringify fmt (JObj [(''messages'', JArr (map message_json messages)), (''tools'', tools)]))"

section \<open>Facts\<close>

lemma transcript_tail_length: "length (transcript_tail ts) \<le> TRANSCRIPT_TAIL + 1"
  by (simp add: transcript_tail_def)

end
