(* ===== verification/Epoch.thy ===== *)
theory Epoch
  imports Artifacts Context Scheduler
begin

text \<open>
  An execution epoch, \<^verbatim>\<open>src/harness/epoch.ts\<close> with \<^verbatim>\<open>src/harness/skills.ts\<close>: what a worker does with a run it
  has claimed. It restores the checkpoint, the transcript and the workspace, resumes a suspended call, and
  then alternates model calls and tools until the run is done, suspended or out of budget.

  An epoch is a process that shares the database with every other worker and the API. Providers, the
  sandbox and the worker's abort signal are environments that answer at a moment of the execution. The advisory lock
  that serialises model calls of one run and the timers of the providers are not modelled, nor is the
  crash that is injected after a checkpoint for benchmarks.
\<close>

section \<open>What an epoch is given\<close>

record sandbox_spec =
  ss_image :: "string option"
  ss_cpuMilli :: "js_number option"
  ss_memoryMB :: "js_number option"
  ss_timeoutMinutes :: "js_number option"

record agent_version =
  av_agentId :: string
  av_instructions :: string
  av_model :: "string option"
  av_escalationModel :: "string option"
  av_maxTokens :: "js_number option"
  av_temperature :: "js_number option"
  av_skillRefs :: "json list"
  av_mcpToolsetRefs :: "string list"
  av_sandboxSpec :: sandbox_spec
  av_verifierPolicy :: verifier_policy

record epoch_config =
  ec_sandboxTimeoutMinutes :: js_number
  ec_checkpointEverySteps :: int
  ec_supervisorEnabled :: bool
  ec_thresholds :: supervisor_thresholds
  ec_modelMaxOutputTokens :: int
  ec_arkModel :: "string option"
  ec_escalationModel :: "string option"

record completion =
  cp_message :: chat_message
  cp_usage :: model_usage

record chat_request =
  cq_model :: string
  cq_messages :: "chat_message list"
  cq_tools :: json
  cq_maxTokens :: int
  cq_temperature :: "js_number option"

record resolved_skill =
  sl_name :: string
  sl_version :: string
  sl_description :: "string option"
  sl_files :: "(string \<times> string) list"

record 'w epoch_env =
  ee_run :: run_row
  ee_attempt :: attempt_row
  ee_version :: "agent_version option"
  ee_cfg :: epoch_config
  ee_aborted :: "nat \<Rightarrow> bool"
  ee_create :: "string \<Rightarrow> sandbox_spec \<Rightarrow> nat \<Rightarrow> err + sandbox"
  ee_baseUrl :: "sandbox \<Rightarrow> string"
  ee_terminate :: "sandbox \<Rightarrow> nat \<Rightarrow> err + unit"
  ee_store :: object_store
  ee_chat :: "chat_request \<Rightarrow> nat \<Rightarrow> err + completion"
  ee_recall :: "(nat \<Rightarrow> err + memory_record list) option"
  ee_resolveSkill :: "(json \<Rightarrow> nat \<Rightarrow> err + resolved_skill) option"
  ee_mcpTools :: "(string \<Rightarrow> string list) option"
  ee_mcpPolicy :: "string \<Rightarrow> string \<Rightarrow> mcp_policy"
  ee_toolDocs :: string
  ee_toolDefs :: "string list \<Rightarrow> json"                        \<comment> \<open>the schemas, given the names of the MCP tools\<close>
  ee_tools :: "'w tool_ctx"                                   \<comment> \<open>the providers of the tools\<close>
  ee_reader :: url_reader
  ee_number :: "string \<Rightarrow> rat option"
  ee_parseTranscript :: "string \<Rightarrow> chat_message list option"

abbreviation ee_fmt :: "'w epoch_env \<Rightarrow> rat \<Rightarrow> string" where "ee_fmt ee \<equiv> tc_fmt (ee_tools ee)"
abbreviation ee_rid :: "'w epoch_env \<Rightarrow> string" where "ee_rid ee \<equiv> run_id (ee_run ee)"
abbreviation ee_aid :: "'w epoch_env \<Rightarrow> string" where "ee_aid ee \<equiv> att_id (ee_attempt ee)"

text \<open>The variables of the loop; \<open>ls_run\<close> is the run object whose usage the loop updates.\<close>

record loop_state =
  ls_run :: run_row
  ls_step :: int
  ls_transcript :: "chat_message list"
  ls_verifyRetries :: nat
  ls_noToolTurns :: nat
  ls_supervisor :: supervisor_state
  ls_selection :: json

definition liftP :: "err + 'a \<Rightarrow> 'a proc" where
  "liftP r = (case r of Inl e \<Rightarrow> throwP e | Inr x \<Rightarrow> returnP x)"

text \<open>The abort signal, read at a moment of the execution.\<close>

definition abortedP :: "'w epoch_env \<Rightarrow> bool proc" where
  "abortedP ee = external (ee_aborted ee) (\<lambda>_. Call_provider ''signal'')"

definition MAX_VERIFY_RETRIES :: nat where "MAX_VERIFY_RETRIES = 2"
definition MAX_NO_TOOL_TURNS :: nat where "MAX_NO_TOOL_TURNS = 3"

section \<open>Skills\<close>

definition materialize_one :: "sandbox \<Rightarrow> (json \<Rightarrow> nat \<Rightarrow> err + resolved_skill) \<Rightarrow> json \<Rightarrow> materialized_skill proc" where
  "materialize_one sx resolve ref =
     bindP (provider_call ''skill'' (resolve ref)) (\<lambda>skill.
     let base = WORKSPACE_DIR @ ''/.skills/'' @ sl_name skill in
     thenP (mapP (\<lambda>(rel, content). provider_call ''writeFile'' (sx_writeFile sx (base @ ''/'' @ rel) content)) (sl_files skill))
           (returnP \<lparr>sk_name = sl_name skill, sk_version = sl_version skill, sk_description = sl_description skill,
                     sk_path = base\<rparr>))"

definition materializeSkills ::
    "sandbox \<Rightarrow> (json \<Rightarrow> nat \<Rightarrow> err + resolved_skill) option \<Rightarrow> json list \<Rightarrow> materialized_skill list proc" where
  "materializeSkills sx resolve refs =
     (case resolve of None \<Rightarrow> returnP [] | Some f \<Rightarrow> mapP (materialize_one sx f) refs)"

section \<open>Checkpoints\<close>

definition supervisor_json :: "supervisor_state \<Rightarrow> json" where
  "supervisor_json s =
     JObj [(''actionWindow'', JArr (map JStr (sv_actionWindow s))),
       (''progressWindow'', JArr (map (\<lambda>n. jint (int n)) (sv_progressWindow s))),
       (''escalationLevel'', jint (int (sv_escalationLevel s))), (''recoveries'', jint (int (sv_recoveries s)))]"

definition member_or_empty :: "json \<Rightarrow> string \<Rightarrow> json" where
  "member_or_empty v name =
     (case v of
        JObj kvs \<Rightarrow> (case jfield kvs name of None \<Rightarrow> JArr [] | Some JNull \<Rightarrow> JArr [] | Some x \<Rightarrow> x)
      | _ \<Rightarrow> JArr [])"

definition run_children :: "world \<Rightarrow> string \<Rightarrow> run_row list" where
  "run_children w rid =
     sort_key (\<lambda>r. (run_created_at r, run_id r)) (filter (\<lambda>r. run_parent_run_id r = Some rid) (w_runs w))"

definition commitments_of :: "world \<Rightarrow> run_row \<Rightarrow> json" where
  "commitments_of w run =
     JObj [(''awaitedSignal'', jopt JStr (run_awaited_signal run)),
       (''pendingApprovalIds'', JArr (map (\<lambda>a. JStr (ap_id a))
          (filter (\<lambda>a. ap_status a = AP_PENDING) (listApprovals w (run_id run) None)))),
       (''activeChildRunIds'', JArr (map (\<lambda>c. JStr (run_id c))
          (filter (\<lambda>c. run_status c \<notin> {COMPLETED, FAILED, CANCELLED}) (run_children w (run_id run))))),
       (''pendingWork'', JObj [(''active'', member_or_empty (run_progress run) ''active''),
          (''blocked'', member_or_empty (run_progress run) ''blocked''),
          (''remaining'', member_or_empty (run_progress run) ''remaining'')])]"

definition references_of :: "world \<Rightarrow> run_row \<Rightarrow> json" where
  "references_of w run =
     JObj [(''childRunIds'', JArr (map (\<lambda>c. JStr (run_id c)) (run_children w (run_id run)))),
       (''artifactIds'', JArr (map (\<lambda>a. JStr (art_id a)) (listArtifactsForRun w (run_id run) (Some (run_tenant_id run))))),
       (''evidence'', JArr [JObj [(''runId'', JStr (run_id run)), (''eventSeq'', JStr (int_digits (run_last_event_seq run)))]])]"

definition state_input :: "world \<Rightarrow> run_row \<Rightarrow> string \<Rightarrow> loop_state \<Rightarrow> tool_call option \<Rightarrow> checkpoint_input" where
  "state_input w run transcriptTosKey ls pending =
     \<lparr>ci_step = of_int (ls_step ls), ci_transcriptTosKey = Some transcriptTosKey, ci_contextSummary = None,
      ci_supervisor = Some (supervisor_json (ls_supervisor ls)), ci_pendingToolCall = map_option tool_call_json pending,
      ci_commitments = Some (commitments_of w run), ci_references = Some (references_of w run),
      ci_contextSelection = Some (ls_selection ls)\<rparr>"

definition checkpoint_txn ::
    "'w epoch_env \<Rightarrow> loop_state \<Rightarrow> string \<Rightarrow> string \<Rightarrow> tool_call option \<Rightarrow> unit txn" where
  "checkpoint_txn ee ls transcriptTosKey revisionId pending =
     bindT (getsT (\<lambda>w. w)) (\<lambda>w.
     case find_run w (ee_rid ee) of
       None \<Rightarrow> throwT (GenericError ''Cannot read properties of undefined'')
     | Some run \<Rightarrow>
         bindT (liftT (createCheckpointEnvelope (ee_reader ee)
                  (state_input w (run\<lparr>run_tenant_id := run_tenant_id (ee_run ee)\<rparr>) transcriptTosKey ls pending))) (\<lambda>env.
         thenT (insertCheckpoint (ee_reader ee)
                  \<lparr>cn_runId = ee_rid ee, cn_attemptId = ee_aid ee, cn_eventSeq = run_last_event_seq run,
                   cn_workspaceRevisionId = Some revisionId, cn_progress = run_progress run, cn_agentState = env\<rparr>)
               (returnT ())))"

definition transcript_text :: "'w epoch_env \<Rightarrow> chat_message list \<Rightarrow> string" where
  "transcript_text ee transcript = stringify (ee_fmt ee) (JArr (map message_json transcript))"

definition workspace_of :: "'w epoch_env \<Rightarrow> string" where
  "workspace_of ee = or_else (run_workspace_id (ee_run ee)) ''null''"

definition saveCheckpoint :: "'w epoch_env \<Rightarrow> sandbox \<Rightarrow> loop_state \<Rightarrow> tool_call option \<Rightarrow> unit proc" where
  "saveCheckpoint ee sx ls pending =
     (let transcriptTosKey = ''runs/'' @ ee_rid ee @ ''/transcripts/'' @ ee_aid ee @ ''-'' @ int_digits (ls_step ls) @ ''.json'' in
      thenP (provider_call ''put'' (os_put (ee_store ee) transcriptTosKey (transcript_text ee (ls_transcript ls))))
     (bindP (workspace_checkpoint (ee_number ee) (ee_store ee) sx (ee_rid ee) (ee_aid ee) (workspace_of ee)) (\<lambda>revisionId.
      withTransaction (checkpoint_txn ee ls transcriptTosKey revisionId pending))))"

definition cleanup :: "'w epoch_env \<Rightarrow> sandbox \<Rightarrow> unit proc" where
  "cleanup ee sx =
     thenP (catchP (provider_call ''terminate'' (ee_terminate ee sx)) (\<lambda>_. returnP ()))
           (catchP (thenP (withTransaction (appendEvent (ee_rid ee) SandboxTerminated
                            [(''sandboxId'', JStr (sx_id sx))] (Some (ee_aid ee)) no_patch)) (returnP ()))
                   (\<lambda>_. returnP ()))"

text \<open>Save, clean up, leave.\<close>

definition leave_epoch :: "'w epoch_env \<Rightarrow> sandbox \<Rightarrow> loop_state \<Rightarrow> tool_call option \<Rightarrow> epoch_exit \<Rightarrow> (epoch_exit + loop_state) proc" where
  "leave_epoch ee sx ls pending reason =
     thenP (saveCheckpoint ee sx ls pending) (thenP (cleanup ee sx) (returnP (Inl reason)))"

section \<open>The model call\<close>

text \<open>What the loop reads and never changes.\<close>

record 'w loop_env =
  le_epoch :: "'w epoch_env"
  le_version :: agent_version
  le_sandbox :: sandbox
  le_tools :: "'w tool_ctx"
  le_toolDefs :: json
  le_skills :: "materialized_skill list"
  le_memories :: "memory_record list"

abbreviation le_fmt :: "'w loop_env \<Rightarrow> rat \<Rightarrow> string" where "le_fmt le \<equiv> ee_fmt (le_epoch le)"
abbreviation le_rid :: "'w loop_env \<Rightarrow> string" where "le_rid le \<equiv> ee_rid (le_epoch le)"
abbreviation le_aid :: "'w loop_env \<Rightarrow> string" where "le_aid le \<equiv> ee_aid (le_epoch le)"

datatype model_answer =
    Answer_lease_lost
  | Answer_budget_exhausted
  | Answer completion run_row "int option" bool int

definition selection_of :: "'w loop_env \<Rightarrow> chat_message list \<Rightarrow> nat \<Rightarrow> nat \<Rightarrow> json" where
  "selection_of le transcript userMessages approvalOutcomes =
     JObj [(''strategyVersion'', JStr ''context-compiler/v1''), (''transcriptTailLimit'', jint (int TRANSCRIPT_TAIL)),
       (''transcriptMessagesAvailable'', jint (int (length transcript))),
       (''transcriptMessagesSelected'', jint (int (min (length transcript) TRANSCRIPT_TAIL))),
       (''memoryIds'', JArr (map (\<lambda>m. JStr (mr_id m)) (le_memories le))),
       (''userMessageCount'', jint (int userMessages)), (''approvalOutcomeCount'', jint (int approvalOutcomes)),
       (''skillRefs'', JArr (map (\<lambda>s. JStr (sk_name s @ ''@'' @ sk_version s)) (le_skills le)))]"

definition context_of ::
    "'w loop_env \<Rightarrow> loop_state \<Rightarrow> run_row \<Rightarrow> grant_row list \<Rightarrow> string list \<Rightarrow> (string \<times> approval_status) list \<Rightarrow> context_input" where
  "context_of le ls run grants userMessages approvalOutcomes =
     \<lparr>cc_instructions = av_instructions (le_version le), cc_run = run, cc_grants = grants, cc_transcript = ls_transcript ls,
      cc_userMessages = userMessages, cc_approvalOutcomes = approvalOutcomes, cc_memories = le_memories le,
      cc_skills = le_skills le, cc_toolDocs = ee_toolDocs (le_epoch le)\<rparr>"

definition chat_of :: "'w loop_env \<Rightarrow> loop_state \<Rightarrow> chat_message list \<Rightarrow> invocation_limit \<Rightarrow> chat_request" where
  "chat_of le ls messages limit =
     (let v = le_version le; cfg = ee_cfg (le_epoch le) in
      \<lparr>cq_model = routeModel (av_model v) (av_escalationModel v) (ec_arkModel cfg) (ec_escalationModel cfg)
         (sv_escalationLevel (ls_supervisor ls)),
       cq_messages = messages, cq_tools = le_toolDefs le, cq_maxTokens = il_maxTokens limit,
       cq_temperature = av_temperature v\<rparr>)"

definition call_model :: "'w loop_env \<Rightarrow> loop_state \<Rightarrow> run_row \<Rightarrow> chat_message list \<Rightarrow> model_answer proc" where
  "call_model le ls run messages =
     (case limitModelInvocation (run_token_budget run) (run_tokens_used run) (promptBytes (le_fmt le) messages (le_toolDefs le))
             (av_maxTokens (le_version le)) (ec_modelMaxOutputTokens (ee_cfg (le_epoch le))) of
        None \<Rightarrow> returnP Answer_budget_exhausted
      | Some limit \<Rightarrow>
          bindP (provider_call ''chat'' (ee_chat (le_epoch le) (chat_of le ls messages limit))) (\<lambda>completion.
          bindP (withTransaction (completeModelInvocation (le_rid le) (le_aid le) (ls_step ls) (cp_usage completion)))
            (\<lambda>(tokensUsed, stillOwned).
          returnP (Answer completion run (il_remaining limit) stillOwned tokensUsed))))"

text \<open>The invocation, with the context selection that later checkpoints record.\<close>

definition invocation_step :: "'w loop_env \<Rightarrow> loop_state \<Rightarrow> (model_answer \<times> loop_state) proc" where
  "invocation_step le ls =
     bindP (abortedP (le_epoch le)) (\<lambda>aborted.
     if aborted then returnP (Answer_lease_lost, ls)
     else bindP (withTransaction (beginModelInvocation (le_rid le) (le_aid le) (ls_step ls))) (\<lambda>started.
       case started of
         None \<Rightarrow> returnP (Answer_lease_lost, ls)
       | Some run \<Rightarrow>
           bindP (query (\<lambda>w. listGrants w (le_rid le))) (\<lambda>grants.
           bindP (query (\<lambda>w. unseenUserMessages (js_string (le_fmt le)) w (le_rid le))) (\<lambda>userMessages.
           bindP (query (\<lambda>w. recentApprovalOutcomes w (le_rid le))) (\<lambda>approvalOutcomes.
           let ls' = ls\<lparr>ls_selection := selection_of le (ls_transcript ls) (length userMessages) (length approvalOutcomes)\<rparr> in
           bindP (call_model le ls' run
                    (compileContext (le_fmt le) (context_of le ls run grants userMessages approvalOutcomes)))
             (\<lambda>answer. returnP (answer, ls')))))))"

section \<open>Supervision\<close>

definition completed_items :: "json \<Rightarrow> err + string list" where
  "completed_items progress =
     collect (\<lambda>v. case v of JStr s \<Rightarrow> Inr s | _ \<Rightarrow> Inl (GenericError ''c.toLowerCase is not a function''))
       (ledgerCompleted progress)"

definition supervisor_input_of ::
    "'w loop_env \<Rightarrow> loop_state \<Rightarrow> tool_call list \<Rightarrow> run_row \<Rightarrow> string list \<Rightarrow> supervisor_input" where
  "supervisor_input_of le ls calls freshRun completed =
     (let (signature, targets) = actionSignature (le_fmt le) calls in
      \<lparr>si_proposedSignature = (if calls = [] then None else Some signature), si_proposedTargets = targets,
       si_completedItems = completed, si_remainingItems = ledgerRemaining (run_progress freshRun),
       si_step = ls_step ls, si_maxSteps = run_max_steps (ls_run ls), si_tokensUsed = run_tokens_used (ls_run ls),
       si_tokenBudget = run_token_budget (ls_run ls)\<rparr>)"

definition to_failed :: "string \<Rightarrow> string \<Rightarrow> transition_options" where
  "to_failed attemptId reason =
     \<lparr>to_expectFrom = [RUNNING], to_to = FAILED, to_type = RunFailed, to_payload = [(''reason'', JStr reason)],
      to_attempt = Some attemptId, to_reason = Some reason, to_patch = no_patch\<rparr>"

definition steer :: "directive \<Rightarrow> chat_message list" where
  "steer d =
     (case d of
        Recover note \<Rightarrow> [plain_message User note]
      | Escalate_model note \<Rightarrow> [plain_message User note]
      | Wind_down note \<Rightarrow> [plain_message User note]
      | _ \<Rightarrow> [])"

definition supervise_turn ::
    "'w loop_env \<Rightarrow> loop_state \<Rightarrow> tool_call list \<Rightarrow> run_row \<Rightarrow> (epoch_exit + loop_state) proc" where
  "supervise_turn le ls calls freshRun =
     bindP (liftP (completed_items (run_progress freshRun))) (\<lambda>completed.
     let sup = evaluate int_digits (ec_thresholds (ee_cfg (le_epoch le))) (ls_supervisor ls)
                 (supervisor_input_of le ls calls freshRun completed);
         ls' = ls\<lparr>ls_supervisor := sr_state sup\<rparr> in
     thenP (if sr_detections sup \<noteq> [] \<or> sr_directive sup \<noteq> Continue
            then withTransaction (recordSupervision (le_rid le) (le_aid le) sup) else returnP ())
           (case sr_directive sup of
              Terminate reason \<Rightarrow>
                thenP (withTransaction (transitionRun (le_rid le) (to_failed (le_aid le) reason)))
                      (leave_epoch (le_epoch le) (le_sandbox le) ls' None Ex_failed)
            | d \<Rightarrow> returnP (Inr (ls'\<lparr>ls_transcript := ls_transcript ls' @ steer d\<rparr>))))"

section \<open>Finishing a run\<close>

definition to_verifying :: "string \<Rightarrow> string \<Rightarrow> string list \<Rightarrow> transition_options" where
  "to_verifying attemptId summary artifacts =
     \<lparr>to_expectFrom = [RUNNING], to_to = VERIFYING, to_type = VerificationStarted,
      to_payload = [(''summary'', JStr summary), (''artifacts'', JArr (map JStr artifacts))],
      to_attempt = Some attemptId, to_reason = None, to_patch = no_patch\<rparr>"

definition back_to_running :: "string \<Rightarrow> string list \<Rightarrow> transition_options" where
  "back_to_running attemptId failures =
     \<lparr>to_expectFrom = [VERIFYING], to_to = RUNNING, to_type = VerificationFailed,
      to_payload = [(''failures'', JArr (map JStr failures))],
      to_attempt = Some attemptId, to_reason = None, to_patch = no_patch\<rparr>"

definition to_completed :: "string \<Rightarrow> string \<Rightarrow> artifact_input list \<Rightarrow> json \<Rightarrow> nat \<Rightarrow> transition_options" where
  "to_completed attemptId summary staged result sizeBytes =
     \<lparr>to_expectFrom = [VERIFYING], to_to = COMPLETED, to_type = RunCompleted,
      to_payload = [(''summary'', JStr summary),
        (''artifacts'', JArr (map (\<lambda>a. jopt JStr (ai_id a)) staged))],
      to_attempt = Some attemptId, to_reason = None,
      to_patch = no_patch\<lparr>p_result := Some (Some result), p_result_size_bytes := Some (Some (int sizeBytes))\<rparr>\<rparr>"

definition stage_context_of :: "'w loop_env \<Rightarrow> loop_state \<Rightarrow> int \<Rightarrow> stage_context" where
  "stage_context_of le ls seq =
     \<lparr>sg_runId = le_rid le, sg_attemptId = le_aid le, sg_producerStep = ls_step ls, sg_verificationPassedEventSeq = seq,
      sg_sandbox = le_sandbox le, sg_objectStore = ee_store (le_epoch le), sg_sha256 = tc_sha256 (ee_tools (le_epoch le))\<rparr>"

definition complete_run ::
    "'w loop_env \<Rightarrow> string \<Rightarrow> artifact_input list \<Rightarrow> json \<Rightarrow> nat \<Rightarrow> unit txn" where
  "complete_run le summary staged result sizeBytes =
     bindT (mapT createArtifact staged) (\<lambda>_.
     thenT (transitionRun (le_rid le) (to_completed (le_aid le) summary staged result sizeBytes)) (returnT ()))"

text \<open>The failures of the verification, or nothing if the run completed.\<close>

definition finishRun ::
    "'w loop_env \<Rightarrow> loop_state \<Rightarrow> string \<Rightarrow> string list \<Rightarrow> json \<Rightarrow> nat \<Rightarrow> string list option proc" where
  "finishRun le ls summary artifacts result sizeBytes =
     (let ee = le_epoch le; sx = le_sandbox le in
      thenP (withTransaction (transitionRun (le_rid le) (to_verifying (le_aid le) summary artifacts)))
     (bindP (verify sx (le_rid le) (av_verifierPolicy (le_version le)) artifacts) (\<lambda>failures.
      if failures \<noteq> []
      then thenP (withTransaction (transitionRun (le_rid le) (back_to_running (le_aid le) failures)))
                 (returnP (Some failures))
      else bindP (withTransaction (appendEvent (le_rid le) VerificationPassed
                    [(''artifacts'', JArr (map JStr artifacts))] (Some (le_aid le)) no_patch)) (\<lambda>seq.
           bindP (stageArtifactOutputs (stage_context_of le ls seq) artifacts) (\<lambda>staged.
           thenP (workspace_checkpoint (ee_number ee) (ee_store ee) sx (le_rid le) (le_aid le) (workspace_of ee))
          (thenP (withTransaction (complete_run le summary staged result sizeBytes))
                 (returnP None)))))))"

section \<open>The tools of a turn\<close>

definition dispatch_call :: "'w loop_env \<Rightarrow> loop_state \<Rightarrow> tool_call \<Rightarrow> tool_outcome proc" where
  "dispatch_call le ls call =
     bindP (abortedP (le_epoch le)) (\<lambda>aborted.
     dispatchTool ((le_tools le)\<lparr>tc_run := ls_run ls, tc_step := ls_step ls, tc_aborted := aborted\<rparr>)
       (tc_name call) (tc_arguments call))"

definition say :: "loop_state \<Rightarrow> chat_message \<Rightarrow> loop_state" where
  "say ls m = ls\<lparr>ls_transcript := ls_transcript ls @ [m]\<rparr>"

definition verification_message :: "string list \<Rightarrow> string \<Rightarrow> chat_message" where
  "verification_message failures callId =
     tool_message (''verification FAILED:'' @ nl @ join nl failures @ nl @ ''Fix these problems, then call run_complete again.'')
       callId"

definition settle_completion ::
    "'w loop_env \<Rightarrow> loop_state \<Rightarrow> tool_call \<Rightarrow> string list option \<Rightarrow> (epoch_exit + loop_state) proc" where
  "settle_completion le ls call finished =
     (let ee = le_epoch le; sx = le_sandbox le in
      case finished of
        None \<Rightarrow> thenP (cleanup ee sx) (returnP (Inl Ex_completed))
      | Some failures \<Rightarrow>
          (let ls' = ls\<lparr>ls_verifyRetries := ls_verifyRetries ls + 1\<rparr> in
           if MAX_VERIFY_RETRIES < ls_verifyRetries ls'
           then thenP (withTransaction (transitionRun (le_rid le) (to_failed (le_aid le) ''verification_retries_exhausted'')))
               (thenP (cleanup ee sx) (returnP (Inl Ex_failed)))
           else returnP (Inr (say ls' (verification_message failures (tc_id call))))))"

definition settle_outcome ::
    "'w loop_env \<Rightarrow> loop_state \<Rightarrow> tool_call \<Rightarrow> tool_outcome \<Rightarrow> (epoch_exit + loop_state) proc" where
  "settle_outcome le ls call outcome =
     (let suspend = leave_epoch (le_epoch le) (le_sandbox le) ls (Some call) in
      case outcome of
        Suspended_approval _ \<Rightarrow> suspend Ex_suspended_for_approval
      | Suspended_signal _ \<Rightarrow> suspend Ex_suspended_for_signal
      | Suspended_children _ \<Rightarrow> suspend Ex_suspended_for_children
      | Complete summary artifacts result sizeBytes \<Rightarrow>
          bindP (finishRun le ls summary artifacts result sizeBytes) (settle_completion le ls call)
      | Result content \<Rightarrow> returnP (Inr (say ls (tool_message content (tc_id call)))))"

fun run_calls :: "'w loop_env \<Rightarrow> loop_state \<Rightarrow> tool_call list \<Rightarrow> (epoch_exit + loop_state) proc" where
  "run_calls le ls [] = returnP (Inr ls)"
| "run_calls le ls (call # calls) =
     bindP (abortedP (le_epoch le)) (\<lambda>aborted.
     if aborted then returnP (Inl Ex_lease_lost)
     else bindP (dispatch_call le ls call) (\<lambda>outcome.
          bindP (settle_outcome le ls call outcome) (\<lambda>r.
          case r of Inl e \<Rightarrow> returnP (Inl e) | Inr ls' \<Rightarrow> run_calls le ls' calls)))"

section \<open>A turn\<close>

definition nudge :: chat_message where
  "nudge = plain_message User
     ''Continue working with the available tools. When the goal is fully achieved, call run_complete.''"

definition end_step :: "'w loop_env \<Rightarrow> loop_state \<Rightarrow> (epoch_exit + loop_state) proc" where
  "end_step le ls =
     (let ls' = ls\<lparr>ls_step := ls_step ls + 1\<rparr>; every = ec_checkpointEverySteps (ee_cfg (le_epoch le)) in
      if every \<noteq> 0 \<and> ls_step ls' mod every = 0
      then thenP (saveCheckpoint (le_epoch le) (le_sandbox le) ls' None) (returnP (Inr ls'))
      else returnP (Inr ls'))"

definition act :: "'w loop_env \<Rightarrow> loop_state \<Rightarrow> tool_call list \<Rightarrow> (epoch_exit + loop_state) proc" where
  "act le ls calls =
     (if calls = []
      then (let ls' = ls\<lparr>ls_noToolTurns := ls_noToolTurns ls + 1\<rparr> in
            if MAX_NO_TOOL_TURNS \<le> ls_noToolTurns ls'
            then throwP (GenericError ''model stopped using tools without completing the run'')
            else returnP (Inr (say ls' nudge)))
      else bindP (run_calls le (ls\<lparr>ls_noToolTurns := 0\<rparr>) calls) (\<lambda>r.
           case r of Inl e \<Rightarrow> returnP (Inl e) | Inr ls' \<Rightarrow> end_step le ls'))"

definition answered ::
    "'w loop_env \<Rightarrow> loop_state \<Rightarrow> completion \<Rightarrow> run_row \<Rightarrow> int option \<Rightarrow> int \<Rightarrow> (epoch_exit + loop_state) proc" where
  "answered le ls completion freshRun remaining tokensUsed =
     (let ls1 = ls\<lparr>ls_run := (ls_run ls)\<lparr>run_tokens_used := tokensUsed\<rparr>\<rparr>;
          tokens = mu_inputTokens (cp_usage completion) + mu_outputTokens (cp_usage completion) in
      if (case remaining of None \<Rightarrow> False | Some left \<Rightarrow> left < tokens)
      then leave_epoch (le_epoch le) (le_sandbox le) ls1 None Ex_budget_exhausted
      else let ls2 = say ls1 (cp_message completion); calls = or_else (cm_toolCalls (cp_message completion)) [] in
        bindP (if ec_supervisorEnabled (ee_cfg (le_epoch le)) then supervise_turn le ls2 calls freshRun else returnP (Inr ls2))
          (\<lambda>r. case r of Inl e \<Rightarrow> returnP (Inl e) | Inr ls3 \<Rightarrow> act le ls3 calls))"

definition epoch_turn :: "'w loop_env \<Rightarrow> loop_state \<Rightarrow> (epoch_exit + loop_state) proc" where
  "epoch_turn le ls =
     (let out_of_budget = (\<lambda>ls. leave_epoch (le_epoch le) (le_sandbox le) ls None Ex_budget_exhausted) in
      bindP (abortedP (le_epoch le)) (\<lambda>aborted.
      if aborted then returnP (Inl Ex_lease_lost)
      else if run_max_steps (ls_run ls) \<le> ls_step ls then out_of_budget ls
      else bindP (query (\<lambda>w. tokenBudgetExceeded w (le_rid le))) (\<lambda>exceeded.
        if exceeded then out_of_budget ls
        else bindP (invocation_step le ls) (\<lambda>(answer, ls1).
          case answer of
            Answer_lease_lost \<Rightarrow> returnP (Inl Ex_lease_lost)
          | Answer_budget_exhausted \<Rightarrow> out_of_budget ls1
          | Answer completion freshRun remaining stillOwned tokensUsed \<Rightarrow>
              if \<not> stillOwned then returnP (Inl Ex_lease_lost)
              else answered le ls1 completion freshRun remaining tokensUsed))))"

text \<open>
  The loop. \<open>None\<close> says that the fuel is used up; \<open>epoch_fuel\<close> below is enough of it.
\<close>

fun epoch_loop :: "nat \<Rightarrow> 'w loop_env \<Rightarrow> loop_state \<Rightarrow> epoch_exit option proc" where
  "epoch_loop 0 le ls = returnP None"
| "epoch_loop (Suc fuel) le ls =
     bindP (epoch_turn le ls) (\<lambda>r.
     case r of Inl e \<Rightarrow> returnP (Some e) | Inr ls' \<Rightarrow> epoch_loop fuel le ls')"

section \<open>Restoring what the last epoch left\<close>

definition supervisor_of :: "json \<Rightarrow> supervisor_state option" where
  "supervisor_of v =
     (case v of
        JObj kvs \<Rightarrow>
          (case (jfield kvs ''actionWindow'', jfield kvs ''progressWindow'', jfield kvs ''escalationLevel'', jfield kvs ''recoveries'') of
             (Some (JArr actions), Some (JArr numbers), Some (JNum level), Some (JNum recoveries)) \<Rightarrow>
               Some \<lparr>sv_actionWindow = concat (map (\<lambda>a. case a of JStr s \<Rightarrow> [s] | _ \<Rightarrow> []) actions),
                     sv_progressWindow = concat (map (\<lambda>c. case c of JNum q \<Rightarrow> [nat \<lfloor>q\<rfloor>] | _ \<Rightarrow> []) numbers),
                     sv_escalationLevel = nat \<lfloor>level\<rfloor>, sv_recoveries = nat \<lfloor>recoveries\<rfloor>\<rparr>
           | _ \<Rightarrow> None)
      | _ \<Rightarrow> None)"

definition pending_of :: "(string \<times> json) list \<Rightarrow> tool_call option" where
  "pending_of state =
     (case jfield state ''pendingToolCall'' of
        Some (JObj kvs) \<Rightarrow>
          (case (jfield kvs ''id'', jfield kvs ''name'', jfield kvs ''arguments'') of
             (Some (JStr i), Some (JStr name), Some (JObj args)) \<Rightarrow> Some \<lparr>tc_id = i, tc_name = name, tc_arguments = args\<rparr>
           | _ \<Rightarrow> None)
      | _ \<Rightarrow> None)"

definition state_of :: "checkpoint_row option \<Rightarrow> (string \<times> json) list option" where
  "state_of row = (case row of Some r \<Rightarrow> (case ck_agent_state r of JObj kvs \<Rightarrow> Some kvs | _ \<Rightarrow> None) | None \<Rightarrow> None)"

definition initial_state_input :: checkpoint_input where
  "initial_state_input =
     \<lparr>ci_step = 0, ci_transcriptTosKey = None, ci_contextSummary = None, ci_supervisor = None, ci_pendingToolCall = None,
      ci_commitments = None, ci_references = None, ci_contextSelection = None\<rparr>"

text \<open>The source of a fork or of a child, if it is of the same tenant.\<close>

definition lineage_source :: "'w epoch_env \<Rightarrow> run_row option proc" where
  "lineage_source ee =
     (case (case run_forked_from_run_id (ee_run ee) of Some r \<Rightarrow> Some r | None \<Rightarrow> run_parent_run_id (ee_run ee)) of
        None \<Rightarrow> returnP None
      | Some source \<Rightarrow>
          if source = [] then returnP None
          else query (\<lambda>w. getRun w source (Some (run_tenant_id (ee_run ee)))))"

definition read_checkpoint :: "'w epoch_env \<Rightarrow> string \<Rightarrow> checkpoint_row option proc" where
  "read_checkpoint ee rid = bindP (query (\<lambda>w. latestCheckpoint (ee_reader ee) w rid)) liftP"

definition restore_state :: "'w epoch_env \<Rightarrow> ((string \<times> json) list \<times> string option) proc" where
  "restore_state ee =
     bindP (read_checkpoint ee (ee_rid ee)) (\<lambda>ckpt.
     bindP (lineage_source ee) (\<lambda>source.
     bindP (case source of
              Some s \<Rightarrow> if ckpt = None \<and> truthy (map_option JStr (run_forked_from_run_id (ee_run ee)))
                        then read_checkpoint ee (run_id s) else returnP None
            | None \<Rightarrow> returnP None) (\<lambda>forked.
     bindP (case state_of ckpt of
              Some s \<Rightarrow> returnP s
            | None \<Rightarrow> (case state_of forked of
                Some s \<Rightarrow> returnP s
              | None \<Rightarrow> liftP (createCheckpointEnvelope (ee_reader ee) initial_state_input))) (\<lambda>state.
     returnP (state, case source of Some s \<Rightarrow> run_workspace_id s | None \<Rightarrow> None)))))"

definition restore_transcript :: "'w epoch_env \<Rightarrow> (string \<times> json) list \<Rightarrow> chat_message list proc" where
  "restore_transcript ee state =
     (case jfield state ''transcriptTosKey'' of
        Some (JStr key) \<Rightarrow>
          if key = [] then returnP []
          else bindP (provider_call ''get'' (os_get (ee_store ee) key)) (\<lambda>text.
            case ee_parseTranscript ee text of
              None \<Rightarrow> throwP (GenericError ''Unexpected token in JSON'')
            | Some ms \<Rightarrow> returnP ms)
      | _ \<Rightarrow> returnP [])"

definition initial_loop :: "'w epoch_env \<Rightarrow> (string \<times> json) list \<Rightarrow> chat_message list \<Rightarrow> loop_state" where
  "initial_loop ee state transcript =
     \<lparr>ls_run = ee_run ee, ls_step = (case jfield state ''step'' of Some (JNum q) \<Rightarrow> \<lfloor>q\<rfloor> | _ \<Rightarrow> 0), ls_transcript = transcript,
      ls_verifyRetries = 0, ls_noToolTurns = 0,
      ls_supervisor = (case jfield state ''supervisor'' of
         Some v \<Rightarrow> or_else (supervisor_of v) initialSupervisorState | None \<Rightarrow> initialSupervisorState),
      ls_selection = or_else (jfield state ''contextSelection'') emptyContextSelection\<rparr>"

section \<open>The epoch\<close>

definition string_members :: "json option \<Rightarrow> (string \<times> string) list" where
  "string_members v =
     (case v of Some (JObj kvs) \<Rightarrow> concat (map (\<lambda>(k, x). case x of JStr s \<Rightarrow> [(k, s)] | _ \<Rightarrow> []) kvs) | _ \<Rightarrow> [])"

definition restore_input_of :: "'w epoch_env \<Rightarrow> string option \<Rightarrow> restore_input" where
  "restore_input_of ee seed =
     \<lparr>wr_runId = ee_rid ee, wr_attemptId = ee_aid ee, wr_workspaceId = workspace_of ee,
      wr_seedFiles = string_members (jfield (run_input (ee_run ee)) ''files''),
      wr_initCommand = (case jfield (run_input (ee_run ee)) ''initCommand'' of Some (JStr s) \<Rightarrow> Some s | _ \<Rightarrow> None),
      wr_parentWorkspaceId = seed\<rparr>"

definition allocate_sandbox :: "'w epoch_env \<Rightarrow> agent_version \<Rightarrow> sandbox proc" where
  "allocate_sandbox ee v =
     (let spec = av_sandboxSpec v in
      bindP (provider_call ''create'' (ee_create ee (ee_rid ee)
               (spec\<lparr>ss_timeoutMinutes := Some (or_else (ss_timeoutMinutes spec) (ec_sandboxTimeoutMinutes (ee_cfg ee)))\<rparr>))) (\<lambda>sx.
      thenP (withTransaction (thenT (setAttemptSandbox (ee_aid ee) (sx_id sx) (Some (ee_baseUrl ee sx)))
               (appendEvent (ee_rid ee) SandboxAllocated [(''sandboxId'', JStr (sx_id sx))] (Some (ee_aid ee)) no_patch)))
            (returnP sx)))"

definition resolve_mcp :: "'w epoch_env \<Rightarrow> agent_version \<Rightarrow> (string \<times> mcp_entry) list proc" where
  "resolve_mcp ee v =
     (case ee_mcpTools ee of
        None \<Rightarrow> returnP []
      | Some tools \<Rightarrow>
          (case resolveMcpTools tools (ee_mcpPolicy ee) (av_mcpToolsetRefs v) of
             Inl e \<Rightarrow> throwP (GenericError e) | Inr route \<Rightarrow> returnP route))"

definition recall :: "'w epoch_env \<Rightarrow> memory_record list proc" where
  "recall ee =
     (case ee_recall ee of
        None \<Rightarrow> returnP []
      | Some search \<Rightarrow> catchP (provider_call ''search'' search) (\<lambda>_. returnP []))"

definition tools_of :: "'w epoch_env \<Rightarrow> sandbox \<Rightarrow> (string \<times> mcp_entry) list \<Rightarrow> 'w tool_ctx" where
  "tools_of ee sx route =
     (ee_tools ee)\<lparr>tc_attempt := ee_aid ee, tc_mcpRoute := route,
       tc_exec := (\<lambda>command cwd t. sx_exec sx command \<lparr>eo_cwd = Some cwd, eo_timeoutSec = Some t\<rparr>),
       tc_writeFile := sx_writeFile sx, tc_readFile := sx_readFile sx\<rparr>"

text \<open>The call that an epoch left when it suspended; it ends the epoch again or becomes a message.\<close>

definition resume :: "'w loop_env \<Rightarrow> loop_state \<Rightarrow> tool_call \<Rightarrow> (epoch_exit + loop_state) proc" where
  "resume le ls call =
     (let ee = le_epoch le; sx = le_sandbox le;
          proceed = (\<lambda>content. returnP (Inr ((say ls (tool_message content (tc_id call)))\<lparr>ls_step := ls_step ls + 1\<rparr>))) in
      bindP (dispatch_call le ls call) (\<lambda>outcome.
      case outcome of
        Suspended_approval _ \<Rightarrow> thenP (cleanup ee sx) (returnP (Inl Ex_suspended_for_approval))
      | Suspended_signal _ \<Rightarrow> leave_epoch ee sx ls (Some call) Ex_suspended_for_signal
      | Suspended_children _ \<Rightarrow> leave_epoch ee sx ls (Some call) Ex_suspended_for_children
      | Result content \<Rightarrow> proceed content
      | Complete summary _ _ _ \<Rightarrow> proceed (''completion acknowledged: '' @ summary)))"

definition epoch_body ::
    "nat \<Rightarrow> 'w epoch_env \<Rightarrow> agent_version \<Rightarrow> sandbox \<Rightarrow> loop_state \<Rightarrow> string option \<Rightarrow> tool_call option \<Rightarrow> epoch_exit option proc" where
  "epoch_body fuel ee v sx ls seed pending =
     thenP (restore (ee_store ee) sx (restore_input_of ee seed))
    (bindP (materializeSkills sx (ee_resolveSkill ee) (av_skillRefs v)) (\<lambda>skills.
     bindP (resolve_mcp ee v) (\<lambda>route.
     bindP (recall ee) (\<lambda>memories.
     let le = \<lparr>le_epoch = ee, le_version = v, le_sandbox = sx, le_tools = tools_of ee sx route,
               le_toolDefs = ee_toolDefs ee (map fst (rev route)), le_skills = skills, le_memories = memories\<rparr> in
     bindP (case pending of None \<Rightarrow> returnP (Inr ls) | Some call \<Rightarrow> resume le ls call) (\<lambda>r.
     case r of Inl e \<Rightarrow> returnP (Some e) | Inr ls' \<Rightarrow> epoch_loop fuel le ls')))))"

definition realEpoch :: "nat \<Rightarrow> 'w epoch_env \<Rightarrow> epoch_exit option proc" where
  "realEpoch fuel ee =
     (case ee_version ee of
        None \<Rightarrow> throwP (GenericError (''agent version missing: '' @ run_agent_version_id (ee_run ee)))
      | Some v \<Rightarrow>
          bindP (restore_state ee) (\<lambda>(state, seed).
          bindP (restore_transcript ee state) (\<lambda>transcript.
          bindP (allocate_sandbox ee v) (\<lambda>sx.
          catchP (epoch_body fuel ee v sx (initial_loop ee state transcript) seed (pending_of state))
            (\<lambda>e. bindP (abortedP ee) (\<lambda>aborted.
               thenP (if aborted then returnP () else cleanup ee sx) (throwP e)))))))"

text \<open>The turns an epoch can take: three for every step of the run, and the one that ends it.\<close>

definition epoch_fuel :: "'w epoch_env \<Rightarrow> nat" where
  "epoch_fuel ee = Suc (MAX_NO_TOOL_TURNS * nat (run_max_steps (ee_run ee)))"

section \<open>An epoch keeps the kernel's invariants\<close>

lemma checkpoint_txn_kernel_from [hoare_rules]: "keeps (kernel_from w0) (checkpoint_txn ee ls key rid pending)"
  unfolding checkpoint_txn_def by (intro hoare_rules)

lemma complete_run_kernel_from [hoare_rules]: "keeps (kernel_from w0) (complete_run le summary staged result n)"
  unfolding complete_run_def by (intro hoare_rules)

lemma recordSupervision_kernel_from [hoare_rules]: "keeps (kernel_from w0) (recordSupervision rid aid outcome)"
  unfolding recordSupervision_def append_plain_def
  by (auto intro!: hoare_rules split: directive.split)

lemma maintains_liftP [maintain_rules]: "maintains I (liftP r)"
  unfolding liftP_def by (intro maintain_rules)

lemma maintains_abortedP [maintain_rules]: "maintains I (abortedP ee)"
  unfolding abortedP_def by (intro maintain_rules) simp

lemma maintains_saveCheckpoint [maintain_rules]: "maintains (kernel_from w0) (saveCheckpoint ee sx ls pending)"
  unfolding saveCheckpoint_def Let_def by (intro maintain_rules hoare_rules)

lemma maintains_cleanup [maintain_rules]: "maintains (kernel_from w0) (cleanup ee sx)"
  unfolding cleanup_def by (intro maintain_rules hoare_rules)

lemma maintains_leave [maintain_rules]: "maintains (kernel_from w0) (leave_epoch ee sx ls pending reason)"
  unfolding leave_epoch_def by (intro maintain_rules)

lemma maintains_directive [maintain_rules]:
  "(\<And>r. maintains I (f r)) \<Longrightarrow> (\<And>d. maintains I (g d)) \<Longrightarrow>
   maintains I (case d of Continue \<Rightarrow> g Continue | Recover n \<Rightarrow> g (Recover n) | Escalate_model n \<Rightarrow> g (Escalate_model n)
     | Wind_down n \<Rightarrow> g (Wind_down n) | Terminate r \<Rightarrow> f r)"
  by (cases d) simp_all

lemma maintains_invocation [maintain_rules]: "maintains (kernel_from w0) (invocation_step le ls)"
  unfolding invocation_step_def call_model_def Let_def
  by (intro maintain_rules hoare_rules beginModelInvocation_kernel_from completeModelInvocation_kernel_from)

lemma maintains_supervise_turn [maintain_rules]: "maintains (kernel_from w0) (supervise_turn le ls calls freshRun)"
  unfolding supervise_turn_def Let_def
  by (auto intro!: maintain_rules hoare_rules split: directive.split)

lemma maintains_finishRun [maintain_rules]: "maintains (kernel_from w0) (finishRun le ls summary artifacts result n)"
  unfolding finishRun_def Let_def by (intro maintain_rules hoare_rules)

lemma maintains_dispatch_call [maintain_rules]: "maintains (kernel_from w0) (dispatch_call le ls call)"
  unfolding dispatch_call_def by (intro maintain_rules maintains_dispatchTool)

lemma maintains_settle_completion [maintain_rules]: "maintains (kernel_from w0) (settle_completion le ls call finished)"
  unfolding settle_completion_def Let_def by (intro maintain_rules hoare_rules)

lemma maintains_outcome [maintain_rules]:
  "(\<And>c. maintains I (f c)) \<Longrightarrow> (\<And>i. maintains I (g i)) \<Longrightarrow> (\<And>i. maintains I (h i)) \<Longrightarrow> (\<And>i. maintains I (k i)) \<Longrightarrow>
   (\<And>s as r n. maintains I (m s as r n)) \<Longrightarrow>
   maintains I (case x of Result c \<Rightarrow> f c | Suspended_approval i \<Rightarrow> g i | Suspended_signal i \<Rightarrow> h i | Suspended_children i \<Rightarrow> k i
     | Complete s as r n \<Rightarrow> m s as r n)"
  by (cases x) simp_all

lemma maintains_settle_outcome [maintain_rules]: "maintains (kernel_from w0) (settle_outcome le ls call outcome)"
  unfolding settle_outcome_def Let_def by (intro maintain_rules)

lemma maintains_run_calls [maintain_rules]: "maintains (kernel_from w0) (run_calls le ls calls)"
  by (induction calls arbitrary: ls) (auto intro!: maintain_rules)

lemma maintains_act [maintain_rules]: "maintains (kernel_from w0) (act le ls calls)"
  unfolding act_def end_step_def Let_def by (intro maintain_rules)

lemma maintains_answered [maintain_rules]: "maintains (kernel_from w0) (answered le ls c r remaining n)"
  unfolding answered_def Let_def by (intro maintain_rules)

lemma maintains_answer [maintain_rules]:
  "maintains I m \<Longrightarrow> maintains I n \<Longrightarrow> (\<And>c r l b t. maintains I (f c r l b t)) \<Longrightarrow>
   maintains I (case x of Answer_lease_lost \<Rightarrow> m | Answer_budget_exhausted \<Rightarrow> n | Answer c r l b t \<Rightarrow> f c r l b t)"
  by (cases x) simp_all

lemma maintains_epoch_turn [maintain_rules]: "maintains (kernel_from w0) (epoch_turn le ls)"
  unfolding epoch_turn_def Let_def by (intro maintain_rules)

lemma maintains_epoch_loop [maintain_rules]: "maintains (kernel_from w0) (epoch_loop fuel le ls)"
  by (induction fuel arbitrary: ls) (auto intro!: maintain_rules)

lemma maintains_resume [maintain_rules]: "maintains (kernel_from w0) (resume le ls call)"
  unfolding resume_def Let_def by (intro maintain_rules)

lemma maintains_restore_state [maintain_rules]: "maintains (kernel_from w0) (restore_state ee)"
  unfolding restore_state_def read_checkpoint_def lineage_source_def by (intro maintain_rules)

lemma maintains_restore_transcript [maintain_rules]: "maintains (kernel_from w0) (restore_transcript ee state)"
  unfolding restore_transcript_def by (auto intro!: maintain_rules split: json.split option.split)

lemma maintains_skills [maintain_rules]: "maintains (kernel_from w0) (materializeSkills sx resolve refs)"
  unfolding materializeSkills_def materialize_one_def Let_def by (intro maintain_rules)

lemma maintains_allocate_sandbox [maintain_rules]: "maintains (kernel_from w0) (allocate_sandbox ee v)"
  unfolding allocate_sandbox_def Let_def by (intro maintain_rules hoare_rules)

lemma maintains_epoch_body [maintain_rules]: "maintains (kernel_from w0) (epoch_body fuel ee v sx ls seed pending)"
  unfolding epoch_body_def resolve_mcp_def recall_def Let_def by (intro maintain_rules)

lemma maintains_realEpoch: "maintains (kernel_from w0) (realEpoch fuel ee)"
  unfolding realEpoch_def by (intro maintain_rules)

end
