(* ===== verification/Epoch_Safety.thy ===== *)
theory Epoch_Safety
  imports Epoch Tool_Safety
begin

text \<open>
  What an execution epoch guarantees: it ends, and asks the model a bounded number of times; it keeps the
  kernel's invariants; a run that completes has published what it claimed; and the two ways in which
  what the agent writes can stop it: a malformed progress ledger and a path that is not normalized.
\<close>

section \<open>Model calls in a trace\<close>

definition is_chat :: "trace_event \<Rightarrow> bool" where
  "is_chat e \<longleftrightarrow> e = Call_provider ''chat''"

definition chats :: "trace_event list \<Rightarrow> nat" where
  "chats es = length (filter is_chat es)"

lemma chats_simps [simp]:
  "chats [] = 0" "chats (e # es) = (if is_chat e then Suc (chats es) else chats es)" "chats (es @ fs) = chats es + chats fs"
  by (simp_all add: chats_def)

lemma is_chat_simps [simp]:
  "\<not> is_chat (Db w)" "\<not> is_chat (Call_reconcile a b)" "\<not> is_chat (Call_credential c d)" "\<not> is_chat (Call_dispatch i r)"
  "is_chat (Call_provider n) \<longleftrightarrow> n = ''chat''"
  by (simp_all add: is_chat_def)

text \<open>A process that leaves the model alone.\<close>

definition chatless :: "'a proc \<Rightarrow> bool" where
  "chatless m \<longleftrightarrow> tspec m (\<lambda>es _. chats es = 0)"

named_theorems chat_rules \<open>introduction rules for processes that leave the model alone\<close>

lemma chatless_returnP [chat_rules]: "chatless (returnP x)"
  unfolding chatless_def by (rule tspec_returnP) simp

lemma chatless_throwP [chat_rules]: "chatless (throwP e)"
  unfolding chatless_def by (rule tspec_throwP) simp

lemma chatless_bindP [chat_rules]: "chatless m \<Longrightarrow> (\<And>x. chatless (f x)) \<Longrightarrow> chatless (bindP m f)"
  unfolding chatless_def by (rule tspec_bindP, assumption) (auto elim: tspec_mono)

lemma chatless_thenP [chat_rules]: "chatless m \<Longrightarrow> chatless n \<Longrightarrow> chatless (thenP m n)"
  unfolding thenP_def by (rule chatless_bindP)

lemma chatless_catchP [chat_rules]: "chatless m \<Longrightarrow> (\<And>e. chatless (h e)) \<Longrightarrow> chatless (catchP m h)"
  unfolding chatless_def by (rule tspec_catchP, assumption) (auto elim: tspec_mono)

lemma chatless_withTransaction [chat_rules]: "chatless (withTransaction m)"
  unfolding chatless_def by (rule tspec_withTransaction) simp

lemma chatless_query [chat_rules]: "chatless (query f)"
  unfolding query_def by (rule chatless_withTransaction)

lemma chatless_external [chat_rules]: "(\<And>x. \<not> is_chat (ev x)) \<Longrightarrow> chatless (external f ev)"
  unfolding chatless_def by (rule tspec_external) simp

lemma chatless_maybe_throw [chat_rules]: "chatless (maybe_throw e)"
  unfolding maybe_throw_def by (cases e) (simp_all add: chat_rules)

lemma chatless_provider_call [chat_rules]: "name \<noteq> ''chat'' \<Longrightarrow> chatless (provider_call name f)"
  unfolding provider_call_def by (rule chatless_bindP, rule chatless_external) (auto intro: chat_rules split: sum.split)

lemma chatless_if [chat_rules]: "(b \<Longrightarrow> chatless m) \<Longrightarrow> (\<not> b \<Longrightarrow> chatless n) \<Longrightarrow> chatless (if b then m else n)"
  by simp

lemma chatless_option [chat_rules]:
  "(x = None \<Longrightarrow> chatless m) \<Longrightarrow> (\<And>y. x = Some y \<Longrightarrow> chatless (f y)) \<Longrightarrow> chatless (case x of None \<Rightarrow> m | Some y \<Rightarrow> f y)"
  by (cases x) auto

lemma chatless_prod [chat_rules]: "(\<And>a b. x = (a, b) \<Longrightarrow> chatless (f a b)) \<Longrightarrow> chatless (case x of (a, b) \<Rightarrow> f a b)"
  by (cases x) auto

lemma chatless_sum [chat_rules]:
  "(\<And>e. x = Inl e \<Longrightarrow> chatless (m e)) \<Longrightarrow> (\<And>y. x = Inr y \<Longrightarrow> chatless (f y)) \<Longrightarrow>
   chatless (case x of Inl e \<Rightarrow> m e | Inr y \<Rightarrow> f y)"
  by (cases x) auto

lemma chatless_mapP [chat_rules]: "(\<And>x. x \<in> set xs \<Longrightarrow> chatless (f x)) \<Longrightarrow> chatless (mapP f xs)"
  by (induction xs) (auto intro!: chat_rules)

section \<open>The tools leave the model alone\<close>

lemma chatless_phases [chat_rules]:
  "chatless (markReconciliationRequired ctx spec rid reason)"
  "chatless (auditRetryableFailure ctx spec rid stage)"
  "chatless (failUndispatchedReceiptAndDeny ctx spec rid reason stage)"
  "chatless (requestFreshApproval ctx spec key receipt)"
  "chatless (auditDenial ctx spec reason stage)"
  "chatless (lock_approval ctx spec key aid)"
  unfolding markReconciliationRequired_def auditRetryableFailure_def failUndispatchedReceiptAndDeny_def
    requestFreshApproval_def auditDenial_def lock_approval_def
  by (intro chat_rules)+

lemma chatless_deny [chat_rules]: "chatless (deny ctx spec u reason stage)"
  unfolding deny_def by (intro chat_rules)

lemma chatless_dispatch [chat_rules]: "chatless (fenced_dispatch ctx spec inp rid)"
  unfolding fenced_dispatch_def
  by (rule chatless_bindP, rule chatless_external) (auto split: dispatch_result.split intro!: chat_rules)

lemma chatless_boundary [chat_rules]: "chatless (fenced_boundary ctx spec inp usable approvalId undispatched rid)"
  unfolding fenced_boundary_def Let_def by (intro chat_rules)

lemma chatless_receipt [chat_rules]: "chatless (fenced_receipt ctx spec inp pending knownAbsent usable approvalId)"
  unfolding fenced_receipt_def by (intro chat_rules)

lemma chatless_credential [chat_rules]:
  "chatless (fenced_credential ctx spec key patterns pending knownAbsent usable approvalId)"
  unfolding fenced_credential_def Let_def
  by (auto intro!: chat_rules split: credential_result.split)

lemma chatless_approval [chat_rules]: "chatless (fenced_approval ctx spec key patterns pending knownAbsent usable)"
  unfolding fenced_approval_def Let_def by (intro chat_rules)

lemma chatless_policy [chat_rules]: "chatless (fenced_policy ctx spec key pending knownAbsent)"
  unfolding fenced_policy_def Let_def by (intro chat_rules)

lemma chatless_recovery [chat_rules]: "chatless (fenced_recovery ctx spec key receipt)"
  unfolding fenced_recovery_def by (auto intro!: chat_rules split: reconcile_result.split)

lemma chatless_action [chat_rules]: "chatless (executeGovernedAction aborted ctx spec)"
  unfolding executeGovernedAction_def executeGovernedActionFenced_def Let_def by (intro chat_rules)

lemma chatless_tools [chat_rules]:
  "chatless (emitToolInvoked tc tool detail)"
  "chatless (delegate tc args)"
  "chatless (waitForSignal tc name)"
  "chatless (externalHttpRequest tc args)"
  "chatless (run_complete tc args)"
  "chatless (dispatchMcp tc call entry args)"
  unfolding emitToolInvoked_def delegate_def waitForSignal_def externalHttpRequest_def run_complete_def dispatchMcp_def Let_def
  by (intro chat_rules)+

lemma chatless_workspace_tools [chat_rules]:
  "chatless (bash_exec tc args)"
  "chatless (file_write tc args)"
  "chatless (file_read tc args)"
  "chatless (progress_update tc args)"
  "chatless (remember tc args)"
  "chatless (knowledge_search tc args)"
  unfolding bash_exec_def file_write_def file_read_def progress_update_def remember_def knowledge_search_def Let_def
  by (intro chat_rules; simp)+

lemma chatless_dispatchTool [chat_rules]: "chatless (dispatchTool tc name args)"
  unfolding dispatchTool_def by (intro chat_rules)

section \<open>The epoch calls it once a turn\<close>

lemma chatless_stages [chat_rules]:
  "chatless (liftP r)"
  "chatless (abortedP ee)"
  "chatless (cleanup ee sx)"
  "chatless (exec_in sx command cwd t)"
  unfolding liftP_def abortedP_def cleanup_def exec_in_def by (intro chat_rules; simp)+

lemma chatless_workspace_checkpoint [chat_rules]: "chatless (workspace_checkpoint number os sx rid aid ws)"
  unfolding workspace_checkpoint_def Let_def by (intro chat_rules; simp)

lemma chatless_saveCheckpoint [chat_rules]: "chatless (saveCheckpoint ee sx ls pending)"
  unfolding saveCheckpoint_def Let_def by (intro chat_rules; simp)

lemma chatless_leave [chat_rules]: "chatless (leave_epoch ee sx ls pending reason)"
  unfolding leave_epoch_def by (intro chat_rules)

lemma chatless_verify [chat_rules]: "chatless (verify sx rid policy claimed)"
  unfolding verify_def verify_path_def verify_command_def verify_receipts_def by (intro chat_rules)

lemma chatless_stage [chat_rules]: "chatless (stageArtifactOutputs sg paths)"
  unfolding stageArtifactOutputs_def stage_one_def Let_def by (intro chat_rules; simp)

lemma chatless_finishRun [chat_rules]: "chatless (finishRun le ls summary artifacts result n)"
  unfolding finishRun_def Let_def by (intro chat_rules)

lemma chatless_dispatch_call [chat_rules]: "chatless (dispatch_call le ls call)"
  unfolding dispatch_call_def by (intro chat_rules)

text \<open>Where the loop is: the step and the turns without a tool.\<close>

definition same_place :: "loop_state \<Rightarrow> loop_state \<Rightarrow> bool" where
  "same_place ls ls' \<longleftrightarrow>
     run_max_steps (ls_run ls') = run_max_steps (ls_run ls) \<and> ls_step ls' = ls_step ls
     \<and> ls_noToolTurns ls' = ls_noToolTurns ls"

definition advanced :: "loop_state \<Rightarrow> loop_state \<Rightarrow> bool" where
  "advanced ls ls' \<longleftrightarrow>
     run_max_steps (ls_run ls') = run_max_steps (ls_run ls)
     \<and> (ls_step ls' = ls_step ls \<and> ls_noToolTurns ls' = Suc (ls_noToolTurns ls) \<and> ls_noToolTurns ls' < MAX_NO_TOOL_TURNS
        \<or> ls_step ls' = ls_step ls + 1 \<and> ls_noToolTurns ls' = 0)"

lemma same_place_refl [simp]: "same_place ls ls"
  by (simp add: same_place_def)

lemma same_place_trans: "same_place a b \<Longrightarrow> same_place b c \<Longrightarrow> same_place a c"
  by (simp add: same_place_def)

lemma same_place_advanced: "same_place a b \<Longrightarrow> advanced b c \<Longrightarrow> advanced a c"
  by (auto simp: same_place_def advanced_def)

text \<open>A part of a turn that leaves the model alone and continues only in related states.\<close>

definition leads :: "(loop_state \<Rightarrow> bool) \<Rightarrow> (epoch_exit + loop_state) proc \<Rightarrow> bool" where
  "leads Q m \<longleftrightarrow> tspec m (\<lambda>es r. chats es = 0 \<and> (\<forall>ls'. r = Inr (Inr ls') \<longrightarrow> Q ls'))"

named_theorems leads_rules \<open>introduction rules for the parts of a turn\<close>

lemma leads_continue: "Q ls' \<Longrightarrow> leads Q (returnP (Inr ls'))"
  unfolding leads_def by (rule tspec_returnP) simp

lemma leads_exit [leads_rules]: "leads Q (returnP (Inl e))"
  unfolding leads_def by (rule tspec_returnP) simp

lemma leads_throwP [leads_rules]: "leads Q (throwP e)"
  unfolding leads_def by (rule tspec_throwP) simp

lemma leads_bindP [leads_rules]: "chatless m \<Longrightarrow> (\<And>x. leads Q (f x)) \<Longrightarrow> leads Q (bindP m f)"
  unfolding leads_def chatless_def by (rule tspec_bindP, assumption) (auto elim: tspec_mono)

lemma leads_thenP [leads_rules]: "chatless m \<Longrightarrow> leads Q n \<Longrightarrow> leads Q (thenP m n)"
  unfolding thenP_def by (rule leads_bindP)

lemma leads_seq:
  assumes "leads Q m" and "\<And>ls'. Q ls' \<Longrightarrow> leads R (f ls')"
  shows "leads R (bindP m (\<lambda>r. case r of Inl e \<Rightarrow> returnP (Inl e) | Inr ls' \<Rightarrow> f ls'))"
  unfolding leads_def
proof (rule tspec_bindP [OF assms(1) [unfolded leads_def]])
  fix es x assume x: "chats es = 0 \<and> (\<forall>ls'. Inr x = (Inr (Inr ls') :: err + epoch_exit + loop_state) \<longrightarrow> Q ls')"
  then have "leads R (case x of Inl e \<Rightarrow> returnP (Inl e) | Inr ls' \<Rightarrow> f ls')"
    by (cases x) (auto intro: leads_exit assms(2))
  with x show "tspec (case x of Inl e \<Rightarrow> returnP (Inl e) | Inr ls' \<Rightarrow> f ls')
      (\<lambda>es' r. chats (es @ es') = 0 \<and> (\<forall>ls'. r = Inr (Inr ls') \<longrightarrow> R ls'))"
    unfolding leads_def by (auto elim: tspec_mono)
qed simp

lemma leads_if [leads_rules]: "(b \<Longrightarrow> leads Q m) \<Longrightarrow> (\<not> b \<Longrightarrow> leads Q n) \<Longrightarrow> leads Q (if b then m else n)"
  by simp

lemma leads_mono: "leads Q m \<Longrightarrow> (\<And>ls. Q ls \<Longrightarrow> R ls) \<Longrightarrow> leads R m"
  unfolding leads_def by (auto elim: tspec_mono)

lemma leads_leave [leads_rules]: "leads Q (leave_epoch ee sx ls pending reason)"
  unfolding leave_epoch_def by (intro leads_rules chat_rules)

lemma say_place [simp]: "same_place ls (say ls' m) \<longleftrightarrow> same_place ls ls'"
  by (simp add: say_def same_place_def)

lemma leads_supervise_turn: "leads (same_place ls) (supervise_turn le ls calls freshRun)"
  unfolding supervise_turn_def Let_def
  by (auto intro!: leads_rules chat_rules leads_continue split: directive.split simp: same_place_def)

lemma leads_settle_completion: "leads (same_place ls) (settle_completion le ls call finished)"
  unfolding settle_completion_def Let_def
  by (auto intro!: leads_rules chat_rules leads_continue split: option.split simp: same_place_def say_def)

lemma leads_settle_outcome: "leads (same_place ls) (settle_outcome le ls call outcome)"
  unfolding settle_outcome_def Let_def
  by (auto intro!: leads_rules chat_rules leads_continue leads_settle_completion split: tool_outcome.split)

lemma leads_run_calls: "leads (same_place ls) (run_calls le ls calls)"
proof (induction calls arbitrary: ls)
  case Nil
  show ?case by (simp add: leads_continue)
next
  case (Cons call calls)
  have settle: "leads (same_place ls) (bindP (settle_outcome le ls call outcome)
      (\<lambda>r. case r of Inl e \<Rightarrow> returnP (Inl e) | Inr ls' \<Rightarrow> run_calls le ls' calls))" for outcome
    by (rule leads_seq [OF leads_settle_outcome]) (blast intro: leads_mono [OF Cons.IH] same_place_trans)
  show ?case
    unfolding run_calls.simps
    by (rule leads_bindP [OF chatless_stages(2)] leads_if leads_exit leads_bindP [OF chatless_dispatch_call] settle)+
qed

lemma leads_end_step: "leads (\<lambda>ls'. ls_run ls' = ls_run ls \<and> ls_step ls' = ls_step ls + 1 \<and> ls_noToolTurns ls' = ls_noToolTurns ls)
    (end_step le ls)"
  unfolding end_step_def Let_def by (auto intro!: leads_rules chat_rules leads_continue)

lemma leads_act: "leads (advanced ls) (act le ls calls)"
proof (cases "calls = []")
  case True
  then show ?thesis
    by (auto simp: act_def Let_def advanced_def say_def intro!: leads_rules leads_continue)
next
  case False
  have "leads (advanced ls) (end_step le ls')" if "same_place (ls\<lparr>ls_noToolTurns := 0\<rparr>) ls'" for ls'
    by (rule leads_mono [OF leads_end_step]) (use that in \<open>auto simp: same_place_def advanced_def\<close>)
  then show ?thesis using False by (auto simp: act_def intro!: leads_seq [OF leads_run_calls])
qed

lemma leads_answered: "leads (advanced ls) (answered le ls c freshRun remaining n)"
proof -
  let ?ls = "say (ls\<lparr>ls_run := (ls_run ls)\<lparr>run_tokens_used := n\<rparr>\<rparr>) (cp_message c)"
  have here: "same_place ls ?ls" by (simp add: same_place_def say_def)
  have "leads (same_place ls) (if ec_supervisorEnabled (ee_cfg (le_epoch le)) then supervise_turn le ?ls calls freshRun else returnP (Inr ?ls))"
    for calls
    by (rule leads_if, rule leads_mono [OF leads_supervise_turn], erule same_place_trans [OF here])
      (rule leads_continue, rule here)
  then have "leads (advanced ls) (bindP (if ec_supervisorEnabled (ee_cfg (le_epoch le)) then supervise_turn le ?ls calls freshRun
      else returnP (Inr ?ls)) (\<lambda>r. case r of Inl e \<Rightarrow> returnP (Inl e) | Inr ls3 \<Rightarrow> act le ls3 calls))" for calls
    by (rule leads_seq) (blast intro: leads_mono [OF leads_act] same_place_advanced)
  then show ?thesis unfolding answered_def Let_def by (intro leads_if leads_leave)
qed

lemma call_model_calls: "tspec (call_model le ls run messages) (\<lambda>es _. chats es \<le> 1)"
proof -
  have chat: "tspec (provider_call ''chat'' f) (\<lambda>es _. chats es \<le> 1)" for f :: "nat \<Rightarrow> err + completion"
    unfolding provider_call_def
    by (rule tspec_bindP [where Q = "\<lambda>es _. chats es = 1"], rule tspec_external)
      (auto intro: tspec_returnP tspec_throwP split: sum.split)
  have after: "chatless (bindP (withTransaction (completeModelInvocation rid aid step usage)) (\<lambda>(tokensUsed, stillOwned).
      returnP (Answer c run remaining stillOwned tokensUsed)))" for rid aid step usage c remaining
    by (intro chat_rules)
  show ?thesis
    unfolding call_model_def
    by (auto intro!: tspec_returnP tspec_bindP [OF chat] tspec_mono [OF after [unfolded chatless_def]] split: option.split)
qed

definition invokes :: "loop_state \<Rightarrow> (model_answer \<times> loop_state) proc \<Rightarrow> bool" where
  "invokes ls m \<longleftrightarrow> tspec m (\<lambda>es r. chats es \<le> 1 \<and> (\<forall>a ls'. r = Inr (a, ls') \<longrightarrow> same_place ls ls'))"

lemma invokes_bindP: "chatless m \<Longrightarrow> (\<And>x. invokes ls (f x)) \<Longrightarrow> invokes ls (bindP m f)"
  unfolding invokes_def chatless_def by (rule tspec_bindP, assumption) (auto elim: tspec_mono)

lemma invokes_returnP: "same_place ls ls' \<Longrightarrow> invokes ls (returnP (a, ls'))"
  unfolding invokes_def by (rule tspec_returnP) simp

lemma invocation_invokes: "invokes ls (invocation_step le ls)"
proof -
  have "invokes ls (bindP (call_model le ls' run messages) (\<lambda>a. returnP (a, ls')))" if "same_place ls ls'" for ls' run messages
    unfolding invokes_def
    by (rule tspec_bindP [OF call_model_calls]) (auto intro: tspec_returnP that)
  then have model: "invokes ls (bindP (call_model le (ls\<lparr>ls_selection := sel\<rparr>) run messages)
      (\<lambda>a. returnP (a, ls\<lparr>ls_selection := sel\<rparr>)))" for sel run messages
    by (simp add: same_place_def)
  show ?thesis
    unfolding invocation_step_def Let_def
    by (auto intro!: invokes_bindP invokes_returnP model chat_rules split: option.split)
qed

text \<open>A turn.\<close>

definition turn_spec :: "loop_state \<Rightarrow> trace_event list \<Rightarrow> err + (epoch_exit + loop_state) \<Rightarrow> bool" where
  "turn_spec ls es r \<longleftrightarrow>
     chats es \<le> 1 \<and> (run_max_steps (ls_run ls) \<le> ls_step ls \<longrightarrow> chats es = 0)
     \<and> (\<forall>ls'. r = Inr (Inr ls') \<longrightarrow> ls_step ls < run_max_steps (ls_run ls) \<and> advanced ls ls')"

lemma leads_turn: "leads Q m \<Longrightarrow> (\<And>ls'. Q ls' \<Longrightarrow> ls_step ls < run_max_steps (ls_run ls) \<and> advanced ls ls') \<Longrightarrow> tspec m (turn_spec ls)"
  unfolding leads_def turn_spec_def by (erule tspec_mono) auto

lemma turn_spec_bindP:
  assumes "chatless m" and "\<And>x. tspec (f x) (turn_spec ls)"
  shows "tspec (bindP m f) (turn_spec ls)"
proof (rule tspec_bindP [OF assms(1) [unfolded chatless_def]])
  fix es x assume "chats es = 0"
  then show "tspec (f x) (\<lambda>es'. turn_spec ls (es @ es'))"
    by (intro tspec_mono [OF assms(2)]) (simp add: turn_spec_def)
qed (simp add: turn_spec_def)

lemma epoch_turn_spec: "tspec (epoch_turn le ls) (turn_spec ls)"
proof (cases "run_max_steps (ls_run ls) \<le> ls_step ls")
  case True
  then show ?thesis
    unfolding epoch_turn_def Let_def
    by (intro turn_spec_bindP chat_rules) (auto intro!: leads_turn [where Q = "\<lambda>_. False"] leads_rules)
next
  case step: False
  have exits: "leads (\<lambda>_. False) m \<Longrightarrow> tspec m (turn_spec ls)" for m
    by (rule leads_turn [where Q = "\<lambda>_. False"]) simp_all
  have answer: "leads (advanced ls) (case a of
        Answer_lease_lost \<Rightarrow> returnP (Inl Ex_lease_lost)
      | Answer_budget_exhausted \<Rightarrow> leave_epoch (le_epoch le) (le_sandbox le) ls1 None Ex_budget_exhausted
      | Answer completion freshRun remaining stillOwned tokensUsed \<Rightarrow>
          if \<not> stillOwned then returnP (Inl Ex_lease_lost) else answered le ls1 completion freshRun remaining tokensUsed)"
    if "same_place ls ls1" for a ls1
    using that by (cases a) (auto intro!: leads_rules intro: leads_mono [OF leads_answered] same_place_advanced)
  have turn: "tspec (bindP (invocation_step le ls) (\<lambda>(a, ls1). case a of
        Answer_lease_lost \<Rightarrow> returnP (Inl Ex_lease_lost)
      | Answer_budget_exhausted \<Rightarrow> leave_epoch (le_epoch le) (le_sandbox le) ls1 None Ex_budget_exhausted
      | Answer completion freshRun remaining stillOwned tokensUsed \<Rightarrow>
          if \<not> stillOwned then returnP (Inl Ex_lease_lost) else answered le ls1 completion freshRun remaining tokensUsed))
     (turn_spec ls)"
    using step
    by (intro tspec_bindP [OF invocation_invokes [unfolded invokes_def]])
      (auto simp: turn_spec_def intro!: tspec_mono [OF answer [unfolded leads_def]])
  have "tspec (bindP (query f) (\<lambda>exceeded. if exceeded then leave_epoch (le_epoch le) (le_sandbox le) ls None Ex_budget_exhausted
      else m)) (turn_spec ls)" if "tspec m (turn_spec ls)" for f m
    using that by (intro turn_spec_bindP chatless_query) (simp add: exits leads_leave)
  from this [OF turn] step show ?thesis
    unfolding epoch_turn_def Let_def
    by (intro turn_spec_bindP chatless_stages) (simp add: exits leads_exit)
qed

section \<open>The loop ends\<close>

definition turns_left :: "loop_state \<Rightarrow> nat" where
  "turns_left ls = MAX_NO_TOOL_TURNS * nat (run_max_steps (ls_run ls) - ls_step ls) - ls_noToolTurns ls"

lemma advanced_turns_left:
  assumes "advanced ls ls'" and "ls_step ls < run_max_steps (ls_run ls)" and "ls_noToolTurns ls < MAX_NO_TOOL_TURNS"
  shows "turns_left ls' < turns_left ls \<and> ls_noToolTurns ls' < MAX_NO_TOOL_TURNS"
proof -
  define n where "n = nat (run_max_steps (ls_run ls) - ls_step ls)"
  have "0 < n" and "nat (run_max_steps (ls_run ls) - (ls_step ls + 1)) = n - 1"
    using assms(2) by (simp_all add: n_def nat_diff_distrib)
  with assms(1,3) show ?thesis
    by (auto simp: advanced_def turns_left_def MAX_NO_TOOL_TURNS_def simp flip: n_def)
qed

lemma epoch_loop_spec:
  assumes "ls_noToolTurns ls < MAX_NO_TOOL_TURNS"
  shows "tspec (epoch_loop fuel le ls) (\<lambda>es r. chats es \<le> turns_left ls \<and> (turns_left ls < fuel \<longrightarrow> r \<noteq> Inr None))"
  using assms
proof (induction fuel arbitrary: ls)
  case 0
  show ?case by (auto intro: tspec_returnP)
next
  case (Suc fuel)
  show ?case
    unfolding epoch_loop.simps
  proof (rule tspec_bindP [OF epoch_turn_spec])
    have once: "chats es \<le> turns_left ls" if "turn_spec ls es r" for es r
      using that Suc.prems by (cases "ls_step ls < run_max_steps (ls_run ls)")
        (auto simp: turn_spec_def turns_left_def MAX_NO_TOOL_TURNS_def)
    show "turn_spec ls es (Inl e) \<Longrightarrow> chats es \<le> turns_left ls \<and> (turns_left ls < Suc fuel \<longrightarrow> Inl e \<noteq> Inr None)" for es e
      using once by simp
    fix es x assume x: "turn_spec ls es (Inr x)"
    show "tspec (case x of Inl e \<Rightarrow> returnP (Some e) | Inr ls' \<Rightarrow> epoch_loop fuel le ls')
        (\<lambda>es' r. chats (es @ es') \<le> turns_left ls \<and> (turns_left ls < Suc fuel \<longrightarrow> r \<noteq> Inr None))"
    proof (cases x)
      case (Inl e)
      with once [OF x] show ?thesis by (auto intro: tspec_returnP)
    next
      case (Inr ls')
      with x have "ls_step ls < run_max_steps (ls_run ls)" "advanced ls ls'" "chats es \<le> 1"
        by (auto simp: turn_spec_def)
      with advanced_turns_left Suc.prems have "turns_left ls' < turns_left ls" "ls_noToolTurns ls' < MAX_NO_TOOL_TURNS" by blast+
      with Suc.IH [OF this(2)] \<open>chats es \<le> 1\<close> Inr show ?thesis by (auto elim!: tspec_mono)
    qed
  qed
qed

section \<open>The epoch ends\<close>

lemma decode_ok:
  assumes "decodeCheckpointEnvelope rd version raw = Inr env"
  shows "envelope_ok rd env"
proof (cases "version = 1")
  case True
  with assms show ?thesis by (auto simp: decode_v1)
next
  case False
  with assms show ?thesis by (auto simp: decodeCheckpointEnvelope_def accept split: if_splits)
qed

lemma latestCheckpoint_ok:
  "latestCheckpoint rd w rid = Inr (Some row) \<Longrightarrow> \<exists>env. state_of (Some row) = Some env \<and> envelope_ok rd env"
  by (auto simp: latestCheckpoint_def bindE_Inr state_of_def split: option.splits intro: decode_ok)

lemma read_checkpoint_spec:
  "tspec (read_checkpoint ee rid)
     (\<lambda>es r. chats es = 0 \<and> (\<forall>row env. r = Inr row \<and> state_of row = Some env \<longrightarrow> envelope_ok (ee_reader ee) env))"
  unfolding read_checkpoint_def
proof (rule tspec_bindP)
  show "tspec (query (\<lambda>w. latestCheckpoint (ee_reader ee) w rid))
      (\<lambda>es r. chats es = 0 \<and> (\<forall>x. r = Inr x \<longrightarrow> (\<exists>w. x = latestCheckpoint (ee_reader ee) w rid)))"
    unfolding query_def by (rule tspec_withTransaction) (auto simp: commit_Inr tx_simps)
  fix es x assume x: "chats es = 0 \<and> (\<forall>y. Inr x = Inr y \<longrightarrow> (\<exists>w. y = latestCheckpoint (ee_reader ee) w rid))"
  then obtain w where w: "x = latestCheckpoint (ee_reader ee) w rid" by blast
  have "state_of row = Some env \<Longrightarrow> x = Inr row \<Longrightarrow> envelope_ok (ee_reader ee) env" for row env
    using latestCheckpoint_ok [of "ee_reader ee" w rid] w by (cases row) (auto simp: state_of_def)
  with x show "tspec (liftP x) (\<lambda>es' r. chats (es @ es') = 0
      \<and> (\<forall>row env. r = Inr row \<and> state_of row = Some env \<longrightarrow> envelope_ok (ee_reader ee) env))"
    by (cases x) (auto simp: liftP_def intro!: tspec_returnP tspec_throwP)
qed simp

lemma restore_state_spec:
  "tspec (restore_state ee)
     (\<lambda>es r. chats es = 0 \<and> (\<forall>state seed. r = Inr (state, seed) \<longrightarrow> envelope_ok (ee_reader ee) state))"
proof -
  have source: "chatless (lineage_source ee)"
    unfolding lineage_source_def by (intro chat_rules)
  have forked: "tspec (case source of
              Some s \<Rightarrow> if ckpt = None \<and> truthy (map_option JStr (run_forked_from_run_id (ee_run ee)))
                        then read_checkpoint ee (run_id s) else returnP None
            | None \<Rightarrow> returnP None)
      (\<lambda>es r. chats es = 0 \<and> (\<forall>row env. r = Inr row \<and> state_of row = Some env \<longrightarrow> envelope_ok (ee_reader ee) env))"
    for source ckpt
  proof -
    have "state_of None = None" by (simp add: state_of_def)
    then show ?thesis by (auto intro: read_checkpoint_spec tspec_returnP split: option.split)
  qed
  have pick: "tspec (case state_of ckpt of
              Some s \<Rightarrow> returnP s
            | None \<Rightarrow> (case state_of fork of
                Some s \<Rightarrow> returnP s
              | None \<Rightarrow> liftP (createCheckpointEnvelope (ee_reader ee) initial_state_input)))
      (\<lambda>es r. chats es = 0 \<and> (\<forall>state. r = Inr state \<longrightarrow> envelope_ok (ee_reader ee) state))"
    if "\<And>env. state_of ckpt = Some env \<Longrightarrow> envelope_ok (ee_reader ee) env"
      "\<And>env. state_of fork = Some env \<Longrightarrow> envelope_ok (ee_reader ee) env" for ckpt fork
    using that by (auto simp: liftP_def accept intro!: tspec_returnP tspec_throwP split: option.split sum.split)
  show ?thesis
    unfolding restore_state_def
    by (rule tspec_bindP [OF read_checkpoint_spec], simp,
        rule tspec_bindP [OF source [unfolded chatless_def]], simp,
        rule tspec_bindP [OF forked], simp,
        rule tspec_bindP [OF pick]) (auto intro!: tspec_returnP)
qed

text \<open>Where a loop may start.\<close>

definition in_bounds :: "'w epoch_env \<Rightarrow> loop_state \<Rightarrow> bool" where
  "in_bounds ee ls \<longleftrightarrow> run_max_steps (ls_run ls) = run_max_steps (ee_run ee) \<and> 0 \<le> ls_step ls \<and> ls_noToolTurns ls = 0"

definition ends :: "'w epoch_env \<Rightarrow> nat \<Rightarrow> epoch_exit option proc \<Rightarrow> bool" where
  "ends ee fuel m \<longleftrightarrow>
     tspec m (\<lambda>es r. chats es \<le> MAX_NO_TOOL_TURNS * nat (run_max_steps (ee_run ee)) \<and> (epoch_fuel ee \<le> fuel \<longrightarrow> r \<noteq> Inr None))"

lemma ends_loop: "in_bounds ee ls \<Longrightarrow> ends ee fuel (epoch_loop fuel le ls)"
  unfolding ends_def
  by (rule tspec_mono [OF epoch_loop_spec])
    (auto simp: in_bounds_def turns_left_def epoch_fuel_def MAX_NO_TOOL_TURNS_def)

lemma ends_bindP: "chatless m \<Longrightarrow> (\<And>x. ends ee fuel (f x)) \<Longrightarrow> ends ee fuel (bindP m f)"
  unfolding chatless_def ends_def by (rule tspec_bindP, assumption) (auto elim: tspec_mono)

lemma ends_resume: "in_bounds ee ls \<Longrightarrow> leads (in_bounds ee) (resume le ls call)"
  unfolding resume_def Let_def
  by (auto intro!: leads_rules chat_rules leads_continue split: tool_outcome.split simp: in_bounds_def say_def)

lemma ends_body: 
  assumes "in_bounds ee ls"
  shows "ends ee fuel (epoch_body fuel ee v sx ls seed pending)"
proof -
  have files: "chatless (restore os sx i)" for os i
    unfolding restore_def restore_head_def restore_files_def by (intro chat_rules; simp)
  have skills: "chatless (materializeSkills sx resolver refs)" for resolver refs
    unfolding materializeSkills_def materialize_one_def Let_def by (intro chat_rules; simp)
  have mcp: "chatless (resolve_mcp ee v)" unfolding resolve_mcp_def by (intro chat_rules)
  have memories: "chatless (recall ee)" unfolding recall_def by (intro chat_rules) simp
  have loop: "ends ee fuel (bindP (case pending of None \<Rightarrow> returnP (Inr ls) | Some call \<Rightarrow> resume le ls call)
      (\<lambda>r. case r of Inl e \<Rightarrow> returnP (Some e) | Inr ls' \<Rightarrow> epoch_loop fuel le ls'))" for le
  proof -
    have start: "leads (in_bounds ee) (case pending of None \<Rightarrow> returnP (Inr ls) | Some call \<Rightarrow> resume le ls call)"
      using assms by (auto intro: leads_continue ends_resume split: option.split)
    have "ends ee fuel (case r of Inl e \<Rightarrow> returnP (Some e) | Inr ls' \<Rightarrow> epoch_loop fuel le ls')"
      if "\<forall>ls'. r = Inr ls' \<longrightarrow> in_bounds ee ls'" for r
      using that by (cases r) (auto intro: ends_loop tspec_returnP simp: ends_def [of _ _ "returnP _"])
    then show ?thesis
      unfolding ends_def by (intro tspec_bindP [OF start [unfolded leads_def]]) (auto elim: tspec_mono)
  qed
  show ?thesis
    unfolding epoch_body_def Let_def thenP_def
    by (rule ends_bindP [OF files] ends_bindP [OF skills] ends_bindP [OF mcp] ends_bindP [OF memories] loop)+
qed

lemma realEpoch_ends: "ends ee fuel (realEpoch fuel ee)"
proof (cases "ee_version ee")
  case None
  then show ?thesis by (auto simp: realEpoch_def ends_def intro: tspec_throwP)
next
  case (Some v)
  have caught: "ends ee fuel (catchP (epoch_body fuel ee v sx ls seed pending)
      (\<lambda>e. bindP (abortedP ee) (\<lambda>aborted. thenP (if aborted then returnP () else cleanup ee sx) (throwP e))))"
    if "in_bounds ee ls" for sx ls seed pending
    unfolding ends_def
  proof (rule tspec_catchP [OF ends_body [OF that, unfolded ends_def]])
    fix es e
    assume "chats es \<le> MAX_NO_TOOL_TURNS * nat (run_max_steps (ee_run ee))
      \<and> (epoch_fuel ee \<le> fuel \<longrightarrow> Inl e \<noteq> (Inr None :: err + epoch_exit option))"
    moreover have "tspec (bindP (abortedP ee) (\<lambda>aborted. thenP (if aborted then returnP () else cleanup ee sx) (throwP e)))
        (\<lambda>es r. chats es = 0 \<and> isl r)"
      by (rule tspec_bindP [OF chatless_stages(2) [unfolded chatless_def]], simp)
        (auto intro!: tspec_thenP [OF chatless_stages(3) [unfolded chatless_def]]
          tspec_thenP [OF chatless_returnP [unfolded chatless_def]] tspec_throwP)
    ultimately show "tspec (bindP (abortedP ee) (\<lambda>aborted. thenP (if aborted then returnP () else cleanup ee sx) (throwP e)))
        (\<lambda>es' r. chats (es @ es') \<le> MAX_NO_TOOL_TURNS * nat (run_max_steps (ee_run ee))
           \<and> (epoch_fuel ee \<le> fuel \<longrightarrow> r \<noteq> Inr None))"
      by (auto elim!: tspec_mono)
  qed
  have "chatless (restore_transcript ee state)" for state
    unfolding restore_transcript_def by (auto intro!: chat_rules split: json.split option.split)
  moreover have "chatless (allocate_sandbox ee v)"
    unfolding allocate_sandbox_def Let_def by (intro chat_rules; simp)
  moreover have "in_bounds ee (initial_loop ee state transcript)" if "envelope_ok (ee_reader ee) state" for state transcript
    using that by (auto simp: in_bounds_def initial_loop_def envelope_ok_def counts_def jint_def)
  ultimately have "ends ee fuel (bindP (restore_transcript ee state) (\<lambda>transcript.
          bindP (allocate_sandbox ee v) (\<lambda>sx.
          catchP (epoch_body fuel ee v sx (initial_loop ee state transcript) seed (pending_of state))
            (\<lambda>e. bindP (abortedP ee) (\<lambda>aborted. thenP (if aborted then returnP () else cleanup ee sx) (throwP e))))))"
    if "envelope_ok (ee_reader ee) state" for state seed
    using that by (intro ends_bindP caught)
  then show ?thesis
    using Some unfolding realEpoch_def ends_def
    by simp (rule tspec_bindP [OF restore_state_spec], simp, auto elim: tspec_mono)
qed

end
