(* ===== verification/Epoch_Demo.thy ===== *)
theory Epoch_Demo
  imports Epoch_Safety
begin

text \<open>
  A worked example of an execution epoch: a run whose model calls \<^verbatim>\<open>run_complete\<close> at once, on a quiet
  system. It completes; the proof composes triples for processes that no other process disturbs.
\<close>

section \<open>The example\<close>

definition demo_unlimited :: run_row where
  "demo_unlimited = (demo_run RUNNING)\<lparr>run_token_budget := None\<rparr>"

definition demo_ready :: world where
  "demo_ready = (demo_world RUNNING)\<lparr>w_runs := [demo_unlimited]\<rparr>"

definition demo_sandbox :: sandbox where
  "demo_sandbox =
     \<lparr>sx_id = ''sb_1'', sx_exec = (\<lambda>_ _ _. Inr \<lparr>ex_exitCode = 0, ex_stdout = ''d'' @ nl @ ''12'', ex_stderr = []\<rparr>),
      sx_writeFile = (\<lambda>_ _ _. Inr ()), sx_readFile = (\<lambda>_ _. Inr ''report'')\<rparr>"

definition demo_store :: object_store where
  "demo_store =
     \<lparr>os_get = (\<lambda>_ _. Inr ''[]''), os_put = (\<lambda>_ _ _. Inr ()), os_presignGet = (\<lambda>_ _ _. Inr ''get''),
      os_presignPut = (\<lambda>_ _ _. Inr ''put''), os_clock = (\<lambda>_. 1000)\<rparr>"

definition demo_version :: agent_version where
  "demo_version =
     \<lparr>av_agentId = ''ad_1'', av_instructions = ''i'', av_model = Some ''m'', av_escalationModel = None,
      av_maxTokens = None, av_temperature = None, av_skillRefs = [], av_mcpToolsetRefs = [],
      av_sandboxSpec = \<lparr>ss_image = None, ss_cpuMilli = None, ss_memoryMB = None, ss_timeoutMinutes = None\<rparr>,
      av_verifierPolicy = \<lparr>vp_requiredArtifacts = [], vp_command = None, vp_requireReceiptsSettled = True\<rparr>\<rparr>"

definition demo_config :: epoch_config where
  "demo_config =
     \<lparr>ec_sandboxTimeoutMinutes = Finite 30, ec_checkpointEverySteps = 1, ec_supervisorEnabled = True,
      ec_thresholds = DEFAULT_THRESHOLDS, ec_modelMaxOutputTokens = 1000, ec_arkModel = None, ec_escalationModel = None\<rparr>"

definition demo_completion :: "tool_call list \<Rightarrow> completion" where
  "demo_completion calls =
     \<lparr>cp_message = \<lparr>cm_role = Assistant, cm_content = None, cm_toolCalls = Some calls, cm_toolCallId = None\<rparr>,
      cp_usage = \<lparr>mu_inputTokens = 40, mu_outputTokens = 10\<rparr>\<rparr>"

definition complete_call :: "string \<Rightarrow> tool_call" where
  "complete_call path =
     \<lparr>tc_id = ''c1'', tc_name = ''run_complete'',
      tc_arguments = [(''summary'', JStr ''done''), (''artifacts'', JArr [JStr path])]\<rparr>"

definition demo_epoch :: "string \<Rightarrow> unit epoch_env" where
  "demo_epoch path =
     \<lparr>ee_run = demo_unlimited, ee_attempt = demo_attempt, ee_version = Some demo_version, ee_cfg = demo_config,
      ee_aborted = (\<lambda>_. False), ee_create = (\<lambda>_ _ _. Inr demo_sandbox), ee_baseUrl = (\<lambda>_. ''u''),
      ee_terminate = (\<lambda>_ _. Inr ()), ee_store = demo_store,
      ee_chat = (\<lambda>_ _. Inr (demo_completion [complete_call path])), ee_recall = None, ee_resolveSkill = None,
      ee_mcpTools = None, ee_mcpPolicy = (\<lambda>_ _. Policy_missing), ee_toolDocs = [], ee_toolDefs = (\<lambda>_. JArr []),
      ee_tools = demo_tool\<lparr>tc_sha256 := (\<lambda>_. replicate 64 CHR ''a'')\<rparr>, ee_reader = demo_reader,
      ee_number = (\<lambda>_. Some 12), ee_parseTranscript = (\<lambda>_. Some [])\<rparr>"

definition demo_loop_env :: "string \<Rightarrow> unit loop_env" where
  "demo_loop_env path =
     \<lparr>le_epoch = demo_epoch path, le_version = demo_version, le_sandbox = demo_sandbox,
      le_tools = tools_of (demo_epoch path) demo_sandbox [], le_toolDefs = JArr [], le_skills = [], le_memories = []\<rparr>"

section \<open>Total triples\<close>

text \<open>From \<open>P\<close>, undisturbed, the process returns a result with \<open>Q\<close>.\<close>

definition calm :: "proc_state \<Rightarrow> bool" where
  "calm g \<longleftrightarrow> ps_env g = (\<lambda>_ w. w)"

definition returns :: "(world \<Rightarrow> bool) \<Rightarrow> 'a proc \<Rightarrow> ('a \<Rightarrow> world \<Rightarrow> bool) \<Rightarrow> bool" where
  "returns P m Q \<longleftrightarrow> (\<forall>g. calm g \<and> P (ps_world g) \<longrightarrow> (\<exists>x h. m g = (Inr x, h) \<and> calm h \<and> Q x (ps_world h)))"

lemma returnsD: "returns P m Q \<Longrightarrow> calm g \<Longrightarrow> P (ps_world g) \<Longrightarrow> \<exists>x h. m g = (Inr x, h) \<and> calm h \<and> Q x (ps_world h)"
  unfolding returns_def by blast

lemma returns_returnP: "(\<And>w. P w \<Longrightarrow> Q x w) \<Longrightarrow> returns P (returnP x) Q"
  by (simp add: returns_def returnP_def)

lemma returns_bindP:
  assumes m: "returns P m Q" and f: "\<And>x. returns (Q x) (f x) R"
  shows "returns P (bindP m f) R"
  unfolding returns_def
proof (intro allI impI)
  fix g assume "calm g \<and> P (ps_world g)"
  with returnsD [OF m] obtain x g1 where "m g = (Inr x, g1)" "calm g1" "Q x (ps_world g1)" by blast
  with returnsD [OF f] show "\<exists>y h. bindP m f g = (Inr y, h) \<and> calm h \<and> R y (ps_world h)"
    by (simp add: bindP_def)
qed

lemma returns_thenP: "returns P m (\<lambda>_. Q) \<Longrightarrow> returns Q n R \<Longrightarrow> returns P (thenP m n) R"
  unfolding thenP_def by (rule returns_bindP)

lemma bindP_returnP [simp]: "bindP (returnP x) f = f x"
  by (simp add: bindP_def returnP_def)

lemma thenP_returnP [simp]: "thenP (returnP x) n = n"
  by (simp add: thenP_def)

lemma returns_pre: "returns Q m R \<Longrightarrow> (\<And>w. P w \<Longrightarrow> Q w) \<Longrightarrow> returns P m R"
  unfolding returns_def by blast

lemma returns_post: "returns P m Q \<Longrightarrow> (\<And>x w. Q x w \<Longrightarrow> R x w) \<Longrightarrow> returns P m R"
  unfolding returns_def by blast

text \<open>The result in a triple, when it is known.\<close>

lemma returns_known: "returns (\<lambda>w. P w) (f y) R \<Longrightarrow> returns (\<lambda>w. x = y \<and> P w) (f x) R"
  unfolding returns_def by blast

lemma returns_bind_known: "returns P m (\<lambda>x w. x = y \<and> Q w) \<Longrightarrow> returns Q (f y) R \<Longrightarrow> returns P (bindP m f) R"
  by (rule returns_bindP, assumption, rule returns_known)

lemma returns_transaction:
  assumes "\<And>w. P w \<Longrightarrow> \<exists>x w'. m w = Inr (x, w') \<and> Q x w'"
  shows "returns P (withTransaction m) Q"
  unfolding returns_def
proof (intro allI impI)
  fix g assume g: "calm g \<and> P (ps_world g)"
  with assms obtain x w' where "m (ps_world g) = Inr (x, w')" "Q x w'" by blast
  with g show "\<exists>x h. withTransaction m g = (Inr x, h) \<and> calm h \<and> Q x (ps_world h)"
    by (simp add: withTransaction_def calm_def commit_def Let_def)
qed

lemma returns_query: "(\<And>w. P w \<Longrightarrow> Q (f w) w) \<Longrightarrow> returns P (query f) Q"
  unfolding query_def by (rule returns_transaction) (simp add: getsT_def)

lemma returns_external: "(\<And>n. f n = x) \<Longrightarrow> returns P (external f ev) (\<lambda>y w. y = x \<and> P w)"
  by (simp add: returns_def external_def calm_def Let_def)

lemma returns_provider: "(\<And>n. f n = Inr x) \<Longrightarrow> returns P (provider_call name f) (\<lambda>y w. y = x \<and> P w)"
  unfolding provider_call_def by (rule returns_bind_known [OF returns_external]) (auto intro: returns_returnP)

lemma returns_catchP: "returns P m Q \<Longrightarrow> returns P (catchP m h) Q"
  unfolding returns_def catchP_def by fastforce

lemma returns_aborted: "(\<And>n. ee_aborted ee n = False) \<Longrightarrow> returns P (abortedP ee) (\<lambda>a w. a = False \<and> P w)"
  unfolding abortedP_def by (rule returns_external)

section \<open>The states of the example\<close>

text \<open>
  The run in a given status, held by its attempt, with an empty progress ledger and no artifact; \<open>fresh\<close> says that
  nothing has been saved either.
\<close>

definition live :: "run_status \<Rightarrow> bool \<Rightarrow> world \<Rightarrow> bool" where
  "live st fresh w \<longleftrightarrow>
     kernel_ok w
     \<and> (\<exists>r. find_run w ''run_1'' = Some r \<and> run_status r = st \<and> run_current_attempt_id r = Some ''att_1''
          \<and> run_token_budget r = None \<and> run_progress r = JObj [])
     \<and> (\<exists>a. w_attempts w = [a] \<and> att_id a = ''att_1'' \<and> att_run_id a = ''run_1'' \<and> att_state a = AS_ACTIVE)
     \<and> w_workspaces w = [(''ws_1'', ''run_1'')] \<and> w_receipts w = [] \<and> w_artifacts w = [] \<and> w_checkpoints w = []
     \<and> (fresh \<longrightarrow> w_heads w = [] \<and> w_revisions w = [])"

lemma demo_ready_live: "live RUNNING True demo_ready"
proof -
  have "kernel_ok demo_ready"
    by (simp add: demo_ready_def demo_unlimited_def kernel_ok_def ledger_ok_def outbox_mirrors_def gapless_def
        admission_ok_def session_ok_def sessions_fenced_def session_open_def session_mirrors_def demo_session_def demo_admission_def)
  then show ?thesis
    by (simp add: live_def demo_ready_def demo_unlimited_def find_run_def demo_run_def demo_attempt_def
        demo_world_def demo_base_def fresh_database_def)
qed

lemma live_append:
  assumes "live st fresh w" and "p_current_attempt_id patch = None" and "p_progress patch = None"
  shows "\<exists>seq w'. appendEvent ''run_1'' type payload aid patch w = Inr (seq, w') \<and> live st fresh w'"
proof -
  from assms(1) obtain r where r: "find_run w ''run_1'' = Some r" "run_status r = st" "run_current_attempt_id r = Some ''att_1''"
    "run_token_budget r = None" "run_progress r = JObj []" and ok: "kernel_ok w"
    by (auto simp: live_def)
  from next_seq_free [OF kernel_okD [OF ok] r(1)] r(1) obtain seq w' where
    app: "appendEvent ''run_1'' type payload aid patch w = Inr (seq, w')"
    and w': "w' = log_event (new_event ''run_1'' seq type payload aid (w_now w)) (append_row patch seq (w_now w)) w"
    by (auto simp: appendEvent_iff)
  have "kernel_ok w'" using appendEvent_kernel_ok ok app by (rule hoareD)
  moreover have "find_run w' ''run_1'' = Some (append_row patch seq (w_now w) r)"
    using r(1) by (simp add: w' find_run_log_event)
  ultimately have "live st fresh w'"
    using assms r by (auto simp: live_def w' append_row_def)
  with app show ?thesis by blast
qed

lemma returns_append:
  "returns (live st fresh) (withTransaction (appendEvent ''run_1'' type payload aid no_patch)) (\<lambda>_. live st fresh)"
proof (rule returns_transaction)
  have "p_current_attempt_id no_patch = None" "p_progress no_patch = None" by (simp_all add: no_patch_def)
  then show "\<exists>x w'. appendEvent ''run_1'' type payload aid no_patch w = Inr (x, w') \<and> live st fresh w'"
    if "live st fresh w" for w
    using live_append [OF that] by blast
qed

lemma returns_transition:
  assumes "st \<in> set (to_expectFrom opts)" and "isTransitionAllowed st (to_to opts)" and "to_patch opts = no_patch"
  shows "returns (live st fresh) (withTransaction (transitionRun ''run_1'' opts)) (\<lambda>_. live (to_to opts) fresh)"
proof (rule returns_transaction)
  fix w assume live: "live st fresh w"
  then obtain r where r: "find_run w ''run_1'' = Some r" "run_status r = st" "run_current_attempt_id r = Some ''att_1''"
    "run_token_budget r = None" "run_progress r = JObj []" and ok: "kernel_ok w"
    by (auto simp: live_def)
  have move: "transitionRun ''run_1'' opts w =
      Inr (transition_row opts (run_last_event_seq r + 1) (w_now w) r, transition_world r opts w)"
    using next_seq_free [OF kernel_okD [OF ok] r(1)] r assms by (simp add: transitionRun_iff)
  have "kernel_ok (transition_world r opts w)" using transitionRun_kernel_ok ok move by (rule hoareD)
  moreover have "find_run (transition_world r opts w) ''run_1'' = Some (transition_row opts (run_last_event_seq r + 1) (w_now w) r)"
    using r(1) find_run_id [OF r(1)] by (simp add: find_run_transition_world)
  ultimately have "live (to_to opts) fresh (transition_world r opts w)"
    using live r assms(3) by (auto simp: live_def transition_row_def no_patch_def)
  with move show "\<exists>x w'. transitionRun ''run_1'' opts w = Inr (x, w') \<and> live (to_to opts) fresh w'" by blast
qed

text \<open>The sandbox answers every command with two lines, the store takes everything.\<close>

lemma returns_exec: "returns P (exec_in demo_sandbox command cwd t)
    (\<lambda>x w. x = \<lparr>ex_exitCode = 0, ex_stdout = ''d'' @ nl @ ''12'', ex_stderr = []\<rparr> \<and> P w)"
  unfolding exec_in_def by (rule returns_provider) (simp add: demo_sandbox_def)

lemma returns_put: "returns P (provider_call ''put'' (os_put demo_store key content)) (\<lambda>_. P)"
  by (rule returns_post [OF returns_provider [where x = "()"]]) (simp_all add: demo_store_def)

lemma returns_snapshot:
  "returns (live st True) (workspace_checkpoint (\<lambda>_. Some 12) demo_store demo_sandbox ''run_1'' ''att_1'' ''ws_1'') (\<lambda>_. live st False)"
proof -
  have recorded: "returns (live st True) (withTransaction (record_revision (\<lambda>_. Some 12) ''run_1'' ''att_1'' ''ws_1'' key digest size))
      (\<lambda>_. live st False)" for key digest size
  proof (rule returns_transaction)
    fix w assume live: "live st True w"
    then have "\<exists>x w1. insertRevision ''ws_1'' key digest (Some 12) (Some ''att_1'') w = Inr (x, w1) \<and> live st False w1"
    proof -
      obtain x w1 where ins: "insertRevision ''ws_1'' key digest (Some 12) (Some ''att_1'') w = Inr (x, w1)"
        and w1: "\<exists>i. w1 = w\<lparr>w_ulid_next := Suc (w_ulid_next w), w_revisions := [x], w_heads := [(''ws_1'', i)]\<rparr>"
        using live by (auto simp: insertRevision_def tx_eval newId_def Let_def live_def exists_row_def)
      have "kernel_from w w1" using hoareD [OF insertRevision_kernel_from _ ins] kernel_from_refl live by (auto simp: live_def)
      then have "kernel_ok w1" by (rule kernel_from_ok)
      with live w1 have "live st False w1" by (auto simp: live_def find_run_def)
      with ins show ?thesis by blast
    qed
    then obtain x w1 where one: "insertRevision ''ws_1'' key digest (Some 12) (Some ''att_1'') w = Inr (x, w1)" "live st False w1"
      by blast
    have "p_current_attempt_id no_patch = None" "p_progress no_patch = None" by (simp_all add: no_patch_def)
    from live_append [OF one(2) this] obtain seq w' where
      "appendEvent ''run_1'' WorkspaceCheckpointed [(''revisionId'', JStr (rev_id x)), (''tosKey'', JStr key), (''digest'', JStr digest),
         (''sizeBytes'', jint 12)] (Some ''att_1'') no_patch w1 = Inr (seq, w')" "live st False w'" by blast
    with one(1) show "\<exists>x w'. record_revision (\<lambda>_. Some 12) ''run_1'' ''att_1'' ''ws_1'' key digest size w = Inr (x, w') \<and> live st False w'"
      by (simp add: record_revision_def snapshot_size_def liftT_def tx_eval)
  qed
  show ?thesis
    unfolding workspace_checkpoint_def Let_def
    by (rule returns_bind_known [OF returns_provider [where x = 1000]], simp add: demo_store_def,
        rule returns_bind_known [OF returns_provider [where x = "''put''"]], simp add: demo_store_def,
        rule returns_bind_known [OF returns_exec]) (simp add: recorded)
qed

section \<open>Finishing\<close>

definition demo_loop :: "string \<Rightarrow> loop_state" where
  "demo_loop path = initial_loop (demo_epoch path) [] []"

definition demo_staged :: "loop_state \<Rightarrow> int \<Rightarrow> artifact_input" where
  "demo_staged ls seq = staged_artifact (stage_context_of (demo_loop_env ''report.md'') ls seq) ''report.md'' ''report''"

lemma demo_loop_env_sel [simp]:
  "le_epoch (demo_loop_env path) = demo_epoch path" "le_version (demo_loop_env path) = demo_version"
  "le_sandbox (demo_loop_env path) = demo_sandbox"
  by (simp_all add: demo_loop_env_def)

lemma demo_epoch_sel [simp]:
  "ee_rid (demo_epoch path) = ''run_1''" "ee_aid (demo_epoch path) = ''att_1''" "ee_store (demo_epoch path) = demo_store"
  "ee_number (demo_epoch path) = (\<lambda>_. Some 12)" "workspace_of (demo_epoch path) = ''ws_1''" "ee_cfg (demo_epoch path) = demo_config"
  "ee_aborted (demo_epoch path) = (\<lambda>_. False)"
  by (simp_all add: demo_epoch_def demo_unlimited_def demo_attempt_def demo_run_def workspace_of_def or_else_def)

lemma demo_staged_valid:
  assumes "ls_step ls = 0"
  shows "validateArtifactInput (demo_staged ls seq) = Inr ()"
proof -
  have "validateArtifactInput (demo_staged ls seq) = validateArtifactInput (demo_staged (demo_loop ''report.md'') 2)"
    using assms by (simp add: validateArtifactInput_def demo_staged_def staged_artifact_def stage_context_of_def Let_def demo_loop_def
        initial_loop_def jfield_def)
  also have "\<dots> = Inr ()" by code_simp
  finally show ?thesis .
qed

lemma returns_verify:
  "returns (live st fresh) (verify demo_sandbox ''run_1'' (av_verifierPolicy demo_version) [path]) (\<lambda>f w. f = [] \<and> live st fresh w)"
proof -
  have path: "returns P (verify_path demo_sandbox p) (\<lambda>f w. f = [] \<and> P w)" for P p
    unfolding verify_path_def by (rule returns_bind_known [OF returns_exec]) (auto intro: returns_returnP)
  have paths: "returns P (mapP (verify_path demo_sandbox) (unique [path])) (\<lambda>f w. f = [[]] \<and> P w)" for P
    by (simp add: unique_def) (rule returns_bind_known [OF path], rule returns_returnP, simp)
  have receipts: "returns (live st fresh) (verify_receipts True ''run_1'') (\<lambda>f w. f = [] \<and> live st fresh w)"
    unfolding verify_receipts_def
    by (simp, rule returns_bind_known [OF returns_query [where Q = "\<lambda>n w. n = 0 \<and> live st fresh w"]])
      (auto intro: returns_returnP simp: live_def unresolved_receipts_def row_count_def)
  show ?thesis
    unfolding verify_def demo_version_def
    by (simp, rule returns_bind_known [OF paths], simp add: verify_command_def, rule returns_bind_known [OF receipts],
        rule returns_returnP, simp)
qed

lemma returns_stage:
  "returns P (stageArtifactOutputs (stage_context_of (demo_loop_env ''report.md'') ls seq) [''report.md''])
     (\<lambda>a w. a = [demo_staged ls seq] \<and> P w)"
proof -
  have path: "collect normalizeArtifactPath [''report.md''] = Inr [''report.md'']" by code_simp
  have one: "returns P (stage_one (stage_context_of (demo_loop_env ''report.md'') ls seq) ''report.md'') (\<lambda>a w. a = demo_staged ls seq \<and> P w)"
    for P
    unfolding stage_one_def Let_def
    by (rule returns_bind_known [OF returns_provider [where x = "''report''"]],
        simp add: stage_context_of_def demo_sandbox_def, rule returns_thenP, simp add: stage_context_of_def,
        rule returns_put, rule returns_returnP, simp add: demo_staged_def)
  show ?thesis
    unfolding stageArtifactOutputs_def path
    by (simp add: unique_def) (rule returns_bind_known [OF one], rule returns_returnP, simp)
qed

lemma complete_demo:
  assumes "live VERIFYING fresh w" and "ls_step ls = 0"
  shows "\<exists>w'. complete_run (demo_loop_env ''report.md'') summary [demo_staged ls seq] result n w = Inr ((), w')"
proof -
  have art: "w_artifacts w = []" using assms(1) by (simp add: live_def)
  have some_id: "ai_id (demo_staged ls seq) \<noteq> None" by (simp add: demo_staged_def staged_artifact_def Let_def)
  have short: "length (ai_mimeType (demo_staged ls seq)) \<le> 255 \<and> length (ai_sourcePath (demo_staged ls seq)) \<le> 1024
      \<and> length (ai_objectKey (demo_staged ls seq)) \<le> 2048"
    by (simp add: demo_staged_def staged_artifact_def Let_def stage_context_of_def deterministicArtifactId_def mimeTypeFor_def)
  obtain a w1 where new: "createArtifact (demo_staged ls seq) w = Inr (a, w1)" "w1 = w\<lparr>w_artifacts := [a]\<rparr>"
    using some_id short art demo_staged_valid [OF assms(2)]
    by (auto simp: createArtifact_def tx_eval liftT_def Let_def exists_row_def)
  from assms(1) obtain r where r: "find_run w ''run_1'' = Some r" "run_status r = VERIFYING" and ok: "kernel_ok w"
    by (auto simp: live_def)
  have run1: "find_run w1 ''run_1'' = Some r" "w_events w1 = w_events w" using r new(2) by (simp_all add: find_run_def)
  obtain r' w2 where "transitionRun ''run_1'' (to_completed ''att_1'' summary [demo_staged ls seq] result n) w1 = Inr (r', w2)"
    using next_seq_free [OF kernel_okD [OF ok] r(1)] run1 r(2)
    by (simp add: transitionRun_iff to_completed_def isTransitionAllowed_def)
  with new(1) show ?thesis by (simp add: complete_run_def tx_eval)
qed

lemma returns_finish:
  assumes "ls_step ls = 0"
  shows "returns (live RUNNING True) (finishRun (demo_loop_env ''report.md'') ls summary [''report.md''] result n) (\<lambda>x _. x = None)"
proof -
  have verifying: "returns (live RUNNING True) (withTransaction (transitionRun ''run_1'' (to_verifying ''att_1'' summary [''report.md''])))
      (\<lambda>_. live VERIFYING True)"
    using returns_transition [of RUNNING "to_verifying ''att_1'' summary [''report.md'']"]
    by (simp add: to_verifying_def isTransitionAllowed_def)
  have complete: "returns (live VERIFYING False)
      (withTransaction (complete_run (demo_loop_env ''report.md'') summary [demo_staged ls seq] result n)) (\<lambda>_ _. True)" for seq
    by (rule returns_transaction) (use complete_demo assms in blast)
  show ?thesis
    unfolding finishRun_def Let_def
    by (simp, rule returns_thenP [OF verifying], rule returns_bind_known [OF returns_verify], simp,
        rule returns_bindP [OF returns_append], rule returns_bind_known [OF returns_stage],
        rule returns_thenP [OF returns_snapshot], rule returns_thenP [OF complete], rule returns_returnP, simp)
qed

section \<open>The turn\<close>

abbreviation demo_calls :: "tool_call list" where "demo_calls \<equiv> [complete_call ''report.md'']"

text \<open>The loop at its start.\<close>

definition starting :: "loop_state \<Rightarrow> bool" where
  "starting ls \<longleftrightarrow>
     ls_step ls = 0 \<and> ls_noToolTurns ls = 0 \<and> run_max_steps (ls_run ls) = 50 \<and> ls_supervisor ls = initialSupervisorState"

lemma context_hit_none [simp]: "context_hit [] targets = None"
  by (induction targets) simp_all

lemma evaluate_start:
  assumes "si_completedItems input = []" and "si_remainingItems input = 0"
  shows "sr_detections (evaluate dec DEFAULT_THRESHOLDS initialSupervisorState input) = []
    \<and> sr_directive (evaluate dec DEFAULT_THRESHOLDS initialSupervisorState input) = Continue"
  using assms
  by (simp add: evaluate_def Let_def detections_of_def detect_loop_def detect_stagnation_def detect_context_loss_def
      detect_budget_def next_actions_def next_progress_def push_def initialSupervisorState_def DEFAULT_THRESHOLDS_def
      trailingRepeats_def)

lemma returns_supervise:
  assumes "run_progress run = JObj []" and "ls_supervisor ls = initialSupervisorState" and "ls_step ls = 0"
  shows "returns P (supervise_turn (demo_loop_env ''report.md'') ls calls run) (\<lambda>r w. (\<exists>ls'. r = Inr ls' \<and> ls_step ls' = 0) \<and> P w)"
proof -
  have items: "completed_items (run_progress run) = Inr []"
    by (simp add: assms(1) completed_items_def ledgerCompleted_def ledger_strings_def)
  have remaining: "si_remainingItems (supervisor_input_of le ls calls run []) = 0"
    "si_completedItems (supervisor_input_of le ls calls run []) = []" for le :: "unit loop_env"
    by (simp_all add: assms(1) supervisor_input_of_def ledgerRemaining_def ledger_strings_def split: prod.split)
  show ?thesis
    unfolding supervise_turn_def Let_def
    using evaluate_start [OF remaining(2,1)] assms(2,3)
    by (simp add: items liftP_def demo_config_def steer_def) (rule returns_returnP, simp)
qed

lemma returns_cleanup: "returns P (cleanup (demo_epoch path) sx) (\<lambda>_ _. True)"
  unfolding returns_def cleanup_def
  by (auto simp: provider_call_def external_def Let_def bindP_def thenP_def returnP_def throwP_def catchP_def withTransaction_def calm_def
      split: sum.split prod.split)

lemma demo_result: "\<exists>v n. buildBoundedRunResult (\<lambda>v. length (stringify (\<lambda>_. []) v)) ''done'' JNull = Inr (v, n)"
proof -
  have "length (stringify (\<lambda>_. []) (JObj [(''schemaVersion'', jint 1), (''summary'', JStr ''done''), (''data'', JObj [])])) < 100"
    by code_simp
  then show ?thesis by (simp add: buildBoundedRunResult_def Let_def MAX_DELEGATED_RESULT_BYTES_def)
qed

lemma returns_dispatch:
  "returns P (dispatch_call (demo_loop_env ''report.md'') ls (complete_call ''report.md''))
     (\<lambda>x w. (\<exists>v n. x = Complete ''done'' [''report.md''] v n) \<and> P w)"
proof -
  from demo_result obtain v n where v: "buildBoundedRunResult (\<lambda>v. length (stringify (\<lambda>_. []) v)) ''done'' JNull = Inr (v, n)"
    by blast
  have "run_complete tc (tc_arguments (complete_call ''report.md'')) = returnP (Complete ''done'' [''report.md''] v n)"
    if "tc_fmt tc = (\<lambda>_. [])" for tc :: "unit tool_ctx"
    using that v
    by (simp add: run_complete_def complete_call_def Let_def jfield_def string_arg_def MAX_DELEGATED_ARTIFACT_REFS_def)
  then show ?thesis
    unfolding dispatch_call_def
    by (intro returns_bind_known [OF returns_aborted])
      (auto simp: dispatchTool_def complete_call_def demo_loop_env_def tools_of_def demo_epoch_def demo_tool_def intro!: returns_returnP)
qed

lemma returns_act:
  assumes "ls_step ls = 0"
  shows "returns (live RUNNING True) (act (demo_loop_env ''report.md'') ls demo_calls) (\<lambda>r _. r = Inl Ex_completed)"
proof -
  let ?ls = "ls\<lparr>ls_noToolTurns := 0\<rparr>"
  have settle: "returns (\<lambda>w. (\<exists>v n. x = Complete ''done'' [''report.md''] v n) \<and> live RUNNING True w)
      (settle_outcome (demo_loop_env ''report.md'') ?ls (complete_call ''report.md'') x) (\<lambda>r _. r = Inl Ex_completed)" for x
  proof (cases "\<exists>v n. x = Complete ''done'' [''report.md''] v n")
    case True
    then obtain v n where x: "x = Complete ''done'' [''report.md''] v n" by blast
    have "returns (live RUNNING True) (bindP (finishRun (demo_loop_env ''report.md'') ?ls ''done'' [''report.md''] v n)
        (settle_completion (demo_loop_env ''report.md'') ?ls (complete_call ''report.md''))) (\<lambda>r _. r = Inl Ex_completed)"
    proof (rule returns_bind_known [where Q = "\<lambda>_. True"])
      show "returns (live RUNNING True) (finishRun (demo_loop_env ''report.md'') ?ls ''done'' [''report.md''] v n)
          (\<lambda>x w. x = None \<and> True)"
        using returns_finish [of ?ls] assms by simp
      show "returns (\<lambda>_. True) (settle_completion (demo_loop_env ''report.md'') ?ls (complete_call ''report.md'') None)
          (\<lambda>r _. r = Inl Ex_completed)"
        unfolding settle_completion_def Let_def by simp (rule returns_thenP [OF returns_cleanup], rule returns_returnP, simp)
    qed
    then show ?thesis using x by (simp add: settle_outcome_def Let_def)
  next
    case False
    then show ?thesis by (simp add: returns_def)
  qed
  have calls: "returns (live RUNNING True) (run_calls (demo_loop_env ''report.md'') ?ls demo_calls) (\<lambda>r w. r = Inl Ex_completed \<and> True)"
    by (simp only: run_calls.simps, rule returns_bind_known [OF returns_aborted], simp, simp, rule returns_bindP [OF returns_dispatch],
        rule returns_bind_known [OF returns_post [OF settle, where R = "\<lambda>r _. r = Inl Ex_completed \<and> True"]], simp, simp,
        rule returns_returnP, simp)
  show ?thesis
    unfolding act_def by (simp only: list.distinct if_False, rule returns_bind_known [OF calls], simp, rule returns_returnP, simp)
qed

text \<open>The invocation: the run is held, and the answer calls \<^verbatim>\<open>run_complete\<close>.\<close>

definition demo_answer :: "loop_state \<Rightarrow> model_answer \<times> loop_state \<Rightarrow> bool" where
  "demo_answer ls x \<longleftrightarrow>
     (\<exists>run n. fst x = Answer (demo_completion demo_calls) run None True n \<and> run_progress run = JObj []) \<and> starting (snd x)"

lemma live_held:
  assumes "live RUNNING fresh w"
  shows "\<exists>r. find (\<lambda>r. run_id r = ''run_1'' \<and> holds_run w ''att_1'' r) (w_runs w) = Some r \<and> find_run w ''run_1'' = Some r
     \<and> run_token_budget r = None \<and> run_progress r = JObj []"
proof -
  from assms obtain r a where r: "find_run w ''run_1'' = Some r" "run_status r = RUNNING" "run_current_attempt_id r = Some ''att_1''"
      "run_token_budget r = None" "run_progress r = JObj []"
    and a: "w_attempts w = [a]" "att_id a = ''att_1''" "att_run_id a = ''run_1''" "att_state a = AS_ACTIVE" and ok: "ledger_ok w"
    by (auto simp: live_def)
  have held: "holds_run w ''att_1'' r" using r a find_run_id [OF r(1)] by (simp add: holds_run_def exists_row_def)
  have same: "r' = r" if "r' \<in> set (w_runs w)" "run_id r' = ''run_1''" for r'
  proof -
    from that have "find_run w ''run_1'' = Some r'" by (simp add: find_run_iff [OF ok])
    with r(1) show ?thesis by simp
  qed
  have mem: "r \<in> set (w_runs w)" "run_id r = ''run_1''" using find_run_id [OF r(1)] by auto
  have "find (\<lambda>r. run_id r = ''run_1'' \<and> holds_run w ''att_1'' r) (w_runs w) = Some r"
  proof (cases "find (\<lambda>r. run_id r = ''run_1'' \<and> holds_run w ''att_1'' r) (w_runs w)")
    case None
    with mem held show ?thesis unfolding find_None_iff by blast
  next
    case (Some x)
    from find_SomeD [OF this] same [of x] Some show ?thesis by simp
  qed
  with r show ?thesis by blast
qed

lemma returns_begin:
  "returns (live RUNNING fresh) (withTransaction (beginModelInvocation ''run_1'' ''att_1'' step))
     (\<lambda>x w. (\<exists>run. x = Some run \<and> run_token_budget run = None \<and> run_progress run = JObj []) \<and> live RUNNING fresh w)"
proof (rule returns_transaction)
  fix w assume live: "live RUNNING fresh w"
  from live_held [OF live] obtain r where r: "find (\<lambda>r. run_id r = ''run_1'' \<and> holds_run w ''att_1'' r) (w_runs w) = Some r"
    "run_token_budget r = None" "run_progress r = JObj []" by blast
  have "p_current_attempt_id no_patch = None" "p_progress no_patch = None" by (simp_all add: no_patch_def)
  from live_append [OF live this] obtain seq w' where
    "appendEvent ''run_1'' ModelInvocationStarted [(''step'', jint step)] (Some ''att_1'') no_patch w = Inr (seq, w')"
    "live RUNNING fresh w'" by blast
  with r show "\<exists>x w'. beginModelInvocation ''run_1'' ''att_1'' step w = Inr (x, w')
      \<and> (\<exists>run. x = Some run \<and> run_token_budget run = None \<and> run_progress run = JObj []) \<and> live RUNNING fresh w'"
    by (auto simp: beginModelInvocation_iff)
qed

lemma returns_completed_invocation:
  "returns (live RUNNING fresh) (withTransaction (completeModelInvocation ''run_1'' ''att_1'' step usage))
     (\<lambda>x w. snd x \<and> live RUNNING fresh w)"
proof (rule returns_transaction)
  fix w assume live: "live RUNNING fresh w"
  from live_held [OF live] obtain r where r: "find_run w ''run_1'' = Some r" by blast
  let ?tokens = "run_tokens_used r + (mu_inputTokens usage + mu_outputTokens usage)"
  have "p_current_attempt_id (no_patch\<lparr>p_tokens_used := Some ?tokens\<rparr>) = None"
    "p_progress (no_patch\<lparr>p_tokens_used := Some ?tokens\<rparr>) = None" by (simp_all add: no_patch_def)
  from live_append [OF live this] obtain seq w' where
    app: "appendEvent ''run_1'' ModelInvocationCompleted [(''step'', jint step), (''usage'', usage_json usage)] (Some ''att_1'')
      (no_patch\<lparr>p_tokens_used := Some ?tokens\<rparr>) w = Inr (seq, w')" and live': "live RUNNING fresh w'" by blast
  have "run_status r = RUNNING \<and> run_current_attempt_id r = Some ''att_1''"
    "map_option att_state (find_attempt w' ''att_1'') = Some AS_ACTIVE"
    using live live' r by (auto simp: live_def find_attempt_def)
  with app r have "completeModelInvocation ''run_1'' ''att_1'' step usage w = Inr ((?tokens, True), w')"
    by (auto simp: completeModelInvocation_iff)
  with live' show "\<exists>x w'. completeModelInvocation ''run_1'' ''att_1'' step usage w = Inr (x, w') \<and> snd x \<and> live RUNNING fresh w'"
    by auto
qed

lemma returns_call_model:
  assumes "run_token_budget run = None"
  shows "returns (live RUNNING fresh) (call_model (demo_loop_env ''report.md'') ls run messages)
     (\<lambda>x w. (\<exists>n. x = Answer (demo_completion demo_calls) run None True n) \<and> live RUNNING fresh w)"
  unfolding call_model_def limitModelInvocation_def Let_def assms option.case
  by (rule returns_bind_known [OF returns_provider [where x = "demo_completion demo_calls"]], simp add: demo_epoch_def,
      simp, rule returns_bindP [OF returns_completed_invocation])
    (auto intro!: returns_returnP split: prod.split)

lemma returns_invocation:
  assumes "starting ls"
  shows "returns (live RUNNING fresh) (invocation_step (demo_loop_env ''report.md'') ls) (\<lambda>x w. demo_answer ls x \<and> live RUNNING fresh w)"
proof -
  have started: "returns (\<lambda>w. (\<exists>run. x = Some run \<and> run_token_budget run = None \<and> run_progress run = JObj []) \<and> live RUNNING fresh w)
      (case x of None \<Rightarrow> returnP (Answer_lease_lost, ls) | Some run \<Rightarrow> f run) R"
    if "\<And>run. run_token_budget run = None \<Longrightarrow> run_progress run = JObj [] \<Longrightarrow> returns (live RUNNING fresh) (f run) R" for x f R
    using that by (cases x) (auto simp: returns_def)
  have read: "returns (live RUNNING fresh) (bindP (query f) k) R" if "\<And>x. returns (live RUNNING fresh) (k x) R"
    for f :: "world \<Rightarrow> 'z" and k R
    by (rule returns_bindP [OF returns_query [where Q = "\<lambda>_. live RUNNING fresh"]]) (simp_all add: that)
  have answer: "returns (live RUNNING fresh) (bindP (call_model (demo_loop_env ''report.md'') ls' run messages) (\<lambda>a. returnP (a, ls')))
      (\<lambda>x w. demo_answer ls x \<and> live RUNNING fresh w)"
    if "run_token_budget run = None" "run_progress run = JObj []" "starting ls'" for run messages ls'
    by (rule returns_bindP [OF returns_call_model [OF that(1)]], rule returns_returnP) (use that in \<open>auto simp: demo_answer_def\<close>)
  have "starting (ls\<lparr>ls_selection := sel\<rparr>)" for sel using assms by (simp add: starting_def)
  then show ?thesis
    unfolding invocation_step_def Let_def
    by (simp only: demo_loop_env_sel demo_epoch_sel, intro returns_bind_known [OF returns_aborted], simp, simp only: if_False,
        intro returns_bindP [OF returns_begin] started read answer)
qed

lemma returns_turn:
  assumes "starting ls"
  shows "returns (live RUNNING True) (epoch_turn (demo_loop_env ''report.md'') ls) (\<lambda>r _. r = Inl Ex_completed)"
proof -
  have acts: "returns (live RUNNING True) (answered (demo_loop_env ''report.md'') ls1 (demo_completion demo_calls) run None n)
      (\<lambda>r _. r = Inl Ex_completed)" if "starting ls1" "run_progress run = JObj []" for ls1 run n
  proof -
    let ?ls = "say (ls1\<lparr>ls_run := (ls_run ls1)\<lparr>run_tokens_used := n\<rparr>\<rparr>) (cp_message (demo_completion demo_calls))"
    have ls: "ls_supervisor ?ls = initialSupervisorState" "ls_step ?ls = 0" using that(1) by (simp_all add: starting_def say_def)
    have rest: "returns (\<lambda>w. (\<exists>ls'. r = Inr ls' \<and> ls_step ls' = 0) \<and> live RUNNING True w)
        (case r of Inl e \<Rightarrow> returnP (Inl e) | Inr ls3 \<Rightarrow> act (demo_loop_env ''report.md'') ls3 demo_calls) (\<lambda>r _. r = Inl Ex_completed)" for r
      using returns_act by (cases r) (auto simp: returns_def)
    have "returns (live RUNNING True) (bindP (supervise_turn (demo_loop_env ''report.md'') ?ls demo_calls run)
        (\<lambda>r. case r of Inl e \<Rightarrow> returnP (Inl e) | Inr ls3 \<Rightarrow> act (demo_loop_env ''report.md'') ls3 demo_calls)) (\<lambda>r _. r = Inl Ex_completed)"
      by (rule returns_bindP [OF returns_supervise [OF that(2) ls]]) (rule rest)
    then show ?thesis by (simp add: answered_def Let_def demo_completion_def demo_config_def or_else_def)
  qed
  have answer: "returns (\<lambda>w. demo_answer ls x \<and> live RUNNING True w)
      (case x of (answer, ls1) \<Rightarrow> case answer of
            Answer_lease_lost \<Rightarrow> returnP (Inl Ex_lease_lost)
          | Answer_budget_exhausted \<Rightarrow> leave_epoch (demo_epoch ''report.md'') demo_sandbox ls1 None Ex_budget_exhausted
          | Answer completion freshRun remaining stillOwned tokensUsed \<Rightarrow>
              if \<not> stillOwned then returnP (Inl Ex_lease_lost)
              else answered (demo_loop_env ''report.md'') ls1 completion freshRun remaining tokensUsed) (\<lambda>r _. r = Inl Ex_completed)" for x
  proof (cases "demo_answer ls x")
    case True
    with acts show ?thesis by (cases x) (auto simp: demo_answer_def)
  next
    case False
    then show ?thesis by (simp add: returns_def)
  qed
  have "tokenBudgetExceeded w ''run_1'' = False" if "live RUNNING True w" for w
    using that by (auto simp: live_def tokenBudgetExceeded_def)
  then have budget: "returns (live RUNNING True) (query (\<lambda>w. tokenBudgetExceeded w ''run_1'')) (\<lambda>x w. x = False \<and> live RUNNING True w)"
    by (intro returns_query) simp
  have step: "\<not> run_max_steps (ls_run ls) \<le> ls_step ls" using assms by (simp add: starting_def)
  show ?thesis
    unfolding epoch_turn_def Let_def
    by (simp only: demo_loop_env_sel demo_epoch_sel step if_False, rule returns_bind_known [OF returns_aborted], simp, simp only: if_False,
        rule returns_bind_known [OF budget], simp only: if_False, rule returns_bindP [OF returns_invocation [OF assms]], rule answer)
qed

section \<open>The epoch\<close>

definition demo_initial :: "(string \<times> json) list" where
  "demo_initial = envelope_of initial_state_input"

lemma demo_initial_ok: "createCheckpointEnvelope demo_reader initial_state_input = Inr demo_initial"
  unfolding demo_initial_def by code_simp

lemma demo_initial_members:
  "jfield demo_initial ''transcriptTosKey'' = None" "jfield demo_initial ''step'' = Some (JNum 0)"
  "jfield demo_initial ''supervisor'' = None" "jfield demo_initial ''pendingToolCall'' = None"
  by (simp_all add: demo_initial_def envelope_of_def initial_state_input_def jfield_def)

lemma returns_restore_state:
  "returns (live RUNNING True) (restore_state (demo_epoch path)) (\<lambda>x w. x = (demo_initial, None) \<and> live RUNNING True w)"
proof -
  have none: "returns (live RUNNING True) (query (\<lambda>w. latestCheckpoint rd w rid)) (\<lambda>x w. x = Inr None \<and> live RUNNING True w)" for rd rid
    by (rule returns_query) (simp add: live_def latestCheckpoint_def newest_checkpoint_def)
  have ckpt: "returns (live RUNNING True) (read_checkpoint (demo_epoch path) ''run_1'') (\<lambda>x w. x = None \<and> live RUNNING True w)"
    unfolding read_checkpoint_def
    by (rule returns_bind_known [OF none]) (auto simp: liftP_def intro: returns_returnP)
  have source: "lineage_source (demo_epoch path) = returnP None"
    by (simp add: lineage_source_def demo_epoch_def demo_unlimited_def demo_run_def)
  have state: "state_of None = None" "ee_reader (demo_epoch path) = demo_reader" by (simp_all add: state_of_def demo_epoch_def)
  show ?thesis
    unfolding restore_state_def demo_epoch_sel
    by (rule returns_bind_known [OF ckpt], simp add: source state demo_initial_ok liftP_def, rule returns_returnP, simp)
qed

lemma returns_allocate:
  "returns (live RUNNING True) (allocate_sandbox (demo_epoch path) demo_version) (\<lambda>x w. x = demo_sandbox \<and> live RUNNING True w)"
proof -
  have move: "returns (live RUNNING True) (withTransaction (thenT (setAttemptSandbox ''att_1'' i d)
      (appendEvent ''run_1'' type payload aid no_patch))) (\<lambda>_. live RUNNING True)" for i d type payload aid
  proof (rule returns_transaction)
    fix w assume live: "live RUNNING True w"
    let ?w = "snd (projr (setAttemptSandbox ''att_1'' i d w))"
    have set: "setAttemptSandbox ''att_1'' i d w = Inr ((), ?w)" by (simp add: setAttemptSandbox_def tx_eval)
    have "kernel_from w ?w" using hoareD [OF setAttemptSandbox_kernel_from _ set] kernel_from_refl live by (auto simp: live_def)
    then have "kernel_ok ?w" by (rule kernel_from_ok)
    then have "live RUNNING True ?w"
      using live by (auto simp: live_def setAttemptSandbox_def tx_eval find_run_def update_where_def)
    with set obtain w1 where first: "setAttemptSandbox ''att_1'' i d w = Inr ((), w1)" "live RUNNING True w1" by blast
    have "p_current_attempt_id no_patch = None" "p_progress no_patch = None" by (simp_all add: no_patch_def)
    from live_append [OF first(2) this] obtain seq w' where
      "appendEvent ''run_1'' type payload aid no_patch w1 = Inr (seq, w')" "live RUNNING True w'" by blast
    with first(1) show "\<exists>x w'. thenT (setAttemptSandbox ''att_1'' i d) (appendEvent ''run_1'' type payload aid no_patch) w = Inr (x, w')
        \<and> live RUNNING True w'"
      by (simp add: thenT_def bindT_def)
  qed
  show ?thesis
    unfolding allocate_sandbox_def Let_def
    by (rule returns_bind_known [OF returns_provider [where x = demo_sandbox]], simp add: demo_epoch_def, simp,
        rule returns_thenP [OF move], rule returns_returnP, simp)
qed

lemma returns_restore:
  "returns (live RUNNING True) (restore demo_store demo_sandbox (restore_input_of (demo_epoch path) None)) (\<lambda>_. live RUNNING True)"
proof -
  have input: "restore_input_of (demo_epoch path) None =
      \<lparr>wr_runId = ''run_1'', wr_attemptId = ''att_1'', wr_workspaceId = ''ws_1'', wr_seedFiles = [], wr_initCommand = None,
       wr_parentWorkspaceId = None\<rparr>"
    unfolding restore_input_of_def demo_epoch_sel
    by (simp add: demo_epoch_def demo_unlimited_def demo_run_def string_members_def jfield_def)
  have head: "returns (live RUNNING True) (query (\<lambda>w. headRevision w ''ws_1'')) (\<lambda>x w. x = None \<and> live RUNNING True w)"
    by (rule returns_query) (simp add: live_def headRevision_def)
  have no_head: "returns (live RUNNING True) (restore_head (restore_input_of (demo_epoch path) None)) (\<lambda>x w. x = None \<and> live RUNNING True w)"
    unfolding restore_head_def input by (simp, rule returns_bind_known [OF head], simp, rule returns_returnP, simp)
  have files: "restore_files demo_store demo_sandbox (restore_input_of (demo_epoch path) None) None = returnP ()"
    by (simp add: restore_files_def input)
  show ?thesis
    unfolding restore_def
    by (rule returns_bind_known [OF returns_exec], simp, rule returns_bind_known [OF no_head], simp add: files, simp add: input,
        rule returns_thenP [OF returns_append], rule returns_returnP, simp)
qed

lemma returns_epoch:
  "returns (live RUNNING True) (realEpoch (Suc n) (demo_epoch ''report.md'')) (\<lambda>x _. x = Some Ex_completed)"
proof -
  let ?ee = "demo_epoch ''report.md''"
  have start: "starting (initial_loop ?ee demo_initial [])"
    by (simp add: starting_def initial_loop_def demo_initial_members demo_epoch_def demo_unlimited_def demo_run_def)
  have pending: "pending_of demo_initial = None" by (simp add: pending_of_def demo_initial_members)
  have transcript: "restore_transcript ?ee demo_initial = returnP []" by (simp add: restore_transcript_def demo_initial_members)
  have others: "materializeSkills demo_sandbox (ee_resolveSkill ?ee) (av_skillRefs demo_version) = returnP []"
    "resolve_mcp ?ee demo_version = returnP []" "recall ?ee = returnP []" "ee_version ?ee = Some demo_version"
    "ee_toolDefs ?ee [] = JArr []"
    by (simp_all add: demo_epoch_def materializeSkills_def resolve_mcp_def recall_def)
  have loop: "returns (live RUNNING True) (epoch_loop (Suc n) (demo_loop_env ''report.md'') (initial_loop ?ee demo_initial []))
      (\<lambda>x _. x = Some Ex_completed)"
    unfolding epoch_loop.simps
    by (rule returns_bind_known [where Q = "\<lambda>_. True", OF returns_post [OF returns_turn [OF start]]], simp, simp, rule returns_returnP, simp)
  have body: "returns (live RUNNING True)
      (epoch_body (Suc n) ?ee demo_version demo_sandbox (initial_loop ?ee demo_initial []) None None) (\<lambda>x _. x = Some Ex_completed)"
    unfolding epoch_body_def Let_def
    using loop by (simp only: others bindP_returnP demo_epoch_sel list.map rev.simps option.case sum.case demo_loop_env_def)
      (rule returns_thenP [OF returns_restore], simp)
  show ?thesis
    unfolding realEpoch_def others option.case
    by (rule returns_bind_known [OF returns_restore_state], simp add: transcript pending, rule returns_bind_known [OF returns_allocate],
        rule returns_catchP [OF body])
qed

end
