(* ===== verification/Epoch_Claims.thy ===== *)
theory Epoch_Claims
  imports Epoch_Demo
begin

text \<open>
  The claims about execution epochs.
\<close>

section \<open>Reading a successful process backwards\<close>

lemma bindP_Inr: "bindP m f g = (Inr y, h) \<longleftrightarrow> (\<exists>x g'. m g = (Inr x, g') \<and> f x g' = (Inr y, h))"
  by (auto simp: bindP_def split: prod.split sum.split)

lemma thenP_Inr: "thenP m n g = (Inr y, h) \<longleftrightarrow> (\<exists>x g'. m g = (Inr x, g') \<and> n g' = (Inr y, h))"
  by (simp add: thenP_def bindP_Inr)

lemma returnP_Inr: "returnP x g = (Inr y, h) \<longleftrightarrow> y = x \<and> h = g"
  by (auto simp: returnP_def)

lemma throwP_Inr: "throwP e g \<noteq> (Inr y, h)"
  by (simp add: throwP_def)

lemma catchP_Inr:
  "catchP m k g = (Inr x, h) \<longleftrightarrow> m g = (Inr x, h) \<or> (\<exists>e g'. m g = (Inl e, g') \<and> k e g' = (Inr x, h))"
  by (auto simp: catchP_def split: prod.split sum.split)

lemma withTransaction_Inr:
  assumes "withTransaction m g = (Inr x, h)"
  shows "\<exists>w. m w = Inr (x, ps_world h) \<and> Db (ps_world h) \<in> set (ps_trace h)"
  using assms by (auto simp: withTransaction_def Let_def commit_Inr prod_eq_iff commit_def split: sum.splits)

lemma provider_call_Inr: "provider_call name f g = (Inr x, h) \<Longrightarrow> \<exists>n. f n = Inr x"
  by (auto simp: provider_call_def bindP_Inr external_def Let_def throwP_def returnP_def split: sum.splits)

lemmas proc_Inr = bindP_Inr thenP_Inr returnP_Inr throwP_Inr

lemma mapP_Inr:
  assumes "mapP f xs g = (Inr ys, h)" and "\<And>x y g h. x \<in> set xs \<Longrightarrow> f x g = (Inr y, h) \<Longrightarrow> R x y"
  shows "list_all2 R xs ys"
  using assms
proof (induction xs arbitrary: g ys)
  case (Cons x xs)
  from Cons.prems(1) obtain y g1 zs where "f x g = (Inr y, g1)" "mapP f xs g1 = (Inr zs, h)" "ys = y # zs"
    by (auto simp: proc_Inr)
  with Cons show ?case by auto
qed (simp add: returnP_Inr)

lemma list_all2_left: "list_all2 R xs ys \<Longrightarrow> x \<in> set xs \<Longrightarrow> \<exists>y \<in> set ys. R x y"
  by (induction rule: list_all2_induct) auto

lemma trace_grows: "chatless m \<Longrightarrow> m g = (r, h) \<Longrightarrow> set (ps_trace g) \<subseteq> set (ps_trace h)"
  unfolding chatless_def by (drule tspecD [of _ _ g]) auto

section \<open>What a completed run has published\<close>

text \<open>The check of the verifier on a path, at some moment.\<close>

definition present :: "sandbox \<Rightarrow> string \<Rightarrow> bool" where
  "present sx path \<longleftrightarrow>
     (\<exists>n res. sx_exec sx (''test -e '' @ [CHR 0x27] @ resolvePath path @ [CHR 0x27])
        \<lparr>eo_cwd = None, eo_timeoutSec = None\<rparr> n = Inr res \<and> ex_exitCode res = 0)"

definition command_passed :: "sandbox \<Rightarrow> string \<Rightarrow> bool" where
  "command_passed sx command \<longleftrightarrow>
     (\<exists>n res. sx_exec sx command \<lparr>eo_cwd = Some WORKSPACE_DIR, eo_timeoutSec = Some (Some 600)\<rparr> n = Inr res
        \<and> ex_exitCode res = 0)"

definition accepted :: "sandbox \<Rightarrow> string \<Rightarrow> verifier_policy \<Rightarrow> string list \<Rightarrow> trace_event list \<Rightarrow> bool" where
  "accepted sx rid policy claimed es \<longleftrightarrow>
     (\<forall>p \<in> set (vp_requiredArtifacts policy @ claimed). present sx p)
     \<and> (\<forall>c. vp_command policy = Some c \<and> c \<noteq> [] \<longrightarrow> command_passed sx c)
     \<and> (vp_requireReceiptsSettled policy \<longrightarrow> (\<exists>w. Db w \<in> set es \<and> unresolved_receipts w rid = 0))"

text \<open>The file of a path, as it was read from the sandbox and stored, with its row.\<close>

definition published :: "'w epoch_env \<Rightarrow> sandbox \<Rightarrow> world \<Rightarrow> string \<Rightarrow> bool" where
  "published ee sx w p \<longleftrightarrow>
     (\<exists>path bytes a n m. normalizeArtifactPath p = Inr path
        \<and> sx_readFile sx (WORKSPACE_DIR @ ''/'' @ path) n = Inr bytes
        \<and> a \<in> set (w_artifacts w) \<and> art_producer_run_id a = ee_rid ee \<and> art_source_path a = path
        \<and> art_digest a = ''sha256:'' @ tc_sha256 (ee_tools ee) bytes \<and> art_size_bytes a = int (length bytes)
        \<and> os_put (ee_store ee) (art_object_key a) bytes m = Inr ())"

text \<open>
  What the arguments of a call to \<^verbatim>\<open>run_complete\<close> claim: the paths, the summary, and the result that the
  run is to have.
\<close>

definition claimed_artifacts :: "(rat \<Rightarrow> string) \<Rightarrow> tool_call \<Rightarrow> string list" where
  "claimed_artifacts fmt call =
     (case jfield (tc_arguments call) ''artifacts'' of Some (JArr vs) \<Rightarrow> map (js_string fmt) vs | _ \<Rightarrow> [])"

definition claimed_summary :: "(rat \<Rightarrow> string) \<Rightarrow> tool_call \<Rightarrow> string" where
  "claimed_summary fmt call = string_arg fmt (tc_arguments call) ''summary'' ''''"

definition claimed_result :: "(rat \<Rightarrow> string) \<Rightarrow> tool_call \<Rightarrow> json" where
  "claimed_result fmt call =
     JObj [(''schemaVersion'', jint 1), (''summary'', JStr (claimed_summary fmt call)),
       (''data'', case jfield (tc_arguments call) ''result'' of Some (JObj kvs) \<Rightarrow> JObj kvs | _ \<Rightarrow> JObj [])]"

definition within_bounds :: "(rat \<Rightarrow> string) \<Rightarrow> tool_call \<Rightarrow> bool" where
  "within_bounds fmt call \<longleftrightarrow>
     length (claimed_artifacts fmt call) \<le> 32 \<and> length (stringify fmt (claimed_result fmt call)) \<le> 65536"

text \<open>The model asked for the call; the provider of sandboxes handed out the sandbox for the run.\<close>

definition answered_with :: "'w epoch_env \<Rightarrow> tool_call \<Rightarrow> bool" where
  "answered_with ee call \<longleftrightarrow>
     (\<exists>q n c. ee_chat ee q n = Inr c \<and> call \<in> set (or_else (cm_toolCalls (cp_message c)) []))"

definition allocated :: "'w epoch_env \<Rightarrow> agent_version \<Rightarrow> sandbox \<Rightarrow> bool" where
  "allocated ee v sx \<longleftrightarrow>
     (\<exists>n. ee_create ee (ee_rid ee) ((av_sandboxSpec v)
        \<lparr>ss_timeoutMinutes := Some (or_else (ss_timeoutMinutes (av_sandboxSpec v)) (ec_sandboxTimeoutMinutes (ee_cfg ee)))\<rparr>) n
      = Inr sx)"

lemma set_unique [simp]: "set (unique xs) = set xs"
  by (simp add: unique_def)

lemma collect_Inr: "collect f xs = Inr ys \<Longrightarrow> x \<in> set xs \<Longrightarrow> \<exists>y \<in> set ys. f x = Inr y"
  by (induction xs arbitrary: ys) (auto split: sum.splits)

lemma verify_path_Inr: "verify_path sx p g = (Inr [], h) \<Longrightarrow> present sx p"
  by (auto simp: verify_path_def exec_in_def proc_Inr present_def dest!: provider_call_Inr split: if_splits)

lemma verify_command_Inr: "verify_command sx (Some c) g = (Inr [], h) \<Longrightarrow> c \<noteq> [] \<Longrightarrow> command_passed sx c"
  by (auto simp: verify_command_def exec_in_def proc_Inr command_passed_def dest!: provider_call_Inr split: if_splits)

lemma verify_receipts_Inr:
  "verify_receipts True rid g = (Inr [], h) \<Longrightarrow> \<exists>w. Db w \<in> set (ps_trace h) \<and> unresolved_receipts w rid = 0"
  by (auto simp: verify_receipts_def query_def proc_Inr tx_simps dest!: withTransaction_Inr split: if_splits)

lemma verify_accepts:
  assumes "verify sx rid policy claimed g = (Inr [], h)"
  shows "accepted sx rid policy claimed (ps_trace h)"
proof -
  from assms obtain missing g1 failed g2 unresolved where
    paths: "mapP (verify_path sx) (unique (vp_requiredArtifacts policy @ claimed)) g = (Inr missing, g1)"
    and command: "verify_command sx (vp_command policy) g1 = (Inr failed, g2)"
    and receipts: "verify_receipts (vp_requireReceiptsSettled policy) rid g2 = (Inr unresolved, h)"
    and none: "concat missing = []" "failed = []" "unresolved = []"
    by (auto simp: verify_def proc_Inr)
  have "list_all2 (\<lambda>p m. m = [] \<longrightarrow> present sx p) (unique (vp_requiredArtifacts policy @ claimed)) missing"
    by (rule mapP_Inr [OF paths]) (auto dest: verify_path_Inr)
  with none(1) have "\<forall>p \<in> set (unique (vp_requiredArtifacts policy @ claimed)). present sx p"
    by (auto dest: list_all2_left)
  with command receipts none show ?thesis
    using verify_command_Inr verify_receipts_Inr by (auto simp: accepted_def)
qed

text \<open>One path of the outputs.\<close>

definition staged :: "stage_context \<Rightarrow> string \<Rightarrow> artifact_input \<Rightarrow> bool" where
  "staged sg path a \<longleftrightarrow>
     (\<exists>bytes n m. sx_readFile (sg_sandbox sg) (WORKSPACE_DIR @ ''/'' @ path) n = Inr bytes
        \<and> a = staged_artifact sg path bytes \<and> os_put (sg_objectStore sg) (ai_objectKey a) bytes m = Inr ())"

lemma stage_Inr:
  assumes "stageArtifactOutputs sg paths g = (Inr arts, h)" and "p \<in> set paths"
  shows "\<exists>path a. normalizeArtifactPath p = Inr path \<and> a \<in> set arts \<and> staged sg path a"
proof -
  from assms(1) obtain sources where sources: "collect normalizeArtifactPath paths = Inr sources"
    and mapped: "mapP (stage_one sg) (unique sources) g = (Inr arts, h)"
    by (auto simp: stageArtifactOutputs_def throwP_Inr split: sum.splits)
  from collect_Inr [OF sources assms(2)] obtain path where path: "path \<in> set sources" "normalizeArtifactPath p = Inr path"
    by blast
  have "list_all2 (staged sg) (unique sources) arts"
    by (rule mapP_Inr [OF mapped]) (auto simp: stage_one_def Let_def proc_Inr staged_def dest!: provider_call_Inr)
  from list_all2_left [OF this, of path] path show ?thesis by auto
qed

definition row_of :: "artifact_input \<Rightarrow> artifact_row \<Rightarrow> bool" where
  "row_of i a \<longleftrightarrow>
     art_producer_run_id a = ai_producerRunId i \<and> art_source_path a = ai_sourcePath i \<and> art_digest a = ai_digest i
     \<and> art_size_bytes a = ai_sizeBytes i \<and> art_object_key a = ai_objectKey i"

lemma createArtifact_Inr:
  "createArtifact i w = Inr (a, w') \<Longrightarrow> row_of i a \<and> w_artifacts w' = w_artifacts w @ [a]"
  by (auto simp: createArtifact_def tx_simps Let_def newId_def row_of_def split: option.splits)

lemma createArtifacts_Inr:
  "mapT createArtifact is w = Inr (rows, w') \<Longrightarrow>
   set (w_artifacts w) \<subseteq> set (w_artifacts w') \<and> (\<forall>i \<in> set is. \<exists>a \<in> set (w_artifacts w'). row_of i a)"
proof (induction "is" arbitrary: w rows)
  case (Cons i "is")
  from Cons.prems obtain a w1 rest where "createArtifact i w = Inr (a, w1)" "mapT createArtifact is w1 = Inr (rest, w')"
    by (auto simp: tx_simps)
  with Cons.IH createArtifact_Inr show ?case by fastforce
qed (simp add: tx_simps)

lemma complete_run_Inr:
  assumes "complete_run le summary arts result sizeBytes w = Inr (u, w')"
  shows "\<exists>run. find_run w' (le_rid le) = Some run \<and> run_status run = COMPLETED \<and> run_result run = Some result
     \<and> run_result_size_bytes run = Some (int sizeBytes) \<and> (\<forall>i \<in> set arts. \<exists>a \<in> set (w_artifacts w'). row_of i a)"
    and "\<exists>e \<in> set (w_events w'). ev_run_id e = le_rid le \<and> ev_type e = RunCompleted \<and> ev_attempt_id e = Some (le_aid le)
     \<and> jfield (ev_payload e) ''summary'' = Some (JStr summary)"
proof -
  from assms obtain rows w1 run' where rows: "mapT createArtifact arts w = Inr (rows, w1)"
    and moved: "transitionRun (le_rid le) (to_completed (le_aid le) summary arts result sizeBytes) w1 = Inr (run', w')"
    by (auto simp: complete_run_def tx_simps)
  from moved obtain run where run: "find_run w1 (le_rid le) = Some run"
    and w': "w' = transition_world run (to_completed (le_aid le) summary arts result sizeBytes) w1"
    by (auto simp: transitionRun_iff)
  show "\<exists>run. find_run w' (le_rid le) = Some run \<and> run_status run = COMPLETED \<and> run_result run = Some result
     \<and> run_result_size_bytes run = Some (int sizeBytes) \<and> (\<forall>i \<in> set arts. \<exists>a \<in> set (w_artifacts w'). row_of i a)"
    using createArtifacts_Inr [OF rows] run find_run_id [OF run]
    by (simp add: w' find_run_transition_world transition_row_def to_completed_def Let_def)
  show "\<exists>e \<in> set (w_events w'). ev_run_id e = le_rid le \<and> ev_type e = RunCompleted \<and> ev_attempt_id e = Some (le_aid le)
     \<and> jfield (ev_payload e) ''summary'' = Some (JStr summary)"
    using find_run_id [OF run] by (simp add: w' transition_payload_def to_completed_def jspread_def jfield_def)
qed

text \<open>What a database says of a run that has completed as a call claimed.\<close>

definition completed_as :: "'w epoch_env \<Rightarrow> tool_call \<Rightarrow> world \<Rightarrow> bool" where
  "completed_as ee call w \<longleftrightarrow>
     (\<exists>run. find_run w (ee_rid ee) = Some run \<and> run_status run = COMPLETED
        \<and> run_result run = Some (claimed_result (ee_fmt ee) call)
        \<and> run_result_size_bytes run = Some (int (length (stringify (ee_fmt ee) (claimed_result (ee_fmt ee) call)))))
     \<and> (\<exists>e \<in> set (w_events w). ev_run_id e = ee_rid ee \<and> ev_type e = RunCompleted \<and> ev_attempt_id e = Some (ee_aid ee)
        \<and> jfield (ev_payload e) ''summary'' = Some (JStr (claimed_summary (ee_fmt ee) call)))"

definition all_published :: "'w epoch_env \<Rightarrow> sandbox \<Rightarrow> tool_call \<Rightarrow> world \<Rightarrow> bool" where
  "all_published ee sx call w \<longleftrightarrow> (\<forall>p \<in> set (claimed_artifacts (ee_fmt ee) call). published ee sx w p)"

text \<open>The call finishes the run.\<close>

definition finishes :: "'w loop_env \<Rightarrow> loop_state \<Rightarrow> tool_call \<Rightarrow> proc_state \<Rightarrow> proc_state \<Rightarrow> bool" where
  "finishes le ls call g h \<longleftrightarrow>
     finishRun le ls (claimed_summary (le_fmt le) call) (claimed_artifacts (le_fmt le) call) (claimed_result (le_fmt le) call)
       (length (stringify (le_fmt le) (claimed_result (le_fmt le) call))) g = (Inr None, h)"

lemma finishRun_completes:
  assumes "finishes le ls call g h"
  shows "completed_as (le_epoch le) call (ps_world h) \<and> all_published (le_epoch le) (le_sandbox le) call (ps_world h)
     \<and> accepted (le_sandbox le) (le_rid le) (av_verifierPolicy (le_version le)) (claimed_artifacts (le_fmt le) call) (ps_trace h)
     \<and> Db (ps_world h) \<in> set (ps_trace h)"
proof -
  let ?ee = "le_epoch le"
  define artifacts summary result sizeBytes
    where "artifacts = claimed_artifacts (le_fmt le) call" and "summary = claimed_summary (le_fmt le) call"
      and "result = claimed_result (le_fmt le) call" and "sizeBytes = length (stringify (le_fmt le) result)"
  note claimed = this
  from assms have "finishRun le ls summary artifacts result sizeBytes g = (Inr None, h)" by (simp add: finishes_def claimed)
  then obtain g1 g2 g3 g4 g5 seq arts rev u where
    checked: "verify (le_sandbox le) (le_rid le) (av_verifierPolicy (le_version le)) artifacts g1 = (Inr [], g2)"
    and passed: "withTransaction (appendEvent (le_rid le) VerificationPassed [(''artifacts'', JArr (map JStr artifacts))]
        (Some (le_aid le)) no_patch) g2 = (Inr seq, g3)"
    and stage: "stageArtifactOutputs (stage_context_of le ls seq) artifacts g3 = (Inr arts, g4)"
    and snapshot: "workspace_checkpoint (ee_number ?ee) (ee_store ?ee) (le_sandbox le) (le_rid le) (le_aid le)
        (workspace_of ?ee) g4 = (Inr rev, g5)"
    and finish: "withTransaction (complete_run le summary arts result sizeBytes) g5 = (Inr u, h)"
    by (auto simp: finishRun_def Let_def proc_Inr split: if_splits)
  have grown: "set (ps_trace g2) \<subseteq> set (ps_trace h)"
    using trace_grows [OF chatless_withTransaction passed] trace_grows [OF chatless_stage stage]
      trace_grows [OF chatless_workspace_checkpoint snapshot] trace_grows [OF chatless_withTransaction finish] by blast
  have verified: "accepted (le_sandbox le) (le_rid le) (av_verifierPolicy (le_version le)) artifacts (ps_trace h)"
    using verify_accepts [OF checked] grown by (auto simp: accepted_def)
  from withTransaction_Inr [OF finish] obtain w where db: "Db (ps_world h) \<in> set (ps_trace h)"
    and committed: "complete_run le summary arts result sizeBytes w = Inr (u, ps_world h)" by blast
  from complete_run_Inr(1) [OF committed] obtain run where
    run: "find_run (ps_world h) (le_rid le) = Some run" "run_status run = COMPLETED" "run_result run = Some result"
      "run_result_size_bytes run = Some (int sizeBytes)"
    and rows: "\<forall>i \<in> set arts. \<exists>a \<in> set (w_artifacts (ps_world h)). row_of i a" by blast
  have "published ?ee (le_sandbox le) (ps_world h) p" if p: "p \<in> set artifacts" for p
  proof -
    from stage_Inr [OF stage p] obtain path i where path: "normalizeArtifactPath p = Inr path" and i: "i \<in> set arts"
      and "staged (stage_context_of le ls seq) path i" by blast
    then obtain bytes n m where read: "sx_readFile (le_sandbox le) (WORKSPACE_DIR @ ''/'' @ path) n = Inr bytes"
      "i = staged_artifact (stage_context_of le ls seq) path bytes" "os_put (ee_store ?ee) (ai_objectKey i) bytes m = Inr ()"
      by (auto simp: staged_def stage_context_of_def)
    from rows i obtain a where a: "a \<in> set (w_artifacts (ps_world h))" "row_of i a" by blast
    from a(2) read(3) have "os_put (ee_store ?ee) (art_object_key a) bytes m = Inr ()" by (simp add: row_of_def)
    with path read(1,2) a show ?thesis
      unfolding published_def
      by (intro exI [of _ path] exI [of _ bytes] exI [of _ a] exI [of _ n] exI [of _ m])
        (simp add: row_of_def staged_artifact_def stage_context_of_def Let_def)
  qed
  then have "all_published ?ee (le_sandbox le) call (ps_world h)" by (simp add: all_published_def claimed(1))
  moreover have "completed_as ?ee call (ps_world h)"
    using run complete_run_Inr(2) [OF committed] by (simp add: completed_as_def claimed)
  ultimately show ?thesis using verified db by (simp add: claimed(1))
qed

section \<open>An epoch that returns as completed\<close>

definition finished :: "'w loop_env \<Rightarrow> proc_state \<Rightarrow> bool" where
  "finished le h \<longleftrightarrow>
     (\<exists>ls call g1 h1. answered_with (le_epoch le) call \<and> tc_name call = ''run_complete'' \<and> within_bounds (le_fmt le) call
        \<and> finishes le ls call g1 h1 \<and> set (ps_trace h1) \<subseteq> set (ps_trace h))"

lemma leave_Inr: "leave_epoch ee sx ls pending reason g = (Inr r, h) \<Longrightarrow> r = Inl reason"
  by (auto simp: leave_epoch_def proc_Inr)

text \<open>Only one tool completes a run, and it completes it with what the call claims.\<close>

lemma no_completion:
  "bash_exec tc args g \<noteq> (Inr (Complete s a r n), h)"
  "file_write tc args g \<noteq> (Inr (Complete s a r n), h)"
  "file_read tc args g \<noteq> (Inr (Complete s a r n), h)"
  "progress_update tc args g \<noteq> (Inr (Complete s a r n), h)"
  "remember tc args g \<noteq> (Inr (Complete s a r n), h)"
  "knowledge_search tc args g \<noteq> (Inr (Complete s a r n), h)"
  "delegate tc args g \<noteq> (Inr (Complete s a r n), h)"
  "waitForSignal tc name g \<noteq> (Inr (Complete s a r n), h)"
  "externalHttpRequest tc args g \<noteq> (Inr (Complete s a r n), h)"
  "dispatchMcp tc mcp entry args g \<noteq> (Inr (Complete s a r n), h)"
  by (auto simp: bash_exec_def file_write_def file_read_def progress_update_def remember_def knowledge_search_def delegate_def
      waitForSignal_def externalHttpRequest_def dispatchMcp_def http_outcome_def mcp_outcome_def Let_def proc_Inr
      split: option.splits if_splits action_result.splits)

lemma dispatch_completes:
  assumes "dispatchTool tc name args g = (Inr (Complete s a r n), h)"
  shows "name = ''run_complete'' \<and> run_complete tc args g = (Inr (Complete s a r n), h)"
  using assms by (auto simp: dispatchTool_def no_completion proc_Inr split: if_split_asm option.splits)

lemma run_complete_Inr:
  assumes "run_complete tc (tc_arguments call) g = (Inr (Complete s a r n), h)"
  shows "a = claimed_artifacts (tc_fmt tc) call \<and> s = claimed_summary (tc_fmt tc) call \<and> r = claimed_result (tc_fmt tc) call
     \<and> n = length (stringify (tc_fmt tc) r) \<and> within_bounds (tc_fmt tc) call"
  using assms
  by (auto simp: run_complete_def buildBoundedRunResult_def claimed_artifacts_def claimed_summary_def claimed_result_def
      within_bounds_def MAX_DELEGATED_ARTIFACT_REFS_def MAX_DELEGATED_RESULT_BYTES_def Let_def proc_Inr
      split: if_split_asm option.splits json.splits)

lemma dispatch_call_completes:
  assumes "dispatch_call le ls call g = (Inr (Complete s a r n), h)" and "tc_fmt (le_tools le) = le_fmt le"
  shows "tc_name call = ''run_complete'' \<and> within_bounds (le_fmt le) call \<and> a = claimed_artifacts (le_fmt le) call
     \<and> s = claimed_summary (le_fmt le) call \<and> r = claimed_result (le_fmt le) call \<and> n = length (stringify (le_fmt le) r)"
proof -
  from assms(1) obtain aborted g1 where
    "dispatchTool ((le_tools le)\<lparr>tc_run := ls_run ls, tc_step := ls_step ls, tc_aborted := aborted\<rparr>)
       (tc_name call) (tc_arguments call) g1 = (Inr (Complete s a r n), h)"
    by (auto simp: dispatch_call_def proc_Inr)
  note completes = dispatch_completes [OF this]
  from completes run_complete_Inr [OF completes [THEN conjunct2]] assms(2) show ?thesis by simp
qed

lemma settle_completion_finished:
  assumes "settle_completion le ls call outcome g = (Inr (Inl Ex_completed), h)"
  shows "outcome = None \<and> set (ps_trace g) \<subseteq> set (ps_trace h)"
  using assms
  by (auto simp: settle_completion_def Let_def proc_Inr split: option.splits if_splits dest: trace_grows [OF chatless_stages(3)])

lemma settle_outcome_finished:
  assumes "settle_outcome le ls call outcome g = (Inr (Inl Ex_completed), h)"
  shows "\<exists>s a r n h1. outcome = Complete s a r n \<and> finishRun le ls s a r n g = (Inr None, h1)
     \<and> set (ps_trace h1) \<subseteq> set (ps_trace h)"
  using assms
  by (auto simp: settle_outcome_def Let_def proc_Inr split: tool_outcome.splits
      dest!: leave_Inr dest: settle_completion_finished)

text \<open>What the loop reads and does not change, in an epoch.\<close>

definition in_epoch :: "'w loop_env \<Rightarrow> bool" where
  "in_epoch le \<longleftrightarrow> tc_fmt (le_tools le) = le_fmt le"

lemma call_finished:
  assumes "dispatch_call le ls call g = (Inr outcome, g1)" and "settle_outcome le ls call outcome g1 = (Inr (Inl Ex_completed), h)"
    and "in_epoch le" and "answered_with (le_epoch le) call"
  shows "finished le h"
  using settle_outcome_finished [OF assms(2)] dispatch_call_completes assms(1,3,4)
  unfolding finished_def finishes_def in_epoch_def by blast

lemma run_calls_finished:
  "run_calls le ls calls g = (Inr (Inl Ex_completed), h) \<Longrightarrow> in_epoch le \<Longrightarrow>
   (\<And>call. call \<in> set calls \<Longrightarrow> answered_with (le_epoch le) call) \<Longrightarrow> finished le h"
proof (induction calls arbitrary: ls g)
  case (Cons call calls)
  from Cons.prems(1) obtain g1 outcome g2 r g3 where
    dispatched: "dispatch_call le ls call g1 = (Inr outcome, g2)" "settle_outcome le ls call outcome g2 = (Inr r, g3)"
    and rest: "(case r of Inl e \<Rightarrow> returnP (Inl e) | Inr ls' \<Rightarrow> run_calls le ls' calls) g3 = (Inr (Inl Ex_completed), h)"
    by (auto simp: bindP_Inr returnP_Inr split: if_split_asm)
  show ?case
  proof (cases r)
    case (Inl e)
    with rest dispatched have "settle_outcome le ls call outcome g2 = (Inr (Inl Ex_completed), h)" by (simp add: returnP_Inr)
    from call_finished [OF dispatched(1) this] Cons.prems(2,3) show ?thesis by simp
  next
    case (Inr ls')
    with rest Cons.IH [of ls' g3] Cons.prems(2,3) show ?thesis by simp
  qed
qed (simp add: proc_Inr)

lemma supervise_turn_continues: "supervise_turn le ls calls run g \<noteq> (Inr (Inl Ex_completed), h)"
  by (auto simp: supervise_turn_def Let_def proc_Inr split: directive.splits dest!: leave_Inr)

lemma act_finished:
  assumes "act le ls calls g = (Inr (Inl Ex_completed), h)" and "in_epoch le"
    and "\<And>call. call \<in> set calls \<Longrightarrow> answered_with (le_epoch le) call"
  shows "finished le h"
  using assms(1)
  by (auto simp: act_def Let_def end_step_def proc_Inr split_sum_ex split: if_splits dest: run_calls_finished [OF _ assms(2,3)])

lemma answered_finished:
  assumes "answered le ls c run remaining n g = (Inr (Inl Ex_completed), h)" and "in_epoch le"
    and "ee_chat (le_epoch le) q m = Inr c"
  shows "finished le h"
proof -
  have "answered_with (le_epoch le) call" if "call \<in> set (or_else (cm_toolCalls (cp_message c)) [])" for call
    using that assms(3) unfolding answered_with_def by blast
  from act_finished [OF _ assms(2) this] show ?thesis
    using assms(1)
    by (auto simp: answered_def Let_def proc_Inr split_sum_ex supervise_turn_continues split: if_split_asm dest!: leave_Inr)
qed

lemma invocation_answer:
  assumes "invocation_step le ls g = (Inr (Answer c run remaining owned n, ls'), h)"
  shows "\<exists>q m. ee_chat (le_epoch le) q m = Inr c"
  using assms
  by (auto simp: invocation_step_def call_model_def Let_def proc_Inr split: if_split_asm option.splits dest!: provider_call_Inr) blast

lemma epoch_turn_finished:
  assumes "epoch_turn le ls g = (Inr (Inl Ex_completed), h)" and "in_epoch le"
  shows "finished le h"
proof -
  from assms(1) obtain a ls1 g0 g1 where asked: "invocation_step le ls g0 = (Inr (a, ls1), g1)" and answer: "(case a of
          Answer_lease_lost \<Rightarrow> returnP (Inl Ex_lease_lost)
        | Answer_budget_exhausted \<Rightarrow> leave_epoch (le_epoch le) (le_sandbox le) ls1 None Ex_budget_exhausted
        | Answer completion freshRun remaining stillOwned tokensUsed \<Rightarrow>
            if \<not> stillOwned then returnP (Inl Ex_lease_lost)
            else answered le ls1 completion freshRun remaining tokensUsed) g1 = (Inr (Inl Ex_completed), h)"
    by (auto simp: epoch_turn_def Let_def bindP_Inr returnP_Inr split: if_split_asm dest!: leave_Inr)
  show ?thesis
  proof (cases a)
    case (Answer c run remaining owned n)
    with invocation_answer asked obtain q m where "ee_chat (le_epoch le) q m = Inr c" by blast
    from answered_finished [OF _ assms(2) this] answer Answer show ?thesis by (auto simp: returnP_Inr split: if_split_asm)
  qed (use answer in \<open>auto simp: returnP_Inr dest!: leave_Inr\<close>)
qed

lemma epoch_loop_finished: "epoch_loop fuel le ls g = (Inr (Some Ex_completed), h) \<Longrightarrow> in_epoch le \<Longrightarrow> finished le h"
  by (induction fuel arbitrary: ls g) (auto simp: proc_Inr split_sum_ex dest: epoch_turn_finished)

lemma resume_continues: "resume le ls call g \<noteq> (Inr (Inl Ex_completed), h)"
  by (auto simp: resume_def Let_def proc_Inr split: tool_outcome.splits dest!: leave_Inr)

lemma allocate_Inr: "allocate_sandbox ee v g = (Inr sx, h) \<Longrightarrow> allocated ee v sx"
  by (auto simp: allocate_sandbox_def allocated_def Let_def proc_Inr dest!: provider_call_Inr)

lemma epoch_body_finished:
  assumes "epoch_body fuel ee v sx ls seed pending g = (Inr (Some Ex_completed), h)"
  shows "\<exists>le. le_epoch le = ee \<and> le_version le = v \<and> le_sandbox le = sx \<and> finished le h"
proof -
  from assms obtain skills route memories r g1 g2 where
    resumed: "(case pending of None \<Rightarrow> returnP (Inr ls) | Some call \<Rightarrow>
       resume \<lparr>le_epoch = ee, le_version = v, le_sandbox = sx, le_tools = tools_of ee sx route,
         le_toolDefs = ee_toolDefs ee (map fst (rev route)), le_skills = skills, le_memories = memories\<rparr> ls call) g1 = (Inr r, g2)"
    and looped: "(case r of Inl e \<Rightarrow> returnP (Some e) | Inr ls' \<Rightarrow> epoch_loop fuel
       \<lparr>le_epoch = ee, le_version = v, le_sandbox = sx, le_tools = tools_of ee sx route,
         le_toolDefs = ee_toolDefs ee (map fst (rev route)), le_skills = skills, le_memories = memories\<rparr> ls') g2
       = (Inr (Some Ex_completed), h)"
    unfolding epoch_body_def Let_def bindP_Inr thenP_Inr by blast
  define le where "le = \<lparr>le_epoch = ee, le_version = v, le_sandbox = sx, le_tools = tools_of ee sx route,
    le_toolDefs = ee_toolDefs ee (map fst (rev route)), le_skills = skills, le_memories = memories\<rparr>"
  have le: "le_epoch le = ee" "le_version le = v" "le_sandbox le = sx" "in_epoch le"
    by (simp_all add: le_def in_epoch_def tools_of_def)
  show ?thesis
  proof (cases r)
    case (Inl e)
    with looped resumed show ?thesis by (auto simp: returnP_Inr resume_continues split: option.splits)
  next
    case (Inr ls')
    with looped have "epoch_loop fuel le ls' g2 = (Inr (Some Ex_completed), h)" by (simp add: le_def)
    from epoch_loop_finished [OF this le(4)] le(1-3) show ?thesis by blast
  qed
qed

lemma realEpoch_finished:
  assumes "realEpoch fuel ee g = (Inr (Some Ex_completed), h)"
  shows "\<exists>le. le_epoch le = ee \<and> ee_version ee = Some (le_version le) \<and> allocated ee (le_version le) (le_sandbox le) \<and> finished le h"
proof -
  from assms obtain v sx ls seed pending g0 g1 g2 where v: "ee_version ee = Some v"
    and sx: "allocate_sandbox ee v g0 = (Inr sx, g1)"
    and body: "epoch_body fuel ee v sx ls seed pending g2 = (Inr (Some Ex_completed), h)"
    by (auto simp: realEpoch_def proc_Inr catchP_Inr split: option.split_asm)
  from epoch_body_finished [OF body] v allocate_Inr [OF sx] show ?thesis by blast
qed

text \<open>
  C23: a run completes only when it has been verified and what it claims has been published. If
  an epoch returns as completed, then the model had asked for a call of \<^verbatim>\<open>run_complete\<close> with at most 32 artifacts and
  a result of at most 65536 bytes, and at some moment of the epoch the run was committed as COMPLETED with the
  summary and the result of this call, by an event of this attempt; for every path that the call names there was then an
  artifact of the run whose
  digest and size are those of the bytes that were read from the sandbox of this epoch and stored under the
  object key of the row; every path that the policy of the agent version requires and every
  named one had been found in this sandbox, the command of the policy had succeeded in it, and, if the policy asks
  for it, no receipt of the run was open.
\<close>

theorem completed_epoch_is_published:
  assumes "realEpoch fuel ee g = (Inr (Some Ex_completed), h)"
  shows "\<exists>v sx call w. ee_version ee = Some v \<and> allocated ee v sx
     \<and> answered_with ee call \<and> tc_name call = ''run_complete'' \<and> within_bounds (ee_fmt ee) call
     \<and> Db w \<in> set (ps_trace h) \<and> completed_as ee call w \<and> all_published ee sx call w
     \<and> accepted sx (ee_rid ee) (av_verifierPolicy v) (claimed_artifacts (ee_fmt ee) call) (ps_trace h)"
proof -
  from realEpoch_finished [OF assms] obtain le ls call g1 h1 where
    le: "le_epoch le = ee" "ee_version ee = Some (le_version le)" "allocated ee (le_version le) (le_sandbox le)"
    and call: "answered_with ee call" "tc_name call = ''run_complete''" "within_bounds (ee_fmt ee) call"
    and finish: "finishes le ls call g1 h1" and grown: "set (ps_trace h1) \<subseteq> set (ps_trace h)"
    by (auto simp: finished_def)
  have "accepted (le_sandbox le) (ee_rid ee) (av_verifierPolicy (le_version le)) (claimed_artifacts (ee_fmt ee) call) (ps_trace h)"
    using finishRun_completes [OF finish] grown le(1) by (auto simp: accepted_def)
  with finishRun_completes [OF finish] grown le call show ?thesis by blast
qed

definition demo_start :: proc_state where
  "demo_start = \<lparr>ps_world = demo_ready, ps_env = (\<lambda>_ w. w), ps_tick = 0, ps_trace = []\<rparr>"

theorem completed_epoch_is_published_witness:
  "\<exists>h w. realEpoch 1 (demo_epoch ''report.md'') demo_start = (Inr (Some Ex_completed), h)
     \<and> Db w \<in> set (ps_trace h) \<and> completed_as (demo_epoch ''report.md'') (complete_call ''report.md'') w
     \<and> claimed_artifacts (\<lambda>_. []) (complete_call ''report.md'') = [''report.md'']
     \<and> published (demo_epoch ''report.md'') demo_sandbox w ''report.md''"
proof -
  let ?ee = "demo_epoch ''report.md''"
  have "calm demo_start" "live RUNNING True (ps_world demo_start)" using demo_ready_live by (simp_all add: calm_def demo_start_def)
  with returnsD [OF returns_epoch [of 0]] obtain h where h: "realEpoch 1 ?ee demo_start = (Inr (Some Ex_completed), h)"
    by auto
  from completed_epoch_is_published [OF this] obtain v sx call w where
    sx: "allocated ?ee v sx" and call: "answered_with ?ee call" and w: "Db w \<in> set (ps_trace h)" "completed_as ?ee call w"
      "all_published ?ee sx call w" by blast
  have sx: "sx = demo_sandbox" using sx by (simp add: allocated_def demo_epoch_def)
  have call: "call = complete_call ''report.md''"
    using call by (auto simp: answered_with_def demo_epoch_def demo_completion_def or_else_def)
  have fmt: "ee_fmt ?ee = (\<lambda>_. [])" by (simp add: demo_epoch_def demo_tool_def)
  have paths: "claimed_artifacts (\<lambda>_. []) (complete_call ''report.md'') = [''report.md'']"
    by (simp add: claimed_artifacts_def complete_call_def jfield_def)
  with w(3) have "published ?ee demo_sandbox w ''report.md''" by (simp add: all_published_def sx call fmt)
  with h w(1,2) paths show ?thesis by (auto simp: call)
qed

section \<open>An epoch ends\<close>

text \<open>
  C24: an epoch ends, whatever the model, the sandbox, the providers and the other processes do:
  with the fuel of the run it never runs out, so it returns an exit reason or throws, and it has asked the
  model at most three times for each step that the run may take.
\<close>

theorem epoch_terminates:
  "fst (realEpoch (epoch_fuel ee + n) ee g) \<noteq> Inr None
   \<and> (\<exists>es. ps_trace (snd (realEpoch (epoch_fuel ee + n) ee g)) = ps_trace g @ es
        \<and> chats es \<le> MAX_NO_TOOL_TURNS * nat (run_max_steps (ee_run ee)))"
  using tspecD [OF realEpoch_ends [of ee "epoch_fuel ee + n", unfolded ends_def], of g] by auto

section \<open>An epoch keeps the kernel\<close>

text \<open>
  C25: no epoch breaks the kernel. Whatever the model says, and whatever the sandbox and the providers answer or
  fail with, if the other processes only make the database advance, so does a whole epoch:
  every database it commits satisfies the invariants, has the ledger of the start as a
  prefix and keeps the identity, the finished status and the result of every run.
\<close>

theorem epoch_keeps_kernel:
  assumes "kernel_ok (ps_world g)" and "\<And>n w. kernel_from (ps_world g) w \<Longrightarrow> kernel_from (ps_world g) (ps_env g n w)"
  shows "kernel_from (ps_world g) (ps_world (snd (realEpoch fuel ee g)))
     \<and> (\<exists>es. ps_trace (snd (realEpoch fuel ee g)) = ps_trace g @ es \<and> (\<forall>w. Db w \<in> set es \<longrightarrow> kernel_from (ps_world g) w))"
proof -
  have "guarded (kernel_from (ps_world g)) g"
    using assms kernel_from_refl by (simp add: guarded_def)
  with maintains_realEpoch obtain es where "guarded (kernel_from (ps_world g)) (snd (realEpoch fuel ee g))"
    "ps_trace (snd (realEpoch fuel ee g)) = ps_trace g @ es" "\<forall>w. Db w \<in> set es \<longrightarrow> kernel_from (ps_world g) w"
    by (rule maintainsD)
  then show ?thesis by (auto simp: guarded_def)
qed

theorem epoch_keeps_kernel_witness:
  "kernel_from demo_ready (ps_world (snd (realEpoch 1 (demo_epoch ''report.md'') demo_start)))"
proof -
  have "kernel_ok demo_ready" using demo_ready_live by (simp add: live_def)
  then show ?thesis
    using epoch_keeps_kernel [of demo_start 1 "demo_epoch ''report.md''"] by (simp add: demo_start_def)
qed

section \<open>A malformed progress ledger\<close>

text \<open>
  The tool that updates the progress ledger stores the arguments of the model as they are; a checkpoint has to
  list the open work.
\<close>

definition open_work :: "json \<Rightarrow> json" where
  "open_work progress =
     JObj [(''active'', member_or_empty progress ''active''), (''blocked'', member_or_empty progress ''blocked''),
       (''remaining'', member_or_empty progress ''remaining'')]"

definition progress_of :: "world \<Rightarrow> string \<Rightarrow> json option" where
  "progress_of w rid = map_option run_progress (find_run w rid)"

lemma commitments_need_work: "commitments_ok (Some (commitments_of w run)) \<Longrightarrow> pending_work_ok (Some (open_work (run_progress run)))"
  by (simp add: commitments_ok_def commitments_of_def open_work_def jfield_def)

lemma checkpoint_txn_fails:
  assumes "progress_of w (ee_rid ee) = Some progress" and "\<not> pending_work_ok (Some (open_work progress))"
  shows "\<exists>e. checkpoint_txn ee ls key revision pending w = Inl e"
proof -
  from assms(1) obtain run where run: "find_run w (ee_rid ee) = Some run" "run_progress run = progress"
    by (auto simp: progress_of_def)
  let ?i = "state_input w (run\<lparr>run_tenant_id := run_tenant_id (ee_run ee)\<rparr>) key ls pending"
  have "jfield (envelope_of ?i) ''commitments'' = Some (commitments_of w (run\<lparr>run_tenant_id := run_tenant_id (ee_run ee)\<rparr>))"
    by (simp add: envelope_of_def state_input_def jfield_def member_if_def or_else_def split: option.split)
  moreover have "\<not> commitments_ok (Some (commitments_of w (run\<lparr>run_tenant_id := run_tenant_id (ee_run ee)\<rparr>)))"
    using assms(2) run(2) commitments_need_work by force
  ultimately have "\<not> envelope_ok (ee_reader ee) (envelope_of ?i)" unfolding envelope_ok_def by simp
  then have "createCheckpointEnvelope (ee_reader ee) ?i \<noteq> Inr env" for env by (simp add: create_iff)
  then obtain e where "createCheckpointEnvelope (ee_reader ee) ?i = Inl e"
    by (cases "createCheckpointEnvelope (ee_reader ee) ?i") auto
  with run(1) show ?thesis by (simp add: checkpoint_txn_def tx_eval liftT_def)
qed

lemma progress_append:
  assumes "appendEvent rid type payload aid patch w = Inr (seq, w')"
  shows "progress_of w' rid = Some (case p_progress patch of None \<Rightarrow> the (progress_of w rid) | Some p \<Rightarrow> p)
     \<and> (rid' \<noteq> rid \<longrightarrow> progress_of w' rid' = progress_of w rid')"
  using assms by (auto simp: appendEvent_iff progress_of_def find_run_log_event append_row_def split: option.split)

lemma progress_append_keeps [hoare_rules]:
  "keeps (\<lambda>w. progress_of w rid = Some p) (appendEvent rid' type payload aid no_patch)"
proof (rule hoareI)
  fix w seq w' assume "progress_of w rid = Some p" and "appendEvent rid' type payload aid no_patch w = Inr (seq, w')"
  moreover have "p_progress no_patch = None" by (simp add: no_patch_def)
  ultimately show "progress_of w' rid = Some p"
    using progress_append [of rid' type payload aid no_patch w seq w' rid] by (cases "rid = rid'") auto
qed

lemma progress_updates [simp]:
  "progress_of (w\<lparr>w_heads := hs\<rparr>) rid = progress_of w rid" "progress_of (w\<lparr>w_revisions := rs\<rparr>) rid = progress_of w rid"
  "progress_of (w\<lparr>w_ulid_next := n\<rparr>) rid = progress_of w rid"
  by (simp_all add: progress_of_def find_run_def)

lemma progress_record_revision [hoare_rules]:
  "keeps (\<lambda>w. progress_of w rid = Some p) (record_revision number r a ws key digest sizeText)"
  unfolding record_revision_def insertRevision_def newId_def Let_def
  by (intro hoare_rules keeps_modifyT) (auto simp: hoare_def)

lemma progress_workspace_checkpoint: "maintains (\<lambda>w. progress_of w rid = Some p) (workspace_checkpoint number os sx r a ws)"
  unfolding workspace_checkpoint_def Let_def by (intro maintain_rules hoare_rules)

lemma saveCheckpoint_fails:
  assumes progress: "guarded (\<lambda>w. progress_of w (ee_rid ee) = Some p) h" and bad: "\<not> pending_work_ok (Some (open_work p))"
  shows "fst (saveCheckpoint ee sx ls pending h) \<noteq> Inr u"
proof
  assume "fst (saveCheckpoint ee sx ls pending h) = Inr u"
  then obtain h' where "saveCheckpoint ee sx ls pending h = (Inr u, h')"
    by (cases "saveCheckpoint ee sx ls pending h") auto
  then obtain key h1 revision h2 u1 u2 where
    put: "provider_call ''put'' (os_put (ee_store ee) key (transcript_text ee (ls_transcript ls))) h = (Inr u1, h1)"
    and snapshot: "workspace_checkpoint (ee_number ee) (ee_store ee) sx (ee_rid ee) (ee_aid ee) (workspace_of ee) h1 = (Inr revision, h2)"
    and txn: "withTransaction (checkpoint_txn ee ls key revision pending) h2 = (Inr u2, h')"
    unfolding saveCheckpoint_def Let_def thenP_Inr bindP_Inr by blast
  have "guarded (\<lambda>w. progress_of w (ee_rid ee) = Some p) h1"
    using maintainsD [OF maintains_provider_call progress] put by (metis snd_conv)
  with progress_workspace_checkpoint snapshot have "guarded (\<lambda>w. progress_of w (ee_rid ee) = Some p) h2"
    by (metis maintainsD snd_conv)
  then have "progress_of (ps_env h2 (ps_tick h2) (ps_world h2)) (ee_rid ee) = Some p" by (simp add: guarded_def)
  from checkpoint_txn_fails [OF this bad, of ls key revision pending] txn show False
    by (auto simp: withTransaction_def Let_def commit_def)
qed

lemma appendEvent_outcome:
  "(case appendEvent rid type payload aid patch w of Inl e \<Rightarrow> Inl e | Inr (seq, w') \<Rightarrow> Inr seq)
   = (case appendEvent rid type payload' aid patch' w of Inl e \<Rightarrow> Inl e | Inr (seq, w') \<Rightarrow> Inr seq)"
  by (simp add: appendEvent_def lockRun_def insertEvent_def tx_eval Let_def split: option.split if_split)

lemma progress_update_outcome: "fst (progress_update tc args g) = fst (progress_update tc args' g)"
  using appendEvent_outcome [of "run_id (tc_run tc)" ProgressUpdated "[(''progress'', JObj args)]" "Some (tc_attempt tc)"
      "no_patch\<lparr>p_progress := Some (JObj args)\<rparr>" "ps_env g (ps_tick g) (ps_world g)" "[(''progress'', JObj args')]"
      "no_patch\<lparr>p_progress := Some (JObj args')\<rparr>"]
  by (auto simp: progress_update_def thenP_def bindP_def withTransaction_def Let_def commit_def returnP_def
      split: sum.splits prod.splits)

lemma progress_update_Inr:
  assumes "progress_update tc args g = (Inr outcome, h)"
  shows "progress_of (ps_world h) (run_id (tc_run tc)) = Some (JObj args) \<and> ps_env h = ps_env g"
proof -
  from assms obtain seq g1 where txn: "withTransaction (appendEvent (run_id (tc_run tc)) ProgressUpdated [(''progress'', JObj args)]
      (Some (tc_attempt tc)) (no_patch\<lparr>p_progress := Some (JObj args)\<rparr>)) g = (Inr seq, g1)" and "h = g1"
    by (auto simp: progress_update_def proc_Inr)
  moreover from withTransaction_Inr [OF txn] obtain w where
    "appendEvent (run_id (tc_run tc)) ProgressUpdated [(''progress'', JObj args)] (Some (tc_attempt tc))
      (no_patch\<lparr>p_progress := Some (JObj args)\<rparr>) w = Inr (seq, ps_world g1)" by blast
  moreover have "ps_env g1 = ps_env g" using txn by (auto simp: withTransaction_def Let_def)
  ultimately show ?thesis using progress_append by fastforce
qed

text \<open>
  C28: a progress ledger that is not well-formed stops the run from being saved. The tool \<^verbatim>\<open>progress_update\<close> accepts
  every object alike; but in the state in which it has stored one whose open work is not made of lists of strings
  (and blocked items), saving a checkpoint throws, whatever the state of the loop, and so does leaving the epoch
  with a checkpoint, as a suspension and the exhaustion of the budget do; provided that the
  other processes leave the ledger of the run as it is. A later call of the tool that stores another ledger ends this
  state, and the statement says nothing about what follows it.
\<close>

theorem malformed_progress_stops_checkpoints:
  assumes "progress_update tc args g = (Inr outcome, h)" and "run_id (tc_run tc) = ee_rid ee"
    and "\<not> pending_work_ok (Some (open_work (JObj args)))"
    and "\<And>n w. progress_of w (ee_rid ee) = Some (JObj args) \<Longrightarrow> progress_of (ps_env g n w) (ee_rid ee) = Some (JObj args)"
  shows "(\<forall>args'. fst (progress_update tc args' g) = Inr outcome)
     \<and> (\<exists>e. fst (saveCheckpoint ee sx ls pending h) = Inl e)
     \<and> (\<exists>e. fst (leave_epoch ee sx ls pending reason h) = Inl e)"
proof -
  have guarded: "guarded (\<lambda>w. progress_of w (ee_rid ee) = Some (JObj args)) h"
    using progress_update_Inr [OF assms(1)] assms(2,4) by (simp add: guarded_def)
  obtain r h' where save: "saveCheckpoint ee sx ls pending h = (r, h')" by (cases "saveCheckpoint ee sx ls pending h")
  with saveCheckpoint_fails [OF guarded assms(3), of sx ls pending] obtain e where "r = Inl e" by (cases r) auto
  with save have "fst (saveCheckpoint ee sx ls pending h) = Inl e" "fst (leave_epoch ee sx ls pending reason h) = Inl e"
    by (simp_all add: leave_epoch_def thenP_def bindP_def)
  then show ?thesis using progress_update_outcome [of tc _ g args] assms(1) by auto
qed

definition demo_progress :: "(string \<times> json) list" where
  "demo_progress = [(''active'', JStr ''write the report'')]"

theorem malformed_progress_stops_checkpoints_witness:
  "\<exists>outcome h e. progress_update demo_tool demo_progress demo_start = (Inr outcome, h)
     \<and> fst (saveCheckpoint (demo_epoch ''report.md'') demo_sandbox (demo_loop ''report.md'') None h) = Inl e"
proof -
  have live: "live RUNNING True demo_ready" by (rule demo_ready_live)
  then obtain r where "find_run demo_ready ''run_1'' = Some r" "kernel_ok demo_ready" by (auto simp: live_def)
  from next_seq_free [OF kernel_okD [OF this(2)] this(1)] this(1)
  have "\<exists>seq w. appendEvent ''run_1'' ProgressUpdated [(''progress'', JObj demo_progress)] (Some ''att_1'')
      (no_patch\<lparr>p_progress := Some (JObj demo_progress)\<rparr>) demo_ready = Inr (seq, w)"
    by (simp add: appendEvent_iff)
  then obtain outcome h where update: "progress_update demo_tool demo_progress demo_start = (Inr outcome, h)"
    by (auto simp: progress_update_def thenP_def bindP_def withTransaction_def Let_def commit_def returnP_def demo_start_def demo_tool_def)
  have "\<not> pending_work_ok (Some (open_work (JObj demo_progress)))"
    by (auto simp: pending_work_ok_def open_work_def demo_progress_def member_or_empty_def jfield_def strings_def)
  from malformed_progress_stops_checkpoints [OF update _ this, of "demo_epoch ''report.md''" demo_sandbox "demo_loop ''report.md''" None Ex_error]
  obtain e where "fst (saveCheckpoint (demo_epoch ''report.md'') demo_sandbox (demo_loop ''report.md'') None h) = Inl e"
    by (auto simp: demo_start_def demo_tool_def)
  with update show ?thesis by blast
qed

end
