(* ===== verification/Worker.thy ===== *)
theory Worker
  imports Epoch_Claims Session_Events
begin

text \<open>
  The worker process, \<^verbatim>\<open>src/harness/worker.ts\<close>: the background passes, the claim, the execution of a claimed
  run and the loop around them, composed of the operations of the other theories. The heartbeat runs beside the
  epoch: its writes are among those of the environment, and its verdict is the abort signal of the epoch.
\<close>

section \<open>The worker\<close>

record 'w worker_env =
  wk_workerId :: string
  wk_leaseTtlMs :: int
  wk_maxAttempts :: int
  wk_maxChildReplacements :: int
  wk_epoch :: "'w epoch_env"                                  \<comment> \<open>the providers of the epochs\<close>
  wk_version :: "string \<Rightarrow> agent_version option"
  wk_held :: "string \<Rightarrow> bool"
  wk_locked :: "string \<Rightarrow> bool"
  wk_onSandboxOrphaned :: "(string \<Rightarrow> nat \<Rightarrow> err + unit) option"
  wk_shutdown :: "nat \<Rightarrow> bool"

definition shutdownP :: "'w worker_env \<Rightarrow> bool proc" where
  "shutdownP wk = external (wk_shutdown wk) (\<lambda>_. Call_provider ''shutdown'')"

text \<open>A pass over the database that commits several transactions of its own.\<close>

definition passP :: "(world \<Rightarrow> (err + 'a) \<times> world) \<Rightarrow> 'a proc" where
  "passP f = (\<lambda>g.
     let res = f (ps_env g (ps_tick g) (ps_world g))
     in (fst res, g\<lparr>ps_world := snd res, ps_tick := Suc (ps_tick g), ps_trace := ps_trace g @ [Db (snd res)]\<rparr>))"

definition orphan_hook :: "'w worker_env \<Rightarrow> attempt_row \<times> reap_outcome \<Rightarrow> unit proc" where
  "orphan_hook wk r =
     (case (att_sandbox_id (fst r), wk_onSandboxOrphaned wk) of
        (Some sandbox, Some hook) \<Rightarrow>
          if sandbox = [] then returnP ()
          else catchP (provider_call ''terminate'' (hook sandbox)) (\<lambda>_. returnP ())
      | _ \<Rightarrow> returnP ())"

definition reap :: "'w worker_env \<Rightarrow> unit proc" where
  "reap wk =
     bindP (passP (reapExpiredLeases (wk_held wk) (wk_locked wk) (wk_maxAttempts wk))) (\<lambda>reaped.
     thenP (mapP (orphan_hook wk) reaped) (returnP ()))"

section \<open>A claimed run\<close>

definition epoch_of :: "'w worker_env \<Rightarrow> run_row \<Rightarrow> attempt_row \<Rightarrow> 'w epoch_env" where
  "epoch_of wk running attempt =
     (wk_epoch wk)\<lparr>ee_run := running, ee_attempt := attempt, ee_version := wk_version wk (run_agent_version_id running)\<rparr>"

definition run_epoch :: "'w worker_env \<Rightarrow> run_row \<Rightarrow> attempt_row \<Rightarrow> epoch_exit option proc" where
  "run_epoch wk running attempt = realEpoch (epoch_fuel (epoch_of wk running attempt)) (epoch_of wk running attempt)"

definition exit_reason :: "'w worker_env \<Rightarrow> run_row \<Rightarrow> attempt_row \<Rightarrow> epoch_exit option proc" where
  "exit_reason wk run attempt =
     catchP (bindP (withTransaction (startEpoch (run_id run) attempt)) (\<lambda>running. run_epoch wk running attempt))
       (\<lambda>_. bindP (abortedP (wk_epoch wk)) (\<lambda>aborted. returnP (Some (if aborted then Ex_lease_lost else Ex_error))))"

definition settle :: "'w worker_env \<Rightarrow> run_row \<Rightarrow> attempt_row \<Rightarrow> epoch_exit \<Rightarrow> unit proc" where
  "settle wk run attempt reason =
     (if reason = Ex_lease_lost then returnP ()
      else withTransaction (settleAttempt (wk_maxAttempts wk) (run_id run) attempt reason))"

text \<open>\<open>None\<close> would mean that the epoch ran out of its fuel; it never does.\<close>

definition executeClaimed :: "'w worker_env \<Rightarrow> run_row \<Rightarrow> attempt_row \<Rightarrow> unit option proc" where
  "executeClaimed wk run attempt =
     bindP (exit_reason wk run attempt) (\<lambda>r.
     case r of None \<Rightarrow> returnP None | Some reason \<Rightarrow> thenP (settle wk run attempt reason) (returnP (Some ())))"

section \<open>The loop\<close>

definition CANDIDATE_LIMIT :: nat where "CANDIDATE_LIMIT = 32"
definition RETRY_DELAY_MS :: int where "RETRY_DELAY_MS = 5000"

definition ignoring :: "'a proc \<Rightarrow> unit proc" where
  "ignoring m = catchP (thenP m (returnP ())) (\<lambda>_. returnP ())"

text \<open>An iteration; an error of it is logged.\<close>

definition worker_turn :: "'w worker_env \<Rightarrow> unit proc" where
  "worker_turn wk = ignoring
     (thenP (reap wk)
     (thenP (ignoring (passP (wakeReadyParents (wk_held wk) (wk_locked wk) (wk_maxChildReplacements wk))))
     (thenP (ignoring (passP (\<lambda>w. dispatchPendingSessionEvents (wk_held wk) CANDIDATE_LIMIT RETRY_DELAY_MS (w_now w) w)))
     (bindP (withTransaction (claimRun (wk_locked wk) (wk_workerId wk) (wk_leaseTtlMs wk))) (\<lambda>claimed.
      case claimed of
        None \<Rightarrow> returnP ()
      | Some (run, attempt) \<Rightarrow> thenP (executeClaimed wk run attempt) (returnP ()))))))"

text \<open>\<open>n\<close> iterations, unless the worker is shut down before.\<close>

fun worker_loop :: "nat \<Rightarrow> 'w worker_env \<Rightarrow> unit proc" where
  "worker_loop 0 wk = returnP ()"
| "worker_loop (Suc n) wk =
     bindP (shutdownP wk) (\<lambda>stopped. if stopped then returnP () else thenP (worker_turn wk) (worker_loop n wk))"

section \<open>The worker keeps the kernel\<close>

lemma maintains_passP [maintain_rules]:
  "(\<And>w. I w \<Longrightarrow> I (snd (f w))) \<Longrightarrow> maintains I (passP f)"
  by (auto simp: maintains_def guarded_def passP_def Let_def)

lemma reapExpiredLeases_kernel_from:
  "kernel_from w0 w \<Longrightarrow> kernel_from w0 (snd (reapExpiredLeases held locked m w))"
proof (induction held locked m w rule: reapExpiredLeases.induct)
  case (1 held locked m w)
  show ?case
  proof (cases "reap_one held locked m w")
    case (Inr p)
    obtain out w' where p: "p = (out, w')" by (cases p)
    have "kernel_from w0 (snd p)"
      using hoareD [OF reap_one_kernel_from "1.prems" Inr [unfolded p]] by (simp add: p)
    with Inr 1 show ?thesis
      by (cases p) (auto simp: reapExpiredLeases.simps [of held locked m w] split: option.split prod.split sum.split)
  qed (use "1.prems" in \<open>simp add: reapExpiredLeases.simps [of held locked m w]\<close>)
qed

lemma maintains_ignoring [maintain_rules]: "maintains I m \<Longrightarrow> maintains I (ignoring m)"
  unfolding ignoring_def by (intro maintain_rules)

lemma maintains_reap [maintain_rules]: "maintains (kernel_from w0) (reap wk)"
proof -
  have "maintains (kernel_from w0) (orphan_hook wk r)" for r
    unfolding orphan_hook_def by (auto intro!: maintain_rules split: option.split)
  then show ?thesis
    unfolding reap_def by (intro maintain_rules reapExpiredLeases_kernel_from)
qed

lemma maintains_executeClaimed [maintain_rules]: "maintains (kernel_from w0) (executeClaimed wk run attempt)"
  unfolding executeClaimed_def exit_reason_def run_epoch_def settle_def
  by (intro maintain_rules maintains_realEpoch hoare_rules)

lemma maintains_worker_turn [maintain_rules]: "maintains (kernel_from w0) (worker_turn wk)"
  unfolding worker_turn_def wakeReadyParents_def dispatchPendingSessionEvents_def
  by (intro maintain_rules hoare_rules wake_loop_kernel_from dispatch_loop_kernel_from)

lemma maintains_worker_loop: "maintains (kernel_from w0) (worker_loop n wk)"
  by (induction n) (auto intro!: maintain_rules simp: shutdownP_def)

section \<open>The settlement of a claimed run\<close>

definition holds_lease :: "world \<Rightarrow> string \<Rightarrow> bool" where
  "holds_lease w aid \<longleftrightarrow> (\<exists>a \<in> set (w_attempts w). att_id a = aid \<and> att_state a = AS_ACTIVE)"

text \<open>What becomes of the run of an attempt that still held its lease.\<close>

definition failed_as :: "string \<Rightarrow> run_row \<Rightarrow> bool" where
  "failed_as reason r \<longleftrightarrow> run_status r = FAILED \<and> run_status_reason r = Some reason"

definition settled_run :: "int \<Rightarrow> attempt_row \<Rightarrow> epoch_exit \<Rightarrow> run_row option \<Rightarrow> run_row option \<Rightarrow> bool" where
  "settled_run maxAttempts attempt reason before after \<longleftrightarrow>
     (case reason of
        Ex_budget_exhausted \<Rightarrow> (\<exists>r. after = Some r \<and> failed_as ''budget_exhausted'' r)
      | Ex_error \<Rightarrow> (\<exists>r. after = Some r \<and>
          (if maxAttempts \<le> att_no attempt then failed_as ''max_attempts_exhausted'' r
           else run_status r = QUEUED \<and> run_current_attempt_id r = None))
      | _ \<Rightarrow> after = before)"

lemma exitAttempt_releases:
  assumes "exitAttempt aid reason w = Inr (owned, w')"
  shows "\<not> holds_lease w' aid" and "owned \<longleftrightarrow> holds_lease w aid" and "w_runs w' = w_runs w"
proof -
  have "exitAttempt aid reason w = Inr (0 < row_count (\<lambda>a. att_id a = aid \<and> att_state a = AS_ACTIVE) (w_attempts w),
      w\<lparr>w_attempts := update_where (\<lambda>a. att_id a = aid \<and> att_state a = AS_ACTIVE)
        (\<lambda>a. a\<lparr>att_state := AS_EXITED, att_exit_reason := Some reason\<rparr>) (w_attempts w)\<rparr>)"
    by (simp add: exitAttempt_def tx_eval)
  with assms have w': "w' = w\<lparr>w_attempts := update_where (\<lambda>a. att_id a = aid \<and> att_state a = AS_ACTIVE)
        (\<lambda>a. a\<lparr>att_state := AS_EXITED, att_exit_reason := Some reason\<rparr>) (w_attempts w)\<rparr>"
    and owned: "owned = (0 < row_count (\<lambda>a. att_id a = aid \<and> att_state a = AS_ACTIVE) (w_attempts w))"
    by simp_all
  show "w_runs w' = w_runs w" by (simp add: w')
  show "\<not> holds_lease w' aid" by (simp add: w' holds_lease_def set_update_where ball_Un)
  show "owned \<longleftrightarrow> holds_lease w aid" unfolding owned by (auto simp: holds_lease_def row_count_def filter_empty_conv)
qed

lemma transition_settles:
  assumes "transitionRun rid opts w = Inr (r, w')"
  shows "find_run w' rid = Some r" and "run_status r = to_to opts" and "run_status_reason r = to_reason opts"
    and "holds_lease w' aid = holds_lease w aid"
    and "p_current_attempt_id (to_patch opts) = Some c \<Longrightarrow> run_current_attempt_id r = c"
  using assms
  by (auto simp: transitionRun_iff find_run_transition_world transition_row_def Let_def holds_lease_def dest: find_run_id)

lemma settleAttempt_outcome:
  assumes "settleAttempt maxAttempts rid attempt reason w = Inr (u, w')" and "reason \<noteq> Ex_lease_lost"
  shows "\<not> holds_lease w' (att_id attempt)"
    and "holds_lease w (att_id attempt) \<Longrightarrow> settled_run maxAttempts attempt reason (find_run w rid) (find_run w' rid)"
proof -
  obtain owned w1 where exit: "exitAttempt (att_id attempt) (epoch_exit_name reason) w = Inr (owned, w1)"
    by (simp add: exitAttempt_def tx_eval)
  note released = exitAttempt_releases [OF exit]
  then have runs: "find_run w1 rid = find_run w rid" by (simp add: find_run_def)
  have then_step: "w' = w1 \<or> (\<exists>opts r. transitionRun rid opts w1 = Inr (r, w'))"
    using assms exit by (auto simp: settleAttempt_def tx_simps split: if_splits epoch_exit.splits)
  then show "\<not> holds_lease w' (att_id attempt)" using released(1) transition_settles(4) by blast
  assume "holds_lease w (att_id attempt)"
  then have owned by (simp add: released)
  then show "settled_run maxAttempts attempt reason (find_run w rid) (find_run w' rid)"
    using assms exit runs transition_settles
    by (cases reason)
      (auto simp: settleAttempt_def tx_simps settled_run_def failed_as_def settle_failed_def settle_retry_def split: if_splits
        dest: transition_settles)
qed

lemma run_epoch_ends: "fst (run_epoch wk running attempt g) \<noteq> Inr None"
  using tspecD [OF realEpoch_ends [of "epoch_of wk running attempt" "epoch_fuel (epoch_of wk running attempt)", unfolded ends_def], of g]
  by (auto simp: run_epoch_def)

lemma exit_reason_ends: "exit_reason wk run attempt g \<noteq> (Inr None, h)"
proof -
  have "run_epoch wk running attempt g' \<noteq> (Inr None, h)" for running g'
    using run_epoch_ends [of wk running attempt g'] by (metis fst_conv)
  then show ?thesis by (simp add: exit_reason_def catchP_Inr proc_Inr)
qed

text \<open>
  A claimed run is always settled: an epoch ends with a reason, an error is one of them, and unless the lease was
  lost the settlement that commits leaves the attempt released and, if it still held the lease, the run as the
  reason says. Only the settlement itself can throw.
\<close>

theorem claimed_run_is_settled:
  "fst (executeClaimed wk run attempt g) \<noteq> Inr None
   \<and> (executeClaimed wk run attempt g = (Inr (Some ()), h)
      \<longrightarrow> (\<exists>reason g1. exit_reason wk run attempt g = (Inr (Some reason), g1)
            \<and> (if reason = Ex_lease_lost then h = g1
               else \<exists>w. settleAttempt (wk_maxAttempts wk) (run_id run) attempt reason w = Inr ((), ps_world h)
                 \<and> \<not> holds_lease (ps_world h) (att_id attempt)
                 \<and> (holds_lease w (att_id attempt)
                    \<longrightarrow> settled_run (wk_maxAttempts wk) attempt reason (find_run w (run_id run)) (find_run (ps_world h) (run_id run))))))"
proof (intro conjI impI)
  show "fst (executeClaimed wk run attempt g) \<noteq> Inr None"
    by (auto simp: executeClaimed_def bindP_def thenP_def returnP_def exit_reason_ends split: prod.splits sum.splits option.splits)
next
  assume "executeClaimed wk run attempt g = (Inr (Some ()), h)"
  then obtain reason g1 u where exit: "exit_reason wk run attempt g = (Inr (Some reason), g1)"
    and settled: "settle wk run attempt reason g1 = (Inr u, h)"
    by (auto simp: executeClaimed_def proc_Inr split: option.split_asm)
  moreover have "if reason = Ex_lease_lost then h = g1
      else \<exists>w. settleAttempt (wk_maxAttempts wk) (run_id run) attempt reason w = Inr ((), ps_world h)
                 \<and> \<not> holds_lease (ps_world h) (att_id attempt)
        \<and> (holds_lease w (att_id attempt)
           \<longrightarrow> settled_run (wk_maxAttempts wk) attempt reason (find_run w (run_id run)) (find_run (ps_world h) (run_id run)))"
  proof (cases "reason = Ex_lease_lost")
    case False
    with settled have "withTransaction (settleAttempt (wk_maxAttempts wk) (run_id run) attempt reason) g1 = (Inr u, h)"
      by (simp add: settle_def)
    from withTransaction_Inr [OF this] obtain w where
      w: "settleAttempt (wk_maxAttempts wk) (run_id run) attempt reason w = Inr ((), ps_world h)" by auto
    from settleAttempt_outcome [OF w False] w False show ?thesis by auto
  qed (use settled in \<open>simp add: settle_def returnP_Inr\<close>)
  ultimately show "\<exists>reason g1. exit_reason wk run attempt g = (Inr (Some reason), g1)
      \<and> (if reason = Ex_lease_lost then h = g1
         else \<exists>w. settleAttempt (wk_maxAttempts wk) (run_id run) attempt reason w = Inr ((), ps_world h)
                 \<and> \<not> holds_lease (ps_world h) (att_id attempt)
           \<and> (holds_lease w (att_id attempt)
              \<longrightarrow> settled_run (wk_maxAttempts wk) attempt reason (find_run w (run_id run)) (find_run (ps_world h) (run_id run))))"
    by blast
qed
end
