(* ===== verification/Bundle.thy ===== *)
theory Bundle
  imports Epoch_Claims
begin

text \<open>
  The portable bundle of a run, \<^verbatim>\<open>src/export/runBundle.ts\<close>: its export, which reads the database and the object
  store, and the validation that an importer runs before it stores anything. Contents travel in base64, which is
  modelled here on bytes. The JSON of a run and of an attempt row, of which the validation reads the ids, is a
  function of the row.
\<close>

section \<open>Base64\<close>

definition B64_ALPHABET :: string where
  "B64_ALPHABET = ''ABCDEFGHIJKLMNOPQRSTUVWXYZabcdefghijklmnopqrstuvwxyz0123456789+/''"

definition b64_char :: "nat \<Rightarrow> char" where
  "b64_char n = B64_ALPHABET ! (n mod 64)"

definition byte :: "char \<Rightarrow> nat" where
  "byte c = of_char c"

fun toBase64 :: "string \<Rightarrow> string" where
  "toBase64 [] = []"
| "toBase64 [a] = [b64_char (byte a div 4), b64_char (byte a mod 4 * 16), CHR ''='', CHR ''='']"
| "toBase64 [a, b] =
     [b64_char (byte a div 4), b64_char (byte a mod 4 * 16 + byte b div 16), b64_char (byte b mod 16 * 4), CHR ''='']"
| "toBase64 (a # b # c # rest) =
     b64_char (byte a div 4) # b64_char (byte a mod 4 * 16 + byte b div 16)
     # b64_char (byte b mod 16 * 4 + byte c div 64) # b64_char (byte c mod 64) # toBase64 rest"

definition b64_letter :: "char \<Rightarrow> bool" where
  "b64_letter c = (is_alnum c \<or> c = CHR ''+'' \<or> c = CHR ''/'')"

text \<open>The regular expression of \<^verbatim>\<open>decodeBase64\<close>.\<close>

fun is_base64 :: "string \<Rightarrow> bool" where
  "is_base64 [] = True"
| "is_base64 (a # b # c # d # rest) =
     (b64_letter a \<and> b64_letter b
      \<and> (b64_letter c \<and> b64_letter d \<and> is_base64 rest
         \<or> rest = [] \<and> d = CHR ''='' \<and> (c = CHR ''='' \<or> b64_letter c)))"
| "is_base64 _ = False"

definition b64_value :: "char \<Rightarrow> nat" where
  "b64_value c = length (takeWhile (\<lambda>x. x \<noteq> c) B64_ALPHABET)"

text \<open>\<^verbatim>\<open>Buffer.from(value, 'base64')\<close> on a value that matches; it drops the bits that padding leaves over.\<close>

fun fromBase64 :: "string \<Rightarrow> string" where
  "fromBase64 (a # b # c # d # rest) =
     (let x = b64_value a; y = b64_value b; z = b64_value c; u = b64_value d;
          first = char_of (x * 4 + y div 16); second = char_of (y mod 16 * 16 + z div 4) in
      if c = CHR ''='' then [first]
      else if d = CHR ''='' then [first, second]
      else first # second # char_of (z mod 4 * 64 + u) # fromBase64 rest)"
| "fromBase64 _ = []"

section \<open>The bundle\<close>

record bundle_artifact =
  ba_id :: string
  ba_schemaVersion :: json
  ba_digest :: string
  ba_mimeType :: string
  ba_sizeBytes :: string
  ba_logicalRole :: string
  ba_sourcePath :: string
  ba_producerRunId :: string
  ba_producerAttemptId :: string
  ba_producerStep :: json
  ba_sourceRefs :: json
  ba_verificationRefs :: json
  ba_evidenceRefs :: json
  ba_contentBase64 :: string
  ba_createdAt :: string

record run_bundle =
  bu_bundleVersion :: json
  bu_exportedAtSeq :: string
  bu_run :: "(string \<times> json) list"
  bu_attempts :: "(string \<times> json) list list"
  bu_events :: "event_row list"
  bu_receipts :: "receipt_row list"
  bu_approvals :: "approval_row list"
  bu_grants :: "grant_row list"
  bu_artifacts :: "bundle_artifact list"
  bu_revisions :: "revision_row list"
  bu_latestSnapshotBase64 :: "string option"
  bu_latestSnapshotKey :: "string option"

text \<open>What the export uses of the platform.\<close>

record export_env =
  xe_sha256 :: "string \<Rightarrow> string"
  xe_iso :: "int \<Rightarrow> string"
  xe_store :: object_store
  xe_runJson :: "run_row \<Rightarrow> (string \<times> json) list"
  xe_attemptJson :: "attempt_row \<Rightarrow> (string \<times> json) list"

definition sha256Digest :: "(string \<Rightarrow> string) \<Rightarrow> string \<Rightarrow> string" where
  "sha256Digest sha bytes = ''sha256:'' @ sha bytes"

section \<open>Exporting\<close>

definition artifactToBundleRecord :: "export_env \<Rightarrow> artifact_row \<Rightarrow> string \<Rightarrow> err + bundle_artifact" where
  "artifactToBundleRecord xe a bytes =
     (let digest = sha256Digest (xe_sha256 xe) bytes in
      thenE (check (digest = art_digest a) (''artifact digest mismatch during export: '' @ art_id a))
     (thenE (check (int_digits (int (length bytes)) = int_digits (art_size_bytes a))
               (''artifact size mismatch during export: '' @ art_id a))
     (Inr \<lparr>ba_id = art_id a, ba_schemaVersion = jint 1, ba_digest = art_digest a, ba_mimeType = art_mime_type a,
           ba_sizeBytes = int_digits (art_size_bytes a), ba_logicalRole = art_logical_role a,
           ba_sourcePath = art_source_path a, ba_producerRunId = art_producer_run_id a,
           ba_producerAttemptId = art_producer_attempt_id a, ba_producerStep = jint (art_producer_step a),
           ba_sourceRefs = JArr (art_source_refs a), ba_verificationRefs = JArr (art_verification_refs a),
           ba_evidenceRefs = JArr (art_evidence_refs a), ba_contentBase64 = toBase64 bytes,
           ba_createdAt = xe_iso xe (art_created_at a)\<rparr>)))"

definition export_artifact :: "export_env \<Rightarrow> artifact_row \<Rightarrow> bundle_artifact proc" where
  "export_artifact xe a =
     bindP (provider_call ''get'' (os_get (xe_store xe) (art_object_key a))) (\<lambda>bytes.
       liftP (artifactToBundleRecord xe a bytes))"

text \<open>The history from a position on is gapless; otherwise the first gap.\<close>

fun check_gapless :: "nat \<Rightarrow> event_row list \<Rightarrow> err + unit" where
  "check_gapless i [] = Inr ()"
| "check_gapless i (e # es) =
     (if ev_seq e = int i + 1 then check_gapless (Suc i) es
      else Inl (GenericError (''event history has a gap at position '' @ int_digits (int i) @ '' (seq ''
             @ int_digits (ev_seq e) @ ''); refusing to export'')))"

definition events_of :: "world \<Rightarrow> string \<Rightarrow> event_row list" where
  "events_of w rid = sort_key ev_seq (filter (\<lambda>e. ev_run_id e = rid) (w_events w))"

definition export_snapshot :: "export_env \<Rightarrow> revision_row option \<Rightarrow> string option proc" where
  "export_snapshot xe latest =
     (case latest of
        None \<Rightarrow> returnP None
      | Some r \<Rightarrow> if rev_tos_key r = [] then returnP None
          else bindP (provider_call ''get'' (os_get (xe_store xe) (rev_tos_key r))) (\<lambda>tar. returnP (Some (toBase64 tar))))"

text \<open>The reads after that of the run, in the order of the code; the artifacts are fetched one by one.\<close>

definition export_run :: "export_env \<Rightarrow> string \<Rightarrow> run_row \<Rightarrow> run_bundle proc" where
  "export_run xe runId run =
     bindP (query (\<lambda>w. events_of w runId)) (\<lambda>events.
     thenP (liftP (check_gapless 0 events))
    (bindP (case run_workspace_id run of
              None \<Rightarrow> returnP []
            | Some ws \<Rightarrow> if ws = [] then returnP [] else query (\<lambda>w. listRevisions w ws)) (\<lambda>revisions.
     let latest = (if revisions = [] then None else Some (last revisions)) in
     bindP (export_snapshot xe latest) (\<lambda>snapshot.
     bindP (query (\<lambda>w. listArtifactsForRun w runId (Some (run_tenant_id run)))) (\<lambda>rows.
     bindP (mapP (export_artifact xe) rows) (\<lambda>artifacts.
     bindP (query (\<lambda>w. listAttempts w runId)) (\<lambda>attempts.
     bindP (query (\<lambda>w. sort_key rc_started_at (filter (\<lambda>r. rc_run_id r = runId) (w_receipts w)))) (\<lambda>receipts.
     bindP (query (\<lambda>w. sort_key ap_created_at (filter (\<lambda>a. ap_run_id a = runId) (w_approvals w)))) (\<lambda>approvals.
     bindP (query (\<lambda>w. sort_key gr_created_at (filter (\<lambda>g. gr_run_id g = runId) (w_grants w)))) (\<lambda>grants.
     returnP
       \<lparr>bu_bundleVersion = jint 2, bu_exportedAtSeq = int_digits (run_last_event_seq run), bu_run = xe_runJson xe run,
        bu_attempts = map (xe_attemptJson xe) attempts, bu_events = events, bu_receipts = receipts,
        bu_approvals = approvals, bu_grants = grants, bu_artifacts = artifacts, bu_revisions = revisions,
        bu_latestSnapshotBase64 = snapshot, bu_latestSnapshotKey = map_option rev_tos_key latest\<rparr>))))))))))"

definition exportRunBundle :: "export_env \<Rightarrow> string \<Rightarrow> string option \<Rightarrow> run_bundle proc" where
  "exportRunBundle xe runId expectedTenantId =
     bindP (query (\<lambda>w. getRun w runId None)) (\<lambda>found.
     case found of
       None \<Rightarrow> throwP (GenericError (''run not found: '' @ runId))
     | Some run \<Rightarrow>
       if expectedTenantId \<noteq> None \<and> expectedTenantId \<noteq> Some (run_tenant_id run)
       then throwP (GenericError (''run not found: '' @ runId))
       else export_run xe runId run)"

section \<open>Importing\<close>

definition stringField :: "(string \<times> json) list \<Rightarrow> string \<Rightarrow> string \<Rightarrow> err + string" where
  "stringField v field description =
     (case jfield v field of
        Some (JStr s) \<Rightarrow> if s = [] then Inl (GenericError (description @ '' is invalid'')) else Inr s
      | _ \<Rightarrow> Inl (GenericError (description @ '' is invalid'')))"

definition is_array :: "json \<Rightarrow> bool" where
  "is_array v = (case v of JArr _ \<Rightarrow> True | _ \<Rightarrow> False)"

definition step_ok :: "json \<Rightarrow> bool" where
  "step_ok v = (case v of JNum q \<Rightarrow> safe_integer q \<and> 0 \<le> q | _ \<Rightarrow> False)"

definition decodeBase64 :: "string \<Rightarrow> string \<Rightarrow> err + string" where
  "decodeBase64 v artifactId =
     thenE (check (is_base64 v) (''artifact content encoding is invalid: '' @ artifactId)) (Inr (fromBase64 v))"

definition validate_artifact ::
    "(string \<Rightarrow> string) \<Rightarrow> string \<Rightarrow> string list \<Rightarrow> string list \<Rightarrow> bundle_artifact \<Rightarrow> err + unit" where
  "validate_artifact sha runId attempts ids a =
     thenE (check (ba_schemaVersion a = jint 1) (''unsupported artifact schema version: '' @ ba_id a))
    (thenE (check (ba_id a \<notin> set ids) (''duplicate artifact ID: '' @ ba_id a))
    (thenE (check (ba_producerRunId a = runId \<and> ba_producerAttemptId a \<in> set attempts \<and> step_ok (ba_producerStep a))
              (''artifact attempt lineage is invalid: '' @ ba_id a))
    (thenE (check (is_array (ba_sourceRefs a) \<and> is_array (ba_verificationRefs a) \<and> is_array (ba_evidenceRefs a))
              (''artifact references are invalid: '' @ ba_id a))
    (thenE (check (ba_sourcePath a \<noteq> [] \<and> normalized (ba_sourcePath a))
              (''artifact source path is invalid: '' @ ba_id a))
    (bindE (decodeBase64 (ba_contentBase64 a) (ba_id a)) (\<lambda>bytes.
     thenE (check (sha256Digest sha bytes = ba_digest a) (''artifact digest mismatch during import: '' @ ba_id a))
           (check (int_digits (int (length bytes)) = ba_sizeBytes a)
              (''artifact size mismatch during import: '' @ ba_id a))))))))"

fun validate_artifacts ::
    "(string \<Rightarrow> string) \<Rightarrow> string \<Rightarrow> string list \<Rightarrow> string list \<Rightarrow> bundle_artifact list \<Rightarrow> err + unit" where
  "validate_artifacts sha runId attempts ids [] = Inr ()"
| "validate_artifacts sha runId attempts ids (a # as) =
     thenE (validate_artifact sha runId attempts ids a) (validate_artifacts sha runId attempts (ba_id a # ids) as)"

definition attempts_of :: "string \<Rightarrow> (string \<times> json) list list \<Rightarrow> (string \<times> json) list list" where
  "attempts_of runId attempts = filter (\<lambda>a. jfield a ''run_id'' = Some (JStr runId)) attempts"

definition validateRunBundleForImport :: "(string \<Rightarrow> string) \<Rightarrow> run_bundle \<Rightarrow> err + unit" where
  "validateRunBundleForImport sha bundle =
     thenE (check (bu_bundleVersion bundle = jint 2) ''unsupported run bundle version'')
    (bindE (stringField (bu_run bundle) ''id'' ''bundle run ID'') (\<lambda>runId.
     bindE (collect (\<lambda>a. stringField a ''id'' ''bundle attempt ID'') (attempts_of runId (bu_attempts bundle))) (\<lambda>attempts.
     validate_artifacts sha runId attempts [] (bu_artifacts bundle))))"

section \<open>Base64 loses nothing\<close>

lemma byte_less: "byte c < 256"
  unfolding byte_def by (metis of_char_mod_256 mod_less_divisor zero_less_numeral)

lemma char_of_byte [simp]: "char_of (byte c) = c"
  by (simp add: byte_def)

lemma b64_table: "list_all (\<lambda>n. b64_value (B64_ALPHABET ! n) = n \<and> b64_letter (B64_ALPHABET ! n) \<and> B64_ALPHABET ! n \<noteq> CHR ''='') [0..<64]"
  by code_simp

lemma b64_char [simp]:
  "n < 64 \<Longrightarrow> b64_value (b64_char n) = n" "b64_letter (b64_char n)" "b64_char n \<noteq> CHR ''=''"
  using b64_table by (auto simp: b64_char_def list_all_iff)

lemma quotients [simp]:
  "byte a div 4 < 64" "byte a div 16 < 16" "byte a div 64 < 4"
  using byte_less [of a] by (simp_all add: less_mult_imp_div_less)

lemma six_bits [simp]:
  "byte a mod 4 * 16 + byte b div 16 < 64" "byte a mod 4 * 16 < 64"
  "byte b mod 16 * 4 + byte c div 64 < 64" "byte b mod 16 * 4 < 64" "byte c mod 64 < 64"
proof -
  have "byte a mod 4 < 4" "byte b div 16 < 16" "byte b mod 16 < 16" "byte c div 64 < 4" by simp_all
  then show "byte a mod 4 * 16 + byte b div 16 < 64" "byte a mod 4 * 16 < 64"
    "byte b mod 16 * 4 + byte c div 64 < 64" "byte b mod 16 * 4 < 64" by linarith+
qed simp

lemma high_bits [simp]:
  "byte b div 16 div 16 = 0" "byte b div 16 mod 16 = byte b div 16"
  "byte c div 64 div 4 = 0" "byte c div 64 mod 4 = byte c div 64"
  by simp_all

lemma fromBase64_toBase64: "fromBase64 (toBase64 bytes) = bytes \<and> is_base64 (toBase64 bytes)"
  by (induction bytes rule: toBase64.induct) (simp_all add: Let_def)

lemma decode_encoded: "decodeBase64 (toBase64 bytes) i = Inr bytes"
  using fromBase64_toBase64 [of bytes] by (simp add: decodeBase64_def thenE_def check_def)

section \<open>What a database must satisfy\<close>

text \<open>
  The rows of artifacts as \<open>createArtifact\<close> leaves them and the foreign key of the table: ids are distinct, and
  an artifact has a normalized path, a step in range and a producing attempt of its run.
\<close>

definition attempt_keys :: "world \<Rightarrow> (string \<times> string) set" where
  "attempt_keys w = (\<lambda>a. (att_id a, att_run_id a)) ` set (w_attempts w)"

definition artifact_sound :: "world \<Rightarrow> artifact_row \<Rightarrow> bool" where
  "artifact_sound w a \<longleftrightarrow>
     normalized (art_source_path a) \<and> 0 \<le> art_producer_step a \<and> art_producer_step a \<le> MAX_SAFE_INTEGER
     \<and> (art_producer_attempt_id a, art_producer_run_id a) \<in> attempt_keys w"

definition artifacts_sound :: "world \<Rightarrow> bool" where
  "artifacts_sound w \<longleftrightarrow>
     distinct (map art_id (w_artifacts w)) \<and> (\<forall>a \<in> set (w_artifacts w). artifact_sound w a)
     \<and> (\<forall>k \<in> attempt_keys w. fst k \<noteq> [])"

lemma validateArtifactInput_Inr:
  "validateArtifactInput i = Inr () \<Longrightarrow>
   normalized (ai_sourcePath i) \<and> 0 \<le> ai_producerStep i \<and> ai_producerStep i \<le> MAX_SAFE_INTEGER"
  by (auto simp: validateArtifactInput_def thenE_def check_def split: if_splits)

text \<open>So an artifact that is created for an attempt of its run keeps them.\<close>

lemma createArtifact_sound:
  assumes "createArtifact i w = Inr (a, w')" and "artifacts_sound w"
    and "(ai_producerAttemptId i, ai_producerRunId i) \<in> attempt_keys w"
  shows "artifacts_sound w'"
proof -
  from assms(1) have valid: "validateArtifactInput i = Inr ()"
    by (auto simp: createArtifact_def tx_simps liftT_def split: sum.splits)
  with assms show ?thesis
    using validateArtifactInput_Inr [OF valid]
    by (auto simp: createArtifact_def tx_simps liftT_def Let_def newId_def artifacts_sound_def artifact_sound_def
        attempt_keys_def exists_row_def list_ex_iff split: option.splits)
qed

section \<open>The validation\<close>

text \<open>What the validation accepts, without its order of checks.\<close>

definition artifact_importable :: "(string \<Rightarrow> string) \<Rightarrow> string \<Rightarrow> string list \<Rightarrow> bundle_artifact \<Rightarrow> bool" where
  "artifact_importable sha runId attempts a \<longleftrightarrow>
     ba_schemaVersion a = jint 1 \<and> ba_producerRunId a = runId \<and> ba_producerAttemptId a \<in> set attempts
     \<and> step_ok (ba_producerStep a) \<and> is_array (ba_sourceRefs a) \<and> is_array (ba_verificationRefs a)
     \<and> is_array (ba_evidenceRefs a) \<and> normalized (ba_sourcePath a) \<and> is_base64 (ba_contentBase64 a)
     \<and> sha256Digest sha (fromBase64 (ba_contentBase64 a)) = ba_digest a
     \<and> int_digits (int (length (fromBase64 (ba_contentBase64 a)))) = ba_sizeBytes a"

lemmas import_simps = thenE_Inr bindE_Inr check_Inr

lemma normalized_nonempty: "normalized p \<Longrightarrow> p \<noteq> []"
  by (auto simp: normalized_def)

lemma validate_artifact_iff:
  "validate_artifact sha runId attempts ids a = Inr () \<longleftrightarrow>
     ba_id a \<notin> set ids \<and> artifact_importable sha runId attempts a"
  by (auto simp: validate_artifact_def decodeBase64_def import_simps artifact_importable_def dest: normalized_nonempty)

lemma validate_artifacts_iff:
  "validate_artifacts sha runId attempts ids as = Inr () \<longleftrightarrow>
     distinct (map ba_id as) \<and> set (map ba_id as) \<inter> set ids = {} \<and> list_all (artifact_importable sha runId attempts) as"
  by (induction "as" arbitrary: ids) (auto simp: import_simps validate_artifact_iff)

section \<open>An exported bundle can be imported\<close>

text \<open>The environment of a process stays the same.\<close>

definition same_env :: "'a proc \<Rightarrow> bool" where
  "same_env m \<longleftrightarrow> (\<forall>g. ps_env (snd (m g)) = ps_env g)"

named_theorems env_rules \<open>introduction rules for processes that keep their environment\<close>

lemma same_envD: "same_env m \<Longrightarrow> m g = (r, h) \<Longrightarrow> ps_env h = ps_env g"
  unfolding same_env_def by (metis snd_conv)

lemma same_env_basic [env_rules]:
  "same_env (returnP x)" "same_env (throwP e)" "same_env (withTransaction m)" "same_env (query f)" "same_env (external f' ev)"
  by (simp_all add: same_env_def returnP_def throwP_def query_def withTransaction_def external_def Let_def)

lemma same_env_bindP [env_rules]: "same_env m \<Longrightarrow> (\<And>x. same_env (f x)) \<Longrightarrow> same_env (bindP m f)"
  unfolding same_env_def
proof
  fix g assume m: "\<forall>g. ps_env (snd (m g)) = ps_env g" and f: "\<And>x. \<forall>g. ps_env (snd (f x g)) = ps_env g"
  obtain r h where run: "m g = (r, h)" by (cases "m g")
  with m have "ps_env h = ps_env g" by (metis snd_conv)
  with run f show "ps_env (snd (bindP m f g)) = ps_env g" by (cases r) (simp_all add: bindP_def)
qed

lemma same_env_liftP [env_rules]: "same_env (liftP r)"
  unfolding liftP_def by (cases r) (simp_all add: env_rules)

lemma same_env_provider_call [env_rules]: "same_env (provider_call name f)"
  unfolding provider_call_def by (intro env_rules) (auto intro: env_rules split: sum.split)

lemma same_env_snapshot [env_rules]: "same_env (export_snapshot xe latest)"
  unfolding export_snapshot_def by (auto intro!: env_rules split: option.split)

lemma liftP_Inr: "liftP r g = (Inr x, h) \<longleftrightarrow> r = Inr x \<and> h = g"
  by (cases r) (auto simp: liftP_def throwP_def returnP_def)

lemma query_Inr: "query f g = (Inr x, h) \<Longrightarrow> x = f (ps_world h)"
  by (auto simp: query_def withTransaction_def commit_def getsT_def Let_def)

lemma check_gapless_Inr:
  "check_gapless i es = Inr () \<Longrightarrow> map ev_seq es = map int [Suc i..<Suc i + length es]"
proof (induction es arbitrary: i)
  case (Cons e es)
  then have "ev_seq e = int (Suc i)" and "map ev_seq es = map int [Suc (Suc i)..<Suc (Suc i) + length es]"
    by (auto split: if_splits)
  then show ?case by (simp add: upt_conv_Cons del: upt_Suc)
qed simp

lemma artifactToBundleRecord_Inr:
  assumes "artifactToBundleRecord xe a bytes = Inr b" and "artifact_sound w a"
    and "art_producer_run_id a = runId" and "art_producer_attempt_id a \<in> set attempts"
  shows "artifact_importable (xe_sha256 xe) runId attempts b \<and> ba_id b = art_id a \<and> ba_sourcePath b = art_source_path a
     \<and> decodeBase64 (ba_contentBase64 b) (ba_id b) = Inr bytes"
  using assms fromBase64_toBase64 [of bytes] decode_encoded
  by (auto simp: artifactToBundleRecord_def import_simps Let_def artifact_importable_def artifact_sound_def step_ok_def
      is_array_def safe_integer_def jint_def)

lemma maintains_export_artifacts: "maintains I (mapP (export_artifact xe) rows)"
  unfolding export_artifact_def by (intro maintain_rules)

lemma collect_total: "(\<And>x. x \<in> set xs \<Longrightarrow> f x = Inr (g x)) \<Longrightarrow> collect f xs = Inr (map g xs)"
  by (induction xs) auto

text \<open>How a row becomes JSON: its columns \<^verbatim>\<open>id\<close> and \<^verbatim>\<open>run_id\<close>.\<close>

definition rows_as_json :: "export_env \<Rightarrow> bool" where
  "rows_as_json xe \<longleftrightarrow>
     (\<forall>run. jfield (xe_runJson xe run) ''id'' = Some (JStr (run_id run)))
     \<and> (\<forall>a. jfield (xe_attemptJson xe a) ''id'' = Some (JStr (att_id a))
          \<and> jfield (xe_attemptJson xe a) ''run_id'' = Some (JStr (att_run_id a)))"

lemma bundle_attempts:
  assumes "rows_as_json xe" and "\<forall>a \<in> set rows. att_run_id a = runId \<and> att_id a \<noteq> []"
  shows "collect (\<lambda>a. stringField a ''id'' d) (attempts_of runId (map (xe_attemptJson xe) rows)) = Inr (map att_id rows)"
proof -
  have "attempts_of runId (map (xe_attemptJson xe) rows) = map (xe_attemptJson xe) rows"
    using assms by (auto simp: attempts_of_def rows_as_json_def filter_id_conv)
  moreover have "stringField (xe_attemptJson xe a) ''id'' d = Inr (att_id a)" if "a \<in> set rows" for a
    using assms that by (auto simp: stringField_def rows_as_json_def)
  then have "collect (\<lambda>a. stringField a ''id'' d) (map (xe_attemptJson xe) rows) = Inr (map att_id rows)"
    by (induction rows) auto
  ultimately show ?thesis by simp
qed

text \<open>The databases that other processes leave: the rows stay sound and no attempt disappears.\<close>

definition orderly :: "proc_state \<Rightarrow> bool" where
  "orderly g \<longleftrightarrow> (\<forall>n w. artifacts_sound w \<longrightarrow> artifacts_sound (ps_env g n w) \<and> attempt_keys w \<subseteq> attempt_keys (ps_env g n w))"

text \<open>The artifacts in a bundle: they are those of one database of the export, with the bytes of the store.\<close>

definition carries :: "export_env \<Rightarrow> artifact_row \<Rightarrow> bundle_artifact \<Rightarrow> bool" where
  "carries xe a b \<longleftrightarrow>
     ba_id b = art_id a \<and> ba_sourcePath b = art_source_path a
     \<and> (\<exists>n bytes. os_get (xe_store xe) (art_object_key a) n = Inr bytes
          \<and> decodeBase64 (ba_contentBase64 b) (ba_id b) = Inr bytes)"

lemma export_artifacts:
  assumes "mapP (export_artifact xe) rows g = (Inr bs, h)"
    and "\<forall>a \<in> set rows. artifact_sound w a \<and> art_producer_run_id a = runId \<and> art_producer_attempt_id a \<in> set attempts"
  shows "list_all2 (\<lambda>a b. artifact_importable (xe_sha256 xe) runId attempts b \<and> carries xe a b) rows bs"
proof (rule mapP_Inr [OF assms(1)])
  fix a b g h assume a: "a \<in> set rows" and "export_artifact xe a g = (Inr b, h)"
  then obtain bytes n where get: "os_get (xe_store xe) (art_object_key a) n = Inr bytes" "artifactToBundleRecord xe a bytes = Inr b"
    by (auto simp: export_artifact_def proc_Inr liftP_Inr dest!: provider_call_Inr)
  with a assms(2) artifactToBundleRecord_Inr [of xe a bytes b w runId attempts]
  show "artifact_importable (xe_sha256 xe) runId attempts b \<and> carries xe a b" by (auto simp: carries_def)
qed

lemma maintains_step: "maintains I m \<Longrightarrow> m g = (r, h) \<Longrightarrow> guarded I g \<Longrightarrow> guarded I h"
  by (metis maintainsD snd_conv)

lemma export_run_imports:
  assumes export: "export_run xe runId run g = (Inr bundle, h)" and guarded: "guarded artifacts_sound g"
    and orderly: "orderly g" and json: "rows_as_json xe" and run: "run_id run = runId" "runId \<noteq> []"
  shows "validateRunBundleForImport (xe_sha256 xe) bundle = Inr ()
     \<and> map ev_seq (bu_events bundle) = map int [1..<Suc (length (bu_events bundle))]
     \<and> (\<exists>w. list_all2 (carries xe) (listArtifactsForRun w runId (Some (run_tenant_id run))) (bu_artifacts bundle))"
proof -
  from export obtain events g1 g2 revisions g3 snapshot g4 rows g5 bs g6 attempts g7 g8 where
    events: "query (\<lambda>w. events_of w runId) g = (Inr events, g1)" and gapless: "liftP (check_gapless 0 events) g1 = (Inr (), g2)"
    and revs: "(case run_workspace_id run of None \<Rightarrow> returnP [] | Some ws \<Rightarrow> if ws = [] then returnP []
        else query (\<lambda>w. listRevisions w ws)) g2 = (Inr revisions, g3)"
    and snap: "export_snapshot xe (if revisions = [] then None else Some (last revisions)) g3 = (Inr snapshot, g4)"
    and rows: "query (\<lambda>w. listArtifactsForRun w runId (Some (run_tenant_id run))) g4 = (Inr rows, g5)"
    and bs: "mapP (export_artifact xe) rows g5 = (Inr bs, g6)"
    and atts: "query (\<lambda>w. listAttempts w runId) g6 = (Inr attempts, g7)"
    and fields: "bu_bundleVersion bundle = jint 2" "bu_run bundle = xe_runJson xe run" "bu_events bundle = events"
      "bu_attempts bundle = map (xe_attemptJson xe) attempts" "bu_artifacts bundle = bs"
    by (auto simp: export_run_def Let_def proc_Inr)
  have revs_maintain: "maintains I (case run_workspace_id run of None \<Rightarrow> returnP [] | Some ws \<Rightarrow> if ws = [] then returnP []
        else query (\<lambda>w. listRevisions w ws))" for I by (auto intro!: maintain_rules split: option.split)
  have revs_env: "same_env (case run_workspace_id run of None \<Rightarrow> returnP [] | Some ws \<Rightarrow> if ws = [] then returnP []
        else query (\<lambda>w. listRevisions w ws))" by (auto intro!: env_rules split: option.split)
  have snap_maintain: "maintains I (export_snapshot xe latest)" for I latest
    unfolding export_snapshot_def by (auto intro!: maintain_rules split: option.split)
  have "guarded artifacts_sound g5"
    using guarded maintains_step [OF maintains_query events] maintains_step [OF maintains_liftP gapless]
      maintains_step [OF revs_maintain revs] maintains_step [OF snap_maintain snap] maintains_step [OF maintains_query rows] by blast
  moreover have "ps_env g5 = ps_env g"
    using same_envD [OF same_env_basic(4) events] same_envD [OF same_env_liftP gapless] same_envD [OF revs_env revs]
      same_envD [OF same_env_snapshot snap] same_envD [OF same_env_basic(4) rows] by simp
  ultimately have start: "guarded (\<lambda>w. artifacts_sound w \<and> attempt_keys (ps_world g5) \<subseteq> attempt_keys w) g5"
    using orderly unfolding guarded_def orderly_def by auto
  then have "guarded (\<lambda>w. artifacts_sound w \<and> attempt_keys (ps_world g5) \<subseteq> attempt_keys w) g7"
    using maintains_step [OF maintains_export_artifacts bs] maintains_step [OF maintains_query atts] by blast
  then have late: "artifacts_sound (ps_world g7)" "attempt_keys (ps_world g5) \<subseteq> attempt_keys (ps_world g7)"
    by (simp_all add: guarded_def)
  from start have sound: "artifacts_sound (ps_world g5)" by (simp add: guarded_def)
  have at: "rows = listArtifactsForRun (ps_world g5) runId (Some (run_tenant_id run))" "attempts = listAttempts (ps_world g7) runId"
    using query_Inr [OF rows] query_Inr [OF atts] by simp_all
  have checked: "list_all2 (\<lambda>a b. artifact_importable (xe_sha256 xe) runId (map att_id attempts) b \<and> carries xe a b) rows bs"
    using sound late(2) by (intro export_artifacts [OF bs, of "ps_world g5"])
      (force simp: at listArtifactsForRun_def artifacts_sound_def artifact_sound_def attempt_keys_def listAttempts_def)
  have "map ba_id bs = map art_id rows" using checked
    by (induction rule: list_all2_induct) (simp_all add: carries_def)
  moreover have "distinct (map art_id rows)"
    using sound by (auto simp: at listArtifactsForRun_def artifacts_sound_def distinct_map inj_on_def)
  moreover have "list_all (artifact_importable (xe_sha256 xe) runId (map att_id attempts)) bs"
    using checked by (induction rule: list_all2_induct) simp_all
  ultimately have "validate_artifacts (xe_sha256 xe) runId (map att_id attempts) [] bs = Inr ()"
    by (simp add: validate_artifacts_iff)
  moreover have "\<forall>a \<in> set attempts. att_run_id a = runId \<and> att_id a \<noteq> []"
    using late(1) by (force simp: at listAttempts_def artifacts_sound_def attempt_keys_def)
  moreover have "stringField (xe_runJson xe run) ''id'' d = Inr runId" for d
    using json run by (simp add: stringField_def rows_as_json_def)
  ultimately have "validateRunBundleForImport (xe_sha256 xe) bundle = Inr ()"
    by (simp add: validateRunBundleForImport_def fields bundle_attempts [OF json] bindE_def thenE_def check_def)
  moreover have "check_gapless 0 events = Inr ()"
    using gapless by (simp add: liftP_Inr)
  moreover have "list_all2 (carries xe) rows bs" using checked by (rule list_all2_mono) blast
  ultimately show ?thesis using check_gapless_Inr [of 0 events] by (auto simp: fields at)
qed

text \<open>
  An exported bundle can be imported. Whatever happens to the database and in the store while a run is exported, as
  long as the rows of the artifacts stay sound and no attempt disappears, the bundle of an export that succeeds
  passes the validation of the import; its events are numbered from 1 without a gap; and it has, for each
  artifact that the run had at some moment, the bytes that the store gave for the object key of the row. An export for
  a tenant only succeeds for a run of that tenant.
\<close>

theorem exported_bundle_imports:
  assumes "exportRunBundle xe runId tid g = (Inr bundle, h)" and "runId \<noteq> []" and "rows_as_json xe"
    and "artifacts_sound (ps_world g)" and "orderly g"
  shows "validateRunBundleForImport (xe_sha256 xe) bundle = Inr ()
     \<and> map ev_seq (bu_events bundle) = map int [1..<Suc (length (bu_events bundle))]
     \<and> (\<exists>w w' run. getRun w runId None = Some run \<and> (tid = None \<or> tid = Some (run_tenant_id run))
          \<and> bu_run bundle = xe_runJson xe run
          \<and> list_all2 (carries xe) (listArtifactsForRun w' runId (Some (run_tenant_id run))) (bu_artifacts bundle))"
proof -
  from assms(1) obtain run g1 where found: "query (\<lambda>w. getRun w runId None) g = (Inr (Some run), g1)"
    and tenant: "tid = None \<or> tid = Some (run_tenant_id run)" and export: "export_run xe runId run g1 = (Inr bundle, h)"
    by (auto simp: exportRunBundle_def proc_Inr split: option.split_asm if_split_asm)
  from query_Inr [OF found] have run: "getRun (ps_world g1) runId None = Some run" by simp
  then have "run_id run = runId" by (auto simp: getRun_def dest: find_run_id)
  moreover have "guarded artifacts_sound g" using assms(4,5) by (simp add: guarded_def orderly_def)
  then have "guarded artifacts_sound g1" by (rule maintains_step [OF maintains_query found])
  moreover have "orderly g1" using assms(5) same_envD [OF same_env_basic(4) found] by (simp add: orderly_def)
  moreover have "bu_run bundle = xe_runJson xe run" using export by (auto simp: export_run_def Let_def proc_Inr)
  ultimately show ?thesis using export_run_imports [OF export] assms(2,3) run tenant by blast
qed

definition demo_export :: export_env where
  "demo_export =
     \<lparr>xe_sha256 = (\<lambda>_. replicate 64 CHR ''a''), xe_iso = int_digits,
      xe_store = demo_store\<lparr>os_get := (\<lambda>_ _. Inr ''report'')\<rparr>, xe_runJson = (\<lambda>r. [(''id'', JStr (run_id r))]),
      xe_attemptJson = (\<lambda>a. [(''id'', JStr (att_id a)), (''run_id'', JStr (att_run_id a))])\<rparr>"

definition demo_artifact :: artifact_row where
  "demo_artifact =
     \<lparr>art_id = ''art_1'', art_producer_run_id = ''run_1'', art_producer_attempt_id = ''att_1'', art_producer_step = 0,
      art_schema_version = 1, art_digest = ''sha256:'' @ replicate 64 CHR ''a'', art_mime_type = ''text/markdown'',
      art_size_bytes = 6, art_logical_role = ''output'', art_source_path = ''report.md'', art_source_refs = [],
      art_verification_refs = [], art_evidence_refs = [], art_object_key = ''key'', art_created_at = 1000\<rparr>"

definition demo_exported :: proc_state where
  "demo_exported = demo_start\<lparr>ps_world := demo_ready\<lparr>w_artifacts := [demo_artifact]\<rparr>\<rparr>"

lemma demo_rows:
  "getRun demo_ready ''run_1'' None = Some demo_unlimited" "events_of demo_ready ''run_1'' = []" "listRevisions demo_ready ''ws_1'' = []"
  "getRun (demo_ready\<lparr>w_artifacts := as\<rparr>) ''run_1'' None = Some demo_unlimited" "events_of (demo_ready\<lparr>w_artifacts := as\<rparr>) ''run_1'' = []"
  "listRevisions (demo_ready\<lparr>w_artifacts := as\<rparr>) ''ws_1'' = []"
  "listArtifactsForRun (demo_ready\<lparr>w_artifacts := [demo_artifact]\<rparr>) ''run_1'' (Some ''tnt_1'') = [demo_artifact]"
  by (simp_all add: getRun_def find_run_def events_of_def listRevisions_def listArtifactsForRun_def of_tenant_def exists_row_def
      demo_ready_def demo_unlimited_def demo_world_def demo_base_def fresh_database_def demo_artifact_def)

lemma demo_base64: "toBase64 ''report'' = ''cmVwb3J0''" by code_simp

lemma demo_record:
  "\<exists>b. artifactToBundleRecord demo_export demo_artifact ''report'' = Inr b \<and> ba_contentBase64 b = ''cmVwb3J0''"
  by (simp add: artifactToBundleRecord_def sha256Digest_def demo_export_def demo_artifact_def demo_base64 thenE_def check_def Let_def
      del: toBase64.simps)

lemma demo_export_bytes:
  "\<exists>b h. exportRunBundle demo_export ''run_1'' (Some ''tnt_1'') demo_exported = (Inr b, h)
     \<and> map ba_contentBase64 (bu_artifacts b) = [''cmVwb3J0'']"
proof -
  obtain b where b: "artifactToBundleRecord demo_export demo_artifact ''report'' = Inr b" "ba_contentBase64 b = ''cmVwb3J0''"
    using demo_record by blast
  have store: "os_get (xe_store demo_export) key n = Inr ''report''" for key n by (simp add: demo_export_def demo_store_def)
  have run: "run_tenant_id demo_unlimited = ''tnt_1''" "run_workspace_id demo_unlimited = Some ''ws_1''"
    by (simp_all add: demo_unlimited_def demo_run_def)
  show ?thesis
    by (simp add: exportRunBundle_def export_run_def export_artifact_def export_snapshot_def query_def withTransaction_def
        getsT_def commit_def bindP_def thenP_def returnP_def liftP_def provider_call_def external_def Let_def
        demo_exported_def demo_start_def demo_rows run store b)
qed

lemma demo_exported_sound: "artifacts_sound (ps_world demo_exported)" "orderly demo_exported" "rows_as_json demo_export"
proof -
  have "normalized ''report.md''" by code_simp
  then show "artifacts_sound (ps_world demo_exported)"
    by (simp add: demo_exported_def demo_start_def demo_ready_def artifacts_sound_def artifact_sound_def attempt_keys_def
        demo_artifact_def demo_world_def demo_attempt_def MAX_SAFE_INTEGER_def)
qed (simp_all add: demo_exported_def demo_start_def orderly_def rows_as_json_def demo_export_def jfield_def)

theorem exported_bundle_imports_witness:
  "\<exists>bundle h. exportRunBundle demo_export ''run_1'' (Some ''tnt_1'') demo_exported = (Inr bundle, h)
     \<and> validateRunBundleForImport (xe_sha256 demo_export) bundle = Inr () \<and> map ba_contentBase64 (bu_artifacts bundle) = [''cmVwb3J0'']"
proof -
  from demo_export_bytes obtain b h where "exportRunBundle demo_export ''run_1'' (Some ''tnt_1'') demo_exported = (Inr b, h)"
    "map ba_contentBase64 (bu_artifacts b) = [''cmVwb3J0'']" by (elim exE conjE)
  with exported_bundle_imports [OF this(1) _ demo_exported_sound(3,1,2)] show ?thesis by auto
qed

end
