(* ===== verification/Spec2Isabelle.thy ===== *)
theory Spec2Isabelle
  imports Event_Log Demo Scheduler Governed_Safety Fence_Admission Children Session_Events Run_Api Kernel_Steps Safe_Http Model_Calls Credentials Gate Outbox Tool_Safety Worker Bundle
begin

text \<open>
  A verification development of the managed agents runtime: a Postgres-backed kernel that runs
  agents as durable runs, hands them to workers under leases, gates their external actions and
  records everything in a per-run event ledger. The paths below are those of the repository's
  \<^verbatim>\<open>src/\<close> directory.

  \<^bold>\<open>The state.\<close> All durable state is in Postgres, so the state of the model is one record
  \<open>world\<close> (\<^verbatim>\<open>Schema\<close>) with a list of rows per table, the clock and the stream of fresh
  ids. An operation of the stores is a transaction \<open>'a txn\<close> (\<^verbatim>\<open>Prelude\<close>): a function of the
  world that returns a result and a world or throws one of the errors of the code; \<open>commit\<close> rolls
  back on an error. Row and advisory locks are what makes a transaction atomic; where the code
  skips locked rows or tries a lock, the set of rows that others hold is a parameter (\<open>locked\<close>,
  \<open>held\<close>). Every unique index that a statement can run into is an explicit
  \<open>UniqueViolation\<close>. Two choices of the database are fields of the world: the numbers that the
  rows of the outbox drew from their sequence (\<open>w_outbox_seq\<close>: distinct, with gaps, and not in the
  order in which the rows become visible), and the order in which a query returns rows that tie
  (\<open>w_scan\<close>). The envelope and the progress of a checkpoint are kept in the normal form of a
  \<^verbatim>\<open>JSONB\<close> column, which refuses the character U+0000; the other \<^verbatim>\<open>JSONB\<close> columns are kept as the
  values that were written.

  \<^bold>\<open>The theories and the code.\<close>
  \<^item> \<^verbatim>\<open>Run_Machine\<close>: \<^verbatim>\<open>core/stateMachine.ts\<close>, the transition table.
  \<^item> \<^verbatim>\<open>Ledger\<close>, \<^verbatim>\<open>Ledger_Inv\<close>: \<^verbatim>\<open>core/transition.ts\<close>; the invariants \<open>kernel_ok\<close> (gapless
    ledgers, mirrored outbox, admissions of live runs, sessions that mirror their run, fenced
    sessions) and the relation \<open>kernel_from\<close> in which every component's operations advance.
  \<^item> \<^verbatim>\<open>Event_Log\<close>: \<^verbatim>\<open>store/events.ts\<close> and the event stream; the locale \<open>gapless_log\<close> is the
    interface between a numbered log and a reader that pages through it.
  \<^item> \<^verbatim>\<open>Admissions\<close>, \<^verbatim>\<open>Runs\<close>: \<^verbatim>\<open>store/admissions.ts\<close>, \<^verbatim>\<open>store/runs.ts\<close>.
  \<^item> \<^verbatim>\<open>Scheduler\<close>: \<^verbatim>\<open>scheduler/claim.ts\<close>, \<^verbatim>\<open>scheduler/reaper.ts\<close>, \<^verbatim>\<open>store/attempts.ts\<close> and the
    transactions of \<^verbatim>\<open>harness/worker.ts\<close>; \<^verbatim>\<open>Worker\<close>: the rest of that file, the worker around them,
    and how it settles the run that it claimed.
  \<^item> \<^verbatim>\<open>Grants\<close>, \<^verbatim>\<open>Approvals\<close>, \<^verbatim>\<open>Receipts\<close>: the stores of the same names; \<^verbatim>\<open>One_Shot\<close> is the
    locale of tables whose rows are settled once, which approvals and receipts both interpret. The pattern of a
    grant is turned into the source of a regular expression, as in the code, which is parsed and
    run by a matcher for the part of the language that such sources can use.
  \<^item> \<^verbatim>\<open>Governed_Action\<close>, \<^verbatim>\<open>Governed_Safety\<close>: \<^verbatim>\<open>harness/governedAction.ts\<close> as a process that
    interleaves with the transactions of others, and what its traces satisfy;
    \<^verbatim>\<open>Fence_Admission\<close>: the pool admission of the same file.
  \<^item> \<^verbatim>\<open>Children\<close>: \<^verbatim>\<open>scheduler/children.ts\<close> and \<^verbatim>\<open>store/childLineage.ts\<close>.
  \<^item> \<^verbatim>\<open>Sessions\<close>, \<^verbatim>\<open>Session_Events\<close>: \<^verbatim>\<open>store/sessions.ts\<close>, \<^verbatim>\<open>store/sessionEvents.ts\<close>.
  \<^item> \<^verbatim>\<open>Run_Api\<close>: the handlers of \<^verbatim>\<open>api/routes/runs.ts\<close>. A handler reads in one database and
    commits its transaction in a later one.
  \<^item> \<^verbatim>\<open>Ip_Address\<close>, \<^verbatim>\<open>Safe_Http\<close>: \<^verbatim>\<open>net/safeHttp.ts\<close> over an arbitrary network and URL parser.
  \<^item> \<^verbatim>\<open>Supervisor\<close>: \<^verbatim>\<open>harness/supervisor.ts\<close>, \<^verbatim>\<open>harness/supervision.ts\<close>,
    \<^verbatim>\<open>harness/modelRouter.ts\<close>, \<^verbatim>\<open>core/costs.ts\<close>; its fractions are exact rationals.
  \<^item> \<^verbatim>\<open>Model_Calls\<close>: \<^verbatim>\<open>harness/limits.ts\<close>, \<^verbatim>\<open>store/modelUsage.ts\<close> and the budget of
    one invocation.
  \<^item> \<^verbatim>\<open>Js_Values\<close>, \<^verbatim>\<open>Governed_Inputs\<close>, \<^verbatim>\<open>Tool_Router\<close>, \<^verbatim>\<open>Tool_Safety\<close>: \<^verbatim>\<open>harness/toolRouter.ts\<close> and
    \<^verbatim>\<open>harness/mcp.ts\<close>, every tool of the agent with what it does to the database and to the world;
    \<^verbatim>\<open>Governed_Inputs\<close> proves which grants and which credential a connector is called with.
  \<^item> \<^verbatim>\<open>Patterns\<close>, \<^verbatim>\<open>Checkpoints\<close>: \<^verbatim>\<open>core/checkpoints.ts\<close>, the versioned envelope of an agent's state
    with its validation and its ban on secrets, over a small matcher for the regular expressions
    of the code; \<^verbatim>\<open>store/checkpoints.ts\<close>.
  \<^item> \<^verbatim>\<open>Artifacts\<close>: \<^verbatim>\<open>store/workspaces.ts\<close>, \<^verbatim>\<open>store/artifacts.ts\<close>, \<^verbatim>\<open>harness/workspace.ts\<close>,
    \<^verbatim>\<open>harness/artifacts.ts\<close> and \<^verbatim>\<open>harness/verifier.ts\<close>.
  \<^item> \<^verbatim>\<open>Context\<close>: \<^verbatim>\<open>harness/contextCompiler.ts\<close>, the prompt of a turn.
  \<^item> \<^verbatim>\<open>Epoch\<close>: \<^verbatim>\<open>harness/epoch.ts\<close> and \<^verbatim>\<open>harness/skills.ts\<close>, the whole execution epoch, composed of the
    operations above in the order of the code; \<^verbatim>\<open>Epoch_Safety\<close> is a calculus of what the loop
    asks of the model and how its counters move, \<^verbatim>\<open>Epoch_Demo\<close> runs an epoch to its end and
    \<^verbatim>\<open>Epoch_Claims\<close> states what epochs do.
  \<^item> \<^verbatim>\<open>Credentials\<close>: \<^verbatim>\<open>store/credentials.ts\<close>, the vault and the release of a secret.
  \<^item> \<^verbatim>\<open>Rate_Limit\<close>, \<^verbatim>\<open>Gate\<close>: \<^verbatim>\<open>api/rateLimit.ts\<close>, \<^verbatim>\<open>api/auth.ts\<close>, \<^verbatim>\<open>store/tenants.ts\<close> and the
    authentication hook of \<^verbatim>\<open>api/server.ts\<close>; the locale \<open>token_bucket\<close> is the contract of both buckets.
  \<^item> \<^verbatim>\<open>Outbox\<close>: \<^verbatim>\<open>store/outbox.ts\<close> and \<^verbatim>\<open>bin/relay.ts\<close>; the locale \<open>simulation\<close> relates the relays to
    the abstract at-least-once channel that they implement. The order within a run needs that the
    numbers of its rows grow, which holds because they are drawn under the lock of the run's row (\<open>run_ordered\<close>).
  \<^item> \<^verbatim>\<open>Bundle\<close>: \<^verbatim>\<open>export/runBundle.ts\<close>, the export of a run, base64 and the validation before an import; what is
    exported passes the validation.
  \<^item> \<^verbatim>\<open>Kernel_Steps\<close>: every transaction above as a step on the database, and when a run can be
    claimed a second time; the root theory proves what all histories of such steps satisfy.
  \<^item> \<^verbatim>\<open>Demo\<close>: the databases at which the witnesses evaluate.

  \<^bold>\<open>Parameters.\<close> Ids come from a stream of ULIDs, digests from a function \<open>sha256\<close>, and the
  decimal form of a JavaScript number from a function; the properties need no more of them than
  they say. \<^verbatim>\<open>Number\<close>, \<^verbatim>\<open>JSON.parse\<close> and the URL parser are parameters too. Strings are their UTF-8
  bytes; where the code counts or cuts UTF-16 units the model computes them from the bytes, and a
  cut never splits a character; trimming and case conversion are the ASCII ones. The clocks of the rate limiter and
  the fractions of the supervisor are exact rationals. The provider of models, the sandbox, the network and the
  resolver are functions of their arguments that may answer anything.

  \<^bold>\<open>Bounds and fuel.\<close> Loops that the code runs over rows it has selected are recursion on those
  rows. \<open>reapExpiredLeases\<close> and the wake and dispatch loops take as fuel the number of
  iterations; the reaper is proved to end within the number of active attempts. The stream of
  events and the pages of a session are runs over an arbitrary list of databases, one per read.
  The loop of an epoch takes as fuel its number of turns; \<open>epoch_fuel\<close>, three turns per step of the
  run and one more, is proved to be enough for every run, because a turn either advances the step
  or is one of at most three in a row that call no tool.

  \<^bold>\<open>Not modelled.\<close> Timers, sockets and polling delays; the abort of a model call while it runs, the
  scripted epoch and the crashes that the fault tests inject; foreign keys and triggers as errors of
  their own (the code never reaches them with the rows it writes); the
  clients of remote services under \<^verbatim>\<open>providers/\<close>, the entry points under \<^verbatim>\<open>bin/\<close> and the
  build-time checks of the release gate.
\<close>

section \<open>The history of a run\<close>

text \<open>
  C22: the kernel keeps every history. Whatever transactions of whatever components commit, in
  whatever order: the invariants hold; the ledger only grows, and every run's part of it stays
  numbered without gaps; no run disappears or changes its identity, its status only moves along
  the state machine, and a finished run keeps its status, reason and result for good; a closed
  session stays closed.
\<close>

theorem kernel_history:
  assumes "kernel_step\<^sup>*\<^sup>* w w'" and "kernel_ok w"
  shows "kernel_ok w' \<and> (\<exists>later. w_events w' = w_events w @ later)
     \<and> (\<forall>r \<in> set (w_runs w'). map ev_seq (filter (\<lambda>e. ev_run_id e = run_id r) (w_events w')) = [1..run_last_event_seq r])
     \<and> (\<forall>r \<in> set (w_runs w). \<exists>r' \<in> set (w_runs w'). run_identity r' = run_identity r
          \<and> run_step\<^sup>*\<^sup>* (run_status r) (run_status r')
          \<and> (isTerminal (run_status r) \<longrightarrow> run_status r' = run_status r
               \<and> run_status_reason r' = run_status_reason r \<and> run_result r' = run_result r))
     \<and> (\<forall>s \<in> set (w_sessions w). \<exists>s' \<in> set (w_sessions w'). ses_id s' = ses_id s
          \<and> ses_tenant_id s' = ses_tenant_id s \<and> (\<not> session_open s \<longrightarrow> ses_state s' = ses_state s))"
proof -
  have from_w: "kernel_from w w'" by (rule kernel_steps_from [OF assms(1) kernel_from_refl [OF assms(2)]])
  then have ok: "kernel_ok w'" and adv: "advances w w'" by (simp_all add: kernel_from_def)
  have "map ev_seq (filter (\<lambda>e. ev_run_id e = run_id r) (w_events w')) = [1..run_last_event_seq r]"
    if "r \<in> set (w_runs w')" for r
    using kernel_okD [OF ok] that by (simp add: ledger_ok_def gapless_def)
  moreover have "\<exists>r' \<in> set (w_runs w'). run_identity r' = run_identity r
          \<and> run_step\<^sup>*\<^sup>* (run_status r) (run_status r')
          \<and> (isTerminal (run_status r) \<longrightarrow> run_status r' = run_status r
               \<and> run_status_reason r' = run_status_reason r \<and> run_result r' = run_result r)"
    if "r \<in> set (w_runs w)" for r
    using adv that terminal_stays unfolding advances_def run_advances_def by metis
  moreover have "\<exists>s' \<in> set (w_sessions w'). ses_id s' = ses_id s
          \<and> ses_tenant_id s' = ses_tenant_id s \<and> (\<not> session_open s \<longrightarrow> ses_state s' = ses_state s)"
    if "s \<in> set (w_sessions w)" for s
    using adv that by (auto simp: advances_def session_advances_def)
  moreover have "\<exists>later. w_events w' = w_events w @ later" using adv by (simp add: advances_def)
  ultimately show ?thesis using ok by blast
qed

theorem kernel_history_witness:
  "\<exists>r' w'. kernel_step\<^sup>*\<^sup>* (demo_world RUNNING) w' \<and> run_status r' = CANCELLED \<and> w_runs w' = [r']
     \<and> (\<exists>later. w_events w' = later \<and> later \<noteq> []) \<and> kernel_ok w'"
proof -
  have step: "transitionRun ''run_1'' demo_cancel (demo_world RUNNING) =
      Inr (transition_row demo_cancel 1 1000 (demo_run RUNNING), transition_world (demo_run RUNNING) demo_cancel (demo_world RUNNING))"
    by (simp add: transitionRun_iff demo_cancel_def isTransitionAllowed_def exists_row_def)
  let ?w = "transition_world (demo_run RUNNING) demo_cancel (demo_world RUNNING)"
  have "kernel_step\<^sup>*\<^sup>* (demo_world RUNNING) ?w"
    using step by (intro r_into_rtranclp kernel_step.transition [of "''run_1''" demo_cancel]) (auto simp: commits_def)
  moreover from kernel_history [OF this demo_world_ok] have "kernel_ok ?w" by blast
  moreover have "w_runs ?w = [transition_row demo_cancel 1 1000 (demo_run RUNNING)]" "w_events ?w \<noteq> []"
    "run_status (transition_row demo_cancel 1 1000 (demo_run RUNNING)) = CANCELLED"
    by (simp_all add: demo_cancel_def update_where_def)
  ultimately show ?thesis by blast
qed

end
